(* ===== verification/Bridge_Prelude.thy ===== *)
theory Bridge_Prelude
  imports Main
begin

text \<open>
  Shared ground of the development: JSON-shaped values and Python dictionaries, decimal
  printing, the string operations the sources use, the timestamp arithmetic (a
  \<^verbatim>\<open>datetime\<close> is an integer number of microseconds), the first maximum
  that Python's \<^verbatim>\<open>max(..., key=...)\<close> returns, and generic lemmas on filtered
  lists that the table models of the components share.
\<close>

named_theorems py_simps \<open>unfolding of the models of Python's library operations\<close>
named_theorems table_simps \<open>rewriting of table operations (filter, map over rows)\<close>

text \<open>A text beyond the characters below 256 is the list of its code points.\<close>

type_synonym codes = "nat list"

subsection \<open>JSON values and dictionaries\<close>

datatype json =
    JNull
  | JBool bool
  | JInt int
  | JFloat string \<comment> \<open>a float, by its literal\<close>
  | JStr string
  | JList "json list"
  | JObj "(string \<times> json) list"

type_synonym dict = "(string \<times> json) list"

abbreviation jopt_str :: "string option \<Rightarrow> json" where
  "jopt_str x \<equiv> (case x of None \<Rightarrow> JNull | Some s \<Rightarrow> JStr s)"

abbreviation jopt_int :: "int option \<Rightarrow> json" where
  "jopt_int x \<equiv> (case x of None \<Rightarrow> JNull | Some i \<Rightarrow> JInt i)"

text \<open>An HTTP answer: status, JSON body and the Retry-After header when it is set.\<close>

record response =
  status_code :: int
  content :: dict
  retry_after_header :: "string option"

definition json_response :: "int \<Rightarrow> dict \<Rightarrow> response" where
  "json_response st body = \<lparr>status_code = st, content = body, retry_after_header = None\<rparr>"

lemma json_response_sel [simp]:
  "status_code (json_response st b) = st"
  "content (json_response st b) = b"
  "retry_after_header (json_response st b) = None"
  by (simp_all add: json_response_def)

subsection \<open>Decimal printing\<close>

definition digit_char :: "int \<Rightarrow> char" where
  "digit_char d = (if d = 0 then CHR ''0'' else if d = 1 then CHR ''1''
     else if d = 2 then CHR ''2'' else if d = 3 then CHR ''3'' else if d = 4 then CHR ''4''
     else if d = 5 then CHR ''5'' else if d = 6 then CHR ''6'' else if d = 7 then CHR ''7''
     else if d = 8 then CHR ''8'' else CHR ''9'')"

function show_digits :: "int \<Rightarrow> string" where
  "show_digits n = (if n < 10 then [digit_char n] else show_digits (n div 10) @ [digit_char (n mod 10)])"
  by pat_completeness auto
termination
  by (relation "measure nat") auto

declare show_digits.simps [simp del]

definition show_int :: "int \<Rightarrow> string" where
  "show_int i = (if i < 0 then CHR ''-'' # show_digits (- i) else show_digits i)"

subsection \<open>Strings\<close>

fun starts_with :: "string \<Rightarrow> string \<Rightarrow> bool" where
  "starts_with s [] = True"
| "starts_with [] (p # ps) = False"
| "starts_with (c # s) (p # ps) = (c = p \<and> starts_with s ps)"

lemma starts_with_append [simp]: "starts_with (p @ s) p"
  by (induction p) auto

lemma starts_with_iff: "starts_with s p \<longleftrightarrow> (\<exists>t. s = p @ t)"
  by (induction s p rule: starts_with.induct) auto

lemma starts_with_appendD: "starts_with s (p @ q) \<Longrightarrow> starts_with s p"
  by (auto simp: starts_with_iff)

lemma drop_starts_with: "starts_with s p \<Longrightarrow> p @ drop (length p) s = s"
  by (auto simp: starts_with_iff)

text \<open>A text between single quotes.\<close>

definition quoted :: "string \<Rightarrow> string" where
  "quoted s = [CHR 0x27] @ s @ [CHR 0x27]"

text \<open>\<^verbatim>\<open>sep.join(parts)\<close> of the sources.\<close>

fun join_with :: "string \<Rightarrow> string list \<Rightarrow> string" where
  "join_with sep [] = []"
| "join_with sep [x] = x"
| "join_with sep (x # y # xs) = x @ sep @ join_with sep (y # xs)"

text \<open>Whitespace that \<^verbatim>\<open>str.strip()\<close> and \<^verbatim>\<open>\s\<close> know among the code points below 256.\<close>

definition is_space :: "char \<Rightarrow> bool" where
  "is_space c = (let n = (of_char c :: nat) in
     n = 32 \<or> (9 \<le> n \<and> n \<le> 13) \<or> (28 \<le> n \<and> n \<le> 31) \<or> n = 133 \<or> n = 160)"

definition strip :: "string \<Rightarrow> string" where
  "strip s = rev (dropWhile is_space (rev (dropWhile is_space s)))"

definition is_digit :: "char \<Rightarrow> bool" where
  "is_digit c = (let n = (of_char c :: nat) in 48 \<le> n \<and> n \<le> 57)"

text \<open>
  \<^verbatim>\<open>int(s)\<close>: surrounding whitespace, a sign, digits with single underscores between them;
  anything else is a \<^verbatim>\<open>ValueError\<close>.
\<close>

fun py_digits :: "bool \<Rightarrow> int \<Rightarrow> string \<Rightarrow> int option" where
  "py_digits after_digit acc [] = (if after_digit then Some acc else None)"
| "py_digits after_digit acc (c # cs) =
     (if is_digit c then py_digits True (acc * 10 + (of_char c - 48)) cs
      else if c = CHR ''_'' \<and> after_digit then py_digits False acc cs else None)"

definition py_int :: "string \<Rightarrow> int option" where
  "py_int s =
    (case strip s of
       [] \<Rightarrow> None
     | c # t \<Rightarrow>
         if c = CHR ''-'' then map_option uminus (py_digits False 0 t)
         else if c = CHR ''+'' then py_digits False 0 t
         else py_digits False 0 (c # t))"

text \<open>\<^verbatim>\<open>x or y\<close> of optional texts: an empty text is false.\<close>

definition or_else :: "string option \<Rightarrow> string option \<Rightarrow> string option" where
  "or_else x y = (case x of None \<Rightarrow> y | Some s \<Rightarrow> if s = [] then y else x)"

definition lower_char :: "char \<Rightarrow> char" where
  "lower_char c = (let n = (of_char c :: nat) in
     if 65 \<le> n \<and> n \<le> 90 then char_of (n + 32) else c)"

text \<open>\<^verbatim>\<open>str.lower()\<close> on ASCII text, the only text the sources lower-case.\<close>

definition lower :: "string \<Rightarrow> string" where
  "lower s = map lower_char s"

subsection \<open>Time\<close>

text \<open>
  A \<^verbatim>\<open>datetime\<close> counts microseconds, its resolution in Python; seconds of the settings
  are scaled. \<^verbatim>\<open>math.ceil(delta.total_seconds())\<close> is the ceiling of the microseconds over
  a million: the rounding of the float division cannot reach an integer from below for any
  difference shorter than 2^33 seconds.
\<close>

type_synonym usec = int

definition seconds :: "int \<Rightarrow> usec" where
  "seconds n = n * 1000000"

definition ceil_seconds :: "usec \<Rightarrow> int" where
  "ceil_seconds d = - ((- d) div 1000000)"

lemma seconds_mono [simp]: "seconds a \<le> seconds b \<longleftrightarrow> a \<le> b"
  by (simp add: seconds_def)

lemma seconds_less [simp]: "seconds a < seconds b \<longleftrightarrow> a < b"
  by (simp add: seconds_def)

lemma seconds_nonneg [simp]: "0 \<le> seconds a \<longleftrightarrow> 0 \<le> a"
  by (simp add: seconds_def)

lemma ceil_seconds_ge: "d \<le> seconds (ceil_seconds d)"
proof -
  have "- d = (- d) div 1000000 * 1000000 + (- d) mod 1000000" by simp
  moreover have "0 \<le> (- d) mod 1000000" by simp
  ultimately show ?thesis by (simp add: ceil_seconds_def seconds_def)
qed

lemma ceil_seconds_least:
  assumes "d \<le> seconds n" shows "ceil_seconds d \<le> n"
proof -
  have "- n = (- n * 1000000) div 1000000" by simp
  also have "\<dots> \<le> (- d) div 1000000"
    using assms by (intro zdiv_mono1) (simp_all add: seconds_def)
  finally show ?thesis by (simp add: ceil_seconds_def)
qed

text \<open>
  \<^verbatim>\<open>datetime.isoformat()\<close> of a UTC time given as microseconds since 1970-01-01: the civil
  date of the day number, then the clock, microseconds only when they are not zero, and the
  offset.
\<close>

definition civil_of_days :: "int \<Rightarrow> int \<times> int \<times> int" where
  "civil_of_days days =
    (let z = days + 719468;
         era = z div 146097;
         doe = z mod 146097;
         yoe = (doe - doe div 1460 + doe div 36524 - doe div 146096) div 365;
         doy = doe - (365 * yoe + yoe div 4 - yoe div 100);
         mp = (5 * doy + 2) div 153;
         d = doy - (153 * mp + 2) div 5 + 1;
         m = (if mp < 10 then mp + 3 else mp - 9)
     in (yoe + era * 400 + (if m \<le> 2 then 1 else 0), m, d))"

definition pad :: "nat \<Rightarrow> int \<Rightarrow> string" where
  "pad w i = (let t = show_int i in replicate (w - length t) (CHR ''0'') @ t)"

definition isoformat :: "usec \<Rightarrow> string" where
  "isoformat t =
    (let us = t mod 1000000;
         secs = t div 1000000;
         tod = secs mod 86400
     in (case civil_of_days (secs div 86400) of (y, m, d) \<Rightarrow>
       pad 4 y @ ''-'' @ pad 2 m @ ''-'' @ pad 2 d @ ''T'' @
       pad 2 (tod div 3600) @ '':'' @ pad 2 (tod div 60 mod 60) @ '':'' @ pad 2 (tod mod 60) @
       (if us = 0 then [] else ''.'' @ pad 6 us) @ ''+00:00''))"

lemma isoformat_example: "isoformat 1760000000123456 = ''2025-10-09T08:53:20.123456+00:00''"
  by code_simp

subsection \<open>The first maximum\<close>

text \<open>Python's \<^verbatim>\<open>max(xs, key=f)\<close> keeps the first of equal maxima.\<close>

fun max_first :: "('a \<Rightarrow> 'k::linorder) \<Rightarrow> 'a \<Rightarrow> 'a list \<Rightarrow> 'a" where
  "max_first f best [] = best"
| "max_first f best (x # xs) = max_first f (if f best < f x then x else best) xs"

lemma max_first_in: "max_first f b xs \<in> set (b # xs)"
proof (induction xs arbitrary: b)
  case (Cons x xs)
  show ?case using Cons.IH [of "if f b < f x then x else b"] by (auto split: if_splits)
qed simp

lemma max_first_ge_start: "f b \<le> f (max_first f b xs)"
proof (induction xs arbitrary: b)
  case (Cons x xs)
  have "f b \<le> f (if f b < f x then x else b)" by (simp add: less_imp_le)
  also have "\<dots> \<le> f (max_first f (if f b < f x then x else b) xs)" by (rule Cons.IH)
  finally show ?case by simp
qed simp

lemma max_first_ge: "y \<in> set (b # xs) \<Longrightarrow> f y \<le> f (max_first f b xs)"
proof (induction xs arbitrary: b)
  case (Cons x xs)
  let ?b = "if f b < f x then x else b"
  have le: "f b \<le> f ?b" "f x \<le> f ?b" by (auto simp: less_imp_le not_less)
  have "f ?b \<le> f (max_first f ?b xs)" by (rule max_first_ge_start)
  with le Cons show ?case by (auto intro: order_trans)
qed simp

subsection \<open>Rows of a table\<close>

text \<open>Counting the rows that satisfy a predicate.\<close>

abbreviation count_rows :: "('a \<Rightarrow> bool) \<Rightarrow> 'a list \<Rightarrow> nat" where
  "count_rows P rows \<equiv> length (filter P rows)"

lemma count_rows_mono:
  assumes "\<And>x. x \<in> set xs \<Longrightarrow> P x \<Longrightarrow> Q x"
  shows "count_rows P xs \<le> count_rows Q xs"
  using assms by (induction xs) auto

lemma count_rows_filter_le: "count_rows P (filter Q xs) \<le> count_rows P xs"
  by (simp add: filter_filter) (rule count_rows_mono, simp)

lemma count_rows_cong_set:
  "(\<And>x. x \<in> set xs \<Longrightarrow> P x = Q x) \<Longrightarrow> count_rows P xs = count_rows Q xs"
  by (metis filter_cong)

lemma count_rows_replicate [table_simps]:
  "count_rows P (replicate n x) = (if P x then n else 0)"
  by (induction n) auto

lemma count_rows_0_iff: "count_rows P xs = 0 \<longleftrightarrow> (\<forall>x \<in> set xs. \<not> P x)"
  by (induction xs) auto

text \<open>\<^verbatim>\<open>SELECT ... .one_or_none()\<close> on rows that a unique key keeps apart.\<close>

definition one_or_none :: "('a \<Rightarrow> bool) \<Rightarrow> 'a list \<Rightarrow> 'a option" where
  "one_or_none P rows = find P rows"

lemma one_or_none_Some: "one_or_none P rows = Some r \<Longrightarrow> r \<in> set rows \<and> P r"
  by (induction rows) (auto simp: one_or_none_def split: if_splits)

lemma one_or_none_None: "one_or_none P rows = None \<longleftrightarrow> (\<forall>r \<in> set rows. \<not> P r)"
  by (induction rows) (auto simp: one_or_none_def)

text \<open>\<^verbatim>\<open>UPDATE ... SET ... WHERE\<close>.\<close>

definition update_rows :: "('a \<Rightarrow> bool) \<Rightarrow> ('a \<Rightarrow> 'a) \<Rightarrow> 'a list \<Rightarrow> 'a list" where
  "update_rows P f rows = map (\<lambda>r. if P r then f r else r) rows"

lemma length_update_rows [simp, table_simps]: "length (update_rows P f rows) = length rows"
  by (simp add: update_rows_def)

lemma set_update_rows [table_simps]:
  "set (update_rows P f rows) = {f r |r. r \<in> set rows \<and> P r} \<union> {r \<in> set rows. \<not> P r}"
  by (auto simp: update_rows_def)

lemma map_update_rows_keep:
  "(\<And>r. P r \<Longrightarrow> g (f r) = g r) \<Longrightarrow> map g (update_rows P f rows) = map g rows"
  by (simp add: update_rows_def)

subsection \<open>Invariants of step relations\<close>

text \<open>
  The contract of a component whose operations are the steps of a relation: each step keeps
  the invariant, so every run keeps it.
\<close>

locale preserved =
  fixes step :: "'s \<Rightarrow> 's \<Rightarrow> bool" and inv :: "'s \<Rightarrow> bool"
  assumes step_inv: "step s t \<Longrightarrow> inv s \<Longrightarrow> inv t"
begin

lemma run_inv: "step\<^sup>*\<^sup>* s t \<Longrightarrow> inv s \<Longrightarrow> inv t"
  by (induction rule: rtranclp_induct) (auto intro: step_inv)

end

text \<open>Runs of a labelled step relation with their events, the oldest first.\<close>

inductive run_of :: "('w \<Rightarrow> 'e \<Rightarrow> 'w \<Rightarrow> bool) \<Rightarrow> 'w \<Rightarrow> 'e list \<Rightarrow> 'w \<Rightarrow> bool" for step where
  start: "run_of step w [] w"
| more: "\<lbrakk>run_of step w es w'; step w' ev w''\<rbrakk> \<Longrightarrow> run_of step w (es @ [ev]) w''"

lemma run_of_snoc: "run_of step w (es @ [ev]) w'' \<longleftrightarrow> (\<exists>w'. run_of step w es w' \<and> step w' ev w'')"
  by (auto elim: run_of.cases intro: run_of.more)

lemma run_of_prefix: "run_of step w (es @ fs) w' \<Longrightarrow> \<exists>w1. run_of step w es w1"
proof (induction fs arbitrary: w' rule: rev_induct)
  case (snoc f fs)
  then show ?case using run_of_snoc [of step w "es @ fs" f w'] by auto
qed auto

text \<open>Its contract for invariants that speak of the events so far.\<close>

locale traced =
  fixes step :: "'w \<Rightarrow> 'e \<Rightarrow> 'w \<Rightarrow> bool" and inv :: "'e list \<Rightarrow> 'w \<Rightarrow> bool"
  assumes step_inv: "step w ev w' \<Longrightarrow> inv es w \<Longrightarrow> inv (es @ [ev]) w'"
begin

lemma run_inv: "run_of step w es w' \<Longrightarrow> inv [] w \<Longrightarrow> inv es w'"
  by (induction rule: run_of.induct) (auto intro: step_inv)

end

end
