(* ===== verification/Control_Tables.thy ===== *)
theory Control_Tables
  imports Bridge_Prelude
begin

text \<open>
  The control tables the services share (\<^verbatim>\<open>app/models.py\<close>): accounts with their tool
  policies and API keys, the write-limit settings and counters, the audit log. A table is the
  list of its rows in insertion order, a row is a record with the columns the modelled code
  reads or writes, NULL is \<^term>\<open>None\<close>. Times are microseconds.
\<close>

record account =
  acc_id :: int
  acc_alias :: string
  acc_phone :: string
  acc_mode :: string
  acc_is_enabled :: bool
  acc_platform :: string
  acc_platform_user_id :: "int option"
  acc_write_chat_ids :: "int list option"
  acc_write_rate_per_hour :: "int option"
  acc_external_user_id :: "int option"
  acc_tg_user_id :: "int option"
  acc_display_name :: "string option"
  acc_watch_chat_ids :: "int list option"
  acc_notes :: "string option"

record account_tool_policy =
  pol_account_id :: int
  pol_tool_name :: string
  pol_effect :: string

record audit_log =
  log_ts :: usec
  log_account_id :: "int option"
  log_alias :: "string option"
  log_tool :: string
  log_is_write :: bool
  log_chat_id :: "int option"
  log_target_user_id :: "int option"
  log_params_digest :: "string option"
  log_status :: string
  log_error :: "string option"

record api_key =
  key_id :: int
  key_scope :: string
  key_account_id :: "int option"
  key_hash :: string
  key_label :: "string option"
  key_created_at :: "usec option"
  key_last_used_at :: "usec option"
  key_revoked_at :: "usec option"

text \<open>
  The kinds of counted events (\<^verbatim>\<open>write_events.kind\<close>) and one counted write.
\<close>

datatype wkind =
    Send
  | Action
  | Lookup
  | Group_create
  | Group_invite
  | Chat_join
  | Contact_import

record write_event =
  ev_id :: int
  ev_account_id :: int
  ev_kind :: wkind
  ev_tool :: string
  ev_chat_id :: "int option"
  ev_new_dialog :: bool
  ev_at :: usec

text \<open>
  The settings of the write limits (\<^verbatim>\<open>Limits\<close> of write_limits.py, the columns of
  \<^verbatim>\<open>account_write_limits\<close>): \<^term>\<open>None\<close> turns a limit off.
\<close>

record limits =
  enabled :: bool
  per_minute :: "int option"
  per_hour :: "int option"
  per_day :: "int option"
  new_dialogs_per_day :: "int option"
  min_interval_sec :: "int option"
  jitter_sec :: "int option"
  actions_per_hour :: "int option"
  phone_lookups_per_day :: "int option"
  groups_created_per_day :: "int option"
  group_invites_per_day :: "int option"
  chats_joined_per_day :: "int option"
  contacts_imported_per_day :: "int option"

text \<open>Looking an account up by a unique column.\<close>

definition account_by_id :: "account list \<Rightarrow> int \<Rightarrow> account option" where
  "account_by_id accs i = one_or_none (\<lambda>a. acc_id a = i) accs"

lemma account_by_id_Some:
  "account_by_id accs i = Some a \<Longrightarrow> a \<in> set accs \<and> acc_id a = i"
  unfolding account_by_id_def by (rule one_or_none_Some)

end
