(* ===== verification/Write_Limits.thy ===== *)
theory Write_Limits
  imports Control_Tables
begin

text \<open>
  Messenger write limits per account (\<^verbatim>\<open>app/authz/write_limits.py\<close>): the settings and
  their platform defaults, the sliding windows, the counters over \<^verbatim>\<open>write_events\<close>,
  the refusal, the reservation of a slot under the account's advisory lock, its release, and the
  status shown to the administrator. A reservation is split as the code splits it: what is read
  before the lock (\<^verbatim>\<open>reserve_pre\<close>) and the transaction under the lock
  (\<^verbatim>\<open>reserve_locked\<close>), so that lemmas can let other writes happen in between.
\<close>

subsection \<open>Settings\<close>

definition LOOKUP_DEFAULT :: int where
  "LOOKUP_DEFAULT = 20"

definition DEFAULT_LIMITS :: limits where
  "DEFAULT_LIMITS = \<lparr>enabled = True, per_minute = Some 5, per_hour = Some 20, per_day = Some 100,
     new_dialogs_per_day = Some 10, min_interval_sec = Some 3, jitter_sec = Some 2,
     actions_per_hour = Some 60, phone_lookups_per_day = Some LOOKUP_DEFAULT,
     groups_created_per_day = Some 3, group_invites_per_day = Some 30,
     chats_joined_per_day = Some 5, contacts_imported_per_day = Some 50\<rparr>"

definition NO_LIMITS :: limits where
  "NO_LIMITS = \<lparr>enabled = True, per_minute = None, per_hour = None, per_day = None,
     new_dialogs_per_day = None, min_interval_sec = None, jitter_sec = None,
     actions_per_hour = None, phone_lookups_per_day = Some LOOKUP_DEFAULT,
     groups_created_per_day = None, group_invites_per_day = None,
     chats_joined_per_day = None, contacts_imported_per_day = None\<rparr>"

text \<open>\<^verbatim>\<open>PLATFORM_DEFAULTS.get(platform)\<close>: an unknown platform has no default either.\<close>

definition PLATFORM_DEFAULTS :: "string \<Rightarrow> limits option" where
  "PLATFORM_DEFAULTS p = (if p = ''max'' then Some DEFAULT_LIMITS else None)"

record window =
  w_name :: string
  w_kind :: wkind
  w_seconds :: int
  w_new_dialogs_only :: bool
  w_noun :: string

definition mk_window :: "string \<Rightarrow> wkind \<Rightarrow> int \<Rightarrow> bool \<Rightarrow> string \<Rightarrow> window" where
  "mk_window n k s d noun =
     \<lparr>w_name = n, w_kind = k, w_seconds = s, w_new_dialogs_only = d, w_noun = noun\<rparr>"

definition WINDOWS :: "window list" where
  "WINDOWS = [
     mk_window ''per_minute'' Send 60 False ''sends'',
     mk_window ''per_hour'' Send 3600 False ''sends'',
     mk_window ''per_day'' Send 86400 False ''sends'',
     mk_window ''new_dialogs_per_day'' Send 86400 True ''new dialogs'',
     mk_window ''actions_per_hour'' Action 3600 False ''actions'',
     mk_window ''phone_lookups_per_day'' Lookup 86400 False ''phone lookups'',
     mk_window ''groups_created_per_day'' Group_create 86400 False ''groups created'',
     mk_window ''group_invites_per_day'' Group_invite 86400 False ''group invites'',
     mk_window ''chats_joined_per_day'' Chat_join 86400 False ''chats joined'',
     mk_window ''contacts_imported_per_day'' Contact_import 86400 False ''contacts imported'']"

text \<open>\<^verbatim>\<open>getattr(limits, w.name)\<close> for the names of the windows.\<close>

definition limit_of :: "limits \<Rightarrow> string \<Rightarrow> int option" where
  "limit_of l n =
    (if n = ''per_minute'' then per_minute l
     else if n = ''per_hour'' then per_hour l
     else if n = ''per_day'' then per_day l
     else if n = ''new_dialogs_per_day'' then new_dialogs_per_day l
     else if n = ''actions_per_hour'' then actions_per_hour l
     else if n = ''phone_lookups_per_day'' then phone_lookups_per_day l
     else if n = ''groups_created_per_day'' then groups_created_per_day l
     else if n = ''group_invites_per_day'' then group_invites_per_day l
     else if n = ''chats_joined_per_day'' then chats_joined_per_day l
     else if n = ''contacts_imported_per_day'' then contacts_imported_per_day l
     else None)"

definition MAX_WAIT_SEC :: int where
  "MAX_WAIT_SEC = 15"

definition RETENTION :: usec where
  "RETENTION = seconds (25 * 3600)"

subsection \<open>The tables\<close>

text \<open>
  The rows the module works on: the accounts, the own settings of an account, the events (with
  the identity column's next value), and what \<^verbatim>\<open>_has_history\<close> reads: the chats of an
  account with their messages in the per-account tables, the chat ids of the messages in the
  legacy tables of the two platforms.
\<close>

record wl_db =
  db_accounts :: "account list"
  db_limits :: "int \<rightharpoonup> limits"
  db_events :: "write_event list"
  db_next_event :: int
  db_chats :: "(int \<times> int \<times> int) list" \<comment> \<open>account, internal chat id, external chat id\<close>
  db_messages :: "(int \<times> int) list" \<comment> \<open>account, internal chat id\<close>
  db_tg_messages :: "int list"
  db_max_messages :: "int list"

record effective =
  eff_account_id :: int
  eff_alias :: string
  eff_platform :: string
  eff_limits :: "limits option"
  eff_source :: string

definition effective_of :: "wl_db \<Rightarrow> int \<Rightarrow> effective option" where
  "effective_of db a =
    (case account_by_id (db_accounts db) a of
       None \<Rightarrow> None
     | Some acc \<Rightarrow>
         (case db_limits db a of
            Some own \<Rightarrow> Some \<lparr>eff_account_id = a, eff_alias = acc_alias acc,
                eff_platform = acc_platform acc, eff_limits = Some own, eff_source = ''account''\<rparr>
          | None \<Rightarrow>
              (let def = PLATFORM_DEFAULTS (acc_platform acc)
               in Some \<lparr>eff_account_id = a, eff_alias = acc_alias acc,
                    eff_platform = acc_platform acc, eff_limits = def,
                    eff_source = (if def \<noteq> None then ''default'' else ''none'')\<rparr>)))"

text \<open>
  The fields of a PATCH (\<^verbatim>\<open>changes\<close>): the administrator's endpoint passes the fields that
  were set. A change of the enabled flag is a Boolean, of a limit a number or null.
\<close>

datatype change =
    Set_enabled bool
  | Set_limit string "int option"

definition set_field :: "limits \<Rightarrow> string \<Rightarrow> int option \<Rightarrow> limits" where
  "set_field l n v =
    (if n = ''per_minute'' then l\<lparr>per_minute := v\<rparr>
     else if n = ''per_hour'' then l\<lparr>per_hour := v\<rparr>
     else if n = ''per_day'' then l\<lparr>per_day := v\<rparr>
     else if n = ''new_dialogs_per_day'' then l\<lparr>new_dialogs_per_day := v\<rparr>
     else if n = ''min_interval_sec'' then l\<lparr>min_interval_sec := v\<rparr>
     else if n = ''jitter_sec'' then l\<lparr>jitter_sec := v\<rparr>
     else if n = ''actions_per_hour'' then l\<lparr>actions_per_hour := v\<rparr>
     else if n = ''phone_lookups_per_day'' then l\<lparr>phone_lookups_per_day := v\<rparr>
     else if n = ''groups_created_per_day'' then l\<lparr>groups_created_per_day := v\<rparr>
     else if n = ''group_invites_per_day'' then l\<lparr>group_invites_per_day := v\<rparr>
     else if n = ''chats_joined_per_day'' then l\<lparr>chats_joined_per_day := v\<rparr>
     else if n = ''contacts_imported_per_day'' then l\<lparr>contacts_imported_per_day := v\<rparr>
     else l)"

fun replace_limits :: "limits \<Rightarrow> change list \<Rightarrow> limits" where
  "replace_limits l [] = l"
| "replace_limits l (Set_enabled b # cs) = replace_limits (l\<lparr>enabled := b\<rparr>) cs"
| "replace_limits l (Set_limit n v # cs) = replace_limits (set_field l n v) cs"

text \<open>
  The foreign key of \<^verbatim>\<open>account_write_limits\<close> makes the insert fail for an unknown account;
  the failed transaction leaves the tables alone.
\<close>

definition set_limits :: "wl_db \<Rightarrow> int \<Rightarrow> change list \<Rightarrow> wl_db" where
  "set_limits db a changes =
    (let base = (case effective_of db a of
                   Some current \<Rightarrow> (case eff_limits current of Some l \<Rightarrow> l | None \<Rightarrow> NO_LIMITS)
                 | None \<Rightarrow> NO_LIMITS);
         vals = replace_limits base changes
     in if account_by_id (db_accounts db) a = None then db
        else db\<lparr>db_limits := (db_limits db)(a \<mapsto> vals)\<rparr>)"

definition reset_limits :: "wl_db \<Rightarrow> int \<Rightarrow> wl_db" where
  "reset_limits db a = db\<lparr>db_limits := (db_limits db)(a := None)\<rparr>"

subsection \<open>Counters\<close>

text \<open>The WHERE clause of \<^verbatim>\<open>_events\<close>.\<close>

definition events_cond :: "int \<Rightarrow> wkind \<Rightarrow> usec \<Rightarrow> bool \<Rightarrow> write_event \<Rightarrow> bool" where
  "events_cond a k since new_dialogs_only e \<longleftrightarrow>
     ev_account_id e = a \<and> ev_kind e = k \<and> since < ev_at e \<and>
     (new_dialogs_only \<longrightarrow> ev_new_dialog e)"

abbreviation w_span :: "window \<Rightarrow> usec" where
  "w_span w \<equiv> seconds (w_seconds w)"

abbreviation in_window :: "int \<Rightarrow> window \<Rightarrow> usec \<Rightarrow> write_event \<Rightarrow> bool" where
  "in_window a w now \<equiv> events_cond a (w_kind w) (now - w_span w) (w_new_dialogs_only w)"

definition count_events :: "write_event list \<Rightarrow> int \<Rightarrow> window \<Rightarrow> usec \<Rightarrow> int" where
  "count_events evs a w now = int (count_rows (in_window a w now) evs)"

definition retry_after :: "write_event list \<Rightarrow> int \<Rightarrow> window \<Rightarrow> usec \<Rightarrow> int \<Rightarrow> int \<Rightarrow> int \<Rightarrow> int" where
  "retry_after evs a w now used limit n =
    (case drop (nat (used - limit + n - 1)) (sort (map ev_at (filter (in_window a w now) evs))) of
       [] \<Rightarrow> w_seconds w
     | at # _ \<Rightarrow> max 1 (ceil_seconds (at + w_span w - now)))"

definition last_send :: "write_event list \<Rightarrow> int \<Rightarrow> usec option" where
  "last_send evs a =
    (case map ev_at (filter (\<lambda>e. ev_account_id e = a \<and> ev_kind e = Send) evs) of
       [] \<Rightarrow> None
     | t # ts \<Rightarrow> Some (foldl max t ts))"

definition sent_to :: "write_event list \<Rightarrow> int \<Rightarrow> int \<Rightarrow> bool" where
  "sent_to evs a chat \<longleftrightarrow>
     list_ex (\<lambda>e. ev_account_id e = a \<and> ev_kind e = Send \<and> ev_chat_id e = Some chat) evs"

text \<open>
  \<^verbatim>\<open>_has_history\<close>: with the per-account tables the messages of the account's chat that has the
  external id (no such chat: the subquery is NULL and no message matches), else the messages of
  the platform's legacy table.
\<close>

definition has_history :: "bool \<Rightarrow> wl_db \<Rightarrow> effective \<Rightarrow> int \<Rightarrow> bool" where
  "has_history new_mode db eff chat =
    (if new_mode then
       (case find (\<lambda>(acc, i, ext). acc = eff_account_id eff \<and> ext = chat) (db_chats db) of
          None \<Rightarrow> False
        | Some (_, i, _) \<Rightarrow> list_ex (\<lambda>(acc, c). acc = eff_account_id eff \<and> c = i) (db_messages db))
     else chat \<in> set (if eff_platform eff = ''max'' then db_max_messages db else db_tg_messages db))"

subsection \<open>Refusals\<close>

text \<open>\<^verbatim>\<open>WriteLimited\<close>: HTTP status, body and the Retry-After value.\<close>

record write_limited =
  wl_status :: int
  wl_body :: dict
  wl_retry_after :: "int option"

definition write_limited_response :: "write_limited \<Rightarrow> response" where
  "write_limited_response x = \<lparr>status_code = wl_status x, content = wl_body x,
     retry_after_header = map_option show_int (wl_retry_after x)\<rparr>"

definition span_name :: "int \<Rightarrow> string" where
  "span_name s = (if s = 60 then ''minute'' else if s = 3600 then ''hour'' else ''24 hours'')"

definition refusal_message ::
    "effective \<Rightarrow> window \<Rightarrow> int \<Rightarrow> int \<Rightarrow> int option \<Rightarrow> int \<Rightarrow> string" where
  "refusal_message eff w limit used retry n =
    (if limit = 0 then
       w_noun w @ '' of account '' @ [CHR 0x27] @ eff_alias eff @ [CHR 0x27] @ '' are off: '' @ w_name w @ '' = 0''
     else (case retry of
       None \<Rightarrow> show_int n @ '' '' @ w_noun w @ '' never fit write limit '' @ w_name w @ '' = '' @
         show_int limit @ '' of account '' @ [CHR 0x27] @ eff_alias eff @ [CHR 0x27]
     | Some r \<Rightarrow>
         (if 1 < n then
            ''write limit '' @ w_name w @ '' of account '' @ [CHR 0x27] @ eff_alias eff @ [CHR 0x27] @ '': '' @
            show_int used @ '' of '' @ show_int limit @ '' '' @ w_noun w @ '' in the last '' @
            span_name (w_seconds w) @ '', '' @ show_int n @ '' more do not fit; retry in '' @ show_int r @ '' s''
          else
            ''write limit '' @ w_name w @ '' of account '' @ [CHR 0x27] @ eff_alias eff @ [CHR 0x27] @
            '' reached: '' @ show_int used @ '' of '' @ show_int limit @ '' '' @ w_noun w @
            '' in the last '' @ span_name (w_seconds w) @ ''; retry in '' @ show_int r @ '' s'')))"

definition refusal ::
    "effective \<Rightarrow> string \<Rightarrow> window \<Rightarrow> int \<Rightarrow> int \<Rightarrow> int option \<Rightarrow> string list \<Rightarrow> int \<Rightarrow> write_limited" where
  "refusal eff tool w limit used retry also n =
    \<lparr>wl_status = 429,
     wl_body = [
       (''error'', JStr ''rate limit''),
       (''limit'', JStr (w_name w)),
       (''max'', JInt limit),
       (''used'', JInt used),
       (''remaining'', JInt (max 0 (limit - used))),
       (''requested'', JInt n),
       (''retry_after'', jopt_int retry),
       (''also'', JList (map JStr also)),
       (''tool'', JStr tool),
       (''alias'', JStr (eff_alias eff)),
       (''platform'', JStr (eff_platform eff)),
       (''message'', JStr (refusal_message eff w limit used retry n))],
     wl_retry_after = retry\<rparr>"

definition disabled :: "effective \<Rightarrow> string \<Rightarrow> write_limited" where
  "disabled eff tool =
    \<lparr>wl_status = 403,
     wl_body = [
       (''error'', JStr ''writes disabled''),
       (''reason'', JStr ''write limits: enabled = false''),
       (''tool'', JStr tool),
       (''alias'', JStr (eff_alias eff)),
       (''platform'', JStr (eff_platform eff)),
       (''message'', JStr (''writes of account '' @ [CHR 0x27] @ eff_alias eff @ [CHR 0x27] @
          '' are stopped (write limits enabled = false)''))],
     wl_retry_after = None\<rparr>"

text \<open>
  The order of the waits: \<^verbatim>\<open>math.inf\<close> for a window that no wait opens.
\<close>

datatype wait_key = Wait int | Never

instantiation wait_key :: linorder
begin

fun less_eq_wait_key :: "wait_key \<Rightarrow> wait_key \<Rightarrow> bool" where
  "less_eq_wait_key (Wait a) (Wait b) = (a \<le> b)"
| "less_eq_wait_key _ Never = True"
| "less_eq_wait_key Never (Wait b) = False"

definition less_wait_key :: "wait_key \<Rightarrow> wait_key \<Rightarrow> bool" where
  "less_wait_key a b \<longleftrightarrow> a \<le> b \<and> \<not> b \<le> a"

instance
proof
  fix x y z :: wait_key
  show "x < y \<longleftrightarrow> x \<le> y \<and> \<not> y \<le> x" by (rule less_wait_key_def)
  show "x \<le> x" by (cases x) auto
  show "x \<le> y \<Longrightarrow> y \<le> z \<Longrightarrow> x \<le> z" by (cases x; cases y; cases z) auto
  show "x \<le> y \<Longrightarrow> y \<le> x \<Longrightarrow> x = y" by (cases x; cases y) auto
  show "x \<le> y \<or> y \<le> x" by (cases x; cases y) auto
qed

end

definition wait_key_of :: "int option \<Rightarrow> wait_key" where
  "wait_key_of r = (case r of None \<Rightarrow> Never | Some i \<Rightarrow> Wait i)"

text \<open>A window that does not take the events: window, limit, used, wait, requested.\<close>

type_synonym full_window = "window \<times> int \<times> int \<times> int option \<times> int"

text \<open>\<^verbatim>\<open>needs.get(kind, 0)\<close>.\<close>

definition need_of :: "(wkind \<times> int) list \<Rightarrow> wkind \<Rightarrow> int" where
  "need_of needs k = (case map_of needs k of None \<Rightarrow> 0 | Some n \<Rightarrow> n)"

definition full_window_of ::
    "write_event list \<Rightarrow> effective \<Rightarrow> limits \<Rightarrow> (wkind \<times> int) list \<Rightarrow> usec \<Rightarrow> bool \<Rightarrow> window
       \<Rightarrow> full_window option" where
  "full_window_of evs eff l needs now new_dialog w =
    (case limit_of l (w_name w) of
       None \<Rightarrow> None
     | Some limit \<Rightarrow>
        (let n = need_of needs (w_kind w) in
         if n = 0 \<or> (w_new_dialogs_only w \<and> \<not> new_dialog) then None
         else
          (let used = count_events evs (eff_account_id eff) w now in
           if limit < used + n then
             Some (w, limit, used,
               (if limit < n then None
                else Some (retry_after evs (eff_account_id eff) w now used limit n)), n)
           else None)))"

definition full_windows ::
    "write_event list \<Rightarrow> effective \<Rightarrow> limits \<Rightarrow> (wkind \<times> int) list \<Rightarrow> usec \<Rightarrow> bool \<Rightarrow> full_window list" where
  "full_windows evs eff l needs now new_dialog =
     List.map_filter (full_window_of evs eff l needs now new_dialog) WINDOWS"

definition full_key :: "full_window \<Rightarrow> wait_key" where
  "full_key f = wait_key_of (fst (snd (snd (snd f))))"

definition check_windows ::
    "write_event list \<Rightarrow> effective \<Rightarrow> limits \<Rightarrow> string \<Rightarrow> (wkind \<times> int) list \<Rightarrow> usec \<Rightarrow> bool
       \<Rightarrow> write_limited option" where
  "check_windows evs eff l tool needs now new_dialog =
    (case full_windows evs eff l needs now new_dialog of
       [] \<Rightarrow> None
     | f # fs \<Rightarrow>
        (case max_first full_key f fs of
           (w, limit, used, wait_for, n) \<Rightarrow>
             Some (refusal eff tool w limit used wait_for
               (map (\<lambda>g. w_name (fst g)) (filter (\<lambda>g. fst g \<noteq> w) (f # fs))) n)))"

subsection \<open>Reservation\<close>

record slot =
  slot_event_ids :: "int list"
  slot_account_id :: int

datatype wl_error =
    Limited write_limited
  | Assertion_error

definition prune :: "int \<Rightarrow> usec \<Rightarrow> write_event list \<Rightarrow> write_event list" where
  "prune a now evs = filter (\<lambda>e. \<not> (ev_account_id e = a \<and> ev_at e < now - RETENTION)) evs"

text \<open>
  What \<^verbatim>\<open>reserve\<close> does before the lock: the effective limits (lookups keep a limit where writes
  have none), the switch, and for a send to a chat whether the chat has any history.
\<close>

datatype pre_outcome =
    Pre_unlimited
  | Pre_refused write_limited
  | Pre_ok effective limits bool

definition reserve_pre :: "bool \<Rightarrow> wl_db \<Rightarrow> int \<Rightarrow> wkind \<Rightarrow> string \<Rightarrow> int option \<Rightarrow> pre_outcome" where
  "reserve_pre new_mode db a kind tool chat =
    (case effective_of db a of
       None \<Rightarrow> Pre_unlimited
     | Some eff0 \<Rightarrow>
        (let eff = (if eff_limits eff0 = None \<and> kind = Lookup
                    then eff0\<lparr>eff_limits := Some NO_LIMITS\<rparr> else eff0)
         in (case eff_limits eff of
               None \<Rightarrow> Pre_unlimited
             | Some l \<Rightarrow>
                (let sent_before = (kind = Send \<and>
                       (case chat of None \<Rightarrow> False | Some c \<Rightarrow> sent_to (db_events db) a c))
                 in if \<not> enabled l then Pre_refused (disabled eff tool)
                    else Pre_ok eff l (kind = Send \<and> \<not> sent_before \<and>
                       (case chat of None \<Rightarrow> False | Some c \<Rightarrow> has_history new_mode db eff c))))))"

definition queued_refusal :: "effective \<Rightarrow> int \<Rightarrow> string \<Rightarrow> usec \<Rightarrow> write_limited" where
  "queued_refusal eff min_interval tool wait =
    (let retry = max 1 (ceil_seconds (wait - seconds MAX_WAIT_SEC)) in
    \<lparr>wl_status = 429,
     wl_body = [
       (''error'', JStr ''rate limit''),
       (''limit'', JStr ''min_interval_sec''),
       (''max'', JInt min_interval),
       (''queued_wait_sec'', JInt (ceil_seconds wait)),
       (''retry_after'', JInt retry),
       (''tool'', JStr tool),
       (''alias'', JStr (eff_alias eff)),
       (''platform'', JStr (eff_platform eff)),
       (''message'', JStr (''sends of account '' @ [CHR 0x27] @ eff_alias eff @ [CHR 0x27] @
          '' are queued for '' @ show_int (ceil_seconds wait) @ '' s (min_interval '' @
          show_int min_interval @ '' s, wait limit '' @ show_int MAX_WAIT_SEC @
          '' s); retry in '' @ show_int retry @ '' s''))],
     wl_retry_after = Some retry\<rparr>)"

text \<open>The planned time of a send: \<^verbatim>\<open>jitter\<close> is the drawn jitter in microseconds.\<close>

definition planned_at :: "write_event list \<Rightarrow> limits \<Rightarrow> int \<Rightarrow> wkind \<Rightarrow> usec \<Rightarrow> usec \<Rightarrow> usec" where
  "planned_at evs l a kind now jitter =
    (case min_interval_sec l of
       None \<Rightarrow> now
     | Some m \<Rightarrow>
        if kind = Send \<and> m \<noteq> 0 then
          (case last_send evs a of
             None \<Rightarrow> now
           | Some prev \<Rightarrow>
               max now (prev + (seconds m +
                 (case jitter_sec l of None \<Rightarrow> 0 | Some j \<Rightarrow> if j \<noteq> 0 then jitter else 0))))
        else now)"

text \<open>INSERT: the identity column numbers the new rows.\<close>

fun number_rows :: "int \<Rightarrow> write_event list \<Rightarrow> write_event list" where
  "number_rows i [] = []"
| "number_rows i (r # rs) = r\<lparr>ev_id := i\<rparr> # number_rows (i + 1) rs"

definition new_event ::
    "int \<Rightarrow> wkind \<Rightarrow> string \<Rightarrow> int option \<Rightarrow> bool \<Rightarrow> usec \<Rightarrow> write_event" where
  "new_event a kind tool chat new_dialog at =
     \<lparr>ev_id = 0, ev_account_id = a, ev_kind = kind, ev_tool = tool, ev_chat_id = chat,
      ev_new_dialog = new_dialog, ev_at = at\<rparr>"

definition insert_events :: "write_event list \<Rightarrow> write_event list \<Rightarrow> wl_db \<Rightarrow> wl_db" where
  "insert_events evs rows db =
     db\<lparr>db_events := evs @ number_rows (db_next_event db) rows,
        db_next_event := db_next_event db + int (length rows)\<rparr>"

definition reserve_locked ::
    "wl_db \<Rightarrow> effective \<Rightarrow> limits \<Rightarrow> bool \<Rightarrow> int \<Rightarrow> wkind \<Rightarrow> string \<Rightarrow> int option \<Rightarrow> usec \<Rightarrow> usec
       \<Rightarrow> write_limited + (slot \<times> usec \<times> wl_db)" where
  "reserve_locked db eff l history a kind tool chat now jitter =
    (let evs = prune a now (db_events db);
         new_dialog = (kind = Send \<and> \<not> history \<and>
           (case chat of None \<Rightarrow> False | Some c \<Rightarrow> \<not> sent_to evs a c))
     in (case check_windows evs eff l tool [(kind, 1)] now new_dialog of
           Some refused \<Rightarrow> Inl refused
         | None \<Rightarrow>
            (let at = planned_at evs l a kind now jitter;
                 wait = at - now
             in if seconds MAX_WAIT_SEC < wait
                then Inl (queued_refusal eff (case min_interval_sec l of None \<Rightarrow> 0 | Some m \<Rightarrow> m) tool wait)
                else Inr (\<lparr>slot_event_ids = [db_next_event db], slot_account_id = a\<rparr>, wait,
                  insert_events evs [new_event a kind tool chat new_dialog at] db))))"

definition reserve ::
    "bool \<Rightarrow> wl_db \<Rightarrow> int \<Rightarrow> wkind \<Rightarrow> string \<Rightarrow> int option \<Rightarrow> usec \<Rightarrow> usec
       \<Rightarrow> wl_error + (slot option \<times> usec \<times> wl_db)" where
  "reserve new_mode db a kind tool chat now jitter =
    (if kind \<notin> {Send, Action, Lookup} then Inl Assertion_error
     else (case reserve_pre new_mode db a kind tool chat of
             Pre_unlimited \<Rightarrow> Inr (None, 0, db)
           | Pre_refused x \<Rightarrow> Inl (Limited x)
           | Pre_ok eff l history \<Rightarrow>
               (case reserve_locked db eff l history a kind tool chat now jitter of
                  Inl x \<Rightarrow> Inl (Limited x)
                | Inr (sl, wait, db') \<Rightarrow> Inr (Some sl, wait, db'))))"

definition BUNDLE_KINDS :: "wkind list" where
  "BUNDLE_KINDS = [Action, Group_create, Group_invite, Chat_join, Contact_import]"

definition bundle_rows :: "int \<Rightarrow> string \<Rightarrow> (wkind \<times> int) list \<Rightarrow> int option \<Rightarrow> usec \<Rightarrow> write_event list" where
  "bundle_rows a tool needs chat now =
     concat (map (\<lambda>(k, n). replicate (nat n) (new_event a k tool chat False now)) needs)"

definition reserve_bundle_locked ::
    "wl_db \<Rightarrow> effective \<Rightarrow> limits \<Rightarrow> int \<Rightarrow> string \<Rightarrow> (wkind \<times> int) list \<Rightarrow> int option \<Rightarrow> usec
       \<Rightarrow> write_limited + (slot \<times> wl_db)" where
  "reserve_bundle_locked db eff l a tool needs chat now =
    (let evs = prune a now (db_events db);
         rows = bundle_rows a tool needs chat now
     in (case check_windows evs eff l tool needs now False of
           Some refused \<Rightarrow> Inl refused
         | None \<Rightarrow>
             Inr (\<lparr>slot_event_ids = map ev_id (number_rows (db_next_event db) rows),
                   slot_account_id = a\<rparr>, insert_events evs rows db)))"

definition reserve_bundle ::
    "wl_db \<Rightarrow> int \<Rightarrow> string \<Rightarrow> (wkind \<times> int) list \<Rightarrow> int option \<Rightarrow> usec
       \<Rightarrow> wl_error + (slot option \<times> wl_db)" where
  "reserve_bundle db a tool needs chat now =
    (if \<not> set (map fst needs) \<subseteq> set BUNDLE_KINDS then Inl Assertion_error
     else (case effective_of db a of
             None \<Rightarrow> Inr (None, db)
           | Some eff \<Rightarrow>
              (case eff_limits eff of
                 None \<Rightarrow> Inr (None, db)
               | Some l \<Rightarrow>
                  (if \<not> enabled l then Inl (Limited (disabled eff tool))
                   else (case reserve_bundle_locked db eff l a tool needs chat now of
                           Inl x \<Rightarrow> Inl (Limited x)
                         | Inr (sl, db') \<Rightarrow> Inr (Some sl, db'))))))"

subsection \<open>Giving a slot back\<close>

text \<open>
  \<^verbatim>\<open>Slot.release\<close>: the rows are deleted; a failing database (\<^verbatim>\<open>db_ok\<close> false) is only
  logged and the counter stays.
\<close>

definition release :: "bool \<Rightarrow> slot \<Rightarrow> wl_db \<Rightarrow> wl_db" where
  "release db_ok sl db =
    (if db_ok then db\<lparr>db_events := filter (\<lambda>e. ev_id e \<notin> set (slot_event_ids sl)) (db_events db)\<rparr>
     else db)"

text \<open>
  How the body of a \<^verbatim>\<open>with\<close> block ends: normally, with an exception that may carry
  \<^verbatim>\<open>keep_write_slot\<close>, or cancelled.
\<close>

datatype body_outcome =
    Body_returned
  | Body_raised bool
  | Body_cancelled

fun uncertain :: "body_outcome \<Rightarrow> bool" where
  "uncertain Body_returned = False"
| "uncertain (Body_raised keep_write_slot) = keep_write_slot"
| "uncertain Body_cancelled = True"

definition exit_slot :: "bool \<Rightarrow> slot option \<Rightarrow> body_outcome \<Rightarrow> wl_db \<Rightarrow> wl_db" where
  "exit_slot db_ok sl out db =
    (case out of
       Body_returned \<Rightarrow> db
     | _ \<Rightarrow> (case sl of
               Some s \<Rightarrow> if \<not> uncertain out then release db_ok s db else db
             | None \<Rightarrow> db))"

text \<open>
  The context managers: the account comes from the request (none: no slot), the body runs with
  the slot and leaves the tables in a state of its own (other requests run meanwhile).
\<close>

definition write_slot ::
    "bool \<Rightarrow> bool \<Rightarrow> int option \<Rightarrow> wkind \<Rightarrow> string \<Rightarrow> int option \<Rightarrow> usec \<Rightarrow> usec
       \<Rightarrow> (slot option \<Rightarrow> wl_db \<Rightarrow> body_outcome \<times> wl_db) \<Rightarrow> wl_db \<Rightarrow> wl_error + (body_outcome \<times> wl_db)" where
  "write_slot new_mode db_ok account_id kind tool chat now jitter body db =
    (case (case account_id of
             None \<Rightarrow> Inr (None, 0, db)
           | Some a \<Rightarrow> reserve new_mode db a kind tool chat now jitter) of
       Inl e \<Rightarrow> Inl e
     | Inr (sl, _, db1) \<Rightarrow>
         (case body sl db1 of (out, db2) \<Rightarrow> Inr (out, exit_slot db_ok sl out db2)))"

definition bundle_slot ::
    "bool \<Rightarrow> int option \<Rightarrow> string \<Rightarrow> (wkind \<times> int) list \<Rightarrow> int option \<Rightarrow> usec
       \<Rightarrow> (slot option \<Rightarrow> wl_db \<Rightarrow> body_outcome \<times> wl_db) \<Rightarrow> wl_db \<Rightarrow> wl_error + (body_outcome \<times> wl_db)" where
  "bundle_slot db_ok account_id tool needs chat now body db =
    (case (case account_id of
             None \<Rightarrow> Inr (None, db)
           | Some a \<Rightarrow> reserve_bundle db a tool needs chat now) of
       Inl e \<Rightarrow> Inl e
     | Inr (sl, db1) \<Rightarrow>
         (case body sl db1 of (out, db2) \<Rightarrow> Inr (out, exit_slot db_ok sl out db2)))"

definition lookup_slot ::
    "bool \<Rightarrow> int option \<Rightarrow> string \<Rightarrow> usec \<Rightarrow> usec
       \<Rightarrow> (slot option \<Rightarrow> wl_db \<Rightarrow> body_outcome \<times> wl_db) \<Rightarrow> wl_db \<Rightarrow> wl_error + (body_outcome \<times> wl_db)" where
  "lookup_slot new_mode account_id tool now jitter body db =
    (case (case account_id of
             None \<Rightarrow> Inr (None, 0, db)
           | Some a \<Rightarrow> reserve new_mode db a Lookup tool None now jitter) of
       Inl e \<Rightarrow> Inl e
     | Inr (sl, _, db1) \<Rightarrow> Inr (body sl db1))"

subsection \<open>What is left, and the status\<close>

definition window_left :: "wl_db \<Rightarrow> int \<Rightarrow> string \<Rightarrow> usec \<Rightarrow> int option" where
  "window_left db a name now =
    (case find (\<lambda>w. w_name w = name) WINDOWS of
       None \<Rightarrow> None
     | Some w \<Rightarrow>
        (case effective_of db a of
           None \<Rightarrow> None
         | Some eff \<Rightarrow>
            (case limit_of (case eff_limits eff of Some l \<Rightarrow> l | None \<Rightarrow> NO_LIMITS) name of
               None \<Rightarrow> None
             | Some limit \<Rightarrow> Some (max 0 (limit - count_events (db_events db) a w now)))))"

definition lookups_left :: "wl_db \<Rightarrow> int \<Rightarrow> usec \<Rightarrow> int option" where
  "lookups_left db a now = window_left db a ''phone_lookups_per_day'' now"

definition limits_dict :: "limits \<Rightarrow> dict" where
  "limits_dict l = [
     (''enabled'', JBool (enabled l)),
     (''per_minute'', jopt_int (per_minute l)),
     (''per_hour'', jopt_int (per_hour l)),
     (''per_day'', jopt_int (per_day l)),
     (''new_dialogs_per_day'', jopt_int (new_dialogs_per_day l)),
     (''min_interval_sec'', jopt_int (min_interval_sec l)),
     (''jitter_sec'', jopt_int (jitter_sec l)),
     (''actions_per_hour'', jopt_int (actions_per_hour l)),
     (''phone_lookups_per_day'', jopt_int (phone_lookups_per_day l)),
     (''groups_created_per_day'', jopt_int (groups_created_per_day l)),
     (''group_invites_per_day'', jopt_int (group_invites_per_day l)),
     (''chats_joined_per_day'', jopt_int (chats_joined_per_day l)),
     (''contacts_imported_per_day'', jopt_int (contacts_imported_per_day l))]"

definition remaining_dict :: "limits \<Rightarrow> (string \<Rightarrow> int) \<Rightarrow> dict" where
  "remaining_dict l used = map (\<lambda>w. (w_name w,
     case limit_of l (w_name w) of None \<Rightarrow> JNull | Some n \<Rightarrow> JInt (max 0 (n - used (w_name w))))) WINDOWS"

definition next_send :: "limits option \<Rightarrow> usec option \<Rightarrow> usec \<Rightarrow> usec option" where
  "next_send lim prev now =
    (case lim of
       None \<Rightarrow> None
     | Some l \<Rightarrow>
        (case (min_interval_sec l, prev) of
           (Some m, Some p) \<Rightarrow>
             if m \<noteq> 0 \<and> now < p + seconds m then Some (p + seconds m) else None
         | _ \<Rightarrow> None))"

abbreviation jopt_time :: "usec option \<Rightarrow> json" where
  "jopt_time t \<equiv> (case t of None \<Rightarrow> JNull | Some u \<Rightarrow> JStr (isoformat u))"

definition used_in :: "wl_db \<Rightarrow> int \<Rightarrow> usec \<Rightarrow> string \<Rightarrow> int" where
  "used_in db a now name =
    (case find (\<lambda>w. w_name w = name) WINDOWS of
       None \<Rightarrow> 0
     | Some w \<Rightarrow> count_events (db_events db) a w now)"

definition status :: "wl_db \<Rightarrow> int \<Rightarrow> usec \<Rightarrow> dict option" where
  "status db a now =
    (case effective_of db a of
       None \<Rightarrow> None
     | Some eff \<Rightarrow>
        (let used = used_in db a now;
             prev = last_send (db_events db) a;
             lim = eff_limits eff;
             lookup_limit = phone_lookups_per_day (case lim of Some l \<Rightarrow> l | None \<Rightarrow> NO_LIMITS)
         in Some [
           (''account_id'', JInt (eff_account_id eff)),
           (''alias'', JStr (eff_alias eff)),
           (''platform'', JStr (eff_platform eff)),
           (''source'', JStr (eff_source eff)),
           (''limits'', case lim of None \<Rightarrow> JNull | Some l \<Rightarrow> JObj (limits_dict l)),
           (''counters'', JObj [
             (''sends_last_minute'', JInt (used ''per_minute'')),
             (''sends_last_hour'', JInt (used ''per_hour'')),
             (''sends_last_day'', JInt (used ''per_day'')),
             (''new_dialogs_last_day'', JInt (used ''new_dialogs_per_day'')),
             (''actions_last_hour'', JInt (used ''actions_per_hour'')),
             (''lookups_last_day'', JInt (used ''phone_lookups_per_day'')),
             (''groups_created_last_day'', JInt (used ''groups_created_per_day'')),
             (''group_invites_last_day'', JInt (used ''group_invites_per_day'')),
             (''chats_joined_last_day'', JInt (used ''chats_joined_per_day'')),
             (''contacts_imported_last_day'', JInt (used ''contacts_imported_per_day'')),
             (''last_send_at'', jopt_time prev),
             (''next_send_at'', jopt_time (next_send lim prev now))]),
           (''remaining'', case lim of None \<Rightarrow> JNull | Some l \<Rightarrow> JObj (remaining_dict l used)),
           (''phone_lookups'', JObj [
             (''limit'', jopt_int lookup_limit),
             (''used'', JInt (used ''phone_lookups_per_day'')),
             (''remaining'', case lookup_limit of None \<Rightarrow> JNull
                | Some n \<Rightarrow> JInt (max 0 (n - used ''phone_lookups_per_day'')))])]))"

subsection \<open>The administrator's endpoints\<close>

text \<open>
  \<^verbatim>\<open>api/write_limits_admin.py\<close>. The body of a PATCH after validation: the fields that were
  set; \<^verbatim>\<open>enabled: null\<close> is the one value the handler refuses itself.
\<close>

datatype patch_field =
    Patch_enabled "bool option"
  | Patch_limit string "int option"

datatype admin_error =
    Http_404 int
  | Http_422

definition status_or_404 :: "wl_db \<Rightarrow> int \<Rightarrow> usec \<Rightarrow> admin_error + dict" where
  "status_or_404 db a now = (case status db a now of None \<Rightarrow> Inl (Http_404 a) | Some d \<Rightarrow> Inr d)"

definition list_write_limits :: "wl_db \<Rightarrow> usec \<Rightarrow> dict option list" where
  "list_write_limits db now = map (\<lambda>i. status db i now) (sort (map acc_id (db_accounts db)))"

fun patch_change :: "patch_field \<Rightarrow> change option" where
  "patch_change (Patch_enabled None) = None"
| "patch_change (Patch_enabled (Some b)) = Some (Set_enabled b)"
| "patch_change (Patch_limit n v) = Some (Set_limit n v)"

definition patch_write_limits ::
    "wl_db \<Rightarrow> int \<Rightarrow> patch_field list \<Rightarrow> usec \<Rightarrow> (admin_error + dict) \<times> wl_db" where
  "patch_write_limits db a body now =
    (case status_or_404 db a now of
       Inl e \<Rightarrow> (Inl e, db)
     | Inr _ \<Rightarrow>
        (if Patch_enabled None \<in> set body then (Inl Http_422, db)
         else (let db' = set_limits db a (List.map_filter patch_change body)
               in (status_or_404 db' a now, db'))))"

definition reset_write_limits :: "wl_db \<Rightarrow> int \<Rightarrow> usec \<Rightarrow> (admin_error + dict) \<times> wl_db" where
  "reset_write_limits db a now =
    (case status_or_404 db a now of
       Inl e \<Rightarrow> (Inl e, db)
     | Inr _ \<Rightarrow> (let db' = reset_limits db a in (status_or_404 db' a now, db')))"

end
