(* ===== verification/Write_Limits_Facts.thy ===== *)
theory Write_Limits_Facts
  imports Write_Limits
begin

text \<open>
  What the write limits guarantee. A locale states the contract of a sliding counter (the count
  only falls while nothing is added; the computed wait empties the window enough) and proves that
  a retry after the wait passes; the counters over \<^verbatim>\<open>write_events\<close> interpret it. A step
  relation with a log of the granted events then gives the guarantees over any interleaving of
  reservations, releases and setting changes: no window is ever exceeded, sends keep their
  distance.
\<close>

subsection \<open>The contract of a sliding counter\<close>

locale sliding_counter =
  fixes ok :: "'w \<Rightarrow> bool"
    and used :: "'w \<Rightarrow> usec \<Rightarrow> int"
    and wait :: "'w \<Rightarrow> usec \<Rightarrow> int \<Rightarrow> int \<Rightarrow> int"
  assumes used_antimono: "now \<le> t \<Longrightarrow> used w t \<le> used w now"
    and wait_positive: "ok w \<Longrightarrow> 1 \<le> wait w now limit n"
    and wait_enough: "ok w \<Longrightarrow> limit < used w now + n \<Longrightarrow> n \<le> limit \<Longrightarrow>
      used w (now + seconds (wait w now limit n)) + n \<le> limit"
begin

lemma free_stays_free: "used w now + n \<le> limit \<Longrightarrow> now \<le> t \<Longrightarrow> used w t + n \<le> limit"
  using used_antimono [of now t w] by linarith

lemma after_wait:
  assumes "ok w" and "limit < used w now + n" and "n \<le> limit"
    and "now + seconds (wait w now limit n) \<le> t"
  shows "used w t + n \<le> limit"
  using wait_enough [OF assms(1,2,3)] used_antimono [OF assms(4), of w] by linarith

end

lemma sorted_count_greater:
  assumes "sorted xs" and "k < length xs" and "xs ! k \<le> t"
  shows "count_rows (\<lambda>x. t < x) xs \<le> length xs - Suc k"
proof -
  have "filter (\<lambda>x. t < x) (take (Suc k) xs) = []"
  proof -
    have "x \<le> t" if "x \<in> set (take (Suc k) xs)" for x
    proof -
      from that obtain i where i: "i < Suc k" "i < length xs" "x = xs ! i"
        by (auto simp: in_set_conv_nth)
      with assms(1,2) have "xs ! i \<le> xs ! k" by (simp add: sorted_nth_mono)
      with i assms(3) show ?thesis by simp
    qed
    then show ?thesis by (auto simp: filter_empty_conv not_less)
  qed
  then have "filter (\<lambda>x. t < x) xs = filter (\<lambda>x. t < x) (drop (Suc k) xs)"
    by (metis append.left_neutral append_take_drop_id filter_append)
  then show ?thesis by (metis length_drop length_filter_le)
qed

lemma count_events_antimono:
  "now \<le> t \<Longrightarrow> count_events evs a w t \<le> count_events evs a w now"
  unfolding count_events_def of_nat_le_iff
  by (rule count_rows_mono) (auto simp: events_cond_def)

lemma count_events_via_times:
  assumes "now \<le> t"
  shows "count_rows (in_window a w t) evs =
    count_rows (\<lambda>x. t - w_span w < x) (map ev_at (filter (in_window a w now) evs))"
proof -
  have "count_rows (in_window a w t) evs
      = count_rows (\<lambda>e. in_window a w now e \<and> t - w_span w < ev_at e) evs"
    using assms by (intro count_rows_cong_set) (auto simp: events_cond_def)
  also have "\<dots> = count_rows (\<lambda>e. t - w_span w < ev_at e) (filter (in_window a w now) evs)"
    by (simp add: conj_commute)
  finally show ?thesis by (simp add: filter_map o_def)
qed

lemma retry_after_positive: "1 \<le> w_seconds w \<Longrightarrow> 1 \<le> retry_after evs a w now used limit n"
  by (auto simp: retry_after_def split: list.splits)

lemma retry_after_enough:
  assumes full: "limit < count_events evs a w now + n" and fits: "n \<le> limit"
    and r: "r = retry_after evs a w now (count_events evs a w now) limit n"
    and span: "1 \<le> w_seconds w"
  shows "count_events evs a w (now + seconds r) + n \<le> limit"
proof -
  let ?ts = "sort (map ev_at (filter (in_window a w now) evs))"
  let ?used = "count_events evs a w now"
  let ?k = "nat (?used - limit + n - 1)"
  have len: "int (length ?ts) = ?used" by (simp add: count_events_def)
  have k: "?k < length ?ts" "int ?k = ?used - limit + n - 1"
    using full fits len by auto
  then obtain at rest where at: "drop ?k ?ts = at # rest" "at = ?ts ! ?k"
    by (metis Cons_nth_drop_Suc)
  have "r = max 1 (ceil_seconds (at + w_span w - now))"
    using at(1) by (simp add: r retry_after_def)
  then have "seconds (ceil_seconds (at + w_span w - now)) \<le> seconds r" by simp
  with ceil_seconds_ge [of "at + w_span w - now"]
  have left: "at \<le> (now + seconds r) - w_span w" by linarith
  have later: "now \<le> now + seconds r"
    using retry_after_positive [OF span, of evs a now ?used limit n] r by simp
  have "count_rows (in_window a w (now + seconds r)) evs
      = count_rows (\<lambda>x. (now + seconds r) - w_span w < x) ?ts"
    unfolding count_events_via_times [OF later]
    by (metis filter_sort length_sort)
  also have "\<dots> \<le> length ?ts - Suc ?k"
    using left at(2) k(1) by (intro sorted_count_greater) simp_all
  finally have "count_events evs a w (now + seconds r) \<le> int (length ?ts) - (int ?k + 1)"
    using k(1) unfolding count_events_def by linarith
  then show ?thesis using len k(2) by linarith
qed

lemma WINDOWS_seconds:
  assumes "w \<in> set WINDOWS"
  shows "60 \<le> w_seconds w" and "w_seconds w \<le> 86400"
  using assms by (auto simp: WINDOWS_def mk_window_def)

lemma WINDOWS_ok: "w \<in> set WINDOWS \<Longrightarrow> 1 \<le> w_seconds w"
  using WINDOWS_seconds(1) [of w] by simp

interpretation events: sliding_counter
  "\<lambda>w. 1 \<le> w_seconds w" "count_events evs a"
  "\<lambda>w now limit n. retry_after evs a w now (count_events evs a w now) limit n"
  for evs a
proof
  fix now t :: usec and w limit n
  show "now \<le> t \<Longrightarrow> count_events evs a w t \<le> count_events evs a w now"
    by (rule count_events_antimono)
  show "1 \<le> w_seconds w \<Longrightarrow> 1 \<le> retry_after evs a w now (count_events evs a w now) limit n"
    by (rule retry_after_positive)
  show "1 \<le> w_seconds w \<Longrightarrow> limit < count_events evs a w now + n \<Longrightarrow> n \<le> limit \<Longrightarrow>
      count_events evs a w (now + seconds (retry_after evs a w now
        (count_events evs a w now) limit n)) + n \<le> limit"
    by (rule retry_after_enough [OF _ _ refl])
qed

subsection \<open>The check of the windows\<close>

lemma full_window_of_None_iff:
  "full_window_of evs eff l needs now nd w = None \<longleftrightarrow>
    (case limit_of l (w_name w) of None \<Rightarrow> True
     | Some limit \<Rightarrow> need_of needs (w_kind w) = 0 \<or> (w_new_dialogs_only w \<and> \<not> nd) \<or>
         count_events evs (eff_account_id eff) w now + need_of needs (w_kind w) \<le> limit)"
  by (auto simp: full_window_of_def Let_def split: option.splits)

lemma full_window_of_Some:
  assumes "full_window_of evs eff l needs now nd w = Some (w', limit, used, wait_for, n)"
  shows "w' = w \<and> limit_of l (w_name w) = Some limit \<and> n = need_of needs (w_kind w) \<and> n \<noteq> 0 \<and>
    (w_new_dialogs_only w \<longrightarrow> nd) \<and> used = count_events evs (eff_account_id eff) w now \<and>
    limit < used + n \<and>
    wait_for = (if limit < n then None
      else Some (retry_after evs (eff_account_id eff) w now used limit n))"
  using assms by (auto simp: full_window_of_def Let_def split: option.splits if_splits)

lemma set_full_windows:
  "set (full_windows evs eff l needs now nd) =
     {f. \<exists>w \<in> set WINDOWS. full_window_of evs eff l needs now nd w = Some f}"
  by (auto simp: full_windows_def List.map_filter_def) (force+)

lemma check_windows_None_iff:
  "check_windows evs eff l tool needs now nd = None \<longleftrightarrow>
    (\<forall>w \<in> set WINDOWS. full_window_of evs eff l needs now nd w = None)"
proof -
  have "check_windows evs eff l tool needs now nd = None \<longleftrightarrow> full_windows evs eff l needs now nd = []"
    by (auto simp: check_windows_def split: list.splits prod.splits)
  also have "\<dots> \<longleftrightarrow> set (full_windows evs eff l needs now nd) = {}" by simp
  also have "\<dots> \<longleftrightarrow> (\<forall>w \<in> set WINDOWS. full_window_of evs eff l needs now nd w = None)"
    unfolding set_full_windows by (auto simp: not_Some_eq [symmetric] simp del: not_Some_eq)
  finally show ?thesis .
qed

lemma full_window_of_iff:
  "full_window_of evs eff l needs now nd w \<noteq> None \<longleftrightarrow>
    (\<exists>m. limit_of l (w_name w) = Some m \<and> need_of needs (w_kind w) \<noteq> 0 \<and>
       (w_new_dialogs_only w \<longrightarrow> nd) \<and>
       m < count_events evs (eff_account_id eff) w now + need_of needs (w_kind w))"
  by (cases "limit_of l (w_name w)") (auto simp: full_window_of_None_iff not_le)

lemma check_windows_refuses_iff:
  "check_windows evs eff l tool needs now nd \<noteq> None \<longleftrightarrow>
    (\<exists>w \<in> set WINDOWS. \<exists>m. limit_of l (w_name w) = Some m \<and> need_of needs (w_kind w) \<noteq> 0 \<and>
       (w_new_dialogs_only w \<longrightarrow> nd) \<and>
       m < count_events evs (eff_account_id eff) w now + need_of needs (w_kind w))"
  unfolding check_windows_None_iff full_window_of_iff [symmetric] by simp

text \<open>The deciding window of a refusal: a full one, and no full window waits longer.\<close>

lemma check_windows_SomeE:
  assumes "check_windows evs eff l tool needs now nd = Some x"
  obtains w limit used wait_for n others where
    "w \<in> set WINDOWS"
    "full_window_of evs eff l needs now nd w = Some (w, limit, used, wait_for, n)"
    "x = refusal eff tool w limit used wait_for others n"
    "\<And>f. f \<in> set (full_windows evs eff l needs now nd) \<Longrightarrow> full_key f \<le> wait_key_of wait_for"
proof -
  from assms obtain f fs where fs: "full_windows evs eff l needs now nd = f # fs"
    by (auto simp: check_windows_def split: list.splits)
  let ?m = "max_first full_key f fs"
  obtain w limit used wait_for n where m: "?m = (w, limit, used, wait_for, n)"
    by (metis surj_pair)
  have "?m \<in> set (full_windows evs eff l needs now nd)"
    unfolding fs by (rule max_first_in)
  then obtain w' where w': "w' \<in> set WINDOWS"
      "full_window_of evs eff l needs now nd w' = Some (w, limit, used, wait_for, n)"
    unfolding set_full_windows m by blast
  then have [simp]: "w' = w" using full_window_of_Some by blast
  have key: "full_key g \<le> wait_key_of wait_for" if "g \<in> set (full_windows evs eff l needs now nd)" for g
    using max_first_ge [of g f fs full_key] that unfolding fs m by (simp add: full_key_def)
  have "x = refusal eff tool w limit used wait_for
      (map (\<lambda>g. w_name (fst g)) (filter (\<lambda>g. fst g \<noteq> w) (f # fs))) n"
    using assms unfolding check_windows_def fs by (simp add: m)
  with w' key that show thesis by auto
qed

lemma retry_passes_windows:
  assumes refused: "check_windows evs eff l tool needs now nd = Some x"
    and r: "wl_retry_after x = Some r" and later: "now + seconds r \<le> t"
  shows "check_windows evs eff l tool needs t nd = None"
  unfolding check_windows_None_iff
proof
  fix v assume v: "v \<in> set WINDOWS"
  let ?used = "count_events evs (eff_account_id eff)" and ?n = "need_of needs (w_kind v)"
  obtain w limit used wait_for n others where
    x: "x = refusal eff tool w limit used wait_for others n" and
    key: "\<And>f. f \<in> set (full_windows evs eff l needs now nd) \<Longrightarrow> full_key f \<le> wait_key_of wait_for" and
    w: "w \<in> set WINDOWS" "full_window_of evs eff l needs now nd w = Some (w, limit, used, wait_for, n)"
    using check_windows_SomeE [OF refused] by metis
  from r x have wf: "wait_for = Some r" by (simp add: refusal_def)
  have "r = retry_after evs (eff_account_id eff) w now used limit n"
    using full_window_of_Some [OF w(2)] wf by (auto split: if_splits)
  then have "1 \<le> r" using events.wait_positive [OF WINDOWS_ok [OF w(1)], of evs "eff_account_id eff"]
    full_window_of_Some [OF w(2)] by metis
  then have "0 \<le> seconds r" by simp
  with later have now_t: "now \<le> t" by linarith
  show "full_window_of evs eff l needs t nd v = None"
  proof (cases "full_window_of evs eff l needs now nd v")
    case None
    then show ?thesis unfolding full_window_of_None_iff
      using now_t by (auto split: option.splits dest: events.free_stays_free)
  next
    case (Some f)
    obtain v' lim u wf' n' where f: "f = (v', lim, u, wf', n')" by (metis surj_pair)
    note full = full_window_of_Some [OF Some [unfolded f]]
    have "full_key f \<le> Wait r"
      using key [of f] v Some unfolding set_full_windows by (auto simp: wf wait_key_of_def)
    then obtain r' where r': "wf' = Some r'" "r' \<le> r"
      by (cases wf') (auto simp: f full_key_def wait_key_of_def)
    with full have fit: "\<not> lim < ?n" "r' = retry_after evs (eff_account_id eff) v now (?used v now) lim ?n"
      by (auto split: if_splits)
    have "?used v t + ?n \<le> lim"
    proof (rule events.after_wait [OF WINDOWS_ok [OF v]])
      show "lim < ?used v now + ?n" "?n \<le> lim" using full fit by auto
      have "seconds r' \<le> seconds r" using r' by simp
      with later show "now + seconds (retry_after evs (eff_account_id eff) v now (?used v now) lim ?n) \<le> t"
        unfolding fit(2) by linarith
    qed
    with full show ?thesis unfolding full_window_of_None_iff by simp
  qed
qed

subsection \<open>Pruning does not touch a window\<close>

lemma WINDOWS_within_retention: "w \<in> set WINDOWS \<Longrightarrow> w_span w \<le> RETENTION"
  using WINDOWS_seconds(2) [of w] by (simp add: RETENTION_def)

lemma count_prune:
  "w_span w \<le> RETENTION \<Longrightarrow> count_events (prune a' now evs) a w now = count_events evs a w now"
  unfolding count_events_def prune_def filter_filter
  by (simp, rule count_rows_cong_set) (auto simp: events_cond_def)

lemma check_windows_prune:
  "check_windows (prune a t evs) eff l tool needs t nd = None \<longleftrightarrow>
   check_windows evs eff l tool needs t nd = None"
  unfolding check_windows_None_iff full_window_of_None_iff
  using WINDOWS_within_retention by (auto simp: count_prune split: option.splits)

subsection \<open>The limits as a system of steps\<close>

text \<open>
  The state of the system: the tables, the log of the events granted and not given back (it is
  never pruned, so it says what really went out), and the time of the last transaction. A step
  is one transaction under an account's lock; between the steps settings, accounts and messages
  change freely. \<open>conf\<close> says which limits an account's reservations were checked with: what
  a reservation read before the lock may be older than the settings at its commit.
\<close>

record wl_sys =
  sys_db :: wl_db
  sys_log :: "write_event list"
  sys_clock :: usec

inductive wl_step :: "(int \<Rightarrow> limits \<Rightarrow> bool) \<Rightarrow> wl_sys \<Rightarrow> wl_sys \<Rightarrow> bool" for conf where
  take: "\<lbrakk>reserve_locked (sys_db s) eff l history a kind tool chat now jitter = Inr (sl, wait, db');
      conf a l; eff_account_id eff = a; sys_clock s \<le> now; 0 \<le> jitter;
      db_events db' = prune a now (db_events (sys_db s)) @ [e]\<rbrakk> \<Longrightarrow>
    wl_step conf s \<lparr>sys_db = db', sys_log = sys_log s @ [e], sys_clock = now\<rparr>"
| take_bundle: "\<lbrakk>reserve_bundle_locked (sys_db s) eff l a tool needs chat now = Inr (sl, db');
      conf a l; eff_account_id eff = a; sys_clock s \<le> now;
      distinct (map fst needs); set (map fst needs) \<subseteq> set BUNDLE_KINDS;
      db_events db' = prune a now (db_events (sys_db s)) @ es\<rbrakk> \<Longrightarrow>
    wl_step conf s \<lparr>sys_db = db', sys_log = sys_log s @ es, sys_clock = now\<rparr>"
| give_back: "wl_step conf s (s\<lparr>sys_db := release True sl (sys_db s),
      sys_log := filter (\<lambda>e. ev_id e \<notin> set (slot_event_ids sl)) (sys_log s)\<rparr>)"
| other: "db_events db' = db_events (sys_db s) \<Longrightarrow> sys_clock s \<le> now \<Longrightarrow>
    wl_step conf s (s\<lparr>sys_db := db', sys_clock := now\<rparr>)"

text \<open>Unfolding a granted reservation.\<close>

lemma reserve_lockedE:
  assumes "reserve_locked db eff l history a kind tool chat now jitter = Inr (sl, wait, db')"
  obtains nd at e where
    "check_windows (prune a now (db_events db)) eff l tool [(kind, 1)] now nd = None"
    "at = planned_at (prune a now (db_events db)) l a kind now jitter"
    "wait = at - now" "wait \<le> seconds MAX_WAIT_SEC"
    "e = (new_event a kind tool chat nd at)\<lparr>ev_id := db_next_event db\<rparr>"
    "db_events db' = prune a now (db_events db) @ [e]"
    "db_next_event db' = db_next_event db + 1"
    "slot_event_ids sl = [db_next_event db]"
    "nd \<longleftrightarrow> kind = Send \<and> \<not> history \<and>
       (case chat of None \<Rightarrow> False | Some c \<Rightarrow> \<not> sent_to (prune a now (db_events db)) a c)"
proof -
  let ?evs = "prune a now (db_events db)"
  let ?nd = "kind = Send \<and> \<not> history \<and>
    (case chat of None \<Rightarrow> False | Some c \<Rightarrow> \<not> sent_to ?evs a c)"
  let ?at = "planned_at ?evs l a kind now jitter"
  from assms have "check_windows ?evs eff l tool [(kind, 1)] now ?nd = None"
    and "wait = ?at - now" "\<not> seconds MAX_WAIT_SEC < ?at - now"
    and "db' = insert_events ?evs [new_event a kind tool chat ?nd ?at] db"
    and "slot_event_ids sl = [db_next_event db]"
    by (simp_all add: reserve_locked_def Let_def split: option.splits if_splits)
       (auto split: option.splits if_splits)
  then show thesis
    by (intro that [of ?nd ?at "(new_event a kind tool chat ?nd ?at)\<lparr>ev_id := db_next_event db\<rparr>"])
       (simp_all add: insert_events_def)
qed

lemma planned_at_ge: "now \<le> planned_at evs l a kind now jitter"
  by (auto simp: planned_at_def split: option.splits)

lemma new_event_sel [simp]:
  "ev_account_id (new_event a k tool chat nd at) = a" "ev_kind (new_event a k tool chat nd at) = k"
  "ev_new_dialog (new_event a k tool chat nd at) = nd" "ev_at (new_event a k tool chat nd at) = at"
  "ev_chat_id (new_event a k tool chat nd at) = chat" "ev_tool (new_event a k tool chat nd at) = tool"
  by (simp_all add: new_event_def)

text \<open>Numbering rows changes their ids only.\<close>

lemma count_number_rows:
  assumes "\<And>e i. P (e\<lparr>ev_id := i\<rparr>) = P e"
  shows "count_rows P (number_rows i rows) = count_rows P rows"
  using assms by (induction rows arbitrary: i) auto

lemma set_number_rows: "e \<in> set (number_rows i rows) \<Longrightarrow> \<exists>r \<in> set rows. \<exists>j. e = r\<lparr>ev_id := j\<rparr>"
  by (induction rows arbitrary: i) auto

lemma bundle_rows_sel:
  "r \<in> set (bundle_rows a tool needs chat now) \<Longrightarrow>
     ev_account_id r = a \<and> ev_at r = now \<and> \<not> ev_new_dialog r \<and> ev_kind r \<in> fst ` set needs"
  by (force simp: bundle_rows_def new_event_def image_iff)

lemma count_bundle_rows:
  assumes "distinct (map fst needs)"
  shows "count_rows (\<lambda>e. ev_kind e = k) (bundle_rows a tool needs chat now) = nat (need_of needs k)"
  using assms
proof (induction needs)
  case (Cons kn needs)
  obtain k' n where kn: "kn = (k', n)" by (cases kn)
  have IH: "count_rows (\<lambda>e. ev_kind e = k) (bundle_rows a tool needs chat now) = nat (need_of needs k)"
    using Cons by simp
  have split: "bundle_rows a tool (kn # needs) chat now =
      replicate (nat n) (new_event a k' tool chat False now) @ bundle_rows a tool needs chat now"
    by (simp add: bundle_rows_def kn)
  show ?case
  proof (cases "k' = k")
    case True
    with Cons.prems kn have "map_of needs k = None" by (auto simp: map_of_eq_None_iff)
    then have "need_of needs k = 0" by (simp add: need_of_def)
    with True show ?thesis unfolding split by (simp add: IH count_rows_replicate need_of_def kn)
  next
    case False
    then show ?thesis unfolding split by (simp add: IH count_rows_replicate need_of_def kn)
  qed
qed (simp add: bundle_rows_def need_of_def)

text \<open>
  The log and the table agree on everything younger than the retention: the log has no recent
  event that the table lacks.
\<close>

definition log_covered :: "wl_sys \<Rightarrow> bool" where
  "log_covered s \<longleftrightarrow> (\<forall>P. count_rows (\<lambda>e. P e \<and> sys_clock s - RETENTION \<le> ev_at e) (sys_log s)
     \<le> count_rows P (db_events (sys_db s)))"

lemma log_coveredD:
  "log_covered s \<Longrightarrow> count_rows (\<lambda>e. P e \<and> sys_clock s - RETENTION \<le> ev_at e) (sys_log s)
     \<le> count_rows P (db_events (sys_db s))"
  by (simp add: log_covered_def)

lemma log_covered_append:
  assumes cov: "log_covered s" and now: "sys_clock s \<le> now"
  shows "count_rows (\<lambda>e. P e \<and> now - RETENTION \<le> ev_at e) (sys_log s @ es)
    \<le> count_rows P (prune a now (db_events (sys_db s)) @ es)"
proof -
  have "count_rows (\<lambda>e. P e \<and> now - RETENTION \<le> ev_at e) (sys_log s)
      \<le> count_rows (\<lambda>e. (P e \<and> now - RETENTION \<le> ev_at e) \<and> sys_clock s - RETENTION \<le> ev_at e) (sys_log s)"
    using now by (intro count_rows_mono) auto
  also have "\<dots> \<le> count_rows (\<lambda>e. P e \<and> now - RETENTION \<le> ev_at e) (db_events (sys_db s))"
    by (rule log_coveredD [OF cov])
  also have "\<dots> \<le> count_rows P (prune a now (db_events (sys_db s)))"
    unfolding prune_def filter_filter by (rule count_rows_mono) auto
  finally have "count_rows (\<lambda>e. P e \<and> now - RETENTION \<le> ev_at e) (sys_log s)
    \<le> count_rows P (prune a now (db_events (sys_db s)))" .
  moreover have "count_rows (\<lambda>e. P e \<and> now - RETENTION \<le> ev_at e) es \<le> count_rows P es"
    by (rule count_rows_mono) simp
  ultimately show ?thesis by simp
qed

lemma wl_step_covered: "wl_step conf s t \<Longrightarrow> log_covered s \<Longrightarrow> log_covered t"
proof (induction rule: wl_step.induct)
  case take
  then show ?case unfolding log_covered_def [of "\<lparr>sys_db = _, sys_log = _, sys_clock = _\<rparr>"]
    by (simp del: filter_append add: log_covered_append)
next
  case take_bundle
  then show ?case unfolding log_covered_def [of "\<lparr>sys_db = _, sys_log = _, sys_clock = _\<rparr>"]
    by (simp del: filter_append add: log_covered_append)
next
  case (give_back s sl)
  have "count_rows (\<lambda>e. P e \<and> sys_clock s - RETENTION \<le> ev_at e)
      (filter (\<lambda>e. ev_id e \<notin> set (slot_event_ids sl)) (sys_log s))
    \<le> count_rows P (filter (\<lambda>e. ev_id e \<notin> set (slot_event_ids sl)) (db_events (sys_db s)))" for P
    using log_coveredD [OF give_back, of "\<lambda>e. P e \<and> ev_id e \<notin> set (slot_event_ids sl)"]
    by (simp add: filter_filter conj_ac)
  then show ?case by (simp add: log_covered_def release_def)
next
  case (other db' s now)
  have "count_rows (\<lambda>e. P e \<and> now - RETENTION \<le> ev_at e) (sys_log s) \<le> count_rows P (db_events (sys_db s))" for P
  proof -
    have "count_rows (\<lambda>e. P e \<and> now - RETENTION \<le> ev_at e) (sys_log s)
      \<le> count_rows (\<lambda>e. P e \<and> sys_clock s - RETENTION \<le> ev_at e) (sys_log s)"
      using other(2) by (intro count_rows_mono) auto
    also have "\<dots> \<le> count_rows P (db_events (sys_db s))" by (rule log_coveredD [OF other(3)])
    finally show ?thesis .
  qed
  with other show ?case by (simp add: log_covered_def)
qed

text \<open>An event of the log that the table lost is older than the retention.\<close>

lemma log_covered_mem:
  assumes "log_covered s" and "e \<in> set (sys_log s)" and "sys_clock s - RETENTION \<le> ev_at e"
  shows "e \<in> set (db_events (sys_db s))"
proof (rule ccontr)
  assume "e \<notin> set (db_events (sys_db s))"
  then have "count_rows (\<lambda>x. x = e) (db_events (sys_db s)) = 0"
    by (auto simp: filter_empty_conv)
  with log_coveredD [OF assms(1), of "\<lambda>x. x = e"]
  have "count_rows (\<lambda>x. x = e \<and> sys_clock s - RETENTION \<le> ev_at x) (sys_log s) = 0" by simp
  with assms(2,3) show False by (auto simp: filter_empty_conv)
qed

subsection \<open>No window is ever exceeded\<close>

text \<open>The events of a window that ends at any time \<open>T\<close>.\<close>

definition in_span :: "int \<Rightarrow> window \<Rightarrow> usec \<Rightarrow> write_event \<Rightarrow> bool" where
  "in_span a w T e \<longleftrightarrow> in_window a w T e \<and> ev_at e \<le> T"

definition within :: "int \<Rightarrow> window \<Rightarrow> int \<Rightarrow> wl_sys \<Rightarrow> bool" where
  "within a w L s \<longleftrightarrow> (\<forall>T. int (count_rows (in_span a w T) (sys_log s)) \<le> L)"

text \<open>
  New events of one transaction: planned not before it, none more than the window had room for.
\<close>

lemma within_append:
  assumes cov: "log_covered s" and ok: "within a w L s" and now: "sys_clock s \<le> now"
    and w: "w \<in> set WINDOWS"
    and new: "\<And>e. e \<in> set es \<Longrightarrow> now \<le> ev_at e"
    and room: "(\<exists>e \<in> set es. ev_account_id e = a \<and> ev_kind e = w_kind w \<and>
        (w_new_dialogs_only w \<longrightarrow> ev_new_dialog e)) \<Longrightarrow>
      count_events (db_events (sys_db s)) a w now +
        int (count_rows (\<lambda>e. ev_account_id e = a \<and> ev_kind e = w_kind w) es) \<le> L"
  shows "int (count_rows (in_span a w T) (sys_log s @ es)) \<le> L"
proof (cases "\<exists>e \<in> set es. in_span a w T e")
  case False
  then have "filter (in_span a w T) es = []" by (auto simp: filter_empty_conv)
  then show ?thesis using ok by (simp add: within_def)
next
  case True
  then obtain e where e: "e \<in> set es" "in_span a w T e" by blast
  then have T: "now \<le> T" using new by (force simp: in_span_def)
  have "count_rows (in_span a w T) (sys_log s)
      \<le> count_rows (\<lambda>x. in_window a w now x \<and> sys_clock s - RETENTION \<le> ev_at x) (sys_log s)"
    using T now WINDOWS_within_retention [OF w]
    by (intro count_rows_mono) (auto simp: in_span_def events_cond_def)
  also have "\<dots> \<le> count_rows (in_window a w now) (db_events (sys_db s))"
    by (rule log_coveredD [OF cov])
  finally have old: "int (count_rows (in_span a w T) (sys_log s))
    \<le> count_events (db_events (sys_db s)) a w now" by (simp add: count_events_def)
  have "count_rows (in_span a w T) es \<le> count_rows (\<lambda>e. ev_account_id e = a \<and> ev_kind e = w_kind w) es"
    by (rule count_rows_mono) (simp add: in_span_def events_cond_def)
  moreover have "\<exists>e \<in> set es. ev_account_id e = a \<and> ev_kind e = w_kind w \<and>
      (w_new_dialogs_only w \<longrightarrow> ev_new_dialog e)"
    using e by (auto simp: in_span_def events_cond_def)
  ultimately show ?thesis using old room by simp
qed

lemma passed_room:
  assumes "check_windows (prune a t evs) eff l tool needs t nd = None" and "w \<in> set WINDOWS"
    and "limit_of l (w_name w) = Some limit" and "need_of needs (w_kind w) \<noteq> 0"
    and "w_new_dialogs_only w \<longrightarrow> nd"
  shows "count_events evs (eff_account_id eff) w t + need_of needs (w_kind w) \<le> limit"
proof -
  have "count_events (prune a t evs) (eff_account_id eff) w t + need_of needs (w_kind w) \<le> limit"
    using assms unfolding check_windows_None_iff full_window_of_None_iff by fastforce
  then show ?thesis using WINDOWS_within_retention [OF assms(2)] by (simp add: count_prune)
qed

text \<open>The reservations of an account are checked against at most \<open>L\<close> events in a window.\<close>

definition limited_conf :: "int \<Rightarrow> window \<Rightarrow> int \<Rightarrow> int \<Rightarrow> limits \<Rightarrow> bool" where
  "limited_conf a w L a' l \<longleftrightarrow> (a' = a \<longrightarrow> (\<exists>m. limit_of l (w_name w) = Some m \<and> m \<le> L))"

lemma wl_step_within:
  assumes w: "w \<in> set WINDOWS"
  shows "wl_step (limited_conf a w L) s t \<Longrightarrow> log_covered s \<Longrightarrow> within a w L s \<Longrightarrow> within a w L t"
proof (induction rule: wl_step.induct)
  case (take s eff l history a' kind tool chat now jitter sl wait db' e)
  note cov = take(7) and ok = take(8)
  obtain nd at e' where r:
    "check_windows (prune a' now (db_events (sys_db s))) eff l tool [(kind, 1)] now nd = None"
    "at = planned_at (prune a' now (db_events (sys_db s))) l a' kind now jitter"
    "e' = (new_event a' kind tool chat nd at)\<lparr>ev_id := db_next_event (sys_db s)\<rparr>"
    "db_events db' = prune a' now (db_events (sys_db s)) @ [e']"
    by (rule reserve_lockedE [OF take(1)]) blast
  with take(6) have e: "e = e'" by simp
  have "int (count_rows (in_span a w T) (sys_log s @ [e])) \<le> L" for T
  proof (rule within_append [OF cov ok take(4) w])
    fix x assume "x \<in> set [e]"
    then show "now \<le> ev_at x" using planned_at_ge by (simp add: e r)
  next
    assume "\<exists>x \<in> set [e]. ev_account_id x = a \<and> ev_kind x = w_kind w \<and>
      (w_new_dialogs_only w \<longrightarrow> ev_new_dialog x)"
    then have mine: "a' = a" "kind = w_kind w" "w_new_dialogs_only w \<longrightarrow> nd" by (auto simp: e r)
    with take(2) obtain m where m: "limit_of l (w_name w) = Some m" "m \<le> L"
      by (auto simp: limited_conf_def)
    have "count_events (db_events (sys_db s)) (eff_account_id eff) w now + need_of [(kind, 1)] (w_kind w) \<le> m"
      using mine by (intro passed_room [OF r(1) w m(1)]) (simp_all add: need_of_def)
    then show "count_events (db_events (sys_db s)) a w now +
        int (count_rows (\<lambda>e. ev_account_id e = a \<and> ev_kind e = w_kind w) [e]) \<le> L"
      using mine m take(3) by (simp add: need_of_def e r)
  qed
  then show ?case by (simp add: within_def)
next
  case (take_bundle s eff l a' tool needs chat now sl db' es)
  note cov = take_bundle(8) and ok = take_bundle(9)
  let ?evs = "prune a' now (db_events (sys_db s))" and ?rows = "bundle_rows a' tool needs chat now"
  from take_bundle(1) have checked: "check_windows ?evs eff l tool needs now False = None"
    and "db' = insert_events ?evs ?rows (sys_db s)"
    by (auto simp: reserve_bundle_locked_def Let_def split: option.splits)
  with take_bundle(7) have es: "es = number_rows (db_next_event (sys_db s)) ?rows"
    by (simp add: insert_events_def)
  have rows: "ev_account_id x = a' \<and> ev_at x = now \<and> \<not> ev_new_dialog x" if "x \<in> set es" for x
    using that set_number_rows bundle_rows_sel unfolding es by fastforce
  have kinds: "count_rows (\<lambda>e. ev_account_id e = a' \<and> ev_kind e = w_kind w) es = nat (need_of needs (w_kind w))"
  proof -
    have "count_rows (\<lambda>e. ev_account_id e = a' \<and> ev_kind e = w_kind w) es
        = count_rows (\<lambda>e. ev_kind e = w_kind w) es"
      using rows by (intro count_rows_cong_set) auto
    then show ?thesis unfolding es by (simp add: count_number_rows count_bundle_rows [OF take_bundle(5)])
  qed
  have "int (count_rows (in_span a w T) (sys_log s @ es)) \<le> L" for T
  proof (rule within_append [OF cov ok take_bundle(4) w])
    fix x assume "x \<in> set es" then show "now \<le> ev_at x" using rows by simp
  next
    assume "\<exists>x \<in> set es. ev_account_id x = a \<and> ev_kind x = w_kind w \<and>
      (w_new_dialogs_only w \<longrightarrow> ev_new_dialog x)"
    then obtain x where x: "x \<in> set es" "ev_account_id x = a" "ev_kind x = w_kind w"
      "\<not> w_new_dialogs_only w" using rows by auto
    then have mine: "a' = a" using rows by simp
    have "x \<in> set (filter (\<lambda>e. ev_account_id e = a' \<and> ev_kind e = w_kind w) es)" using x mine by simp
    then have "0 < count_rows (\<lambda>e. ev_account_id e = a' \<and> ev_kind e = w_kind w) es"
      using length_pos_if_in_set by fast
    with kinds have n: "0 < need_of needs (w_kind w)" by simp
    obtain m where m: "limit_of l (w_name w) = Some m" "m \<le> L"
      using take_bundle(2) mine by (auto simp: limited_conf_def)
    have "count_events (db_events (sys_db s)) (eff_account_id eff) w now + need_of needs (w_kind w) \<le> m"
      using n x by (intro passed_room [OF checked w m(1)]) auto
    then show "count_events (db_events (sys_db s)) a w now +
        int (count_rows (\<lambda>e. ev_account_id e = a \<and> ev_kind e = w_kind w) es) \<le> L"
      using kinds n mine m take_bundle(3) by simp
  qed
  then show ?case by (simp add: within_def)
next
  case (give_back s sl)
  have "int (count_rows (in_span a w T)
      (filter (\<lambda>e. ev_id e \<notin> set (slot_event_ids sl)) (sys_log s))) \<le> L" for T
    using give_back(2) count_rows_filter_le [of "in_span a w T" _ "sys_log s"]
    unfolding within_def by (meson of_nat_le_iff order_trans)
  then show ?case by (simp add: within_def)
next
  case (other db' s now)
  then show ?case by (simp add: within_def)
qed

interpretation windows: preserved
  "wl_step (limited_conf a w L)" "\<lambda>s. log_covered s \<and> (w \<in> set WINDOWS \<longrightarrow> within a w L s)"
  for a w L
  by unfold_locales (auto intro: wl_step_covered wl_step_within)

subsection \<open>Sends keep their distance\<close>

text \<open>
  Two sends of the account in the order they were granted are planned at least the interval
  apart.
\<close>

definition paced :: "int \<Rightarrow> int \<Rightarrow> wl_sys \<Rightarrow> bool" where
  "paced a m s \<longleftrightarrow> sorted_wrt (\<lambda>e1 e2. ev_at e1 + seconds m \<le> ev_at e2)
     (filter (\<lambda>e. ev_account_id e = a \<and> ev_kind e = Send) (sys_log s))"

text \<open>The administrator's endpoint takes at most an hour; the pace holds below the retention.\<close>

definition paced_conf :: "int \<Rightarrow> int \<Rightarrow> int \<Rightarrow> limits \<Rightarrow> bool" where
  "paced_conf a m a' l \<longleftrightarrow>
     (a' = a \<longrightarrow> (\<exists>i. min_interval_sec l = Some i \<and> i \<noteq> 0 \<and> m \<le> i \<and> m \<le> 3600))"

lemma foldl_max_start: "t \<le> foldl max t ts" for t :: int
proof (induction ts arbitrary: t)
  case (Cons u ts)
  from Cons.IH [of "max t u"] show ?case by simp
qed simp

lemma foldl_max_ge: "x \<in> set (t # ts) \<Longrightarrow> x \<le> foldl max t ts" for t :: int
proof (induction ts arbitrary: x t)
  case (Cons u ts)
  then have "x \<le> max t u \<or> x \<in> set ts" by auto
  then show ?case
  proof
    assume "x \<le> max t u"
    then show ?thesis using order_trans [OF _ foldl_max_start [of "max t u" ts]] by simp
  next
    assume "x \<in> set ts"
    then show ?thesis using Cons.IH [of x "max t u"] by simp
  qed
qed simp

lemma last_send_ge:
  assumes "e \<in> set evs" and "ev_account_id e = a" and "ev_kind e = Send"
  obtains p where "last_send evs a = Some p" and "ev_at e \<le> p"
proof -
  let ?ts = "map ev_at (filter (\<lambda>e. ev_account_id e = a \<and> ev_kind e = Send) evs)"
  have mem: "ev_at e \<in> set ?ts" using assms by simp
  then obtain t ts where ts: "?ts = t # ts" by (cases ?ts) auto
  have "ev_at e \<le> foldl max t ts" using mem foldl_max_ge [of "ev_at e" t ts] by (simp only: ts)
  then show thesis using that ts by (simp add: last_send_def)
qed

lemma wl_step_paced:
  assumes m: "0 \<le> m"
  shows "wl_step (paced_conf a m) s t \<Longrightarrow> log_covered s \<Longrightarrow> paced a m s \<Longrightarrow> paced a m t"
proof (induction rule: wl_step.induct)
  case (take s eff l history a' kind tool chat now jitter sl wait db' e)
  note cov = take(7) and ok = take(8)
  let ?evs = "prune a' now (db_events (sys_db s))"
  obtain nd at e' where r:
    "at = planned_at ?evs l a' kind now jitter"
    "e' = (new_event a' kind tool chat nd at)\<lparr>ev_id := db_next_event (sys_db s)\<rparr>"
    "db_events db' = ?evs @ [e']"
    by (rule reserve_lockedE [OF take(1)]) blast
  with take(6) have e: "e = e'" by simp
  have "ev_at x + seconds m \<le> at" if mine: "a' = a" "kind = Send" and
    x: "x \<in> set (sys_log s)" "ev_account_id x = a" "ev_kind x = Send" for x
  proof (cases "ev_at x < now - RETENTION")
    case True
    obtain i where "m \<le> 3600" using take(2) mine by (auto simp: paced_conf_def)
    then have "seconds m \<le> RETENTION" by (simp add: RETENTION_def)
    with True planned_at_ge [of now ?evs l a' kind jitter] r(1) show ?thesis by linarith
  next
    case False
    then have "sys_clock s - RETENTION \<le> ev_at x" using take(4) by linarith
    then have "x \<in> set (db_events (sys_db s))" by (rule log_covered_mem [OF cov x(1)])
    then have "x \<in> set ?evs" using False by (simp add: prune_def)
    then obtain p where p: "last_send ?evs a = Some p" "ev_at x \<le> p"
      using x(2,3) by (rule last_send_ge)
    obtain i where i: "min_interval_sec l = Some i" "i \<noteq> 0" "m \<le> i"
      using take(2) mine by (auto simp: paced_conf_def)
    have "last_send ?evs a' = Some p" using p(1) mine by simp
    then have "p + seconds i \<le> at"
      using take(5) by (auto simp: r(1) planned_at_def i mine split: option.splits)
    moreover have "seconds m \<le> seconds i" using i by simp
    ultimately show ?thesis using p(2) by linarith
  qed
  then show ?case using ok by (auto simp: paced_def sorted_wrt_append e r)
next
  case (take_bundle s eff l a' tool needs chat now sl db' es)
  from take_bundle(1) have "db' = insert_events (prune a' now (db_events (sys_db s)))
      (bundle_rows a' tool needs chat now) (sys_db s)"
    by (auto simp: reserve_bundle_locked_def Let_def split: option.splits)
  with take_bundle(7) have es: "es = number_rows (db_next_event (sys_db s)) (bundle_rows a' tool needs chat now)"
    by (simp add: insert_events_def)
  have "ev_kind x \<noteq> Send" if "x \<in> set es" for x
  proof -
    have "ev_kind x \<in> fst ` set needs"
      using that set_number_rows bundle_rows_sel unfolding es by fastforce
    then show ?thesis using take_bundle(6) by (auto simp: BUNDLE_KINDS_def)
  qed
  then have "filter (\<lambda>e. ev_account_id e = a \<and> ev_kind e = Send) es = []"
    by (auto simp: filter_empty_conv)
  then show ?case using take_bundle(9) by (simp add: paced_def)
next
  case (give_back s sl)
  have "sorted_wrt (\<lambda>e1 e2. ev_at e1 + seconds m \<le> ev_at e2)
    (filter (\<lambda>e. ev_id e \<notin> set (slot_event_ids sl))
      (filter (\<lambda>e. ev_account_id e = a \<and> ev_kind e = Send) (sys_log s)))"
    using give_back(2) unfolding paced_def by (rule sorted_wrt_filter)
  then show ?case by (simp add: paced_def conj_commute)
next
  case (other db' s now)
  then show ?case by (simp add: paced_def)
qed

interpretation pacing: preserved
  "wl_step (paced_conf a m)" "\<lambda>s. log_covered s \<and> (0 \<le> m \<longrightarrow> paced a m s)"
  for a m
  by unfold_locales (auto intro: wl_step_covered wl_step_paced)

text \<open>A system that starts with empty counters.\<close>

definition fresh :: "wl_sys \<Rightarrow> bool" where
  "fresh s \<longleftrightarrow> db_events (sys_db s) = [] \<and> sys_log s = []"

lemma fresh_inv: "fresh s \<Longrightarrow> log_covered s \<and> paced a m s" "fresh s \<Longrightarrow> 0 \<le> L \<Longrightarrow> within a w L s"
  by (auto simp: fresh_def log_covered_def within_def paced_def)

subsection \<open>All or nothing, and giving back\<close>

lemma reserve_bundle_lockedE:
  assumes "reserve_bundle_locked db eff l a tool needs chat now = Inr (sl, db')"
  obtains es where
    "es = number_rows (db_next_event db) (bundle_rows a tool needs chat now)"
    "db_events db' = prune a now (db_events db) @ es"
    "db_next_event db' = db_next_event db + int (length es)"
    "slot_event_ids sl = map ev_id es"
    "check_windows (prune a now (db_events db)) eff l tool needs now False = None"
proof -
  have len: "length (number_rows i rs) = length rs" for i rs by (induction rs arbitrary: i) auto
  from assms show thesis
    by (intro that [of "number_rows (db_next_event db) (bundle_rows a tool needs chat now)"])
       (auto simp: reserve_bundle_locked_def Let_def insert_events_def len split: option.splits)
qed

lemma number_rows_ids: "e \<in> set (number_rows i rs) \<Longrightarrow> i \<le> ev_id e \<and> ev_id e < i + int (length rs)"
  by (induction rs arbitrary: i) force+

text \<open>The identity column: every stored event has an id below the next one.\<close>

definition ids_below :: "wl_db \<Rightarrow> bool" where
  "ids_below db \<longleftrightarrow> (\<forall>e \<in> set (db_events db). ev_id e < db_next_event db)"

lemma ids_below_reserve_locked:
  assumes "reserve_locked db eff l history a kind tool chat now jitter = Inr (sl, wait, db')"
    and "ids_below db"
  shows "ids_below db'"
  by (rule reserve_lockedE [OF assms(1)]) (use assms(2) in \<open>auto simp: ids_below_def prune_def\<close>)

lemma release_after_reserve_locked:
  assumes "reserve_locked db eff l history a kind tool chat now jitter = Inr (sl, wait, db')"
    and "ids_below db"
  shows "db_events (release True sl db') = prune a now (db_events db)"
proof -
  have "filter (\<lambda>e. ev_id e \<noteq> db_next_event db) (prune a now (db_events db)) = prune a now (db_events db)"
    using assms(2) by (intro filter_True) (auto simp: ids_below_def prune_def)
  then show ?thesis by - (rule reserve_lockedE [OF assms(1)], simp add: release_def)
qed

lemma planned_at_waits: "planned_at evs l a kind now jitter \<noteq> now \<Longrightarrow> kind = Send"
  by (auto simp: planned_at_def split: option.splits if_splits)

lemma bundle_granted:
  assumes ok: "reserve_bundle_locked db eff l a tool needs chat now = Inr (sl, db')"
    and keys: "distinct (map fst needs)" and ids: "ids_below db"
  shows "\<exists>es. db_events db' = prune a now (db_events db) @ es \<and> map ev_id es = slot_event_ids sl \<and>
      (\<forall>k. count_rows (\<lambda>e. ev_kind e = k) es = nat (need_of needs k)) \<and>
      check_windows (db_events db) eff l tool needs now False = None \<and>
      db_events (release True sl db') = prune a now (db_events db)"
proof -
  obtain es where es: "es = number_rows (db_next_event db) (bundle_rows a tool needs chat now)"
    "db_events db' = prune a now (db_events db) @ es" "slot_event_ids sl = map ev_id es"
    "check_windows (prune a now (db_events db)) eff l tool needs now False = None"
    by (rule reserve_bundle_lockedE [OF ok])
  have new: "db_next_event db \<le> ev_id e" if "e \<in> set es" for e
    using number_rows_ids that unfolding es(1) by blast
  have "filter (\<lambda>e. ev_id e \<notin> set (map ev_id es)) (prune a now (db_events db)) = prune a now (db_events db)"
    using ids new by (intro filter_True) (fastforce simp: ids_below_def prune_def)
  moreover have "filter (\<lambda>e. ev_id e \<notin> set (map ev_id es)) es = []"
    by (auto simp: filter_empty_conv)
  ultimately have "db_events (release True sl db') = prune a now (db_events db)"
    by (simp add: release_def es(2,3))
  moreover have "count_rows (\<lambda>e. ev_kind e = k) es = nat (need_of needs k)" for k
    unfolding es(1) by (simp add: count_number_rows count_bundle_rows [OF keys])
  ultimately show ?thesis using es by (auto simp: check_windows_prune)
qed

subsection \<open>Settings\<close>

text \<open>The settings a change starts from.\<close>

definition base_limits :: "wl_db \<Rightarrow> int \<Rightarrow> account \<Rightarrow> limits" where
  "base_limits db a acc = (case db_limits db a of Some own \<Rightarrow> own
     | None \<Rightarrow> if acc_platform acc = ''max'' then DEFAULT_LIMITS else NO_LIMITS)"

lemma effective_of_set_limits:
  "account_by_id (db_accounts db) a = Some acc \<Longrightarrow>
    effective_of (set_limits db a changes) a = Some \<lparr>eff_account_id = a,
      eff_alias = acc_alias acc, eff_platform = acc_platform acc,
      eff_limits = Some (replace_limits (base_limits db a acc) changes), eff_source = ''account''\<rparr>"
  by (simp add: set_limits_def Let_def effective_of_def base_limits_def PLATFORM_DEFAULTS_def split: option.splits)

lemma limit_of_set_field: "n' \<noteq> n \<Longrightarrow> limit_of (set_field l n' v) n = limit_of l n"
  by (auto simp: set_field_def limit_of_def)

lemma limit_of_replace_limits:
  assumes "\<forall>c \<in> set cs. \<forall>v. c \<noteq> Set_limit n v"
  shows "limit_of (replace_limits l cs) n = limit_of l n"
proof -
  have "limit_of (l\<lparr>enabled := b\<rparr>) n = limit_of l n" for l b by (simp add: limit_of_def)
  with assms show ?thesis
    by (induction l cs rule: replace_limits.induct) (auto simp: limit_of_set_field)
qed

lemma find_by_key: "distinct (map f xs) \<Longrightarrow> x \<in> set xs \<Longrightarrow> find (\<lambda>v. f v = f x) xs = Some x"
  by (induction xs) auto

lemma find_window: "w \<in> set WINDOWS \<Longrightarrow> find (\<lambda>v. w_name v = w_name w) WINDOWS = Some w"
  by (rule find_by_key) (code_simp, assumption)

end
