(* ===== verification/Write_Limits_Props.thy ===== *)
theory Write_Limits_Props
  imports Write_Limits_Facts
begin

text \<open>
  The properties of the write limits, each with a run on a concrete account: one MAX account with
  the platform's default limits and no events yet.
\<close>

definition demo_account :: "string \<Rightarrow> account" where
  "demo_account p = \<lparr>acc_id = 1, acc_alias = ''main'', acc_phone = ''+700'', acc_mode = ''full'',
     acc_is_enabled = True, acc_platform = p, acc_platform_user_id = None,
     acc_write_chat_ids = None, acc_write_rate_per_hour = None, acc_external_user_id = None,
     acc_tg_user_id = None, acc_display_name = None, acc_watch_chat_ids = None, acc_notes = None\<rparr>"

definition demo_db :: "string \<Rightarrow> write_event list \<Rightarrow> wl_db" where
  "demo_db p evs = \<lparr>db_accounts = [demo_account p], db_limits = (\<lambda>_. None), db_events = evs,
     db_next_event = 10, db_chats = [], db_messages = [], db_tg_messages = [], db_max_messages = []\<rparr>"

definition demo_eff :: effective where
  "demo_eff = \<lparr>eff_account_id = 1, eff_alias = ''main'', eff_platform = ''max'',
     eff_limits = Some DEFAULT_LIMITS, eff_source = ''default''\<rparr>"

definition demo_event :: "int \<Rightarrow> usec \<Rightarrow> write_event" where
  "demo_event i at = \<lparr>ev_id = i, ev_account_id = 1, ev_kind = Send, ev_tool = ''send_message'',
     ev_chat_id = Some 7, ev_new_dialog = True, ev_at = at\<rparr>"

definition demo_sys :: "write_event list \<Rightarrow> wl_db \<Rightarrow> usec \<Rightarrow> wl_sys" where
  "demo_sys lg db now = \<lparr>sys_db = db, sys_log = lg, sys_clock = now\<rparr>"

definition demo_minute :: window where
  "demo_minute = mk_window ''per_minute'' Send 60 False ''sends''"

lemma demo_minute_in: "demo_minute \<in> set WINDOWS"
  by (simp add: demo_minute_def WINDOWS_def)

lemmas demo_simps = demo_account_def demo_db_def demo_eff_def demo_event_def demo_sys_def
  demo_minute_def

text \<open>The first send of the account to a chat without history.\<close>

lemma demo_reserve_locked:
  "reserve_locked (demo_db ''max'' []) demo_eff DEFAULT_LIMITS False 1 Send ''send_message'' (Some 7) 100 0
   = Inr (\<lparr>slot_event_ids = [10], slot_account_id = 1\<rparr>, 0,
       (demo_db ''max'' [demo_event 10 100])\<lparr>db_next_event := 11\<rparr>)"
proof -
  have "check_windows [] demo_eff DEFAULT_LIMITS ''send_message'' [(Send, 1)] 100 True = None"
    by code_simp
  then show ?thesis
    by (simp add: reserve_locked_def demo_simps prune_def sent_to_def planned_at_def last_send_def
        insert_events_def new_event_def DEFAULT_LIMITS_def MAX_WAIT_SEC_def seconds_def)
qed

lemma demo_reserve:
  "reserve True (demo_db ''max'' []) 1 Send ''send_message'' (Some 7) 100 0
   = Inr (Some \<lparr>slot_event_ids = [10], slot_account_id = 1\<rparr>, 0,
       (demo_db ''max'' [demo_event 10 100])\<lparr>db_next_event := 11\<rparr>)"
proof -
  have "reserve_pre True (demo_db ''max'' []) 1 Send ''send_message'' (Some 7)
      = Pre_ok demo_eff DEFAULT_LIMITS False"
    by (simp add: reserve_pre_def effective_of_def account_by_id_def one_or_none_def demo_simps
        PLATFORM_DEFAULTS_def sent_to_def has_history_def DEFAULT_LIMITS_def)
  then show ?thesis by (simp add: reserve_def demo_reserve_locked)
qed

lemma demo_step:
  assumes "conf 1 DEFAULT_LIMITS"
  shows "(wl_step conf)\<^sup>*\<^sup>* (demo_sys [] (demo_db ''max'' []) 0)
    (demo_sys [demo_event 10 100] ((demo_db ''max'' [demo_event 10 100])\<lparr>db_next_event := 11\<rparr>) 100)"
proof -
  have "wl_step conf (demo_sys [] (demo_db ''max'' []) 0)
    \<lparr>sys_db = (demo_db ''max'' [demo_event 10 100])\<lparr>db_next_event := 11\<rparr>,
     sys_log = sys_log (demo_sys [] (demo_db ''max'' []) 0) @ [demo_event 10 100], sys_clock = 100\<rparr>"
    by (rule wl_step.take [where a = 1 and l = DEFAULT_LIMITS and eff = demo_eff and history = False
          and kind = Send and tool = "''send_message''" and chat = "Some 7" and jitter = 0])
       (use assms demo_reserve_locked in \<open>simp_all add: demo_simps prune_def\<close>)
  then show ?thesis by (simp add: demo_sys_def r_into_rtranclp)
qed

text \<open>
  C1 The central promise of the limits. Take any sequence of transactions on any accounts
  (sends, actions, lookups, bundles, slots given back, settings changed, messages stored),
  interleaved in any order, in which the reservations of account \<open>a\<close> are checked with a
  limit of at most \<open>L\<close> for window \<open>w\<close>. Then over the log of every event granted and not
  given back, no span of the window's length, ending at any time, holds more than \<open>L\<close> events,
  although the counters are pruned on the way.
\<close>

theorem windows_never_exceeded:
  assumes run: "(wl_step (limited_conf a w L))\<^sup>*\<^sup>* s0 s" and start: "fresh s0"
    and w: "w \<in> set WINDOWS" and L: "0 \<le> L"
  shows "int (count_rows (in_span a w T) (sys_log s)) \<le> L"
proof -
  have "log_covered s \<and> (w \<in> set WINDOWS \<longrightarrow> within a w L s)"
    using fresh_inv [OF start] L by (intro windows.run_inv [OF run]) simp
  with w show ?thesis by (simp add: within_def)
qed

theorem windows_never_exceeded_witness:
  "int (count_rows (in_span 1 demo_minute 200) [demo_event 10 100]) \<le> 5"
proof -
  have "(wl_step (limited_conf 1 demo_minute 5))\<^sup>*\<^sup>* (demo_sys [] (demo_db ''max'' []) 0)
    (demo_sys [demo_event 10 100] ((demo_db ''max'' [demo_event 10 100])\<lparr>db_next_event := 11\<rparr>) 100)"
    by (rule demo_step) (simp add: limited_conf_def demo_minute_def mk_window_def limit_of_def DEFAULT_LIMITS_def)
  from windows_never_exceeded [OF this _ demo_minute_in, of 200]
  show ?thesis by (simp add: fresh_def demo_simps)
qed

text \<open>
  C2 Sends keep their distance. In every such run in which the account's reservations use a
  minimum interval of at least \<open>m\<close> seconds, any two sends granted one after the other (and
  not given back) are planned at least \<open>m\<close> seconds apart: parallel calls cannot share a
  pause, whatever jitter is drawn.
\<close>

theorem sends_keep_distance:
  assumes run: "(wl_step (paced_conf a m))\<^sup>*\<^sup>* s0 s" and start: "fresh s0" and m: "0 \<le> m"
  shows "sorted_wrt (\<lambda>e1 e2. ev_at e1 + seconds m \<le> ev_at e2)
    (filter (\<lambda>e. ev_account_id e = a \<and> ev_kind e = Send) (sys_log s))"
proof -
  have "log_covered s \<and> (0 \<le> m \<longrightarrow> paced a m s)"
    using fresh_inv(1) [OF start] by (intro pacing.run_inv [OF run]) simp
  with m show ?thesis by (simp add: paced_def)
qed

theorem sends_keep_distance_witness:
  "sorted_wrt (\<lambda>e1 e2. ev_at e1 + seconds 3 \<le> ev_at e2)
    (filter (\<lambda>e. ev_account_id e = 1 \<and> ev_kind e = Send) [demo_event 10 100])"
proof -
  have "(wl_step (paced_conf 1 3))\<^sup>*\<^sup>* (demo_sys [] (demo_db ''max'' []) 0)
    (demo_sys [demo_event 10 100] ((demo_db ''max'' [demo_event 10 100])\<lparr>db_next_event := 11\<rparr>) 100)"
    by (rule demo_step) (simp add: paced_conf_def DEFAULT_LIMITS_def)
  from sends_keep_distance [OF this] show ?thesis by (simp add: fresh_def demo_simps)
qed

text \<open>
  C3 The Retry-After value of a refusal is long enough: whatever windows were full, and for one
  event or a bundle, the same request passes every window at any time not earlier than the
  refusal plus the seconds it named, after the pruning of that later transaction (nothing else
  having been granted).
\<close>

theorem retry_after_suffices:
  assumes "check_windows evs eff l tool needs now nd = Some x" and "wl_retry_after x = Some r"
    and "now + seconds r \<le> t"
  shows "check_windows (prune (eff_account_id eff) t evs) eff l tool needs t nd = None"
  unfolding check_windows_prune by (rule retry_passes_windows [OF assms])

definition demo_five :: "write_event list" where
  "demo_five = map (\<lambda>i. demo_event i (seconds (4 * i))) [1, 2, 3, 4, 5]"

theorem retry_after_suffices_witness:
  "check_windows (prune 1 (seconds 64) demo_five) demo_eff DEFAULT_LIMITS ''send_message'' [(Send, 1)]
     (seconds 64) False = None"
proof -
  let ?c = "check_windows demo_five demo_eff DEFAULT_LIMITS ''send_message'' [(Send, 1)] (seconds 30) False"
  have "?c \<noteq> None" "map_option wl_retry_after ?c = Some (Some 34)" by code_simp+
  then obtain x where "?c = Some x" "wl_retry_after x = Some 34" by auto
  from retry_after_suffices [OF this, of "seconds 64"] show ?thesis
    by (simp add: demo_eff_def seconds_def)
qed

text \<open>The limits a reservation is checked against: a lookup keeps those of \<open>NO_LIMITS\<close> where writes have none.\<close>

definition limits_in_force :: "wl_db \<Rightarrow> int \<Rightarrow> wkind \<Rightarrow> (effective \<times> limits) option" where
  "limits_in_force db a kind =
    (case effective_of db a of None \<Rightarrow> None
     | Some eff \<Rightarrow> (case eff_limits eff of Some l \<Rightarrow> Some (eff, l)
         | None \<Rightarrow> if kind = Lookup then Some (eff\<lparr>eff_limits := Some NO_LIMITS\<rparr>, NO_LIMITS) else None))"

text \<open>
  A send opens a new dialog when the chat has no event of ours left once old rows are pruned, and
  no message was found in it; the messages are only looked for when it had no event before.
\<close>

definition opens_dialog :: "bool \<Rightarrow> wl_db \<Rightarrow> effective \<Rightarrow> int \<Rightarrow> wkind \<Rightarrow> int option \<Rightarrow> usec \<Rightarrow> bool" where
  "opens_dialog new_mode db eff a kind chat now \<longleftrightarrow> kind = Send \<and> (\<exists>c. chat = Some c \<and>
     \<not> sent_to (prune a now (db_events db)) a c \<and> (sent_to (db_events db) a c \<or> \<not> has_history new_mode db eff c))"

lemma reserve_pre_limits:
  "reserve_pre new_mode db a kind tool chat =
    (case limits_in_force db a kind of None \<Rightarrow> Pre_unlimited
     | Some (eff, l) \<Rightarrow> if \<not> enabled l then Pre_refused (disabled eff tool)
         else Pre_ok eff l (kind = Send \<and> (\<exists>c. chat = Some c \<and> \<not> sent_to (db_events db) a c \<and> has_history new_mode db eff c)))"
  by (auto simp: reserve_pre_def limits_in_force_def Let_def split: option.splits)

lemma locked_refuses_iff:
  "(\<exists>x. reserve_locked db eff l history a kind tool chat now jitter = Inl x) \<longleftrightarrow>
    (\<exists>w \<in> set WINDOWS. \<exists>m. w_kind w = kind \<and> limit_of l (w_name w) = Some m \<and>
       (w_new_dialogs_only w \<longrightarrow> kind = Send \<and> \<not> history \<and>
         (\<exists>c. chat = Some c \<and> \<not> sent_to (prune a now (db_events db)) a c)) \<and>
       m < count_events (db_events db) (eff_account_id eff) w now + 1) \<or>
    seconds MAX_WAIT_SEC < planned_at (prune a now (db_events db)) l a kind now jitter - now"
proof -
  define evs where "evs = prune a now (db_events db)"
  define nd where "nd \<longleftrightarrow> kind = Send \<and> \<not> history \<and> (\<exists>c. chat = Some c \<and> \<not> sent_to evs a c)"
  have nd: "nd \<longleftrightarrow> kind = Send \<and> \<not> history \<and>
      (case chat of None \<Rightarrow> False | Some c \<Rightarrow> \<not> sent_to evs a c)"
    by (auto simp: nd_def split: option.splits)
  have "(\<exists>x. reserve_locked db eff l history a kind tool chat now jitter = Inl x) \<longleftrightarrow>
      check_windows evs eff l tool [(kind, 1)] now nd \<noteq> None \<or>
      seconds MAX_WAIT_SEC < planned_at evs l a kind now jitter - now"
    unfolding nd by (simp add: reserve_locked_def Let_def evs_def split: option.splits)
  also have "check_windows evs eff l tool [(kind, 1)] now nd \<noteq> None \<longleftrightarrow>
      check_windows (db_events db) eff l tool [(kind, 1)] now nd \<noteq> None"
    by (simp only: evs_def check_windows_prune)
  also have "\<dots> \<longleftrightarrow> (\<exists>w \<in> set WINDOWS. \<exists>m. w_kind w = kind \<and> limit_of l (w_name w) = Some m \<and>
      (w_new_dialogs_only w \<longrightarrow> nd) \<and> m < count_events (db_events db) (eff_account_id eff) w now + 1)"
    unfolding check_windows_refuses_iff by (intro bex_cong refl iff_exI) (auto simp: need_of_def)
  finally show ?thesis unfolding nd_def evs_def .
qed

lemma locked_refusal_429: "reserve_locked db eff l history a kind tool chat now jitter = Inl x \<Longrightarrow> wl_status x = 429"
  by (auto simp: reserve_locked_def check_windows_def refusal_def queued_refusal_def Let_def
      split: option.splits list.splits if_splits prod.splits)

lemma reserve_refusals:
  assumes "kind \<in> {Send, Action, Lookup}"
  shows "(\<exists>x. reserve new_mode db a kind tool chat now jitter = Inl (Limited x) \<and> wl_status x = 403) \<longleftrightarrow>
      (\<exists>eff l. limits_in_force db a kind = Some (eff, l) \<and> \<not> enabled l)"
    and "(\<exists>x. reserve new_mode db a kind tool chat now jitter = Inl (Limited x) \<and> wl_status x = 429) \<longleftrightarrow>
      (\<exists>eff l. limits_in_force db a kind = Some (eff, l) \<and> enabled l \<and>
        ((\<exists>w \<in> set WINDOWS. \<exists>m. w_kind w = kind \<and> limit_of l (w_name w) = Some m \<and>
            (w_new_dialogs_only w \<longrightarrow> opens_dialog new_mode db eff a kind chat now) \<and>
            m < count_events (db_events db) (eff_account_id eff) w now + 1) \<or>
         seconds MAX_WAIT_SEC < planned_at (prune a now (db_events db)) l a kind now jitter - now))"
    and "reserve new_mode db a kind tool chat now jitter = Inl e \<Longrightarrow> \<exists>x. e = Limited x \<and> wl_status x \<in> {403, 429}"
proof -
  have status: "wl_status (disabled eff tool) = 403" for eff by (simp add: disabled_def)
  show "(\<exists>x. reserve new_mode db a kind tool chat now jitter = Inl (Limited x) \<and> wl_status x = 403) \<longleftrightarrow>
      (\<exists>eff l. limits_in_force db a kind = Some (eff, l) \<and> \<not> enabled l)"
    using assms status by (auto simp: reserve_def reserve_pre_limits dest: locked_refusal_429 split: option.splits sum.splits)
  show "reserve new_mode db a kind tool chat now jitter = Inl e \<Longrightarrow> \<exists>x. e = Limited x \<and> wl_status x \<in> {403, 429}"
    using assms status by (auto simp: reserve_def reserve_pre_limits dest: locked_refusal_429 split: option.splits sum.splits if_splits prod.splits)
  let ?h = "\<lambda>eff. kind = Send \<and> (\<exists>c. chat = Some c \<and> \<not> sent_to (db_events db) a c \<and> has_history new_mode db eff c)"
  have "(\<exists>x. reserve new_mode db a kind tool chat now jitter = Inl (Limited x) \<and> wl_status x = 429) \<longleftrightarrow>
      (\<exists>eff l. limits_in_force db a kind = Some (eff, l) \<and> enabled l \<and>
        (\<exists>x. reserve_locked db eff l (?h eff) a kind tool chat now jitter = Inl x))"
    using assms status by (auto simp: reserve_def reserve_pre_limits dest: locked_refusal_429 split: option.splits sum.splits)
  also have "\<dots> \<longleftrightarrow> (\<exists>eff l. limits_in_force db a kind = Some (eff, l) \<and> enabled l \<and>
        ((\<exists>w \<in> set WINDOWS. \<exists>m. w_kind w = kind \<and> limit_of l (w_name w) = Some m \<and>
            (w_new_dialogs_only w \<longrightarrow> opens_dialog new_mode db eff a kind chat now) \<and>
            m < count_events (db_events db) (eff_account_id eff) w now + 1) \<or>
         seconds MAX_WAIT_SEC < planned_at (prune a now (db_events db)) l a kind now jitter - now))"
  proof -
    have "(kind = Send \<and> \<not> ?h eff \<and> (\<exists>c. chat = Some c \<and> \<not> sent_to (prune a now (db_events db)) a c)) \<longleftrightarrow>
        opens_dialog new_mode db eff a kind chat now" for eff by (auto simp: opens_dialog_def)
    then show ?thesis unfolding locked_refuses_iff by simp
  qed
  finally show "(\<exists>x. reserve new_mode db a kind tool chat now jitter = Inl (Limited x) \<and> wl_status x = 429) \<longleftrightarrow>
      (\<exists>eff l. limits_in_force db a kind = Some (eff, l) \<and> enabled l \<and>
        ((\<exists>w \<in> set WINDOWS. \<exists>m. w_kind w = kind \<and> limit_of l (w_name w) = Some m \<and>
            (w_new_dialogs_only w \<longrightarrow> opens_dialog new_mode db eff a kind chat now) \<and>
            m < count_events (db_events db) (eff_account_id eff) w now + 1) \<or>
         seconds MAX_WAIT_SEC < planned_at (prune a now (db_events db)) l a kind now jitter - now))" .
qed

text \<open>
  C4 A reservation refuses exactly when it must. A send, an action or a lookup of an account is
  refused if and only if the account has limits for it (a platform without limits still has the
  one for lookups) and writes are switched off, or some window of its kind has no room for one
  event more, where the window for new dialogs counts only for a send that opens one, or the pause
  before the send exceeds the 15 seconds a call may wait. The refusal is a 403 exactly when writes
  are switched off and otherwise a 429; without limits and without such a reason it is granted.
\<close>

theorem reserve_refuses_iff:
  assumes "kind \<in> {Send, Action, Lookup}"
  shows "((\<exists>x. reserve new_mode db a kind tool chat now jitter = Inl (Limited x) \<and> wl_status x = 403) \<longleftrightarrow>
      (\<exists>eff l. limits_in_force db a kind = Some (eff, l) \<and> \<not> enabled l)) \<and>
    ((\<exists>x. reserve new_mode db a kind tool chat now jitter = Inl (Limited x) \<and> wl_status x = 429) \<longleftrightarrow>
      (\<exists>eff l. limits_in_force db a kind = Some (eff, l) \<and> enabled l \<and>
        ((\<exists>w \<in> set WINDOWS. \<exists>m. w_kind w = kind \<and> limit_of l (w_name w) = Some m \<and>
            (w_new_dialogs_only w \<longrightarrow> opens_dialog new_mode db eff a kind chat now) \<and>
            m < count_events (db_events db) (eff_account_id eff) w now + 1) \<or>
         seconds MAX_WAIT_SEC < planned_at (prune a now (db_events db)) l a kind now jitter - now))) \<and>
    (\<forall>e. reserve new_mode db a kind tool chat now jitter = Inl e \<longrightarrow> (\<exists>x. e = Limited x \<and> wl_status x \<in> {403, 429}))"
  by (intro conjI allI impI reserve_refusals [OF assms])

theorem reserve_refuses_iff_witness:
  "\<exists>x. reserve True (demo_db ''max'' demo_five) 1 Send ''send_message'' (Some 7) (seconds 30) 0 = Inl (Limited x) \<and> wl_status x = 429"
proof -
  have "5 < count_events demo_five 1 demo_minute (seconds 30) + 1" by code_simp
  moreover have "limit_of DEFAULT_LIMITS (w_name demo_minute) = Some 5" by code_simp
  moreover have "limits_in_force (demo_db ''max'' demo_five) 1 Send = Some (demo_eff, DEFAULT_LIMITS)"
    by (simp add: limits_in_force_def effective_of_def account_by_id_def one_or_none_def demo_simps PLATFORM_DEFAULTS_def)
  moreover have "enabled DEFAULT_LIMITS" by code_simp
  ultimately show ?thesis
    using reserve_refuses_iff [of Send True "demo_db ''max'' demo_five" 1 "''send_message''" "Some 7" "seconds 30" 0]
    by (auto simp: demo_db_def demo_eff_def demo_minute_def mk_window_def intro!: bexI [OF _ demo_minute_in])
qed

text \<open>
  All or nothing. A granted bundle (create_group: one group and n invites) puts exactly the
  requested number of each kind on the account, in one transaction, none of them a new dialog,
  and afterwards no window of a requested kind holds more than its limit; given back, the whole
  bundle disappears and only old rows are gone.
\<close>

theorem bundle_all_or_nothing:
  assumes ok: "reserve_bundle_locked db eff l a tool needs chat now = Inr (sl, db')"
    and keys: "distinct (map fst needs)" and ids: "ids_below db"
  shows "\<exists>es. db_events db' = prune a now (db_events db) @ es \<and> map ev_id es = slot_event_ids sl \<and>
      (\<forall>k. count_rows (\<lambda>e. ev_kind e = k) es = nat (need_of needs k)) \<and>
      check_windows (db_events db) eff l tool needs now False = None \<and>
      db_events (release True sl db') = prune a now (db_events db)"
  by (rule bundle_granted [OF ok keys ids])

theorem bundle_all_or_nothing_witness:
  "\<exists>sl db'. reserve_bundle_locked (demo_db ''max'' []) demo_eff DEFAULT_LIMITS 1 ''create_group''
      [(Group_create, 1), (Group_invite, 2)] None 100 = Inr (sl, db') \<and>
    db_events (release True sl db') = []"
proof -
  have "check_windows [] demo_eff DEFAULT_LIMITS ''create_group''
      [(Group_create, 1), (Group_invite, 2)] 100 False = None" by code_simp
  then obtain sl db' where r: "reserve_bundle_locked (demo_db ''max'' []) demo_eff DEFAULT_LIMITS 1
      ''create_group'' [(Group_create, 1), (Group_invite, 2)] None 100 = Inr (sl, db')"
    by (auto simp: reserve_bundle_locked_def demo_db_def prune_def Let_def)
  from bundle_all_or_nothing [OF this] have "db_events (release True sl db') = []"
    by (simp add: ids_below_def demo_db_def prune_def)
  with r show ?thesis by blast
qed

text \<open>
  C5 A slot is given back exactly when the call failed for sure. After a granted reservation the
  body runs while others add events, and ends: with an error that is certain the row is deleted
  again (only rows past the retention are gone, the others' stay); when it returned, was
  cancelled, or its outcome is unknown (\<^verbatim>\<open>keep_write_slot\<close>: the frame may have gone out), the
  row stays and counts.
\<close>

theorem slot_given_back:
  assumes ok: "reserve new_mode db a kind tool chat now jitter = Inr (Some sl, wait, db1)"
    and ids: "ids_below db"
    and body: "body (Some sl) db1 = (out, db2)" "db_events db2 = db_events db1 @ others"
      "\<forall>e \<in> set others. db_next_event db1 \<le> ev_id e"
  shows "\<exists>dbf. write_slot new_mode True (Some a) kind tool chat now jitter body db = Inr (out, dbf) \<and>
    db_events dbf = (if out = Body_raised False then prune a now (db_events db) @ others
                     else db_events db1 @ others)"
proof -
  obtain eff l history where
    r: "reserve_locked db eff l history a kind tool chat now jitter = Inr (sl, wait, db1)"
    using ok by (auto simp: reserve_def split: if_splits pre_outcome.splits sum.splits)
  have nxt: "slot_event_ids sl = [db_next_event db]" "db_next_event db1 = db_next_event db + 1"
    by (rule reserve_lockedE [OF r]; simp)+
  with body(3) have "\<forall>e \<in> set others. ev_id e \<noteq> db_next_event db" by force
  with nxt have "filter (\<lambda>e. ev_id e \<notin> set (slot_event_ids sl)) others = others"
    by (intro filter_True) auto
  then have "db_events (release True sl db2) = prune a now (db_events db) @ others"
    using release_after_reserve_locked [OF r ids] by (simp add: release_def body(2))
  moreover have "write_slot new_mode True (Some a) kind tool chat now jitter body db
      = Inr (out, exit_slot True (Some sl) out db2)"
    by (simp add: write_slot_def ok body(1))
  ultimately show ?thesis
    by (cases out) (simp_all add: exit_slot_def body(2))
qed

theorem slot_given_back_witness:
  "\<exists>dbf. write_slot True True (Some 1) Send ''send_message'' (Some 7) 100 0
      (\<lambda>_ d. (Body_raised False, d)) (demo_db ''max'' []) = Inr (Body_raised False, dbf) \<and>
    db_events dbf = []"
  using slot_given_back [OF demo_reserve, of "\<lambda>_ d. (Body_raised False, d)" "Body_raised False" _ "[]"]
  by (simp add: ids_below_def demo_db_def prune_def)

text \<open>
  What a granted reservation gives: the whole operation either answers that the account has
  no limits (nothing is written), or, granted, it adds one event of the account with a new id,
  planned between now and 15 seconds later; only a send ever waits.
\<close>

theorem reserve_granted:
  assumes ok: "reserve new_mode db a kind tool chat now jitter = Inr (r, wait, db')"
  shows "case r of
      None \<Rightarrow> wait = 0 \<and> db' = db
    | Some sl \<Rightarrow> 0 \<le> wait \<and> wait \<le> seconds MAX_WAIT_SEC \<and> (kind = Send \<or> wait = 0) \<and>
        (\<exists>e. db_events db' = prune a now (db_events db) @ [e] \<and> slot_event_ids sl = [ev_id e] \<and>
           ev_id e = db_next_event db \<and> ev_account_id e = a \<and> ev_kind e = kind \<and>
           ev_chat_id e = chat \<and> ev_at e = now + wait)"
proof (cases r)
  case None
  with ok show ?thesis by (auto simp: reserve_def split: if_splits pre_outcome.splits sum.splits)
next
  case (Some sl)
  with ok obtain eff l history where
    r: "reserve_locked db eff l history a kind tool chat now jitter = Inr (sl, wait, db')"
    by (auto simp: reserve_def split: if_splits pre_outcome.splits sum.splits)
  show ?thesis
    by (rule reserve_lockedE [OF r])
       (use Some planned_at_ge [of now] planned_at_waits [of _ l a kind now jitter] in \<open>auto simp: new_event_def\<close>)
qed

theorem reserve_granted_witness:
  "\<exists>e. [demo_event 10 100] = prune 1 100 [] @ [e] \<and> ev_id e = 10 \<and> ev_at e = 100 + 0"
  using reserve_granted [OF demo_reserve] by (auto simp: demo_db_def)

text \<open>
  A change of the settings changes what it names only. For a known account, setting limits
  gives the account its own row; a field the change does not name keeps the value in force
  before, which for an account without own settings on a platform without defaults (Telegram) is
  off: setting one limit there does not switch on the pause or the other windows of MAX.
\<close>

theorem set_limits_keeps_others:
  assumes acc: "account_by_id (db_accounts db) a = Some acc"
    and n: "\<forall>c \<in> set changes. \<forall>v. c \<noteq> Set_limit n v"
  shows "\<exists>eff l. effective_of (set_limits db a changes) a = Some eff \<and> eff_limits eff = Some l \<and>
    eff_source eff = ''account'' \<and>
    limit_of l n = (case db_limits db a of
        Some own \<Rightarrow> limit_of own n
      | None \<Rightarrow> limit_of (if acc_platform acc = ''max'' then DEFAULT_LIMITS else NO_LIMITS) n)"
proof -
  have "effective_of (set_limits db a changes) a = Some \<lparr>eff_account_id = a,
      eff_alias = acc_alias acc, eff_platform = acc_platform acc,
      eff_limits = Some (replace_limits (base_limits db a acc) changes), eff_source = ''account''\<rparr>"
    by (rule effective_of_set_limits [OF acc])
  moreover have "limit_of (replace_limits (base_limits db a acc) changes) n = limit_of (base_limits db a acc) n"
    by (rule limit_of_replace_limits [OF n])
  ultimately show ?thesis
    by (auto simp: base_limits_def split: option.splits)
qed

theorem set_limits_keeps_others_witness:
  "\<exists>eff l. effective_of (set_limits (demo_db ''telegram'' []) 1 [Set_limit ''per_hour'' (Some 30)]) 1
      = Some eff \<and> eff_limits eff = Some l \<and> eff_source eff = ''account'' \<and>
    limit_of l ''new_dialogs_per_day'' = None"
proof -
  have "account_by_id (db_accounts (demo_db ''telegram'' [])) 1 = Some (demo_account ''telegram'')"
    by (simp add: account_by_id_def one_or_none_def demo_simps)
  from set_limits_keeps_others [OF this, of "[Set_limit ''per_hour'' (Some 30)]" "''new_dialogs_per_day''"]
  show ?thesis by (simp add: demo_simps NO_LIMITS_def limit_of_def)
qed

text \<open>
  The status and the check agree: the number the status and the import report as left in a
  window (\<^verbatim>\<open>window_left\<close>) is not negative, and a request for \<open>n\<close> events of the window's kind
  (of new dialogs, in the new-dialog window) finds room in that window if and only if \<open>n\<close>
  fits into what is left.
\<close>

theorem window_left_decides:
  assumes w: "w \<in> set WINDOWS" and left: "window_left db a (w_name w) now = Some k"
    and eff: "effective_of db a = Some eff" and l: "eff_limits eff = Some l"
    and n: "need_of needs (w_kind w) = n" "1 \<le> n"
  shows "0 \<le> k \<and> (full_window_of (db_events db) eff l needs now True w = None \<longleftrightarrow> n \<le> k)"
proof -
  have id: "eff_account_id eff = a"
    using eff by (auto simp: effective_of_def Let_def split: option.splits)
  have "find (\<lambda>v. w_name v = w_name w) WINDOWS = Some w" by (rule find_window [OF w])
  with left eff l obtain m where m: "limit_of l (w_name w) = Some m"
    "k = max 0 (m - count_events (db_events db) a w now)"
    by (auto simp: window_left_def split: option.splits)
  from n m show ?thesis by (auto simp: full_window_of_None_iff id)
qed

theorem window_left_decides_witness:
  "full_window_of (db_events (demo_db ''max'' demo_five)) demo_eff DEFAULT_LIMITS [(Send, 1)] (seconds 30) True
     demo_minute \<noteq> None"
proof -
  have eff: "effective_of (demo_db ''max'' demo_five) 1 = Some demo_eff"
    by (simp add: effective_of_def account_by_id_def one_or_none_def demo_simps PLATFORM_DEFAULTS_def)
  have "count_events demo_five 1 demo_minute (seconds 30) = 5" by code_simp
  then have "window_left (demo_db ''max'' demo_five) 1 (w_name demo_minute) (seconds 30) = Some 0"
    using find_window [OF demo_minute_in]
    by (simp add: window_left_def eff)
       (simp add: demo_simps mk_window_def limit_of_def DEFAULT_LIMITS_def)
  from window_left_decides [OF demo_minute_in this eff, of DEFAULT_LIMITS "[(Send, 1)]" 1]
  show ?thesis by (simp add: demo_eff_def need_of_def demo_minute_def mk_window_def limit_of_def DEFAULT_LIMITS_def)
qed

end
