(* ===== verification/Phone.thy ===== *)
theory Phone
  imports Bridge_Prelude
begin

text \<open>
  Phone numbers (\<^verbatim>\<open>app/utils/phone.py\<close>): normalisation to E.164, the mask for logs and
  digests, the mask inside call parameters and inside free error texts. Texts are strings of code
  points below 256; there \<^verbatim>\<open>\d\<close> is an ASCII digit and \<^verbatim>\<open>\s\<close> is \<^term>\<open>is_space\<close>.
\<close>

text \<open>\<^verbatim>\<open>_NON_DIGITS.sub("", s)\<close>.\<close>

definition digits_of :: "string \<Rightarrow> string" where
  "digits_of s = filter is_digit s"

definition normalize_phone :: "string option \<Rightarrow> string option" where
  "normalize_phone raw =
    (case raw of
       None \<Rightarrow> None
     | Some s \<Rightarrow>
        (let ds = digits_of s;
             ds' = (if length ds = 11 \<and> starts_with ds ''8'' then ''7'' @ drop 1 ds else ds)
         in if length ds' < 10 then None else Some (''+'' @ ds')))"

definition mask_phone :: "string option \<Rightarrow> string option" where
  "mask_phone phone =
    (case normalize_phone phone of
       None \<Rightarrow> None
     | Some e164 \<Rightarrow>
        (let ds = drop 1 e164
         in Some (''+'' @ take 1 ds @ replicate (length ds - 5) (CHR ''*'') @ drop (length ds - 4) ds)))"

subsection \<open>Call parameters\<close>

text \<open>
  \<^verbatim>\<open>isinstance(x, (str, int))\<close> holds of a Boolean too, whose text has no digits.
\<close>

definition phone_text :: "json \<Rightarrow> string option" where
  "phone_text v = (case v of
      JStr s \<Rightarrow> Some s
    | JInt i \<Rightarrow> Some (show_int i)
    | JBool b \<Rightarrow> Some (if b then ''True'' else ''False'')
    | _ \<Rightarrow> None)"

fun mask_phone_params :: "json \<Rightarrow> json" where
  "mask_phone_params (JObj d) = JObj (map (\<lambda>(k, v). (k,
     if k = ''phone'' then
       (case phone_text v of
          None \<Rightarrow> v
        | Some t \<Rightarrow> JStr (case mask_phone (Some t) of Some m \<Rightarrow> m | None \<Rightarrow> ''?''))
     else if k = ''contacts'' then
       (case v of JList cs \<Rightarrow> JList (map mask_phone_params cs) | _ \<Rightarrow> v)
     else v)) d)"
| "mask_phone_params v = v"

subsection \<open>Free text\<close>

text \<open>
  A match of \<^verbatim>\<open>\+?\d[\d\s()-]{8,}\d\<close> at the start of a text: the longest run of the class
  after the first digit, cut back to its last digit, with at least nine characters left.
\<close>

definition in_run :: "char \<Rightarrow> bool" where
  "in_run c \<longleftrightarrow> is_digit c \<or> is_space c \<or> c = CHR ''('' \<or> c = CHR '')'' \<or> c = CHR ''-''"

definition core :: "string \<Rightarrow> string" where
  "core s = rev (dropWhile (\<lambda>c. \<not> is_digit c) (rev (takeWhile in_run s)))"

definition match_body :: "string \<Rightarrow> string option" where
  "match_body s = (case s of
      [] \<Rightarrow> None
    | c # t \<Rightarrow> if is_digit c \<and> 9 \<le> length (core t) then Some (c # core t) else None)"

definition match_phone :: "string \<Rightarrow> string option" where
  "match_phone s = (case s of
      [] \<Rightarrow> None
    | c # t \<Rightarrow> if c = CHR ''+'' then map_option (Cons c) (match_body t) else match_body s)"

text \<open>\<^verbatim>\<open>re.split(r"(\s*[()]\s*)", run)\<close>: the parts and, between them, the separators.\<close>

definition bracket_at :: "string \<Rightarrow> string option" where
  "bracket_at s =
    (case dropWhile is_space s of
       [] \<Rightarrow> None
     | c # t \<Rightarrow> if c = CHR ''('' \<or> c = CHR '')''
                then Some (takeWhile is_space s @ [c] @ takeWhile is_space t) else None)"

lemma bracket_at_nonempty: "bracket_at s = Some m \<Longrightarrow> m \<noteq> []"
  by (auto simp: bracket_at_def split: list.splits if_splits)

function split_brackets :: "string \<Rightarrow> string \<Rightarrow> string list" where
  "split_brackets acc s =
    (case s of
       [] \<Rightarrow> [rev acc]
     | c # t \<Rightarrow>
        (case bracket_at s of
           Some m \<Rightarrow> rev acc # m # split_brackets [] (drop (length m) s)
         | None \<Rightarrow> split_brackets (c # acc) t))"
  by pat_completeness auto
termination
  by (relation "measure (\<lambda>(acc, s). length s)") (auto dest: bracket_at_nonempty)

declare split_brackets.simps [simp del]

definition one :: "string \<Rightarrow> string" where
  "one chunk =
    (let n = length (digits_of chunk)
     in if 10 \<le> n \<and> n \<le> 15 then (case mask_phone (Some chunk) of Some m \<Rightarrow> m | None \<Rightarrow> []) else chunk)"

definition repl :: "string \<Rightarrow> string" where
  "repl run =
    (if length (digits_of run) \<le> 15 then one run
     else concat (map one (split_brackets [] run)))"

lemma match_phone_nonempty: "match_phone s = Some m \<Longrightarrow> m \<noteq> []"
  by (auto simp: match_phone_def match_body_def split: list.splits if_splits)

function mask_phones_in_text :: "string \<Rightarrow> string" where
  "mask_phones_in_text s =
    (case s of
       [] \<Rightarrow> []
     | c # t \<Rightarrow>
        (case match_phone s of
           Some m \<Rightarrow> repl m @ mask_phones_in_text (drop (length m) s)
         | None \<Rightarrow> c # mask_phones_in_text t))"
  by pat_completeness auto
termination
  by (relation "measure length") (auto dest: match_phone_nonempty)

declare mask_phones_in_text.simps [simp del]

subsection \<open>The shape of a normalised number\<close>

lemma digits_of_idem [simp]: "digits_of (digits_of s) = digits_of s"
  by (simp add: digits_of_def)

lemma digits_of_append [simp]: "digits_of (s @ t) = digits_of s @ digits_of t"
  by (simp add: digits_of_def)

lemma digits_of_digits: "\<forall>c \<in> set ds. is_digit c \<Longrightarrow> digits_of ds = ds"
  by (simp add: digits_of_def filter_id_conv)

lemma normalize_phoneE:
  assumes "normalize_phone raw = Some p"
  obtains ds where "p = CHR ''+'' # ds" "10 \<le> length ds" "\<forall>c \<in> set ds. is_digit c"
    "\<not> (length ds = 11 \<and> hd ds = CHR ''8'')"
proof -
  obtain s where s: "raw = Some s" using assms by (cases raw) (auto simp: normalize_phone_def)
  let ?ds = "digits_of s"
  let ?d = "if length ?ds = 11 \<and> starts_with ?ds ''8'' then ''7'' @ drop 1 ?ds else ?ds"
  from assms s have p: "p = CHR ''+'' # ?d" "10 \<le> length ?d"
    by (auto simp: normalize_phone_def Let_def split: if_splits)
  have "\<forall>c \<in> set ?d. is_digit c"
  proof -
    have "is_digit CHR ''7''" by code_simp
    then show ?thesis by (auto simp: digits_of_def dest: in_set_dropD)
  qed
  moreover have "\<not> (length ?d = 11 \<and> hd ?d = CHR ''8'')"
    by (cases ?ds) auto
  ultimately show thesis using p that by blast
qed

lemma normalize_normal:
  assumes "10 \<le> length ds" "\<forall>c \<in> set ds. is_digit c" "\<not> (length ds = 11 \<and> hd ds = CHR ''8'')"
  shows "normalize_phone (Some (CHR ''+'' # ds)) = Some (CHR ''+'' # ds)"
proof -
  have "\<not> is_digit CHR ''+''" by code_simp
  then have d: "digits_of (CHR ''+'' # ds) = ds"
    using assms(2) by (simp add: digits_of_def)
  have "\<not> (length ds = 11 \<and> starts_with ds ''8'')" using assms(3) by (cases ds) auto
  with assms(1) show ?thesis by (auto simp: normalize_phone_def d)
qed

end
