(* ===== verification/Phone_Props.thy ===== *)
theory Phone_Props
  imports Phone
begin

text \<open>
  Phone numbers: the normal form, what the mask hides, and that a masked error text shows no
  number any more as long as no number in it is written with brackets; with brackets it can.
\<close>

subsection \<open>Runs of phone characters\<close>

definition stops :: "string \<Rightarrow> bool" where
  "stops w \<longleftrightarrow> w = [] \<or> \<not> in_run (hd w)"

lemma digit_in_run: "is_digit c \<Longrightarrow> in_run c"
  by (simp add: in_run_def)

lemma core_eqI:
  assumes "\<forall>c \<in> set (k @ tr). in_run c" and "k = [] \<or> is_digit (last k)"
    and "\<forall>c \<in> set tr. \<not> is_digit c" and "stops w"
  shows "core (k @ tr @ w) = k"
proof -
  have "takeWhile in_run (k @ tr @ w) = k @ tr"
    using assms(1,4) by (cases w) (auto simp: stops_def takeWhile_append takeWhile_eq_all_conv)
  moreover have "dropWhile (\<lambda>c. \<not> is_digit c) (rev tr @ rev k) = rev k"
    using assms(2,3) by (cases k rule: rev_cases) (auto simp: dropWhile_append)
  ultimately show ?thesis by (simp add: core_def)
qed

lemma core_split:
  obtains tr w where "t = core t @ tr @ w" "\<forall>c \<in> set (core t @ tr). in_run c"
    "core t = [] \<or> is_digit (last (core t))" "\<forall>c \<in> set tr. \<not> is_digit c" "stops w"
proof -
  let ?r = "rev (takeWhile in_run t)" and ?P = "\<lambda>c. \<not> is_digit c"
  let ?tr = "rev (takeWhile ?P ?r)" and ?w = "dropWhile in_run t"
  have run: "takeWhile in_run t = core t @ ?tr"
    by (metis core_def rev_append rev_rev_ident takeWhile_dropWhile_id)
  then have "t = core t @ ?tr @ ?w"
    by (metis append.assoc takeWhile_dropWhile_id)
  moreover have "\<forall>c \<in> set (core t @ ?tr). in_run c"
    unfolding run [symmetric] by (auto dest: set_takeWhileD)
  moreover have "core t = [] \<or> is_digit (last (core t))"
    using hd_dropWhile [of ?P ?r] by (auto simp: core_def last_rev)
  moreover have "\<forall>c \<in> set ?tr. \<not> is_digit c" by (auto dest: set_takeWhileD)
  moreover have "stops ?w" unfolding stops_def by (metis hd_dropWhile)
  ultimately show thesis by (rule that)
qed

lemma core_tail: "length (core t) \<le> length (core (c # t)) \<or> \<not> in_run c"
proof (cases "in_run c")
  case True
  have "rev (dropWhile P (rev xs @ [x])) = rev (dropWhile P (rev xs)) \<or>
      length (dropWhile P (rev xs)) \<le> length (dropWhile P (rev xs @ [x]))"
    for P and xs :: string and x by (induction xs rule: rev_induct) auto
  then show ?thesis using True unfolding core_def by (metis length_rev order_refl rev.simps(2) takeWhile.simps(2))
qed simp

text \<open>The parts of a match: an optional plus, the first digit, the rest of the run.\<close>

lemma match_phoneE:
  assumes "match_phone s = Some m"
  obtains (parts) p c k tr w where "m = p @ c # k" "s = m @ tr @ w" "p = [] \<or> p = ''+''" "is_digit c"
    "9 \<le> length k" "\<forall>x \<in> set (k @ tr). in_run x" "is_digit (last k)"
    "\<forall>x \<in> set tr. \<not> is_digit x" "stops w"
proof -
  have body: thesis if s: "s = p @ c # t" and p: "p = [] \<or> p = ''+''" and c: "is_digit c"
    and m: "m = p @ c # core t" and len: "9 \<le> length (core t)" for p c t
  proof (rule core_split [of t])
    fix tr w
    assume *: "t = core t @ tr @ w" "\<forall>c \<in> set (core t @ tr). in_run c"
      "core t = [] \<or> is_digit (last (core t))" "\<forall>c \<in> set tr. \<not> is_digit c" "stops w"
    have "core t \<noteq> []" using len by auto
    with * show thesis
      by (intro parts [where p = p and c = c and k = "core t" and tr = tr and w = w])
         (use m s p c len in auto)
  qed
  show thesis
  proof (cases s)
    case (Cons c t)
    show thesis
    proof (cases "c = CHR ''+''")
      case True
      then obtain d u where t: "t = d # u" "is_digit d" "m = c # d # core u" "9 \<le> length (core u)"
        using assms Cons by (auto simp: match_phone_def match_body_def split: if_splits list.splits)
      show thesis by (rule body [where p = "''+''" and c = d and t = u]) (use True Cons t in auto)
    next
      case False
      then show thesis using assms Cons
        by (intro body [where p = "[]" and c = c and t = t])
           (auto simp: match_phone_def match_body_def split: if_splits)
    qed
  qed (use assms in \<open>simp add: match_phone_def\<close>)
qed

lemma match_phoneI:
  assumes "p = [] \<or> p = ''+''" "is_digit c" "9 \<le> length k" "\<forall>x \<in> set (k @ tr). in_run x"
    "is_digit (last k)" "\<forall>x \<in> set tr. \<not> is_digit x" "stops w"
  shows "match_phone (p @ c # k @ tr @ w) = Some (p @ c # k)"
proof -
  have "core (k @ tr @ w) = k" using assms by (intro core_eqI) auto
  moreover have "c \<noteq> CHR ''+''" using assms(2) by (auto simp: is_digit_def)
  ultimately show ?thesis using assms(1,2,3) by (auto simp: match_phone_def match_body_def)
qed

lemma no_match_char: "\<not> is_digit c \<Longrightarrow> c \<noteq> CHR ''+'' \<Longrightarrow> match_phone (c # t) = None"
  by (simp add: match_phone_def match_body_def)

lemma no_match_short: "is_digit c \<Longrightarrow> length (core t) < 9 \<Longrightarrow> match_phone (c # t) = None"
  by (auto simp: match_phone_def match_body_def is_digit_def)

lemma match_phone_None_iff:
  "match_phone (c # t) = None \<longleftrightarrow>
    (if c = CHR ''+'' then match_body t = None else \<not> (is_digit c \<and> 9 \<le> length (core t)))"
  by (auto simp: match_phone_def match_body_def)

lemma mask_text_Nil [simp]: "mask_phones_in_text [] = []"
  by (simp add: mask_phones_in_text.simps)

lemma mask_text_skip:
  "match_phone (c # t) = None \<Longrightarrow> mask_phones_in_text (c # t) = c # mask_phones_in_text t"
  by (simp add: mask_phones_in_text.simps [of "c # t"])

lemma mask_text_match:
  assumes "match_phone (m @ r) = Some m"
  shows "mask_phones_in_text (m @ r) = repl m @ mask_phones_in_text r"
proof (cases "m @ r")
  case (Cons c t)
  then show ?thesis using assms append_eq_conv_conj [of m r "c # t"]
    by (simp add: mask_phones_in_text.simps [of "c # t"])
qed (use assms match_phone_nonempty in auto)

subsection \<open>Texts without brackets\<close>

definition no_brackets :: "string \<Rightarrow> bool" where
  "no_brackets s \<longleftrightarrow> CHR ''('' \<notin> set s \<and> CHR '')'' \<notin> set s"

lemma bracket_at_None: "no_brackets s \<Longrightarrow> bracket_at s = None"
proof (cases "dropWhile is_space s")
  case (Cons c t)
  assume "no_brackets s"
  moreover have "c \<in> set s" using Cons by (metis list.set_intros(1) set_dropWhileD)
  ultimately show ?thesis using Cons by (auto simp: bracket_at_def no_brackets_def)
qed (simp add: bracket_at_def del: dropWhile_eq_Nil_conv)

lemma split_no_brackets: "no_brackets s \<Longrightarrow> split_brackets acc s = [rev acc @ s]"
  by (induction acc s rule: split_brackets.induct)
     (subst split_brackets.simps, use bracket_at_None in \<open>auto simp: no_brackets_def split: list.splits\<close>)

lemma repl_no_brackets: "no_brackets m \<Longrightarrow> repl m = one m"
  by (simp add: repl_def split_no_brackets)

subsection \<open>Scanning the masked text again\<close>

text \<open>What a scan with the same pattern finds in a text.\<close>

function phone_runs :: "string \<Rightarrow> string list" where
  "phone_runs s =
    (case s of
       [] \<Rightarrow> []
     | c # t \<Rightarrow>
        (case match_phone s of
           Some m \<Rightarrow> m # phone_runs (drop (length m) s)
         | None \<Rightarrow> phone_runs t))"
  by pat_completeness auto
termination
  by (relation "measure length") (auto dest: match_phone_nonempty)

declare phone_runs.simps [simp del]

lemma phone_runs_Nil [simp]: "phone_runs [] = []"
  by (simp add: phone_runs.simps)

lemma phone_runs_skip: "match_phone (c # t) = None \<Longrightarrow> phone_runs (c # t) = phone_runs t"
  by (simp add: phone_runs.simps [of "c # t"])

lemma phone_runs_match:
  assumes "match_phone (m @ r) = Some m"
  shows "phone_runs (m @ r) = m # phone_runs r"
proof (cases "m @ r")
  case (Cons c t)
  then show ?thesis using assms append_eq_conv_conj [of m r "c # t"]
    by (simp add: phone_runs.simps [of "c # t"])
qed (use assms match_phone_nonempty in auto)

text \<open>The mask never joins a run: it starts as the match did, or with a plus.\<close>

lemma stops_Cons: "stops (c # s) \<longleftrightarrow> \<not> in_run c"
  by (simp add: stops_def)

lemma plus_not_in_run: "\<not> in_run CHR ''+''"
  by code_simp

lemma mask_some:
  assumes "10 \<le> length (digits_of s)"
  obtains ds where "length ds = length (digits_of s)" "\<forall>c \<in> set ds. is_digit c"
    "mask_phone (Some s) = Some (CHR ''+'' # take 1 ds @ replicate (length ds - 5) (CHR ''*'') @
       drop (length ds - 4) ds)"
proof -
  let ?ds = "digits_of s"
  let ?d = "if length ?ds = 11 \<and> starts_with ?ds ''8'' then ''7'' @ drop 1 ?ds else ?ds"
  have len: "length ?d = length ?ds" using assms by simp
  have n: "normalize_phone (Some s) = Some (CHR ''+'' # ?d)"
    using assms by (auto simp: normalize_phone_def Let_def)
  from normalize_phoneE [OF n] have "\<forall>c \<in> set ?d. is_digit c" by (metis list.inject)
  then show thesis by (rule that [OF len]) (simp add: mask_phone_def n Let_def)
qed

lemma one_starts:
  assumes "p = [] \<or> p = ''+''"
  shows "stops (one (p @ m)) \<or> (p = [] \<and> one (p @ m) = m)"
  using assms
  by (auto simp: one_def Let_def mask_phone_def stops_def plus_not_in_run split: option.splits)

lemma mask_text_stops:
  assumes "stops w" "no_brackets w"
  shows "stops (mask_phones_in_text w)"
proof (cases w)
  case (Cons c t)
  then have c: "\<not> in_run c" using assms(1) by (simp add: stops_Cons)
  show ?thesis
  proof (cases "match_phone w")
    case None
    then show ?thesis using Cons c by (simp add: mask_text_skip stops_Cons)
  next
    case (Some m)
    obtain p d k tr u where m: "m = p @ d # k" "w = m @ tr @ u" "p = [] \<or> p = ''+''" "is_digit d"
      using Some by (rule match_phoneE)
    have nb: "no_brackets m" using assms(2) m(2) by (simp add: no_brackets_def)
    have p: "p = ''+''" using m c Cons digit_in_run by (cases p) auto
    have st: "stops (one m)" using one_starts [of p "d # k"] p m(1) by auto
    moreover have "one m \<noteq> []"
    proof (cases "10 \<le> length (digits_of m)")
      case True
      then show ?thesis by (rule mask_some) (use p m(1) in \<open>simp add: one_def Let_def\<close>)
    qed (use p m(1) in \<open>simp add: one_def Let_def\<close>)
    ultimately have "stops (one m @ x)" for x by (cases "one m") (auto simp: stops_def)
    then show ?thesis using Some m(2) nb by (simp add: mask_text_match repl_no_brackets)
  qed
qed (simp add: stops_def)

lemma no_brackets_append [simp]: "no_brackets (s @ t) \<longleftrightarrow> no_brackets s \<and> no_brackets t"
  by (auto simp: no_brackets_def)

lemma no_brackets_Cons: "no_brackets (c # t) \<Longrightarrow> no_brackets t"
  by (simp add: no_brackets_def)

lemma mask_text_nondigits:
  assumes "\<forall>x \<in> set tr. in_run x \<and> \<not> is_digit x"
  shows "mask_phones_in_text (tr @ w) = tr @ mask_phones_in_text w \<and> phone_runs (tr @ w) = phone_runs w"
  using assms
proof (induction tr)
  case (Cons c tr)
  then have "match_phone (c # tr @ w) = None"
    using plus_not_in_run by (intro no_match_char) auto
  with Cons show ?case by (simp add: mask_text_skip phone_runs_skip)
qed simp

text \<open>A run too short to match is copied.\<close>

lemma mask_text_short_run:
  assumes "length (core t) < 9" "no_brackets t"
  shows "takeWhile in_run (mask_phones_in_text t) = takeWhile in_run t"
  using assms
proof (induction t)
  case (Cons c t)
  show ?case
  proof (cases "in_run c")
    case True
    then have "length (core t) < 9" using core_tail [of t c] Cons.prems(1) by auto
    moreover have "match_phone (c # t) = None"
      using calculation True plus_not_in_run by (auto simp: match_phone_None_iff)
    ultimately show ?thesis using Cons True by (simp add: mask_text_skip no_brackets_Cons)
  next
    case False
    then have "stops (mask_phones_in_text (c # t))"
      using Cons.prems(2) by (intro mask_text_stops) (simp_all add: stops_Cons)
    then show ?thesis using False by (cases "mask_phones_in_text (c # t)") (auto simp: stops_def)
  qed
qed simp

lemma core_cong: "takeWhile in_run s = takeWhile in_run t \<Longrightarrow> core s = core t"
  by (simp add: core_def)

lemma mask_text_keeps_None:
  assumes none: "match_phone (c # t) = None" and nb: "no_brackets t"
  shows "match_phone (c # mask_phones_in_text t) = None"
proof (cases "c = CHR ''+''")
  case True
  then have body: "match_body t = None" using none by (simp add: match_phone_def)
  have "match_body (mask_phones_in_text t) = None"
  proof (cases t)
    case (Cons d u)
    show ?thesis
    proof (cases "is_digit d")
      case True
      then have short: "length (core u) < 9" using body Cons by (auto simp: match_body_def split: if_splits)
      then have "match_phone (d # u) = None" using True by (rule_tac no_match_short)
      moreover have "core (mask_phones_in_text u) = core u"
        using short nb Cons by (intro core_cong mask_text_short_run) (simp_all add: no_brackets_def)
      ultimately show ?thesis using Cons short by (simp add: mask_text_skip match_body_def)
    next
      case False
      have "\<not> is_digit (hd (mask_phones_in_text t))" if "mask_phones_in_text t \<noteq> []"
      proof (cases "match_phone t")
        case None
        then show ?thesis using Cons False by (simp add: mask_text_skip)
      next
        case (Some m)
        obtain p e k tr w where m: "m = p @ e # k" "t = m @ tr @ w" "p = [] \<or> p = ''+''" "is_digit e"
          using Some by (rule match_phoneE)
        then have "p = ''+''" using False Cons by auto
        moreover have "is_digit x \<Longrightarrow> in_run x" for x by (rule digit_in_run)
        moreover have "stops t" using m plus_not_in_run calculation(1) by (simp add: stops_def)
        ultimately show ?thesis using mask_text_stops [OF _ nb] that by (auto simp: stops_def)
      qed
      then show ?thesis by (auto simp: match_body_def split: list.splits)
    qed
  qed (simp add: match_body_def)
  with True show ?thesis by (simp add: match_phone_def)
next
  case False
  show ?thesis
  proof (cases "is_digit c")
    case True
    then have short: "length (core t) < 9" using none False by (auto simp: match_phone_None_iff)
    then have "core (mask_phones_in_text t) = core t"
      using nb by (intro core_cong mask_text_short_run)
    with short True show ?thesis by (intro no_match_short) simp_all
  qed (use False in \<open>simp add: no_match_char\<close>)
qed

lemma mask_never_matches:
  assumes "ds = d # mid @ l" "length mid = length ds - 5" "length l = 4" "\<forall>c \<in> set ds. is_digit c"
    and "mid \<noteq> []" and "\<forall>c \<in> set tr. in_run c \<and> \<not> is_digit c" "stops w"
  shows "phone_runs ((CHR ''+'' # d # replicate (length mid) (CHR ''*'') @ l) @ tr @ w) = phone_runs (tr @ w)"
proof -
  have star: "\<not> in_run CHR ''*''" "\<not> is_digit CHR ''*''" by code_simp+
  have stars: "phone_runs (replicate n CHR ''*'' @ x) = phone_runs x" for n x
    by (induction n) (simp_all add: phone_runs_skip no_match_char star)
  have last: "phone_runs (l' @ tr @ w) = phone_runs (tr @ w)"
    if "length l' \<le> 4" "\<forall>c \<in> set l'. is_digit c" for l'
    using that
  proof (induction l')
    case (Cons c l')
    have "core (l' @ tr @ w) = l'"
      using Cons.prems assms(6,7) digit_in_run by (intro core_eqI) (auto dest: last_in_set)
    then have "match_phone (c # l' @ tr @ w) = None"
      using Cons.prems by (intro no_match_short) simp_all
    with Cons show ?case by (simp add: phone_runs_skip)
  qed simp
  obtain n where n: "length mid = Suc n" using assms(5) by (cases mid) auto
  have d: "is_digit d" using assms(1,4) by simp
  have c0: "core (replicate (Suc n) CHR ''*'' @ x) = []" for x by (simp add: core_def star)
  have "match_phone (d # replicate (Suc n) CHR ''*'' @ x) = None" for x
    using d c0 [of x] by (intro no_match_short) auto
  moreover have "match_phone (CHR ''+'' # d # replicate (Suc n) CHR ''*'' @ x) = None" for x
    using c0 [of x] by (simp add: match_phone_None_iff match_body_def)
  ultimately have "phone_runs (CHR ''+'' # d # replicate (Suc n) CHR ''*'' @ l @ tr @ w) = phone_runs (l @ tr @ w)"
    using stars [of "Suc n"] by (simp add: phone_runs_skip)
  moreover have "phone_runs (l @ tr @ w) = phone_runs (tr @ w)" using assms by (intro last) auto
  ultimately show ?thesis by (simp add: n)
qed

lemma masked_runs:
  assumes "no_brackets s"
  shows "\<forall>m \<in> set (phone_runs (mask_phones_in_text s)). \<not> (10 \<le> length (digits_of m) \<and> length (digits_of m) \<le> 15)"
  using assms
proof (induction s rule: mask_phones_in_text.induct)
  case (1 s)
  show ?case
  proof (cases s)
    case (Cons c t)
    show ?thesis
    proof (cases "match_phone s")
      case None
      then have "match_phone (c # mask_phones_in_text t) = None"
        using mask_text_keeps_None [of c t] Cons 1(3) by (simp add: no_brackets_def)
      moreover have "\<forall>m \<in> set (phone_runs (mask_phones_in_text t)). \<not> (10 \<le> length (digits_of m) \<and> length (digits_of m) \<le> 15)"
        using 1(1) [OF Cons None] 1(3) Cons by (simp add: no_brackets_def)
      ultimately show ?thesis using Cons None by (simp add: mask_text_skip phone_runs_skip)
    next
      case (Some m)
      obtain p d k tr w where m: "m = p @ d # k" "s = m @ tr @ w" "p = [] \<or> p = ''+''" "is_digit d"
        "9 \<le> length k" "\<forall>x \<in> set (k @ tr). in_run x" "is_digit (last k)"
        "\<forall>x \<in> set tr. \<not> is_digit x" "stops w"
        using Some by (rule match_phoneE)
      have nb: "no_brackets m" "no_brackets w" using 1(3) m(2) by simp_all
      let ?w = "mask_phones_in_text w" and ?n = "length (digits_of m)"
      have tr: "\<forall>x \<in> set tr. in_run x \<and> \<not> is_digit x" using m(6,8) by simp
      note rest = mask_text_nondigits [OF tr]
      have w: "stops ?w" using m(9) nb(2) by (rule mask_text_stops)
      have out: "mask_phones_in_text s = one m @ tr @ ?w"
        using mask_text_match [of m "tr @ w"] Some m(2) nb(1) rest by (simp add: repl_no_brackets)
      have IH: "\<forall>m \<in> set (phone_runs (tr @ ?w)). \<not> (10 \<le> length (digits_of m) \<and> length (digits_of m) \<le> 15)"
      proof -
        have "drop (length m) s = tr @ w" using m(2) by simp
        then show ?thesis using 1(2) [OF Cons Some] 1(3) m(2) rest by simp
      qed
      show ?thesis
      proof (cases "10 \<le> ?n \<and> ?n \<le> 15")
        case True
        then obtain ds where ds: "length ds = ?n" "\<forall>c \<in> set ds. is_digit c"
          "mask_phone (Some m) = Some (CHR ''+'' # take 1 ds @ replicate (length ds - 5) (CHR ''*'') @
             drop (length ds - 4) ds)"
          using mask_some [of m] by blast
        obtain e es where e: "ds = e # es" using ds(1) True by (cases ds) auto
        let ?mid = "take (length es - 4) es" and ?l = "drop (length es - 4) es"
        have n: "?n = Suc (length es)" using ds(1) e by simp
        with True have len: "?n - 4 = Suc (length es - 4)" "?n - 5 = length es - 4"
          "length ?mid = length es - 4" by auto
        have "one m = CHR ''+'' # e # replicate (?n - 5) (CHR ''*'') @ drop (?n - 4) (e # es)"
          using True ds(1,3) e by (simp add: one_def Let_def)
        also have "\<dots> = CHR ''+'' # e # replicate (length ?mid) (CHR ''*'') @ ?l"
          by (simp only: len drop_Suc_Cons)
        finally have "one m = CHR ''+'' # e # replicate (length ?mid) (CHR ''*'') @ ?l" .
        moreover have "phone_runs ((CHR ''+'' # e # replicate (length ?mid) (CHR ''*'') @ ?l) @ tr @ ?w)
            = phone_runs (tr @ ?w)"
          using True ds(1,2) e tr w by (intro mask_never_matches [of ds]) auto
        ultimately show ?thesis using out IH by simp
      next
        case False
        then have "one m = m" by (auto simp: one_def Let_def)
        moreover have "match_phone (m @ tr @ ?w) = Some m"
          using match_phoneI [of p d k tr ?w] m w by simp
        ultimately show ?thesis using out IH False phone_runs_match [of m "tr @ ?w"] by simp
      qed
    qed
  qed simp
qed

subsection \<open>Properties\<close>

text \<open>
  C6 Matching contacts by phone works on a normal form: a normalised number is a plus and at
  least ten digits, normalising it again changes nothing, and the spellings of the two
  messengers (digits with a leading 7 or 8, or with a plus and separators) of one Russian number
  meet: for ten digits the forms 7..., 8... and +7... all give +7....
\<close>

theorem phone_normal_form:
  assumes "length ds = 10" and "\<forall>c \<in> set ds. is_digit c"
  shows "normalize_phone (Some (''8'' @ ds)) = Some (''+7'' @ ds) \<and>
    normalize_phone (Some (''7'' @ ds)) = Some (''+7'' @ ds) \<and>
    normalize_phone (Some (''+7 ('' @ take 3 ds @ '') '' @ take 3 (drop 3 ds) @ ''-'' @ drop 6 ds)) = Some (''+7'' @ ds) \<and>
    (\<forall>raw p. normalize_phone raw = Some p \<longrightarrow> normalize_phone (Some p) = Some p)"
proof (intro conjI allI impI)
  have dig: "is_digit CHR ''8''" "is_digit CHR ''7''" "\<not> is_digit CHR ''+''" "\<not> is_digit CHR '' ''"
    "\<not> is_digit CHR ''(''" "\<not> is_digit CHR '')''" "\<not> is_digit CHR ''-''" by code_simp+
  have ds: "digits_of ds = ds" using assms(2) by (rule digits_of_digits)
  have part: "digits_of (take n ds) = take n ds" "digits_of (drop n ds) = drop n ds"
    "digits_of (take n (drop m ds)) = take n (drop m ds)" for n m
    using assms(2) by (auto intro!: digits_of_digits dest: in_set_takeD in_set_dropD)
  have whole: "take 3 ds @ take 3 (drop 3 ds) @ drop 6 ds = ds"
    by (metis append_take_drop_id drop_drop numeral_3_eq_3 numeral_eq_Suc add_Suc_right add.right_neutral
        pred_numeral_simps(2,3) semiring_norm(26,27,28))
  have cons: "digits_of (c # x) = (if is_digit c then c # digits_of x else digits_of x)" for c x
    by (simp add: digits_of_def)
  show "normalize_phone (Some (''8'' @ ds)) = Some (''+7'' @ ds)"
    "normalize_phone (Some (''7'' @ ds)) = Some (''+7'' @ ds)"
    using assms(1) by (simp_all add: normalize_phone_def cons dig ds)
  have "digits_of (''+7 ('' @ take 3 ds @ '') '' @ take 3 (drop 3 ds) @ ''-'' @ drop 6 ds) = CHR ''7'' # ds"
    by (simp add: cons dig part whole)
  then show "normalize_phone (Some (''+7 ('' @ take 3 ds @ '') '' @ take 3 (drop 3 ds) @ ''-'' @ drop 6 ds)) = Some (''+7'' @ ds)"
    unfolding normalize_phone_def using assms(1) by simp
  fix raw p assume "normalize_phone raw = Some p"
  then show "normalize_phone (Some p) = Some p"
    by (rule normalize_phoneE) (simp add: normalize_normal)
qed

theorem phone_normal_form_witness:
  "normalize_phone (Some ''89278975956'') = Some ''+79278975956''"
  using phone_normal_form [of "''9278975956''"] by (simp add: is_digit_def)

text \<open>
  What the mask of a number shows: the first digit, the last four and the length, nothing
  else. At least five digits are hidden, and two numbers that differ in hidden digits only have
  the same mask, so a log line or a digest of a masked call cannot tell them apart.
\<close>

theorem mask_phone_hides:
  assumes "normalize_phone a = Some (CHR ''+'' # d # m1 @ l)"
    and "normalize_phone b = Some (CHR ''+'' # d # m2 @ l)"
    and "length m1 = length m2" and "length l = 4"
  shows "mask_phone a = Some (CHR ''+'' # d # replicate (length m1) (CHR ''*'') @ l) \<and>
    mask_phone b = mask_phone a \<and> 5 \<le> length m1"
proof -
  have "5 \<le> length m1"
    using assms(1,4) by (auto elim!: normalize_phoneE)
  then show ?thesis using assms by (simp add: mask_phone_def Let_def)
qed

theorem mask_phone_hides_witness:
  "mask_phone (Some ''8 927 897-59-56'') = Some ''+7******5956''"
proof -
  have "normalize_phone (Some ''8 927 897-59-56'') = Some (CHR ''+'' # CHR ''7'' # ''927897'' @ ''5956'')"
    "normalize_phone (Some ''+7 900 000 59 56'') = Some (CHR ''+'' # CHR ''7'' # ''900000'' @ ''5956'')"
    by code_simp+
  from mask_phone_hides [OF this] show ?thesis by (simp add: numeral_eq_Suc)
qed

text \<open>
  An error text shows no phone number: scanned again with the pattern that finds phone-like
  runs, the masked text has no run of 10 to 15 digits, for every text without brackets.
\<close>

theorem masked_text_shows_no_phone:
  assumes "no_brackets s" and "m \<in> set (phone_runs (mask_phones_in_text s))"
  shows "\<not> (10 \<le> length (digits_of m) \<and> length (digits_of m) \<le> 15)"
  using masked_runs [OF assms(1)] assms(2) by blast

theorem masked_text_shows_no_phone_witness:
  "\<not> (10 \<le> length (digits_of ''892789759561234567'') \<and> length (digits_of ''892789759561234567'') \<le> 15)"
proof -
  have "''892789759561234567'' \<in> set (phone_runs (mask_phones_in_text ''id 892789759561234567 of +79278975956''))"
    by code_simp
  moreover have "no_brackets ''id 892789759561234567 of +79278975956''" by code_simp
  ultimately show ?thesis by (rule masked_text_shows_no_phone [rotated])
qed

text \<open>
  A text with brackets can show a number. Of two numbers in a row, each of 11 digits, the
  one written with brackets is split at its own brackets into parts too short to be a number and
  stays readable, although every run of digits like a phone is meant to be masked.
\<close>

theorem bracketed_phone_stays_readable:
  "mask_phones_in_text ''user +7 (927) 897-59-56 (79278975956) not found''
     = ''user +7 (927) 897-59-56 (+7******5956) not found'' \<and>
   mask_phones_in_text ''user +7 (927) 897-59-56 not found'' = ''user +7******5956 not found''"
  by code_simp

end
