(* ===== verification/Tool_Catalog.thy ===== *)
theory Tool_Catalog
  imports Bridge_Prelude
begin

text \<open>
  The tool catalog (\<^verbatim>\<open>app/authz/tool_catalog.py\<close>): the route names by category. A
  \<^verbatim>\<open>frozenset\<close> is the list of its elements in the order of the source.
\<close>

subsection \<open>Tools of the MAX router only\<close>

definition GROUP_WRITE_TOOLS :: "string list" where
  "GROUP_WRITE_TOOLS =
    [''create_group'', ''add_group_members'', ''remove_group_members'', ''set_group_admin'',
    ''remove_group_admin'', ''update_group_profile'', ''update_group_settings'',
    ''reset_invite_link'', ''approve_join_requests'', ''decline_join_requests'',
    ''delete_group'']"

definition GROUP_READ_TOOLS :: "string list" where
  "GROUP_READ_TOOLS =
    [''get_invite_link'', ''list_join_requests'']"

definition MAX_R4_WRITE_TOOLS :: "string list" where
  "MAX_R4_WRITE_TOOLS =
    [''send_video_note'', ''vote_poll'', ''import_contacts'', ''remove_contact'',
    ''delete_dialog'', ''create_folder'', ''update_folder'', ''delete_folder'']"

definition MAX_R4_READ_TOOLS :: "string list" where
  "MAX_R4_READ_TOOLS =
    [''get_reactions'', ''list_folders'']"

definition MAX_R5_WRITE_TOOLS :: "string list" where
  "MAX_R5_WRITE_TOOLS =
    [''transfer_group_ownership'', ''create_invite_link'', ''revoke_invite_links'',
    ''press_button'', ''start_bot'']"

definition MAX_R5_READ_TOOLS :: "string list" where
  "MAX_R5_READ_TOOLS =
    [''list_invite_links'', ''get_bot_info'', ''get_message_link'', ''get_poll_voters'',
    ''transcribe_voice'', ''search_chat_messages'', ''get_post_stats'']"

subsection \<open>The categories\<close>

definition WRITE_MESSENGER_TOOLS :: "string list" where
  "WRITE_MESSENGER_TOOLS =
    [''send_message'', ''send_file'', ''send_voice'', ''send_album'', ''send_poll'',
    ''forward_message'', ''edit_message'', ''delete_message'', ''pin_message'',
    ''unpin_message'', ''react_to_message'', ''cancel_scheduled'', ''send_scheduled_now'',
    ''join_chat_endpoint'', ''leave_chat_endpoint'', ''archive_chat'',
    ''update_chat_settings'', ''mark_read'', ''block_user'', ''unblock_user'',
    ''send_to_person'', ''contact_by_phone''] @ GROUP_WRITE_TOOLS @ MAX_R4_WRITE_TOOLS @
    MAX_R5_WRITE_TOOLS"

definition WRITE_DB_TOOLS :: "string list" where
  "WRITE_DB_TOOLS =
    [''snapshot_chat_members'', ''snapshot_import_members'', ''sync_chats'',
    ''trigger_backfill'', ''upload_file'', ''update_person'', ''merge_people'',
    ''split_person'']"

definition MANAGE_SESSION_TOOLS :: "string list" where
  "MANAGE_SESSION_TOOLS =
    [''auth_login'', ''auth_code'', ''auth_session'', ''auth_logout'', ''auth_qr_start'',
    ''auth_qr_status'']"

definition MAX_ONLY_TOOLS :: "string list" where
  "MAX_ONLY_TOOLS =
    [''auth_qr_start'', ''auth_qr_status''] @ GROUP_WRITE_TOOLS @ GROUP_READ_TOOLS @
    MAX_R4_WRITE_TOOLS @ MAX_R4_READ_TOOLS @ MAX_R5_WRITE_TOOLS @ MAX_R5_READ_TOOLS"

definition READ_ONLY_TOOLS :: "string list" where
  "READ_ONLY_TOOLS =
    [''auth_me'', ''auth_status'', ''list_chats'', ''get_chat_detail'', ''list_members'',
    ''get_my_rights'', ''resolve_chat_endpoint'', ''list_messages'', ''get_single_message'',
    ''list_scheduled'', ''download_media'', ''list_users'', ''list_contacts'',
    ''resolve_user'', ''resolve_by_id'', ''search_global'', ''sync_status'',
    ''stream_messages'', ''list_chat_snapshots'', ''get_snapshot_members'',
    ''download_file'', ''available_tools'', ''find_person'', ''get_person'',
    ''person_messages'', ''person_chats'', ''reachable_contacts''] @ GROUP_READ_TOOLS @
    MAX_R4_READ_TOOLS @ MAX_R5_READ_TOOLS"

definition WRITE_TOOLS :: "string list" where
  "WRITE_TOOLS = WRITE_MESSENGER_TOOLS @ WRITE_DB_TOOLS @ MANAGE_SESSION_TOOLS"

definition ALL_TOOLS :: "string list" where
  "ALL_TOOLS = READ_ONLY_TOOLS @ WRITE_TOOLS"

text \<open>\<^term>\<open>None\<close> is the \<^verbatim>\<open>KeyError\<close> for a name that is in no category.\<close>

definition tool_is_write :: "string \<Rightarrow> bool option" where
  "tool_is_write tool =
    (if tool \<in> set WRITE_MESSENGER_TOOLS then Some True
     else if tool \<in> set READ_ONLY_TOOLS \<or> tool \<in> set WRITE_DB_TOOLS \<or> tool \<in> set MANAGE_SESSION_TOOLS
     then Some False
     else None)"

definition tool_allowed_on_ro :: "string \<Rightarrow> bool option" where
  "tool_allowed_on_ro tool = map_option Not (tool_is_write tool)"

subsection \<open>The catalog is consistent\<close>

lemma ALL_TOOLS_distinct: "distinct ALL_TOOLS"
  by code_simp

lemma tool_is_write_known: "tool_is_write tool = None \<longleftrightarrow> tool \<notin> set ALL_TOOLS"
  by (auto simp: tool_is_write_def ALL_TOOLS_def WRITE_TOOLS_def)

lemma tool_is_write_True: "tool_is_write tool = Some True \<longleftrightarrow> tool \<in> set WRITE_MESSENGER_TOOLS"
  by (auto simp: tool_is_write_def)

lemma MAX_ONLY_known: "set MAX_ONLY_TOOLS \<subseteq> set ALL_TOOLS"
  by code_simp

end
