(* ===== verification/Route_Table.thy ===== *)
theory Route_Table
  imports Tool_Catalog
begin

text \<open>
  The flat route table (\<^verbatim>\<open>app/authz/route_table.py\<close>). Starlette's \<^verbatim>\<open>compile_path\<close> is third
  party: a parameter that gives a path template the match of a request path (the named groups,
  or no match) and the convertor of a group (whether a value converts; a \<^verbatim>\<open>ValueError\<close> or
  \<^verbatim>\<open>KeyError\<close> does not).
\<close>

type_synonym regex = "string \<Rightarrow> (string \<times> string) list option"
type_synonym convertors = "string \<Rightarrow> string \<Rightarrow> bool"

record base_route =
  br_path :: "string option"
  br_methods :: "string list option"
  br_name :: "string option"

record route_entry =
  re_path :: string
  re_methods :: "string list"
  re_name :: string
  re_regex :: regex
  re_convertors :: convertors

type_synonym route_table = "route_entry list"

text \<open>Websockets and mounts have no methods (or no path): they are no tools.\<close>

definition route_entry_of ::
    "(string \<Rightarrow> regex \<times> convertors) \<Rightarrow> string \<Rightarrow> base_route \<Rightarrow> route_entry option" where
  "route_entry_of compile_path prefix r =
    (case (br_path r, br_methods r, br_name r) of
       (Some path, Some (m # ms), Some name) \<Rightarrow>
         (case compile_path (prefix @ path) of
            (regex, convertors) \<Rightarrow>
              Some \<lparr>re_path = prefix @ path, re_methods = m # ms, re_name = name,
                re_regex = regex, re_convertors = convertors\<rparr>)
     | _ \<Rightarrow> None)"

definition build_table ::
    "(string \<Rightarrow> regex \<times> convertors) \<Rightarrow> (string \<times> base_route list) list \<Rightarrow> route_table" where
  "build_table compile_path sources =
     concat (map (\<lambda>(prefix, routes). List.map_filter (route_entry_of compile_path prefix) routes) sources)"

definition entry_matches :: "route_entry \<Rightarrow> string \<Rightarrow> string \<Rightarrow> bool" where
  "entry_matches e method path =
    (case re_regex e path of
       None \<Rightarrow> False
     | Some groups \<Rightarrow>
         list_all (\<lambda>(k, v). re_convertors e k v) groups \<and>
         (method \<in> set (re_methods e) \<or> (method = ''HEAD'' \<and> ''GET'' \<in> set (re_methods e))))"

fun resolve :: "route_table \<Rightarrow> string \<Rightarrow> string \<Rightarrow> string option" where
  "resolve [] method path = None"
| "resolve (e # es) method path =
     (if entry_matches e method path then Some (re_name e) else resolve es method path)"

definition CRITICAL_ROUTES :: "(string \<times> string \<times> string) list" where
  "CRITICAL_ROUTES = [
     (''POST'', ''/api/v1/messages'', ''send_message''),
     (''GET'', ''/api/v1/messages'', ''list_messages'')]"

text \<open>The routes that do not resolve as they must; none: the application starts.\<close>

definition broken_routes :: "route_table \<Rightarrow> (string \<times> string \<times> string) list \<Rightarrow> (string \<times> string \<times> string) list" where
  "broken_routes table critical =
     filter (\<lambda>(method, path, name). resolve table method path \<noteq> Some name) critical"

definition verify_route_table :: "route_table \<Rightarrow> (string \<times> string \<times> string) list \<Rightarrow> bool" where
  "verify_route_table table critical \<longleftrightarrow> broken_routes table critical = []"

subsection \<open>Resolution\<close>

lemma resolve_append:
  "resolve (es @ fs) m p = (case resolve es m p of None \<Rightarrow> resolve fs m p | Some n \<Rightarrow> Some n)"
  by (induction es) auto

lemma resolve_SomeE:
  assumes "resolve es m p = Some n"
  obtains xs e ys where "es = xs @ e # ys" "entry_matches e m p" "re_name e = n"
    "\<forall>x \<in> set xs. \<not> entry_matches x m p"
proof -
  have "\<exists>xs e ys. es = xs @ e # ys \<and> entry_matches e m p \<and> re_name e = n \<and>
      (\<forall>x \<in> set xs. \<not> entry_matches x m p)"
    using assms
  proof (induction es)
    case (Cons a es)
    show ?case
    proof (cases "entry_matches a m p")
      case True
      then show ?thesis using Cons.prems by (intro exI [of _ "[]"]) auto
    next
      case False
      with Cons obtain xs e ys where "es = xs @ e # ys" "entry_matches e m p" "re_name e = n"
        "\<forall>x \<in> set xs. \<not> entry_matches x m p" by auto
      with False show ?thesis by (intro exI [of _ "a # xs"] exI [of _ e] exI [of _ ys]) auto
    qed
  qed simp
  then show thesis using that by blast
qed

lemma verify_route_tableD:
  "verify_route_table table critical \<Longrightarrow> (m, p, n) \<in> set critical \<Longrightarrow> resolve table m p = Some n"
  by (auto simp: verify_route_table_def broken_routes_def filter_empty_conv)

end
