(* ===== verification/App_Routes.thy ===== *)
theory App_Routes
  imports Route_Table
begin

text \<open>
  The route table the application really builds (\<^verbatim>\<open>app/main.py\<close>): every route of the leaf routers
  of both platforms, in the order the routers are listed and the decorators run, with FastAPI's
  \<^verbatim>\<open>APIRouter(prefix)\<close> in front of the path of each decorator. A decorator without \<^verbatim>\<open>name=\<close> names its
  route after the function. Templates are compiled by Starlette's \<^verbatim>\<open>compile_path\<close>, a parameter.
\<close>

type_synonym decorator = "string list \<times> string \<times> string"

definition routes_with_prefix :: "string \<Rightarrow> decorator list \<Rightarrow> base_route list" where
  "routes_with_prefix prefix rs = map (\<lambda>(ms, path, name).
     \<lparr>br_path = Some (prefix @ path), br_methods = Some ms, br_name = Some name\<rparr>) rs"

subsection \<open>The Telegram routers\<close>

definition write_limits_admin_router :: "base_route list" where
  "write_limits_admin_router = routes_with_prefix ''/accounts'' [
    ([''GET''], ''/write-limits'', ''admin_list_write_limits''),
    ([''GET''], ''/{account_id}/write-limits'', ''admin_get_write_limits''),
    ([''PATCH''], ''/{account_id}/write-limits'', ''admin_patch_write_limits''),
    ([''DELETE''], ''/{account_id}/write-limits'', ''admin_reset_write_limits'')]"

definition accounts_router :: "base_route list" where
  "accounts_router = routes_with_prefix ''/accounts'' [
    ([''POST''], '''', ''admin_create_account''),
    ([''GET''], '''', ''admin_list_accounts''),
    ([''GET''], ''/{account_id}'', ''admin_get_account''),
    ([''PATCH''], ''/{account_id}'', ''admin_patch_account''),
    ([''DELETE''], ''/{account_id}'', ''admin_delete_account''),
    ([''GET''], ''/{account_id}/audit'', ''admin_account_audit'')]"

definition admin_isolation_router :: "base_route list" where
  "admin_isolation_router = routes_with_prefix ''/admin/isolation'' [
    ([''POST''], ''/probe'', ''admin_isolation_probe''),
    ([''POST''], ''/measure_raw'', ''admin_isolation_measure_raw'')]"

definition admin_keys_router :: "base_route list" where
  "admin_keys_router = routes_with_prefix '''' [
    ([''POST''], ''/accounts/{account_id}/keys'', ''admin_create_account_key''),
    ([''GET''], ''/accounts/{account_id}/keys'', ''admin_list_account_keys''),
    ([''POST''], ''/owner-keys'', ''admin_create_owner_key''),
    ([''GET''], ''/owner-keys'', ''admin_list_owner_keys''),
    ([''DELETE''], ''/keys/{key_id}'', ''admin_revoke_key'')]"

definition auth_router :: "base_route list" where
  "auth_router = routes_with_prefix ''/auth'' [
    ([''GET''], ''/status'', ''auth_status''),
    ([''GET''], ''/me'', ''auth_me''),
    ([''POST''], ''/login'', ''auth_login''),
    ([''POST''], ''/code'', ''auth_code''),
    ([''POST''], ''/session'', ''auth_session''),
    ([''POST''], ''/logout'', ''auth_logout'')]"

definition chats_router :: "base_route list" where
  "chats_router = routes_with_prefix ''/chats'' [
    ([''GET''], '''', ''list_chats''),
    ([''POST''], ''/join'', ''join_chat_endpoint''),
    ([''POST''], ''/leave'', ''leave_chat_endpoint''),
    ([''POST''], ''/resolve'', ''resolve_chat_endpoint''),
    ([''GET''], ''/{chat_id}'', ''get_chat_detail''),
    ([''PATCH''], ''/{chat_id}'', ''update_chat_settings''),
    ([''GET''], ''/{chat_id}/members'', ''list_members''),
    ([''POST''], ''/{chat_id}/read'', ''mark_read''),
    ([''POST''], ''/{chat_id}/archive'', ''archive_chat''),
    ([''GET''], ''/{chat_id}/my_rights'', ''get_my_rights'')]"

definition contacts_router :: "base_route list" where
  "contacts_router = routes_with_prefix ''/contacts'' [
    ([''GET''], '''', ''list_contacts'')]"

definition files_router :: "base_route list" where
  "files_router = routes_with_prefix '''' [
    ([''GET''], ''/files/{token}'', ''download_file''),
    ([''PUT''], ''/uploads/{token}'', ''upload_file'')]"

definition messages_router :: "base_route list" where
  "messages_router = routes_with_prefix ''/messages'' [
    ([''GET''], '''', ''list_messages''),
    ([''GET''], ''/scheduled'', ''list_scheduled''),
    ([''DELETE''], ''/scheduled/{chat_id}/{message_id}'', ''cancel_scheduled''),
    ([''POST''], ''/scheduled/{chat_id}/{message_id}/send-now'', ''send_scheduled_now''),
    ([''GET''], ''/{chat_id}/{message_id}'', ''get_single_message''),
    ([''POST''], '''', ''send_message''),
    ([''POST''], ''/forward'', ''forward_message''),
    ([''POST''], ''/edit'', ''edit_message''),
    ([''POST''], ''/send-file'', ''send_file''),
    ([''POST''], ''/send-voice'', ''send_voice''),
    ([''POST''], ''/album'', ''send_album''),
    ([''POST''], ''/poll'', ''send_poll''),
    ([''DELETE''], ''/{chat_id}/{message_id}'', ''delete_message''),
    ([''GET''], ''/{chat_id}/{message_id}/media'', ''download_media''),
    ([''POST''], ''/{chat_id}/{message_id}/pin'', ''pin_message''),
    ([''POST''], ''/{chat_id}/{message_id}/unpin'', ''unpin_message''),
    ([''POST''], ''/{chat_id}/{message_id}/react'', ''react_to_message'')]"

definition people_router :: "base_route list" where
  "people_router = routes_with_prefix ''/people'' [
    ([''GET''], '''', ''find_person''),
    ([''GET''], ''/{person_id}'', ''get_person''),
    ([''GET''], ''/{person_id}/messages'', ''person_messages''),
    ([''GET''], ''/{person_id}/chats'', ''person_chats''),
    ([''PATCH''], ''/{person_id}'', ''update_person''),
    ([''POST''], ''/merge'', ''merge_people''),
    ([''POST''], ''/split'', ''split_person'')]"

definition reach_router :: "base_route list" where
  "reach_router = routes_with_prefix '''' [
    ([''GET''], ''/reachable'', ''reachable_contacts''),
    ([''POST''], ''/messages/to-person'', ''send_to_person''),
    ([''POST''], ''/contacts/by-phone'', ''contact_by_phone'')]"

definition search_router :: "base_route list" where
  "search_router = routes_with_prefix ''/search'' [
    ([''GET''], ''/global'', ''search_global'')]"

definition snapshots_router :: "base_route list" where
  "snapshots_router = routes_with_prefix ''/snapshots'' [
    ([''POST''], ''/chat/{chat_id}'', ''snapshot_chat_members''),
    ([''POST''], ''/import'', ''snapshot_import_members''),
    ([''GET''], ''/chat/{chat_id}'', ''list_chat_snapshots''),
    ([''GET''], ''/{snapshot_id}/members'', ''get_snapshot_members'')]"

definition users_router :: "base_route list" where
  "users_router = routes_with_prefix ''/users'' [
    ([''GET''], '''', ''list_users''),
    ([''POST''], ''/resolve'', ''resolve_user''),
    ([''POST''], ''/resolve_by_id'', ''resolve_by_id''),
    ([''POST''], ''/{user_id}/block'', ''block_user''),
    ([''POST''], ''/{user_id}/unblock'', ''unblock_user'')]"

definition stream_router :: "base_route list" where
  "stream_router = routes_with_prefix ''/stream'' [
    ([''GET''], ''/messages'', ''stream_messages'')]"

definition sync_router :: "base_route list" where
  "sync_router = routes_with_prefix ''/sync'' [
    ([''POST''], ''/backfill'', ''trigger_backfill''),
    ([''GET''], ''/status'', ''sync_status''),
    ([''POST''], ''/chats'', ''sync_chats'')]"

definition tools_router :: "base_route list" where
  "tools_router = routes_with_prefix '''' [
    ([''GET''], ''/tools'', ''available_tools'')]"

subsection \<open>The MAX routers\<close>

definition max_auth_router :: "base_route list" where
  "max_auth_router = routes_with_prefix ''/auth'' [
    ([''GET''], ''/status'', ''auth_status''),
    ([''GET''], ''/me'', ''auth_me''),
    ([''POST''], ''/qr'', ''auth_qr_start''),
    ([''GET''], ''/qr'', ''auth_qr_status''),
    ([''GET''], ''/qr.png'', ''auth_qr_status''),
    ([''POST''], ''/login'', ''auth_login''),
    ([''POST''], ''/code'', ''auth_code''),
    ([''POST''], ''/session'', ''auth_session''),
    ([''POST''], ''/logout'', ''auth_logout'')]"

definition max_chats_router :: "base_route list" where
  "max_chats_router = routes_with_prefix ''/chats'' [
    ([''POST''], ''/join'', ''join_chat_endpoint''),
    ([''POST''], ''/resolve'', ''resolve_chat_endpoint''),
    ([''GET''], '''', ''list_chats''),
    ([''GET''], ''/{chat_id}'', ''get_chat_detail''),
    ([''PATCH''], ''/{chat_id}'', ''update_chat_settings''),
    ([''POST''], ''/{chat_id}/read'', ''mark_read''),
    ([''GET''], ''/{chat_id}/members'', ''list_members''),
    ([''POST''], ''/leave'', ''leave_chat_endpoint''),
    ([''GET''], ''/{chat_id}/my_rights'', ''get_my_rights''),
    ([''POST''], ''/{chat_id}/delete'', ''delete_dialog'')]"

definition max_contacts_router :: "base_route list" where
  "max_contacts_router = routes_with_prefix ''/contacts'' [
    ([''GET''], '''', ''list_contacts''),
    ([''POST''], ''/import'', ''import_contacts''),
    ([''POST''], ''/{user_id}/remove'', ''remove_contact'')]"

definition max_messages_router :: "base_route list" where
  "max_messages_router = routes_with_prefix ''/messages'' [
    ([''GET''], '''', ''list_messages''),
    ([''GET''], ''/{chat_id}/search'', ''search_chat_messages''),
    ([''GET''], ''/{chat_id}/stats'', ''get_post_stats''),
    ([''GET''], ''/{chat_id}/{message_id}'', ''get_single_message''),
    ([''GET''], ''/{chat_id}/{message_id}/media'', ''download_media''),
    ([''POST''], '''', ''send_message''),
    ([''GET''], ''/scheduled'', ''list_scheduled''),
    ([''DELETE''], ''/scheduled/{chat_id}/{message_id}'', ''cancel_scheduled''),
    ([''POST''], ''/scheduled/{chat_id}/{message_id}/send-now'', ''send_scheduled_now''),
    ([''POST''], ''/send-file'', ''send_file''),
    ([''POST''], ''/send-voice'', ''send_voice''),
    ([''POST''], ''/send-video-note'', ''send_video_note''),
    ([''POST''], ''/album'', ''send_album''),
    ([''POST''], ''/poll'', ''send_poll''),
    ([''POST''], ''/forward'', ''forward_message''),
    ([''POST''], ''/edit'', ''edit_message''),
    ([''DELETE''], ''/{chat_id}/{message_id}'', ''delete_message''),
    ([''POST''], ''/{chat_id}/{message_id}/react'', ''react_to_message''),
    ([''POST''], ''/{chat_id}/{message_id}/vote'', ''vote_poll''),
    ([''POST''], ''/{chat_id}/{message_id}/pin'', ''pin_message''),
    ([''POST''], ''/{chat_id}/{message_id}/unpin'', ''unpin_message''),
    ([''GET''], ''/{chat_id}/{message_id}/reactions'', ''get_reactions''),
    ([''POST''], ''/{chat_id}/{message_id}/press'', ''press_button''),
    ([''GET''], ''/{chat_id}/{message_id}/voters'', ''get_poll_voters''),
    ([''GET''], ''/{chat_id}/{message_id}/link'', ''get_message_link''),
    ([''POST''], ''/{chat_id}/{message_id}/transcribe'', ''transcribe_voice'')]"

definition max_search_router :: "base_route list" where
  "max_search_router = routes_with_prefix ''/search'' [
    ([''GET''], ''/global'', ''search_global'')]"

definition max_users_router :: "base_route list" where
  "max_users_router = routes_with_prefix ''/users'' [
    ([''GET''], '''', ''list_users''),
    ([''POST''], ''/resolve'', ''resolve_user''),
    ([''POST''], ''/resolve_by_id'', ''resolve_by_id''),
    ([''POST''], ''/{user_id}/block'', ''block_user''),
    ([''POST''], ''/{user_id}/unblock'', ''unblock_user'')]"

definition max_stream_router :: "base_route list" where
  "max_stream_router = routes_with_prefix ''/stream'' [
    ([''GET''], ''/messages'', ''stream_messages'')]"

definition max_sync_router :: "base_route list" where
  "max_sync_router = routes_with_prefix ''/sync'' [
    ([''POST''], ''/backfill'', ''trigger_backfill''),
    ([''POST''], ''/chats'', ''sync_chats''),
    ([''GET''], ''/status'', ''sync_status'')]"

definition max_groups_router :: "base_route list" where
  "max_groups_router = routes_with_prefix ''/groups'' [
    ([''POST''], '''', ''create_group''),
    ([''POST''], ''/{chat_id:sint}/members'', ''add_group_members''),
    ([''POST''], ''/{chat_id:sint}/members/remove'', ''remove_group_members''),
    ([''POST''], ''/{chat_id:sint}/admins'', ''set_group_admin''),
    ([''POST''], ''/{chat_id:sint}/admins/remove'', ''remove_group_admin''),
    ([''PATCH''], ''/{chat_id:sint}'', ''update_group_profile''),
    ([''PATCH''], ''/{chat_id:sint}/settings'', ''update_group_settings''),
    ([''GET''], ''/{chat_id:sint}/invite-link'', ''get_invite_link''),
    ([''POST''], ''/{chat_id:sint}/invite-link'', ''reset_invite_link''),
    ([''GET''], ''/{chat_id:sint}/join-requests'', ''list_join_requests''),
    ([''POST''], ''/{chat_id:sint}/join-requests/approve'', ''approve_join_requests''),
    ([''POST''], ''/{chat_id:sint}/join-requests/decline'', ''decline_join_requests''),
    ([''POST''], ''/{chat_id:sint}/delete'', ''delete_group''),
    ([''POST''], ''/{chat_id:sint}/owner'', ''transfer_group_ownership''),
    ([''GET''], ''/{chat_id:sint}/invite-links'', ''list_invite_links''),
    ([''POST''], ''/{chat_id:sint}/invite-links'', ''create_invite_link''),
    ([''POST''], ''/{chat_id:sint}/invite-links/revoke'', ''revoke_invite_links'')]"

definition max_folders_router :: "base_route list" where
  "max_folders_router = routes_with_prefix ''/folders'' [
    ([''GET''], '''', ''list_folders''),
    ([''POST''], '''', ''create_folder''),
    ([''PATCH''], ''/{folder_id}'', ''update_folder''),
    ([''POST''], ''/{folder_id}/delete'', ''delete_folder'')]"

definition max_bots_router :: "base_route list" where
  "max_bots_router = routes_with_prefix ''/bots'' [
    ([''POST''], ''/start'', ''start_bot''),
    ([''GET''], ''/info'', ''get_bot_info'')]"

definition unsupported_router :: "base_route list" where
  "unsupported_router = routes_with_prefix '''' [
    ([''GET'', ''POST'', ''PUT'', ''PATCH'', ''DELETE''], ''/_unsupported'', ''max_unsupported'')]"

subsection \<open>The table\<close>

definition API_ROUTERS :: "base_route list list" where
  "API_ROUTERS = [
    write_limits_admin_router, accounts_router, admin_isolation_router, admin_keys_router,
    auth_router, chats_router, contacts_router, files_router, messages_router,
    people_router, reach_router, search_router, snapshots_router, users_router,
    stream_router, sync_router, tools_router]"

definition MAX_API_ROUTERS :: "base_route list list" where
  "MAX_API_ROUTERS = [
    max_auth_router, max_chats_router, max_contacts_router, max_messages_router,
    max_search_router, max_users_router, max_stream_router, max_sync_router, tools_router,
    max_groups_router, max_folders_router, max_bots_router, reach_router,
    unsupported_router]"

definition app_sources :: "(string \<times> base_route list) list" where
  "app_sources = map (Pair ''/api/v1'') API_ROUTERS @ map (Pair ''/api/v1/_max'') MAX_API_ROUTERS"

definition app_table :: "(string \<Rightarrow> regex \<times> convertors) \<Rightarrow> route_table" where
  "app_table compile_path = build_table compile_path app_sources"

end
