(* ===== verification/App_Route_Rows.thy ===== *)
theory App_Route_Rows
  imports App_Routes
begin

text \<open>
  What the route table of the application says of messenger writes. A template is compared with a
  path segment by segment; \<open>compile_sound\<close> is what the development uses of Starlette's
  \<^verbatim>\<open>compile_path\<close>: a match has as many segments as the template, and a segment without parameter is
  the same text (Python's \<open>$\<close> lets one newline follow the last one).
\<close>

subsection \<open>Segments\<close>

fun split_slash :: "string \<Rightarrow> string list" where
  "split_slash [] = [[]]"
| "split_slash (c # cs) =
     (if c = CHR ''/'' then [] # split_slash cs
      else (case split_slash cs of [] \<Rightarrow> [[c]] | s # ss \<Rightarrow> (c # s) # ss))"

fun join_slash :: "string list \<Rightarrow> string" where
  "join_slash [] = []"
| "join_slash [s] = s"
| "join_slash (s # ss) = s @ CHR ''/'' # join_slash ss"

lemma split_slash_ne [simp]: "split_slash p \<noteq> []"
  by (induction p) (auto split: list.splits)

lemma join_split: "join_slash (split_slash p) = p"
proof (induction p)
  case (Cons c p)
  obtain s ss where s: "split_slash p = s # ss" by (meson list.exhaust split_slash_ne)
  with Cons show ?case by (cases ss) auto
qed simp

lemma split_append:
  assumes "CHR ''/'' \<notin> set w"
  shows "split_slash (w @ CHR ''/'' # p) = w # split_slash p" "split_slash w = [w]"
  using assms by (induction w) auto

definition is_param :: "string \<Rightarrow> bool" where
  "is_param s \<longleftrightarrow> CHR ''{'' \<in> set s"

fun segs_match :: "string list \<Rightarrow> string list \<Rightarrow> bool" where
  "segs_match [] [] \<longleftrightarrow> True"
| "segs_match (t # ts) (p # ps) \<longleftrightarrow>
     (is_param t \<or> p = t \<or> ps = [] \<and> p = t @ [CHR 0x0A]) \<and> segs_match ts ps"
| "segs_match _ _ \<longleftrightarrow> False"

definition compile_sound :: "(string \<Rightarrow> regex \<times> convertors) \<Rightarrow> bool" where
  "compile_sound compile_path \<longleftrightarrow> (\<forall>(prefix, rs) \<in> set app_sources. \<forall>r \<in> set rs. \<forall>template path.
     br_path r = Some template \<and> fst (compile_path (prefix @ template)) path \<noteq> None \<longrightarrow>
       segs_match (split_slash (prefix @ template)) (split_slash path))"

text \<open>Literal segments, and whether two templates may match a common path.\<close>

definition pattern :: "string \<Rightarrow> string option" where
  "pattern s = (if is_param s then None else Some s)"

fun pats_meet :: "string option list \<Rightarrow> string option list \<Rightarrow> bool" where
  "pats_meet [] [] \<longleftrightarrow> True"
| "pats_meet (x # xs) (y # ys) \<longleftrightarrow>
     (case x of None \<Rightarrow> True | Some s \<Rightarrow> (case y of None \<Rightarrow> True | Some t \<Rightarrow> s = t)) \<and> pats_meet xs ys"
| "pats_meet _ _ \<longleftrightarrow> False"

definition one_line :: "string list \<Rightarrow> bool" where
  "one_line ts \<longleftrightarrow> list_all (\<lambda>t. CHR 0x0A \<notin> set t) ts"

lemma pats_meet_both:
  "segs_match ts ps \<Longrightarrow> segs_match us ps \<Longrightarrow> one_line ts \<Longrightarrow> one_line us \<Longrightarrow> pats_meet (map pattern ts) (map pattern us)"
proof (induction ts ps arbitrary: us rule: segs_match.induct)
  case (2 t ts p ps)
  then obtain u us' where u: "us = u # us'" by (cases us) auto
  have "is_param t \<or> is_param u \<or> t = u" using 2(2-5) by (auto simp: u one_line_def)
  then show ?case using 2 by (auto simp: u pattern_def one_line_def)
qed (auto elim: segs_match.elims)

subsection \<open>The table as data\<close>

definition app_rows :: "(string list \<times> string list \<times> string) list" where
  "app_rows = concat (map (\<lambda>(prefix, rs). map (\<lambda>r. (the (br_methods r), split_slash (prefix @ the (br_path r)), the (br_name r))) rs) app_sources)"

definition RESERVED :: "string list" where
  "RESERVED = [''accounts'', ''admin'', ''owner-keys'', ''keys'', ''people'', ''files'', ''uploads'', ''healthz'', ''readyz'', ''_max'']"

definition free_segment :: "string \<Rightarrow> string \<Rightarrow> bool" where
  "free_segment name s \<longleftrightarrow> (name \<in> set WRITE_MESSENGER_TOOLS \<longrightarrow> \<not> is_param s \<and> s \<notin> set RESERVED)"

fun row_ok :: "string list \<times> string list \<times> string \<Rightarrow> bool" where
  "row_ok (ms, a # b # c # s # rest, name) \<longleftrightarrow> a = [] \<and> b = ''api'' \<and> c = ''v1'' \<and>
     (if s = ''_max'' then rest \<noteq> [] \<and> free_segment name (hd rest) else \<not> is_param s \<and> free_segment name s)"
| "row_ok _ \<longleftrightarrow> False"

lemma app_rows_ok: "list_all row_ok app_rows"
  by code_simp

text \<open>The Telegram rows, and those of the messenger writes of MAX that Telegram has too, as patterns.\<close>

definition row_pattern :: "nat \<Rightarrow> string list \<times> string list \<times> string \<Rightarrow> string list \<times> string option list \<times> string" where
  "row_pattern n x = (case x of (ms, segs, name) \<Rightarrow> (ms, map pattern (drop n segs), name))"

definition tg_patterns :: "(string list \<times> string option list \<times> string) list" where
  "tg_patterns = [
    ([''GET''], [Some ''accounts'', Some ''write-limits''], ''admin_list_write_limits''),
    ([''GET''], [Some ''accounts'', None, Some ''write-limits''], ''admin_get_write_limits''),
    ([''PATCH''], [Some ''accounts'', None, Some ''write-limits''], ''admin_patch_write_limits''),
    ([''DELETE''], [Some ''accounts'', None, Some ''write-limits''], ''admin_reset_write_limits''),
    ([''POST''], [Some ''accounts''], ''admin_create_account''),
    ([''GET''], [Some ''accounts''], ''admin_list_accounts''),
    ([''GET''], [Some ''accounts'', None], ''admin_get_account''),
    ([''PATCH''], [Some ''accounts'', None], ''admin_patch_account''),
    ([''DELETE''], [Some ''accounts'', None], ''admin_delete_account''),
    ([''GET''], [Some ''accounts'', None, Some ''audit''], ''admin_account_audit''),
    ([''POST''], [Some ''admin'', Some ''isolation'', Some ''probe''], ''admin_isolation_probe''),
    ([''POST''], [Some ''admin'', Some ''isolation'', Some ''measure_raw''], ''admin_isolation_measure_raw''),
    ([''POST''], [Some ''accounts'', None, Some ''keys''], ''admin_create_account_key''),
    ([''GET''], [Some ''accounts'', None, Some ''keys''], ''admin_list_account_keys''),
    ([''POST''], [Some ''owner-keys''], ''admin_create_owner_key''),
    ([''GET''], [Some ''owner-keys''], ''admin_list_owner_keys''),
    ([''DELETE''], [Some ''keys'', None], ''admin_revoke_key''),
    ([''GET''], [Some ''auth'', Some ''status''], ''auth_status''),
    ([''GET''], [Some ''auth'', Some ''me''], ''auth_me''),
    ([''POST''], [Some ''auth'', Some ''login''], ''auth_login''),
    ([''POST''], [Some ''auth'', Some ''code''], ''auth_code''),
    ([''POST''], [Some ''auth'', Some ''session''], ''auth_session''),
    ([''POST''], [Some ''auth'', Some ''logout''], ''auth_logout''),
    ([''GET''], [Some ''chats''], ''list_chats''),
    ([''POST''], [Some ''chats'', Some ''join''], ''join_chat_endpoint''),
    ([''POST''], [Some ''chats'', Some ''leave''], ''leave_chat_endpoint''),
    ([''POST''], [Some ''chats'', Some ''resolve''], ''resolve_chat_endpoint''),
    ([''GET''], [Some ''chats'', None], ''get_chat_detail''),
    ([''PATCH''], [Some ''chats'', None], ''update_chat_settings''),
    ([''GET''], [Some ''chats'', None, Some ''members''], ''list_members''),
    ([''POST''], [Some ''chats'', None, Some ''read''], ''mark_read''),
    ([''POST''], [Some ''chats'', None, Some ''archive''], ''archive_chat''),
    ([''GET''], [Some ''chats'', None, Some ''my_rights''], ''get_my_rights''),
    ([''GET''], [Some ''contacts''], ''list_contacts''),
    ([''GET''], [Some ''files'', None], ''download_file''),
    ([''PUT''], [Some ''uploads'', None], ''upload_file''),
    ([''GET''], [Some ''messages''], ''list_messages''),
    ([''GET''], [Some ''messages'', Some ''scheduled''], ''list_scheduled''),
    ([''DELETE''], [Some ''messages'', Some ''scheduled'', None, None], ''cancel_scheduled''),
    ([''POST''], [Some ''messages'', Some ''scheduled'', None, None, Some ''send-now''], ''send_scheduled_now''),
    ([''GET''], [Some ''messages'', None, None], ''get_single_message''),
    ([''POST''], [Some ''messages''], ''send_message''),
    ([''POST''], [Some ''messages'', Some ''forward''], ''forward_message''),
    ([''POST''], [Some ''messages'', Some ''edit''], ''edit_message''),
    ([''POST''], [Some ''messages'', Some ''send-file''], ''send_file''),
    ([''POST''], [Some ''messages'', Some ''send-voice''], ''send_voice''),
    ([''POST''], [Some ''messages'', Some ''album''], ''send_album''),
    ([''POST''], [Some ''messages'', Some ''poll''], ''send_poll''),
    ([''DELETE''], [Some ''messages'', None, None], ''delete_message''),
    ([''GET''], [Some ''messages'', None, None, Some ''media''], ''download_media''),
    ([''POST''], [Some ''messages'', None, None, Some ''pin''], ''pin_message''),
    ([''POST''], [Some ''messages'', None, None, Some ''unpin''], ''unpin_message''),
    ([''POST''], [Some ''messages'', None, None, Some ''react''], ''react_to_message''),
    ([''GET''], [Some ''people''], ''find_person''),
    ([''GET''], [Some ''people'', None], ''get_person''),
    ([''GET''], [Some ''people'', None, Some ''messages''], ''person_messages''),
    ([''GET''], [Some ''people'', None, Some ''chats''], ''person_chats''),
    ([''PATCH''], [Some ''people'', None], ''update_person''),
    ([''POST''], [Some ''people'', Some ''merge''], ''merge_people''),
    ([''POST''], [Some ''people'', Some ''split''], ''split_person''),
    ([''GET''], [Some ''reachable''], ''reachable_contacts''),
    ([''POST''], [Some ''messages'', Some ''to-person''], ''send_to_person''),
    ([''POST''], [Some ''contacts'', Some ''by-phone''], ''contact_by_phone''),
    ([''GET''], [Some ''search'', Some ''global''], ''search_global''),
    ([''POST''], [Some ''snapshots'', Some ''chat'', None], ''snapshot_chat_members''),
    ([''POST''], [Some ''snapshots'', Some ''import''], ''snapshot_import_members''),
    ([''GET''], [Some ''snapshots'', Some ''chat'', None], ''list_chat_snapshots''),
    ([''GET''], [Some ''snapshots'', None, Some ''members''], ''get_snapshot_members''),
    ([''GET''], [Some ''users''], ''list_users''),
    ([''POST''], [Some ''users'', Some ''resolve''], ''resolve_user''),
    ([''POST''], [Some ''users'', Some ''resolve_by_id''], ''resolve_by_id''),
    ([''POST''], [Some ''users'', None, Some ''block''], ''block_user''),
    ([''POST''], [Some ''users'', None, Some ''unblock''], ''unblock_user''),
    ([''GET''], [Some ''stream'', Some ''messages''], ''stream_messages''),
    ([''POST''], [Some ''sync'', Some ''backfill''], ''trigger_backfill''),
    ([''GET''], [Some ''sync'', Some ''status''], ''sync_status''),
    ([''POST''], [Some ''sync'', Some ''chats''], ''sync_chats''),
    ([''GET''], [Some ''tools''], ''available_tools'')]"

definition max_write_patterns :: "(string list \<times> string option list \<times> string) list" where
  "max_write_patterns = [
    ([''POST''], [Some ''chats'', Some ''join''], ''join_chat_endpoint''),
    ([''PATCH''], [Some ''chats'', None], ''update_chat_settings''),
    ([''POST''], [Some ''chats'', None, Some ''read''], ''mark_read''),
    ([''POST''], [Some ''chats'', Some ''leave''], ''leave_chat_endpoint''),
    ([''POST''], [Some ''messages''], ''send_message''),
    ([''DELETE''], [Some ''messages'', Some ''scheduled'', None, None], ''cancel_scheduled''),
    ([''POST''], [Some ''messages'', Some ''scheduled'', None, None, Some ''send-now''], ''send_scheduled_now''),
    ([''POST''], [Some ''messages'', Some ''send-file''], ''send_file''),
    ([''POST''], [Some ''messages'', Some ''send-voice''], ''send_voice''),
    ([''POST''], [Some ''messages'', Some ''album''], ''send_album''),
    ([''POST''], [Some ''messages'', Some ''poll''], ''send_poll''),
    ([''POST''], [Some ''messages'', Some ''forward''], ''forward_message''),
    ([''POST''], [Some ''messages'', Some ''edit''], ''edit_message''),
    ([''DELETE''], [Some ''messages'', None, None], ''delete_message''),
    ([''POST''], [Some ''messages'', None, None, Some ''react''], ''react_to_message''),
    ([''POST''], [Some ''messages'', None, None, Some ''pin''], ''pin_message''),
    ([''POST''], [Some ''messages'', None, None, Some ''unpin''], ''unpin_message''),
    ([''POST''], [Some ''users'', None, Some ''block''], ''block_user''),
    ([''POST''], [Some ''users'', None, Some ''unblock''], ''unblock_user''),
    ([''POST''], [Some ''messages'', Some ''to-person''], ''send_to_person''),
    ([''POST''], [Some ''contacts'', Some ''by-phone''], ''contact_by_phone'')]"

lemma tg_patterns_eq: "map (row_pattern 3) (filter (\<lambda>(ms, segs, name). segs ! 3 \<noteq> ''_max'') app_rows) = tg_patterns"
  by code_simp

lemma max_write_patterns_eq:
  "map (row_pattern 4) (filter (\<lambda>(ms, segs, name). segs ! 3 = ''_max'' \<and> name \<in> set WRITE_MESSENGER_TOOLS \<and> name \<notin> set MAX_ONLY_TOOLS) app_rows)
   = max_write_patterns"
  by code_simp

fun patterns_agree :: "string list \<times> string option list \<times> string \<Rightarrow> string list \<times> string option list \<times> string \<Rightarrow> bool" where
  "patterns_agree (ms, ps, name) (ms', ps', name') \<longleftrightarrow>
     (if pats_meet ps ps' then name = name' \<or> list_all (\<lambda>m. m \<notin> set ms') ms else True)"

lemma patterns_agree_all: "list_all (\<lambda>x. list_all (patterns_agree x) tg_patterns) max_write_patterns"
  by code_simp

lemma app_rows_one_line: "list_all (\<lambda>(ms, segs, name). one_line segs) app_rows"
  by code_simp

lemma max_write_methods: "list_all (\<lambda>(ms, ps, name). ''HEAD'' \<notin> set ms \<and> ''GET'' \<notin> set ms) max_write_patterns"
  by code_simp

lemma unsupported_is_no_write:
  "list_all (\<lambda>(ms, segs, name). name \<in> set WRITE_MESSENGER_TOOLS \<longrightarrow> \<not> segs_match segs (split_slash ''/api/v1/_max/_unsupported'')) app_rows"
  by code_simp

end
