(* ===== verification/Auth_State.thy ===== *)
theory Auth_State
  imports Control_Tables
begin

text \<open>
  The state the authorization stack works on: the control tables of the database and the
  in-process caches of middleware.py and keys.py, and the contract of a read-through cache with a
  time to live that the three caches of the stack share.
\<close>

subsection \<open>State\<close>

text \<open>\<^verbatim>\<open>KeyInfo\<close> of keys.py.\<close>

record key_info =
  ki_id :: int
  ki_scope :: string
  ki_account_id :: "int option"
  ki_alias :: "string option"
  ki_platform :: "string option"

text \<open>
  A value of the alias cache: a pair, or the bare account id of the time before MAX
  (\<^verbatim>\<open>tuple[int, str] | int\<close>).
\<close>

datatype account_ref =
    Ref_pair int string
  | Ref_int int

record auth_sys =
  as_accounts :: "account list"
  as_next_account :: int
  as_policies :: "account_tool_policy list"
  as_keys :: "api_key list"
  as_next_key :: int
  as_audit :: "audit_log list"
  as_alias_cache :: "string \<rightharpoonup> account_ref \<times> usec"
  as_mode_cache :: "int \<rightharpoonup> string \<times> usec"
  as_key_cache :: "string \<rightharpoonup> key_info option \<times> usec"
  as_touched :: "int \<rightharpoonup> usec"

text \<open>What the caches are filled from.\<close>

type_synonym auth_db = "account list \<times> account_tool_policy list \<times> api_key list"

definition db_of :: "auth_sys \<Rightarrow> auth_db" where
  "db_of s = (as_accounts s, as_policies s, as_keys s)"

text \<open>
  \<^verbatim>\<open>cached = cache.get(k); if cached and cached[1] > now\<close>.
\<close>

definition cache_hit :: "('k \<rightharpoonup> 'v \<times> usec) \<Rightarrow> 'k \<Rightarrow> usec \<Rightarrow> 'v option" where
  "cache_hit cache k now =
    (case cache k of None \<Rightarrow> None | Some (v, expiry) \<Rightarrow> if now < expiry then Some v else None)"

lemma cache_hit_Some: "cache_hit c k now = Some v \<longleftrightarrow> (\<exists>e. c k = Some (v, e) \<and> now < e)"
  by (auto simp: cache_hit_def split: option.splits if_splits)

subsection \<open>The contract of a cached read\<close>

text \<open>
  A read of a key through a cache: a live entry is returned and nothing changes; otherwise the
  value is loaded and at most that value is stored under the key for the time to live. Under the
  contract every value served is the value of the database at some moment of the last time to
  live, whatever happens to the database in between.
\<close>

locale ttl_read =
  fixes read :: "'s \<Rightarrow> 'k \<Rightarrow> usec \<Rightarrow> 'v \<times> 's"
    and entries :: "'s \<Rightarrow> 'k \<rightharpoonup> 'v \<times> usec"
    and load :: "'d \<Rightarrow> 'k \<Rightarrow> 'v"
    and db :: "'s \<Rightarrow> 'd"
    and ttl :: usec
  assumes hit: "cache_hit (entries s) k now = Some u \<Longrightarrow> read s k now = (v, s')
      \<Longrightarrow> entries s' = entries s"
    and hit_value: "cache_hit (entries s) k now = Some v \<Longrightarrow> fst (read s k now) = v"
    and miss_value: "cache_hit (entries s) k now = None \<Longrightarrow> fst (read s k now) = load (db s) k"
    and miss: "cache_hit (entries s) k now = None \<Longrightarrow> read s k now = (v, s') \<Longrightarrow>
      entries s' = entries s \<or> entries s' = (entries s)(k \<mapsto> (v, now + ttl))"
begin

text \<open>
  The history holds the states of the database with the times they were seen at; an entry of the
  cache is accounted for if it was loaded from one of them.
\<close>

definition accounted :: "(usec \<times> 'd) set \<Rightarrow> 's \<Rightarrow> bool" where
  "accounted hist s \<longleftrightarrow> (\<forall>k v e. entries s k = Some (v, e) \<longrightarrow>
     (\<exists>t d. (t, d) \<in> hist \<and> v = load d k \<and> e = t + ttl))"

lemma accounted_empty: "entries s = (\<lambda>_. None) \<Longrightarrow> accounted hist s"
  by (simp add: accounted_def)

lemma accounted_mono: "accounted hist s \<Longrightarrow> hist \<subseteq> hist' \<Longrightarrow> entries s' \<subseteq>\<^sub>m entries s \<Longrightarrow> accounted hist' s'"
  unfolding accounted_def map_le_def by (metis domI subsetD)

lemma read_accounted:
  assumes "accounted hist s" and "(now, db s) \<in> hist" and "read s k now = (v, s')"
  shows "accounted hist s'"
proof (cases "cache_hit (entries s) k now")
  case None
  have "v = load (db s) k" using miss_value [OF None] assms(3) by simp
  from miss [OF None assms(3)] show ?thesis
  proof
    assume "entries s' = entries s"
    with assms(1) show ?thesis by (simp add: accounted_def)
  next
    assume upd: "entries s' = (entries s)(k \<mapsto> (v, now + ttl))"
    show ?thesis unfolding accounted_def
    proof (intro allI impI)
      fix j u e assume "entries s' j = Some (u, e)"
      then have at: "((entries s)(k \<mapsto> (v, now + ttl))) j = Some (u, e)" by (simp only: upd)
      show "\<exists>t d. (t, d) \<in> hist \<and> u = load d j \<and> e = t + ttl"
      proof (cases "j = k")
        case True
        with at have "u = load (db s) j" "e = now + ttl" using \<open>v = load (db s) k\<close> by simp_all
        with assms(2) show ?thesis by (intro exI conjI)
      next
        case False
        with at have "entries s j = Some (u, e)" by simp
        then show ?thesis using assms(1) unfolding accounted_def by blast
      qed
    qed
  qed
next
  case (Some u)
  from hit [OF this assms(3)] assms(1) show ?thesis by (simp add: accounted_def)
qed

lemma read_recent:
  assumes "accounted hist s" and "(now, db s) \<in> hist" and "read s k now = (v, s')" and "0 < ttl"
  shows "\<exists>t d. (t, d) \<in> hist \<and> now - ttl < t \<and> v = load d k"
proof (cases "cache_hit (entries s) k now")
  case None
  have "v = load (db s) k" using miss_value [OF None] assms(3) by simp
  with assms(2,4) show ?thesis by (intro exI [of _ now] exI [of _ "db s"]) simp
next
  case (Some u)
  then have "u = v" using hit_value [OF Some] assms(3) by simp
  with Some obtain e where e: "entries s k = Some (v, e)" "now < e"
    by (auto simp: cache_hit_Some)
  with assms(1) obtain t d where "(t, d) \<in> hist" "v = load d k" "e = t + ttl"
    unfolding accounted_def by blast
  with e(2) show ?thesis by (intro exI [of _ t] exI [of _ d]) simp
qed

end

end
