(* ===== verification/Api_Keys.thy ===== *)
theory Api_Keys
  imports Auth_State
begin

text \<open>
  API keys (\<^verbatim>\<open>app/authz/keys.py\<close>, \<^verbatim>\<open>app/api/admin_keys.py\<close>). SHA-256 is a parameter
  \<open>sha\<close>, the random token of a new key an argument. \<open>now\<close> is the monotonic clock,
  \<open>wall\<close> the time of day. The background write of \<^verbatim>\<open>last_used_at\<close> is taken as done.
\<close>

definition CACHE_TTL :: usec where
  "CACHE_TTL = seconds 60"

definition TOUCH_INTERVAL :: usec where
  "TOUCH_INTERVAL = seconds 60"

definition invalidate :: "auth_sys \<Rightarrow> auth_sys" where
  "invalidate s = s\<lparr>as_key_cache := (\<lambda>_. None)\<rparr>"

text \<open>
  \<^verbatim>\<open>_load\<close>: the live key with the hash, joined with its account; an account key of a
  disabled account (or of none: the outer join gives a NULL flag) does not authenticate.
\<close>

definition load_key :: "auth_db \<Rightarrow> string \<Rightarrow> key_info option" where
  "load_key db h =
    (case db of (accounts, _, keys) \<Rightarrow>
      (case one_or_none (\<lambda>k. key_hash k = h \<and> key_revoked_at k = None) keys of
         None \<Rightarrow> None
       | Some k \<Rightarrow>
          (let acc = (case key_account_id k of None \<Rightarrow> None | Some a \<Rightarrow> account_by_id accounts a);
               on = (case acc of None \<Rightarrow> False | Some a \<Rightarrow> acc_is_enabled a)
           in if key_scope k = ''account'' \<and> \<not> on then None
              else Some \<lparr>ki_id = key_id k, ki_scope = key_scope k, ki_account_id = key_account_id k,
                ki_alias = map_option acc_alias acc, ki_platform = map_option acc_platform acc\<rparr>)))"

definition touch_later :: "auth_sys \<Rightarrow> int \<Rightarrow> usec \<Rightarrow> usec \<Rightarrow> auth_sys" where
  "touch_later s k now wall =
    (if now - (case as_touched s k of Some t \<Rightarrow> t | None \<Rightarrow> - TOUCH_INTERVAL) < TOUCH_INTERVAL then s
     else s\<lparr>as_touched := (as_touched s)(k \<mapsto> now),
       as_keys := update_rows (\<lambda>r. key_id r = k) (\<lambda>r. r\<lparr>key_last_used_at := Some wall\<rparr>) (as_keys s)\<rparr>)"

text \<open>The cached read of a hash, without the touch.\<close>

definition cached_key :: "auth_sys \<Rightarrow> string \<Rightarrow> usec \<Rightarrow> key_info option \<times> auth_sys" where
  "cached_key s h now =
    (case cache_hit (as_key_cache s) h now of
       Some info \<Rightarrow> (info, s)
     | None \<Rightarrow>
         (let info = load_key (db_of s) h
          in (info, s\<lparr>as_key_cache := (as_key_cache s)(h \<mapsto> (info, now + CACHE_TTL))\<rparr>)))"

definition lookup :: "(string \<Rightarrow> string) \<Rightarrow> auth_sys \<Rightarrow> string option \<Rightarrow> usec \<Rightarrow> usec \<Rightarrow> key_info option \<times> auth_sys" where
  "lookup sha s key now wall =
    (case key of
       None \<Rightarrow> (None, s)
     | Some k \<Rightarrow>
        if k = [] then (None, s)
        else
         (case cached_key s (sha k) now of
            (None, s') \<Rightarrow> (None, s')
          | (Some info, s') \<Rightarrow> (Some info, touch_later s' (ki_id info) now wall)))"

subsection \<open>Creation and revocation\<close>

definition generate_key :: "string \<Rightarrow> string" where
  "generate_key token = ''tgmp_'' @ token"

text \<open>
  The insert of a key fails, and changes nothing, when the account does not exist (foreign key)
  or the hash is taken (unique): then no key is returned.
\<close>

definition create_key ::
    "(string \<Rightarrow> string) \<Rightarrow> auth_sys \<Rightarrow> string \<Rightarrow> int option \<Rightarrow> string option \<Rightarrow> string
       \<Rightarrow> usec \<Rightarrow> (api_key \<times> string) option \<times> auth_sys" where
  "create_key sha s scope account_id label token wall =
    (let key = generate_key token;
         row = \<lparr>key_id = as_next_key s, key_scope = scope, key_account_id = account_id,
           key_hash = sha key, key_label = label, key_created_at = Some wall, key_last_used_at = None, key_revoked_at = None\<rparr>
     in if (case account_id of None \<Rightarrow> False | Some a \<Rightarrow> account_by_id (as_accounts s) a = None)
          \<or> list_ex (\<lambda>k. key_hash k = sha key) (as_keys s)
        then (None, s)
        else (Some (row, key),
          invalidate (s\<lparr>as_keys := as_keys s @ [row], as_next_key := as_next_key s + 1\<rparr>)))"

definition revoke_key :: "auth_sys \<Rightarrow> int \<Rightarrow> usec \<Rightarrow> bool \<times> auth_sys" where
  "revoke_key s k wall =
    (let live = (\<lambda>r. key_id r = k \<and> key_revoked_at r = None)
     in (list_ex live (as_keys s),
         invalidate (s\<lparr>as_keys := update_rows live (\<lambda>r. r\<lparr>key_revoked_at := Some wall\<rparr>) (as_keys s)\<rparr>)))"

definition list_keys :: "auth_sys \<Rightarrow> int option \<Rightarrow> string option \<Rightarrow> api_key list" where
  "list_keys s account_id scope =
     filter (\<lambda>k. (case account_id of None \<Rightarrow> True | Some a \<Rightarrow> key_account_id k = Some a) \<and>
                 (case scope of None \<Rightarrow> True | Some sc \<Rightarrow> key_scope k = sc)) (sort_key key_id (as_keys s))"

definition key_to_dict :: "api_key \<Rightarrow> dict" where
  "key_to_dict r = [
     (''id'', JInt (key_id r)),
     (''scope'', JStr (key_scope r)),
     (''account_id'', jopt_int (key_account_id r)),
     (''label'', jopt_str (key_label r)),
     (''created_at'', case key_created_at r of None \<Rightarrow> JNull | Some t \<Rightarrow> JStr (isoformat t)),
     (''last_used_at'', case key_last_used_at r of None \<Rightarrow> JNull | Some t \<Rightarrow> JStr (isoformat t)),
     (''revoked_at'', case key_revoked_at r of None \<Rightarrow> JNull | Some t \<Rightarrow> JStr (isoformat t))]"

text \<open>The administrator's endpoints: status and body.\<close>

definition create_account_key ::
    "(string \<Rightarrow> string) \<Rightarrow> auth_sys \<Rightarrow> int \<Rightarrow> string option \<Rightarrow> string \<Rightarrow> usec
       \<Rightarrow> (int \<times> dict) option \<times> auth_sys" where
  "create_account_key sha s a label token wall =
    (if account_by_id (as_accounts s) a = None
     then (Some (404, [(''detail'', JStr (''Account '' @ show_int a @ '' not found''))]), s)
     else (case create_key sha s ''account'' (Some a) label token wall of
             (None, s') \<Rightarrow> (None, s')
           | (Some (row, key), s') \<Rightarrow> (Some (201, key_to_dict row @ [(''key'', JStr key)]), s')))"

definition create_owner_key ::
    "(string \<Rightarrow> string) \<Rightarrow> auth_sys \<Rightarrow> string option \<Rightarrow> string \<Rightarrow> usec
       \<Rightarrow> (int \<times> dict) option \<times> auth_sys" where
  "create_owner_key sha s label token wall =
    (case create_key sha s ''owner'' None label token wall of
       (None, s') \<Rightarrow> (None, s')
     | (Some (row, key), s') \<Rightarrow> (Some (201, key_to_dict row @ [(''key'', JStr key)]), s'))"

definition admin_revoke_key :: "auth_sys \<Rightarrow> int \<Rightarrow> usec \<Rightarrow> (int \<times> dict) \<times> auth_sys" where
  "admin_revoke_key s k wall =
    (case revoke_key s k wall of
       (True, s') \<Rightarrow> ((200, [(''status'', JStr ''revoked''), (''id'', JInt k)]), s')
     | (False, s') \<Rightarrow> ((404, [(''detail'', JStr (''Key '' @ show_int k @ '' not found or already revoked''))]), s'))"

subsection \<open>The key cache is a cached read\<close>

interpretation key_cache: ttl_read cached_key as_key_cache load_key db_of CACHE_TTL
proof
  fix s k now v u s'
  show "cache_hit (as_key_cache s) k now = Some u \<Longrightarrow> cached_key s k now = (v, s') \<Longrightarrow>
      as_key_cache s' = as_key_cache s"
    and "cache_hit (as_key_cache s) k now = Some v \<Longrightarrow> fst (cached_key s k now) = v"
    and "cache_hit (as_key_cache s) k now = None \<Longrightarrow> fst (cached_key s k now) = load_key (db_of s) k"
    and "cache_hit (as_key_cache s) k now = None \<Longrightarrow> cached_key s k now = (v, s') \<Longrightarrow>
      as_key_cache s' = as_key_cache s \<or>
      as_key_cache s' = (as_key_cache s)(k \<mapsto> (v, now + CACHE_TTL))"
    by (auto simp: cached_key_def Let_def)
qed

lemma load_key_revoked:
  assumes "\<forall>r \<in> set (as_keys s). key_hash r = h \<longrightarrow> key_revoked_at r \<noteq> None"
  shows "load_key (db_of s) h = None"
proof -
  have "one_or_none (\<lambda>k. key_hash k = h \<and> key_revoked_at k = None) (as_keys s) = None"
    using assms one_or_none_Some by (metis (mono_tags, lifting) not_None_eq)
  then show ?thesis by (simp add: load_key_def db_of_def)
qed

lemma load_key_enabled:
  assumes "load_key (accounts, pols, keys) h = Some info" and "ki_scope info = ''account''"
  shows "\<exists>acc. acc \<in> set accounts \<and> acc_is_enabled acc \<and> ki_account_id info = Some (acc_id acc) \<and>
    ki_alias info = Some (acc_alias acc) \<and> ki_platform info = Some (acc_platform acc)"
  using assms
  by (auto simp: load_key_def Let_def split: option.splits if_splits dest!: account_by_id_Some)

lemma revoked_rows:
  assumes "revoke_key s k wall = (b, s')" and "r \<in> set (as_keys s')"
  shows "\<exists>r0 \<in> set (as_keys s). key_hash r = key_hash r0 \<and> key_id r = key_id r0 \<and>
    (key_id r0 = k \<longrightarrow> key_revoked_at r \<noteq> None)"
proof -
  let ?live = "\<lambda>r. key_id r = k \<and> key_revoked_at r = None"
  have "as_keys s' = update_rows ?live (\<lambda>r. r\<lparr>key_revoked_at := Some wall\<rparr>) (as_keys s)"
    using assms(1) by (auto simp: revoke_key_def invalidate_def Let_def)
  with assms(2) obtain r0 where "r0 \<in> set (as_keys s)"
    "r = (if ?live r0 then r0\<lparr>key_revoked_at := Some wall\<rparr> else r0)"
    unfolding update_rows_def by auto
  then show ?thesis by (intro bexI [of _ r0]) auto
qed

end
