(* ===== verification/Authz_Policy.thy ===== *)
theory Authz_Policy
  imports Api_Keys Tool_Catalog
begin

text \<open>
  The decision on a tool (\<^verbatim>\<open>app/authz/policy.py\<close>) with the cached lookups of
  middleware.py it uses, and the audit row.
\<close>

subsection \<open>Context and decision\<close>

record auth_context =
  ctx_account_id :: "int option"
  ctx_alias :: "string option"
  ctx_platform :: string
  ctx_scope :: string

record decision =
  allowed :: bool
  dec_status :: int
  reason :: "string option"

definition ALLOW :: decision where
  "ALLOW = \<lparr>allowed = True, dec_status = 200, reason = None\<rparr>"

definition deny :: "int \<Rightarrow> string \<Rightarrow> decision" where
  "deny st r = \<lparr>allowed = False, dec_status = st, reason = Some r\<rparr>"

text \<open>\<^verbatim>\<open>f"{x}"\<close> of an optional text prints None.\<close>

definition show_opt :: "string option \<Rightarrow> string" where
  "show_opt x = (case x of None \<Rightarrow> ''None'' | Some s \<Rightarrow> s)"

definition decision_response :: "decision \<Rightarrow> auth_context \<Rightarrow> string \<Rightarrow> response" where
  "decision_response d ctx tool =
    (if dec_status d = 403 \<and> reason d \<in> {Some ''denied by account policy'', Some ''read-only account''} then
       json_response 403 [
         (''error'', JStr (''tool '' @ quoted tool @ '' not allowed on read-only account '' @ quoted (show_opt (ctx_alias ctx)))),
         (''tool'', JStr tool), (''alias'', jopt_str (ctx_alias ctx)), (''mode'', JStr ''ro''),
         (''reason'', jopt_str (reason d))]
     else
       json_response (dec_status d) [
         (''error'', JStr (''tool '' @ quoted tool @ '' not allowed for account '' @ quoted (show_opt (ctx_alias ctx)) @
            '': '' @ show_opt (reason d))),
         (''tool'', JStr tool), (''alias'', jopt_str (ctx_alias ctx)), (''reason'', jopt_str (reason d))])"

subsection \<open>What the decision reads\<close>

definition ALIAS_TTL :: usec where
  "ALIAS_TTL = seconds 10"

text \<open>\<^verbatim>\<open>_get_account_mode\<close>: an unknown account, or one with an empty mode, is rw.\<close>

definition load_mode :: "auth_db \<Rightarrow> int \<Rightarrow> string" where
  "load_mode db a =
    (case db of (accounts, _, _) \<Rightarrow>
      (case account_by_id accounts a of
         None \<Rightarrow> ''rw''
       | Some acc \<Rightarrow> if acc_mode acc = [] then ''rw'' else acc_mode acc))"

definition get_account_mode :: "auth_sys \<Rightarrow> int \<Rightarrow> usec \<Rightarrow> string \<times> auth_sys" where
  "get_account_mode s a now =
    (case cache_hit (as_mode_cache s) a now of
       Some mode \<Rightarrow> (mode, s)
     | None \<Rightarrow>
         (let mode = load_mode (db_of s) a
          in (mode, s\<lparr>as_mode_cache := (as_mode_cache s)(a \<mapsto> (mode, now + ALIAS_TTL))\<rparr>)))"

definition get_tool_policy :: "auth_sys \<Rightarrow> int \<Rightarrow> string \<Rightarrow> string option" where
  "get_tool_policy s a tool =
     map_option pol_effect (one_or_none (\<lambda>p. pol_account_id p = a \<and> pol_tool_name p = tool) (as_policies s))"

definition write_guards :: "auth_sys \<Rightarrow> int \<Rightarrow> (string \<times> int list option \<times> int option) option" where
  "write_guards s a =
     map_option (\<lambda>acc. (acc_platform acc, acc_write_chat_ids acc, acc_write_rate_per_hour acc))
       (account_by_id (as_accounts s) a)"

definition writes_last_hour :: "auth_sys \<Rightarrow> int \<Rightarrow> usec \<Rightarrow> int" where
  "writes_last_hour s a wall =
     int (count_rows (\<lambda>l. log_account_id l = Some a \<and> log_is_write l \<and> log_status l = ''ok'' \<and>
       log_tool l \<in> set WRITE_MESSENGER_TOOLS \<and> wall - seconds 3600 \<le> log_ts l) (as_audit s))"

subsection \<open>The decision\<close>

definition authorize ::
    "auth_sys \<Rightarrow> auth_context \<Rightarrow> string \<Rightarrow> int option \<Rightarrow> bool \<Rightarrow> usec \<Rightarrow> usec \<Rightarrow> decision \<times> auth_sys" where
  "authorize s ctx tool chat_external_id is_write now wall =
    (case ctx_account_id ctx of
       None \<Rightarrow> (ALLOW, s)
     | Some a \<Rightarrow>
        if \<not> is_write then (ALLOW, s)
        else
         (let effect = get_tool_policy s a tool
          in if effect = Some ''deny'' then (deny 403 ''denied by account policy'', s)
             else
              (let (mode, s1) = (if effect \<noteq> Some ''allow'' then get_account_mode s a now else (''rw'', s))
               in if effect \<noteq> Some ''allow'' \<and> mode = ''ro'' then (deny 403 ''read-only account'', s1)
                  else if tool \<notin> set WRITE_MESSENGER_TOOLS then (ALLOW, s1)
                  else
                   (case write_guards s1 a of
                      None \<Rightarrow> (ALLOW, s1)
                    | Some (_, chat_ids, rate) \<Rightarrow>
                        if (case (chat_external_id, chat_ids) of
                              (Some c, Some cs) \<Rightarrow> c \<notin> set cs | _ \<Rightarrow> False)
                        then (deny 403 (''chat '' @ (case chat_external_id of Some c \<Rightarrow> show_int c | None \<Rightarrow> ''None'') @
                               '' is not in write_chat_ids''), s1)
                        else if (case rate of Some r \<Rightarrow> r \<le> writes_last_hour s1 a wall | None \<Rightarrow> False)
                        then (deny 429 (''write rate limit '' @ (case rate of Some r \<Rightarrow> show_int r | None \<Rightarrow> ''None'') @
                               ''/h reached''), s1)
                        else (ALLOW, s1)))))"

subsection \<open>Audit\<close>

definition write_audit_log :: "auth_sys \<Rightarrow> audit_log \<Rightarrow> auth_sys" where
  "write_audit_log s entry = s\<lparr>as_audit := as_audit s @ [entry]\<rparr>"

definition audit ::
    "auth_sys \<Rightarrow> auth_context \<Rightarrow> string \<Rightarrow> bool \<Rightarrow> string \<Rightarrow> int option \<Rightarrow> int option
       \<Rightarrow> string option \<Rightarrow> string option \<Rightarrow> usec \<Rightarrow> auth_sys" where
  "audit s ctx tool is_write status chat_id target_user_id digest error wall =
     write_audit_log s \<lparr>log_ts = wall, log_account_id = ctx_account_id ctx,
       log_alias = (if ctx_scope ctx \<noteq> ''owner'' then ctx_alias ctx else Some ''owner''),
       log_tool = tool, log_is_write = is_write, log_chat_id = chat_id,
       log_target_user_id = target_user_id, log_params_digest = digest, log_status = status,
       log_error = error\<rparr>"

subsection \<open>Facts of the decision\<close>

interpretation mode_cache: ttl_read get_account_mode as_mode_cache load_mode db_of ALIAS_TTL
proof
  fix s a now v u s'
  show "cache_hit (as_mode_cache s) a now = Some u \<Longrightarrow> get_account_mode s a now = (v, s') \<Longrightarrow>
      as_mode_cache s' = as_mode_cache s"
    and "cache_hit (as_mode_cache s) a now = Some v \<Longrightarrow> fst (get_account_mode s a now) = v"
    and "cache_hit (as_mode_cache s) a now = None \<Longrightarrow> fst (get_account_mode s a now) = load_mode (db_of s) a"
    and "cache_hit (as_mode_cache s) a now = None \<Longrightarrow> get_account_mode s a now = (v, s') \<Longrightarrow>
      as_mode_cache s' = as_mode_cache s \<or>
      as_mode_cache s' = (as_mode_cache s)(a \<mapsto> (v, now + ALIAS_TTL))"
    by (auto simp: get_account_mode_def Let_def)
qed

text \<open>Only the mode cache changes.\<close>

definition same_but_mode :: "auth_sys \<Rightarrow> auth_sys \<Rightarrow> bool" where
  "same_but_mode s s' \<longleftrightarrow> s' = s\<lparr>as_mode_cache := as_mode_cache s'\<rparr>"

lemma same_but_mode_refl [simp]: "same_but_mode s s"
  by (simp add: same_but_mode_def)

lemma same_but_modeD:
  assumes "same_but_mode s s'"
  shows "as_accounts s' = as_accounts s" "as_policies s' = as_policies s" "as_keys s' = as_keys s"
    "as_audit s' = as_audit s" "as_alias_cache s' = as_alias_cache s" "as_key_cache s' = as_key_cache s"
    "db_of s' = db_of s" "write_guards s' a = write_guards s a"
    "writes_last_hour s' a wall = writes_last_hour s a wall"
proof -
  obtain c where c: "s' = s\<lparr>as_mode_cache := c\<rparr>" using assms unfolding same_but_mode_def by blast
  show "as_accounts s' = as_accounts s" "as_policies s' = as_policies s" "as_keys s' = as_keys s"
    "as_audit s' = as_audit s" "as_alias_cache s' = as_alias_cache s" "as_key_cache s' = as_key_cache s"
    "db_of s' = db_of s" "write_guards s' a = write_guards s a"
    "writes_last_hour s' a wall = writes_last_hour s a wall"
    by (simp_all add: c db_of_def write_guards_def writes_last_hour_def)
qed

lemma get_account_mode_keeps: "same_but_mode s (snd (get_account_mode s a now))"
  by (simp add: get_account_mode_def Let_def same_but_mode_def split: option.splits)

lemma authorize_keeps:
  assumes "authorize s ctx tool chat w now wall = (d, s')"
  shows "same_but_mode s s'"
proof -
  have "s' = s \<or> (\<exists>a. s' = snd (get_account_mode s a now))"
  proof (cases "ctx_account_id ctx")
    case (Some a)
    obtain m s1 where m: "get_account_mode s a now = (m, s1)" by (rule prod.exhaust)
    have "s' = s \<or> s' = s1"
      using assms by (auto simp: authorize_def Let_def Some m split: option.splits if_splits)
    moreover have "s1 = snd (get_account_mode s a now)" using m by simp
    ultimately show ?thesis by blast
  qed (use assms in \<open>simp add: authorize_def\<close>)
  then show ?thesis using get_account_mode_keeps by auto
qed

text \<open>The guards an allowed messenger write has passed.\<close>

lemma authorize_allowed_write:
  assumes "authorize s ctx tool chat True now wall = (d, s')" and "allowed d"
    and "ctx_account_id ctx = Some a" and "tool \<in> set WRITE_MESSENGER_TOOLS"
  shows "get_tool_policy s a tool \<noteq> Some ''deny''"
    and "get_tool_policy s a tool = Some ''allow'' \<or> fst (get_account_mode s a now) \<noteq> ''ro''"
    and "write_guards s a = Some (p, cs, Some r) \<Longrightarrow> writes_last_hour s a wall < r"
    and "write_guards s a = Some (p, Some ids, r') \<Longrightarrow> chat = Some c \<Longrightarrow> c \<in> set ids"
proof -
  obtain m s1 where m: "get_account_mode s a now = (m, s1)" by (rule prod.exhaust)
  have keep: "write_guards s1 a = write_guards s a" "writes_last_hour s1 a wall = writes_last_hour s a wall"
    using same_but_modeD(8,9) [OF get_account_mode_keeps [of s a now]] m by simp_all
  from assms show "get_tool_policy s a tool \<noteq> Some ''deny''"
    by (auto simp: authorize_def deny_def Let_def)
  from assms show "get_tool_policy s a tool = Some ''allow'' \<or> fst (get_account_mode s a now) \<noteq> ''ro''"
    by (auto simp: authorize_def deny_def Let_def m split: if_splits)
  from assms show "write_guards s a = Some (p, cs, Some r) \<Longrightarrow> writes_last_hour s a wall < r"
    by (auto simp: authorize_def deny_def Let_def m keep split: if_splits option.splits)
  from assms show "write_guards s a = Some (p, Some ids, r') \<Longrightarrow> chat = Some c \<Longrightarrow> c \<in> set ids"
    by (auto simp: authorize_def deny_def Let_def m keep split: if_splits option.splits)
qed

end
