(* ===== verification/Middleware.thy ===== *)
theory Middleware
  imports Authz_Policy Route_Table Phone
begin

text \<open>
  The authorization stack (\<^verbatim>\<open>app/authz/middleware.py\<close>, registered in \<^verbatim>\<open>app/main.py\<close>). A
  middleware other than the audit either answers itself or calls the next one with the request
  it has changed; it is a function to an answer, if any, the request and the state. Attributes of
  \<^verbatim>\<open>request.state\<close> that \<^verbatim>\<open>getattr\<close> reads with a default are optional fields. One request
  sees one reading of the clocks.
\<close>

subsection \<open>Paths\<close>

definition SKIP_PATHS :: "string list" where
  "SKIP_PATHS = [''/api/v1/healthz'', ''/api/v1/readyz'', ''/docs'', ''/openapi.json'', ''/redoc'']"

definition ADMIN_PREFIXES :: "string list" where
  "ADMIN_PREFIXES = [''/api/v1/accounts'', ''/api/v1/admin'', ''/api/v1/owner-keys'', ''/api/v1/keys'']"

definition OWNER_PREFIX :: string where
  "OWNER_PREFIX = ''/api/v1/people''"

definition PUBLIC_PATHS :: "string list" where
  "PUBLIC_PATHS = [''/api/v1/healthz'', ''/api/v1/readyz'', ''/docs'', ''/openapi.json'', ''/redoc'']"

definition SELF_AUTH_PREFIXES :: "string list" where
  "SELF_AUTH_PREFIXES = [''/mcp'', ''/api/v1/files/'', ''/api/v1/uploads/'']"

definition HEALTH_PATHS :: "string list" where
  "HEALTH_PATHS = [''/api/v1/healthz'', ''/api/v1/readyz'']"

definition API_PREFIX :: string where
  "API_PREFIX = ''/api/v1''"

definition MAX_INTERNAL_PREFIX :: string where
  "MAX_INTERNAL_PREFIX = ''/api/v1/_max''"

definition MAX_UNSUPPORTED_PATH :: string where
  "MAX_UNSUPPORTED_PATH = MAX_INTERNAL_PREFIX @ ''/_unsupported''"

definition DEFAULT_PLATFORM :: string where
  "DEFAULT_PLATFORM = ''telegram''"

definition is_self_auth_path :: "string \<Rightarrow> bool" where
  "is_self_auth_path path \<longleftrightarrow> path = ''/mcp'' \<or> list_ex (starts_with path) SELF_AUTH_PREFIXES"

text \<open>\<^verbatim>\<open>path == p or path.startswith(p + "/")\<close>.\<close>

definition under :: "string \<Rightarrow> string \<Rightarrow> bool" where
  "under path p \<longleftrightarrow> path = p \<or> starts_with path (p @ ''/'')"

definition is_admin_path :: "string \<Rightarrow> bool" where
  "is_admin_path path \<longleftrightarrow> list_ex (under path) ADMIN_PREFIXES"

subsection \<open>Requests and the environment\<close>

record config =
  cfg_admin_api_key :: string
  cfg_api_key :: string
  cfg_legacy_api_key_enabled :: bool
  cfg_require_account :: bool

record env =
  e_cfg :: config
  e_table :: "route_table option"
  e_sha :: "string \<Rightarrow> string"
  e_loads :: "string \<Rightarrow> json option"
  e_dumps :: "json \<Rightarrow> string"
  e_alias_db_ok :: bool
  e_now :: usec
  e_wall :: usec

record req =
  rq_method :: string
  rq_path :: string
  rq_scheme :: string
  rq_headers :: "(string \<times> string) list"
  rq_query :: "(string \<times> string) list"
  rq_path_params :: "(string \<times> string) list"
  rq_body :: string
  rs_is_admin_path :: bool
  rs_session_alias :: "string option option"
  rs_account_id :: "int option"
  rs_platform :: "string option"
  rs_scope :: "string option"
  rs_tool_name :: "string option"
  rs_tool_is_write :: bool
  rs_forced_tool_name :: "string option"
  rs_max_rewritten :: bool
  rs_api_key :: "key_info option"
  rs_legacy_key :: bool
  rs_implicit_work :: bool
  rs_audit_target :: "int option"

text \<open>A header is the first of its name, a query parameter the last.\<close>

definition header :: "req \<Rightarrow> string \<Rightarrow> string option" where
  "header r name = map_of (rq_headers r) name"

definition query_param :: "req \<Rightarrow> string \<Rightarrow> string option" where
  "query_param r name = map_of (rev (rq_query r)) name"

type_synonym guard = "env \<Rightarrow> req \<Rightarrow> auth_sys \<Rightarrow> response option \<times> req \<times> auth_sys"

definition resolve_route_name :: "env \<Rightarrow> req \<Rightarrow> string option" where
  "resolve_route_name e r =
    (case e_table e of None \<Rightarrow> None | Some t \<Rightarrow> resolve t (rq_method r) (rq_path r))"

definition max_only_tool :: "env \<Rightarrow> req \<Rightarrow> string option" where
  "max_only_tool e r =
    (case e_table e of
       None \<Rightarrow> None
     | Some t \<Rightarrow>
        (case resolve t (rq_method r) (MAX_INTERNAL_PREFIX @ drop (length API_PREFIX) (rq_path r)) of
           None \<Rightarrow> None
         | Some name \<Rightarrow> if name \<in> set MAX_ONLY_TOOLS then Some name else None))"

subsection \<open>Keys\<close>

text \<open>The presented key and whether it came from the query string.\<close>

definition presented_key :: "req \<Rightarrow> string option \<times> bool" where
  "presented_key r =
    (let auth = (case header r ''authorization'' of Some h \<Rightarrow> h | None \<Rightarrow> [])
     in if starts_with (lower auth) ''bearer '' then
          ((let k = strip (drop 7 auth) in if k = [] then None else Some k), False)
        else
         (case header r ''x-api-key'' of
            Some h \<Rightarrow> if h \<noteq> [] then (Some h, False) else (query_param r ''api_key'', True)
          | None \<Rightarrow> (query_param r ''api_key'', True)))"

definition detail :: "int \<Rightarrow> string \<Rightarrow> response" where
  "detail st t = json_response st [(''detail'', JStr t)]"

definition authenticate :: guard where
  "authenticate e r s =
    (let path = rq_path r
     in if path \<in> set PUBLIC_PATHS \<or> is_admin_path path \<or> is_self_auth_path path then (None, r, s)
        else
         (let r = r\<lparr>rs_api_key := None\<rparr>;
              (presented, from_query) = presented_key r;
              (info, s) = (if from_query then (None, s)
                           else lookup (e_sha e) s presented (e_now e) (e_wall e));
              owner_path = under path OWNER_PREFIX
          in case info of
               Some i \<Rightarrow>
                (let r = r\<lparr>rs_api_key := Some i\<rparr>
                 in if ki_scope i = ''owner'' \<and> \<not> owner_path
                    then (Some (detail 403 ''owner key: contacts endpoints only''), r, s)
                    else if ki_scope i = ''account'' \<and> owner_path
                    then (Some (detail 403 ''account key: no access to contacts''), r, s)
                    else (None, r, s))
             | None \<Rightarrow>
                (if cfg_api_key (e_cfg e) = [] then (None, r, s)
                 else if cfg_legacy_api_key_enabled (e_cfg e) \<and> presented \<noteq> Some [] \<and>
                    presented = Some (cfg_api_key (e_cfg e)) then
                   (if owner_path then (Some (detail 403 ''contacts need the owner key''), r, s)
                    else (None, r\<lparr>rs_legacy_key := True\<rparr>, s))
                 else (Some (detail 401 ''Invalid or missing API key''), r, s))))"

definition auth_and_https :: guard where
  "auth_and_https e r s =
     authenticate e (if header r ''x-forwarded-proto'' = Some ''https'' then r\<lparr>rq_scheme := ''https''\<rparr> else r) s"

subsection \<open>Administrator paths\<close>

definition admin_auth :: guard where
  "admin_auth e r s =
    (if \<not> is_admin_path (rq_path r) then (None, r, s)
     else
      (let r = r\<lparr>rs_is_admin_path := True, rs_session_alias := Some None, rs_account_id := None,
             rs_tool_is_write := True\<rparr>
       in if cfg_admin_api_key (e_cfg e) = []
          then (Some (json_response 503 [(''error'', JStr ''admin API key not configured on server'')]), r, s)
          else if header r ''x-admin-key'' \<noteq> Some (cfg_admin_api_key (e_cfg e))
          then (Some (json_response 401 [(''error'', JStr ''admin key required'')]), r, s)
          else (None, r, s)))"

subsection \<open>The account of the request\<close>

fun split_account_ref :: "account_ref \<Rightarrow> int \<times> string" where
  "split_account_ref (Ref_pair a p) = (a, p)"
| "split_account_ref (Ref_int a) = (a, DEFAULT_PLATFORM)"

definition resolve_alias_from_db :: "auth_db \<Rightarrow> string \<Rightarrow> (int \<times> string) option" where
  "resolve_alias_from_db db alias =
    (case db of (accounts, _, _) \<Rightarrow>
       map_option (\<lambda>a. (acc_id a, acc_platform a))
         (one_or_none (\<lambda>a. acc_alias a = alias \<and> acc_is_enabled a) accounts))"

definition invalidate_alias_cache :: "string option \<Rightarrow> auth_sys \<Rightarrow> auth_sys" where
  "invalidate_alias_cache alias s =
    (case alias of
       None \<Rightarrow> s\<lparr>as_alias_cache := (\<lambda>_. None)\<rparr>
     | Some a \<Rightarrow> s\<lparr>as_alias_cache := (as_alias_cache s)(a := None)\<rparr>)"

text \<open>The cached lookup of an alias; a database error counts as an unknown alias.\<close>

definition cached_alias :: "bool \<Rightarrow> auth_sys \<Rightarrow> string \<Rightarrow> usec \<Rightarrow> (int \<times> string) option \<times> auth_sys" where
  "cached_alias db_ok s alias now =
    (case cache_hit (as_alias_cache s) alias now of
       Some ref \<Rightarrow> (Some (split_account_ref ref), s)
     | None \<Rightarrow>
        (case (if db_ok then resolve_alias_from_db (db_of s) alias else None) of
           None \<Rightarrow> (None, s)
         | Some (a, p) \<Rightarrow>
             (Some (a, p), s\<lparr>as_alias_cache := (as_alias_cache s)(alias \<mapsto> (Ref_pair a p, now + ALIAS_TTL))\<rparr>)))"

definition set_account :: "req \<Rightarrow> string option \<Rightarrow> int option \<Rightarrow> string \<Rightarrow> req" where
  "set_account r alias a platform =
     r\<lparr>rs_session_alias := Some alias, rs_account_id := a, rs_platform := Some platform\<rparr>"

definition ACCOUNT_REQUIRED :: string where
  "ACCOUNT_REQUIRED = ''account required: X-Session-Alias or per-account key''"

definition resolve_alias :: guard where
  "resolve_alias e r s =
    (if rs_is_admin_path r then (None, r, s)
     else if is_self_auth_path (rq_path r) then (None, set_account r None None DEFAULT_PLATFORM, s)
     else if rq_path r \<in> set SKIP_PATHS then (None, set_account r (Some ''work'') None DEFAULT_PLATFORM, s)
     else
      (let header_alias = or_else (header r ''x-session-alias'') (query_param r ''session'')
       in case rs_api_key r of
            Some key \<Rightarrow>
              if ki_scope key = ''owner'' then
                (None, (set_account r (Some ''owner'') None DEFAULT_PLATFORM)\<lparr>rs_scope := Some ''owner''\<rparr>, s)
              else if header_alias \<noteq> None \<and> header_alias \<noteq> Some [] \<and> header_alias \<noteq> ki_alias key then
                (Some (json_response 403 [(''error'', JStr (''X-Session-Alias '' @ quoted (show_opt header_alias) @
                   '' does not match the key'' @ [CHR 0x27] @ ''s account '' @ quoted (show_opt (ki_alias key))))]), r, s)
              else
                (None, set_account r (ki_alias key) (ki_account_id key)
                   (case or_else (ki_platform key) None of Some p \<Rightarrow> p | None \<Rightarrow> DEFAULT_PLATFORM), s)
          | None \<Rightarrow>
             (let implicit = header_alias = None \<and> starts_with (rq_path r) (API_PREFIX @ ''/'')
              in if implicit \<and> cfg_require_account (e_cfg e)
                 then (Some (detail 400 ACCOUNT_REQUIRED), r, s)
                 else
                  (let r = (if implicit then r\<lparr>rs_implicit_work := True\<rparr> else r);
                       alias = (case or_else header_alias None of Some a \<Rightarrow> a | None \<Rightarrow> ''work'')
                   in case cached_alias (e_alias_db_ok e) s alias (e_now e) of
                        (None, s) \<Rightarrow>
                          (Some (json_response 404 [(''error'', JStr (''Session alias '' @ quoted alias @
                             '' not registered or disabled''))]), r, s)
                      | (Some (a, p), s) \<Rightarrow> (None, set_account r (Some alias) (Some a) p, s)))))"

subsection \<open>The platform of the request\<close>

definition platform_of :: "req \<Rightarrow> string" where
  "platform_of r = (case rs_platform r of Some p \<Rightarrow> p | None \<Rightarrow> DEFAULT_PLATFORM)"

definition not_supported :: "req \<Rightarrow> string \<Rightarrow> string \<Rightarrow> response" where
  "not_supported r tool platform = json_response 501 [
     (''error'', JStr (''tool '' @ quoted tool @ '' is not supported for platform '' @ platform)),
     (''tool'', JStr tool), (''platform'', JStr platform),
     (''alias'', jopt_str (case rs_session_alias r of Some a \<Rightarrow> a | None \<Rightarrow> None))]"

definition platform_dispatch :: guard where
  "platform_dispatch e r s =
    (if rs_is_admin_path r then (None, r, s)
     else
      (let path = rq_path r
       in if under path MAX_INTERNAL_PREFIX then (Some (detail 404 ''Not Found''), r, s)
          else if \<not> starts_with path (API_PREFIX @ ''/'') \<or> path \<in> set SKIP_PATHS then (None, r, s)
          else
           (let platform = platform_of r; max_only = max_only_tool e r
            in if platform \<noteq> ''max'' then
                 (case max_only of
                    Some tool \<Rightarrow>
                      (let r = r\<lparr>rs_tool_name := Some tool, rs_tool_is_write := False\<rparr>
                       in (Some (not_supported r tool platform), r, s))
                  | None \<Rightarrow> (None, r, s))
               else
                (case or_else max_only (resolve_route_name e r) of
                   None \<Rightarrow> (Some (detail 404 ''Not Found''), r\<lparr>rs_tool_name := Some ''unknown''\<rparr>, s)
                 | Some tool \<Rightarrow>
                    (let r = r\<lparr>rs_forced_tool_name := Some tool, rs_max_rewritten := True,
                           rq_path := MAX_INTERNAL_PREFIX @ drop (length API_PREFIX) path\<rparr>
                     in (None, (if resolve_route_name e r = None
                                then r\<lparr>rq_path := MAX_UNSUPPORTED_PATH\<rparr> else r), s))))))"

subsection \<open>The tool of the request\<close>

definition request_context :: "req \<Rightarrow> auth_context" where
  "request_context r = \<lparr>ctx_account_id = rs_account_id r,
     ctx_alias = (case rs_session_alias r of Some a \<Rightarrow> a | None \<Rightarrow> Some ''work''),
     ctx_platform = platform_of r,
     ctx_scope = (case rs_scope r of Some sc \<Rightarrow> sc | None \<Rightarrow> ''account'')\<rparr>"

definition unknown_if_none :: "string option \<Rightarrow> string" where
  "unknown_if_none x = (case or_else x None of Some t \<Rightarrow> t | None \<Rightarrow> ''unknown'')"

definition tool_authz :: guard where
  "tool_authz e r s =
    (if rs_is_admin_path r
     then (None, r\<lparr>rs_tool_name := Some (unknown_if_none (resolve_route_name e r))\<rparr>, s)
     else
      (let tool = or_else (rs_forced_tool_name r) (resolve_route_name e r);
           r = r\<lparr>rs_tool_name := Some (unknown_if_none tool), rs_tool_is_write := False\<rparr>
       in case tool of
            None \<Rightarrow> (None, r, s)
          | Some t \<Rightarrow>
             (if t \<notin> set (READ_ONLY_TOOLS @ WRITE_TOOLS) then (None, r, s)
              else
               (case tool_is_write t of
                  None \<Rightarrow> (None, r, s)
                | Some w \<Rightarrow>
                   (let r = r\<lparr>rs_tool_is_write := w\<rparr>; ctx = request_context r
                    in case authorize s ctx t None w (e_now e) (e_wall e) of
                         (d, s) \<Rightarrow>
                           if \<not> allowed d then (Some (decision_response d ctx t), r, s)
                           else (None, r, s))))))"

subsection \<open>The audit row\<close>

definition extract_int_param :: "req \<Rightarrow> string \<Rightarrow> int option" where
  "extract_int_param r param =
    (case or_else (map_of (rq_path_params r) param) (query_param r param) of
       None \<Rightarrow> None
     | Some v \<Rightarrow> py_int v)"

text \<open>A body that is JSON is hashed with its phones masked, any other as it is.\<close>

definition digest :: "env \<Rightarrow> string \<Rightarrow> string" where
  "digest e body = take 16 (e_sha e (case e_loads e body of
      Some j \<Rightarrow> e_dumps e (mask_phone_params j)
    | None \<Rightarrow> body))"

definition audit_status :: "int \<Rightarrow> string" where
  "audit_status code = (if code = 403 then ''denied'' else if 200 \<le> code \<and> code < 300 then ''ok'' else ''error'')"

definition audit_entry :: "env \<Rightarrow> response \<Rightarrow> req \<Rightarrow> audit_log" where
  "audit_entry e resp r =
    (let st = audit_status (status_code resp);
         target = extract_int_param r ''user_id'';
         error = (if st \<noteq> ''ok'' then [''HTTP '' @ show_int (status_code resp)] else []);
         markers = (if st = ''ok'' \<and> rs_implicit_work r then [''implicit_work''] else []) @
                   (if rs_legacy_key r then [''legacy_key''] else []);
         texts = error @ markers
     in \<lparr>log_ts = e_wall e, log_account_id = rs_account_id r,
          log_alias = (case rs_session_alias r of Some a \<Rightarrow> a | None \<Rightarrow> None),
          log_tool = (case rs_tool_name r of Some t \<Rightarrow> t | None \<Rightarrow> ''unknown''),
          log_is_write = rs_tool_is_write r,
          log_chat_id = extract_int_param r ''chat_id'',
          log_target_user_id = (case target of Some t \<Rightarrow> Some t | None \<Rightarrow> rs_audit_target r),
          log_params_digest = (if rs_tool_is_write r \<and> st \<noteq> ''denied'' \<and> rq_body r \<noteq> []
                               then Some (digest e (rq_body r)) else None),
          log_status = st,
          log_error = (if texts = [] then None else Some (join_with '','' texts))\<rparr>)"

text \<open>The audit middleware after the answer; the background write is taken as done.\<close>

definition audit_log_response :: "env \<Rightarrow> response \<Rightarrow> req \<Rightarrow> auth_sys \<Rightarrow> auth_sys" where
  "audit_log_response e resp r s =
    (if \<not> starts_with (rq_path r) ''/api/'' then s
     else if rq_path r \<in> set HEALTH_PATHS then s
     else write_audit_log s (audit_entry e resp r))"

subsection \<open>The stack\<close>

text \<open>\<^verbatim>\<open>await call_next(request)\<close>: the next middleware runs unless this one has answered.\<close>

definition and_then :: "guard \<Rightarrow> guard \<Rightarrow> guard" where
  "and_then g h e r s = (case g e r s of
      (Some resp, r', s') \<Rightarrow> (Some resp, r', s')
    | (None, r', s') \<Rightarrow> h e r' s')"

definition guards :: guard where
  "guards = and_then auth_and_https (and_then admin_auth (and_then resolve_alias
     (and_then platform_dispatch tool_authz)))"

text \<open>
  A request through the whole stack: audit_log outermost, then the guards in the order of
  main.py, then the router with the endpoint, an argument.
\<close>

definition serve ::
    "env \<Rightarrow> (req \<Rightarrow> auth_sys \<Rightarrow> response \<times> req \<times> auth_sys) \<Rightarrow> req \<Rightarrow> auth_sys \<Rightarrow> response \<times> auth_sys" where
  "serve e route r s =
    (case guards e r s of
       (Some resp, r1, s1) \<Rightarrow> (resp, audit_log_response e resp r1 s1)
     | (None, r1, s1) \<Rightarrow>
        (case route r1 s1 of (resp, r2, s2) \<Rightarrow> (resp, audit_log_response e resp r2 s2)))"

end
