(* ===== verification/Middleware_Facts.thy ===== *)
theory Middleware_Facts
  imports Middleware
begin

text \<open>
  What a request that reaches the router has passed. Each lemma is about one guard: what it keeps
  of the request, and what holds of a request it lets through; they compose along
  \<^term>\<open>guards\<close>.
\<close>

subsection \<open>Composition\<close>

lemma and_then_None:
  "and_then g h e r s = (None, r', s') \<longleftrightarrow>
    (\<exists>r1 s1. g e r s = (None, r1, s1) \<and> h e r1 s1 = (None, r', s'))"
  by (auto simp: and_then_def split: prod.splits option.splits)

text \<open>The intermediate requests of a run through all guards.\<close>

lemma guards_NoneE:
  assumes "guards e r s = (None, r', s')"
  obtains r1 s1 r2 s2 r3 s3 r4 s4 where
    "auth_and_https e r s = (None, r1, s1)" "admin_auth e r1 s1 = (None, r2, s2)"
    "resolve_alias e r2 s2 = (None, r3, s3)" "platform_dispatch e r3 s3 = (None, r4, s4)"
    "tool_authz e r4 s4 = (None, r', s')"
  using assms unfolding guards_def and_then_None by blast

subsection \<open>What each guard keeps\<close>

definition same_request :: "req \<Rightarrow> req \<Rightarrow> bool" where
  "same_request r r' \<longleftrightarrow> rq_method r' = rq_method r \<and> rq_path r' = rq_path r \<and>
     rq_headers r' = rq_headers r \<and> rq_query r' = rq_query r"

lemma same_requestD:
  assumes "same_request r r'"
  shows "rq_path r' = rq_path r" "rq_method r' = rq_method r"
    "header r' = header r" "query_param r' = query_param r" "presented_key r' = presented_key r"
proof -
  show 1: "rq_path r' = rq_path r" "rq_method r' = rq_method r"
    and h: "header r' = header r" and q: "query_param r' = query_param r"
    using assms by (auto simp: same_request_def header_def query_param_def fun_eq_iff)
  show "presented_key r' = presented_key r" by (simp only: presented_key_def h q)
qed

lemma header_update [simp]:
  "header (r\<lparr>rq_scheme := x\<rparr>) = header r" "query_param (r\<lparr>rq_scheme := x\<rparr>) = query_param r"
  "header (r\<lparr>rs_api_key := k\<rparr>) = header r" "query_param (r\<lparr>rs_api_key := k\<rparr>) = query_param r"
  by (simp_all add: header_def query_param_def fun_eq_iff)

lemma presented_key_update [simp]:
  "presented_key (r\<lparr>rs_api_key := k\<rparr>) = presented_key r"
  "presented_key (r\<lparr>rq_scheme := x\<rparr>) = presented_key r"
  by (simp_all only: presented_key_def header_update)

lemma admin_auth_keeps:
  "admin_auth e r s = (x, r', s') \<Longrightarrow> same_request r r' \<and> s' = s \<and> rs_api_key r' = rs_api_key r \<and>
    rs_forced_tool_name r' = rs_forced_tool_name r"
  by (auto simp: admin_auth_def same_request_def Let_def split: if_splits)

lemma authenticate_keeps:
  "authenticate e r s = (x, r', s') \<Longrightarrow> same_request r r' \<and> rs_is_admin_path r' = rs_is_admin_path r \<and>
    rs_forced_tool_name r' = rs_forced_tool_name r"
  by (auto simp: authenticate_def same_request_def Let_def split: if_splits prod.splits option.splits)

lemma auth_and_https_keeps:
  "auth_and_https e r s = (x, r', s') \<Longrightarrow> same_request r r' \<and> rs_is_admin_path r' = rs_is_admin_path r \<and>
    rs_forced_tool_name r' = rs_forced_tool_name r"
  using authenticate_keeps unfolding auth_and_https_def
  by (fastforce simp: same_request_def split: if_splits)

lemma resolve_alias_keeps:
  "resolve_alias e r s = (x, r', s') \<Longrightarrow> same_request r r' \<and>
    rs_is_admin_path r' = rs_is_admin_path r \<and> rs_forced_tool_name r' = rs_forced_tool_name r"
  by (auto simp: resolve_alias_def same_request_def set_account_def Let_def
      split: if_splits prod.splits option.splits)

lemma tool_authz_keeps:
  "tool_authz e r s = (x, r', s') \<Longrightarrow> same_request r r' \<and> rs_platform r' = rs_platform r \<and>
    rs_account_id r' = rs_account_id r \<and> rs_is_admin_path r' = rs_is_admin_path r \<and>
    rs_session_alias r' = rs_session_alias r \<and> same_but_mode s s'"
  by (auto simp: tool_authz_def same_request_def Let_def split: if_splits prod.splits option.splits
      dest: authorize_keeps)

text \<open>The platform dispatch changes the path of MAX requests only, and no other part.\<close>

lemma platform_dispatch_keeps:
  "platform_dispatch e r s = (x, r', s') \<Longrightarrow> s' = s \<and> rs_platform r' = rs_platform r \<and>
    rs_account_id r' = rs_account_id r \<and> rs_is_admin_path r' = rs_is_admin_path r \<and>
    rs_session_alias r' = rs_session_alias r"
  by (auto simp: platform_dispatch_def Let_def split: if_splits option.splits)

subsection \<open>What the guards keep of the state\<close>

text \<open>The stack only fills caches and touches keys: the rest of the state stays.\<close>

definition same_tables :: "auth_sys \<Rightarrow> auth_sys \<Rightarrow> bool" where
  "same_tables s s' \<longleftrightarrow> as_accounts s' = as_accounts s \<and> as_policies s' = as_policies s \<and>
     as_audit s' = as_audit s \<and> as_mode_cache s' = as_mode_cache s"

lemma same_tables_refl [simp]: "same_tables s s"
  by (simp add: same_tables_def)

lemma same_tables_trans: "same_tables s t \<Longrightarrow> same_tables t u \<Longrightarrow> same_tables s u"
  by (simp add: same_tables_def)

lemma lookup_tables: "lookup sha s k now wall = (i, s') \<Longrightarrow> same_tables s s'"
  by (auto simp: lookup_def cached_key_def touch_later_def same_tables_def Let_def
      split: option.splits if_splits prod.splits)

lemma auth_and_https_tables: "auth_and_https e r s = (x, r', s') \<Longrightarrow> same_tables s s'"
  by (auto simp: auth_and_https_def authenticate_def Let_def
      split: option.splits if_splits prod.splits dest: lookup_tables)

lemma resolve_alias_tables: "resolve_alias e r s = (x, r', s') \<Longrightarrow> same_tables s s'"
  by (auto simp: resolve_alias_def cached_alias_def same_tables_def Let_def
      split: option.splits if_splits prod.splits)

lemma same_tables_reads:
  assumes "same_tables s s'"
  shows "get_tool_policy s' a t = get_tool_policy s a t"
    and "fst (get_account_mode s' a now) = fst (get_account_mode s a now)"
    and "write_guards s' a = write_guards s a" "writes_last_hour s' a wall = writes_last_hour s a wall"
proof -
  have load: "load_mode (db_of s') a = load_mode (db_of s) a"
    using assms by (simp add: load_mode_def db_of_def same_tables_def)
  show "get_tool_policy s' a t = get_tool_policy s a t"
    "write_guards s' a = write_guards s a" "writes_last_hour s' a wall = writes_last_hour s a wall"
    using assms by (simp_all add: get_tool_policy_def write_guards_def writes_last_hour_def same_tables_def)
  show "fst (get_account_mode s' a now) = fst (get_account_mode s a now)"
    using assms by (simp add: get_account_mode_def Let_def load same_tables_def split: option.split)
qed

text \<open>The request as it arrives: nothing is set yet.\<close>

definition fresh_req :: "req \<Rightarrow> bool" where
  "fresh_req r \<longleftrightarrow> \<not> rs_is_admin_path r \<and> rs_session_alias r = None \<and> rs_account_id r = None \<and>
     rs_platform r = None \<and> rs_scope r = None \<and> rs_tool_name r = None \<and> \<not> rs_tool_is_write r \<and>
     rs_forced_tool_name r = None \<and> rs_api_key r = None \<and> \<not> rs_legacy_key r \<and> \<not> rs_implicit_work r"

lemma admin_auth_mark:
  "admin_auth e r s = (x, r', s') \<Longrightarrow> \<not> rs_is_admin_path r \<Longrightarrow> rs_is_admin_path r' \<longleftrightarrow> is_admin_path (rq_path r)"
  by (auto simp: admin_auth_def Let_def split: if_splits)

text \<open>A request on its way: the requests and states between the guards and what they share.\<close>

lemma reachedE:
  assumes "guards e r s = (None, r', s')" and "fresh_req r"
  obtains r1 s1 r2 s2 r3 s3 r4 s4 where
    "auth_and_https e r s = (None, r1, s1)" "admin_auth e r1 s1 = (None, r2, s2)"
    "resolve_alias e r2 s2 = (None, r3, s3)" "platform_dispatch e r3 s3 = (None, r4, s4)"
    "tool_authz e r4 s4 = (None, r', s')"
    "same_request r r1" "same_request r r2" "same_request r r3" "same_request r4 r'"
    "same_tables s s4" "rs_is_admin_path r4 = is_admin_path (rq_path r)"
    "rs_is_admin_path r3 = is_admin_path (rq_path r)" "rs_is_admin_path r2 = is_admin_path (rq_path r)"
    "rs_forced_tool_name r3 = None"
proof (rule guards_NoneE [OF assms(1)])
  fix r1 s1 r2 s2 r3 s3 r4 s4
  assume g: "auth_and_https e r s = (None, r1, s1)" "admin_auth e r1 s1 = (None, r2, s2)"
    "resolve_alias e r2 s2 = (None, r3, s3)" "platform_dispatch e r3 s3 = (None, r4, s4)"
    "tool_authz e r4 s4 = (None, r', s')"
  have k: "same_request r r1" "same_request r1 r2" "same_request r2 r3" "same_request r4 r'"
    using auth_and_https_keeps [OF g(1)] admin_auth_keeps [OF g(2)] resolve_alias_keeps [OF g(3)]
      tool_authz_keeps [OF g(5)] by simp_all
  have s: "same_tables s s1" "s2 = s1" "same_tables s2 s3" "s4 = s3"
    using auth_and_https_tables [OF g(1)] admin_auth_keeps [OF g(2)] resolve_alias_tables [OF g(3)]
      platform_dispatch_keeps [OF g(4)] by simp_all
  have "rs_forced_tool_name r1 = None" "rs_forced_tool_name r2 = rs_forced_tool_name r1"
    using auth_and_https_keeps [OF g(1)] admin_auth_keeps [OF g(2)] assms(2) by (simp_all add: fresh_req_def)
  then have "rs_forced_tool_name r3 = None" using resolve_alias_keeps [OF g(3)] by simp
  moreover have "\<not> rs_is_admin_path r1"
    using auth_and_https_keeps [OF g(1)] assms(2) by (simp add: fresh_req_def)
  moreover have "rs_is_admin_path r2 = is_admin_path (rq_path r)"
    using calculation(2) admin_auth_mark [OF g(2)] k(1) by (simp add: same_request_def)
  moreover have "rs_is_admin_path r3 = rs_is_admin_path r2" "rs_is_admin_path r4 = rs_is_admin_path r3"
    using resolve_alias_keeps [OF g(3)] platform_dispatch_keeps [OF g(4)] by simp_all
  moreover have "same_request r r2" "same_request r r3" using k by (auto simp: same_request_def)
  moreover have "same_tables s s4" using s same_tables_trans by blast
  ultimately show thesis using that g k by metis
qed

subsection \<open>A write that reaches its route\<close>

lemma tool_authz_write:
  assumes "tool_authz e r s = (None, r', s')" and "\<not> rs_is_admin_path r"
    and "rs_tool_name r' = Some t" and "t \<in> set WRITE_MESSENGER_TOOLS" and "rs_account_id r = Some a"
  shows "get_tool_policy s a t \<noteq> Some ''deny''"
    and "get_tool_policy s a t = Some ''allow'' \<or> fst (get_account_mode s a (e_now e)) \<noteq> ''ro''"
    and "write_guards s a = Some (p, cs, Some n) \<Longrightarrow> writes_last_hour s a (e_wall e) < n"
proof -
  have unk: "''unknown'' \<notin> set WRITE_MESSENGER_TOOLS" by code_simp
  let ?tool = "or_else (rs_forced_tool_name r) (resolve_route_name e r)"
  have "rs_tool_name r' = Some (unknown_if_none ?tool)"
    using assms(1,2) by (auto simp: tool_authz_def Let_def split: option.splits if_splits prod.splits)
  then have "unknown_if_none ?tool = t" using assms(3) by simp
  with unk assms(4) have tool: "?tool = Some t"
    by (auto simp: unknown_if_none_def or_else_def split: option.splits if_splits)
  have "t \<in> set (READ_ONLY_TOOLS @ WRITE_TOOLS)" using assms(4) by (simp add: WRITE_TOOLS_def)
  moreover have "tool_is_write t = Some True" using assms(4) by (simp add: tool_is_write_True)
  ultimately obtain d where d:
    "authorize s (request_context (r\<lparr>rs_tool_name := Some (unknown_if_none (Some t)), rs_tool_is_write := True\<rparr>))
       t None True (e_now e) (e_wall e) = (d, s')" "allowed d"
    using assms(1,2) tool by (auto simp: tool_authz_def Let_def split: if_splits prod.splits)
  have ctx: "ctx_account_id (request_context (r\<lparr>rs_tool_name := Some (unknown_if_none (Some t)),
      rs_tool_is_write := True\<rparr>)) = Some a"
    using assms(5) by (simp add: request_context_def)
  note permitted = authorize_allowed_write [OF d ctx assms(4)]
  show "get_tool_policy s a t \<noteq> Some ''deny''" by (rule permitted(1))
  show "get_tool_policy s a t = Some ''allow'' \<or> fst (get_account_mode s a (e_now e)) \<noteq> ''ro''"
    by (rule permitted(2))
  show "write_guards s a = Some (p, cs, Some n) \<Longrightarrow> writes_last_hour s a (e_wall e) < n"
    by (rule permitted(3))
qed

lemma reached_write:
  assumes g: "guards e r s = (None, r', s')" and fresh: "fresh_req r"
    and adm: "\<not> is_admin_path (rq_path r)" and t: "rs_tool_name r' = Some t"
    and w: "t \<in> set WRITE_MESSENGER_TOOLS" and a: "rs_account_id r' = Some a"
  shows "get_tool_policy s a t \<noteq> Some ''deny''"
    and "get_tool_policy s a t = Some ''allow'' \<or> fst (get_account_mode s a (e_now e)) \<noteq> ''ro''"
    and "write_guards s a = Some (p, cs, Some n) \<Longrightarrow> writes_last_hour s a (e_wall e) < n"
proof -
  obtain r4 s4 where r4: "tool_authz e r4 s4 = (None, r', s')" "same_tables s s4"
    "rs_is_admin_path r4 = is_admin_path (rq_path r)"
    using reachedE [OF g fresh] by metis
  have "rs_account_id r4 = Some a" using tool_authz_keeps [OF r4(1)] a by simp
  with tool_authz_write [OF r4(1) _ t w] adm r4(3) same_tables_reads [OF r4(2)]
  show "get_tool_policy s a t \<noteq> Some ''deny''"
    "get_tool_policy s a t = Some ''allow'' \<or> fst (get_account_mode s a (e_now e)) \<noteq> ''ro''"
    "write_guards s a = Some (p, cs, Some n) \<Longrightarrow> writes_last_hour s a (e_wall e) < n"
    by simp_all
qed

subsection \<open>The platform decides the router\<close>

lemma under_append: "starts_with p (API_PREFIX @ ''/'') \<Longrightarrow> under (MAX_INTERNAL_PREFIX @ drop (length API_PREFIX) p) MAX_INTERNAL_PREFIX"
  by (auto simp: under_def starts_with_iff API_PREFIX_def MAX_INTERNAL_PREFIX_def)

lemma MAX_UNSUPPORTED_under: "under MAX_UNSUPPORTED_PATH MAX_INTERNAL_PREFIX"
  by (simp add: under_def MAX_UNSUPPORTED_PATH_def starts_with_iff)

lemma dispatched:
  assumes "platform_dispatch e r s = (None, r', s')" and "\<not> rs_is_admin_path r"
    and "starts_with (rq_path r) (API_PREFIX @ ''/'')" and "rq_path r \<notin> set SKIP_PATHS"
  shows "\<not> under (rq_path r) MAX_INTERNAL_PREFIX"
    and "platform_of r = ''max'' \<Longrightarrow> under (rq_path r') MAX_INTERNAL_PREFIX \<and>
      (\<exists>t. rs_forced_tool_name r' = Some t \<and> or_else (max_only_tool e r) (resolve_route_name e r) = Some t)"
    and "platform_of r \<noteq> ''max'' \<Longrightarrow> r' = r \<and> max_only_tool e r = None"
  using assms under_append [OF assms(3)] MAX_UNSUPPORTED_under
  by (auto simp: platform_dispatch_def Let_def split: if_splits option.splits)

lemma reached_platform:
  assumes g: "guards e r s = (None, r', s')" and fresh: "fresh_req r"
    and path: "starts_with (rq_path r) (API_PREFIX @ ''/'')" "rq_path r \<notin> set SKIP_PATHS"
    and adm: "\<not> is_admin_path (rq_path r)"
  shows "\<not> under (rq_path r) MAX_INTERNAL_PREFIX \<and>
    (if platform_of r' = ''max'' then under (rq_path r') MAX_INTERNAL_PREFIX else rq_path r' = rq_path r)"
proof -
  obtain r3 s3 r4 s4 where g: "platform_dispatch e r3 s3 = (None, r4, s4)"
    "tool_authz e r4 s4 = (None, r', s')" "same_request r r3" "same_request r4 r'"
    "rs_is_admin_path r3 = is_admin_path (rq_path r)"
    using reachedE [OF g fresh] by metis
  have r3: "rq_path r3 = rq_path r" "rq_path r' = rq_path r4"
    using g(3,4) by (simp_all add: same_request_def)
  have p: "platform_of r' = platform_of r3"
    using tool_authz_keeps [OF g(2)] platform_dispatch_keeps [OF g(1)] by (simp add: platform_of_def)
  show ?thesis using dispatched [OF g(1)] path adm g(5) r3 p by auto
qed

subsection \<open>Who passes the key check\<close>

lemma authenticated:
  assumes "authenticate e r s = (None, r', s')" and "\<not> rs_legacy_key r"
    and path: "rq_path r \<notin> set PUBLIC_PATHS" "\<not> is_admin_path (rq_path r)" "\<not> is_self_auth_path (rq_path r)"
    and key: "cfg_api_key (e_cfg e) \<noteq> []"
  shows "(\<exists>i. rs_api_key r' = Some i \<and> \<not> snd (presented_key r) \<and>
        fst (lookup (e_sha e) s (fst (presented_key r)) (e_now e) (e_wall e)) = Some i \<and>
        (ki_scope i = ''owner'' \<longrightarrow> under (rq_path r) OWNER_PREFIX) \<and>
        (ki_scope i = ''account'' \<longrightarrow> \<not> under (rq_path r) OWNER_PREFIX)) \<or>
     (rs_api_key r' = None \<and> rs_legacy_key r' \<and> cfg_legacy_api_key_enabled (e_cfg e) \<and>
        fst (presented_key r) = Some (cfg_api_key (e_cfg e)) \<and> \<not> under (rq_path r) OWNER_PREFIX)"
  using assms
  by (auto simp: authenticate_def Let_def split: if_splits option.splits prod.splits)

text \<open>The account of a request with an account key is the key's.\<close>

lemma resolved_by_key:
  assumes "resolve_alias e r s = (None, r', s')" and "\<not> rs_is_admin_path r"
    and "\<not> is_self_auth_path (rq_path r)" "rq_path r \<notin> set SKIP_PATHS" and "rs_api_key r = Some i"
  shows "if ki_scope i = ''owner'' then rs_account_id r' = None \<and> rs_scope r' = Some ''owner''
    else rs_account_id r' = ki_account_id i"
  using assms by (auto simp: resolve_alias_def set_account_def Let_def split: if_splits)

lemma resolved_by_alias:
  assumes "resolve_alias e r s = (None, r', s')" and "\<not> rs_is_admin_path r"
    and "\<not> is_self_auth_path (rq_path r)" "rq_path r \<notin> set SKIP_PATHS" and "rs_api_key r = None"
  shows "\<exists>alias a p. rs_session_alias r' = Some (Some alias) \<and> rs_account_id r' = Some a \<and>
    rs_platform r' = Some p \<and> fst (cached_alias (e_alias_db_ok e) s alias (e_now e)) = Some (a, p)"
  using assms
  by (auto simp: resolve_alias_def set_account_def Let_def split: if_splits option.splits prod.splits)

lemma lookup_cached:
  assumes "fst (lookup sha s presented now wall) = Some i"
  obtains k where "presented = Some k" "k \<noteq> []" "fst (cached_key s (sha k) now) = Some i"
  using assms by (auto simp: lookup_def split: option.splits if_splits prod.splits)

text \<open>
  What the tables must hold for a key to be live: a row with its hash that is not revoked and, if
  it is an account's key, whose account exists and is enabled.
\<close>

definition live_key :: "auth_db \<Rightarrow> string \<Rightarrow> key_info \<Rightarrow> bool" where
  "live_key d h i \<longleftrightarrow> (\<exists>row \<in> set (snd (snd d)). key_hash row = h \<and> key_revoked_at row = None \<and>
     ki_id i = key_id row \<and> ki_scope i = key_scope row \<and> ki_account_id i = key_account_id row \<and>
     (key_scope row = ''account'' \<longrightarrow> (\<exists>acc \<in> set (fst d). acc_is_enabled acc \<and>
        key_account_id row = Some (acc_id acc) \<and> ki_alias i = Some (acc_alias acc) \<and> ki_platform i = Some (acc_platform acc))))"

lemma load_key_live:
  assumes "load_key d h = Some i"
  shows "live_key d h i"
proof -
  obtain accs pols keys where d: "d = (accs, pols, keys)" by (metis surj_pair)
  obtain row where row: "one_or_none (\<lambda>k. key_hash k = h \<and> key_revoked_at k = None) keys = Some row"
    "ki_id i = key_id row" "ki_scope i = key_scope row" "ki_account_id i = key_account_id row"
    using assms by (auto simp: load_key_def d Let_def split: option.splits if_splits)
  have "key_scope row = ''account'' \<Longrightarrow> \<exists>acc \<in> set accs. acc_is_enabled acc \<and> key_account_id row = Some (acc_id acc) \<and>
      ki_alias i = Some (acc_alias acc) \<and> ki_platform i = Some (acc_platform acc)"
    using load_key_enabled [OF assms [unfolded d]] row(3,4) by auto
  with one_or_none_Some [OF row(1)] row(2-4) show ?thesis
    unfolding live_key_def d by (intro bexI [of _ row]) auto
qed

lemma lookup_live:
  assumes hist: "key_cache.accounted hist s" "(now, db_of s) \<in> hist"
    and ok: "fst (lookup sha s presented now wall) = Some i"
  shows "\<exists>k tm d. presented = Some k \<and> k \<noteq> [] \<and> (tm, d) \<in> hist \<and> now - CACHE_TTL < tm \<and> live_key d (sha k) i"
proof -
  obtain k where k: "presented = Some k" "k \<noteq> []" "fst (cached_key s (sha k) now) = Some i"
    using ok by (rule lookup_cached)
  obtain s1 where s1: "cached_key s (sha k) now = (Some i, s1)" using k(3) by (metis prod.collapse)
  have "0 < CACHE_TTL" by (simp add: CACHE_TTL_def seconds_def)
  with key_cache.read_recent [OF hist s1] obtain tm d where
    "(tm, d) \<in> hist" "now - CACHE_TTL < tm" "load_key d (sha k) = Some i" by auto
  then show ?thesis using k(1,2) load_key_live by blast
qed

subsection \<open>The alias cache is a cached read\<close>

definition alias_entries :: "auth_sys \<Rightarrow> string \<rightharpoonup> (int \<times> string) option \<times> usec" where
  "alias_entries s k = map_option (\<lambda>(ref, e). (Some (split_account_ref ref), e)) (as_alias_cache s k)"

lemma alias_hit:
  "cache_hit (alias_entries s) k now = map_option (\<lambda>ref. Some (split_account_ref ref)) (cache_hit (as_alias_cache s) k now)"
  by (auto simp: cache_hit_def alias_entries_def split: option.splits)

interpretation alias_cache: ttl_read
  "cached_alias True" alias_entries resolve_alias_from_db db_of ALIAS_TTL
proof
  fix s k now v u s'
  show "cache_hit (alias_entries s) k now = Some u \<Longrightarrow> cached_alias True s k now = (v, s') \<Longrightarrow>
      alias_entries s' = alias_entries s"
    and "cache_hit (alias_entries s) k now = Some v \<Longrightarrow> fst (cached_alias True s k now) = v"
    and "cache_hit (alias_entries s) k now = None \<Longrightarrow>
      fst (cached_alias True s k now) = resolve_alias_from_db (db_of s) k"
    by (auto simp: cached_alias_def alias_hit split: option.splits)
  show "cache_hit (alias_entries s) k now = None \<Longrightarrow> cached_alias True s k now = (v, s') \<Longrightarrow>
      alias_entries s' = alias_entries s \<or> alias_entries s' = (alias_entries s)(k \<mapsto> (v, now + ALIAS_TTL))"
    by (auto simp: cached_alias_def alias_hit alias_entries_def fun_eq_iff split: option.splits)
qed

subsection \<open>The audit trail\<close>

lemma digest_entry: "log_status (audit_entry e resp r) = audit_status (status_code resp)"
  by (simp add: audit_entry_def Let_def)

lemma audit_status_denied: "audit_status c = ''denied'' \<longleftrightarrow> c = 403"
  by (simp add: audit_status_def)

lemma guards_audit: "guards e r s = (x, r', s') \<Longrightarrow> as_audit s' = as_audit s"
  unfolding guards_def and_then_def
  by (auto split: prod.splits option.splits dest!: auth_and_https_tables resolve_alias_tables
      admin_auth_keeps platform_dispatch_keeps tool_authz_keeps same_but_modeD(4) simp: same_tables_def)

lemma guards_path:
  assumes "guards e r s = (x, r', s')"
  shows "rq_path r' = rq_path r \<or> under (rq_path r') MAX_INTERNAL_PREFIX"
proof -
  have d: "rq_path r' = rq_path r \<or> under (rq_path r') MAX_INTERNAL_PREFIX"
    if "platform_dispatch e r s = (x, r', s')" for r s x r' s'
    using that under_append [of "rq_path r"] MAX_UNSUPPORTED_under
    by (auto simp: platform_dispatch_def Let_def split: if_splits option.splits)
  show ?thesis
    using assms unfolding guards_def and_then_def
    by (auto split: prod.splits option.splits dest!: auth_and_https_keeps resolve_alias_keeps
        admin_auth_keeps tool_authz_keeps d simp: same_request_def)
qed

subsection \<open>Requests through the whole stack\<close>

lemma reached_by_key:
  assumes g: "guards e r s = (None, r', s')" and fresh: "fresh_req r"
    and path: "rq_path r \<notin> set PUBLIC_PATHS" "\<not> is_admin_path (rq_path r)" "\<not> is_self_auth_path (rq_path r)"
      "rq_path r \<notin> set SKIP_PATHS"
    and key: "cfg_api_key (e_cfg e) \<noteq> []"
  shows "(\<exists>i. \<not> snd (presented_key r) \<and>
        fst (lookup (e_sha e) s (fst (presented_key r)) (e_now e) (e_wall e)) = Some i \<and>
        (if ki_scope i = ''owner'' then under (rq_path r) OWNER_PREFIX \<and> rs_account_id r' = None
         else rs_account_id r' = ki_account_id i \<and> (ki_scope i = ''account'' \<longrightarrow> \<not> under (rq_path r) OWNER_PREFIX))) \<or>
     (cfg_legacy_api_key_enabled (e_cfg e) \<and> fst (presented_key r) = Some (cfg_api_key (e_cfg e)) \<and>
        \<not> under (rq_path r) OWNER_PREFIX)"
proof -
  obtain r1 s1 r2 s2 r3 s3 r4 s4 where
    g: "auth_and_https e r s = (None, r1, s1)" "admin_auth e r1 s1 = (None, r2, s2)"
    "resolve_alias e r2 s2 = (None, r3, s3)" "platform_dispatch e r3 s3 = (None, r4, s4)"
    "tool_authz e r4 s4 = (None, r', s')"
    and k: "same_request r r1" "same_request r r2" "rs_is_admin_path r2 = is_admin_path (rq_path r)"
    using reachedE [OF g fresh] by metis
  define r0 where "r0 = (if header r ''x-forwarded-proto'' = Some ''https'' then r\<lparr>rq_scheme := ''https''\<rparr> else r)"
  have r0: "rq_path r0 = rq_path r" "presented_key r0 = presented_key r" "\<not> rs_legacy_key r0"
    using fresh by (simp_all add: r0_def fresh_req_def)
  have "authenticate e r0 s = (None, r1, s1)" using g(1) by (simp add: auth_and_https_def r0_def)
  note auth = authenticated [OF this r0(3), unfolded r0(1,2), OF path(1,2,3) key]
  have key2: "rs_api_key r2 = rs_api_key r1" using admin_auth_keeps [OF g(2)] by simp
  have acc: "rs_account_id r' = rs_account_id r3"
    using tool_authz_keeps [OF g(5)] platform_dispatch_keeps [OF g(4)] by simp
  have path2: "rq_path r2 = rq_path r" using k(2) by (simp add: same_request_def)
  from auth show ?thesis
  proof
    assume "\<exists>i. rs_api_key r1 = Some i \<and> \<not> snd (presented_key r) \<and>
        fst (lookup (e_sha e) s (fst (presented_key r)) (e_now e) (e_wall e)) = Some i \<and>
        (ki_scope i = ''owner'' \<longrightarrow> under (rq_path r) OWNER_PREFIX) \<and>
        (ki_scope i = ''account'' \<longrightarrow> \<not> under (rq_path r) OWNER_PREFIX)"
    then obtain i where i: "rs_api_key r1 = Some i" "\<not> snd (presented_key r)"
        "fst (lookup (e_sha e) s (fst (presented_key r)) (e_now e) (e_wall e)) = Some i"
        "ki_scope i = ''owner'' \<longrightarrow> under (rq_path r) OWNER_PREFIX"
        "ki_scope i = ''account'' \<longrightarrow> \<not> under (rq_path r) OWNER_PREFIX" by blast
    have "if ki_scope i = ''owner'' then rs_account_id r3 = None \<and> rs_scope r3 = Some ''owner''
      else rs_account_id r3 = ki_account_id i"
      using resolved_by_key [OF g(3)] i(1) key2 k(3) path path2 by simp
    with i acc show ?thesis by (intro disjI1 exI [of _ i]) auto
  qed blast
qed

text \<open>A tool that is known is audited and authorized under its name.\<close>

lemma tool_authz_named:
  assumes "tool_authz e r s = (None, r', s')" and "\<not> rs_is_admin_path r"
    and "or_else (rs_forced_tool_name r) (resolve_route_name e r) = Some t" and "t \<in> set WRITE_MESSENGER_TOOLS"
    and "t \<noteq> []"
  shows "rs_tool_name r' = Some t \<and> rs_tool_is_write r'"
proof -
  have "t \<in> set (READ_ONLY_TOOLS @ WRITE_TOOLS)" using assms(4) by (simp add: WRITE_TOOLS_def)
  moreover have "tool_is_write t = Some True" using assms(4) by (simp add: tool_is_write_True)
  ultimately show ?thesis using assms(1,2,3,5)
    by (auto simp: tool_authz_def Let_def unknown_if_none_def or_else_def split: if_splits prod.splits)
qed

lemma under_max_api:
  assumes "under p MAX_INTERNAL_PREFIX"
  shows "starts_with p ''/api/''" and "p \<notin> set HEALTH_PATHS"
proof -
  obtain q where q: "p = MAX_INTERNAL_PREFIX @ q" using assms by (auto simp: under_def starts_with_iff)
  then show "starts_with p ''/api/''" "p \<notin> set HEALTH_PATHS"
    by (simp_all add: MAX_INTERNAL_PREFIX_def HEALTH_PATHS_def)
qed

text \<open>The request an answer is audited with.\<close>

lemma servedE:
  assumes "serve e route r s = (resp, s')"
    and "\<And>r s resp r' s'. route r s = (resp, r', s') \<Longrightarrow> rq_path r' = rq_path r \<and> as_audit s' = as_audit s"
  obtains r1 s1 where "as_audit s1 = as_audit s" "s' = audit_log_response e resp r1 s1"
    "rq_path r1 = rq_path r \<or> under (rq_path r1) MAX_INTERNAL_PREFIX"
proof -
  obtain x r1 s1 where g: "guards e r s = (x, r1, s1)" by (metis surj_pair)
  note keep = guards_audit [OF g] guards_path [OF g]
  show thesis
  proof (cases x)
    case (Some y)
    then show thesis using assms(1) g keep by (intro that [of s1 r1]) (auto simp: serve_def)
  next
    case None
    obtain y r2 s2 where r: "route r1 s1 = (y, r2, s2)" by (metis surj_pair)
    then show thesis using assms(1) g keep assms(2) [OF r] None
      by (intro that [of s2 r2]) (auto simp: serve_def)
  qed
qed

end
