(* ===== verification/App_Routes_Facts.thy ===== *)
theory App_Routes_Facts
  imports App_Route_Rows Middleware_Facts
begin

text \<open>
  A messenger write that reaches its route is known to the authorization as that write: the
  segments of a path, the rows of the table and the rewriting of MAX requests put together.
\<close>

subsection \<open>A name that resolves has its row\<close>

definition row_serves :: "string list \<times> string list \<times> string \<Rightarrow> string \<Rightarrow> string \<Rightarrow> bool" where
  "row_serves x method path \<longleftrightarrow> (case x of (ms, segs, name) \<Rightarrow>
     segs_match segs (split_slash path) \<and> (method \<in> set ms \<or> method = ''HEAD'' \<and> ''GET'' \<in> set ms))"

lemma resolved_row:
  assumes cp: "compile_sound cp" and r: "resolve (app_table cp) method path = Some n"
  obtains ms segs where "(ms, segs, n) \<in> set app_rows" "row_serves (ms, segs, n) method path"
proof -
  obtain e where e: "e \<in> set (app_table cp)" "entry_matches e method path" "re_name e = n"
    using r by (elim resolve_SomeE) auto
  then obtain prefix rs q where q: "(prefix, rs) \<in> set app_sources" "q \<in> set rs" "route_entry_of cp prefix q = Some e"
    by (auto simp: app_table_def build_table_def List.map_filter_def)
  then obtain template m ms where t: "br_path q = Some template" "br_methods q = Some (m # ms)" "br_name q = Some n"
    "re_methods e = m # ms" "re_regex e = fst (cp (prefix @ template))"
    using e(3) by (auto simp: route_entry_of_def split: option.splits list.splits prod.splits)
  let ?row = "\<lambda>prefix r. (the (br_methods r), split_slash (prefix @ the (br_path r)), the (br_name r))"
  have "?row prefix q \<in> set (case (prefix, rs) of (prefix, rs) \<Rightarrow> map (?row prefix) rs)" using q(2) by simp
  then have "?row prefix q \<in> set app_rows" using q(1) unfolding app_rows_def by (metis (no_types, lifting) UN_I set_concat set_map image_eqI)
  then have "(m # ms, split_slash (prefix @ template), n) \<in> set app_rows" by (simp add: t)
  moreover have "fst (cp (prefix @ template)) path \<noteq> None" using e(2) t(5) by (auto simp: entry_matches_def split: option.splits)
  then have "segs_match (split_slash (prefix @ template)) (split_slash path)"
    using cp q(1,2) t(1) unfolding compile_sound_def by fast
  then have "row_serves (m # ms, split_slash (prefix @ template), n) method path"
    using e(2) t(4) by (auto simp: row_serves_def entry_matches_def split: option.splits)
  ultimately show thesis using that by blast
qed

lemma segs_match_refl: "segs_match ts ts"
  by (induction ts) auto

lemma segs_match_length: "segs_match ts ps \<Longrightarrow> length ps = length ts"
  by (induction ts ps rule: segs_match.induct) auto

text \<open>The shape of a path that a row serves.\<close>

lemma row_serves_shape:
  assumes "x \<in> set app_rows" and "row_serves x method path"
  obtains ms s rest name p ps where "x = (ms, [] # ''api'' # ''v1'' # s # rest, name)"
    "split_slash path = [] # ''api'' # ''v1'' # p # ps" "segs_match (s # rest) (p # ps)"
    "if s = ''_max'' then rest \<noteq> [] \<and> free_segment name (hd rest) else \<not> is_param s \<and> free_segment name s"
proof -
  have ok: "row_ok x" using assms(1) app_rows_ok by (simp add: list_all_iff)
  obtain ms segs name where x: "x = (ms, segs, name)" by (metis surj_pair)
  obtain s rest where s: "segs = [] # ''api'' # ''v1'' # s # rest"
    "if s = ''_max'' then rest \<noteq> [] \<and> free_segment name (hd rest) else \<not> is_param s \<and> free_segment name s"
    using ok unfolding x by (auto elim: row_ok.elims)
  have m: "segs_match ([] # ''api'' # ''v1'' # s # rest) (split_slash path)" using assms(2) by (simp add: row_serves_def x s)
  have "5 \<le> length (split_slash path) \<or> 4 \<le> length (split_slash path)" using segs_match_length [OF m] by simp
  then obtain a b c p ps where ps: "split_slash path = a # b # c # p # ps"
    by (auto simp: numeral_eq_Suc Suc_le_length_iff)
  have "a = []" "b = ''api''" "c = ''v1''" using m by (simp_all add: ps is_param_def)
  then show thesis using m s x ps by (intro that) (simp_all add: ps is_param_def)
qed

subsection \<open>Paths of messenger writes\<close>

definition open_path :: "string \<Rightarrow> bool" where
  "open_path p \<longleftrightarrow> (\<exists>w rest. split_slash p = [] # ''api'' # ''v1'' # w # rest \<and> w \<notin> set RESERVED)"

lemma api_split: "split_slash (''/api/v1/'' @ q) = [] # ''api'' # ''v1'' # split_slash q"
  by simp

lemma max_split: "split_slash (''/api/v1/_max/'' @ q) = [] # ''api'' # ''v1'' # ''_max'' # split_slash q"
  by simp

lemma split_api:
  assumes "split_slash p = [] # ''api'' # ''v1'' # w # rest"
  shows "\<exists>q. p = ''/api/v1/'' @ q \<and> split_slash q = w # rest"
proof -
  have "p = ''/api/v1/'' @ join_slash (w # rest)" using join_split [of p] by (simp add: assms)
  then show ?thesis using assms by (metis api_split list.inject)
qed

lemma under_segment:
  assumes "under p (''/api/v1/'' @ v)" and "CHR ''/'' \<notin> set v"
  shows "\<exists>rest. split_slash p = [] # ''api'' # ''v1'' # v # rest"
proof -
  obtain t where "p = ''/api/v1/'' @ v \<or> p = ''/api/v1/'' @ v @ CHR ''/'' # t"
    using assms(1) by (auto simp: under_def starts_with_iff)
  then show ?thesis using split_append [OF assms(2)] api_split by (metis append_Nil2 list.distinct(1))
qed

lemma open_pathD:
  assumes "open_path p"
  shows "starts_with p (API_PREFIX @ ''/'')" "\<not> is_admin_path p" "\<not> is_self_auth_path p" "p \<notin> set SKIP_PATHS"
    "p \<notin> set PUBLIC_PATHS" "\<not> under p OWNER_PREFIX"
proof -
  obtain w rest where w: "split_slash p = [] # ''api'' # ''v1'' # w # rest" "w \<notin> set RESERVED"
    using assms by (auto simp: open_path_def)
  obtain q where q: "p = ''/api/v1/'' @ q" "split_slash q = w # rest" using split_api [OF w(1)] by blast
  have not: "\<not> under p (''/api/v1/'' @ v)" if "v \<in> set RESERVED" "CHR ''/'' \<notin> set v" for v
    using under_segment [of p v] that w by auto
  show "starts_with p (API_PREFIX @ ''/'')" by (simp add: q API_PREFIX_def starts_with_iff)
  have adm: "\<not> under p a" if "a \<in> set ADMIN_PREFIXES" for a
    using that not [of "''accounts''"] not [of "''admin''"] not [of "''owner-keys''"] not [of "''keys''"]
    by (auto simp: ADMIN_PREFIXES_def RESERVED_def)
  then show "\<not> is_admin_path p" by (auto simp: is_admin_path_def list_ex_iff)
  show "\<not> under p OWNER_PREFIX" using not [of "''people''"] by (simp add: OWNER_PREFIX_def RESERVED_def)
  have "\<not> starts_with p ''/api/v1/files/''" "\<not> starts_with p ''/api/v1/uploads/''"
    using not [of "''files''"] not [of "''uploads''"] by (auto simp: under_def RESERVED_def)
  then show "\<not> is_self_auth_path p" by (simp add: is_self_auth_path_def SELF_AUTH_PREFIXES_def q)
  have "p \<noteq> ''/api/v1/healthz''" "p \<noteq> ''/api/v1/readyz''"
    using not [of "''healthz''"] not [of "''readyz''"] by (auto simp: under_def RESERVED_def)
  then show "p \<notin> set SKIP_PATHS" "p \<notin> set PUBLIC_PATHS" by (simp_all add: SKIP_PATHS_def PUBLIC_PATHS_def q)
qed

lemma free_segment_matches:
  assumes "free_segment n s" "n \<in> set WRITE_MESSENGER_TOOLS" "is_param s \<or> p = s \<or> ps = [] \<and> p = s @ [CHR 0x0A]"
  shows "p \<notin> set RESERVED"
proof -
  have "CHR 0x0A \<notin> set v" if "v \<in> set RESERVED" for v using that by (auto simp: RESERVED_def)
  then have "s @ [CHR 0x0A] \<notin> set RESERVED" by (metis in_set_conv_decomp)
  then show ?thesis using assms by (auto simp: free_segment_def)
qed

text \<open>A write is served at an open path, or at the rewriting of one.\<close>

lemma write_row_path:
  assumes "x \<in> set app_rows" "row_serves x m p" "snd (snd x) \<in> set WRITE_MESSENGER_TOOLS"
  shows "open_path p \<or> (\<exists>q. p = ''/api/v1/_max/'' @ q \<and> open_path (''/api/v1/'' @ q))"
proof -
  obtain ms s rest name w ps where x: "x = (ms, [] # ''api'' # ''v1'' # s # rest, name)"
    "split_slash p = [] # ''api'' # ''v1'' # w # ps" "segs_match (s # rest) (w # ps)"
    "if s = ''_max'' then rest \<noteq> [] \<and> free_segment name (hd rest) else \<not> is_param s \<and> free_segment name s"
    using row_serves_shape [OF assms(1,2)] by metis
  have n: "name \<in> set WRITE_MESSENGER_TOOLS" using assms(3) x(1) by simp
  show ?thesis
  proof (cases "s = ''_max''")
    case True
    then obtain s' rest' where r: "rest = s' # rest'" "free_segment name s'" using x(4) by (cases rest) auto
    obtain w' ps' where ps: "ps = w' # ps'" using x(3) r(1) by (cases ps) auto
    have "w = ''_max''" using x(3) True by (simp add: ps is_param_def)
    then obtain q where q: "p = ''/api/v1/'' @ q" "split_slash q = ''_max'' # ps" using split_api [OF x(2)] by blast
    then have "q = ''_max/'' @ join_slash ps" using join_split [of q] by (simp add: ps)
    then have p: "p = ''/api/v1/_max/'' @ join_slash ps" by (simp add: q)
    then have sp: "split_slash (join_slash ps) = ps" using x(2) by (simp add: \<open>w = _\<close>)
    have "w' \<notin> set RESERVED" using free_segment_matches [OF r(2) n, of w' ps'] x(3) by (simp add: r(1) ps)
    then have "open_path (''/api/v1/'' @ join_slash ps)" by (simp add: open_path_def sp ps [symmetric]) (simp add: ps)
    then show ?thesis using p by blast
  next
    case False
    then have "w \<notin> set RESERVED" using free_segment_matches [OF _ n, of s w ps] x(3,4) by simp
    then show ?thesis using x(2) by (simp add: open_path_def)
  qed
qed

text \<open>A MAX route of a write that Telegram has too answers to the name of the Telegram route.\<close>

lemma rows_agree:
  assumes t: "(ms', segs', name') \<in> set app_rows" "row_serves (ms', segs', name') m (''/api/v1/'' @ q)"
    and x: "(ms, segs, name) \<in> set app_rows" "row_serves (ms, segs, name) m (''/api/v1/_max/'' @ q)"
    and n: "name \<in> set WRITE_MESSENGER_TOOLS" "name \<notin> set MAX_ONLY_TOOLS"
    and q: "\<not> under (''/api/v1/'' @ q) MAX_INTERNAL_PREFIX"
  shows "name' = name"
proof -
  have lines: "one_line segs" "one_line segs'" using t(1) x(1) app_rows_one_line by (auto simp: list_all_iff)
  obtain s' rest' w' ps' where t': "segs' = [] # ''api'' # ''v1'' # s' # rest'"
    "split_slash q = w' # ps'" "segs_match (s' # rest') (w' # ps')" "s' = ''_max'' \<longrightarrow> rest' \<noteq> []"
    by (rule row_serves_shape [OF t]) (use api_split [of q] in \<open>auto split: if_splits\<close>)
  obtain s rest w ps where x': "segs = [] # ''api'' # ''v1'' # s # rest" "w # ps = ''_max'' # split_slash q" "segs_match (s # rest) (w # ps)"
    "if s = ''_max'' then rest \<noteq> [] else \<not> is_param s"
    by (rule row_serves_shape [OF x]) (use max_split [of q] in \<open>auto split: if_splits\<close>)
  have s: "s = ''_max''" using x'(2-4) t'(2) by (auto split: if_splits)
  have "s' \<noteq> ''_max''"
  proof
    assume a: "s' = ''_max''"
    then obtain u us where u: "rest' = u # us" using t'(4) by (cases rest') auto
    then obtain v vs where v: "ps' = v # vs" using t'(3) by (cases ps') auto
    have "w' = ''_max''" using t'(3) by (simp add: a u v is_param_def)
    then have "q = ''_max/'' @ join_slash ps'" using join_split [of q] t'(2) by (simp add: v)
    then show False using q by (auto simp: under_def MAX_INTERNAL_PREFIX_def starts_with_iff)
  qed
  then have tg: "(ms', map pattern (drop 3 segs'), name') \<in> set tg_patterns"
    using t(1) unfolding tg_patterns_eq [symmetric] by (force simp: row_pattern_def t'(1))
  have mx: "(ms, map pattern (drop 4 segs), name) \<in> set max_write_patterns"
    using x(1) n unfolding max_write_patterns_eq [symmetric] by (force simp: row_pattern_def x'(1) s)
  have "segs_match (drop 3 segs') (split_slash q)" "segs_match (drop 4 segs) (split_slash q)"
    using t'(1-3) x'(1-3) by (auto simp: s)
  moreover have "one_line (drop 3 segs')" "one_line (drop 4 segs)" using lines by (auto simp: one_line_def t'(1) x'(1))
  ultimately have meet: "pats_meet (map pattern (drop 4 segs)) (map pattern (drop 3 segs'))" using pats_meet_both by blast
  have "''HEAD'' \<notin> set ms" "''GET'' \<notin> set ms" using mx max_write_methods by (auto simp: list_all_iff)
  then have "m \<in> set ms" "m \<in> set ms'" using t(2) x(2) by (auto simp: row_serves_def)
  moreover have "patterns_agree (ms, map pattern (drop 4 segs), name) (ms', map pattern (drop 3 segs'), name')"
    using patterns_agree_all tg mx unfolding list_all_iff by blast
  ultimately show ?thesis using meet by (auto simp: list_all_iff)
qed

subsection \<open>A write that is routed is known as that write\<close>

lemma dispatch_cases:
  assumes "platform_dispatch e r s = (None, r', s')"
  obtains (kept) "r' = r" "rs_is_admin_path r \<or> \<not> under (rq_path r) MAX_INTERNAL_PREFIX"
  | (moved) tool where "starts_with (rq_path r) (API_PREFIX @ ''/'')" "\<not> under (rq_path r) MAX_INTERNAL_PREFIX"
      "or_else (max_only_tool e r) (resolve_route_name e r) = Some tool" "rs_forced_tool_name r' = Some tool"
      "rq_method r' = rq_method r"
      "rq_path r' = MAX_INTERNAL_PREFIX @ drop (length API_PREFIX) (rq_path r) \<or> rq_path r' = MAX_UNSUPPORTED_PATH"
  using assms by (auto simp: platform_dispatch_def Let_def split: if_splits option.splits)

lemma resolved_write:
  assumes "compile_sound cp" "resolve (app_table cp) m p = Some n" "n \<in> set WRITE_MESSENGER_TOOLS"
  shows "(open_path p \<or> (\<exists>q. p = ''/api/v1/_max/'' @ q \<and> open_path (''/api/v1/'' @ q))) \<and> p \<noteq> MAX_UNSUPPORTED_PATH"
proof -
  obtain ms segs where x: "(ms, segs, n) \<in> set app_rows" "row_serves (ms, segs, n) m p"
    using resolved_row [OF assms(1,2)] by blast
  have "p \<noteq> MAX_UNSUPPORTED_PATH"
    using x unsupported_is_no_write assms(3)
    by (auto simp: list_all_iff row_serves_def MAX_UNSUPPORTED_PATH_def MAX_INTERNAL_PREFIX_def)
  then show ?thesis using write_row_path [OF x] assms(3) by simp
qed

lemma rewritten_path:
  assumes "starts_with p (API_PREFIX @ ''/'')"
  obtains q where "p = ''/api/v1/'' @ q" "MAX_INTERNAL_PREFIX @ drop (length API_PREFIX) p = ''/api/v1/_max/'' @ q"
  using assms by (auto simp: starts_with_iff API_PREFIX_def MAX_INTERNAL_PREFIX_def)

lemma max_not_open: "\<not> open_path (''/api/v1/_max/'' @ q)"
  by (simp add: open_path_def RESERVED_def)

lemma routed_write:
  assumes cp: "compile_sound cp" and g: "guards e r s = (None, r', s')" and fresh: "fresh_req r"
    and table: "e_table e = Some (app_table cp)"
    and n: "resolve (app_table cp) (rq_method r') (rq_path r') = Some n" "n \<in> set WRITE_MESSENGER_TOOLS"
  shows "open_path (rq_path r) \<and> rs_tool_name r' = Some n \<and> rs_tool_is_write r'"
proof -
  obtain r3 s3 r4 s4 where g: "platform_dispatch e r3 s3 = (None, r4, s4)" "tool_authz e r4 s4 = (None, r', s')"
    "same_request r r3" "same_request r4 r'" "rs_is_admin_path r3 = is_admin_path (rq_path r)"
    "rs_is_admin_path r4 = is_admin_path (rq_path r)" "rs_forced_tool_name r3 = None"
    using reachedE [OF g fresh] by metis
  have p: "rq_path r3 = rq_path r" "rq_path r' = rq_path r4" "rq_method r' = rq_method r4"
    using g(3,4) by (simp_all add: same_request_def)
  note n4 = n(1) [unfolded p(2,3)]
  have "[] \<notin> set WRITE_MESSENGER_TOOLS" by code_simp
  then have ne: "n \<noteq> []" using n(2) by auto
  note w = resolved_write [OF cp n4 n(2)]
  have "open_path (rq_path r) \<and> or_else (rs_forced_tool_name r4) (resolve_route_name e r4) = Some n"
    using g(1)
  proof (cases rule: dispatch_cases)
    case kept
    have "\<not> is_admin_path (''/api/v1/_max/'' @ q)" for q
    proof -
      have "\<not> under (''/api/v1/_max/'' @ q) a" if "a \<in> set ADMIN_PREFIXES" for a
        using that under_segment [of "''/api/v1/_max/'' @ q"] by (auto simp: ADMIN_PREFIXES_def under_def starts_with_iff)
      then show ?thesis by (auto simp: is_admin_path_def list_ex_iff)
    qed
    moreover have "under (''/api/v1/_max/'' @ q) MAX_INTERNAL_PREFIX" for q
      by (simp add: under_def MAX_INTERNAL_PREFIX_def starts_with_iff)
    ultimately have "open_path (rq_path r)" using w kept g(5) p(1) by auto
    then show ?thesis using n4 kept(1) g(7) table by (simp add: or_else_def resolve_route_name_def)
  next
    case (moved tool)
    obtain q where q: "rq_path r3 = ''/api/v1/'' @ q"
      "MAX_INTERNAL_PREFIX @ drop (length API_PREFIX) (rq_path r3) = ''/api/v1/_max/'' @ q"
      using rewritten_path [OF moved(1)] by blast
    have r4: "rq_path r4 = ''/api/v1/_max/'' @ q" using moved(6) w q(2) by auto
    then have o': "open_path (rq_path r)" using w max_not_open q(1) p(1) by auto
    have n': "resolve (app_table cp) (rq_method r3) (''/api/v1/_max/'' @ q) = Some n" using n4 r4 moved(5) by simp
    have "tool = n"
    proof (cases "n \<in> set MAX_ONLY_TOOLS")
      case True
      then have "max_only_tool e r3 = Some n" using n' by (simp add: max_only_tool_def table q(2))
      then show ?thesis using moved(3) ne by (simp add: or_else_def)
    next
      case False
      then have "max_only_tool e r3 = None" using n' by (simp add: max_only_tool_def table q(2))
      then have t: "resolve (app_table cp) (rq_method r3) (''/api/v1/'' @ q) = Some tool"
        using moved(3) by (simp add: or_else_def resolve_route_name_def table q(1))
      obtain ms segs ms' segs' where rows: "(ms, segs, n) \<in> set app_rows" "row_serves (ms, segs, n) (rq_method r3) (''/api/v1/_max/'' @ q)"
        "(ms', segs', tool) \<in> set app_rows" "row_serves (ms', segs', tool) (rq_method r3) (''/api/v1/'' @ q)"
        using resolved_row [OF cp n'] resolved_row [OF cp t] by metis
      show ?thesis using rows_agree [OF rows(3,4,1,2) n(2) False] moved(2) q(1) by simp
    qed
    then show ?thesis using o' moved(4) by (simp add: or_else_def ne)
  qed
  then show ?thesis
    using tool_authz_named [OF g(2) _ _ n(2) ne] g(6) open_pathD(2) by auto
qed

subsection \<open>A write has an account\<close>

text \<open>The key table's CHECK (\<^verbatim>\<open>alembic/versions/010\<close>): a key is an account's or the owner's.\<close>

definition scopes_ok :: "auth_db \<Rightarrow> bool" where
  "scopes_ok d \<longleftrightarrow> (\<forall>k \<in> set (snd (snd d)). key_scope k \<in> {''account'', ''owner''})"

lemma authenticated_info:
  assumes "authenticate e r s = (None, r', s')"
    and "rq_path r \<notin> set PUBLIC_PATHS" "\<not> is_admin_path (rq_path r)" "\<not> is_self_auth_path (rq_path r)"
    and "rs_api_key r' = Some i"
  shows "fst (lookup (e_sha e) s (fst (presented_key r)) (e_now e) (e_wall e)) = Some i \<and>
    (ki_scope i = ''owner'' \<longrightarrow> under (rq_path r) OWNER_PREFIX)"
  using assms by (auto simp: authenticate_def Let_def split: if_splits option.splits prod.splits)

lemma routed_account:
  assumes g: "guards e r s = (None, r', s')" and fresh: "fresh_req r" and path: "open_path (rq_path r)"
    and hist: "key_cache.accounted hist s" "(e_now e, db_of s) \<in> hist" "\<forall>x \<in> hist. scopes_ok (snd x)"
  shows "\<exists>a. rs_account_id r' = Some a"
proof -
  obtain r1 s1 r2 s2 r3 s3 r4 s4 where
    g: "auth_and_https e r s = (None, r1, s1)" "admin_auth e r1 s1 = (None, r2, s2)"
    "resolve_alias e r2 s2 = (None, r3, s3)" "platform_dispatch e r3 s3 = (None, r4, s4)"
    "tool_authz e r4 s4 = (None, r', s')"
    and k: "same_request r r1" "same_request r r2" "rs_is_admin_path r2 = is_admin_path (rq_path r)"
    using reachedE [OF g fresh] by metis
  note p = open_pathD [OF path]
  have p2: "rq_path r2 = rq_path r" using k(2) by (simp add: same_request_def)
  define r0 where "r0 = (if header r ''x-forwarded-proto'' = Some ''https'' then r\<lparr>rq_scheme := ''https''\<rparr> else r)"
  have r0: "rq_path r0 = rq_path r" by (simp add: r0_def)
  have a0: "authenticate e r0 s = (None, r1, s1)" using g(1) by (simp add: auth_and_https_def r0_def)
  have key2: "rs_api_key r2 = rs_api_key r1" using admin_auth_keeps [OF g(2)] by simp
  have "\<exists>a. rs_account_id r3 = Some a"
  proof (cases "rs_api_key r1")
    case None
    then show ?thesis using resolved_by_alias [OF g(3)] p p2 k(3) key2 by auto
  next
    case (Some i)
    note info = authenticated_info [OF a0, unfolded r0, OF p(5,2,3) Some]
    then have own: "ki_scope i \<noteq> ''owner''" using p(6) by blast
    obtain h tm d where live: "(tm, d) \<in> hist" "live_key d h i"
      using lookup_live [OF hist(1,2)] info by metis
    then obtain row where "row \<in> set (snd (snd d))" "ki_scope i = key_scope row" "ki_account_id i = key_account_id row"
      "key_scope row = ''account'' \<longrightarrow> key_account_id row \<noteq> None" by (auto simp: live_key_def)
    moreover have "scopes_ok d" using hist(3) live(1) by auto
    ultimately have "\<exists>a. ki_account_id i = Some a" using own by (auto simp: scopes_ok_def)
    then show ?thesis using resolved_by_key [OF g(3)] p p2 k(3) key2 Some own by auto
  qed
  then show ?thesis using tool_authz_keeps [OF g(5)] platform_dispatch_keeps [OF g(4)] by simp
qed

end
