(* ===== verification/Accounts_Admin.thy ===== *)
theory Accounts_Admin
  imports Middleware
begin

text \<open>
  The administrator's account endpoints (\<^verbatim>\<open>app/api/accounts.py\<close>): creation, the partial
  update, the soft delete, the audit listing. The answer of an operation is the account row (its
  serialisation with the runtime of the session pools is left out); sessions to stop in the pools
  are returned as a list of aliases. Creating the data partitions is an SQL function: it works or
  raises (\<open>partitions_ok\<close>).
\<close>

datatype acc_error =
    Invalid_body
  | Acc_http int string
  | Acc_db_error

definition VALID_MODES :: "string list" where
  "VALID_MODES = [''rw'', ''ro'']"

record account_create =
  cr_alias :: string
  cr_phone :: string
  cr_mode :: string
  cr_display_name :: "string option"
  cr_notes :: "string option"
  cr_watch_chat_ids :: "int list option"
  cr_platform :: string

text \<open>
  \<^verbatim>\<open>^\+\d{7,15}$\<close>: the dollar also matches before a final newline.
\<close>

definition phone_re :: "string \<Rightarrow> bool" where
  "phone_re v =
    (let v' = (if v \<noteq> [] \<and> last v = CHR 0x0A then butlast v else v)
     in case v' of
          [] \<Rightarrow> False
        | c # ds \<Rightarrow> c = CHR ''+'' \<and> list_all is_digit ds \<and> 7 \<le> length ds \<and> length ds \<le> 15)"

definition valid_create :: "account_create \<Rightarrow> bool" where
  "valid_create b \<longleftrightarrow> phone_re (cr_phone b) \<and> cr_mode b \<in> set VALID_MODES \<and>
     cr_platform b \<in> {''telegram'', ''max''}"

definition new_account :: "int \<Rightarrow> account_create \<Rightarrow> account" where
  "new_account i b = \<lparr>acc_id = i, acc_alias = cr_alias b, acc_phone = cr_phone b, acc_mode = cr_mode b,
     acc_is_enabled = True, acc_platform = cr_platform b, acc_platform_user_id = None,
     acc_write_chat_ids = None, acc_write_rate_per_hour = None, acc_external_user_id = None,
     acc_tg_user_id = None, acc_display_name = cr_display_name b,
     acc_watch_chat_ids = (if cr_platform b = ''telegram'' then cr_watch_chat_ids b else None),
     acc_notes = cr_notes b\<rparr>"

text \<open>The created row with the warning about the first mode of a MAX account. A number drawn from
  the sequence is lost with the failed transaction.\<close>

definition create_account ::
    "bool \<Rightarrow> auth_sys \<Rightarrow> account_create \<Rightarrow> (acc_error + account \<times> bool) \<times> auth_sys" where
  "create_account partitions_ok s b =
    (if \<not> valid_create b then (Inl Invalid_body, s)
     else
      (let i = as_next_account s; s1 = s\<lparr>as_next_account := i + 1\<rparr>
       in if list_ex (\<lambda>a. acc_alias a = cr_alias b) (as_accounts s)
          then (Inl (Acc_http 409 (''Account with alias '' @ quoted (cr_alias b) @ '' already exists'')), s1)
          else if \<not> partitions_ok then (Inl Acc_db_error, s1)
          else (Inr (new_account i b, cr_platform b = ''max'' \<and> cr_mode b \<noteq> ''ro''),
             s1\<lparr>as_accounts := as_accounts s @ [new_account i b]\<rparr>)))"

definition list_accounts :: "auth_sys \<Rightarrow> bool \<Rightarrow> account list" where
  "list_accounts s include_disabled =
     sort_key acc_id (filter (\<lambda>a. include_disabled \<or> acc_is_enabled a) (as_accounts s))"

definition not_found :: "int \<Rightarrow> acc_error" where
  "not_found a = Acc_http 404 (''Account '' @ show_int a @ '' not found'')"

definition get_account :: "auth_sys \<Rightarrow> int \<Rightarrow> acc_error + account" where
  "get_account s a = (case account_by_id (as_accounts s) a of None \<Rightarrow> Inl (not_found a) | Some acc \<Rightarrow> Inr acc)"

text \<open>A field of the patch is None when it is absent or null; two fields tell these apart.\<close>

record account_patch =
  pt_mode :: "string option"
  pt_display_name :: "string option"
  pt_notes :: "string option"
  pt_watch_chat_ids :: "int list option"
  pt_is_enabled :: "bool option"
  pt_write_chat_ids :: "int list option option"
  pt_write_rate_per_hour :: "int option option"
  pt_alias :: "string option"
  pt_phone :: "string option"
  pt_platform :: "string option"

definition valid_patch :: "account_patch \<Rightarrow> bool" where
  "valid_patch p \<longleftrightarrow> (case pt_mode p of None \<Rightarrow> True | Some m \<Rightarrow> m \<in> set VALID_MODES) \<and>
     (case pt_write_rate_per_hour p of Some (Some n) \<Rightarrow> 1 \<le> n \<and> n \<le> 200 | _ \<Rightarrow> True)"

definition default_to :: "'a \<Rightarrow> 'a option \<Rightarrow> 'a" where
  "default_to d x = (case x of None \<Rightarrow> d | Some v \<Rightarrow> v)"

definition patched :: "account_patch \<Rightarrow> account \<Rightarrow> account" where
  "patched p a = a\<lparr>acc_mode := default_to (acc_mode a) (pt_mode p),
     acc_display_name := (case pt_display_name p of None \<Rightarrow> acc_display_name a | Some n \<Rightarrow> Some n),
     acc_notes := (case pt_notes p of None \<Rightarrow> acc_notes a | Some n \<Rightarrow> Some n),
     acc_watch_chat_ids := (case pt_watch_chat_ids p of None \<Rightarrow> acc_watch_chat_ids a | Some w \<Rightarrow> Some w),
     acc_is_enabled := default_to (acc_is_enabled a) (pt_is_enabled p),
     acc_write_chat_ids := default_to (acc_write_chat_ids a) (pt_write_chat_ids p),
     acc_write_rate_per_hour := default_to (acc_write_rate_per_hour a) (pt_write_rate_per_hour p)\<rparr>"

definition patch_account ::
    "auth_sys \<Rightarrow> int \<Rightarrow> account_patch \<Rightarrow> (acc_error + account) \<times> auth_sys \<times> string list" where
  "patch_account s i p =
    (if \<not> valid_patch p then (Inl Invalid_body, s, [])
     else if pt_alias p \<noteq> None \<or> pt_phone p \<noteq> None then
       (Inl (Acc_http 400 ''alias and phone cannot be changed via PATCH (would break session linkage)''), s, [])
     else if pt_platform p \<noteq> None then (Inl (Acc_http 400 ''platform cannot be changed via PATCH''), s, [])
     else
      (case account_by_id (as_accounts s) i of
         None \<Rightarrow> (Inl (not_found i), s, [])
       | Some acc \<Rightarrow>
          (let s1 = s\<lparr>as_accounts := update_rows (\<lambda>a. acc_id a = i) (patched p) (as_accounts s)\<rparr>;
               s2 = invalidate_alias_cache (Some (acc_alias acc)) s1
           in (Inr (patched p acc), s2,
               if pt_is_enabled p = Some False \<and> acc_is_enabled acc then [acc_alias acc] else []))))"

definition empty_patch :: account_patch where
  "empty_patch = \<lparr>pt_mode = None, pt_display_name = None, pt_notes = None, pt_watch_chat_ids = None,
     pt_is_enabled = None, pt_write_chat_ids = None, pt_write_rate_per_hour = None, pt_alias = None,
     pt_phone = None, pt_platform = None\<rparr>"

definition delete_account :: "auth_sys \<Rightarrow> int \<Rightarrow> (acc_error + account) \<times> auth_sys \<times> string list" where
  "delete_account s i = patch_account s i (empty_patch\<lparr>pt_is_enabled := Some False\<rparr>)"

definition get_account_audit ::
    "auth_sys \<Rightarrow> int \<Rightarrow> nat \<Rightarrow> string option \<Rightarrow> string option \<Rightarrow> acc_error + audit_log list" where
  "get_account_audit s a limit tool st =
    (if 1000 < limit then Inl Invalid_body
     else if account_by_id (as_accounts s) a = None then Inl (not_found a)
     else if (case or_else st None of None \<Rightarrow> False | Some x \<Rightarrow> x \<notin> {''ok'', ''denied'', ''error''})
     then Inl (Acc_http 400 ''status must be ok, denied or error'')
     else Inr (take limit (rev (sort_key log_ts (filter (\<lambda>l. log_account_id l = Some a \<and>
        (case or_else tool None of None \<Rightarrow> True | Some t \<Rightarrow> log_tool l = t) \<and>
        (case or_else st None of None \<Rightarrow> True | Some x \<Rightarrow> log_status l = x)) (as_audit s))))))"

subsection \<open>Facts of the patch\<close>

lemma patch_accountE:
  assumes "patch_account s i p = (Inr acc', s', stops)"
  obtains acc where "account_by_id (as_accounts s) i = Some acc" "acc' = patched p acc"
    "as_accounts s' = update_rows (\<lambda>a. acc_id a = i) (patched p) (as_accounts s)"
    "as_alias_cache s' = (as_alias_cache s)(acc_alias acc := None)"
    "as_key_cache s' = as_key_cache s" "as_mode_cache s' = as_mode_cache s" "as_keys s' = as_keys s"
    "stops = (if pt_is_enabled p = Some False \<and> acc_is_enabled acc then [acc_alias acc] else [])"
  using assms
  by (auto simp: patch_account_def Let_def invalidate_alias_cache_def split: if_splits option.splits)

end
