(* ===== verification/Middleware_Props.thy ===== *)
theory Middleware_Props
  imports App_Routes_Facts Accounts_Admin
begin

text \<open>
  The properties of the authorization stack, with runs on a small installation: two accounts,
  two routes, a per-account key.
\<close>

subsection \<open>A small installation\<close>

definition acme_account :: "int \<Rightarrow> string \<Rightarrow> string \<Rightarrow> string \<Rightarrow> account" where
  "acme_account i alias mode platform = \<lparr>acc_id = i, acc_alias = alias, acc_phone = ''+70000000'',
     acc_mode = mode, acc_is_enabled = True, acc_platform = platform, acc_platform_user_id = None,
     acc_write_chat_ids = None, acc_write_rate_per_hour = None, acc_external_user_id = None,
     acc_tg_user_id = None, acc_display_name = None, acc_watch_chat_ids = None, acc_notes = None\<rparr>"

definition acme_entry :: "string \<Rightarrow> string \<Rightarrow> string \<Rightarrow> route_entry" where
  "acme_entry method path name = \<lparr>re_path = path, re_methods = [method], re_name = name,
     re_regex = (\<lambda>p. if p = path then Some [] else None), re_convertors = (\<lambda>_ _. True)\<rparr>"

definition acme_table :: route_table where
  "acme_table = [acme_entry ''POST'' ''/api/v1/messages'' ''send_message'',
     acme_entry ''GET'' ''/api/v1/messages'' ''list_messages'',
     acme_entry ''POST'' ''/api/v1/_max/messages'' ''send_message'']"

definition acme_env :: env where
  "acme_env = \<lparr>e_cfg = \<lparr>cfg_admin_api_key = ''adm'', cfg_api_key = ''shared'',
       cfg_legacy_api_key_enabled = True, cfg_require_account = True\<rparr>,
     e_table = Some acme_table, e_sha = (\<lambda>k. k), e_loads = (\<lambda>_. None), e_dumps = (\<lambda>_. []),
     e_alias_db_ok = True, e_now = seconds 100, e_wall = seconds 1000\<rparr>"

definition acme_key :: api_key where
  "acme_key = \<lparr>key_id = 5, key_scope = ''account'', key_account_id = Some 2, key_hash = ''k2'',
     key_label = None, key_created_at = Some 0, key_last_used_at = None, key_revoked_at = None\<rparr>"

definition acme_sys :: auth_sys where
  "acme_sys = \<lparr>as_accounts = [acme_account 1 ''work'' ''ro'' ''telegram'', acme_account 2 ''max1'' ''rw'' ''max''],
     as_next_account = 3, as_policies = [], as_keys = [acme_key], as_next_key = 6, as_audit = [],
     as_alias_cache = (\<lambda>_. None), as_mode_cache = (\<lambda>_. None), as_key_cache = (\<lambda>_. None),
     as_touched = (\<lambda>_. None)\<rparr>"

definition acme_req :: "string \<Rightarrow> string \<Rightarrow> (string \<times> string) list \<Rightarrow> (string \<times> string) list \<Rightarrow> req" where
  "acme_req method path headers query = \<lparr>rq_method = method, rq_path = path, rq_scheme = ''http'',
     rq_headers = headers, rq_query = query, rq_path_params = [], rq_body = [], rs_is_admin_path = False,
     rs_session_alias = None, rs_account_id = None, rs_platform = None, rs_scope = None,
     rs_tool_name = None, rs_tool_is_write = False, rs_forced_tool_name = None,
     rs_max_rewritten = False, rs_api_key = None, rs_legacy_key = False, rs_implicit_work = False,
     rs_audit_target = None\<rparr>"

definition acme_send :: req where
  "acme_send = acme_req ''POST'' ''/api/v1/messages'' [(''x-api-key'', ''k2'')] []"

lemma acme_send_fresh: "fresh_req acme_send"
  by (simp add: acme_send_def acme_req_def fresh_req_def)

lemma acme_send_paths:
  "\<not> is_admin_path (rq_path acme_send)" "\<not> is_self_auth_path (rq_path acme_send)"
  "rq_path acme_send \<notin> set PUBLIC_PATHS" "rq_path acme_send \<notin> set SKIP_PATHS"
  "starts_with (rq_path acme_send) (API_PREFIX @ ''/'')"
  by code_simp+

text \<open>The send of the MAX account reaches the router.\<close>

definition acme_reached :: req where
  "acme_reached = fst (snd (guards acme_env acme_send acme_sys))"

definition acme_after :: auth_sys where
  "acme_after = snd (snd (guards acme_env acme_send acme_sys))"

lemma acme_passes: "fst (guards acme_env acme_send acme_sys) = None"
  by code_simp

lemma acme_run: "guards acme_env acme_send acme_sys = (None, acme_reached, acme_after)"
  using acme_passes by (simp add: acme_reached_def acme_after_def prod_eq_iff)

lemma acme_reached_sel:
  "rs_tool_name acme_reached = Some ''send_message''" "rs_account_id acme_reached = Some 2"
  "rq_path acme_reached = ''/api/v1/_max/messages''" "rs_platform acme_reached = Some ''max''"
  unfolding acme_reached_def by code_simp+


subsection \<open>Read-only accounts\<close>

text \<open>
  C8 Read-only accounts do not write to a messenger. Whatever the request (any headers, any
  state of the caches), if it reaches the router as a messenger write of an account that no
  policy exempts, then no policy denies the tool and the account was not read-only at some
  moment of the last ten seconds: once an account has been read-only for ten seconds, no
  messenger write of it passes. Administrator paths, which are no tools, are apart.
\<close>

theorem ro_account_cannot_write:
  assumes "guards e r s = (None, r', s')" and "fresh_req r" and "\<not> is_admin_path (rq_path r)"
    and "rs_tool_name r' = Some t" and "t \<in> set WRITE_MESSENGER_TOOLS" and "rs_account_id r' = Some a"
    and exempt: "get_tool_policy s a t \<noteq> Some ''allow''"
    and hist: "mode_cache.accounted hist s" "(e_now e, db_of s) \<in> hist"
  shows "get_tool_policy s a t \<noteq> Some ''deny'' \<and>
    (\<exists>tm d. (tm, d) \<in> hist \<and> e_now e - ALIAS_TTL < tm \<and> load_mode d a \<noteq> ''ro'')"
proof -
  note w = reached_write [OF assms(1-6)]
  obtain m s1 where m: "get_account_mode s a (e_now e) = (m, s1)" by (rule prod.exhaust)
  have "0 < ALIAS_TTL" by (simp add: ALIAS_TTL_def seconds_def)
  with mode_cache.read_recent [OF hist m] w(1,2) exempt m show ?thesis by auto
qed

theorem ro_account_cannot_write_witness:
  "\<exists>tm d. (tm, d) \<in> {(seconds 100, db_of acme_sys)} \<and> seconds 100 - ALIAS_TTL < tm \<and> load_mode d 2 \<noteq> ''ro''"
proof -
  have "mode_cache.accounted {(seconds 100, db_of acme_sys)} acme_sys"
    by (rule mode_cache.accounted_empty) (simp add: acme_sys_def)
  then show ?thesis
    using ro_account_cannot_write [OF acme_run acme_send_fresh acme_send_paths(1) acme_reached_sel(1) _ acme_reached_sel(2),
        of "{(seconds 100, db_of acme_sys)}"]
    by (simp add: acme_env_def acme_sys_def get_tool_policy_def one_or_none_def WRITE_MESSENGER_TOOLS_def)
qed

subsection \<open>Messenger writes\<close>











subsection \<open>Platforms\<close>

text \<open>
  A MAX request never reaches a Telegram route, and a Telegram request never a MAX route. An
  API request that reaches the router did not name the internal prefix itself; if its platform is
  MAX its path now lies under the internal prefix, otherwise the path is the one requested.
\<close>

theorem platforms_are_kept_apart:
  assumes "guards e r s = (None, r', s')" and "fresh_req r"
    and "starts_with (rq_path r) (API_PREFIX @ ''/'')" and "rq_path r \<notin> set SKIP_PATHS"
    and "\<not> is_admin_path (rq_path r)"
  shows "\<not> under (rq_path r) MAX_INTERNAL_PREFIX \<and>
    (if platform_of r' = ''max'' then under (rq_path r') MAX_INTERNAL_PREFIX else rq_path r' = rq_path r)"
  by (rule reached_platform [OF assms])

theorem platforms_are_kept_apart_witness:
  "under (rq_path acme_reached) MAX_INTERNAL_PREFIX"
  using platforms_are_kept_apart [OF acme_run acme_send_fresh acme_send_paths(5,4,1)] acme_reached_sel(4)
  by (simp add: platform_of_def)

subsection \<open>Keys\<close>

text \<open>
  C10 Who passes. With a shared key configured, an API request outside the public, administrator
  and self-authenticating paths passes the guards only with a key from a header or with the
  shared key while it is still accepted (never on the contacts paths). The key from the header was
  live at some moment of the last 60 seconds, which is how long a lookup is cached: its row was in
  the key table and not revoked, and if it is an account's key, the account existed and was enabled.
  An owner key passes on the contacts paths only and without account, an account key on the other
  paths only, and then the request runs on the account of that row, whatever alias it names.
\<close>

theorem only_live_keys_pass:
  assumes g: "guards e r s = (None, r', s')" and fresh: "fresh_req r"
    and path: "rq_path r \<notin> set PUBLIC_PATHS" "\<not> is_admin_path (rq_path r)" "\<not> is_self_auth_path (rq_path r)"
      "rq_path r \<notin> set SKIP_PATHS"
    and key: "cfg_api_key (e_cfg e) \<noteq> []"
    and hist: "key_cache.accounted hist s" "(e_now e, db_of s) \<in> hist"
  shows "(\<exists>k tm accs pols keys row. presented_key r = (Some k, False) \<and>
        (tm, (accs, pols, keys)) \<in> hist \<and> e_now e - CACHE_TTL < tm \<and>
        row \<in> set keys \<and> key_hash row = e_sha e k \<and> key_revoked_at row = None \<and>
        (if key_scope row = ''owner'' then under (rq_path r) OWNER_PREFIX \<and> rs_account_id r' = None
         else rs_account_id r' = key_account_id row \<and>
           (key_scope row = ''account'' \<longrightarrow> \<not> under (rq_path r) OWNER_PREFIX \<and>
              (\<exists>acc \<in> set accs. acc_is_enabled acc \<and> key_account_id row = Some (acc_id acc))))) \<or>
     (cfg_legacy_api_key_enabled (e_cfg e) \<and> fst (presented_key r) = Some (cfg_api_key (e_cfg e)) \<and>
        \<not> under (rq_path r) OWNER_PREFIX)"
  using reached_by_key [OF g fresh path key]
proof
  assume "\<exists>i. \<not> snd (presented_key r) \<and>
        fst (lookup (e_sha e) s (fst (presented_key r)) (e_now e) (e_wall e)) = Some i \<and>
        (if ki_scope i = ''owner'' then under (rq_path r) OWNER_PREFIX \<and> rs_account_id r' = None
         else rs_account_id r' = ki_account_id i \<and> (ki_scope i = ''account'' \<longrightarrow> \<not> under (rq_path r) OWNER_PREFIX))"
  then obtain i where i: "\<not> snd (presented_key r)"
    "fst (lookup (e_sha e) s (fst (presented_key r)) (e_now e) (e_wall e)) = Some i"
    "if ki_scope i = ''owner'' then under (rq_path r) OWNER_PREFIX \<and> rs_account_id r' = None
     else rs_account_id r' = ki_account_id i \<and> (ki_scope i = ''account'' \<longrightarrow> \<not> under (rq_path r) OWNER_PREFIX)" by blast
  obtain k tm d where k: "fst (presented_key r) = Some k" "(tm, d) \<in> hist" "e_now e - CACHE_TTL < tm" "live_key d (e_sha e k) i"
    using lookup_live [OF hist i(2)] by blast
  obtain accs pols keys where d: "d = (accs, pols, keys)" by (metis surj_pair)
  obtain row where row: "row \<in> set keys" "key_hash row = e_sha e k" "key_revoked_at row = None" "ki_scope i = key_scope row"
    "ki_account_id i = key_account_id row"
    "key_scope row = ''account'' \<Longrightarrow> \<exists>acc \<in> set accs. acc_is_enabled acc \<and> key_account_id row = Some (acc_id acc)"
    using k(4) by (auto simp: live_key_def d)
  have "presented_key r = (Some k, False)" using i(1) k(1) by (simp add: prod_eq_iff)
  with k(2,3) row i(3) show ?thesis
    by (intro disjI1 exI [of _ k] exI [of _ tm] exI [of _ accs] exI [of _ pols] exI [of _ keys] exI [of _ row])
       (simp add: d split: if_splits)
qed blast

theorem only_live_keys_pass_witness:
  "\<exists>row \<in> set (as_keys acme_sys). key_hash row = ''k2'' \<and> key_revoked_at row = None \<and> key_account_id row = Some 2"
proof -
  let ?h = "{(seconds 100, db_of acme_sys)}"
  have "presented_key acme_send = (Some ''k2'', False)" by code_simp
  moreover have "key_cache.accounted ?h acme_sys" by (rule key_cache.accounted_empty) (simp add: acme_sys_def)
  ultimately show ?thesis
    using only_live_keys_pass [OF acme_run acme_send_fresh acme_send_paths(3,1,2,4), of ?h] acme_reached_sel(2)
    by (auto simp: acme_env_def db_of_def split: if_splits)
qed

text \<open>
  C11 A key is as fresh as its cache. Whatever the cache holds, if a lookup accepts a presented
  key, then at some moment of the last 60 seconds the key table had a row with the key's hash that
  was not revoked, with the id, scope and account the caller gets, and for an account's key the
  account existed, was enabled and had the alias and platform the request runs under. Later than
  that a key that was revoked, or whose account was disabled, is no longer accepted; until then a
  disabled account's key may be (\<^verbatim>\<open>patch_account\<close> does not drop the key cache).
\<close>

theorem accepted_key_is_recent:
  assumes hist: "key_cache.accounted hist s" "(now, db_of s) \<in> hist"
    and ok: "fst (lookup sha s presented now wall) = Some i"
  shows "\<exists>k tm accs pols keys row. presented = Some k \<and> k \<noteq> [] \<and> (tm, (accs, pols, keys)) \<in> hist \<and> now - CACHE_TTL < tm \<and>
    row \<in> set keys \<and> key_hash row = sha k \<and> key_revoked_at row = None \<and>
    ki_id i = key_id row \<and> ki_scope i = key_scope row \<and> ki_account_id i = key_account_id row \<and>
    (key_scope row = ''account'' \<longrightarrow> (\<exists>acc \<in> set accs. acc_is_enabled acc \<and> key_account_id row = Some (acc_id acc) \<and>
       ki_alias i = Some (acc_alias acc) \<and> ki_platform i = Some (acc_platform acc)))"
proof -
  obtain k tm d where k: "presented = Some k" "k \<noteq> []" "(tm, d) \<in> hist" "now - CACHE_TTL < tm" "live_key d (sha k) i"
    using lookup_live [OF hist ok] by blast
  obtain accs pols keys where d: "d = (accs, pols, keys)" by (metis surj_pair)
  from k show ?thesis unfolding d live_key_def fst_conv snd_conv by blast
qed

theorem accepted_key_is_recent_witness:
  "\<exists>row \<in> set (as_keys acme_sys). key_id row = 5 \<and> key_revoked_at row = None \<and>
    (\<exists>acc \<in> set (as_accounts acme_sys). acc_is_enabled acc \<and> acc_id acc = 2)"
proof -
  let ?l = "fst (lookup (\<lambda>k. k) acme_sys (Some ''k2'') (seconds 100) (seconds 1000))"
  have "map_option (\<lambda>i. (ki_id i, ki_scope i, ki_account_id i)) ?l = Some (5, ''account'', Some 2)" by code_simp
  then obtain i where i: "?l = Some i" "ki_id i = 5" "ki_scope i = ''account''" "ki_account_id i = Some 2" by auto
  have "key_cache.accounted {(seconds 100, db_of acme_sys)} acme_sys"
    by (rule key_cache.accounted_empty) (simp add: acme_sys_def)
  from accepted_key_is_recent [OF this _ i(1)] i(2-4)
  obtain row acc where "row \<in> set (as_keys acme_sys)" "key_id row = 5" "key_revoked_at row = None"
    "acc \<in> set (as_accounts acme_sys)" "acc_is_enabled acc" "acc_id acc = 2" by (auto simp: db_of_def)
  then show ?thesis by blast
qed

text \<open>
  A revocation takes effect at once, since it drops the cache: the revoked key is refused by
  the very next lookup.
\<close>

theorem revoked_key_is_refused:
  assumes "revoke_key s k wall = (b, s')" and "\<forall>r \<in> set (as_keys s). key_hash r = sha key \<longrightarrow> key_id r = k"
  shows "fst (lookup sha s' (Some key) now wall') = None"
proof -
  have "load_key (db_of s') (sha key) = None"
    using revoked_rows [OF assms(1)] assms(2) by (intro load_key_revoked) metis
  moreover have "as_key_cache s' = (\<lambda>_. None)" using assms(1) by (auto simp: revoke_key_def invalidate_def Let_def)
  ultimately show ?thesis by (simp add: lookup_def cached_key_def cache_hit_def)
qed

theorem revoked_key_is_refused_witness:
  "fst (lookup (\<lambda>k. k) (snd (revoke_key acme_after 5 (seconds 1001))) (Some ''k2'') (seconds 101) (seconds 1001)) = None"
proof -
  have "list_all (\<lambda>r. key_hash r = ''k2'' \<longrightarrow> key_id r = 5) (as_keys acme_after)"
    unfolding acme_after_def by code_simp
  then have "\<forall>r \<in> set (as_keys acme_after). key_hash r = (\<lambda>k. k) ''k2'' \<longrightarrow> key_id r = 5"
    by (simp add: list_all_iff)
  moreover obtain b s' where "revoke_key acme_after 5 (seconds 1001) = (b, s')" by (rule prod.exhaust)
  ultimately show ?thesis
    using revoked_key_is_refused [of acme_after 5 "seconds 1001" b s' "\<lambda>k. k" "''k2''"] by simp
qed

text \<open>
  Disabling an account does not do that. \<^verbatim>\<open>patch_account\<close> drops the alias cache but not the
  key cache, so a key that was looked up before the account is disabled goes on authenticating,
  and keeps the account's id, until its cache entry expires, up to 60 seconds later, although a
  disabled account's keys are not to authenticate.
\<close>

theorem disabled_account_key_lingers:
  assumes hit: "as_key_cache s (sha key) = Some (Some i, expiry)" and live: "now < expiry"
    and off: "patch_account s a p = (Inr acc, s', stops)" "pt_is_enabled p = Some False" and key: "key \<noteq> []"
  shows "\<not> acc_is_enabled acc \<and> fst (lookup sha s' (Some key) now wall) = Some i"
proof (rule patch_accountE [OF off(1)])
  fix acc0 assume "as_key_cache s' = as_key_cache s" "acc = patched p acc0"
  then show ?thesis
    using hit live key off(2) by (simp add: lookup_def cached_key_def cache_hit_def patched_def default_to_def)
qed

theorem disabled_account_key_lingers_witness:
  "fst (lookup (\<lambda>k. k) (fst (snd (delete_account acme_after 2))) (Some ''k2'') (seconds 150) (seconds 1050)) \<noteq> None"
proof -
  have "map_option (\<lambda>(i, e). (i \<noteq> None, e)) (as_key_cache acme_after ''k2'') = Some (True, seconds 160)"
    unfolding acme_after_def by code_simp
  then obtain i where i: "as_key_cache acme_after ((\<lambda>k. k) ''k2'') = Some (Some i, seconds 160)" by auto
  have "(case fst (delete_account acme_after 2) of Inr a \<Rightarrow> True | Inl e \<Rightarrow> False)"
    unfolding acme_after_def by code_simp
  then obtain acc s' st where "delete_account acme_after 2 = (Inr acc, s', st)"
    by (cases "delete_account acme_after 2") (auto split: sum.splits)
  then show ?thesis
    using disabled_account_key_lingers [where sha = "\<lambda>k. k" and key = "''k2''" and now = "seconds 150",
        OF i, of 2 "empty_patch\<lparr>pt_is_enabled := Some False\<rparr>" acc s' st "seconds 1050"]
    by (simp add: delete_account_def seconds_def)
qed

subsection \<open>The account of a request\<close>

text \<open>
  A required account can be left out. With \<^verbatim>\<open>require_account\<close> on, a request without key
  and without alias is meant to be refused with 400; but an empty \<^verbatim>\<open>?session=\<close> is not None, so it
  passes this check, and being empty it falls back to the account \<^verbatim>\<open>work\<close>, unmarked in the audit.
\<close>

theorem empty_session_escapes_require_account:
  assumes "\<not> rs_is_admin_path r" "\<not> is_self_auth_path (rq_path r)" "rq_path r \<notin> set SKIP_PATHS"
    and "rs_api_key r = None" "header r ''x-session-alias'' = None" "query_param r ''session'' = Some []"
    and "fst (cached_alias (e_alias_db_ok e) s ''work'' (e_now e)) = Some (a, p)"
  shows "\<exists>r' s'. resolve_alias e r s = (None, r', s') \<and> rs_session_alias r' = Some (Some ''work'') \<and>
    rs_account_id r' = Some a \<and> rs_implicit_work r' = rs_implicit_work r"
  using assms by (auto simp: resolve_alias_def or_else_def set_account_def Let_def split: prod.splits)

theorem empty_session_escapes_require_account_witness:
  "(\<exists>r' s'. resolve_alias acme_env (acme_req ''GET'' ''/api/v1/messages'' [] [(''session'', [])]) acme_sys = (None, r', s') \<and>
      rs_account_id r' = Some 1) \<and>
   fst (resolve_alias acme_env (acme_req ''GET'' ''/api/v1/messages'' [] []) acme_sys) = Some (detail 400 ACCOUNT_REQUIRED)"
proof
  let ?r = "acme_req ''GET'' ''/api/v1/messages'' [] [(''session'', [])]"
  have "\<not> is_self_auth_path (rq_path ?r)" "rq_path ?r \<notin> set SKIP_PATHS" by code_simp+
  moreover have "fst (cached_alias (e_alias_db_ok acme_env) acme_sys ''work'' (e_now acme_env)) = Some (1, ''telegram'')"
    by code_simp
  ultimately show "\<exists>r' s'. resolve_alias acme_env ?r acme_sys = (None, r', s') \<and> rs_account_id r' = Some 1"
    using empty_session_escapes_require_account [of ?r acme_env acme_sys 1 "''telegram''"]
    by (auto simp: acme_req_def header_def query_param_def)
  show "fst (resolve_alias acme_env (acme_req ''GET'' ''/api/v1/messages'' [] []) acme_sys) = Some (detail 400 ACCOUNT_REQUIRED)"
    by code_simp
qed

subsection \<open>The audit trail\<close>

text \<open>
  One row per call. Every request under /api/ other than the probes leaves exactly one audit
  row, whatever answered it, a guard or the endpoint; the row says denied exactly for a 403, ok
  exactly for a success, and never holds a digest of a denied call. (The endpoint itself adds no
  row and does not move the request.)
\<close>

theorem one_audit_row:
  assumes path: "starts_with (rq_path r) ''/api/''" "rq_path r \<notin> set HEALTH_PATHS"
    and route: "\<And>r s resp r' s'. route r s = (resp, r', s') \<Longrightarrow> rq_path r' = rq_path r \<and> as_audit s' = as_audit s"
    and run: "serve e route r s = (resp, s')"
  shows "\<exists>entry. as_audit s' = as_audit s @ [entry] \<and>
    (log_status entry = ''denied'') = (status_code resp = 403) \<and>
    (log_status entry = ''ok'') = (200 \<le> status_code resp \<and> status_code resp < 300) \<and>
    (status_code resp = 403 \<longrightarrow> log_params_digest entry = None)"
proof -
  obtain r1 s1 where r1: "as_audit s1 = as_audit s" "s' = audit_log_response e resp r1 s1"
    "rq_path r1 = rq_path r \<or> under (rq_path r1) MAX_INTERNAL_PREFIX"
    by (rule servedE [OF run route])
  have "starts_with (rq_path r1) ''/api/''" "rq_path r1 \<notin> set HEALTH_PATHS"
    using r1(3) path under_max_api by auto
  then have "as_audit s' = as_audit s @ [audit_entry e resp r1]"
    by (simp add: r1 audit_log_response_def write_audit_log_def)
  moreover have "(log_status (audit_entry e resp r1) = ''ok'') = (200 \<le> status_code resp \<and> status_code resp < 300)"
    by (simp add: digest_entry audit_status_def)
  moreover have "status_code resp = 403 \<Longrightarrow> log_params_digest (audit_entry e resp r1) = None"
    by (simp add: audit_entry_def audit_status_def Let_def)
  ultimately show ?thesis by (intro exI [of _ "audit_entry e resp r1"]) (simp add: digest_entry audit_status_denied)
qed

theorem one_audit_row_witness:
  "\<exists>entry. as_audit (snd (serve acme_env (\<lambda>r s. (json_response 200 [], r, s)) acme_send acme_sys)) = [entry] \<and>
    log_status entry = ''ok''"
proof -
  let ?x = "serve acme_env (\<lambda>r s. (json_response 200 [], r, s)) acme_send acme_sys"
  have p: "starts_with (rq_path acme_send) ''/api/''" "rq_path acme_send \<notin> set HEALTH_PATHS" by code_simp+
  have "status_code (fst ?x) = 200" by code_simp
  with one_audit_row [OF p, of "\<lambda>r s. (json_response 200 [], r, s)" acme_env acme_sys "fst ?x" "snd ?x"]
  show ?thesis by (auto simp: acme_sys_def)
qed

end
