(* ===== verification/People.thy ===== *)
theory People
  imports Phone Control_Tables
begin

text \<open>
  Contacts: people and their identities on the platforms (\<^verbatim>\<open>app/repo/people.py\<close>), the people
  one account sees (\<^verbatim>\<open>upsert_user\<close> of repo/users.py) and the ways to reach them
  (\<^verbatim>\<open>app/repo/people_queries.py\<close>). Identity columns number new rows. What PostgreSQL decides is a
  parameter: the order of the tags (\<open>srt\<close>, a text collation) and ILIKE. A function that raises
  leaves the tables alone, as its transaction is rolled back.
\<close>

subsection \<open>Tables\<close>

record person =
  pn_id :: int
  pn_display_name :: "string option"
  pn_primary_phone :: "string option"
  pn_tags :: "string list"
  pn_notes :: "string option"

record identity =
  idn_id :: int
  idn_person_id :: int
  idn_pinned :: bool
  idn_platform :: string
  idn_external :: int
  idn_username :: "string option"
  idn_first_name :: "string option"
  idn_last_name :: "string option"
  idn_phone :: "string option"
  idn_is_bot :: bool
  idn_last_seen :: usec

record merge_log =
  ml_action :: string
  ml_from :: "int option"
  ml_to :: "int option"
  ml_identity :: "int option"
  ml_reason :: "string option"

text \<open>A person as one account sees it (\<^verbatim>\<open>users\<close>).\<close>

record user =
  us_id :: int
  us_account_id :: int
  us_external_id :: int
  us_identity_id :: "int option"
  us_username :: "string option"
  us_first_name :: "string option"
  us_last_name :: "string option"
  us_phone :: "string option"
  us_is_bot :: bool
  us_is_self :: bool
  us_access_hash :: "int option"
  us_is_contact :: bool
  us_last_seen_via :: string
  us_raw :: "json option"

record people_db =
  pd_people :: "person list"
  pd_identities :: "identity list"
  pd_users :: "user list"
  pd_log :: "merge_log list"
  pd_next_person :: int
  pd_next_identity :: int
  pd_next_user :: int

text \<open>\<^verbatim>\<open>UserRow\<close> of repo/rows.py.\<close>

record user_row =
  ur_external_id :: int
  ur_username :: "string option"
  ur_first_name :: "string option"
  ur_last_name :: "string option"
  ur_phone :: "string option"
  ur_is_bot :: bool
  ur_access_hash :: "int option"
  ur_is_contact :: "bool option"
  ur_raw :: "json option"

datatype people_error =
    Owner_required
  | Scope_mismatch
  | Value_error
  | No_result_found
  | Person_not_found int
  | Identity_not_found int

definition PLATFORMS :: "string list" where
  "PLATFORMS = [''telegram'', ''max'']"

subsection \<open>Names\<close>

text \<open>\<^verbatim>\<open>x or None\<close>.\<close>

definition nonempty :: "string option \<Rightarrow> string option" where
  "nonempty x = or_else x None"

text \<open>\<^verbatim>\<open>" ".join(p for p in (first, last) if p)\<close>.\<close>

definition full_name :: "string option \<Rightarrow> string option \<Rightarrow> string" where
  "full_name fn ln = join_with '' '' (List.map_filter nonempty [fn, ln])"

definition display_name :: "user_row \<Rightarrow> string option" where
  "display_name row = or_else (Some (full_name (ur_first_name row) (ur_last_name row))) (nonempty (ur_username row))"

text \<open>SQL's \<^verbatim>\<open>coalesce\<close>.\<close>

definition coalesce :: "'a option \<Rightarrow> 'a option \<Rightarrow> 'a option" where
  "coalesce x y = (case x of None \<Rightarrow> y | Some _ \<Rightarrow> x)"

subsection \<open>Identities\<close>

definition is_identity :: "string \<Rightarrow> int \<Rightarrow> identity \<Rightarrow> bool" where
  "is_identity platform ext i \<longleftrightarrow> idn_platform i = platform \<and> idn_external i = ext"

definition refreshed :: "user_row \<Rightarrow> usec \<Rightarrow> identity \<Rightarrow> identity" where
  "refreshed row now i = i\<lparr>
     idn_username := coalesce (nonempty (ur_username row)) (idn_username i),
     idn_first_name := coalesce (nonempty (ur_first_name row)) (idn_first_name i),
     idn_last_name := coalesce (nonempty (ur_last_name row)) (idn_last_name i),
     idn_phone := coalesce (normalize_phone (ur_phone row)) (idn_phone i),
     idn_is_bot := ur_is_bot row,
     idn_last_seen := now\<rparr>"

definition update_identity :: "people_db \<Rightarrow> string \<Rightarrow> user_row \<Rightarrow> usec \<Rightarrow> int option \<times> people_db" where
  "update_identity db platform row now =
    (let hit = is_identity platform (ur_external_id row)
     in (map_option idn_id (one_or_none hit (pd_identities db)),
         db\<lparr>pd_identities := update_rows hit (refreshed row now) (pd_identities db)\<rparr>))"

definition new_identity :: "int \<Rightarrow> int \<Rightarrow> string \<Rightarrow> user_row \<Rightarrow> usec \<Rightarrow> identity" where
  "new_identity i p platform row now = \<lparr>idn_id = i, idn_person_id = p, idn_pinned = False,
     idn_platform = platform, idn_external = ur_external_id row,
     idn_username = nonempty (ur_username row), idn_first_name = nonempty (ur_first_name row),
     idn_last_name = nonempty (ur_last_name row), idn_phone = normalize_phone (ur_phone row),
     idn_is_bot = ur_is_bot row, idn_last_seen = now\<rparr>"

definition insert_person :: "people_db \<Rightarrow> string option \<Rightarrow> string option \<Rightarrow> int \<times> people_db" where
  "insert_person db name phone =
    (pd_next_person db, db\<lparr>pd_people := pd_people db @ [\<lparr>pn_id = pd_next_person db,
       pn_display_name = name, pn_primary_phone = phone, pn_tags = [], pn_notes = None\<rparr>],
       pd_next_person := pd_next_person db + 1\<rparr>)"

definition delete_person :: "int \<Rightarrow> people_db \<Rightarrow> people_db" where
  "delete_person p db = db\<lparr>pd_people := filter (\<lambda>r. pn_id r \<noteq> p) (pd_people db)\<rparr>"

definition delete_if_empty :: "int \<Rightarrow> people_db \<Rightarrow> people_db" where
  "delete_if_empty p db =
    (if count_rows (\<lambda>i. idn_person_id i = p) (pd_identities db) = 0 then delete_person p db else db)"

definition set_person :: "(identity \<Rightarrow> bool) \<Rightarrow> (identity \<Rightarrow> identity) \<Rightarrow> people_db \<Rightarrow> people_db" where
  "set_person P f db = db\<lparr>pd_identities := update_rows P f (pd_identities db)\<rparr>"

subsection \<open>Merging\<close>

text \<open>The UPDATE of \<^verbatim>\<open>_absorb_person\<close>: \<open>t\<close> the target, \<open>s\<close> the source.\<close>

definition absorbed :: "(string list \<Rightarrow> string list) \<Rightarrow> person \<Rightarrow> person \<Rightarrow> person" where
  "absorbed srt s t = t\<lparr>
     pn_tags := srt (remdups (pn_tags t @ pn_tags s)),
     pn_notes := (if nonempty (pn_notes s) = None then pn_notes t
                  else if nonempty (pn_notes t) = None then pn_notes s
                  else Some (the (pn_notes t) @ [CHR 0x0A] @ the (pn_notes s))),
     pn_display_name := coalesce (pn_display_name t) (pn_display_name s),
     pn_primary_phone := coalesce (pn_primary_phone t) (pn_primary_phone s)\<rparr>"

definition person_by_id :: "people_db \<Rightarrow> int \<Rightarrow> person option" where
  "person_by_id db p = one_or_none (\<lambda>r. pn_id r = p) (pd_people db)"

definition identity_by_id :: "people_db \<Rightarrow> int \<Rightarrow> identity option" where
  "identity_by_id db i = one_or_none (\<lambda>r. idn_id r = i) (pd_identities db)"

definition absorb_person :: "(string list \<Rightarrow> string list) \<Rightarrow> int \<Rightarrow> int \<Rightarrow> people_db \<Rightarrow> people_db" where
  "absorb_person srt target source db =
     delete_if_empty source
       (case person_by_id db source of
          None \<Rightarrow> db
        | Some s \<Rightarrow> db\<lparr>pd_people := update_rows (\<lambda>r. pn_id r = target) (absorbed srt s) (pd_people db)\<rparr>)"

text \<open>
  The other identity of the auto-merge: the same phone on another platform, another person, not
  pinned, the lowest person id first (among equals the database may take any; the first is taken).
\<close>

definition merge_candidate :: "people_db \<Rightarrow> identity \<Rightarrow> identity option" where
  "merge_candidate db me =
    (case sort_key idn_person_id (filter (\<lambda>i. idn_phone i = idn_phone me \<and>
        idn_platform i \<noteq> idn_platform me \<and> idn_person_id i \<noteq> idn_person_id me \<and> \<not> idn_pinned i)
        (pd_identities db)) of
       [] \<Rightarrow> None
     | i # _ \<Rightarrow> Some i)"

definition log_merge :: "merge_log \<Rightarrow> people_db \<Rightarrow> people_db" where
  "log_merge l db = db\<lparr>pd_log := pd_log db @ [l]\<rparr>"

definition auto_merge :: "(string list \<Rightarrow> string list) \<Rightarrow> int \<Rightarrow> people_db \<Rightarrow> people_db" where
  "auto_merge srt identity_id db =
    (case identity_by_id db identity_id of
       None \<Rightarrow> db
     | Some me \<Rightarrow>
        (if idn_pinned me \<or> nonempty (idn_phone me) = None then db
         else
          (case merge_candidate db me of
             None \<Rightarrow> db
           | Some other \<Rightarrow>
              (let target = min (idn_person_id me) (idn_person_id other);
                   source = max (idn_person_id me) (idn_person_id other);
                   moved = (if idn_person_id me = source then identity_id else idn_id other);
                   db1 = set_person (\<lambda>i. idn_id i = moved) (\<lambda>i. i\<lparr>idn_person_id := target\<rparr>) db
               in log_merge \<lparr>ml_action = ''auto_merge'', ml_from = Some source, ml_to = Some target,
                    ml_identity = Some moved, ml_reason = Some (''phone '' @ (case idn_phone me of Some p \<Rightarrow> p | None \<Rightarrow> []))\<rparr>
                    (absorb_person srt target source db1)))))"


text \<open>
  \<^verbatim>\<open>upsert_identity\<close>. Between the update that found no identity and the insert other
  transactions may commit: \<open>mid\<close> is what they do to the tables.
\<close>

definition create_identity ::
    "people_db \<Rightarrow> string \<Rightarrow> user_row \<Rightarrow> usec \<Rightarrow> int option \<times> people_db" where
  "create_identity db platform row now =
    (case insert_person db (display_name row) (normalize_phone (ur_phone row)) of
       (p, db1) \<Rightarrow>
         (if list_ex (is_identity platform (ur_external_id row)) (pd_identities db1)
          then update_identity ((delete_person p db1)\<lparr>pd_next_identity := pd_next_identity db1 + 1\<rparr>) platform row now
          else (Some (pd_next_identity db1),
            db1\<lparr>pd_identities := pd_identities db1 @ [new_identity (pd_next_identity db1) p platform row now],
              pd_next_identity := pd_next_identity db1 + 1\<rparr>)))"

definition fill_primary_phone :: "string \<Rightarrow> int \<Rightarrow> people_db \<Rightarrow> people_db" where
  "fill_primary_phone phone identity_id db =
     db\<lparr>pd_people := update_rows (\<lambda>p. pn_primary_phone p = None \<and>
          map_option idn_person_id (identity_by_id db identity_id) = Some (pn_id p))
        (\<lambda>p. p\<lparr>pn_primary_phone := Some phone\<rparr>) (pd_people db)\<rparr>"

definition upsert_identity ::
    "(string list \<Rightarrow> string list) \<Rightarrow> (people_db \<Rightarrow> people_db) \<Rightarrow> people_db \<Rightarrow> string \<Rightarrow> user_row \<Rightarrow> usec
       \<Rightarrow> people_error + (int option \<times> people_db)" where
  "upsert_identity srt mid db platform row now =
    (if platform \<notin> set PLATFORMS then Inl Value_error
     else
      (case (case update_identity db platform row now of
               (Some i, db1) \<Rightarrow> (Some i, db1)
             | (None, db1) \<Rightarrow> create_identity (mid db1) platform row now) of
         (ident, db2) \<Rightarrow>
           (case (normalize_phone (ur_phone row), ident) of
              (None, _) \<Rightarrow> Inr (ident, db2)
            | (Some phone, None) \<Rightarrow> Inl No_result_found
            | (Some phone, Some i) \<Rightarrow> Inr (ident, auto_merge srt i (fill_primary_phone phone i db2)))))"

subsection \<open>Manual merge and split\<close>

definition merge_people ::
    "(string list \<Rightarrow> string list) \<Rightarrow> bool \<Rightarrow> people_db \<Rightarrow> int \<Rightarrow> int \<Rightarrow> string option \<Rightarrow> people_error + people_db" where
  "merge_people srt owner db from_id to_id reason =
    (if \<not> owner then Inl Owner_required
     else if from_id = to_id then Inl Value_error
     else if person_by_id db from_id = None then Inl (Person_not_found from_id)
     else if person_by_id db to_id = None then Inl (Person_not_found to_id)
     else
      (let db1 = set_person (\<lambda>i. idn_person_id i = from_id)
             (\<lambda>i. i\<lparr>idn_person_id := to_id, idn_pinned := True\<rparr>) db;
           db2 = set_person (\<lambda>i. idn_person_id i = to_id) (\<lambda>i. i\<lparr>idn_pinned := True\<rparr>) db1
       in Inr (log_merge \<lparr>ml_action = ''merge'', ml_from = Some from_id, ml_to = Some to_id,
            ml_identity = None, ml_reason = reason\<rparr> (absorb_person srt to_id from_id db2))))"

definition split_identity ::
    "bool \<Rightarrow> people_db \<Rightarrow> int \<Rightarrow> string option \<Rightarrow> people_error + (int \<times> people_db)" where
  "split_identity owner db identity_id reason =
    (if \<not> owner then Inl Owner_required
     else
      (case identity_by_id db identity_id of
         None \<Rightarrow> Inl (Identity_not_found identity_id)
       | Some ident \<Rightarrow>
          (let name = or_else (Some (full_name (idn_first_name ident) (idn_last_name ident))) (idn_username ident);
               (p, db1) = insert_person db (nonempty name) (idn_phone ident);
               db2 = set_person (\<lambda>i. idn_id i = identity_id) (\<lambda>i. i\<lparr>idn_person_id := p, idn_pinned := True\<rparr>) db1
           in Inr (p, log_merge \<lparr>ml_action = ''split'', ml_from = Some (idn_person_id ident), ml_to = Some p,
                ml_identity = Some identity_id, ml_reason = reason\<rparr>
                (delete_if_empty (idn_person_id ident) db2)))))"

text \<open>Only the fields given and not null change (\<^verbatim>\<open>people_queries.update_person\<close>).\<close>

definition update_person ::
    "bool \<Rightarrow> people_db \<Rightarrow> int \<Rightarrow> string option \<Rightarrow> string list option \<Rightarrow> string option
       \<Rightarrow> people_error + (person option \<times> people_db)" where
  "update_person owner db p name tags notes =
    (if \<not> owner then Inl Owner_required
     else
      (let db1 = db\<lparr>pd_people := update_rows (\<lambda>r. pn_id r = p) (\<lambda>r. r\<lparr>
             pn_display_name := coalesce name (pn_display_name r),
             pn_tags := (case tags of None \<Rightarrow> pn_tags r | Some t \<Rightarrow> t),
             pn_notes := coalesce notes (pn_notes r)\<rparr>) (pd_people db)\<rparr>
       in Inr (person_by_id db1 p, db1)))"

subsection \<open>Users of an account\<close>

definition VIA :: "string list" where
  "VIA = [''message'', ''member'', ''contact'', ''resolve'', ''dialog'']"

text \<open>
  \<^verbatim>\<open>upsert_user\<close>: \<open>self_ext\<close> is the account's own external id, if known; \<open>scope\<close> whether
  the session is the account's own (or the owner's).
\<close>

definition upsert_user ::
    "(string list \<Rightarrow> string list) \<Rightarrow> (people_db \<Rightarrow> people_db) \<Rightarrow> bool \<Rightarrow> int option \<Rightarrow> people_db \<Rightarrow> int \<Rightarrow> string
       \<Rightarrow> user_row \<Rightarrow> string \<Rightarrow> usec \<Rightarrow> people_error + (int \<times> people_db)" where
  "upsert_user srt mid scope self_ext db a platform row via now =
    (if \<not> scope then Inl Scope_mismatch
     else if via \<notin> set VIA then Inl Value_error
     else
      (case upsert_identity srt mid db platform row now of
         Inl e \<Rightarrow> Inl e
       | Inr (ident, db1) \<Rightarrow>
          (let me = (self_ext = Some (ur_external_id row));
               hit = (\<lambda>u. us_account_id u = a \<and> us_external_id u = ur_external_id row);
               fresh = \<lparr>us_id = pd_next_user db1, us_account_id = a, us_external_id = ur_external_id row,
                 us_identity_id = ident, us_username = nonempty (ur_username row),
                 us_first_name = nonempty (ur_first_name row), us_last_name = nonempty (ur_last_name row),
                 us_phone = normalize_phone (ur_phone row), us_is_bot = ur_is_bot row, us_is_self = me,
                 us_access_hash = ur_access_hash row, us_is_contact = (ur_is_contact row = Some True),
                 us_last_seen_via = via, us_raw = ur_raw row\<rparr>
           in case one_or_none hit (pd_users db1) of
                None \<Rightarrow> Inr (us_id fresh, db1\<lparr>pd_users := pd_users db1 @ [fresh], pd_next_user := pd_next_user db1 + 1\<rparr>)
              | Some old \<Rightarrow> Inr (us_id old, db1\<lparr>pd_users := update_rows hit (\<lambda>u. u\<lparr>
                  us_identity_id := ident,
                  us_username := coalesce (us_username fresh) (us_username u),
                  us_first_name := coalesce (us_first_name fresh) (us_first_name u),
                  us_last_name := coalesce (us_last_name fresh) (us_last_name u),
                  us_phone := coalesce (us_phone fresh) (us_phone u),
                  us_is_bot := us_is_bot fresh, us_is_self := me,
                  us_access_hash := coalesce (us_access_hash fresh) (us_access_hash u),
                  us_is_contact := (if ur_is_contact row = None then us_is_contact u else us_is_contact fresh),
                  us_last_seen_via := via,
                  us_raw := coalesce (us_raw fresh) (us_raw u)\<rparr>) (pd_users db1),
                  pd_next_user := pd_next_user db1 + 1\<rparr>))))"

subsection \<open>Reaching a person\<close>

datatype reach_method =
    Direct
  | Username
  | By_phone

definition reach_of :: "string \<Rightarrow> identity \<Rightarrow> user option \<Rightarrow> reach_method option" where
  "reach_of platform i u =
    (if idn_platform i \<noteq> platform then None
     else if platform = ''max'' then Some Direct
     else if (case u of Some x \<Rightarrow> us_access_hash x \<noteq> None | None \<Rightarrow> False) then Some Direct
     else if nonempty (idn_username i) \<noteq> None then Some Username
     else if nonempty (idn_phone i) \<noteq> None then Some By_phone
     else None)"

definition reach_note :: "reach_method \<Rightarrow> string option" where
  "reach_note m = (if m = By_phone then Some (''ImportContacts adds the person to the account'' @ [CHR 0x27] @ ''s address book'')
     else None)"

fun rank :: "reach_method \<Rightarrow> nat" where
  "rank Direct = 0"
| "rank Username = 1"
| "rank By_phone = 2"

text \<open>The outer join with the account's users.\<close>

definition user_of :: "people_db \<Rightarrow> int \<Rightarrow> identity \<Rightarrow> user option" where
  "user_of db a i = find (\<lambda>u. us_account_id u = a \<and> us_identity_id u = Some (idn_id i)) (pd_users db)"

text \<open>The loop of \<^verbatim>\<open>reach_person\<close> over the identities in the order of their ids.\<close>

fun best_reach ::
    "(identity \<Rightarrow> reach_method option) \<Rightarrow> (identity \<times> reach_method) option \<Rightarrow> identity list
       \<Rightarrow> (identity \<times> reach_method) option" where
  "best_reach reach best [] = best"
| "best_reach reach best (i # is) =
     best_reach reach
       (case reach i of
          None \<Rightarrow> best
        | Some m \<Rightarrow> (case best of
            None \<Rightarrow> Some (i, m)
          | Some (_, m') \<Rightarrow> if rank m < rank m' then Some (i, m) else best)) is"

definition reach_person :: "people_db \<Rightarrow> int \<Rightarrow> string \<Rightarrow> int \<Rightarrow> (identity \<times> reach_method) option" where
  "reach_person db a platform p =
     best_reach (\<lambda>i. reach_of platform i (user_of db a i)) None
       (sort_key idn_id (filter (\<lambda>i. idn_person_id i = p \<and> idn_platform i = platform) (pd_identities db)))"

text \<open>
  The same question for all people in SQL (\<^verbatim>\<open>_reach_method\<close>, \<^verbatim>\<open>reachable\<close>): the
  candidates with a method ordered by person, rank, identity, one per person (DISTINCT ON).
\<close>

definition reach_sql :: "string \<Rightarrow> identity \<Rightarrow> user option \<Rightarrow> reach_method option" where
  "reach_sql platform i u =
    (if platform = ''max'' then Some Direct
     else if (case u of Some x \<Rightarrow> us_access_hash x | None \<Rightarrow> None) \<noteq> None then Some Direct
     else if (case idn_username i of Some n \<Rightarrow> n | None \<Rightarrow> []) \<noteq> [] then Some Username
     else if idn_phone i \<noteq> None then Some By_phone
     else None)"

fun distinct_on :: "('a \<Rightarrow> 'k) \<Rightarrow> 'a list \<Rightarrow> 'a list" where
  "distinct_on key [] = []"
| "distinct_on key (x # xs) = x # distinct_on key (filter (\<lambda>y. key y \<noteq> key x) xs)"

definition search_hit :: "(string \<Rightarrow> string \<Rightarrow> bool) \<Rightarrow> people_db \<Rightarrow> string \<Rightarrow> identity \<Rightarrow> bool" where
  "search_hit ilike db q i =
    (let like = (\<lambda>x. case x of None \<Rightarrow> False | Some s \<Rightarrow> ilike s ([CHR 0x25] @ q @ [CHR 0x25]))
     in like (idn_username i) \<or> like (idn_first_name i) \<or> like (idn_last_name i) \<or> like (idn_phone i) \<or>
        (case person_by_id db (idn_person_id i) of None \<Rightarrow> False | Some p \<Rightarrow> like (pn_display_name p)))"

definition reachable ::
    "(string \<Rightarrow> string \<Rightarrow> bool) \<Rightarrow> people_db \<Rightarrow> int \<Rightarrow> string \<Rightarrow> string option \<Rightarrow> nat \<Rightarrow> nat
       \<Rightarrow> (identity \<times> reach_method) list" where
  "reachable ilike db a platform q limit offset =
    (let candidates = List.map_filter (\<lambda>i. map_option (Pair i) (reach_sql platform i (user_of db a i)))
           (filter (\<lambda>i. idn_platform i = platform \<and>
              (case nonempty q of None \<Rightarrow> True | Some t \<Rightarrow> search_hit ilike db t i)) (pd_identities db));
         ordered = sort_key (\<lambda>(i, m). idn_person_id i)
           (sort_key (\<lambda>(i, m). rank m) (sort_key (\<lambda>(i, m). idn_id i) candidates))
     in take limit (drop offset (distinct_on (\<lambda>(i, m). idn_person_id i) ordered)))"

subsection \<open>A person's page\<close>

text \<open>
  \<^verbatim>\<open>person_accounts\<close>: one line per enabled account. \<open>sent\<close> counts the messages that users
  of an account sent. The method shown is that of the first identity with one.
\<close>

definition identities_of :: "people_db \<Rightarrow> int \<Rightarrow> identity list" where
  "identities_of db p = sort_key idn_id (filter (\<lambda>i. idn_person_id i = p) (pd_identities db))"

record account_line =
  al_account_id :: int
  al_alias :: string
  al_platform :: string
  al_mode :: string
  al_knows :: bool
  al_has_access_hash :: bool
  al_is_contact :: bool
  al_reachable :: "reach_method option"
  al_reach_note :: "string option"
  al_messages :: nat

fun first_reach :: "(identity \<Rightarrow> reach_method option) \<Rightarrow> identity list \<Rightarrow> reach_method option" where
  "first_reach reach [] = None"
| "first_reach reach (i # is) = (case reach i of None \<Rightarrow> first_reach reach is | Some m \<Rightarrow> Some m)"

definition account_line_of :: "(int \<Rightarrow> int list \<Rightarrow> nat) \<Rightarrow> people_db \<Rightarrow> identity list \<Rightarrow> account \<Rightarrow> account_line" where
  "account_line_of sent db idents acc =
    (let users = filter (\<lambda>u. us_account_id u = acc_id acc \<and>
             (\<exists>i \<in> set idents. us_identity_id u = Some (idn_id i))) (pd_users db);
         reach = (if acc_mode acc = ''rw''
           then first_reach (\<lambda>i. reach_of (acc_platform acc) i (find (\<lambda>u. us_identity_id u = Some (idn_id i)) (rev users))) idents
           else None)
     in \<lparr>al_account_id = acc_id acc, al_alias = acc_alias acc, al_platform = acc_platform acc,
         al_mode = acc_mode acc, al_knows = (users \<noteq> []),
         al_has_access_hash = list_ex (\<lambda>u. us_access_hash u \<noteq> None) users,
         al_is_contact = list_ex us_is_contact users, al_reachable = reach,
         al_reach_note = (case reach of None \<Rightarrow> None | Some m \<Rightarrow> reach_note m),
         al_messages = (if users = [] then 0 else sent (acc_id acc) (map us_id users))\<rparr>)"

definition person_accounts ::
    "(int \<Rightarrow> int list \<Rightarrow> nat) \<Rightarrow> bool \<Rightarrow> people_db \<Rightarrow> account list \<Rightarrow> int \<Rightarrow> people_error + account_line list" where
  "person_accounts sent owner db accounts p =
    (if \<not> owner then Inl Owner_required
     else Inr (map (account_line_of sent db (identities_of db p))
       (sort_key acc_id (filter acc_is_enabled accounts))))"

text \<open>\<^verbatim>\<open>find_people\<close> and \<^verbatim>\<open>get_person\<close>: the page of persons with their identities.\<close>

definition search_filter :: "(string \<Rightarrow> string \<Rightarrow> bool) \<Rightarrow> people_db \<Rightarrow> string \<Rightarrow> person \<Rightarrow> bool" where
  "search_filter ilike db q p =
    (let like = (\<lambda>x. case x of None \<Rightarrow> False | Some s \<Rightarrow> ilike s ([CHR 0x25] @ q @ [CHR 0x25]))
     in like (pn_display_name p) \<or> like (pn_primary_phone p) \<or>
        list_ex (\<lambda>i. idn_person_id i = pn_id p \<and> (like (idn_username i) \<or> like (idn_first_name i) \<or>
          like (idn_last_name i) \<or> like (idn_phone i) \<or> like (Some (show_int (idn_external i))))) (pd_identities db))"

definition find_people ::
    "(string \<Rightarrow> string \<Rightarrow> bool) \<Rightarrow> bool \<Rightarrow> people_db \<Rightarrow> string option \<Rightarrow> string option \<Rightarrow> string option
       \<Rightarrow> nat \<Rightarrow> nat \<Rightarrow> people_error + ((person \<times> identity list) list \<times> nat)" where
  "find_people ilike owner db q tag platform limit offset =
    (if \<not> owner then Inl Owner_required
     else
      (let flt = (\<lambda>p. (case nonempty q of None \<Rightarrow> True | Some t \<Rightarrow> search_filter ilike db t p) \<and>
             (case nonempty tag of None \<Rightarrow> True | Some t \<Rightarrow> t \<in> set (pn_tags p)) \<and>
             (case nonempty platform of None \<Rightarrow> True | Some f \<Rightarrow>
                list_ex (\<lambda>i. idn_person_id i = pn_id p \<and> idn_platform i = f) (pd_identities db)));
           hits = filter flt (pd_people db)
       in Inr (map (\<lambda>p. (p, identities_of db (pn_id p))) (take limit (drop offset (sort_key pn_id hits))), length hits)))"

definition get_person :: "bool \<Rightarrow> people_db \<Rightarrow> int \<Rightarrow> people_error + (person \<times> identity list) option" where
  "get_person owner db p =
    (if \<not> owner then Inl Owner_required
     else Inr (map_option (\<lambda>r. (r, identities_of db p)) (person_by_id db p)))"

end
