(* ===== verification/People_Facts.thy ===== *)
theory People_Facts
  imports People
begin

text \<open>
  Consistency of the contacts as an invariant of every operation, and facts on merging and
  reaching.
\<close>

subsection \<open>Lists of rows\<close>

lemma map_update_rows:
  "(\<And>r. g (f r) = g r) \<Longrightarrow> map g (update_rows P f rows) = map g rows"
  by (simp add: update_rows_def)

lemma update_rows_append [table_simps]: "update_rows P f (xs @ ys) = update_rows P f xs @ update_rows P f ys"
  by (simp add: update_rows_def)

lemma distinct_map_filter: "distinct (map f xs) \<Longrightarrow> distinct (map f (filter P xs))"
  by (induction xs) auto

lemma one_or_none_unique:
  assumes "distinct (map key rows)" and "r \<in> set rows"
  shows "one_or_none (\<lambda>x. key x = key r) rows = Some r"
  using assms by (induction rows) (auto simp: one_or_none_def)

subsection \<open>Consistency\<close>

text \<open>
  The keys are unique and below the sequences; the persons are exactly the owners of the
  identities: no identity without its person, no person without an identity.
\<close>

definition people_ok :: "people_db \<Rightarrow> bool" where
  "people_ok db \<longleftrightarrow>
     distinct (map pn_id (pd_people db)) \<and> (\<forall>p \<in> set (pd_people db). pn_id p < pd_next_person db) \<and>
     distinct (map idn_id (pd_identities db)) \<and> (\<forall>i \<in> set (pd_identities db). idn_id i < pd_next_identity db) \<and>
     distinct (map (\<lambda>i. (idn_platform i, idn_external i)) (pd_identities db)) \<and>
     pn_id ` set (pd_people db) = idn_person_id ` set (pd_identities db)"

text \<open>While a person is emptied it may stand without identities.\<close>

definition people_but :: "int \<Rightarrow> people_db \<Rightarrow> bool" where
  "people_but p db \<longleftrightarrow>
     distinct (map pn_id (pd_people db)) \<and> (\<forall>r \<in> set (pd_people db). pn_id r < pd_next_person db) \<and>
     distinct (map idn_id (pd_identities db)) \<and> (\<forall>i \<in> set (pd_identities db). idn_id i < pd_next_identity db) \<and>
     distinct (map (\<lambda>i. (idn_platform i, idn_external i)) (pd_identities db)) \<and>
     pn_id ` set (pd_people db) = insert p (idn_person_id ` set (pd_identities db))"

lemma delete_if_empty_ok:
  assumes "people_but p db"
  shows "people_ok (delete_if_empty p db)"
proof (cases "count_rows (\<lambda>i. idn_person_id i = p) (pd_identities db) = 0")
  case True
  then have none: "p \<notin> idn_person_id ` set (pd_identities db)" by (auto simp: filter_empty_conv)
  have "pn_id ` set (filter (\<lambda>r. pn_id r \<noteq> p) (pd_people db)) = pn_id ` set (pd_people db) - {p}" by auto
  also have "\<dots> = idn_person_id ` set (pd_identities db)" using assms none by (auto simp: people_but_def)
  finally show ?thesis
    using assms True by (auto simp: people_ok_def people_but_def delete_if_empty_def delete_person_def distinct_map_filter)
next
  case False
  then have "p \<in> idn_person_id ` set (pd_identities db)" by (auto simp: filter_empty_conv)
  then have "insert p (idn_person_id ` set (pd_identities db)) = idn_person_id ` set (pd_identities db)" by (rule insert_absorb)
  then show ?thesis using assms False by (auto simp: people_ok_def people_but_def delete_if_empty_def)
qed

lemma people_but_update:
  assumes "people_but p db" and "\<And>r. pn_id (f r) = pn_id r"
  shows "people_but p (db\<lparr>pd_people := update_rows P f (pd_people db)\<rparr>)"
proof -
  have m: "map pn_id (update_rows P f (pd_people db)) = map pn_id (pd_people db)"
    by (rule map_update_rows) (rule assms(2))
  then have s: "pn_id ` set (update_rows P f (pd_people db)) = pn_id ` set (pd_people db)"
    by (metis image_set)
  have "\<forall>r \<in> set (update_rows P f (pd_people db)). pn_id r < pd_next_person db"
    using assms by (auto simp: people_but_def update_rows_def)
  then show ?thesis using assms(1) m s by (simp add: people_but_def)
qed

lemma absorb_person_ok: "people_but source db \<Longrightarrow> people_ok (absorb_person srt target source db)"
  unfolding absorb_person_def
  by (rule delete_if_empty_ok) (auto split: option.split intro: people_but_update simp: absorbed_def)

text \<open>Handing identities from one person to another existing one.\<close>

lemma set_person_but:
  assumes ok: "people_ok db" and f: "\<And>i. idn_person_id (f i) = target" "\<And>i. idn_id (f i) = idn_id i"
      "\<And>i. idn_platform (f i) = idn_platform i" "\<And>i. idn_external (f i) = idn_external i"
    and from_source: "\<And>i. i \<in> set (pd_identities db) \<Longrightarrow> P i \<Longrightarrow> idn_person_id i = source"
    and some: "\<exists>i \<in> set (pd_identities db). P i"
    and target: "target \<in> pn_id ` set (pd_people db)"
  shows "people_but source (set_person P f db)"
proof -
  let ?is = "pd_identities db" and ?js = "update_rows P f (pd_identities db)"
  have ids: "map idn_id ?js = map idn_id ?is" by (rule map_update_rows) (rule f(2))
  have keys: "map (\<lambda>i. (idn_platform i, idn_external i)) ?js = map (\<lambda>i. (idn_platform i, idn_external i)) ?is"
    by (rule map_update_rows) (simp add: f)
  have owners: "insert source (idn_person_id ` set ?js) = idn_person_id ` set ?is"
  proof (intro equalityI subsetI)
    fix x assume "x \<in> insert source (idn_person_id ` set ?js)"
    then show "x \<in> idn_person_id ` set ?is"
      using some from_source target ok f(1) by (fastforce simp: people_ok_def set_update_rows image_iff)
  next
    fix x assume "x \<in> idn_person_id ` set ?is"
    then obtain i where i: "i \<in> set ?is" "x = idn_person_id i" by auto
    show "x \<in> insert source (idn_person_id ` set ?js)"
    proof (cases "P i")
      case True
      then show ?thesis using from_source i by simp
    next
      case False
      then have "i \<in> set ?js" using i(1) by (auto simp: set_update_rows)
      then show ?thesis using i(2) by blast
    qed
  qed
  have "\<forall>i \<in> set ?js. idn_id i < pd_next_identity db"
    using ok f(2) by (auto simp: people_ok_def set_update_rows)
  then show ?thesis using ok ids keys owners by (simp add: people_ok_def people_but_def set_person_def)
qed

lemma people_ok_log [simp]: "people_ok (log_merge l db) = people_ok db"
  by (simp add: people_ok_def log_merge_def)

lemma people_ok_identity_update:
  assumes "people_ok db" and "\<And>i. idn_person_id (f i) = idn_person_id i" "\<And>i. idn_id (f i) = idn_id i"
    "\<And>i. idn_platform (f i) = idn_platform i" "\<And>i. idn_external (f i) = idn_external i"
  shows "people_ok (db\<lparr>pd_identities := update_rows P f (pd_identities db)\<rparr>)"
proof -
  let ?is = "pd_identities db" and ?js = "update_rows P f (pd_identities db)"
  have "map idn_id ?js = map idn_id ?is" "map idn_person_id ?js = map idn_person_id ?is"
    "map (\<lambda>i. (idn_platform i, idn_external i)) ?js = map (\<lambda>i. (idn_platform i, idn_external i)) ?is"
    by (rule map_update_rows; simp add: assms)+
  moreover from this(2) have "idn_person_id ` set ?js = idn_person_id ` set ?is" by (metis image_set)
  moreover have "\<forall>i \<in> set ?js. idn_id i < pd_next_identity db"
    using assms(1,3) by (auto simp: people_ok_def set_update_rows)
  ultimately show ?thesis using assms(1) by (simp add: people_ok_def)
qed

lemma people_ok_person_update:
  assumes "people_ok db" and "\<And>r. pn_id (f r) = pn_id r"
  shows "people_ok (db\<lparr>pd_people := update_rows P f (pd_people db)\<rparr>)"
proof -
  have m: "map pn_id (update_rows P f (pd_people db)) = map pn_id (pd_people db)"
    by (rule map_update_rows) (rule assms(2))
  then have "pn_id ` set (update_rows P f (pd_people db)) = pn_id ` set (pd_people db)" by (metis image_set)
  moreover have "\<forall>r \<in> set (update_rows P f (pd_people db)). pn_id r < pd_next_person db"
    using assms by (auto simp: people_ok_def set_update_rows)
  ultimately show ?thesis using assms(1) m by (simp add: people_ok_def)
qed

subsection \<open>The operations keep consistency\<close>

lemma update_identity_ok:
  assumes "people_ok db" and "update_identity db platform row now = (x, db')"
  shows "people_ok db'"
proof -
  have "db' = db\<lparr>pd_identities := update_rows (is_identity platform (ur_external_id row)) (refreshed row now) (pd_identities db)\<rparr>"
    using assms(2) by (simp add: update_identity_def Let_def)
  then show ?thesis using assms(1) by (simp add: people_ok_identity_update refreshed_def)
qed

lemma insert_delete_person:
  assumes "people_ok db" and that: "pd_next_identity db \<le> n"
  shows "people_ok ((delete_person (pd_next_person db) (snd (insert_person db name phone)))\<lparr>pd_next_identity := n\<rparr>)"
proof -
  have "filter (\<lambda>r. pn_id r \<noteq> pd_next_person db) (pd_people db) = pd_people db"
    using assms by (intro filter_True) (auto simp: people_ok_def)
  then show ?thesis
    using assms that by (fastforce simp: people_ok_def insert_person_def delete_person_def)
qed

text \<open>Consistency in terms of the key columns.\<close>

definition keys_ok :: "int \<Rightarrow> int \<Rightarrow> int list \<Rightarrow> int list \<Rightarrow> (string \<times> int) list \<Rightarrow> int list \<Rightarrow> bool" where
  "keys_ok np ni ps is ks os \<longleftrightarrow> distinct ps \<and> (\<forall>x \<in> set ps. x < np) \<and> distinct is \<and>
     (\<forall>x \<in> set is. x < ni) \<and> distinct ks \<and> set ps = set os"

lemma people_ok_keys:
  "people_ok db \<longleftrightarrow> keys_ok (pd_next_person db) (pd_next_identity db) (map pn_id (pd_people db))
     (map idn_id (pd_identities db)) (map (\<lambda>i. (idn_platform i, idn_external i)) (pd_identities db))
     (map idn_person_id (pd_identities db))"
  by (simp add: people_ok_def keys_ok_def)

lemma keys_ok_append:
  assumes "keys_ok np ni ps is ks os" and "k \<notin> set ks"
  shows "keys_ok (np + 1) (ni + 1) (ps @ [np]) (is @ [ni]) (ks @ [k]) (os @ [np])"
proof -
  have "np \<notin> set ps" "ni \<notin> set is" using assms(1) by (auto simp: keys_ok_def)
  moreover have "x < np + 1" if "x \<in> set ps" for x using assms(1) that by (auto simp: keys_ok_def intro: less_imp_le)
  moreover have "x < ni + 1" if "x \<in> set is" for x using assms(1) that by (auto simp: keys_ok_def intro: less_imp_le)
  ultimately show ?thesis using assms unfolding keys_ok_def by simp
qed

lemma insert_person_facts:
  assumes ok: "people_ok db" and q: "insert_person db name phone = (q, db1)"
  shows "q = pd_next_person db" "pd_next_person db1 = q + 1" "pd_identities db1 = pd_identities db"
    "pd_next_identity db1 = pd_next_identity db" "distinct (map pn_id (pd_people db1))"
    "\<forall>r \<in> set (pd_people db1). pn_id r < q + 1"
    "pn_id ` set (pd_people db1) = insert q (pn_id ` set (pd_people db))"
proof -
  show sel: "q = pd_next_person db" "pd_next_person db1 = q + 1" "pd_identities db1 = pd_identities db"
    "pd_next_identity db1 = pd_next_identity db"
    using q by (auto simp: insert_person_def)
  have m: "map pn_id (pd_people db1) = map pn_id (pd_people db) @ [q]"
    using q by (auto simp: insert_person_def)
  show set: "pn_id ` set (pd_people db1) = insert q (pn_id ` set (pd_people db))"
    using arg_cong [OF m, of set] by simp
  have "\<forall>p \<in> set (pd_people db). pn_id p < q" using ok sel(1) unfolding people_ok_def by blast
  then have below: "\<forall>x \<in> pn_id ` set (pd_people db). x < q" by blast
  then have "q \<notin> pn_id ` set (pd_people db)" by blast
  then show "distinct (map pn_id (pd_people db1))" using ok m by (simp add: people_ok_def)
  show "\<forall>r \<in> set (pd_people db1). pn_id r < q + 1"
  proof
    fix r assume "r \<in> set (pd_people db1)"
    then have "pn_id r \<in> insert q (pn_id ` set (pd_people db))" using set by blast
    then show "pn_id r < q + 1" using below by force
  qed
qed

lemma create_identity_ok:
  assumes ok: "people_ok db" and c: "create_identity db platform row now = (x, db')"
  shows "people_ok db'"
proof -
  obtain p db1 where p: "insert_person db (display_name row) (normalize_phone (ur_phone row)) = (p, db1)"
    by (rule prod.exhaust)
  then have p_sel: "p = pd_next_person db" "pd_identities db1 = pd_identities db" "pd_next_identity db1 = pd_next_identity db"
    by (auto simp: insert_person_def)
  show ?thesis
  proof (cases "list_ex (is_identity platform (ur_external_id row)) (pd_identities db1)")
    case True
    have "people_ok ((delete_person p db1)\<lparr>pd_next_identity := pd_next_identity db1 + 1\<rparr>)"
      using insert_delete_person [OF ok, of "pd_next_identity db + 1" "display_name row" "normalize_phone (ur_phone row)"]
        p p_sel by simp
    then show ?thesis
      by (rule update_identity_ok) (use c p True in \<open>simp add: create_identity_def\<close>)
  next
    case False
    then have db': "pd_people db' = pd_people db1" "pd_next_person db' = pd_next_person db1"
      "pd_identities db' = pd_identities db @ [new_identity (pd_next_identity db) p platform row now]"
      "pd_next_identity db' = pd_next_identity db + 1"
      using c p p_sel by (auto simp: create_identity_def)
    have key: "(platform, ur_external_id row) \<notin> set (map (\<lambda>i. (idn_platform i, idn_external i)) (pd_identities db))"
      using False p_sel by (auto simp: list_ex_iff is_identity_def)
    have keys: "map pn_id (pd_people db1) = map pn_id (pd_people db) @ [pd_next_person db]"
      "pd_next_person db1 = pd_next_person db + 1"
      using p by (auto simp: insert_person_def)
    have rows: "map idn_id (pd_identities db') = map idn_id (pd_identities db) @ [pd_next_identity db]"
      "map idn_person_id (pd_identities db') = map idn_person_id (pd_identities db) @ [pd_next_person db]"
      "map (\<lambda>i. (idn_platform i, idn_external i)) (pd_identities db')
        = map (\<lambda>i. (idn_platform i, idn_external i)) (pd_identities db) @ [(platform, ur_external_id row)]"
      unfolding db'(3) by (simp_all add: new_identity_def p_sel(1))
    note old = ok [unfolded people_ok_keys]
    have "keys_ok (pd_next_person db + 1) (pd_next_identity db + 1)
        (map pn_id (pd_people db) @ [pd_next_person db]) (map idn_id (pd_identities db) @ [pd_next_identity db])
        (map (\<lambda>i. (idn_platform i, idn_external i)) (pd_identities db) @ [(platform, ur_external_id row)])
        (map idn_person_id (pd_identities db) @ [pd_next_person db])"
      by (rule keys_ok_append [OF old key])
    then show ?thesis
      by (simp only: people_ok_keys rows db'(1,2,4) keys)
  qed
qed

lemma merge_candidate_Some:
  assumes "merge_candidate db me = Some other"
  shows "other \<in> set (pd_identities db)" "idn_phone other = idn_phone me" "idn_platform other \<noteq> idn_platform me"
    "idn_person_id other \<noteq> idn_person_id me" "\<not> idn_pinned other"
proof -
  let ?c = "filter (\<lambda>i. idn_phone i = idn_phone me \<and> idn_platform i \<noteq> idn_platform me \<and>
    idn_person_id i \<noteq> idn_person_id me \<and> \<not> idn_pinned i) (pd_identities db)"
  obtain r where "sort_key idn_person_id ?c = other # r"
    using assms unfolding merge_candidate_def by (auto split: list.splits)
  then have "other \<in> set (sort_key idn_person_id ?c)" by (metis list.set_intros(1))
  then have "other \<in> set ?c" by (simp only: set_sort)
  then show "other \<in> set (pd_identities db)" "idn_phone other = idn_phone me" "idn_platform other \<noteq> idn_platform me"
    "idn_person_id other \<noteq> idn_person_id me" "\<not> idn_pinned other" by simp_all
qed

text \<open>The move of an auto-merge, unfolded.\<close>

lemma auto_mergeE:
  assumes "auto_merge srt i db \<noteq> db"
  obtains me other target source moved where
    "identity_by_id db i = Some me" "\<not> idn_pinned me" "merge_candidate db me = Some other"
    "target = min (idn_person_id me) (idn_person_id other)" "source = max (idn_person_id me) (idn_person_id other)"
    "moved = (if idn_person_id me = source then i else idn_id other)"
    "auto_merge srt i db = log_merge \<lparr>ml_action = ''auto_merge'', ml_from = Some source, ml_to = Some target,
       ml_identity = Some moved, ml_reason = Some (''phone '' @ (case idn_phone me of Some p \<Rightarrow> p | None \<Rightarrow> []))\<rparr>
       (absorb_person srt target source
         (set_person (\<lambda>j. idn_id j = moved) (\<lambda>j. j\<lparr>idn_person_id := target\<rparr>) db))"
proof -
  obtain me where me: "identity_by_id db i = Some me" "\<not> idn_pinned me" "nonempty (idn_phone me) \<noteq> None"
    using assms by (auto simp: auto_merge_def split: option.splits if_splits)
  then obtain other where other: "merge_candidate db me = Some other"
    using assms by (auto simp: auto_merge_def split: option.splits)
  show thesis
    by (rule that [OF me(1,2) other refl refl refl]) (use me other in \<open>auto simp: auto_merge_def Let_def\<close>)
qed

lemma identity_by_id_Some: "identity_by_id db i = Some me \<Longrightarrow> me \<in> set (pd_identities db) \<and> idn_id me = i"
  unfolding identity_by_id_def by (rule one_or_none_Some)

lemma people_ok_same_id:
  "people_ok db \<Longrightarrow> x \<in> set (pd_identities db) \<Longrightarrow> y \<in> set (pd_identities db) \<Longrightarrow> idn_id x = idn_id y \<Longrightarrow> x = y"
  by (auto simp: people_ok_def distinct_map inj_on_def)

lemma auto_merge_ok:
  assumes ok: "people_ok db"
  shows "people_ok (auto_merge srt i db)"
proof (cases "auto_merge srt i db = db")
  case False
  then obtain me other target source moved where m:
    "identity_by_id db i = Some me" "merge_candidate db me = Some other"
    "target = min (idn_person_id me) (idn_person_id other)" "source = max (idn_person_id me) (idn_person_id other)"
    "moved = (if idn_person_id me = source then i else idn_id other)"
    and eq: "auto_merge srt i db = log_merge \<lparr>ml_action = ''auto_merge'', ml_from = Some source, ml_to = Some target,
       ml_identity = Some moved, ml_reason = Some (''phone '' @ (case idn_phone me of Some p \<Rightarrow> p | None \<Rightarrow> []))\<rparr>
       (absorb_person srt target source (set_person (\<lambda>j. idn_id j = moved) (\<lambda>j. j\<lparr>idn_person_id := target\<rparr>) db))"
    by (rule auto_mergeE)
  have me: "me \<in> set (pd_identities db)" "idn_id me = i" using identity_by_id_Some [OF m(1)] by simp_all
  note other = merge_candidate_Some [OF m(2)]
  have mover: "\<exists>x \<in> set (pd_identities db). idn_id x = moved \<and> idn_person_id x = source"
    using me other(1) m(3-5) by (auto simp: max_def split: if_splits)
  have "people_but source (set_person (\<lambda>j. idn_id j = moved) (\<lambda>j. j\<lparr>idn_person_id := target\<rparr>) db)"
  proof (rule set_person_but [where target = target])
    show "x \<in> set (pd_identities db) \<Longrightarrow> idn_id x = moved \<Longrightarrow> idn_person_id x = source" for x
      using mover people_ok_same_id [OF ok] by metis
    show "\<exists>x \<in> set (pd_identities db). idn_id x = moved" using mover by blast
    show "target \<in> pn_id ` set (pd_people db)"
      using ok me(1) other(1) m(3) by (auto simp: people_ok_def min_def)
  qed (use ok in simp_all)
  then show ?thesis by (simp add: eq absorb_person_ok)
qed (use ok in simp)

lemma people_but_identity_update:
  assumes "people_but p db" and "\<And>i. idn_person_id (f i) = idn_person_id i" "\<And>i. idn_id (f i) = idn_id i"
    "\<And>i. idn_platform (f i) = idn_platform i" "\<And>i. idn_external (f i) = idn_external i"
  shows "people_but p (set_person P f db)"
proof -
  let ?is = "pd_identities db" and ?js = "update_rows P f (pd_identities db)"
  have "map idn_id ?js = map idn_id ?is" "map idn_person_id ?js = map idn_person_id ?is"
    "map (\<lambda>i. (idn_platform i, idn_external i)) ?js = map (\<lambda>i. (idn_platform i, idn_external i)) ?is"
    by (rule map_update_rows; simp add: assms)+
  moreover from this(2) have "idn_person_id ` set ?js = idn_person_id ` set ?is" by (metis image_set)
  moreover have "\<forall>i \<in> set ?js. idn_id i < pd_next_identity db"
    using assms(1,3) by (auto simp: people_but_def set_update_rows)
  ultimately show ?thesis using assms(1) by (simp add: people_but_def set_person_def)
qed

text \<open>An identity handed to a person just created.\<close>

lemma split_but:
  assumes ok: "people_ok db" and me: "ident \<in> set (pd_identities db)" "idn_id ident = i"
    and q: "insert_person db name phone = (q, db1)"
  shows "people_but (idn_person_id ident) (set_person (\<lambda>j. idn_id j = i)
    (\<lambda>j. j\<lparr>idn_person_id := q, idn_pinned := True\<rparr>) db1)"
proof -
  let ?f = "\<lambda>j. j\<lparr>idn_person_id := q, idn_pinned := True\<rparr>"
  let ?is = "pd_identities db" and ?js = "update_rows (\<lambda>j. idn_id j = i) ?f (pd_identities db)"
  note q_sel = insert_person_facts [OF ok q]
  have ids: "map idn_id ?js = map idn_id ?is" by (rule map_update_rows) simp
  have keys: "map (\<lambda>i. (idn_platform i, idn_external i)) ?js = map (\<lambda>i. (idn_platform i, idn_external i)) ?is"
    by (rule map_update_rows) simp
  have is_ident: "idn_id x = i \<longleftrightarrow> x = ident" if "x \<in> set ?is" for x
    using people_ok_same_id [OF ok that me(1)] me(2) by auto
  have js: "set ?js = insert (?f ident) (set ?is - {ident})"
    using is_ident me(1) by (auto simp: set_update_rows)
  have "insert (idn_person_id ident) (idn_person_id ` set ?js) = insert q (idn_person_id ` set ?is)"
    unfolding js using me(1) by (auto simp: image_iff)
  then have owners: "pn_id ` set (pd_people db1) = insert (idn_person_id ident) (idn_person_id ` set ?js)"
    using ok q_sel(7) by (simp add: people_ok_def)
  have "\<forall>j \<in> set ?js. idn_id j < pd_next_identity db" using ok by (auto simp: people_ok_def set_update_rows)
  with q_sel(5,6) show ?thesis
    using ok ids keys owners q_sel(2,3,4) by (simp add: people_but_def people_ok_def set_person_def)
qed

lemma fill_primary_phone_ok: "people_ok db \<Longrightarrow> people_ok (fill_primary_phone ph i db)"
  unfolding fill_primary_phone_def by (rule people_ok_person_update) simp_all

lemma upsert_identity_ok:
  assumes "people_ok db" and "\<And>d. people_ok d \<Longrightarrow> people_ok (mid d)"
    and "upsert_identity srt mid db platform row now = Inr (ident, db')"
  shows "people_ok db'"
proof -
  obtain x db1 where u: "update_identity db platform row now = (x, db1)" by (rule prod.exhaust)
  obtain y db2 where y: "(case x of Some i \<Rightarrow> (Some i, db1) | None \<Rightarrow> create_identity (mid db1) platform row now) = (y, db2)"
    by (rule prod.exhaust)
  have "people_ok db1" using update_identity_ok [OF assms(1) u] .
  with y assms(2) have "people_ok db2" by (auto split: option.splits intro: create_identity_ok)
  with assms(3) u y show ?thesis
    by (auto simp: upsert_identity_def split: if_splits option.splits prod.splits intro!: auto_merge_ok fill_primary_phone_ok)
qed

lemma person_by_id_mem: "person_by_id db p \<noteq> None \<Longrightarrow> p \<in> pn_id ` set (pd_people db)"
  unfolding person_by_id_def using one_or_none_Some by fastforce

lemma merge_people_ok:
  assumes ok: "people_ok db" and m: "merge_people srt owner db f t reason = Inr db'"
  shows "people_ok db'"
proof -
  from m have ne: "f \<noteq> t" and mem: "f \<in> pn_id ` set (pd_people db)" "t \<in> pn_id ` set (pd_people db)"
    using person_by_id_mem by (auto simp: merge_people_def split: if_splits)
  let ?db1 = "set_person (\<lambda>i. idn_person_id i = f) (\<lambda>i. i\<lparr>idn_person_id := t, idn_pinned := True\<rparr>) db"
  let ?db2 = "set_person (\<lambda>i. idn_person_id i = t) (\<lambda>i. i\<lparr>idn_pinned := True\<rparr>) ?db1"
  have "people_but f ?db1"
    by (rule set_person_but [where target = t, OF ok]) (use mem ok in \<open>auto simp: people_ok_def\<close>)
  then have "people_but f ?db2"
    by (rule people_but_identity_update) simp_all
  moreover have "db' = log_merge \<lparr>ml_action = ''merge'', ml_from = Some f, ml_to = Some t,
      ml_identity = None, ml_reason = reason\<rparr> (absorb_person srt t f ?db2)"
    using m by (auto simp: merge_people_def Let_def split: if_splits)
  ultimately show ?thesis by (simp add: absorb_person_ok)
qed

lemma split_identity_ok:
  assumes ok: "people_ok db" and s: "split_identity owner db i reason = Inr (p, db')"
  shows "people_ok db'"
proof -
  obtain ident where ident: "identity_by_id db i = Some ident"
    using s by (auto simp: split_identity_def split: if_splits option.splits)
  note me = identity_by_id_Some [OF ident]
  let ?name = "nonempty (or_else (Some (full_name (idn_first_name ident) (idn_last_name ident))) (idn_username ident))"
  obtain q db1 where q: "insert_person db ?name (idn_phone ident) = (q, db1)" by (rule prod.exhaust)
  let ?db2 = "set_person (\<lambda>j. idn_id j = i) (\<lambda>j. j\<lparr>idn_person_id := q, idn_pinned := True\<rparr>) db1"
  have "people_but (idn_person_id ident) ?db2"
    using split_but [OF ok me [THEN conjunct1] me [THEN conjunct2] q] .
  moreover have "db' = log_merge \<lparr>ml_action = ''split'', ml_from = Some (idn_person_id ident), ml_to = Some q,
      ml_identity = Some i, ml_reason = reason\<rparr> (delete_if_empty (idn_person_id ident) ?db2)"
    using s ident q by (auto simp: split_identity_def Let_def split: if_splits)
  ultimately show ?thesis by (simp add: delete_if_empty_ok)
qed

lemma update_person_ok: "people_ok db \<Longrightarrow> update_person owner db p n t nt = Inr (x, db') \<Longrightarrow> people_ok db'"
  by (auto simp: update_person_def Let_def split: if_splits intro: people_ok_person_update)

subsection \<open>Cards: identities without their person\<close>

definition card_of :: "identity \<Rightarrow> identity" where
  "card_of i = i\<lparr>idn_person_id := 0\<rparr>"

lemma card_of_sel:
  assumes "card_of i = card_of j"
  shows "idn_id i = idn_id j" "idn_platform i = idn_platform j" "idn_external i = idn_external j"
    "idn_pinned i = idn_pinned j" "idn_username i = idn_username j" "idn_first_name i = idn_first_name j"
    "idn_last_name i = idn_last_name j" "idn_phone i = idn_phone j"
  using assms by (cases i; cases j; simp add: card_of_def)+

lemma absorb_person_identities [simp]: "pd_identities (absorb_person srt t s db) = pd_identities db"
  by (simp add: absorb_person_def delete_if_empty_def delete_person_def split: option.split)

lemma log_merge_identities [simp]: "pd_identities (log_merge l db) = pd_identities db"
  by (simp add: log_merge_def)

lemma fill_primary_phone_identities [simp]: "pd_identities (fill_primary_phone ph i db) = pd_identities db"
  by (simp add: fill_primary_phone_def)

lemma auto_merge_identities:
  assumes ok: "people_ok db"
  shows "\<exists>moved target. pd_identities (auto_merge srt i db)
      = update_rows (\<lambda>j. idn_id j = moved) (\<lambda>j. j\<lparr>idn_person_id := target\<rparr>) (pd_identities db) \<and>
    (\<forall>j \<in> set (pd_identities db). idn_id j = moved \<longrightarrow> target \<le> idn_person_id j \<and>
       (idn_pinned j \<longrightarrow> target = idn_person_id j))"
proof (cases "auto_merge srt i db = db")
  case True
  have none: "idn_id j \<noteq> pd_next_identity db" if "j \<in> set (pd_identities db)" for j
    using ok that by (auto simp: people_ok_def)
  then have "update_rows (\<lambda>j. idn_id j = pd_next_identity db) f (pd_identities db) = pd_identities db" for f
    unfolding update_rows_def by (intro map_idI) auto
  with none show ?thesis unfolding True
    by (intro exI [of _ "pd_next_identity db"] exI [of _ "0 :: int"]) auto
next
  case False
  then obtain me other target source moved where m:
    "identity_by_id db i = Some me" "\<not> idn_pinned me" "merge_candidate db me = Some other"
    "target = min (idn_person_id me) (idn_person_id other)" "source = max (idn_person_id me) (idn_person_id other)"
    "moved = (if idn_person_id me = source then i else idn_id other)"
    and eq: "auto_merge srt i db = log_merge \<lparr>ml_action = ''auto_merge'', ml_from = Some source, ml_to = Some target,
       ml_identity = Some moved, ml_reason = Some (''phone '' @ (case idn_phone me of Some p \<Rightarrow> p | None \<Rightarrow> []))\<rparr>
       (absorb_person srt target source (set_person (\<lambda>j. idn_id j = moved) (\<lambda>j. j\<lparr>idn_person_id := target\<rparr>) db))"
    by (rule auto_mergeE)
  note me = identity_by_id_Some [OF m(1)] and other = merge_candidate_Some [OF m(3)]
  obtain x where x: "x \<in> set (pd_identities db)" "idn_id x = moved" "\<not> idn_pinned x" "target \<le> idn_person_id x"
  proof (cases "idn_person_id me = source")
    case True
    show thesis by (rule that [of me]) (use True me m(2,4,6) in simp_all)
  next
    case False
    show thesis by (rule that [of other]) (use False other(1,5) m(4,6) in simp_all)
  qed
  have only: "target \<le> idn_person_id j \<and> (idn_pinned j \<longrightarrow> target = idn_person_id j)"
    if "j \<in> set (pd_identities db)" "idn_id j = moved" for j
  proof -
    have "j = x" using people_ok_same_id [OF ok that(1) x(1)] that(2) x(2) by simp
    with x(3,4) show ?thesis by simp
  qed
  have "pd_identities (auto_merge srt i db)
      = update_rows (\<lambda>j. idn_id j = moved) (\<lambda>j. j\<lparr>idn_person_id := target\<rparr>) (pd_identities db)"
    unfolding eq by (simp add: set_person_def)
  with only show ?thesis by (intro exI [of _ moved] exI [of _ target] conjI ballI impI) auto
qed

lemma update_rows_cards:
  "map card_of (update_rows P (\<lambda>j. j\<lparr>idn_person_id := t\<rparr>) is) = map card_of is"
  by (rule map_update_rows) (simp add: card_of_def)

lemma auto_merge_cards: "people_ok db \<Longrightarrow> map card_of (pd_identities (auto_merge srt i db)) = map card_of (pd_identities db)"
  using auto_merge_identities [of db srt i] update_rows_cards by metis

subsection \<open>The identity an upsert leaves\<close>

text \<open>The row is in: one identity has its key, the id is returned, no given value is lost.\<close>

definition row_in :: "string \<Rightarrow> user_row \<Rightarrow> int option \<Rightarrow> identity list \<Rightarrow> bool" where
  "row_in platform row x is \<longleftrightarrow> (\<exists>i \<in> set is. x = Some (idn_id i) \<and> idn_platform i = platform \<and>
     idn_external i = ur_external_id row \<and>
     (nonempty (ur_username row) \<noteq> None \<longrightarrow> idn_username i = nonempty (ur_username row)) \<and>
     (nonempty (ur_first_name row) \<noteq> None \<longrightarrow> idn_first_name i = nonempty (ur_first_name row)) \<and>
     (nonempty (ur_last_name row) \<noteq> None \<longrightarrow> idn_last_name i = nonempty (ur_last_name row)) \<and>
     (normalize_phone (ur_phone row) \<noteq> None \<longrightarrow> idn_phone i = normalize_phone (ur_phone row)))"

lemma row_in_cards:
  assumes "row_in platform row x is" and "map card_of js = map card_of is"
  shows "row_in platform row x js"
proof -
  from assms(1) obtain i where i: "i \<in> set is" and p: "x = Some (idn_id i)" "idn_platform i = platform"
     "idn_external i = ur_external_id row"
     "nonempty (ur_username row) \<noteq> None \<longrightarrow> idn_username i = nonempty (ur_username row)"
     "nonempty (ur_first_name row) \<noteq> None \<longrightarrow> idn_first_name i = nonempty (ur_first_name row)"
     "nonempty (ur_last_name row) \<noteq> None \<longrightarrow> idn_last_name i = nonempty (ur_last_name row)"
     "normalize_phone (ur_phone row) \<noteq> None \<longrightarrow> idn_phone i = normalize_phone (ur_phone row)"
    unfolding row_in_def by blast
  have "card_of i \<in> set (map card_of js)" using i assms(2) by simp
  then obtain j where j: "j \<in> set js" "card_of j = card_of i" by auto
  from card_of_sel [OF j(2)] p j(1) show ?thesis unfolding row_in_def by (intro bexI [of _ j]) simp_all
qed

lemma coalesce_given: "x \<noteq> None \<Longrightarrow> coalesce x y = x"
  by (auto simp: coalesce_def)

lemma update_identity_in:
  assumes "update_identity db platform row now = (x, db')"
    and "\<exists>i \<in> set (pd_identities db). is_identity platform (ur_external_id row) i"
  shows "row_in platform row x (pd_identities db')"
proof -
  let ?hit = "is_identity platform (ur_external_id row)"
  obtain i where i: "one_or_none ?hit (pd_identities db) = Some i"
    using assms(2) by (cases "one_or_none ?hit (pd_identities db)") (auto simp: one_or_none_None)
  then have "i \<in> set (pd_identities db)" "?hit i" using one_or_none_Some [OF i] by simp_all
  then have "refreshed row now i \<in> set (pd_identities db')" "x = Some (idn_id i)"
    using assms(1) i by (auto simp: update_identity_def Let_def set_update_rows)
  with \<open>?hit i\<close> show ?thesis unfolding row_in_def
    by (intro bexI [of _ "refreshed row now i"]) (simp_all add: refreshed_def is_identity_def coalesce_given)
qed

lemma create_identity_in:
  assumes "create_identity db platform row now = (x, db')"
  shows "row_in platform row x (pd_identities db')"
proof -
  obtain p db1 where p: "insert_person db (display_name row) (normalize_phone (ur_phone row)) = (p, db1)"
    by (rule prod.exhaust)
  show ?thesis
  proof (cases "list_ex (is_identity platform (ur_external_id row)) (pd_identities db1)")
    case True
    then show ?thesis using assms p
      by (intro update_identity_in [where db = "(delete_person p db1)\<lparr>pd_next_identity := pd_next_identity db1 + 1\<rparr>"])
         (auto simp: create_identity_def delete_person_def list_ex_iff)
  next
    case False
    then show ?thesis using assms p unfolding row_in_def create_identity_def
      by (auto simp: new_identity_def)
  qed
qed

subsection \<open>The best way to a person\<close>

text \<open>
  The order the way is chosen by: rank first, then the id of the identity.
\<close>

definition better :: "identity \<times> reach_method \<Rightarrow> identity \<times> reach_method \<Rightarrow> bool" where
  "better c d \<longleftrightarrow> rank (snd c) < rank (snd d) \<or>
     (rank (snd c) = rank (snd d) \<and> idn_id (fst c) \<le> idn_id (fst d))"

lemma better_refl [simp]: "better c c"
  by (simp add: better_def)

lemma better_trans: "better c d \<Longrightarrow> better d e \<Longrightarrow> better c e"
  by (auto simp: better_def)

lemma rank_inj: "rank m = rank n \<Longrightarrow> m = n"
  by (cases m; cases n) auto

definition ways :: "(identity \<Rightarrow> reach_method option) \<Rightarrow> identity list \<Rightarrow> (identity \<times> reach_method) list" where
  "ways reach is = List.map_filter (\<lambda>i. map_option (Pair i) (reach i)) is"

lemma ways_simps [simp]:
  "ways reach [] = []"
  "ways reach (i # is) = (case reach i of None \<Rightarrow> ways reach is | Some m \<Rightarrow> (i, m) # ways reach is)"
  by (auto simp: ways_def List.map_filter_simps split: option.split)

lemma set_ways: "(i, m) \<in> set (ways reach is) \<longleftrightarrow> i \<in> set is \<and> reach i = Some m"
  by (induction "is") (auto split: option.splits)

text \<open>The loop keeps the best of what it has seen: \<open>best\<close> stands for all before it.\<close>

lemma best_reach_best:
  assumes "sorted (map idn_id is)" and "\<And>c j. b = Some c \<Longrightarrow> j \<in> set is \<Longrightarrow> idn_id (fst c) \<le> idn_id j"
  shows "(best_reach reach b is = None \<longleftrightarrow> b = None \<and> ways reach is = []) \<and>
    (\<forall>c. best_reach reach b is = Some c \<longrightarrow> (c \<in> set (ways reach is) \<or> b = Some c) \<and>
       (\<forall>d \<in> set (ways reach is). better c d) \<and> (\<forall>d. b = Some d \<longrightarrow> better c d))"
  using assms
proof (induction "is" arbitrary: b)
  case Nil
  then show ?case by auto
next
  case (Cons i "is")
  have sorted: "sorted (map idn_id is)" "\<And>j. j \<in> set is \<Longrightarrow> idn_id i \<le> idn_id j"
    using Cons.prems(1) by auto
  show ?case
  proof (cases "reach i")
    case None
    with Cons.IH [OF sorted(1), of b] Cons.prems(2) show ?thesis by auto
  next
    case (Some m)
    show ?thesis
    proof (cases "\<exists>c. b = Some c \<and> \<not> rank m < rank (snd c)")
      case True
      then obtain c where c: "b = Some c" "\<not> rank m < rank (snd c)" by blast
      have bc: "better c (i, m)" using c Cons.prems(2) [OF c(1), of i] by (auto simp: better_def)
      have step: "best_reach reach b (i # is) = best_reach reach b is"
        using c Some by (cases c) simp
      show ?thesis
        using Cons.IH [OF sorted(1), of b] Cons.prems(2) c(1) bc Some unfolding step
        by (auto intro: better_trans)
    next
      case False
      have step: "best_reach reach b (i # is) = best_reach reach (Some (i, m)) is"
        using False Some by (cases b) auto
      have old: "better (i, m) c" if "b = Some c" for c using False that by (auto simp: better_def)
      have prem: "idn_id (fst c) \<le> idn_id j" if "Some (i, m) = Some c" "j \<in> set is" for c j
        using that sorted(2) by auto
      show ?thesis using Cons.IH [of "Some (i, m)", OF sorted(1) prem] old Some unfolding step
        by (auto intro: better_trans)
    qed
  qed
qed

text \<open>One per key: the first of each.\<close>

lemma set_distinct_on: "x \<in> set (distinct_on key xs) \<longleftrightarrow> (\<exists>r. filter (\<lambda>y. key y = key x) xs = x # r)"
proof (induction key xs rule: distinct_on.induct)
  case (2 key y ys)
  show ?case
  proof (cases "key y = key x")
    case True
    then have "x \<notin> set (distinct_on key (filter (\<lambda>z. key z \<noteq> key y) ys))"
      using 2 by (auto simp: filter_filter)
    with True show ?thesis by auto
  next
    case False
    then have "filter (\<lambda>z. key z = key x) (filter (\<lambda>z. key z \<noteq> key y) ys) = filter (\<lambda>z. key z = key x) ys"
      by (auto simp: filter_filter intro: filter_cong)
    with 2 False show ?thesis by auto
  qed
qed simp

text \<open>The head of rows sorted by rank, stably, from rows sorted by id.\<close>

lemma sorted_head:
  fixes f g :: "'a \<Rightarrow> nat" and h :: "'a \<Rightarrow> int"
  assumes "sort_key g xs = x # r" and "sorted (map h xs)" and "y \<in> set xs"
  shows "x \<in> set xs \<and> (g x < g y \<or> (g x = g y \<and> h x \<le> h y))"
proof -
  have x: "x \<in> set xs" using assms(1) by (metis list.set_intros(1) set_sort)
  have "sorted (map g (x # r))" using assms(1) by (metis sorted_sort_key)
  moreover have "y \<in> set (x # r)" using assms(1,3) by (metis set_sort)
  ultimately have gxy: "g x \<le> g y" by auto
  have "h x \<le> h y" if "g x = g y"
  proof -
    have "filter (\<lambda>z. g z = g x) xs = filter (\<lambda>z. g z = g x) (x # r)"
      using sort_key_stable [of g "g x" xs] assms(1) by simp
    then have f: "filter (\<lambda>z. g z = g x) xs = x # filter (\<lambda>z. g z = g x) r" by simp
    have "sorted (map h (filter (\<lambda>z. g z = g x) xs))" using assms(2) by (rule sorted_filter)
    moreover have "y \<in> set (filter (\<lambda>z. g z = g x) xs)" using assms(3) that by simp
    ultimately show ?thesis unfolding f by auto
  qed
  with gxy x show ?thesis by auto
qed

lemma best_unique:
  assumes "better c d" "better d c" "idn_id (fst c) = idn_id (fst d) \<Longrightarrow> fst c = fst d"
  shows "c = d"
  using assms rank_inj by (cases c; cases d) (auto simp: better_def)

text \<open>The SQL twin and the loop agree on an account's platform.\<close>

lemma reach_sql_of:
  assumes "idn_platform i = platform" and "idn_phone i \<noteq> Some []"
  shows "reach_sql platform i u = reach_of platform i u"
  using assms by (auto simp: reach_sql_def reach_of_def nonempty_def or_else_def split: option.splits)

lemma filter_ways: "(\<And>i m. Q (i, m) = P i) \<Longrightarrow> filter Q (ways reach is) = ways reach (filter P is)"
  by (induction "is") (auto split: option.split)

lemma ways_cong: "(\<And>i. i \<in> set is \<Longrightarrow> f i = g i) \<Longrightarrow> ways f is = ways g is"
  by (induction "is") (auto split: option.split)

lemma length_distinct_on: "length (distinct_on key xs) \<le> length xs"
  by (induction key xs rule: distinct_on.induct) (auto intro: order_trans [OF _ length_filter_le])

lemma length_ways: "length (ways reach is) \<le> length is"
  by (induction "is") (auto split: option.split)

lemma sort_key_const: "(\<And>x. x \<in> set xs \<Longrightarrow> f x = c) \<Longrightarrow> sort_key f xs = xs"
  by (rule sort_key_id_if_sorted) (induction xs; auto)

text \<open>The identities of one person on a platform, and the first of their ways.\<close>

definition own_identities :: "people_db \<Rightarrow> string \<Rightarrow> int \<Rightarrow> identity list" where
  "own_identities db platform p = filter (\<lambda>i. idn_person_id i = p \<and> idn_platform i = platform) (pd_identities db)"

lemma reachable_all:
  assumes phones: "\<forall>i \<in> set (pd_identities db). idn_phone i \<noteq> Some []" and n: "length (pd_identities db) \<le> n"
  shows "x \<in> set (reachable ilike db a platform None n 0) \<longleftrightarrow>
    (\<exists>r. sort_key (\<lambda>c. rank (snd c)) (sort_key (\<lambda>c. idn_id (fst c))
       (ways (\<lambda>i. reach_of platform i (user_of db a i)) (own_identities db platform (idn_person_id (fst x))))) = x # r)"
    (is "_ \<longleftrightarrow> (\<exists>r. ?own = x # r)")
proof -
  let ?is = "filter (\<lambda>i. idn_platform i = platform) (pd_identities db)"
  let ?c = "ways (\<lambda>i. reach_of platform i (user_of db a i)) ?is"
  let ?o = "sort_key (\<lambda>c. idn_person_id (fst c)) (sort_key (\<lambda>c. rank (snd c)) (sort_key (\<lambda>c. idn_id (fst c)) ?c))"
  let ?key = "\<lambda>c :: identity \<times> reach_method. idn_person_id (fst c)"
  have c: "ways (\<lambda>i. reach_sql platform i (user_of db a i)) ?is = ?c"
    using phones by (intro ways_cong) (auto simp: reach_sql_of)
  have "length (distinct_on ?key ?o) \<le> length ?c" using length_distinct_on [of ?key ?o] by simp
  also have "\<dots> \<le> length (pd_identities db)" using length_ways length_filter_le by (rule order_trans)
  finally have "length (distinct_on ?key ?o) \<le> n" using n by simp
  then have "reachable ilike db a platform None n 0 = distinct_on ?key ?o"
    unfolding reachable_def Let_def c [symmetric] by (simp add: nonempty_def or_else_def ways_def split_def)
  moreover have "filter (\<lambda>y. ?key y = ?key x) ?o = ?own"
  proof -
    have own: "filter (\<lambda>y. ?key y = ?key x) ?c
        = ways (\<lambda>i. reach_of platform i (user_of db a i)) (own_identities db platform (?key x))"
      by (subst filter_ways [where P = "\<lambda>i. idn_person_id i = ?key x"])
         (simp_all add: own_identities_def filter_filter conj_commute)
    have "filter (\<lambda>y. ?key y = ?key x) ?o = sort_key ?key (sort_key (\<lambda>c. rank (snd c)) (sort_key (\<lambda>c. idn_id (fst c))
        (filter (\<lambda>y. ?key y = ?key x) ?c)))"
      by (simp only: filter_sort)
    also have "\<dots> = sort_key (\<lambda>c. rank (snd c)) (sort_key (\<lambda>c. idn_id (fst c)) (filter (\<lambda>y. ?key y = ?key x) ?c))"
      by (rule sort_key_const [where c = "?key x"]) simp
    finally show ?thesis by (simp only: own)
  qed
  ultimately show ?thesis by (simp only: set_distinct_on)
qed

lemma reach_person_best:
  assumes ok: "people_ok db"
    and x: "sort_key (\<lambda>c. rank (snd c)) (sort_key (\<lambda>c. idn_id (fst c))
       (ways (\<lambda>i. reach_of platform i (user_of db a i)) (own_identities db platform p))) = x # r"
  shows "reach_person db a platform p = Some x"
proof -
  let ?reach = "\<lambda>i. reach_of platform i (user_of db a i)"
  let ?is = "sort_key idn_id (own_identities db platform p)"
  let ?w = "ways ?reach (own_identities db platform p)"
  have b: "(best_reach ?reach None ?is = None \<longleftrightarrow> ways ?reach ?is = []) \<and>
    (\<forall>c. best_reach ?reach None ?is = Some c \<longrightarrow> c \<in> set (ways ?reach ?is) \<and> (\<forall>d \<in> set (ways ?reach ?is). better c d))"
    using best_reach_best [of ?is None ?reach] by simp
  have same: "set (ways ?reach ?is) = set ?w" by (auto simp: set_ways)
  have best: "x \<in> set ?w \<and> (\<forall>d \<in> set ?w. better x d)"
  proof -
    have s: "sorted (map (\<lambda>c. idn_id (fst c)) (sort_key (\<lambda>c. idn_id (fst c)) ?w))" by simp
    have h: "x \<in> set ?w \<and> better x d" if "d \<in> set ?w" for d
      using sorted_head [OF x s, of d] that by (simp add: better_def)
    have "x \<in> set (sort_key (\<lambda>c. rank (snd c)) (sort_key (\<lambda>c. idn_id (fst c)) ?w))" unfolding x by simp
    then have "x \<in> set ?w" by (simp only: set_sort)
    with h show ?thesis by blast
  qed
  then have "ways ?reach ?is \<noteq> []" using same by (metis empty_iff empty_set)
  then obtain c where c: "best_reach ?reach None ?is = Some c" using b by fastforce
  then have c': "c \<in> set ?w" "\<forall>d \<in> set ?w. better c d" using b same by blast+
  have "fst y \<in> set (pd_identities db)" if "y \<in> set ?w" for y
    using that set_ways [of "fst y" "snd y"] by (simp add: own_identities_def)
  then have "c = x"
    using best_unique [of c x] people_ok_same_id [OF ok, of "fst c" "fst x"] best c' by blast
  then show ?thesis using c by (simp add: reach_person_def own_identities_def)
qed

lemma reach_person_None:
  "reach_person db a platform p = None \<longleftrightarrow> ways (\<lambda>i. reach_of platform i (user_of db a i)) (own_identities db platform p) = []"
proof -
  let ?reach = "\<lambda>i. reach_of platform i (user_of db a i)"
  let ?is = "sort_key idn_id (own_identities db platform p)"
  have "reach_person db a platform p = None \<longleftrightarrow> ways ?reach ?is = []"
    using best_reach_best [of ?is None ?reach] by (simp add: reach_person_def own_identities_def)
  also have "\<dots> \<longleftrightarrow> set (ways ?reach ?is) = {}" by simp
  also have "set (ways ?reach ?is) = set (ways ?reach (own_identities db platform p))" by (auto simp: set_ways)
  finally show ?thesis by simp
qed

subsection \<open>A manual merge, row by row\<close>

definition merged_identity :: "int \<Rightarrow> int \<Rightarrow> identity \<Rightarrow> identity" where
  "merged_identity f t i =
    (if idn_person_id i \<in> {f, t} then i\<lparr>idn_person_id := t, idn_pinned := True\<rparr> else i)"

lemma person_by_id_Some: "person_by_id db p = Some r \<Longrightarrow> r \<in> set (pd_people db) \<and> pn_id r = p"
  unfolding person_by_id_def by (rule one_or_none_Some)

lemma merge_people_parts:
  assumes m: "merge_people srt owner db f t reason = Inr db'"
    and rows: "person_by_id db f = Some pf" "person_by_id db t = Some pt"
  shows "pd_people db' = filter (\<lambda>r. pn_id r \<noteq> f) (update_rows (\<lambda>r. pn_id r = t) (absorbed srt pf) (pd_people db))"
    and "set (pd_identities db') = merged_identity f t ` set (pd_identities db)"
proof -
  let ?db1 = "set_person (\<lambda>i. idn_person_id i = f) (\<lambda>i. i\<lparr>idn_person_id := t, idn_pinned := True\<rparr>) db"
  let ?db2 = "set_person (\<lambda>i. idn_person_id i = t) (\<lambda>i. i\<lparr>idn_pinned := True\<rparr>) ?db1"
  from m have ft: "f \<noteq> t" by (auto simp: merge_people_def split: if_splits)
  have db': "db' = log_merge \<lparr>ml_action = ''merge'', ml_from = Some f, ml_to = Some t,
      ml_identity = None, ml_reason = reason\<rparr> (absorb_person srt t f ?db2)"
    using m by (auto simp: merge_people_def Let_def split: if_splits)
  have ids: "pd_identities ?db2 = map (merged_identity f t) (pd_identities db)"
    by (auto simp: set_person_def update_rows_def merged_identity_def)
  then show "set (pd_identities db') = merged_identity f t ` set (pd_identities db)" by (simp add: db')
  have none: "count_rows (\<lambda>i. idn_person_id i = f) (pd_identities ?db2) = 0"
    unfolding ids using ft by (auto simp: filter_empty_conv merged_identity_def)
  have "person_by_id ?db2 f = Some pf" using rows(1) by (simp add: person_by_id_def set_person_def)
  then show "pd_people db' = filter (\<lambda>r. pn_id r \<noteq> f) (update_rows (\<lambda>r. pn_id r = t) (absorbed srt pf) (pd_people db))"
    using none by (simp add: db' absorb_person_def delete_if_empty_def delete_person_def log_merge_def set_person_def)
qed

subsection \<open>The person's page and the way to the person\<close>

text \<open>An account knows an identity through one user at most.\<close>

definition users_ok :: "people_db \<Rightarrow> bool" where
  "users_ok db \<longleftrightarrow> distinct (map (\<lambda>u. (us_account_id u, us_identity_id u))
     (filter (\<lambda>u. us_identity_id u \<noteq> None) (pd_users db)))"

lemma find_cong_unique:
  assumes "\<And>x. x \<in> set xs \<Longrightarrow> P x \<Longrightarrow> x \<in> set ys \<and> Q x" and "\<And>y. y \<in> set ys \<Longrightarrow> Q y \<Longrightarrow> y \<in> set xs \<and> P y"
    and "\<And>x y. x \<in> set xs \<Longrightarrow> y \<in> set xs \<Longrightarrow> P x \<Longrightarrow> P y \<Longrightarrow> x = y"
  shows "find P xs = find Q ys"
proof (cases "find P xs")
  case None
  then show ?thesis using assms(2) by (metis find_None_iff)
next
  case (Some x)
  then have x: "x \<in> set xs" "P x" using one_or_none_Some [unfolded one_or_none_def, OF Some] by simp_all
  show ?thesis
  proof (cases "find Q ys")
    case None
    then show ?thesis using assms(1) [OF x] by (auto simp: find_None_iff)
  next
    case (Some y)
    have "y \<in> set ys" "Q y" using one_or_none_Some [unfolded one_or_none_def, OF Some] by simp_all
    then have "y = x" using assms(2,3) x by blast
    then show ?thesis using Some \<open>find P xs = Some x\<close> by simp
  qed
qed

lemma page_user:
  assumes "users_ok db" and "i \<in> set idents"
  shows "find (\<lambda>u. us_identity_id u = Some (idn_id i)) (rev (filter (\<lambda>u. us_account_id u = a \<and>
     (\<exists>i \<in> set idents. us_identity_id u = Some (idn_id i))) (pd_users db))) = user_of db a i"
  unfolding user_of_def
proof (rule find_cong_unique)
  fix x y
  assume "x \<in> set (rev (filter (\<lambda>u. us_account_id u = a \<and> (\<exists>i \<in> set idents. us_identity_id u = Some (idn_id i))) (pd_users db)))"
    "y \<in> set (rev (filter (\<lambda>u. us_account_id u = a \<and> (\<exists>i \<in> set idents. us_identity_id u = Some (idn_id i))) (pd_users db)))"
    "us_identity_id x = Some (idn_id i)" "us_identity_id y = Some (idn_id i)"
  then have "x \<in> set (filter (\<lambda>u. us_identity_id u \<noteq> None) (pd_users db))"
    "y \<in> set (filter (\<lambda>u. us_identity_id u \<noteq> None) (pd_users db))"
    "(us_account_id x, us_identity_id x) = (us_account_id y, us_identity_id y)" by auto
  then show "x = y" using assms(1) by (auto simp: users_ok_def distinct_map inj_on_def)
qed (use assms(2) in auto)

lemma first_reach_ways: "first_reach reach is = None \<longleftrightarrow> ways reach is = []"
  by (induction "is") (auto split: option.splits)

lemma first_reach_cong: "(\<And>i. i \<in> set is \<Longrightarrow> f i = g i) \<Longrightarrow> first_reach f is = first_reach g is"
  by (induction "is") (auto split: option.split)

lemma reach_of_platform: "reach_of platform i u = Some m \<Longrightarrow> idn_platform i = platform"
  by (simp add: reach_of_def split: if_splits)

lemma page_reach:
  assumes "users_ok db" and "acc_mode acc = ''rw''"
  shows "al_reachable (account_line_of sent db (identities_of db p) acc) = None \<longleftrightarrow>
    reach_person db (acc_id acc) (acc_platform acc) p = None"
proof -
  let ?reach = "\<lambda>i. reach_of (acc_platform acc) i (user_of db (acc_id acc) i)"
  have "al_reachable (account_line_of sent db (identities_of db p) acc) = first_reach ?reach (identities_of db p)"
    using assms(2) by (auto simp: account_line_of_def Let_def page_user [OF assms(1)] intro!: first_reach_cong)
  then have "al_reachable (account_line_of sent db (identities_of db p) acc) = None \<longleftrightarrow> set (ways ?reach (identities_of db p)) = {}"
    by (simp add: first_reach_ways)
  also have "set (ways ?reach (identities_of db p)) = set (ways ?reach (own_identities db (acc_platform acc) p))"
    by (auto simp: set_ways identities_of_def own_identities_def dest: reach_of_platform)
  finally show ?thesis by (simp add: reach_person_None)
qed

end
