(* ===== verification/People_Props.thy ===== *)
theory People_Props
  imports People_Facts "HOL-Library.List_Lexorder" "HOL-Library.Char_ord"
begin

text \<open>
  The contacts as a system of steps, and the properties of their operations.
\<close>

subsection \<open>Steps\<close>

text \<open>
  Any operation of any session; \<open>mid\<close> stands for the transactions that commit between the
  parts of an upsert, which keep the tables consistent as all steps do.
\<close>

inductive people_step :: "(string list \<Rightarrow> string list) \<Rightarrow> people_db \<Rightarrow> people_db \<Rightarrow> bool" for srt where
  upsert: "\<lbrakk>\<And>d. people_ok d \<Longrightarrow> people_ok (mid d); upsert_identity srt mid db platform row now = Inr (x, db')\<rbrakk> \<Longrightarrow>
    people_step srt db db'"
| merge: "merge_people srt owner db a b reason = Inr db' \<Longrightarrow> people_step srt db db'"
| split: "split_identity owner db i reason = Inr (p, db') \<Longrightarrow> people_step srt db db'"
| update: "update_person owner db p name tags notes = Inr (x, db') \<Longrightarrow> people_step srt db db'"

interpretation contacts: preserved "people_step srt" people_ok for srt
proof
  fix s t
  show "people_step srt s t \<Longrightarrow> people_ok s \<Longrightarrow> people_ok t"
    by (induction rule: people_step.induct)
       (auto intro: upsert_identity_ok merge_people_ok split_identity_ok update_person_ok)
qed

subsection \<open>A small address book\<close>

definition bob_row :: "int \<Rightarrow> user_row" where
  "bob_row ext = \<lparr>ur_external_id = ext, ur_username = None, ur_first_name = Some ''Bob'', ur_last_name = None,
     ur_phone = Some ''89278975956'', ur_is_bot = False, ur_access_hash = None, ur_is_contact = None, ur_raw = None\<rparr>"

definition bob_db :: people_db where
  "bob_db = \<lparr>pd_people = [\<lparr>pn_id = 1, pn_display_name = Some ''Bob'', pn_primary_phone = Some ''+79278975956'',
       pn_tags = [''friend''], pn_notes = None\<rparr>],
     pd_identities = [new_identity 1 1 ''telegram'' (bob_row 11) 0],
     pd_users = [], pd_log = [], pd_next_person = 2, pd_next_identity = 2, pd_next_user = 1\<rparr>"

definition bob_after :: people_db where
  "bob_after = (case upsert_identity sort (\<lambda>d. d) bob_db ''max'' (bob_row 22) 5 of Inr (_, d) \<Rightarrow> d | Inl _ \<Rightarrow> bob_db)"

lemma bob_ok: "people_ok bob_db"
  by (simp add: people_ok_def bob_db_def new_identity_def)

lemma bob_upsert: "upsert_identity sort (\<lambda>d. d) bob_db ''max'' (bob_row 22) 5 = Inr (Some 2, bob_after)"
proof -
  have "(case upsert_identity sort (\<lambda>d. d) bob_db ''max'' (bob_row 22) 5 of Inr (x, _) \<Rightarrow> x = Some 2 | Inl _ \<Rightarrow> False)"
    by code_simp
  then show ?thesis by (auto simp: bob_after_def split: sum.splits)
qed

definition pair_db :: people_db where
  "pair_db = \<lparr>pd_people = [
       \<lparr>pn_id = 1, pn_display_name = None, pn_primary_phone = Some ''+79278975956'', pn_tags = [''friend''], pn_notes = None\<rparr>,
       \<lparr>pn_id = 2, pn_display_name = Some ''Bob'', pn_primary_phone = None, pn_tags = [''work''], pn_notes = Some ''x''\<rparr>],
     pd_identities = [new_identity 1 1 ''telegram'' (bob_row 11) 0,
       (new_identity 2 1 ''telegram'' (bob_row 12) 0)\<lparr>idn_username := Some ''bob''\<rparr>,
       new_identity 3 2 ''max'' (bob_row 13) 0],
     pd_users = [], pd_log = [], pd_next_person = 3, pd_next_identity = 4, pd_next_user = 1\<rparr>"

lemma pair_ok: "people_ok pair_db"
  by (simp add: people_ok_def pair_db_def new_identity_def bob_row_def)

definition pair_merged :: people_db where
  "pair_merged = (case merge_people sort True pair_db 2 1 None of Inr d \<Rightarrow> d | Inl _ \<Rightarrow> pair_db)"

lemma pair_merge: "merge_people sort True pair_db 2 1 None = Inr pair_merged"
proof -
  have "(case merge_people sort True pair_db 2 1 None of Inr _ \<Rightarrow> True | Inl _ \<Rightarrow> False)" by code_simp
  then show ?thesis by (auto simp: pair_merged_def split: sum.splits)
qed

subsection \<open>Properties\<close>

text \<open>
  C19 The contacts stay consistent. In every run of upserts (each with other transactions
  committing in its middle), merges, splits and updates from consistent tables, every identity
  has its person and every person an identity, the keys are unique, also (platform, external id):
  no orphan is left by a lost race, no person survives empty, none is deleted while referenced.
\<close>

theorem contacts_stay_consistent:
  assumes "(people_step srt)\<^sup>*\<^sup>* db db'" and "people_ok db"
  shows "people_ok db'"
  by (rule contacts.run_inv [OF assms])

theorem contacts_stay_consistent_witness:
  "people_ok bob_after"
proof -
  have "people_step sort bob_db bob_after" by (rule people_step.upsert [OF _ bob_upsert])
  then show ?thesis using contacts_stay_consistent [OF r_into_rtranclp bob_ok] by blast
qed

text \<open>
  An upsert leaves one identity with the key of the row and returns its id, also when another
  transaction wins the race to create it; every value given in the row is stored, no stored value
  is overwritten by an empty one.
\<close>

theorem upsert_stores_the_row:
  assumes ok: "people_ok db" and mid: "\<And>d. people_ok d \<Longrightarrow> people_ok (mid d)"
    and u: "upsert_identity srt mid db platform row now = Inr (x, db')"
  shows "row_in platform row x (pd_identities db') \<and>
    distinct (map (\<lambda>i. (idn_platform i, idn_external i)) (pd_identities db'))"
proof -
  obtain y db1 where y: "update_identity db platform row now = (y, db1)" by (rule prod.exhaust)
  obtain z db2 where z: "(case y of Some i \<Rightarrow> (Some i, db1) | None \<Rightarrow> create_identity (mid db1) platform row now) = (z, db2)"
    by (rule prod.exhaust)
  have ok1: "people_ok db1" using update_identity_ok [OF ok y] .
  have in2: "row_in platform row z (pd_identities db2) \<and> people_ok db2"
  proof (cases y)
    case None
    then have c: "create_identity (mid db1) platform row now = (z, db2)" using z by simp
    show ?thesis using create_identity_in [OF c] create_identity_ok [OF mid [OF ok1] c] by simp
  next
    case (Some i)
    then have "z = y" "db2 = db1" using z by simp_all
    moreover have "\<exists>i \<in> set (pd_identities db). is_identity platform (ur_external_id row) i"
      using y Some one_or_none_None [of "is_identity platform (ur_external_id row)" "pd_identities db"]
      by (auto simp: update_identity_def Let_def)
    ultimately show ?thesis using update_identity_in [OF y] ok1 by simp
  qed
  have "x = z \<and> row_in platform row x (pd_identities db')"
    using u y z in2
    by (auto simp: upsert_identity_def split: if_splits option.splits prod.splits
        intro: row_in_cards [OF _ auto_merge_cards] fill_primary_phone_ok)
  moreover have "people_ok db'" using upsert_identity_ok [OF ok mid u] .
  ultimately show ?thesis unfolding people_ok_def by blast
qed

theorem upsert_stores_the_row_witness:
  "\<exists>i \<in> set (pd_identities bob_after). idn_id i = 2 \<and> idn_platform i = ''max'' \<and> idn_phone i = Some ''+79278975956''"
proof -
  have n: "normalize_phone (ur_phone (bob_row 22)) = Some ''+79278975956''" by code_simp
  have "row_in ''max'' (bob_row 22) (Some 2) (pd_identities bob_after)"
    by (rule upsert_stores_the_row [OF bob_ok _ bob_upsert, THEN conjunct1])
  then obtain i where "i \<in> set (pd_identities bob_after)" "Some 2 = Some (idn_id i)" "idn_platform i = ''max''"
    "Some ''+79278975956'' \<noteq> None \<longrightarrow> idn_phone i = Some ''+79278975956''"
    unfolding row_in_def n by blast
  then show ?thesis by (intro bexI [of _ i]) simp_all
qed

text \<open>
  C20 The automatic merge respects decisions. It changes nothing of an identity but its person,
  only ever moves it to an older person, and never moves an identity that a manual merge or split
  has pinned.
\<close>

theorem auto_merge_respects_pins:
  assumes ok: "people_ok db" and j: "j \<in> set (pd_identities db)"
  shows "\<exists>j' \<in> set (pd_identities (auto_merge srt i db)). card_of j' = card_of j \<and>
    idn_person_id j' \<le> idn_person_id j \<and> (idn_pinned j \<longrightarrow> j' = j)"
proof -
  obtain moved target where
    m: "pd_identities (auto_merge srt i db)
      = update_rows (\<lambda>j. idn_id j = moved) (\<lambda>j. j\<lparr>idn_person_id := target\<rparr>) (pd_identities db)"
    and t: "\<forall>j \<in> set (pd_identities db). idn_id j = moved \<longrightarrow> target \<le> idn_person_id j \<and>
       (idn_pinned j \<longrightarrow> target = idn_person_id j)"
    using auto_merge_identities [OF ok, of srt i] by (elim exE conjE) (rule that)
  let ?j = "if idn_id j = moved then j\<lparr>idn_person_id := target\<rparr> else j"
  have "?j \<in> set (pd_identities (auto_merge srt i db))"
    unfolding m update_rows_def set_map by (rule image_eqI [OF _ j]) (rule refl)
  moreover have "card_of ?j = card_of j" by (simp add: card_of_def)
  moreover have "idn_person_id ?j \<le> idn_person_id j" using t j by simp
  moreover have "?j = j" if "idn_pinned j"
  proof (cases "idn_id j = moved")
    case True
    then have "target = idn_person_id j" using t j that by blast
    then show ?thesis by simp
  qed simp
  ultimately show ?thesis by blast
qed

theorem auto_merge_respects_pins_witness:
  "\<exists>j' \<in> set (pd_identities (auto_merge sort 1 bob_db)). idn_id j' = 1 \<and> idn_person_id j' \<le> 1"
proof -
  have "new_identity 1 1 ''telegram'' (bob_row 11) 0 \<in> set (pd_identities bob_db)" by (simp add: bob_db_def)
  from auto_merge_respects_pins [OF bob_ok this, of sort 1] show ?thesis
    by (auto dest!: card_of_sel(1) simp: new_identity_def)
qed

text \<open>
  A manual merge loses nothing. Afterwards the source person is gone and every identity it had
  belongs to the target, pinned; identities of others are as before; the target's tags are those
  of both (the database only orders them), and it keeps a name and a phone if either had one.
\<close>

theorem merge_keeps_everything:
  assumes ok: "people_ok db" and m: "merge_people srt owner db f t reason = Inr db'"
    and srt: "\<forall>xs. set (srt xs) = set xs"
    and rows: "person_by_id db f = Some pf" "person_by_id db t = Some pt"
  shows "f \<notin> pn_id ` set (pd_people db') \<and>
    (\<forall>i \<in> set (pd_identities db). \<exists>i' \<in> set (pd_identities db'). idn_id i' = idn_id i \<and>
       (if idn_person_id i \<in> {f, t} then idn_person_id i' = t \<and> idn_pinned i' else i' = i)) \<and>
    (\<exists>p \<in> set (pd_people db'). pn_id p = t \<and> set (pn_tags p) = set (pn_tags pt) \<union> set (pn_tags pf) \<and>
       pn_display_name p = coalesce (pn_display_name pt) (pn_display_name pf) \<and>
       pn_primary_phone p = coalesce (pn_primary_phone pt) (pn_primary_phone pf))"
proof (intro conjI ballI)
  from m have ft: "f \<noteq> t" by (auto simp: merge_people_def split: if_splits)
  note parts = merge_people_parts [OF m rows]
  show "f \<notin> pn_id ` set (pd_people db')" using parts(1) by auto
  show "\<exists>i' \<in> set (pd_identities db'). idn_id i' = idn_id i \<and>
       (if idn_person_id i \<in> {f, t} then idn_person_id i' = t \<and> idn_pinned i' else i' = i)"
    if "i \<in> set (pd_identities db)" for i
  proof -
    have "merged_identity f t i \<in> set (pd_identities db')" using that parts(2) by simp
    then show ?thesis by (intro bexI [of _ "merged_identity f t i"]) (auto simp: merged_identity_def)
  qed
  have "pt \<in> set (pd_people db)" "pn_id pt = t" using person_by_id_Some [OF rows(2)] by simp_all
  then have "absorbed srt pf pt \<in> set (update_rows (\<lambda>r. pn_id r = t) (absorbed srt pf) (pd_people db))"
    unfolding set_update_rows by blast
  then have "absorbed srt pf pt \<in> set (pd_people db')"
    using parts(1) ft \<open>pn_id pt = t\<close> by (simp add: absorbed_def)
  then show "\<exists>p \<in> set (pd_people db'). pn_id p = t \<and> set (pn_tags p) = set (pn_tags pt) \<union> set (pn_tags pf) \<and>
       pn_display_name p = coalesce (pn_display_name pt) (pn_display_name pf) \<and>
       pn_primary_phone p = coalesce (pn_primary_phone pt) (pn_primary_phone pf)"
    using srt \<open>pn_id pt = t\<close> by (intro bexI [of _ "absorbed srt pf pt"]) (simp_all add: absorbed_def)
qed

theorem merge_keeps_everything_witness:
  "2 \<notin> pn_id ` set (pd_people pair_merged) \<and>
   (\<exists>p \<in> set (pd_people pair_merged). pn_id p = 1 \<and> set (pn_tags p) = {''friend'', ''work''} \<and>
     pn_display_name p = Some ''Bob'' \<and> pn_primary_phone p = Some ''+79278975956'')"
proof -
  have rows: "person_by_id pair_db 2 = Some (pd_people pair_db ! 1)" "person_by_id pair_db 1 = Some (pd_people pair_db ! 0)"
    by (simp_all add: person_by_id_def pair_db_def one_or_none_def)
  have sets: "set (pn_tags (pd_people pair_db ! 0)) \<union> set (pn_tags (pd_people pair_db ! 1)) = {''friend'', ''work''}"
    "coalesce (pn_display_name (pd_people pair_db ! 0)) (pn_display_name (pd_people pair_db ! 1)) = Some ''Bob''"
    "coalesce (pn_primary_phone (pd_people pair_db ! 0)) (pn_primary_phone (pd_people pair_db ! 1)) = Some ''+79278975956''"
    by (auto simp: pair_db_def coalesce_def)
  have "\<forall>xs :: string list. set (sort xs) = set xs" by simp
  from merge_keeps_everything [OF pair_ok pair_merge this rows] show ?thesis unfolding sets by blast
qed

text \<open>
  C21 The two computations of reachability agree. The person is listed as reachable from an
  account, in SQL over all people, with exactly the identity and the method that the loop of a
  send to this person chooses: the best rank, and among equals the oldest identity.
\<close>

theorem reach_agrees_with_listing:
  assumes ok: "people_ok db" and phones: "\<forall>i \<in> set (pd_identities db). idn_phone i \<noteq> Some []"
    and n: "length (pd_identities db) \<le> n"
  shows "reach_person db a platform p = Some (i, m) \<longleftrightarrow>
    (i, m) \<in> set (reachable ilike db a platform None n 0) \<and> idn_person_id i = p"
proof -
  let ?w = "\<lambda>p. ways (\<lambda>i. reach_of platform i (user_of db a i)) (own_identities db platform p)"
  let ?s = "\<lambda>p. sort_key (\<lambda>c. rank (snd c)) (sort_key (\<lambda>c. idn_id (fst c)) (?w p))"
  note listed = reachable_all [OF phones n, of "(i, m)" ilike a platform, simplified]
  have own: "idn_person_id (fst c) = q" if "c \<in> set (?w q)" for c q
    using that set_ways [of "fst c" "snd c"] by (simp add: own_identities_def)
  show ?thesis
  proof
    assume r: "reach_person db a platform p = Some (i, m)"
    then have "?w p \<noteq> []" using reach_person_None [of db a platform p] by auto
    then have "?s p \<noteq> []" by (metis length_0_conv length_sort)
    then obtain x xs where x: "?s p = x # xs" by (cases "?s p") auto
    then have "x = (i, m)" using reach_person_best [OF ok x] r by simp
    moreover have "x \<in> set (?w p)" using x by (metis list.set_intros(1) set_sort)
    ultimately show "(i, m) \<in> set (reachable ilike db a platform None n 0) \<and> idn_person_id i = p"
      using x own [of x p] unfolding listed by auto
  next
    assume l: "(i, m) \<in> set (reachable ilike db a platform None n 0) \<and> idn_person_id i = p"
    then obtain r where "?s p = (i, m) # r" unfolding listed by auto
    then show "reach_person db a platform p = Some (i, m)" by (rule reach_person_best [OF ok])
  qed
qed

theorem reach_agrees_with_listing_witness:
  "\<exists>i m. reach_person pair_db 7 ''telegram'' 1 = Some (i, m) \<and> m = Username \<and>
     (i, m) \<in> set (reachable (\<lambda>_ _. True) pair_db 7 ''telegram'' None 3 0)"
proof -
  have "(case reach_person pair_db 7 ''telegram'' 1 of Some (_, m) \<Rightarrow> m = Username | None \<Rightarrow> False)" by code_simp
  then obtain i where i: "reach_person pair_db 7 ''telegram'' 1 = Some (i, Username)"
    by (auto split: option.splits)
  have "list_all (\<lambda>i. idn_phone i \<noteq> Some []) (pd_identities pair_db)" by code_simp
  then have "\<forall>i \<in> set (pd_identities pair_db). idn_phone i \<noteq> Some []" by (simp add: list_all_iff)
  moreover have "length (pd_identities pair_db) \<le> 3" by (simp add: pair_db_def)
  ultimately have "reach_person pair_db 7 ''telegram'' 1 = Some (i, Username) \<longleftrightarrow>
     (i, Username) \<in> set (reachable (\<lambda>_ _. True) pair_db 7 ''telegram'' None 3 0) \<and> idn_person_id i = 1"
    by (rule reach_agrees_with_listing [OF pair_ok])
  with i show ?thesis by blast
qed

text \<open>
  The person's page agrees with sending: for each account in rw mode the page shows a way to
  the person if and only if a send to the person finds one.
\<close>

theorem page_agrees_with_sending:
  assumes "users_ok db" and "acc_mode acc = ''rw''" and "acc_is_enabled acc" and "acc \<in> set accounts"
    and "person_accounts sent owner db accounts p = Inr ls"
  shows "\<exists>l \<in> set ls. al_account_id l = acc_id acc \<and>
    (al_reachable l = None \<longleftrightarrow> reach_person db (acc_id acc) (acc_platform acc) p = None)"
proof (rule bexI)
  let ?l = "account_line_of sent db (identities_of db p) acc"
  show "al_account_id ?l = acc_id acc \<and> (al_reachable ?l = None \<longleftrightarrow> reach_person db (acc_id acc) (acc_platform acc) p = None)"
    using page_reach [OF assms(1,2)] by (simp add: account_line_of_def Let_def)
  show "?l \<in> set ls" using assms(3,4,5) by (auto simp: person_accounts_def split: if_splits)
qed

definition own_account :: account where
  "own_account = \<lparr>acc_id = 7, acc_alias = ''me'', acc_phone = [], acc_mode = ''rw'', acc_is_enabled = True,
     acc_platform = ''telegram'', acc_platform_user_id = None, acc_write_chat_ids = None,
     acc_write_rate_per_hour = None, acc_external_user_id = None, acc_tg_user_id = None,
     acc_display_name = None, acc_watch_chat_ids = None, acc_notes = None\<rparr>"

theorem page_agrees_with_sending_witness:
  "\<exists>ls. person_accounts (\<lambda>_ _. 0) True pair_db [own_account] 1 = Inr ls \<and>
     (\<exists>l \<in> set ls. al_account_id l = 7 \<and> al_reachable l \<noteq> None)"
proof -
  obtain ls where ls: "person_accounts (\<lambda>_ _. 0) True pair_db [own_account] 1 = Inr ls"
    by (simp add: person_accounts_def)
  have "users_ok pair_db" by (simp add: users_ok_def pair_db_def)
  then have "\<exists>l \<in> set ls. al_account_id l = acc_id own_account \<and> (al_reachable l = None \<longleftrightarrow>
      reach_person pair_db (acc_id own_account) (acc_platform own_account) 1 = None)"
    by (rule page_agrees_with_sending [OF _ _ _ _ ls]) (simp_all add: own_account_def)
  moreover have "reach_person pair_db (acc_id own_account) (acc_platform own_account) 1 \<noteq> None" by code_simp
  ultimately have "\<exists>l \<in> set ls. al_account_id l = acc_id own_account \<and> al_reachable l \<noteq> None" by auto
  then show ?thesis using ls by (simp add: own_account_def)
qed

text \<open>
  The methods may differ: the page shows the first identity's way, a send takes the best.
\<close>

lemma page_shows_a_worse_way:
  "al_reachable (account_line_of (\<lambda>_ _. 0) pair_db (identities_of pair_db 1) own_account) = Some By_phone \<and>
   map_option snd (reach_person pair_db 7 ''telegram'' 1) = Some Username"
  by code_simp

end
