(* ===== verification/Chat_Tables.thy ===== *)
theory Chat_Tables
  imports People "HOL-Library.Word"
begin

unbundle bit_operations_syntax

text \<open>
  The tables of one account: chats, messages, media and cursors with the operations of
  \<^verbatim>\<open>app/repo/chats.py\<close>, \<^verbatim>\<open>messages.py\<close>, \<^verbatim>\<open>media.py\<close> and
  \<^verbatim>\<open>sync_state.py\<close>. Every statement of these modules carries the account id and runs in a
  session of that account, so the rows of one account are the state; its users are those of the
  contacts. Keys that the tables hold unique are looked up with \<open>one_or_none\<close>.
\<close>

subsection \<open>Rows\<close>

record chat =
  ch_id :: int
  ch_external_id :: int
  ch_type :: string
  ch_title :: "string option"
  ch_username :: "string option"
  ch_description :: "string option"
  ch_members_count :: "int option"
  ch_access_hash :: "int option"
  ch_my_role :: "string option"
  ch_is_monitored :: bool
  ch_last_message_external_id :: "int option"
  ch_last_message_at :: "usec option"
  ch_raw :: "json option"

record message =
  mg_id :: int
  mg_chat_id :: int
  mg_external_id :: int
  mg_sender_user_id :: "int option"
  mg_sender_chat_external_id :: "int option"
  mg_reply_to_external_id :: "int option"
  mg_forward_from_chat_external_id :: "int option"
  mg_forward_from_message_external_id :: "int option"
  mg_message_type :: string
  mg_text :: "string option"
  mg_text_html :: "string option"
  mg_sent_at :: usec
  mg_is_outgoing :: bool
  mg_is_edited :: bool
  mg_edited_at :: "usec option"
  mg_deleted_at :: "usec option"
  mg_views :: "int option"
  mg_raw :: "json option"

record media =
  md_message_id :: int
  md_attach_index :: int
  md_file_external_id :: "string option"
  md_file_unique_id :: "string option"
  md_file_type :: string
  md_file_name :: "string option"
  md_file_size :: "int option"
  md_mime_type :: "string option"
  md_storage_path :: "string option"

record sync_state =
  sy_chat_id :: int
  sy_oldest_external_id :: "int option"
  sy_newest_external_id :: "int option"
  sy_oldest_ts :: "usec option"
  sy_newest_ts :: "usec option"
  sy_is_fully_synced :: bool
  sy_total_synced :: int
  sy_last_backfill_at :: "usec option"
  sy_last_catchup_at :: "usec option"

text \<open>The rows the normalisers build (\<^verbatim>\<open>app/repo/rows.py\<close>).\<close>

record chat_row =
  cr_external_id :: int
  cr_chat_type :: string
  cr_title :: "string option"
  cr_username :: "string option"
  cr_description :: "string option"
  cr_members_count :: "int option"
  cr_access_hash :: "int option"
  cr_my_role :: "string option"
  cr_last_message_external_id :: "int option"
  cr_last_message_at :: "usec option"
  cr_raw :: "json option"

record media_row =
  xr_file_type :: string
  xr_attach_index :: int
  xr_file_external_id :: "string option"
  xr_file_unique_id :: "string option"
  xr_file_name :: "string option"
  xr_file_size :: "int option"
  xr_mime_type :: "string option"

record message_row =
  mr_external_id :: int
  mr_sent_at :: usec
  mr_sender_external_id :: "int option"
  mr_sender_chat_external_id :: "int option"
  mr_reply_to_external_id :: "int option"
  mr_forward_from_chat_external_id :: "int option"
  mr_forward_from_message_external_id :: "int option"
  mr_message_type :: string
  mr_text :: "string option"
  mr_text_html :: "string option"
  mr_is_edited :: bool
  mr_edited_at :: "usec option"
  mr_deleted_at :: "usec option"
  mr_views :: "int option"
  mr_raw :: "json option"
  mr_is_outgoing_hint :: "bool option"
  mr_media :: "media_row list"

record account_tables =
  at_account_id :: int
  at_platform :: string
  at_self :: "int option"   \<comment> \<open>\<^verbatim>\<open>accounts.external_user_id\<close>\<close>
  at_people :: people_db
  at_chats :: "chat list"
  at_messages :: "message list"
  at_media :: "media list"
  at_states :: "sync_state list"
  at_next_chat :: int
  at_next_message :: int

subsection \<open>Chats\<close>

text \<open>\<^verbatim>\<open>_monotonic\<close>: the value that belongs to the newer last message.\<close>

definition monotonic :: "'a option \<Rightarrow> 'a option \<Rightarrow> int option \<Rightarrow> int option \<Rightarrow> 'a option" where
  "monotonic new_col old_col new_id old_id =
    (if (case (new_id, old_id) of (None, _) \<Rightarrow> False | (Some _, None) \<Rightarrow> True | (Some n, Some o') \<Rightarrow> o' < n)
     then new_col else old_col)"

definition new_chat :: "int \<Rightarrow> chat_row \<Rightarrow> chat" where
  "new_chat i row = \<lparr>ch_id = i, ch_external_id = cr_external_id row, ch_type = cr_chat_type row,
     ch_title = cr_title row, ch_username = cr_username row, ch_description = cr_description row,
     ch_members_count = cr_members_count row, ch_access_hash = cr_access_hash row,
     ch_my_role = cr_my_role row, ch_is_monitored = True,
     ch_last_message_external_id = cr_last_message_external_id row,
     ch_last_message_at = cr_last_message_at row, ch_raw = cr_raw row\<rparr>"

definition merged_chat :: "chat_row \<Rightarrow> chat \<Rightarrow> chat" where
  "merged_chat row t = t\<lparr>
     ch_type := cr_chat_type row,
     ch_title := coalesce (cr_title row) (ch_title t),
     ch_username := coalesce (cr_username row) (ch_username t),
     ch_description := coalesce (cr_description row) (ch_description t),
     ch_members_count := coalesce (cr_members_count row) (ch_members_count t),
     ch_access_hash := coalesce (cr_access_hash row) (ch_access_hash t),
     ch_my_role := coalesce (cr_my_role row) (ch_my_role t),
     ch_last_message_external_id := monotonic (cr_last_message_external_id row) (ch_last_message_external_id t)
       (cr_last_message_external_id row) (ch_last_message_external_id t),
     ch_last_message_at := monotonic (cr_last_message_at row) (ch_last_message_at t)
       (cr_last_message_external_id row) (ch_last_message_external_id t),
     ch_raw := coalesce (cr_raw row) (ch_raw t)\<rparr>"

abbreviation is_chat :: "int \<Rightarrow> chat \<Rightarrow> bool" where
  "is_chat ext c \<equiv> ch_external_id c = ext"

definition get_chat :: "account_tables \<Rightarrow> int \<Rightarrow> chat option" where
  "get_chat db ext = one_or_none (is_chat ext) (at_chats db)"

definition chat_pk :: "account_tables \<Rightarrow> int \<Rightarrow> int option" where
  "chat_pk db ext = map_option ch_id (get_chat db ext)"

definition upsert_chat :: "account_tables \<Rightarrow> chat_row \<Rightarrow> int \<times> account_tables" where
  "upsert_chat db row =
    (case get_chat db (cr_external_id row) of
       None \<Rightarrow> (at_next_chat db, db\<lparr>at_chats := at_chats db @ [new_chat (at_next_chat db) row],
                 at_next_chat := at_next_chat db + 1\<rparr>)
     | Some c \<Rightarrow> (ch_id c, db\<lparr>at_chats := update_rows (is_chat (cr_external_id row)) (merged_chat row) (at_chats db),
                 at_next_chat := at_next_chat db + 1\<rparr>))"

definition set_monitored :: "account_tables \<Rightarrow> int \<Rightarrow> bool \<Rightarrow> chat option \<times> account_tables" where
  "set_monitored db ext v =
    (let db' = db\<lparr>at_chats := update_rows (is_chat ext) (\<lambda>c. c\<lparr>ch_is_monitored := v\<rparr>) (at_chats db)\<rparr>
     in (get_chat db' ext, db'))"

definition touch_last_message :: "account_tables \<Rightarrow> int \<Rightarrow> int \<Rightarrow> usec \<Rightarrow> account_tables" where
  "touch_last_message db pk ext at = db\<lparr>at_chats :=
     update_rows (\<lambda>c. ch_id c = pk \<and> (case ch_last_message_external_id c of None \<Rightarrow> True | Some e \<Rightarrow> e \<le> ext))
       (\<lambda>c. c\<lparr>ch_last_message_external_id := Some ext, ch_last_message_at := Some at\<rparr>) (at_chats db)\<rparr>"

text \<open>
  The titles of MAX dialogs: the name of the peer, who is the first numeric key of the
  participants that is not the account (the keys in the order the database lists them), else the
  chat id XOR the account's own id. Chat 0 holds the saved messages; its title is a parameter.
\<close>

definition member :: "string \<Rightarrow> json \<Rightarrow> json option" where
  "member k j = (case j of JObj kvs \<Rightarrow> map_of kvs k | _ \<Rightarrow> None)"

text \<open>The keys that match \<^verbatim>\<open>^-?[0-9]+$\<close>, as numbers.\<close>

fun digits_value :: "int \<Rightarrow> string \<Rightarrow> int option" where
  "digits_value acc [] = Some acc"
| "digits_value acc (c # cs) = (if is_digit c then digits_value (acc * 10 + (of_char c - 48)) cs else None)"

definition bigint_key :: "string \<Rightarrow> int option" where
  "bigint_key k =
    (case k of
       [] \<Rightarrow> None
     | c # cs \<Rightarrow> if c = CHR ''-'' then (if cs = [] then None else map_option uminus (digits_value 0 cs))
                else digits_value 0 k)"

definition dialog_peer :: "int \<Rightarrow> chat \<Rightarrow> int" where
  "dialog_peer me c =
    (let keys = (case ch_raw c of
           Some r \<Rightarrow> (case member ''participants'' r of Some (JObj kvs) \<Rightarrow> map fst kvs | _ \<Rightarrow> [])
         | None \<Rightarrow> [])
     in case filter (\<lambda>i. i \<noteq> me) (List.map_filter bigint_key keys) of
          i # _ \<Rightarrow> i
        | [] \<Rightarrow> ch_external_id c XOR me)"

text \<open>\<^verbatim>\<open>trim\<close> of the database strips spaces only; \<^verbatim>\<open>concat_ws\<close> skips NULL.\<close>

definition trim_blank :: "string \<Rightarrow> string" where
  "trim_blank s = rev (dropWhile (\<lambda>c. c = CHR '' '') (rev (dropWhile (\<lambda>c. c = CHR '' '') s)))"

definition peer_name :: "user \<Rightarrow> string option" where
  "peer_name u = coalesce (nonempty (Some (trim_blank (join_with '' '' (List.map_filter id [us_first_name u, us_last_name u])))))
     (us_username u)"

definition own_user :: "account_tables \<Rightarrow> int \<Rightarrow> user option" where
  "own_user db ext = one_or_none (\<lambda>u. us_account_id u = at_account_id db \<and> us_external_id u = ext) (pd_users (at_people db))"

definition dialog_title :: "string \<Rightarrow> account_tables \<Rightarrow> int \<Rightarrow> chat \<Rightarrow> string option" where
  "dialog_title saved db me c =
    (if ch_external_id c = 0 then Some saved
     else case own_user db (dialog_peer me c) of None \<Rightarrow> None | Some u \<Rightarrow> peer_name u)"

definition fill_dialog_titles :: "string \<Rightarrow> account_tables \<Rightarrow> int list option \<Rightarrow> nat \<times> account_tables" where
  "fill_dialog_titles saved db ids =
    (case at_self db of
       None \<Rightarrow> (0, db)
     | Some me \<Rightarrow>
        if at_platform db \<noteq> ''max'' then (0, db)
        else
         (let P = (\<lambda>c. ch_type c = ''private'' \<and> (case ids of None \<Rightarrow> True | Some es \<Rightarrow> ch_external_id c \<in> set es) \<and>
               dialog_title saved db me c \<noteq> None \<and> ch_title c \<noteq> dialog_title saved db me c)
          in (count_rows P (at_chats db),
              db\<lparr>at_chats := update_rows P (\<lambda>c. c\<lparr>ch_title := dialog_title saved db me c\<rparr>) (at_chats db)\<rparr>)))"

subsection \<open>Statuses\<close>

definition INACTIVE_STATUSES :: "string list" where
  "INACTIVE_STATUSES = [''CLOSED'', ''LEFT'', ''REMOVED'', ''DENIED'']"

definition inactive :: "string option \<Rightarrow> bool" where
  "inactive st = (case st of None \<Rightarrow> False | Some s \<Rightarrow> s \<in> set INACTIVE_STATUSES)"

definition monitoring_after :: "string option \<Rightarrow> string option \<Rightarrow> bool option" where
  "monitoring_after old_status new_status =
    (if inactive new_status then Some False
     else if new_status = Some ''ACTIVE'' \<and> inactive old_status then Some True
     else None)"

text \<open>
  \<^verbatim>\<open>raw->>'status'\<close>: NULL without a member or for a JSON null; a status is a text (any other
  value counts as none here).
\<close>

definition status_of :: "chat \<Rightarrow> string option" where
  "status_of c =
    (case ch_raw c of
       None \<Rightarrow> None
     | Some r \<Rightarrow> (case member ''status'' r of Some (JStr s) \<Rightarrow> Some s | _ \<Rightarrow> None))"

definition statuses :: "account_tables \<Rightarrow> int list \<Rightarrow> (int \<times> string option) list" where
  "statuses db exts = map (\<lambda>c. (ch_external_id c, status_of c)) (filter (\<lambda>c. ch_external_id c \<in> set exts) (at_chats db))"

text \<open>\<^verbatim>\<open>jsonb_set\<close> on the object, an empty one if the column holds none.\<close>

definition with_status :: "string \<Rightarrow> json option \<Rightarrow> json" where
  "with_status st raw =
    (let kvs = (case raw of Some (JObj kvs) \<Rightarrow> kvs | _ \<Rightarrow> [])
     in JObj (if ''status'' \<in> fst ` set kvs
              then map (\<lambda>(k, v). if k = ''status'' then (k, JStr st) else (k, v)) kvs
              else kvs @ [(''status'', JStr st)]))"

definition set_status :: "account_tables \<Rightarrow> int \<Rightarrow> string \<Rightarrow> string option \<Rightarrow> bool \<Rightarrow> account_tables" where
  "set_status db ext st old_status store = db\<lparr>at_chats := update_rows (is_chat ext)
     (\<lambda>c. let c1 = (if store then c\<lparr>ch_raw := Some (with_status st (ch_raw c))\<rparr> else c)
          in case monitoring_after old_status (Some st) of
               None \<Rightarrow> c1
             | Some m \<Rightarrow> c1\<lparr>ch_is_monitored := m\<rparr>) (at_chats db)\<rparr>"

subsection \<open>Media\<close>

definition media_hit :: "int \<Rightarrow> media_row \<Rightarrow> media \<Rightarrow> bool" where
  "media_hit m row d \<longleftrightarrow> md_message_id d = m \<and> md_attach_index d = xr_attach_index row"

definition new_media :: "int \<Rightarrow> media_row \<Rightarrow> media" where
  "new_media m row = \<lparr>md_message_id = m, md_attach_index = xr_attach_index row,
     md_file_external_id = xr_file_external_id row, md_file_unique_id = xr_file_unique_id row,
     md_file_type = xr_file_type row, md_file_name = xr_file_name row, md_file_size = xr_file_size row,
     md_mime_type = xr_mime_type row, md_storage_path = None\<rparr>"

definition upsert_media_row :: "int \<Rightarrow> media_row \<Rightarrow> media list \<Rightarrow> media list" where
  "upsert_media_row m row ds =
    (if list_ex (media_hit m row) ds
     then update_rows (media_hit m row) (\<lambda>d. (new_media m row)\<lparr>md_storage_path := md_storage_path d\<rparr>) ds
     else ds @ [new_media m row])"

definition upsert_media :: "account_tables \<Rightarrow> int \<Rightarrow> media_row list \<Rightarrow> account_tables" where
  "upsert_media db m rows = db\<lparr>at_media := fold (upsert_media_row m) rows (at_media db)\<rparr>"

subsection \<open>Messages\<close>

definition message_outgoing :: "int option \<Rightarrow> message_row \<Rightarrow> bool" where
  "message_outgoing self row =
    (let hint = (mr_is_outgoing_hint row = Some True)
     in case mr_sender_external_id row of
          None \<Rightarrow> hint
        | Some s \<Rightarrow> (case self of None \<Rightarrow> hint | Some me \<Rightarrow> me = s))"

definition message_of :: "account_tables \<Rightarrow> int \<Rightarrow> int \<Rightarrow> message_row \<Rightarrow> message" where
  "message_of db i chat_id row = \<lparr>mg_id = i, mg_chat_id = chat_id, mg_external_id = mr_external_id row,
     mg_sender_user_id = (case mr_sender_external_id row of None \<Rightarrow> None | Some s \<Rightarrow> map_option us_id (own_user db s)),
     mg_sender_chat_external_id = mr_sender_chat_external_id row,
     mg_reply_to_external_id = mr_reply_to_external_id row,
     mg_forward_from_chat_external_id = mr_forward_from_chat_external_id row,
     mg_forward_from_message_external_id = mr_forward_from_message_external_id row,
     mg_message_type = mr_message_type row, mg_text = mr_text row, mg_text_html = mr_text_html row,
     mg_sent_at = mr_sent_at row, mg_is_outgoing = message_outgoing (at_self db) row,
     mg_is_edited = mr_is_edited row, mg_edited_at = mr_edited_at row, mg_deleted_at = mr_deleted_at row,
     mg_views = mr_views row, mg_raw = mr_raw row\<rparr>"

text \<open>DO UPDATE: \<open>ex\<close> the row offered, \<open>t\<close> the stored one; and its WHERE.\<close>

definition merged_message :: "message \<Rightarrow> message \<Rightarrow> message" where
  "merged_message ex t = t\<lparr>
     mg_sender_user_id := coalesce (mg_sender_user_id ex) (mg_sender_user_id t),
     mg_message_type := mg_message_type ex, mg_text := mg_text ex, mg_text_html := mg_text_html ex,
     mg_is_outgoing := mg_is_outgoing ex, mg_is_edited := mg_is_edited ex, mg_edited_at := mg_edited_at ex,
     mg_deleted_at := coalesce (mg_deleted_at t) (mg_deleted_at ex),
     mg_views := coalesce (mg_views ex) (mg_views t), mg_raw := mg_raw ex\<rparr>"

definition may_overwrite :: "message \<Rightarrow> message \<Rightarrow> bool" where
  "may_overwrite ex t \<longleftrightarrow> \<not> mg_is_edited t \<or>
     (mg_is_edited ex \<and> (case (mg_edited_at t, mg_edited_at ex) of
        (Some old, Some new) \<Rightarrow> old \<le> new | _ \<Rightarrow> True))"

definition is_message :: "int \<Rightarrow> int \<Rightarrow> message \<Rightarrow> bool" where
  "is_message chat_id ext m \<longleftrightarrow> mg_chat_id m = chat_id \<and> mg_external_id m = ext"

definition insert_message :: "account_tables \<Rightarrow> int \<Rightarrow> message_row \<Rightarrow> int \<times> account_tables" where
  "insert_message db chat_id row =
    (let hit = is_message chat_id (mr_external_id row); ex = message_of db (at_next_message db) chat_id row;
         db1 = db\<lparr>at_next_message := at_next_message db + 1\<rparr>
     in case one_or_none hit (at_messages db) of
          None \<Rightarrow> (mg_id ex, db1\<lparr>at_messages := at_messages db @ [ex]\<rparr>)
        | Some t \<Rightarrow> (mg_id t, db1\<lparr>at_messages :=
            update_rows (\<lambda>m. hit m \<and> may_overwrite ex m) (merged_message ex) (at_messages db)\<rparr>))"

definition upsert_message :: "account_tables \<Rightarrow> int \<Rightarrow> message_row \<Rightarrow> int \<times> account_tables" where
  "upsert_message db chat_id row =
    (case insert_message db chat_id row of
       (m, db1) \<Rightarrow> (m, touch_last_message
         (if mr_media row = [] then db1 else upsert_media db1 m (mr_media row))
         chat_id (mr_external_id row) (mr_sent_at row)))"

text \<open>\<^verbatim>\<open>mark_deleted\<close>: without a chat the ids are those of private chats and basic groups.\<close>

definition mark_deleted :: "account_tables \<Rightarrow> int option \<Rightarrow> int list \<Rightarrow> usec \<Rightarrow> nat \<times> account_tables" where
  "mark_deleted db chat_id exts at =
    (if exts = [] then (0, db)
     else
      (let P = (\<lambda>m. mg_external_id m \<in> set exts \<and> mg_deleted_at m = None \<and>
             (case chat_id of
                Some c \<Rightarrow> mg_chat_id m = c
              | None \<Rightarrow> list_ex (\<lambda>c. ch_id c = mg_chat_id m \<and> ch_type c \<in> set [''private'', ''group'']) (at_chats db)))
       in (count_rows P (at_messages db),
           db\<lparr>at_messages := update_rows P (\<lambda>m. m\<lparr>mg_deleted_at := Some at\<rparr>) (at_messages db)\<rparr>)))"

subsection \<open>Cursors\<close>

definition get_state :: "account_tables \<Rightarrow> int \<Rightarrow> sync_state option" where
  "get_state db chat_id = one_or_none (\<lambda>s. sy_chat_id s = chat_id) (at_states db)"

text \<open>\<^verbatim>\<open>upsert_state\<close>: \<open>f\<close> sets the given fields, on the stored row or on a new one.\<close>

definition empty_state :: "int \<Rightarrow> sync_state" where
  "empty_state chat_id = \<lparr>sy_chat_id = chat_id, sy_oldest_external_id = None, sy_newest_external_id = None,
     sy_oldest_ts = None, sy_newest_ts = None, sy_is_fully_synced = False, sy_total_synced = 0,
     sy_last_backfill_at = None, sy_last_catchup_at = None\<rparr>"

definition upsert_state :: "account_tables \<Rightarrow> int \<Rightarrow> (sync_state \<Rightarrow> sync_state) \<Rightarrow> account_tables" where
  "upsert_state db chat_id f =
    (case get_state db chat_id of
       None \<Rightarrow> db\<lparr>at_states := at_states db @ [f (empty_state chat_id)]\<rparr>
     | Some _ \<Rightarrow> db\<lparr>at_states := update_rows (\<lambda>s. sy_chat_id s = chat_id) f (at_states db)\<rparr>)"

end
