(* ===== verification/Max_Store.thy ===== *)
theory Max_Store
  imports Chat_Tables "HOL-Library.Product_Lexorder"
begin

text \<open>
  MAX writes and cursors in the account's tables: \<^verbatim>\<open>app/max/store_new.py\<close>. The cursors keep
  milliseconds of MAX as timestamps; for the times of this century the way through the database
  and back is exact. What the database and the clock decide is gathered in \<open>store_env\<close>: the tag
  order and the concurrent transactions of the contacts, the title of the saved messages, the
  time.
\<close>

record store_env =
  se_srt :: "string list \<Rightarrow> string list"
  se_mid :: "people_db \<Rightarrow> people_db"
  se_saved :: string
  se_now :: usec

record cursor =
  cu_newest_time_ms :: "int option"
  cu_newest_message_id :: "int option"
  cu_oldest_time_ms :: "int option"
  cu_oldest_message_id :: "int option"

definition ms_of :: "usec option \<Rightarrow> int option" where
  "ms_of t = map_option (\<lambda>u. u div 1000) t"

definition ts_of :: "int \<Rightarrow> usec option" where
  "ts_of ms = (if ms = 0 then None else Some (ms * 1000))"

definition cursor_of :: "sync_state \<Rightarrow> cursor" where
  "cursor_of s = \<lparr>cu_newest_time_ms = ms_of (sy_newest_ts s), cu_newest_message_id = sy_newest_external_id s,
     cu_oldest_time_ms = ms_of (sy_oldest_ts s), cu_oldest_message_id = sy_oldest_external_id s\<rparr>"

subsection \<open>Chats and users\<close>

definition stored_status :: "chat_row \<Rightarrow> string option" where
  "stored_status row = (case cr_raw row of None \<Rightarrow> None
     | Some r \<Rightarrow> (case member ''status'' r of Some (JStr s) \<Rightarrow> nonempty (Some s) | _ \<Rightarrow> None))"

definition store_chat :: "(int \<times> string option) list \<Rightarrow> chat_row \<Rightarrow> account_tables \<Rightarrow> account_tables" where
  "store_chat before row db =
    (let db1 = snd (upsert_chat db row)
     in case stored_status row of
          None \<Rightarrow> db1
        | Some st \<Rightarrow> set_status db1 (cr_external_id row) st
            (case map_of before (cr_external_id row) of None \<Rightarrow> None | Some old \<Rightarrow> old) False)"

definition upsert_chats :: "store_env \<Rightarrow> account_tables \<Rightarrow> chat_row list \<Rightarrow> account_tables" where
  "upsert_chats e db rows =
    (let before = statuses db (map cr_external_id rows)
     in snd (fill_dialog_titles (se_saved e) (fold (store_chat before) rows db) None))"

definition set_chat_status :: "account_tables \<Rightarrow> int \<Rightarrow> string \<Rightarrow> account_tables" where
  "set_chat_status db ext st =
    (case get_chat db ext of
       None \<Rightarrow> db
     | Some c \<Rightarrow> if status_of c = Some st then db else set_status db ext st (status_of c) True)"

definition store_user :: "store_env \<Rightarrow> user_row \<Rightarrow> string \<Rightarrow> account_tables \<Rightarrow> people_error + account_tables" where
  "store_user e row via db =
    (case upsert_user (se_srt e) (se_mid e) True (at_self db) (at_people db) (at_account_id db) ''max'' row via (se_now e) of
       Inl err \<Rightarrow> Inl err
     | Inr (_, p) \<Rightarrow> Inr (db\<lparr>at_people := p\<rparr>))"

fun store_users :: "store_env \<Rightarrow> bool option \<Rightarrow> string \<Rightarrow> user_row list \<Rightarrow> account_tables \<Rightarrow> people_error + account_tables" where
  "store_users e contact via [] db = Inr db"
| "store_users e contact via (row # rows) db =
     (case store_user e (row\<lparr>ur_is_contact := contact\<rparr>) via db of
        Inl err \<Rightarrow> Inl err
      | Inr db' \<Rightarrow> store_users e contact via rows db')"

definition upsert_users :: "store_env \<Rightarrow> account_tables \<Rightarrow> user_row list \<Rightarrow> string \<Rightarrow> bool option \<Rightarrow> people_error + account_tables" where
  "upsert_users e db rows via contact =
    (case store_users e contact via rows db of
       Inl err \<Rightarrow> Inl err
     | Inr db' \<Rightarrow> Inr (snd (fill_dialog_titles (se_saved e) db' None)))"

definition stub_chat :: "int \<Rightarrow> string \<Rightarrow> chat_row" where
  "stub_chat ext ct = \<lparr>cr_external_id = ext, cr_chat_type = ct, cr_title = None, cr_username = None,
     cr_description = None, cr_members_count = None, cr_access_hash = None, cr_my_role = None,
     cr_last_message_external_id = None, cr_last_message_at = None, cr_raw = None\<rparr>"

definition stub_user :: "int \<Rightarrow> user_row" where
  "stub_user ext = \<lparr>ur_external_id = ext, ur_username = None, ur_first_name = None, ur_last_name = None,
     ur_phone = None, ur_is_bot = False, ur_access_hash = None, ur_is_contact = None, ur_raw = None\<rparr>"

definition ensure_dialog :: "store_env \<Rightarrow> account_tables \<Rightarrow> int \<Rightarrow> account_tables" where
  "ensure_dialog e db ext =
     snd (fill_dialog_titles (se_saved e) (snd (upsert_chat db (stub_chat ext ''private''))) (Some [ext]))"

subsection \<open>Cursors\<close>

text \<open>\<^verbatim>\<open>_advance\<close>: the newest cursor moves forward only.\<close>

definition advance :: "account_tables \<Rightarrow> int \<Rightarrow> int \<Rightarrow> int \<Rightarrow> account_tables" where
  "advance db pk message_id time_ms =
    (case get_state db pk of
       None \<Rightarrow> upsert_state db pk (\<lambda>s. s\<lparr>sy_newest_ts := ts_of time_ms, sy_newest_external_id := Some message_id,
                 sy_oldest_ts := ts_of time_ms, sy_oldest_external_id := Some message_id, sy_total_synced := 0\<rparr>)
     | Some st \<Rightarrow>
        if (case ms_of (sy_newest_ts st) of None \<Rightarrow> True | Some n \<Rightarrow> n < time_ms)
        then upsert_state db pk (\<lambda>s. s\<lparr>sy_newest_ts := ts_of time_ms, sy_newest_external_id := Some message_id\<rparr>)
        else db)"

definition load_cursor :: "account_tables \<Rightarrow> int \<Rightarrow> cursor option" where
  "load_cursor db ext =
    (case chat_pk db ext of
       None \<Rightarrow> None
     | Some pk \<Rightarrow> map_option cursor_of (get_state db pk))"

definition move_oldest :: "account_tables \<Rightarrow> int \<Rightarrow> int \<Rightarrow> int \<Rightarrow> int \<Rightarrow> account_tables" where
  "move_oldest db ext message_id time_ms delta =
    (case chat_pk db ext of
       None \<Rightarrow> db
     | Some pk \<Rightarrow>
        (let st = get_state db pk;
             total = (case st of None \<Rightarrow> 0 | Some s \<Rightarrow> sy_total_synced s) + delta;
             older = (case st of None \<Rightarrow> True
               | Some s \<Rightarrow> (case ms_of (sy_oldest_ts s) of None \<Rightarrow> True | Some o' \<Rightarrow> time_ms < o'))
         in upsert_state db pk (\<lambda>s.
              (if older then s\<lparr>sy_oldest_ts := ts_of time_ms, sy_oldest_external_id := Some message_id\<rparr> else s)
                \<lparr>sy_total_synced := total\<rparr>)))"

definition finish_backfill :: "account_tables \<Rightarrow> int \<Rightarrow> bool option \<Rightarrow> usec \<Rightarrow> account_tables" where
  "finish_backfill db ext fully now =
    (case chat_pk db ext of
       None \<Rightarrow> db
     | Some pk \<Rightarrow>
        if get_state db pk = None then db
        else upsert_state db pk (\<lambda>s. (case fully of None \<Rightarrow> s | Some b \<Rightarrow> s\<lparr>sy_is_fully_synced := b\<rparr>)
               \<lparr>sy_last_backfill_at := Some now\<rparr>))"

definition mark_catchup :: "account_tables \<Rightarrow> int \<Rightarrow> usec \<Rightarrow> account_tables" where
  "mark_catchup db ext now =
    (case chat_pk db ext of
       None \<Rightarrow> db
     | Some pk \<Rightarrow> if get_state db pk = None then db else upsert_state db pk (\<lambda>s. s\<lparr>sy_last_catchup_at := Some now\<rparr>))"

text \<open>The chats that can be caught up, the freshest first, those without messages last.\<close>

definition catchup_rows :: "account_tables \<Rightarrow> (int \<times> int option \<times> cursor option) list" where
  "catchup_rows db =
    map (\<lambda>c. (ch_external_id c, ms_of (ch_last_message_at c), map_option cursor_of (get_state db (ch_id c))))
      (sort_key (\<lambda>c. case ch_last_message_at c of None \<Rightarrow> (1 :: int, 0) | Some t \<Rightarrow> (0, - t))
        (filter (\<lambda>c. \<not> inactive (status_of c)) (at_chats db)))"

subsection \<open>Messages\<close>

definition store_sender :: "store_env \<Rightarrow> int option \<Rightarrow> account_tables \<Rightarrow> people_error + (int list \<times> account_tables)" where
  "store_sender e sender db =
    (case sender of
       None \<Rightarrow> Inr ([], db)
     | Some s \<Rightarrow>
        (case own_user db s of
           Some u \<Rightarrow> Inr (if us_first_name u = None then [s] else [], db)
         | None \<Rightarrow>
            (case store_user e (stub_user s) ''message'' db of
               Inl err \<Rightarrow> Inl err
             | Inr db' \<Rightarrow> Inr ([s], db'))))"

text \<open>\<^verbatim>\<open>NewMaxStore.store_message\<close>; an error rolls the transaction back.\<close>

definition store_message ::
    "store_env \<Rightarrow> account_tables \<Rightarrow> int \<Rightarrow> message_row \<Rightarrow> string \<Rightarrow> bool \<Rightarrow> int option
       \<Rightarrow> people_error + (int list \<times> account_tables)" where
  "store_message e db ext row chat_type adv time_ms =
    (let (pk, db1) = (case chat_pk db ext of
           Some pk \<Rightarrow> (pk, db)
         | None \<Rightarrow> upsert_chat db (stub_chat ext chat_type))
     in case store_sender e (mr_sender_external_id row) db1 of
          Inl err \<Rightarrow> Inl err
        | Inr (missing, db2) \<Rightarrow>
           (let db3 = snd (upsert_message db2 pk row);
                db4 = (if chat_pk db ext = None \<and> chat_type = ''private''
                       then snd (fill_dialog_titles (se_saved e) db3 (Some [ext])) else db3)
            in Inr (missing, case time_ms of
                 Some t \<Rightarrow> if adv then advance db4 pk (mr_external_id row) t else db4
               | None \<Rightarrow> db4)))"

definition store_mark_deleted :: "account_tables \<Rightarrow> int \<Rightarrow> int list \<Rightarrow> usec \<Rightarrow> int list \<times> account_tables" where
  "store_mark_deleted db ext ids at =
    (case chat_pk db ext of
       None \<Rightarrow> ([], db)
     | Some pk \<Rightarrow>
        (let db' = snd (mark_deleted db (Some pk) ids at)
         in (map mg_external_id (filter (\<lambda>m. mg_chat_id m = pk \<and> mg_external_id m \<in> set ids) (at_messages db')), db')))"

end
