(* ===== verification/Max_Sync.thy ===== *)
theory Max_Sync
  imports Max_Store
begin

text \<open>
  History of MAX: backfill backward and forward and the catch-up pass of \<^verbatim>\<open>app/max/sync.py\<close>. The
  loops work on any tables \<open>'s\<close>; \<open>sync_env\<close> holds what they call: the store of one message
  (false: it failed and was logged), the history request, the chat list, the cursor operations,
  and \<open>sv_others\<close>, what other tasks (live events) do to the tables before the request or store
  number \<open>k\<close>. The loops run on fuel, one unit per page; \<^term>\<open>None\<close> is a loop that needs more.
\<close>

definition PAGE_SIZE :: nat where "PAGE_SIZE = 100"
definition MAX_CHAT_PAGES :: nat where "MAX_CHAT_PAGES = 50"
definition CATCHUP_LIMIT :: nat where "CATCHUP_LIMIT = 10000"

record hmsg =
  hm_id :: int
  hm_time :: int

text \<open>What a request can raise: no client, the chat is denied, anything else.\<close>

datatype failure = Session_unavailable | Chat_denied | Other_failure

record 's sync_env =
  sv_store :: "nat \<Rightarrow> int \<Rightarrow> hmsg \<Rightarrow> 's \<Rightarrow> bool \<times> 's"
  sv_history :: "nat \<Rightarrow> int \<Rightarrow> int option \<Rightarrow> nat \<Rightarrow> nat \<Rightarrow> failure + hmsg list"
    \<comment> \<open>request number, chat, from, forward, backward\<close>
  sv_others :: "nat \<Rightarrow> 's \<Rightarrow> 's"
  sv_cursor :: "'s \<Rightarrow> int \<Rightarrow> cursor option"
  sv_move_oldest :: "'s \<Rightarrow> int \<Rightarrow> int \<Rightarrow> int \<Rightarrow> nat \<Rightarrow> 's"
  sv_finish :: "'s \<Rightarrow> int \<Rightarrow> bool option \<Rightarrow> 's"
  sv_mark_catchup :: "'s \<Rightarrow> int \<Rightarrow> 's"
  sv_denied :: "'s \<Rightarrow> int \<Rightarrow> 's"
  sv_rows :: "'s \<Rightarrow> (int \<times> int option \<times> cursor option) list"

definition page_size :: "nat \<Rightarrow> bool \<Rightarrow> nat" where
  "page_size remaining has_cursor = min PAGE_SIZE (remaining + (if has_cursor then 1 else 0))"

text \<open>\<^verbatim>\<open>_store\<close> over a page: the number stored.\<close>

fun store_all :: "('s, 'z) sync_env_scheme \<Rightarrow> int \<Rightarrow> nat \<Rightarrow> hmsg list \<Rightarrow> 's \<Rightarrow> nat \<times> nat \<times> 's" where
  "store_all v chat k [] s = (0, k, s)"
| "store_all v chat k (m # ms) s =
     (case sv_store v k chat m (sv_others v k s) of
        (ok, s1) \<Rightarrow> (case store_all v chat (Suc k) ms s1 of
          (n, k', s2) \<Rightarrow> ((if ok then 1 else 0) + n, k', s2)))"

subsection \<open>Forward\<close>

definition newer_of :: "int \<Rightarrow> int list \<Rightarrow> hmsg list \<Rightarrow> hmsg list" where
  "newer_of c seen page = filter (\<lambda>m. c < hm_time m \<or> (hm_time m = c \<and> hm_id m \<notin> set seen)) page"

definition newest_time :: "hmsg list \<Rightarrow> int" where
  "newest_time ms = foldl max (hm_time (hd ms)) (map hm_time (tl ms))"

fun forward_loop ::
    "nat \<Rightarrow> ('s, 'z) sync_env_scheme \<Rightarrow> int \<Rightarrow> nat \<Rightarrow> nat \<Rightarrow> int \<Rightarrow> int list \<Rightarrow> nat \<Rightarrow> 's
       \<Rightarrow> ((failure + nat) \<times> nat \<times> 's) option" where
  "forward_loop 0 v chat limit k c seen stored s = (if stored < limit then None else Some (Inr stored, k, s))"
| "forward_loop (Suc n) v chat limit k c seen stored s =
     (if \<not> stored < limit then Some (Inr stored, k, s)
      else
       (case sv_history v k chat (Some c) (page_size (limit - stored) True) 0 of
          Inl e \<Rightarrow> Some (Inl e, Suc k, s)
        | Inr page \<Rightarrow>
           (let newer = newer_of c seen page
            in if newer = [] then Some (Inr stored, Suc k, s)
               else
                (case store_all v chat (Suc k) (take (limit - stored) (sort_key hm_time newer)) s of
                   (got, k', s') \<Rightarrow>
                     (let t = newest_time newer
                      in forward_loop n v chat limit k' t (map hm_id (filter (\<lambda>m. hm_time m = t) newer))
                           (stored + got) s')))))"

text \<open>
  \<^verbatim>\<open>_forward\<close>. Without a newest time the comparison with None is a TypeError as soon as the page
  holds a message; without a cursor at all the attribute access fails.
\<close>

definition seen_ids :: "cursor \<Rightarrow> int list" where
  "seen_ids st = (case cu_newest_message_id st of None \<Rightarrow> [] | Some i \<Rightarrow> [i])"

definition forward ::
    "nat \<Rightarrow> ('s, 'z) sync_env_scheme \<Rightarrow> int \<Rightarrow> nat \<Rightarrow> nat \<Rightarrow> 's \<Rightarrow> ((failure + nat) \<times> nat \<times> 's) option" where
  "forward fuel v chat limit k s =
    (case sv_cursor v s chat of
       None \<Rightarrow> Some (Inl Other_failure, k, s)
     | Some st \<Rightarrow>
        (case (case cu_newest_time_ms st of
                 Some c \<Rightarrow> forward_loop fuel v chat limit k c (seen_ids st) 0 s
               | None \<Rightarrow>
                  if limit = 0 then Some (Inr 0, k, s)
                  else (case sv_history v k chat None (page_size limit True) 0 of
                     Inl e \<Rightarrow> Some (Inl e, Suc k, s)
                   | Inr page \<Rightarrow> Some (if page = [] then Inr 0 else Inl Other_failure, Suc k, s))) of
           Some (Inr n, k', s') \<Rightarrow> Some (Inr n, k', sv_finish v s' chat None)
         | r \<Rightarrow> r))"

subsection \<open>Backward\<close>

definition older_of :: "int option \<Rightarrow> hmsg list \<Rightarrow> hmsg list" where
  "older_of c page = filter (\<lambda>m. case c of None \<Rightarrow> True | Some t \<Rightarrow> hm_time m < t) page"

text \<open>The part of the page to store: not before \<open>stop\<close>, the newest first, at most the rest.\<close>

definition in_range :: "int option \<Rightarrow> nat \<Rightarrow> hmsg list \<Rightarrow> hmsg list" where
  "in_range stop remaining older =
     take remaining (sort_key (\<lambda>m. - hm_time m)
       (filter (\<lambda>m. case stop of None \<Rightarrow> True | Some t \<Rightarrow> t \<le> hm_time m) older))"

fun backward_loop ::
    "nat \<Rightarrow> ('s, 'z) sync_env_scheme \<Rightarrow> int \<Rightarrow> int option \<Rightarrow> nat \<Rightarrow> nat \<Rightarrow> int option \<Rightarrow> nat \<Rightarrow> 's
       \<Rightarrow> ((failure + nat \<times> bool) \<times> nat \<times> 's) option" where
  "backward_loop 0 v chat stop limit k c stored s =
     (if stored < limit then None else Some (Inr (stored, False), k, s))"
| "backward_loop (Suc n) v chat stop limit k c stored s =
     (if \<not> stored < limit then Some (Inr (stored, False), k, s)
      else
       (case sv_history v k chat c 0 (page_size (limit - stored) (c \<noteq> None)) of
          Inl e \<Rightarrow> Some (Inl e, Suc k, s)
        | Inr page \<Rightarrow>
           (let older = older_of c page; ms = in_range stop (limit - stored) older
            in if older = [] then Some (Inr (stored, True), Suc k, s)
               else if ms = [] then Some (Inr (stored, False), Suc k, s)
               else
                (case store_all v chat (Suc k) ms s of
                   (got, k', s1) \<Rightarrow>
                     (let s2 = sv_move_oldest v s1 chat (hm_id (last ms)) (hm_time (last ms)) got
                      in if length ms < length older then Some (Inr (stored + got, False), k', s2)
                         else backward_loop n v chat stop limit k' (Some (hm_time (last ms))) (stored + got) s2)))))"

text \<open>\<^verbatim>\<open>_backward\<close>: a stored oldest time of 0 counts as none.\<close>

definition backward ::
    "nat \<Rightarrow> ('s, 'z) sync_env_scheme \<Rightarrow> int \<Rightarrow> nat \<Rightarrow> int option \<Rightarrow> nat \<Rightarrow> 's
       \<Rightarrow> ((failure + nat) \<times> nat \<times> 's) option" where
  "backward fuel v chat limit stop k s =
    (let c = (case sv_cursor v s chat of None \<Rightarrow> None
         | Some st \<Rightarrow> (case cu_oldest_time_ms st of Some t \<Rightarrow> if t = 0 then None else Some t | None \<Rightarrow> None))
     in case backward_loop fuel v chat stop limit k c 0 s of
          None \<Rightarrow> None
        | Some (Inl e, k', s') \<Rightarrow> Some (Inl e, k', s')
        | Some (Inr (n, fully), k', s') \<Rightarrow> Some (Inr n, k', sv_finish v s' chat (Some fully)))"

subsection \<open>Backfill on request\<close>

text \<open>
  \<^verbatim>\<open>_run_backfill\<close>: a failure is logged, or marks the chat denied; the count is then 0.
\<close>

definition run_backfill ::
    "nat \<Rightarrow> ('s, 'z) sync_env_scheme \<Rightarrow> int \<Rightarrow> nat \<Rightarrow> string \<Rightarrow> int option \<Rightarrow> nat \<Rightarrow> 's \<Rightarrow> (nat \<times> nat \<times> 's) option" where
  "run_backfill fuel v chat limit direction stop k s =
    (case (if direction = ''forward'' then forward fuel v chat limit k s
           else backward fuel v chat limit stop k s) of
       None \<Rightarrow> None
     | Some (Inr n, k', s') \<Rightarrow> Some (n, k', s')
     | Some (Inl e, k', s') \<Rightarrow> Some (0, k', if e = Chat_denied then sv_denied v s' chat else s'))"

datatype backfill_answer =
    Already_running
  | Unavailable
  | No_newest_time
  | Started

definition start_backfill :: "bool \<Rightarrow> bool \<Rightarrow> ('s, 'z) sync_env_scheme \<Rightarrow> 's \<Rightarrow> int \<Rightarrow> string \<Rightarrow> backfill_answer" where
  "start_backfill running client v s chat direction =
    (if running then Already_running
     else if \<not> client then Unavailable
     else if direction = ''forward'' \<and>
        (case sv_cursor v s chat of None \<Rightarrow> True | Some st \<Rightarrow> cu_newest_time_ms st = None) then No_newest_time
     else Started)"

subsection \<open>The chat list\<close>

text \<open>
  \<^verbatim>\<open>sync_chats\<close>: pages of the chat list by a time marker that must decrease; \<open>fetch\<close> asks for
  the chats before the marker (id and last event, 0 or missing for none), \<open>store\<close> stores the
  fresh ones. \<open>n\<close> counts the pages left.
\<close>

fun least :: "int list \<Rightarrow> int option" where
  "least [] = None"
| "least (x # xs) = Some (foldl min x xs)"

fun sync_pages ::
    "nat \<Rightarrow> (int option \<Rightarrow> failure + (int \<times> int option) list) \<Rightarrow> (int list \<Rightarrow> 's \<Rightarrow> 's)
       \<Rightarrow> int list \<Rightarrow> int option \<Rightarrow> 's \<Rightarrow> (failure + int list) \<times> 's" where
  "sync_pages 0 fetch store seen marker s = (Inr seen, s)"
| "sync_pages (Suc n) fetch store seen marker s =
     (case fetch marker of
        Inl e \<Rightarrow> (Inl e, s)
      | Inr chats \<Rightarrow>
         (let fresh = filter (\<lambda>c. fst c \<notin> set seen) chats
          in if fresh = [] then (Inr seen, s)
             else
              (let s' = store (map fst fresh) s; seen' = seen @ remdups (map fst fresh);
                   next_marker = least (filter (\<lambda>t. t \<noteq> 0) (List.map_filter snd chats))
               in case next_marker of
                    None \<Rightarrow> (Inr seen', s')
                  | Some t \<Rightarrow>
                     if (case marker of None \<Rightarrow> False | Some m \<Rightarrow> m \<le> t) then (Inr seen', s')
                     else sync_pages n fetch store seen' (Some t) s')))"

definition sync_chats ::
    "(int option \<Rightarrow> failure + (int \<times> int option) list) \<Rightarrow> (int list \<Rightarrow> 's \<Rightarrow> 's) \<Rightarrow> 's \<Rightarrow> (failure + nat) \<times> 's" where
  "sync_chats fetch store s =
    (case sync_pages MAX_CHAT_PAGES fetch store [] None s of
       (Inl e, s') \<Rightarrow> (Inl e, s')
     | (Inr seen, s') \<Rightarrow> (Inr (length seen), s'))"

subsection \<open>Catch-up\<close>

text \<open>
  \<^verbatim>\<open>_catchup_candidates\<close>: the chats with a tail or never synced, and those without a tail.
\<close>

definition has_tail :: "int option \<times> cursor option \<Rightarrow> bool" where
  "has_tail r = (case r of
     (None, _) \<Rightarrow> False
   | (Some t, None) \<Rightarrow> True
   | (Some t, Some c) \<Rightarrow> (case cu_newest_time_ms c of None \<Rightarrow> True | Some n \<Rightarrow> n < t))"

definition catchup_candidates :: "(int \<times> int option \<times> cursor option) list \<Rightarrow> (int \<times> cursor option) list \<times> int list" where
  "catchup_candidates rows =
    (map (\<lambda>(i, _, c). (i, c)) (filter (\<lambda>(_, r). has_tail r) rows),
     map fst (filter (\<lambda>(_, r). \<not> has_tail r) rows))"

text \<open>The session's part of the state.\<close>

record 's sync_session =
  ss_tables :: 's
  ss_caught_up :: "int list"
  ss_requests :: nat
  ss_backlog :: nat

text \<open>The seed of a chat seen for the first time: the last messages, no history.\<close>

fun oldest_of :: "hmsg \<Rightarrow> hmsg list \<Rightarrow> hmsg" where
  "oldest_of best [] = best"
| "oldest_of best (m # ms) = oldest_of (if hm_time m < hm_time best then m else best) ms"

definition seed :: "('s, 'z) sync_env_scheme \<Rightarrow> nat \<Rightarrow> int \<Rightarrow> nat \<Rightarrow> 's \<Rightarrow> (failure + unit) \<times> nat \<times> 's" where
  "seed v n chat k s =
    (case sv_history v k chat None 0 n of
       Inl e \<Rightarrow> (Inl e, Suc k, s)
     | Inr page \<Rightarrow>
        (case store_all v chat (Suc k) page s of
           (_, k', s1) \<Rightarrow> (Inr (), k', (case page of
              [] \<Rightarrow> s1
            | m # ms \<Rightarrow> (let o' = oldest_of m ms in sv_move_oldest v s1 chat (hm_id o') (hm_time o') (length page))))))"

definition catch_up_chat ::
    "nat \<Rightarrow> ('s, 'z) sync_env_scheme \<Rightarrow> nat \<Rightarrow> int \<times> cursor option \<Rightarrow> nat \<Rightarrow> 's
       \<Rightarrow> ((failure + unit) \<times> nat \<times> 's) option" where
  "catch_up_chat fuel v seed_size cand k s =
    (case snd cand of
       None \<Rightarrow> Some (seed v seed_size (fst cand) k s)
     | Some _ \<Rightarrow>
        (case forward fuel v (fst cand) CATCHUP_LIMIT k s of
           None \<Rightarrow> None
         | Some (Inl e, k', s') \<Rightarrow> Some (Inl e, k', s')
         | Some (Inr _, k', s') \<Rightarrow> Some (Inr (), k', s')))"

text \<open>The loop over the candidates of the pass; the number that failed.\<close>

fun catch_up_chats ::
    "nat \<Rightarrow> ('s, 'z) sync_env_scheme \<Rightarrow> nat \<Rightarrow> (int \<times> cursor option) list \<Rightarrow> 's sync_session
       \<Rightarrow> ((failure + nat) \<times> 's sync_session) option" where
  "catch_up_chats fuel v seed_size [] ss = Some (Inr 0, ss)"
| "catch_up_chats fuel v seed_size (cand # cands) ss =
     (case catch_up_chat fuel v seed_size cand (ss_requests ss) (ss_tables ss) of
        None \<Rightarrow> None
      | Some (r, k, s) \<Rightarrow>
         (case r of
            Inl Session_unavailable \<Rightarrow> Some (Inl Session_unavailable, ss\<lparr>ss_tables := s, ss_requests := k\<rparr>)
          | Inl Chat_denied \<Rightarrow> catch_up_chats fuel v seed_size cands
              (ss\<lparr>ss_tables := sv_denied v s (fst cand), ss_requests := k\<rparr>)
          | Inl Other_failure \<Rightarrow>
             (case catch_up_chats fuel v seed_size cands (ss\<lparr>ss_tables := s, ss_requests := k\<rparr>) of
                Some (Inr failed, ss') \<Rightarrow> Some (Inr (Suc failed), ss')
              | r' \<Rightarrow> r')
          | Inr _ \<Rightarrow> catch_up_chats fuel v seed_size cands
              (ss\<lparr>ss_tables := sv_mark_catchup v s (fst cand), ss_requests := k,
                  ss_caught_up := List.insert (fst cand) (ss_caught_up ss)\<rparr>)))"

text \<open>
  \<^verbatim>\<open>catch_up\<close>: \<open>listed\<close> is what the sync of the chat list came to (none: it failed). With a
  stale list no chat counts as caught up for want of a tail, and another pass is due.
\<close>

definition catch_up ::
    "nat \<Rightarrow> ('s, 'z) sync_env_scheme \<Rightarrow> bool \<Rightarrow> nat \<Rightarrow> nat \<Rightarrow> (failure + nat) \<times> 's \<Rightarrow> 's sync_session
       \<Rightarrow> ((failure + nat) \<times> 's sync_session) option" where
  "catch_up fuel v client max_chats seed_size listed ss =
    (case listed of
       (Inl Session_unavailable, s) \<Rightarrow> Some (Inl Session_unavailable, ss\<lparr>ss_tables := s\<rparr>)
     | (fresh, s) \<Rightarrow>
        (let (candidates, no_tail) = catchup_candidates (sv_rows v s);
             is_fresh = (case fresh of Inr _ \<Rightarrow> True | Inl _ \<Rightarrow> False);
             ss1 = ss\<lparr>ss_tables := s,
               ss_caught_up := (if is_fresh then fold List.insert no_tail (ss_caught_up ss) else ss_caught_up ss)\<rparr>
         in if \<not> client then Some (Inl Session_unavailable, ss1)
            else (case catch_up_chats fuel v seed_size (take max_chats candidates) ss1 of
               None \<Rightarrow> None
             | Some (Inl e, ss2) \<Rightarrow> Some (Inl e, ss2)
             | Some (Inr failed, ss2) \<Rightarrow>
                (let backlog = length (drop max_chats candidates) + failed;
                     backlog = (if is_fresh then backlog else max backlog 1)
                 in Some (Inr backlog, ss2\<lparr>ss_backlog := backlog\<rparr>)))))"

subsection \<open>The environment of an account\<close>

text \<open>
  The loops on the account's tables: \<open>norm\<close> and \<open>kind\<close> are what the normaliser makes of a
  message, \<open>fails\<close> says which stores raise, \<open>ask\<close> is MAX, \<open>others\<close> the concurrent tasks.
\<close>

definition store_history ::
    "store_env \<Rightarrow> (int \<Rightarrow> hmsg \<Rightarrow> message_row) \<Rightarrow> (int \<Rightarrow> hmsg \<Rightarrow> string) \<Rightarrow> bool \<Rightarrow> int \<Rightarrow> hmsg \<Rightarrow> account_tables
       \<Rightarrow> bool \<times> account_tables" where
  "store_history e norm kind fails chat m db =
    (if fails then (False, db)
     else case store_message e db chat (norm chat m) (kind chat m) True (Some (hm_time m)) of
            Inl _ \<Rightarrow> (False, db)
          | Inr (_, db') \<Rightarrow> (True, db'))"

definition max_sync_env ::
    "store_env \<Rightarrow> (int \<Rightarrow> hmsg \<Rightarrow> message_row) \<Rightarrow> (int \<Rightarrow> hmsg \<Rightarrow> string) \<Rightarrow> (nat \<Rightarrow> int \<Rightarrow> hmsg \<Rightarrow> bool)
       \<Rightarrow> (nat \<Rightarrow> int \<Rightarrow> int option \<Rightarrow> nat \<Rightarrow> nat \<Rightarrow> failure + hmsg list) \<Rightarrow> (nat \<Rightarrow> account_tables \<Rightarrow> account_tables)
       \<Rightarrow> account_tables sync_env" where
  "max_sync_env e norm kind fails ask others = \<lparr>
     sv_store = (\<lambda>k chat m db. store_history e norm kind (fails k chat m) chat m db),
     sv_history = ask,
     sv_others = others,
     sv_cursor = load_cursor,
     sv_move_oldest = (\<lambda>db chat i t n. move_oldest db chat i t (int n)),
     sv_finish = (\<lambda>db chat b. finish_backfill db chat b (se_now e)),
     sv_mark_catchup = (\<lambda>db chat. mark_catchup db chat (se_now e)),
     sv_denied = (\<lambda>db chat. set_chat_status db chat ''DENIED''),
     sv_rows = catchup_rows\<rparr>"

text \<open>A message with a time that its normalised row belongs to.\<close>

definition storable :: "(int \<Rightarrow> hmsg \<Rightarrow> message_row) \<Rightarrow> int \<Rightarrow> hmsg \<Rightarrow> bool" where
  "storable norm chat m \<longleftrightarrow> 0 < hm_time m \<and> mr_external_id (norm chat m) = hm_id m"

end
