(* ===== verification/Max_Connection.thy ===== *)
theory Max_Connection
  imports Max_Sync
begin

text \<open>
  The protocol that keeps the newest cursor free of gaps: live events
  (\<^verbatim>\<open>MaxIngest.store_message\<close>), the loss and return of the connection
  (\<^verbatim>\<open>MaxSession._supervise\<close> empties \<open>caught_up\<close> before each connect) and the catch-up
  pass (\<^verbatim>\<open>MaxSync.catch_up\<close>), page by page and message by message, as steps that interleave. The
  server's history of each chat is part of the world. A store may fail: the message is logged and
  left out, and its id is noted in \<open>mw_skipped\<close>, which nothing reads. A pass whose connection is
  lost goes on with the page it has; its next request fails, and the next connection cancels it
  (\<^verbatim>\<open>begin_attempt\<close> and the cancellation in \<^verbatim>\<open>on_authorized\<close> are one step).
\<close>

text \<open>The work a catch-up has in hand for a chat.\<close>

datatype pass =
    Idle
  | Forward int int "int list" "hmsg list" nat  \<comment> \<open>chat, loop cursor, seen ids, still to store, stored\<close>
  | Seeding int "hmsg list" "hmsg list"         \<comment> \<open>chat, still to store, the page\<close>
  | Finishing int                               \<comment> \<open>the loop is over, the chat not yet marked\<close>

record max_world =
  mw_tables :: account_tables
  mw_caught_up :: "int list"
  mw_server :: "int \<Rightarrow> hmsg list"
  mw_online :: bool
  mw_pass :: pass
  mw_skipped :: "int \<Rightarrow> int set" \<comment> \<open>per chat, the ids whose store has failed\<close>

definition arrives :: "max_world \<Rightarrow> int \<Rightarrow> hmsg \<Rightarrow> max_world" where
  "arrives w chat m = w\<lparr>mw_server := (mw_server w)(chat := mw_server w chat @ [m])\<rparr>"

definition skips :: "max_world \<Rightarrow> int \<Rightarrow> hmsg \<Rightarrow> max_world" where
  "skips w chat m = w\<lparr>mw_skipped := (mw_skipped w)(chat := insert (hm_id m) (mw_skipped w chat))\<rparr>"

definition later :: "max_world \<Rightarrow> int \<Rightarrow> hmsg \<Rightarrow> bool" where
  "later w chat m \<longleftrightarrow> list_all (\<lambda>p. hm_time p < hm_time m) (mw_server w chat)"

definition page_from :: "max_world \<Rightarrow> int \<Rightarrow> int \<Rightarrow> nat \<Rightarrow> hmsg list" where
  "page_from w chat c n = take n (filter (\<lambda>m. c \<le> hm_time m) (mw_server w chat))"

definition last_page :: "max_world \<Rightarrow> int \<Rightarrow> nat \<Rightarrow> hmsg list" where
  "last_page w chat n = drop (length (mw_server w chat) - n) (mw_server w chat)"

definition next_newer :: "max_world \<Rightarrow> int \<Rightarrow> int \<Rightarrow> int list \<Rightarrow> nat \<Rightarrow> hmsg list" where
  "next_newer w chat c seen got = newer_of c seen (page_from w chat c (page_size (CATCHUP_LIMIT - got) True))"

text \<open>
  \<open>norm\<close> and \<open>kind\<close> normalise a message, \<open>seed_size\<close> is the size of a seed. \<open>gives_up\<close> is any
  exception of the pass: a failed request, a failed write of the cursor, a cancellation.
\<close>

inductive max_step ::
    "store_env \<Rightarrow> (int \<Rightarrow> hmsg \<Rightarrow> message_row) \<Rightarrow> (int \<Rightarrow> hmsg \<Rightarrow> string) \<Rightarrow> nat \<Rightarrow> max_world \<Rightarrow> max_world \<Rightarrow> bool"
    for e norm kind seed_size where
  live: "\<lbrakk>mw_online w; later w chat m; storable norm chat m;
     store_message e (mw_tables w) chat (norm chat m) (kind chat m) (chat \<in> set (mw_caught_up w)) (Some (hm_time m)) = Inr (miss, db)\<rbrakk> \<Longrightarrow>
     max_step e norm kind seed_size w ((arrives w chat m)\<lparr>mw_tables := db\<rparr>)"
| live_fails: "\<lbrakk>mw_online w; later w chat m; storable norm chat m\<rbrakk> \<Longrightarrow>
     max_step e norm kind seed_size w (skips (arrives w chat m) chat m)"
| missed: "\<lbrakk>\<not> mw_online w; later w chat m; storable norm chat m\<rbrakk> \<Longrightarrow> max_step e norm kind seed_size w (arrives w chat m)"
| lost: "max_step e norm kind seed_size w (w\<lparr>mw_online := False\<rparr>)"
| gives_up: "max_step e norm kind seed_size w (w\<lparr>mw_pass := Idle\<rparr>)"
| connected: "max_step e norm kind seed_size w (w\<lparr>mw_online := True, mw_pass := Idle, mw_caught_up := []\<rparr>)"
| no_tail: "\<lbrakk>mw_online w; mw_server w chat = [] \<or>
     (\<exists>st t. load_cursor (mw_tables w) chat = Some st \<and> cu_newest_time_ms st = Some t \<and> hm_time (last (mw_server w chat)) \<le> t)\<rbrakk> \<Longrightarrow>
     max_step e norm kind seed_size w (w\<lparr>mw_caught_up := List.insert chat (mw_caught_up w)\<rparr>)"
| begin_forward: "\<lbrakk>mw_online w; mw_pass w = Idle; load_cursor (mw_tables w) chat = Some st; cu_newest_time_ms st = Some c\<rbrakk> \<Longrightarrow>
     max_step e norm kind seed_size w (w\<lparr>mw_pass := Forward chat c (seen_ids st) [] 0\<rparr>)"
| page: "\<lbrakk>mw_online w; mw_pass w = Forward chat c seen [] got; got < CATCHUP_LIMIT; next_newer w chat c seen got = newer; newer \<noteq> []\<rbrakk> \<Longrightarrow>
     max_step e norm kind seed_size w (w\<lparr>mw_pass := Forward chat (newest_time newer)
       (map hm_id (filter (\<lambda>m. hm_time m = newest_time newer) newer)) (take (CATCHUP_LIMIT - got) (sort_key hm_time newer)) got\<rparr>)"
| put: "\<lbrakk>mw_pass w = Forward chat c seen (m # ms) got;
     store_message e (mw_tables w) chat (norm chat m) (kind chat m) True (Some (hm_time m)) = Inr (miss, db)\<rbrakk> \<Longrightarrow>
     max_step e norm kind seed_size w (w\<lparr>mw_tables := db, mw_pass := Forward chat c seen ms (Suc got)\<rparr>)"
| put_fails: "mw_pass w = Forward chat c seen (m # ms) got \<Longrightarrow>
     max_step e norm kind seed_size w (skips (w\<lparr>mw_pass := Forward chat c seen ms got\<rparr>) chat m)"
| end_forward: "\<lbrakk>mw_pass w = Forward chat c seen [] got; got < CATCHUP_LIMIT \<longrightarrow> mw_online w \<and> next_newer w chat c seen got = []\<rbrakk> \<Longrightarrow>
     max_step e norm kind seed_size w (w\<lparr>mw_tables := finish_backfill (mw_tables w) chat None (se_now e), mw_pass := Finishing chat\<rparr>)"
| begin_seed: "\<lbrakk>mw_online w; mw_pass w = Idle; chat_pk (mw_tables w) chat \<noteq> None; load_cursor (mw_tables w) chat = None\<rbrakk> \<Longrightarrow>
     max_step e norm kind seed_size w (w\<lparr>mw_pass := Seeding chat (last_page w chat seed_size) (last_page w chat seed_size)\<rparr>)"
| put_seed: "\<lbrakk>mw_pass w = Seeding chat (m # ms) pg;
     store_message e (mw_tables w) chat (norm chat m) (kind chat m) True (Some (hm_time m)) = Inr (miss, db)\<rbrakk> \<Longrightarrow>
     max_step e norm kind seed_size w (w\<lparr>mw_tables := db, mw_pass := Seeding chat ms pg\<rparr>)"
| put_seed_fails: "mw_pass w = Seeding chat (m # ms) pg \<Longrightarrow>
     max_step e norm kind seed_size w (skips (w\<lparr>mw_pass := Seeding chat ms pg\<rparr>) chat m)"
| end_seed: "\<lbrakk>mw_pass w = Seeding chat [] pg;
     db = (case pg of [] \<Rightarrow> mw_tables w
       | m # ms \<Rightarrow> move_oldest (mw_tables w) chat (hm_id (oldest_of m ms)) (hm_time (oldest_of m ms)) (int (length pg)))\<rbrakk> \<Longrightarrow>
     max_step e norm kind seed_size w (w\<lparr>mw_tables := db, mw_pass := Finishing chat\<rparr>)"
| mark: "mw_pass w = Finishing chat \<Longrightarrow>
     max_step e norm kind seed_size w (w\<lparr>mw_tables := mark_catchup (mw_tables w) chat (se_now e), mw_pass := Idle,
       mw_caught_up := List.insert chat (mw_caught_up w)\<rparr>)"

text \<open>A run begins with no cursors; the histories on the server are in time order.\<close>

definition max_start :: "max_world \<Rightarrow> bool" where
  "max_start w \<longleftrightarrow> mw_caught_up w = [] \<and> mw_pass w = Idle \<and> at_states (mw_tables w) = []"

end
