(* ===== verification/Chat_Facts.thy ===== *)
theory Chat_Facts
  imports Chat_Tables People_Facts
begin

text \<open>
  Consistency of an account's tables under the operations on chats, messages and cursors, and the
  merge rules of messages: which copy of a message wins whatever the order of arrival.
\<close>

subsection \<open>Lookups\<close>

lemma one_or_none_append: "one_or_none P (xs @ ys) = (case one_or_none P xs of None \<Rightarrow> one_or_none P ys | Some r \<Rightarrow> Some r)"
  by (induction xs) (auto simp: one_or_none_def)

lemma one_or_none_update_rows:
  assumes "\<And>r. P (f r) = P r"
  shows "one_or_none P (update_rows Q f rows) = map_option (\<lambda>r. if Q r then f r else r) (one_or_none P rows)"
  using assms by (induction rows) (auto simp: one_or_none_def update_rows_def)

subsection \<open>Consistency\<close>

definition chats_ok :: "account_tables \<Rightarrow> bool" where
  "chats_ok db \<longleftrightarrow> distinct (map ch_id (at_chats db)) \<and> distinct (map ch_external_id (at_chats db)) \<and>
     (\<forall>c \<in> set (at_chats db). ch_id c < at_next_chat db)"

definition messages_ok :: "account_tables \<Rightarrow> bool" where
  "messages_ok db \<longleftrightarrow> distinct (map (\<lambda>m. (mg_chat_id m, mg_external_id m)) (at_messages db)) \<and>
     mg_chat_id ` set (at_messages db) \<subseteq> ch_id ` set (at_chats db)"

definition states_ok :: "account_tables \<Rightarrow> bool" where
  "states_ok db \<longleftrightarrow> distinct (map sy_chat_id (at_states db)) \<and>
     sy_chat_id ` set (at_states db) \<subseteq> ch_id ` set (at_chats db)"

definition tables_ok :: "account_tables \<Rightarrow> bool" where
  "tables_ok db \<longleftrightarrow> chats_ok db \<and> messages_ok db \<and> states_ok db"

text \<open>An update of chats that keeps their keys.\<close>

lemma update_chats_ok:
  assumes "tables_ok db" and "\<And>c. ch_id (f c) = ch_id c" "\<And>c. ch_external_id (f c) = ch_external_id c"
  shows "tables_ok (db\<lparr>at_chats := update_rows P f (at_chats db)\<rparr>)"
proof -
  have m: "map ch_id (update_rows P f (at_chats db)) = map ch_id (at_chats db)"
    "map ch_external_id (update_rows P f (at_chats db)) = map ch_external_id (at_chats db)"
    using assms(2,3) by (simp_all add: map_update_rows_keep)
  have s: "ch_id ` set (update_rows P f (at_chats db)) = ch_id ` set (at_chats db)"
    using arg_cong [OF m(1), of set] by simp
  then have "\<forall>c \<in> set (update_rows P f (at_chats db)). ch_id c < at_next_chat db"
    using assms(1,2) by (auto simp: tables_ok_def chats_ok_def set_update_rows)
  then show ?thesis using assms(1) m s
    by (simp add: tables_ok_def chats_ok_def messages_ok_def states_ok_def)
qed

lemma get_chat_Some: "get_chat db ext = Some c \<Longrightarrow> c \<in> set (at_chats db) \<and> ch_external_id c = ext"
  unfolding get_chat_def by (rule one_or_none_Some)

lemma get_chat_None: "get_chat db ext = None \<longleftrightarrow> (\<forall>c \<in> set (at_chats db). ch_external_id c \<noteq> ext)"
  by (simp add: get_chat_def one_or_none_None)

lemma chat_pk_Some: "chat_pk db ext = Some pk \<Longrightarrow> pk \<in> ch_id ` set (at_chats db)"
  using get_chat_Some by (auto simp: chat_pk_def)

lemma upsert_chat_ok:
  assumes ok: "tables_ok db" and u: "upsert_chat db row = (pk, db')"
  shows "tables_ok db' \<and> chat_pk db' (cr_external_id row) = Some pk"
proof (cases "get_chat db (cr_external_id row)")
  case None
  then have new: "cr_external_id row \<notin> ch_external_id ` set (at_chats db)" by (auto simp: get_chat_None)
  have db': "db' = db\<lparr>at_chats := at_chats db @ [new_chat (at_next_chat db) row], at_next_chat := at_next_chat db + 1\<rparr>"
    "pk = at_next_chat db" using u None by (auto simp: upsert_chat_def)
  have "at_next_chat db \<notin> ch_id ` set (at_chats db)" using ok by (auto simp: tables_ok_def chats_ok_def)
  then have "chats_ok db'" using ok new unfolding db'
    by (auto simp: tables_ok_def chats_ok_def new_chat_def intro: less_imp_le)
  moreover have "messages_ok db' \<and> states_ok db'"
    using ok unfolding db' by (auto simp: tables_ok_def messages_ok_def states_ok_def)
  moreover have "chat_pk db' (cr_external_id row) = Some pk"
    using None by (simp add: db' chat_pk_def get_chat_def one_or_none_append) (simp add: one_or_none_def new_chat_def)
  ultimately show ?thesis by (simp add: tables_ok_def)
next
  case (Some c)
  let ?db = "db\<lparr>at_next_chat := at_next_chat db + 1\<rparr>"
  have db': "db' = ?db\<lparr>at_chats := update_rows (is_chat (cr_external_id row)) (merged_chat row) (at_chats ?db)\<rparr>"
    "pk = ch_id c" using u Some by (auto simp: upsert_chat_def)
  have "tables_ok ?db" using ok by (auto simp: tables_ok_def chats_ok_def messages_ok_def states_ok_def intro: less_imp_le)
  then have "tables_ok db'" unfolding db' by (rule update_chats_ok) (simp_all add: merged_chat_def)
  moreover have "get_chat db' (cr_external_id row) = Some (merged_chat row c)"
    using Some get_chat_Some [OF Some]
    by (simp add: db' get_chat_def one_or_none_update_rows merged_chat_def)
  then have "chat_pk db' (cr_external_id row) = Some pk" by (simp add: chat_pk_def db'(2) merged_chat_def)
  ultimately show ?thesis by simp
qed

subsection \<open>Chat updates that keep the keys\<close>

definition keeps_keys :: "(chat \<Rightarrow> chat) \<Rightarrow> bool" where
  "keeps_keys f \<longleftrightarrow> (\<forall>c. ch_id (f c) = ch_id c \<and> ch_external_id (f c) = ch_external_id c)"

text \<open>Two states that differ in columns of the chats only, or in the contacts.\<close>

definition same_history :: "account_tables \<Rightarrow> account_tables \<Rightarrow> bool" where
  "same_history db db' \<longleftrightarrow> map (\<lambda>c. (ch_id c, ch_external_id c)) (at_chats db') = map (\<lambda>c. (ch_id c, ch_external_id c)) (at_chats db) \<and>
     at_messages db' = at_messages db \<and> at_states db' = at_states db \<and> at_next_chat db' = at_next_chat db"

lemma same_history_refl [simp]: "same_history db db"
  by (simp add: same_history_def)

lemma same_history_trans: "same_history a b \<Longrightarrow> same_history b c \<Longrightarrow> same_history a c"
  by (simp add: same_history_def)

lemma same_history_keys:
  assumes "same_history db db'"
  shows "map ch_id (at_chats db') = map ch_id (at_chats db)" "map ch_external_id (at_chats db') = map ch_external_id (at_chats db)"
proof -
  from assms have "map fst (map (\<lambda>c. (ch_id c, ch_external_id c)) (at_chats db')) = map fst (map (\<lambda>c. (ch_id c, ch_external_id c)) (at_chats db))"
    "map snd (map (\<lambda>c. (ch_id c, ch_external_id c)) (at_chats db')) = map snd (map (\<lambda>c. (ch_id c, ch_external_id c)) (at_chats db))"
    by (simp_all only: same_history_def)
  then show "map ch_id (at_chats db') = map ch_id (at_chats db)" "map ch_external_id (at_chats db') = map ch_external_id (at_chats db)"
    by (simp_all add: comp_def)
qed

lemma same_history_ok:
  assumes "same_history db db'" and "tables_ok db"
  shows "tables_ok db'"
proof -
  note keys = same_history_keys [OF assms(1)]
  have "ch_id ` set (at_chats db') = ch_id ` set (at_chats db)" using arg_cong [OF keys(1), of set] by simp
  moreover from this have "\<forall>c \<in> set (at_chats db'). ch_id c < at_next_chat db"
    using assms(2) unfolding tables_ok_def chats_ok_def by (metis (no_types, lifting) image_iff)
  ultimately show ?thesis using assms keys
    by (simp add: tables_ok_def chats_ok_def messages_ok_def states_ok_def same_history_def)
qed

lemma lookup_by_keys:
  "map (\<lambda>c. (ch_id c, ch_external_id c)) cs = map (\<lambda>c. (ch_id c, ch_external_id c)) ds \<Longrightarrow>
   map_option ch_id (one_or_none (is_chat ext) cs) = map_option ch_id (one_or_none (is_chat ext) ds)"
proof (induction cs arbitrary: ds)
  case (Cons c cs)
  then show ?case by (cases ds) (auto simp: one_or_none_def)
qed (simp add: one_or_none_def)

lemma same_history_pk: "same_history db db' \<Longrightarrow> chat_pk db' ext = chat_pk db ext"
  unfolding chat_pk_def get_chat_def same_history_def by (intro lookup_by_keys) simp

lemma same_history_state: "same_history db db' \<Longrightarrow> get_state db' pk = get_state db pk"
  by (simp add: same_history_def get_state_def)

lemma update_chats_history: "keeps_keys f \<Longrightarrow> same_history db (db\<lparr>at_chats := update_rows P f (at_chats db)\<rparr>)"
  by (simp add: same_history_def keeps_keys_def map_update_rows_keep)

lemma touch_history: "same_history db (touch_last_message db pk ext at)"
  unfolding touch_last_message_def by (rule update_chats_history) (simp add: keeps_keys_def)

lemma titles_history: "same_history db (snd (fill_dialog_titles saved db ids))"
  by (auto simp: fill_dialog_titles_def Let_def keeps_keys_def split: option.split intro: update_chats_history)

lemma status_history: "same_history db (set_status db ext st old store)"
  unfolding set_status_def by (rule update_chats_history) (simp add: keeps_keys_def Let_def split: option.split)

lemma people_history: "same_history db (db\<lparr>at_people := p\<rparr>)"
  by (simp add: same_history_def)

lemma media_history: "same_history db (upsert_media db m rows)"
  by (simp add: same_history_def upsert_media_def)

subsection \<open>Storing a message\<close>

definition ids_at :: "account_tables \<Rightarrow> int \<Rightarrow> int set" where
  "ids_at db pk = mg_external_id ` {m \<in> set (at_messages db). mg_chat_id m = pk}"

lemma same_history_ids: "same_history db db' \<Longrightarrow> ids_at db' pk = ids_at db pk"
  by (simp add: same_history_def ids_at_def)

lemma message_of_key [simp]: "mg_chat_id (message_of db i pk row) = pk" "mg_external_id (message_of db i pk row) = mr_external_id row"
  by (simp_all add: message_of_def)

lemma merged_message_key [simp]: "mg_chat_id (merged_message ex t) = mg_chat_id t" "mg_external_id (merged_message ex t) = mg_external_id t"
  by (simp_all add: merged_message_def)

lemma insert_message_facts:
  assumes ok: "tables_ok db" and pk: "pk \<in> ch_id ` set (at_chats db)" and i: "insert_message db pk row = (m, db')"
  shows "tables_ok db'" "at_chats db' = at_chats db" "at_states db' = at_states db"
    "ids_at db' p = ids_at db p \<union> (if p = pk then {mr_external_id row} else {})"
proof -
  let ?hit = "is_message pk (mr_external_id row)" and ?ex = "message_of db (at_next_message db) pk row"
  let ?key = "\<lambda>m. (mg_chat_id m, mg_external_id m)"
  show sel: "at_chats db' = at_chats db" "at_states db' = at_states db"
    using i by (auto simp: insert_message_def Let_def split: option.splits)
  have next': "at_next_chat db' = at_next_chat db"
    using i by (auto simp: insert_message_def Let_def split: option.splits)
  have "distinct (map ?key (at_messages db')) \<and> set (map ?key (at_messages db')) = insert (pk, mr_external_id row) (set (map ?key (at_messages db)))"
  proof (cases "one_or_none ?hit (at_messages db)")
    case None
    then have "(pk, mr_external_id row) \<notin> set (map ?key (at_messages db))" by (auto simp: one_or_none_None is_message_def)
    moreover have "at_messages db' = at_messages db @ [?ex]" using i None by (auto simp: insert_message_def Let_def)
    ultimately show ?thesis using ok by (simp add: tables_ok_def messages_ok_def)
  next
    case (Some t)
    then have "t \<in> set (at_messages db)" "?key t = (pk, mr_external_id row)" using one_or_none_Some [OF Some] by (simp_all add: is_message_def)
    then have "(pk, mr_external_id row) \<in> set (map ?key (at_messages db))"
      using imageI [of t "set (at_messages db)" ?key] by simp
    moreover have "at_messages db' = update_rows (\<lambda>m. ?hit m \<and> may_overwrite ?ex m) (merged_message ?ex) (at_messages db)"
      using i Some by (auto simp: insert_message_def Let_def)
    then have "map ?key (at_messages db') = map ?key (at_messages db)" by (simp add: map_update_rows_keep)
    ultimately show ?thesis using ok by (simp add: tables_ok_def messages_ok_def insert_absorb)
  qed
  then have d: "distinct (map ?key (at_messages db'))" and s: "?key ` set (at_messages db') = insert (pk, mr_external_id row) (?key ` set (at_messages db))"
    by simp_all
  have "fst ` ?key ` set (at_messages db') = insert pk (fst ` ?key ` set (at_messages db))" unfolding s by simp
  then have "mg_chat_id ` set (at_messages db') = insert pk (mg_chat_id ` set (at_messages db))" by (simp add: image_image)
  with d show "tables_ok db'" using ok pk sel next' by (simp add: tables_ok_def chats_ok_def messages_ok_def states_ok_def)
  have "ids_at x p = {e. (p, e) \<in> ?key ` set (at_messages x)}" for x by (force simp: ids_at_def)
  then show "ids_at db' p = ids_at db p \<union> (if p = pk then {mr_external_id row} else {})" using s by auto
qed

lemma upsert_message_facts:
  assumes ok: "tables_ok db" and pk: "pk \<in> ch_id ` set (at_chats db)" and db'_def: "db' = snd (upsert_message db pk row)"
  shows "tables_ok db'" "chat_pk db' ext = chat_pk db ext" "get_state db' p = get_state db p"
    "ids_at db' p = ids_at db p \<union> (if p = pk then {mr_external_id row} else {})"
proof -
  obtain m db1 where i: "insert_message db pk row = (m, db1)" by (rule prod.exhaust)
  note f = insert_message_facts [OF ok pk i]
  have h: "same_history db1 db'" using i
    by (auto simp: db'_def upsert_message_def intro: same_history_trans [OF media_history touch_history] touch_history)
  show "tables_ok db'" by (rule same_history_ok [OF h f(1)])
  show "chat_pk db' ext = chat_pk db ext" 
    using same_history_pk [OF h, of ext] chat_pk_def [of db1 ext] chat_pk_def [of db ext]
    by (simp add: get_chat_def f(2))
  show "get_state db' p = get_state db p" using same_history_state [OF h, of p] by (simp add: get_state_def f(3))
  show "ids_at db' p = ids_at db p \<union> (if p = pk then {mr_external_id row} else {})" by (simp add: same_history_ids [OF h] f(4))
qed

subsection \<open>Cursors\<close>

lemma upsert_state_facts:
  assumes ok: "tables_ok db" and pk: "pk \<in> ch_id ` set (at_chats db)" and f: "\<And>s. sy_chat_id (f s) = sy_chat_id s"
  shows "tables_ok (upsert_state db pk f)" "chat_pk (upsert_state db pk f) ext = chat_pk db ext"
    "ids_at (upsert_state db pk f) p = ids_at db p"
    "get_state (upsert_state db pk f) p =
       (if p = pk then Some (f (case get_state db pk of None \<Rightarrow> empty_state pk | Some s \<Rightarrow> s)) else get_state db p)"
proof -
  show "chat_pk (upsert_state db pk f) ext = chat_pk db ext" "ids_at (upsert_state db pk f) p = ids_at db p"
    by (simp_all add: upsert_state_def chat_pk_def get_chat_def ids_at_def split: option.split)
  have e: "sy_chat_id (empty_state pk) = pk" by (simp add: empty_state_def)
  show "tables_ok (upsert_state db pk f)"
  proof (cases "get_state db pk")
    case None
    then have "pk \<notin> sy_chat_id ` set (at_states db)" by (auto simp: get_state_def one_or_none_None)
    then show ?thesis using ok pk None f e
      by (auto simp: upsert_state_def tables_ok_def chats_ok_def messages_ok_def states_ok_def)
  next
    case (Some s)
    have m: "map sy_chat_id (update_rows (\<lambda>s. sy_chat_id s = pk) f (at_states db)) = map sy_chat_id (at_states db)"
      using f by (simp add: map_update_rows_keep)
    then have "sy_chat_id ` set (update_rows (\<lambda>s. sy_chat_id s = pk) f (at_states db)) = sy_chat_id ` set (at_states db)"
      by (metis image_set)
    with m show ?thesis using ok Some by (simp add: upsert_state_def tables_ok_def chats_ok_def messages_ok_def states_ok_def)
  qed
  show "get_state (upsert_state db pk f) p =
       (if p = pk then Some (f (case get_state db pk of None \<Rightarrow> empty_state pk | Some s \<Rightarrow> s)) else get_state db p)"
  proof (cases "get_state db pk")
    case None
    then show ?thesis using f e
      by (auto simp: upsert_state_def get_state_def one_or_none_append) (auto simp: one_or_none_def split: option.split)
  next
    case (Some s)
    have "sy_chat_id s = pk" using Some one_or_none_Some by (fastforce simp: get_state_def)
    then show ?thesis using Some f
      by (auto simp: upsert_state_def get_state_def one_or_none_update_rows map_option_case dest: one_or_none_Some split: option.splits)
  qed
qed

subsection \<open>Which copy of a message wins\<close>

text \<open>
  The content of a stored message comes from one of the copies seen: an edited one with the
  latest edit time, or the last copy as long as none is edited.
\<close>

definition content_from :: "message_row \<Rightarrow> message \<Rightarrow> bool" where
  "content_from r m \<longleftrightarrow> mg_text m = mr_text r \<and> mg_text_html m = mr_text_html r \<and>
     mg_message_type m = mr_message_type r \<and> mg_is_edited m = mr_is_edited r \<and>
     mg_edited_at m = mr_edited_at r \<and> mg_raw m = mr_raw r"

definition winning :: "message_row list \<Rightarrow> message_row \<Rightarrow> bool" where
  "winning rows r \<longleftrightarrow> r \<in> set rows \<and>
     (if list_ex mr_is_edited rows
      then mr_is_edited r \<and> (\<forall>q \<in> set rows. mr_is_edited q \<longrightarrow> the (mr_edited_at q) \<le> the (mr_edited_at r))
      else r = last rows)"

lemma winning_snoc:
  assumes w: "winning rows r" and from': "content_from r m" and ex: "content_from q ex"
    and known: "\<And>x. x \<in> set (rows @ [q]) \<Longrightarrow> mr_is_edited x \<Longrightarrow> mr_edited_at x \<noteq> None"
  shows "\<exists>r'. winning (rows @ [q]) r' \<and> content_from r' (if may_overwrite ex m then merged_message ex m else m)"
proof (cases "may_overwrite ex m")
  case True
  have "winning (rows @ [q]) q"
  proof (cases "mr_is_edited r")
    case r: True
    then have q: "mr_is_edited q" "the (mr_edited_at r) \<le> the (mr_edited_at q)"
      using True from' ex known [of r] known [of q] w
      by (auto simp: may_overwrite_def content_from_def winning_def)
    then show ?thesis using w r by (auto simp: winning_def list_ex_iff intro: order_trans split: if_splits)
  next
    case False
    then have "\<not> list_ex mr_is_edited rows" using w by (auto simp: winning_def)
    then show ?thesis by (auto simp: winning_def list_ex_iff)
  qed
  moreover have "content_from q (merged_message ex m)" using ex by (simp add: content_from_def merged_message_def)
  ultimately show ?thesis using True by auto
next
  case False
  then have r: "mr_is_edited r" and q: "mr_is_edited q \<Longrightarrow> the (mr_edited_at q) < the (mr_edited_at r)"
    using from' ex by (auto simp: may_overwrite_def content_from_def split: option.splits)
  then have "winning (rows @ [q]) r" using w by (auto simp: winning_def list_ex_iff split: if_splits)
  then show ?thesis using False from' by auto
qed

definition store_copies :: "int \<Rightarrow> message_row list \<Rightarrow> account_tables \<Rightarrow> account_tables" where
  "store_copies pk rows db = fold (\<lambda>r d. snd (upsert_message d pk r)) rows db"

lemma store_copies_snoc [simp]: "store_copies pk (rows @ [r]) db = snd (upsert_message (store_copies pk rows db) pk r)"
  by (simp add: store_copies_def)

lemma upsert_message_messages: "at_messages (snd (upsert_message db pk row)) = at_messages (snd (insert_message db pk row))"
  by (cases "insert_message db pk row") (simp add: upsert_message_def touch_last_message_def upsert_media_def)

lemma upsert_message_chats: "ch_id ` set (at_chats (snd (upsert_message db pk row))) = ch_id ` set (at_chats db)"
proof -
  obtain m db1 where i: "insert_message db pk row = (m, db1)" by (rule prod.exhaust)
  have "at_chats db1 = at_chats db" using i by (auto simp: insert_message_def Let_def split: option.splits)
  moreover have "same_history db1 (snd (upsert_message db pk row))" using i
    by (auto simp: upsert_message_def intro: same_history_trans [OF media_history touch_history] touch_history)
  ultimately show ?thesis using same_history_keys(1) by (metis image_set)
qed

lemma message_of_content: "content_from r (message_of db i pk r)"
  by (simp add: content_from_def message_of_def)

lemma insert_message_stored:
  assumes ok: "tables_ok db" and m: "m \<in> set (at_messages db)" "is_message pk (mr_external_id r) m"
  shows "(let ex = message_of db (at_next_message db) pk r in if may_overwrite ex m then merged_message ex m else m)
     \<in> set (at_messages (snd (insert_message db pk r)))"
proof -
  have "one_or_none (\<lambda>x. (mg_chat_id x, mg_external_id x) = (mg_chat_id m, mg_external_id m)) (at_messages db) = Some m"
    by (rule one_or_none_unique [OF _ m(1)]) (use ok in \<open>simp add: tables_ok_def messages_ok_def\<close>)
  then have "one_or_none (is_message pk (mr_external_id r)) (at_messages db) = Some m"
    using m(2) by (simp add: is_message_def [abs_def])
  then show ?thesis using m by (auto simp: insert_message_def Let_def set_update_rows)
qed

lemma copies_winner:
  assumes ok: "tables_ok db" and pk: "pk \<in> ch_id ` set (at_chats db)"
    and new: "\<forall>m \<in> set (at_messages db). \<not> is_message pk e m"
    and rows: "rows \<noteq> []" "\<And>r. r \<in> set rows \<Longrightarrow> mr_external_id r = e"
    and known: "\<And>r. r \<in> set rows \<Longrightarrow> mr_is_edited r \<Longrightarrow> mr_edited_at r \<noteq> None"
  shows "tables_ok (store_copies pk rows db) \<and> pk \<in> ch_id ` set (at_chats (store_copies pk rows db)) \<and>
    (\<exists>m \<in> set (at_messages (store_copies pk rows db)). is_message pk e m \<and> (\<exists>r. winning rows r \<and> content_from r m))"
  using rows known
proof (induction rows rule: rev_induct)
  case (snoc q rows)
  let ?db = "store_copies pk rows db"
  have e: "mr_external_id q = e" using snoc.prems(2) by simp
  show ?case
  proof (cases "rows = []")
    case True
    let ?ex = "message_of db (at_next_message db) pk q"
    have "one_or_none (is_message pk e) (at_messages db) = None" using new by (simp add: one_or_none_None)
    then have "?ex \<in> set (at_messages (snd (insert_message db pk q)))" using e by (simp add: insert_message_def Let_def)
    moreover have "winning [q] q" by (simp add: winning_def)
    moreover have "is_message pk e ?ex" using e by (simp add: is_message_def)
    ultimately have "\<exists>m \<in> set (at_messages (snd (upsert_message db pk q))). is_message pk e m \<and> (\<exists>r. winning [q] r \<and> content_from r m)"
      using message_of_content [of q db] unfolding upsert_message_messages by blast
    then show ?thesis using True upsert_message_facts(1) [OF ok pk refl] pk
      by (simp add: upsert_message_chats store_copies_def)
  next
    case False
    then obtain m r where ok': "tables_ok ?db" "pk \<in> ch_id ` set (at_chats ?db)"
      and m: "m \<in> set (at_messages ?db)" "is_message pk e m" "winning rows r" "content_from r m"
      using snoc by auto
    let ?ex = "message_of ?db (at_next_message ?db) pk q"
    let ?m = "if may_overwrite ?ex m then merged_message ?ex m else m"
    have "?m \<in> set (at_messages (snd (upsert_message ?db pk q)))"
      using insert_message_stored [OF ok'(1) m(1), of pk q] m(2) e by (simp add: upsert_message_messages Let_def)
    moreover have "is_message pk e ?m" using m(2) by (simp add: is_message_def)
    moreover have "\<exists>r'. winning (rows @ [q]) r' \<and> content_from r' ?m"
      using winning_snoc [OF m(3,4) message_of_content] snoc.prems(3) by blast
    ultimately show ?thesis using upsert_message_facts(1) [OF ok' refl] ok'(2)
      by (auto simp only: upsert_message_chats store_copies_snoc)
  qed
qed simp

end
