(* ===== verification/Max_Store_Facts.thy ===== *)
theory Max_Store_Facts
  imports Max_Store Chat_Facts
begin

text \<open>
  The abstract history of a chat, the ids of its stored messages and its cursor, and the proof
  that the operations on the tables refine operations on it, leaving other chats alone.
\<close>

subsection \<open>The abstract history\<close>

type_synonym history = "int set \<times> cursor option"

definition view :: "account_tables \<Rightarrow> int \<Rightarrow> history" where
  "view db ext = (case chat_pk db ext of
     None \<Rightarrow> ({}, None)
   | Some pk \<Rightarrow> (ids_at db pk, map_option cursor_of (get_state db pk)))"

definition newer_than :: "int \<Rightarrow> int option \<Rightarrow> bool" where
  "newer_than t x = (case x of None \<Rightarrow> True | Some n \<Rightarrow> n < t)"

definition older_than :: "int \<Rightarrow> int option \<Rightarrow> bool" where
  "older_than t x = (case x of None \<Rightarrow> True | Some n \<Rightarrow> t < n)"

definition cursor_at :: "int \<Rightarrow> int \<Rightarrow> cursor" where
  "cursor_at i t = \<lparr>cu_newest_time_ms = Some t, cu_newest_message_id = Some i,
     cu_oldest_time_ms = Some t, cu_oldest_message_id = Some i\<rparr>"

definition no_cursor :: cursor where
  "no_cursor = \<lparr>cu_newest_time_ms = None, cu_newest_message_id = None, cu_oldest_time_ms = None, cu_oldest_message_id = None\<rparr>"

definition advanced :: "int \<Rightarrow> int \<Rightarrow> cursor option \<Rightarrow> cursor option" where
  "advanced i t c = Some (case c of
     None \<Rightarrow> cursor_at i t
   | Some c \<Rightarrow> if newer_than t (cu_newest_time_ms c) then c\<lparr>cu_newest_time_ms := Some t, cu_newest_message_id := Some i\<rparr> else c)"

definition extended_back :: "int \<Rightarrow> int \<Rightarrow> cursor option \<Rightarrow> cursor option" where
  "extended_back i t c = (let c = (case c of None \<Rightarrow> no_cursor | Some c \<Rightarrow> c) in
     Some (if older_than t (cu_oldest_time_ms c) then c\<lparr>cu_oldest_time_ms := Some t, cu_oldest_message_id := Some i\<rparr> else c))"

definition add_message :: "int \<Rightarrow> int \<Rightarrow> bool \<Rightarrow> history \<Rightarrow> history" where
  "add_message i t adv h = (insert i (fst h), if adv then advanced i t (snd h) else snd h)"

lemma load_cursor_view: "load_cursor db ext = snd (view db ext)"
  by (simp add: load_cursor_def view_def split: option.split)

subsection \<open>Views of unchanged histories\<close>

lemma view_cong:
  assumes "chat_pk db' ext = chat_pk db ext" and "\<And>p. ids_at db' p = ids_at db p" and "\<And>p. get_state db' p = get_state db p"
  shows "view db' ext = view db ext"
  using assms by (cases "chat_pk db ext") (simp_all add: view_def)

lemma same_history_view: "same_history db db' \<Longrightarrow> view db' ext = view db ext"
  by (cases "chat_pk db ext") (simp_all add: view_def same_history_pk same_history_ids same_history_state)

lemma chat_pk_inj:
  assumes ok: "tables_ok db" and x: "chat_pk db x = Some p" and y: "chat_pk db y = Some p"
  shows "x = y"
proof -
  obtain c d where c: "get_chat db x = Some c" "ch_id c = p" and d: "get_chat db y = Some d" "ch_id d = p"
    using x y by (auto simp: chat_pk_def)
  note c' = get_chat_Some [OF c(1)] and d' = get_chat_Some [OF d(1)]
  have "inj_on ch_id (set (at_chats db))" using ok by (simp add: tables_ok_def chats_ok_def distinct_map)
  then have "c = d" using c(2) d(2) c' d' by (auto dest: inj_onD)
  then show ?thesis using c' d' by simp
qed

lemma ids_at_fresh: "tables_ok db \<Longrightarrow> ids_at db (at_next_chat db) = {}"
  by (force simp: tables_ok_def chats_ok_def messages_ok_def ids_at_def)

lemma get_state_fresh: "tables_ok db \<Longrightarrow> get_state db (at_next_chat db) = None"
  by (force simp: tables_ok_def chats_ok_def states_ok_def get_state_def one_or_none_None)

lemma upsert_chat_view:
  assumes ok: "tables_ok db" and u: "upsert_chat db row = (pk, db')"
  shows "view db' ext = view db ext"
proof (cases "get_chat db (cr_external_id row)")
  case None
  have db': "db' = db\<lparr>at_chats := at_chats db @ [new_chat (at_next_chat db) row], at_next_chat := at_next_chat db + 1\<rparr>"
    using u None by (auto simp: upsert_chat_def)
  have same: "ids_at db' p = ids_at db p" "get_state db' p = get_state db p" for p
    by (simp_all add: db' ids_at_def get_state_def)
  show ?thesis
  proof (cases "ext = cr_external_id row")
    case True
    then have "chat_pk db ext = None" "chat_pk db' ext = Some (at_next_chat db)"
      using None upsert_chat_ok [OF ok u] u by (auto simp: chat_pk_def upsert_chat_def)
    then show ?thesis using ids_at_fresh [OF ok] get_state_fresh [OF ok] by (simp add: view_def same)
  next
    case False
    then have "chat_pk db' ext = chat_pk db ext"
      by (simp add: db' chat_pk_def get_chat_def one_or_none_append) (simp add: one_or_none_def new_chat_def split: option.split)
    then show ?thesis by (simp add: view_def same split: option.split)
  qed
next
  case (Some c)
  then have "db' = db\<lparr>at_chats := update_rows (is_chat (cr_external_id row)) (merged_chat row) (at_chats db),
     at_next_chat := at_next_chat db + 1\<rparr>" using u by (auto simp: upsert_chat_def)
  then have "map (\<lambda>c. (ch_id c, ch_external_id c)) (at_chats db') = map (\<lambda>c. (ch_id c, ch_external_id c)) (at_chats db)"
    "ids_at db' p = ids_at db p" "get_state db' p = get_state db p" for p
    by (simp_all add: map_update_rows_keep merged_chat_def ids_at_def get_state_def)
  note eq = this
  have "chat_pk db' ext = chat_pk db ext"
    unfolding chat_pk_def get_chat_def by (rule lookup_by_keys) (rule eq(1))
  then show ?thesis using eq(2,3) by (rule view_cong)
qed

lemma store_user_history: "store_user e row via db = Inr db' \<Longrightarrow> same_history db db'"
  by (auto simp: store_user_def people_history split: sum.splits)

lemma store_sender_history: "store_sender e sender db = Inr (miss, db') \<Longrightarrow> same_history db db'"
  by (auto simp: store_sender_def store_user_history split: option.splits sum.splits)

subsection \<open>Cursor steps\<close>

lemma upsert_state_view:
  assumes ok: "tables_ok db" and pk: "chat_pk db ext = Some pk" and f: "\<And>s. sy_chat_id (f s) = sy_chat_id s"
  shows "view (upsert_state db pk f) x = (if x = ext
    then (fst (view db ext), Some (cursor_of (f (case get_state db pk of None \<Rightarrow> empty_state pk | Some s \<Rightarrow> s)))) else view db x)"
proof -
  note u = upsert_state_facts [OF ok chat_pk_Some [OF pk] f]
  show ?thesis
  proof (cases "x = ext")
    case True
    then show ?thesis using u(2) [of ext] u(3,4) [of pk] pk by (simp add: view_def)
  next
    case False
    then have "chat_pk db x \<noteq> Some pk" using chat_pk_inj [OF ok _ pk] by blast
    then show ?thesis using u(2) [of x] u(3,4) False by (cases "chat_pk db x") (auto simp: view_def)
  qed
qed

lemma ms_of_ts: "0 < t \<Longrightarrow> ms_of (ts_of t) = Some t"
  by (simp add: ms_of_def ts_of_def)

lemma ms_of_None [simp]: "ms_of None = None"
  by (simp add: ms_of_def)

lemma advance_refines:
  assumes ok: "tables_ok db" and pk: "chat_pk db ext = Some pk" and t: "0 < t"
  shows "tables_ok (advance db pk i t) \<and>
    view (advance db pk i t) x = (if x = ext then (fst (view db ext), advanced i t (snd (view db ext))) else view db x)"
proof (cases "get_state db pk")
  case None
  note u = upsert_state_view [OF ok pk, where f = "\<lambda>s. s\<lparr>sy_newest_ts := ts_of t, sy_newest_external_id := Some i,
      sy_oldest_ts := ts_of t, sy_oldest_external_id := Some i, sy_total_synced := 0\<rparr>"]
  show ?thesis using u [of x] upsert_state_facts(1) [OF ok chat_pk_Some [OF pk]] None pk t
    by (simp add: advance_def cursor_of_def empty_state_def ms_of_ts cursor_at_def advanced_def view_def)
next
  case (Some st)
  note u = upsert_state_view [OF ok pk, where f = "\<lambda>s. s\<lparr>sy_newest_ts := ts_of t, sy_newest_external_id := Some i\<rparr>"]
  show ?thesis using u [of x] upsert_state_facts(1) [OF ok chat_pk_Some [OF pk]] Some pk t ok
    by (auto simp: advance_def cursor_of_def ms_of_ts advanced_def view_def newer_than_def split: option.splits)
qed

lemma move_oldest_refines:
  assumes ok: "tables_ok db" and pk: "chat_pk db ext = Some pk" and t: "0 < t"
  shows "tables_ok (move_oldest db ext i t d) \<and>
    view (move_oldest db ext i t d) x = (if x = ext then (fst (view db ext), extended_back i t (snd (view db ext))) else view db x)"
proof -
  let ?older = "older_than t (case get_state db pk of None \<Rightarrow> None | Some s \<Rightarrow> ms_of (sy_oldest_ts s))"
  let ?total = "(case get_state db pk of None \<Rightarrow> 0 | Some s \<Rightarrow> sy_total_synced s) + d"
  let ?f = "\<lambda>s. (if ?older then s\<lparr>sy_oldest_ts := ts_of t, sy_oldest_external_id := Some i\<rparr> else s)\<lparr>sy_total_synced := ?total\<rparr>"
  have m: "move_oldest db ext i t d = upsert_state db pk ?f"
    by (cases "get_state db pk") (simp_all add: move_oldest_def pk Let_def older_than_def)
  have f: "sy_chat_id (?f s) = sy_chat_id s" for s by simp
  let ?s = "case get_state db pk of None \<Rightarrow> empty_state pk | Some s \<Rightarrow> s"
  have "Some (cursor_of (?f ?s)) = extended_back i t (snd (view db ext))"
    using pk t by (cases "get_state db pk")
      (simp_all add: cursor_of_def empty_state_def ms_of_ts extended_back_def no_cursor_def older_than_def view_def Let_def)
  then show ?thesis unfolding m
    using upsert_state_view [OF ok pk f, of x] upsert_state_facts(1) [OF ok chat_pk_Some [OF pk] f] by simp
qed

lemma keep_cursor_refines:
  assumes ok: "tables_ok db" and f: "\<And>s. sy_chat_id (f s) = sy_chat_id s" "\<And>s. cursor_of (f s) = cursor_of s"
    and st: "chat_pk db ext = Some pk" "get_state db pk \<noteq> None"
  shows "tables_ok (upsert_state db pk f) \<and> view (upsert_state db pk f) x = view db x"
  using upsert_state_view [OF ok st(1) f(1), of x] upsert_state_facts(1) [OF ok chat_pk_Some [OF st(1)] f(1)] f(2) st
  by (auto simp: view_def split: option.splits)

lemma finish_backfill_refines: "tables_ok db \<Longrightarrow> tables_ok (finish_backfill db ext b now) \<and> view (finish_backfill db ext b now) x = view db x"
  by (auto simp: finish_backfill_def cursor_of_def split: option.split
      intro!: keep_cursor_refines [THEN conjunct1] keep_cursor_refines [THEN conjunct2])

lemma mark_catchup_refines: "tables_ok db \<Longrightarrow> tables_ok (mark_catchup db ext now) \<and> view (mark_catchup db ext now) x = view db x"
  by (auto simp: mark_catchup_def cursor_of_def split: option.split
      intro!: keep_cursor_refines [THEN conjunct1] keep_cursor_refines [THEN conjunct2])

lemma set_chat_status_history: "same_history db (set_chat_status db ext st)"
  by (auto simp: set_chat_status_def status_history split: option.split)

subsection \<open>Storing a message refines adding it\<close>

lemma store_message_refines:
  assumes ok: "tables_ok db" and t: "0 < t" and s: "store_message e db ext row ct adv (Some t) = Inr (miss, db')"
  shows "tables_ok db' \<and> view db' x = (if x = ext then add_message (mr_external_id row) t adv (view db ext) else view db x)"
proof -
  obtain pk db1 where p: "(case chat_pk db ext of Some pk \<Rightarrow> (pk, db) | None \<Rightarrow> upsert_chat db (stub_chat ext ct)) = (pk, db1)"
    by (rule prod.exhaust)
  have "tables_ok db1 \<and> chat_pk db1 ext = Some pk \<and> (\<forall>y. view db1 y = view db y)"
  proof (cases "chat_pk db ext")
    case None
    then have u: "upsert_chat db (stub_chat ext ct) = (pk, db1)" using p by simp
    have "cr_external_id (stub_chat ext ct) = ext" by (simp add: stub_chat_def)
    then show ?thesis using upsert_chat_ok [OF ok u] upsert_chat_view [OF ok u] by simp
  next
    case (Some q)
    then have "q = pk" "db1 = db" using p by simp_all
    then show ?thesis using Some ok by simp
  qed
  then have 1: "tables_ok db1" "chat_pk db1 ext = Some pk" "\<And>y. view db1 y = view db y" by blast+
  obtain db2 where d2: "store_sender e (mr_sender_external_id row) db1 = Inr (miss, db2)"
    using s p by (cases "store_sender e (mr_sender_external_id row) db1") (auto simp: store_message_def Let_def)
  have 2: "tables_ok db2" "chat_pk db2 ext = Some pk" "\<And>y. view db2 y = view db y"
    using same_history_ok [OF store_sender_history [OF d2]] same_history_pk [OF store_sender_history [OF d2]]
      same_history_view [OF store_sender_history [OF d2]] 1 by simp_all
  let ?db3 = "snd (upsert_message db2 pk row)"
  note f = upsert_message_facts [OF 2(1) chat_pk_Some [OF 2(2)] refl, of row]
  have 3: "tables_ok ?db3" "chat_pk ?db3 ext = Some pk"
    "\<And>y. view ?db3 y = (if y = ext then (insert (mr_external_id row) (fst (view db ext)), snd (view db ext)) else view db y)"
  proof -
    show "tables_ok ?db3" "chat_pk ?db3 ext = Some pk" using f(1,2) 2(2) by simp_all
    fix y
    have "view ?db3 y = (if y = ext then (insert (mr_external_id row) (fst (view db2 ext)), snd (view db2 ext)) else view db2 y)"
    proof (cases "y = ext")
      case True
      then show ?thesis using f(2) [of ext] f(3,4) [of pk] 2(2) by (simp add: view_def)
    next
      case False
      then have "chat_pk db2 y \<noteq> Some pk" using chat_pk_inj [OF 2(1) _ 2(2)] by blast
      then show ?thesis using f(2) [of y] f(3,4) False by (cases "chat_pk db2 y") (auto simp: view_def)
    qed
    then show "view ?db3 y = (if y = ext then (insert (mr_external_id row) (fst (view db ext)), snd (view db ext)) else view db y)"
      by (simp add: 2(3))
  qed
  let ?db4 = "if chat_pk db ext = None \<and> ct = ''private'' then snd (fill_dialog_titles (se_saved e) ?db3 (Some [ext])) else ?db3"
  have h: "same_history ?db3 ?db4" by (simp add: titles_history)
  have 4: "tables_ok ?db4" "chat_pk ?db4 ext = Some pk" "\<And>y. view ?db4 y = view ?db3 y"
    using same_history_ok [OF h 3(1)] same_history_pk [OF h] same_history_view [OF h] 3(2) by simp_all
  have db': "db' = (if adv then advance ?db4 pk (mr_external_id row) t else ?db4)"
    using s p d2 by (simp add: store_message_def Let_def)
  show ?thesis
  proof (cases adv)
    case True
    then show ?thesis using advance_refines [OF 4(1,2) t, of "mr_external_id row" x]
      unfolding db' 4(3) 3(3) by (simp add: add_message_def)
  next
    case False
    then show ?thesis using 4(1) unfolding db' by (simp add: 4(3) 3(3) add_message_def)
  qed
qed

subsection \<open>Chats stay\<close>

definition chat_names :: "account_tables \<Rightarrow> int set" where
  "chat_names db = ch_external_id ` set (at_chats db)"

lemma chat_names_pk: "ext \<in> chat_names db \<longleftrightarrow> chat_pk db ext \<noteq> None"
  by (auto simp: chat_names_def chat_pk_def get_chat_None)

lemma same_history_names: "same_history db db' \<Longrightarrow> chat_names db' = chat_names db"
  using arg_cong [OF same_history_keys(2), of db db' set] by (simp add: chat_names_def)

lemma upsert_state_names [simp]: "chat_names (upsert_state db pk f) = chat_names db"
  by (simp add: chat_names_def upsert_state_def split: option.split)

lemma cursor_names [simp]:
  "chat_names (finish_backfill db ext b now) = chat_names db" "chat_names (mark_catchup db ext now) = chat_names db"
  "chat_names (move_oldest db ext i t d) = chat_names db"
  by (simp_all add: finish_backfill_def mark_catchup_def move_oldest_def Let_def split: option.split)

lemma store_message_names:
  assumes ok: "tables_ok db" and s: "store_message e db ext row ct adv t = Inr (miss, db')"
  shows "chat_names db \<subseteq> chat_names db'"
proof -
  obtain pk db1 where p: "(case chat_pk db ext of Some pk \<Rightarrow> (pk, db) | None \<Rightarrow> upsert_chat db (stub_chat ext ct)) = (pk, db1)"
    by (rule prod.exhaust)
  have 1: "tables_ok db1 \<and> chat_pk db1 ext = Some pk \<and> chat_names db \<subseteq> chat_names db1"
  proof (cases "chat_pk db ext")
    case None
    then have u: "upsert_chat db (stub_chat ext ct) = (pk, db1)" using p by simp
    have c: "cr_external_id (stub_chat ext ct) = ext" by (simp add: stub_chat_def)
    have "at_chats db1 = at_chats db @ [new_chat (at_next_chat db) (stub_chat ext ct)]"
      using u None c by (auto simp: upsert_chat_def chat_pk_def)
    then show ?thesis using upsert_chat_ok [OF ok u] c by (auto simp: chat_names_def)
  qed (use p ok in simp)
  obtain db2 where d2: "store_sender e (mr_sender_external_id row) db1 = Inr (miss, db2)"
    using s p by (cases "store_sender e (mr_sender_external_id row) db1") (auto simp: store_message_def Let_def)
  note h2 = store_sender_history [OF d2]
  let ?db3 = "snd (upsert_message db2 pk row)"
  let ?db4 = "if chat_pk db ext = None \<and> ct = ''private'' then snd (fill_dialog_titles (se_saved e) ?db3 (Some [ext])) else ?db3"
  have pk: "pk \<in> ch_id ` set (at_chats db2)" using 1 same_history_pk [OF h2, of ext] by (auto intro: chat_pk_Some)
  have "chat_names ?db3 = chat_names db2"
    using upsert_message_facts(2) [OF same_history_ok [OF h2] pk refl, of row] 1 by (auto simp: chat_names_pk set_eq_iff)
  moreover have "chat_names ?db4 = chat_names ?db3" by (rule same_history_names) (simp add: titles_history)
  moreover have "chat_names db2 = chat_names db1" by (rule same_history_names [OF h2])
  moreover have "chat_names db' = chat_names ?db4"
    using s p d2 by (auto simp: store_message_def Let_def advance_def split: option.splits if_splits)
  ultimately show ?thesis using 1 by simp
qed

end
