(* ===== verification/Max_Sync_Facts.thy ===== *)
theory Max_Sync_Facts
  imports Max_Sync Max_Store_Facts
begin

text \<open>
  The contract between the history loops and the tables as a locale, the lemmas on the loops
  proved from it, and its interpretation on the tables of an account.
\<close>

subsection \<open>What MAX answers\<close>

text \<open>
  The history of a chat at the time of request \<open>k\<close> is \<open>H k\<close>: in time order with no two
  messages in one millisecond, and it only grows. A page forward from \<open>c\<close> holds the first
  messages not before \<open>c\<close>.
\<close>

definition ordered :: "hmsg list \<Rightarrow> bool" where
  "ordered ms \<longleftrightarrow> sorted_wrt (\<lambda>a b. hm_time a < hm_time b) ms"

definition growing :: "(nat \<Rightarrow> hmsg list) \<Rightarrow> bool" where
  "growing H \<longleftrightarrow> (\<forall>k. ordered (H k)) \<and> (\<forall>j k. j \<le> k \<longrightarrow> (\<exists>r. H k = H j @ r))"

definition pages_forward :: "('s, 'z) sync_env_scheme \<Rightarrow> int \<Rightarrow> (nat \<Rightarrow> hmsg list) \<Rightarrow> bool" where
  "pages_forward v chat H \<longleftrightarrow> (\<forall>k c n. sv_history v k chat (Some c) n 0 =
     Inr (take n (filter (\<lambda>m. c \<le> hm_time m) (H k))))"

lemma ordered_filter: "ordered ms \<Longrightarrow> ordered (filter P ms)"
  by (simp add: ordered_def sorted_wrt_filter)

lemma page_prefix:
  assumes "ordered ms" and "p \<in> set (take n ms)" and "m \<in> set ms" and "hm_time m \<le> hm_time p"
  shows "m \<in> set (take n ms)"
proof -
  obtain i where i: "i < length ms" "m = ms ! i" using assms(3) by (metis in_set_conv_nth)
  obtain j where j: "j < length ms" "j < n" "p = ms ! j" using assms(2) by (auto simp: in_set_conv_nth)
  have "\<not> j < i"
  proof
    assume "j < i"
    then have "hm_time (ms ! j) < hm_time (ms ! i)"
      using assms(1) i(1) sorted_wrt_nth_less [of "\<lambda>a b. hm_time a < hm_time b" ms j i] \<open>j < i\<close>
      by (simp add: ordered_def)
    then show False using assms(4) i(2) j(3) by simp
  qed
  then have "i < n" using j(2) by simp
  then show ?thesis using i by (auto simp: in_set_conv_nth)
qed

lemma growing_old:
  assumes "growing H" and "j \<le> k" and "m \<in> set (H k)" and "p \<in> set (H j)" and "hm_time m \<le> hm_time p"
  shows "m \<in> set (H j)"
proof (rule ccontr)
  assume no: "m \<notin> set (H j)"
  obtain r where r: "H k = H j @ r" using assms(1,2) unfolding growing_def by blast
  then have "m \<in> set r" using assms(3) no by simp
  moreover have "ordered (H j @ r)" using assms(1) unfolding growing_def r [symmetric] by blast
  ultimately have "hm_time p < hm_time m" using assms(4) by (auto simp: ordered_def sorted_wrt_append)
  then show False using assms(5) by simp
qed

lemma foldl_max: "foldl max a xs = Max (insert a (set xs))" for a :: int
proof (induction xs arbitrary: a)
  case (Cons x xs)
  then show ?case by (cases "xs = []") (simp_all add: max.assoc)
qed simp

lemma newest_time_Max: "ms \<noteq> [] \<Longrightarrow> newest_time ms = Max (hm_time ` set ms)"
  by (cases ms) (simp_all add: newest_time_def foldl_max)

lemma newest_time_facts:
  assumes "ms \<noteq> []"
  shows "\<exists>m \<in> set ms. hm_time m = newest_time ms" "\<And>m. m \<in> set ms \<Longrightarrow> hm_time m \<le> newest_time ms"
proof -
  have "newest_time ms \<in> hm_time ` set ms" unfolding newest_time_Max [OF assms] using assms by (intro Max_in) auto
  then show "\<exists>m \<in> set ms. hm_time m = newest_time ms" by auto
  show "hm_time m \<le> newest_time ms" if "m \<in> set ms" for m
    unfolding newest_time_Max [OF assms] using that by simp
qed

subsection \<open>The contract\<close>

locale message_store =
  fixes v :: "'s sync_env" and inv :: "'s \<Rightarrow> bool" and hist :: "'s \<Rightarrow> int \<Rightarrow> history" and good :: "int \<Rightarrow> hmsg \<Rightarrow> bool"
  assumes stored: "\<lbrakk>inv s; good chat m; sv_store v k chat m s = (True, s')\<rbrakk> \<Longrightarrow>
      inv s' \<and> hist s' x = (if x = chat then add_message (hm_id m) (hm_time m) True (hist s chat) else hist s x)"
    and not_stored: "sv_store v k chat m s = (False, s') \<Longrightarrow> s' = s"
    and cursor: "sv_cursor v s chat = snd (hist s chat)"
    and finished: "inv s \<Longrightarrow> inv (sv_finish v s chat b) \<and> hist (sv_finish v s chat b) x = hist s x"
    and marked: "inv s \<Longrightarrow> inv (sv_mark_catchup v s chat) \<and> hist (sv_mark_catchup v s chat) x = hist s x"
begin

text \<open>What other tasks may do: they keep the invariant and every stored message.\<close>

definition keep :: bool where
  "keep \<longleftrightarrow> (\<forall>k s x. inv s \<longrightarrow> inv (sv_others v k s) \<and> fst (hist s x) \<subseteq> fst (hist (sv_others v k s) x))"

lemma others: "keep \<Longrightarrow> inv s \<Longrightarrow> inv (sv_others v k s) \<and> fst (hist s x) \<subseteq> fst (hist (sv_others v k s) x)"
  by (simp add: keep_def)

lemma store_keeps:
  assumes "inv s" and "good chat m" and "sv_store v k chat m s = (ok, s')"
  shows "inv s' \<and> fst (hist s x) \<subseteq> fst (hist s' x)"
proof (cases ok)
  case True
  then show ?thesis using stored [OF assms(1,2)] assms(3) by (auto simp: add_message_def)
next
  case False
  then have "s' = s" using not_stored [of k chat m s s'] assms(3) by simp
  then show ?thesis using assms(1) by simp
qed

lemma store_all_facts:
  assumes "keep" and "inv s" and "\<forall>m \<in> set ms. good chat m" and "store_all v chat k ms s = (n, k', s')"
  shows "inv s' \<and> (\<forall>x. fst (hist s x) \<subseteq> fst (hist s' x)) \<and> n \<le> length ms \<and> k \<le> k' \<and>
    ((\<forall>k m s. fst (sv_store v k chat m s)) \<longrightarrow> n = length ms \<and> hm_id ` set ms \<subseteq> fst (hist s' chat))"
  using assms(2-)
proof (induction ms arbitrary: k s n)
  case (Cons m ms)
  obtain ok s1 where 1: "sv_store v k chat m (sv_others v k s) = (ok, s1)" by (rule prod.exhaust)
  obtain l k1 s2 where 2: "store_all v chat (Suc k) ms s1 = (l, k1, s2)" by (metis prod.exhaust)
  have e: "n = (if ok then 1 else 0) + l" "k' = k1" "s' = s2" using Cons.prems(3) 1 2 by auto
  have o': "inv (sv_others v k s)" "\<forall>x. fst (hist s x) \<subseteq> fst (hist (sv_others v k s) x)"
    using others [OF assms(1) Cons.prems(1)] by blast+
  have good: "good chat m" "\<forall>m \<in> set ms. good chat m" using Cons.prems(2) by simp_all
  have s1: "inv s1" "\<forall>x. fst (hist s x) \<subseteq> fst (hist s1 x)"
    using store_keeps [OF o'(1) good(1) 1] o'(2) by blast+
  note IH = Cons.IH [OF s1(1) good(2) 2 [folded e(2,3)]]
  have "ok \<and> hm_id m \<in> fst (hist s1 chat)" if "\<forall>k m s. fst (sv_store v k chat m s)"
  proof -
    have ok using that 1 by (metis fst_conv)
    then show ?thesis using stored [OF o'(1) good(1), of k s1 chat] 1 by (simp add: add_message_def)
  qed
  then show ?case using IH s1(2) e(1) by auto
qed auto

subsection \<open>Termination\<close>

lemma store_all_all: "\<forall>k m s. fst (sv_store v k chat m s) \<Longrightarrow> fst (store_all v chat k ms s) = length ms"
proof (induction ms arbitrary: k s)
  case (Cons m ms)
  then show ?case by (auto split: prod.splits) (metis fst_conv)+
qed simp

text \<open>When every store succeeds each page brings the loop nearer to the limit.\<close>

lemma forward_loop_returns:
  assumes "\<forall>k m s. fst (sv_store v k chat m s)" and "limit \<le> stored + fuel"
  shows "forward_loop fuel v chat limit k c seen stored s \<noteq> None"
  using assms(2)
proof (induction fuel arbitrary: k c seen stored s)
  case (Suc n)
  show ?case
  proof (cases "\<exists>page. stored < limit \<and> sv_history v k chat (Some c) (page_size (limit - stored) True) 0 = Inr page \<and> newer_of c seen page \<noteq> []")
    case True
    then obtain page where p: "stored < limit" "sv_history v k chat (Some c) (page_size (limit - stored) True) 0 = Inr page"
      "newer_of c seen page \<noteq> []" by blast
    let ?ms = "take (limit - stored) (sort_key hm_time (newer_of c seen page))"
    obtain got k' s' where g: "store_all v chat (Suc k) ?ms s = (got, k', s')" by (metis prod.exhaust)
    have "got = length ?ms" using store_all_all [OF assms(1), of "Suc k" ?ms s] g by simp
    then have "0 < got" using p(1,3) by (simp add: length_greater_0_conv [symmetric] del: length_greater_0_conv)
    then have "limit \<le> (stored + got) + n" using Suc.prems by simp
    then show ?thesis using Suc.IH [of "stored + got"] p g by (simp add: Let_def)
  next
    case False
    then show ?thesis by (auto simp: Let_def split: sum.splits)
  qed
qed simp

subsection \<open>Completeness of the forward loop\<close>

text \<open>A loop that ends before its limit has stored every newer message of the last request.\<close>

lemma forward_loop_complete:
  assumes keep and ok: "\<forall>k m s. fst (sv_store v k chat m s)"
    and H: "growing H" "pages_forward v chat H" and good: "\<forall>k. \<forall>m \<in> set (H k). good chat m"
  shows "\<lbrakk>forward_loop fuel v chat limit k c seen stored s = Some (Inr n, k', s'); inv s; n < limit\<rbrakk> \<Longrightarrow>
    inv s' \<and> (\<forall>x. fst (hist s x) \<subseteq> fst (hist s' x)) \<and> k < k' \<and>
    (\<forall>m \<in> set (H (k' - 1)). c < hm_time m \<longrightarrow> hm_id m \<in> fst (hist s' chat))"
proof (induction fuel arbitrary: k c seen stored s)
  case 0
  then show ?case by (auto split: if_splits)
next
  case (Suc fuel)
  let ?page = "take (page_size (limit - stored) True) (filter (\<lambda>m. c \<le> hm_time m) (H k))"
  have ask: "sv_history v k chat (Some c) (page_size (limit - stored) True) 0 = Inr ?page"
    using H(2) by (simp add: pages_forward_def)
  have lt: "stored < limit" using Suc.prems(1,3) by (auto split: if_splits)
  have page: "m \<in> set ?page" if "p \<in> set ?page" "m \<in> set (H k)" "c \<le> hm_time m" "hm_time m \<le> hm_time p" for m p
    by (rule page_prefix [OF ordered_filter that(1) _ that(4)]) (use H(1) that(2,3) in \<open>auto simp: growing_def\<close>)
  let ?newer = "newer_of c seen ?page"
  show ?case
  proof (cases "?newer = []")
    case True
    then have e: "n = stored" "k' = Suc k" "s' = s" using Suc.prems(1) ask lt by (simp_all add: Let_def)
    have "\<not> c < hm_time m" if m: "m \<in> set (H k)" for m
    proof
      assume c: "c < hm_time m"
      let ?ys = "filter (\<lambda>m. c \<le> hm_time m) (H k)"
      have only: "hm_time p = c" if "p \<in> set ?page" for p
        using True that set_take_subset [of _ ?ys] by (fastforce simp: newer_of_def filter_empty_conv)
      have "m \<in> set ?ys" using m c by simp
      moreover have "m \<notin> set ?page" using only [of m] c by auto
      moreover have two: "2 \<le> page_size (limit - stored) True" using lt by (simp add: page_size_def PAGE_SIZE_def)
      ultimately have "2 \<le> length ?page" by (cases "length ?ys \<le> page_size (limit - stored) True") auto
      moreover have "ordered ?page" using H(1) ordered_filter by (simp add: growing_def ordered_def sorted_wrt_take)
      ultimately have lt: "hm_time (?page ! 0) < hm_time (?page ! 1)"
        using sorted_wrt_nth_less [of "\<lambda>a b. hm_time a < hm_time b" ?page 0 1] by (simp add: ordered_def)
      have p0: "?page ! 0 \<in> set ?page" by (rule nth_mem) (use \<open>2 \<le> length ?page\<close> in linarith)
      have p1: "?page ! 1 \<in> set ?page" by (rule nth_mem) (use \<open>2 \<le> length ?page\<close> in linarith)
      from lt only [OF p0] only [OF p1] show False by linarith
    qed
    then show ?thesis using e Suc.prems(2) by simp
  next
    case False
    let ?ms = "take (limit - stored) (sort_key hm_time ?newer)" and ?t = "newest_time ?newer"
    obtain got k1 s1 where g: "store_all v chat (Suc k) ?ms s = (got, k1, s1)" by (metis prod.exhaust)
    let ?rest = "forward_loop fuel v chat limit k1 ?t (map hm_id (filter (\<lambda>m. hm_time m = ?t) ?newer)) (stored + got) s1"
    have rest: "?rest = Some (Inr n, k', s')" using Suc.prems(1) ask lt False g by (simp add: Let_def)
    have sub: "set ?newer \<subseteq> set (H k)" by (auto simp: newer_of_def dest: in_set_takeD)
    have gm: "\<forall>m \<in> set ?ms. good chat m" using sub good by (auto dest!: in_set_takeD)
    note st = store_all_facts [OF \<open>keep\<close> Suc.prems(2) gm g]
    have got: "got = length ?ms" "hm_id ` set ?ms \<subseteq> fst (hist s1 chat)" using st ok by blast+
    have "stored + got < limit"
    proof (rule ccontr)
      assume "\<not> stored + got < limit"
      then have "n = stored + got" using rest by (cases fuel) auto
      then show False using Suc.prems(3) \<open>\<not> stored + got < limit\<close> by simp
    qed
    then have all: "set ?ms = set ?newer" using got(1) by simp
    note IH = Suc.IH [OF rest _ Suc.prems(3)]
    have IH': "inv s' \<and> (\<forall>x. fst (hist s1 x) \<subseteq> fst (hist s' x)) \<and> k1 < k' \<and>
      (\<forall>m \<in> set (H (k' - 1)). ?t < hm_time m \<longrightarrow> hm_id m \<in> fst (hist s' chat))" using IH st by blast
    have "hm_id m \<in> fst (hist s' chat)" if m: "m \<in> set (H (k' - 1))" "c < hm_time m" for m
    proof (cases "?t < hm_time m")
      case True
      then show ?thesis using IH' m(1) by blast
    next
      case old: False
      obtain p where p: "p \<in> set ?newer" "hm_time p = ?t" using newest_time_facts(1) [OF False] by blast
      have "m \<in> set (H k)"
        by (rule growing_old [OF H(1) _ m(1), of k p]) (use p sub old IH' st in auto)
      moreover have "p \<in> set ?page" using p(1) by (simp add: newer_of_def)
      ultimately have "m \<in> set ?page" using page [of p m] m(2) old p(2) by simp
      then have "m \<in> set ?newer" using m(2) by (simp add: newer_of_def)
      then have "hm_id m \<in> fst (hist s1 chat)" using all got(2) by blast
      then show ?thesis using IH' by blast
    qed
    moreover have "k < k'" using st IH' by simp
    ultimately show ?thesis using IH' st by blast
  qed
qed

lemma forward_cases:
  assumes "snd (hist s chat) = Some st" and "cu_newest_time_ms st = Some c"
  shows "forward fuel v chat limit k s = (case forward_loop fuel v chat limit k c (seen_ids st) 0 s of
      Some (Inr n, k', s') \<Rightarrow> Some (Inr n, k', sv_finish v s' chat None) | r \<Rightarrow> r)"
  using assms by (simp add: forward_def cursor)

lemma forward_complete:
  assumes keep and ok: "\<forall>k m s. fst (sv_store v k chat m s)"
    and H: "growing H" "pages_forward v chat H" and good: "\<forall>k. \<forall>m \<in> set (H k). good chat m"
    and st: "snd (hist s chat) = Some st" "cu_newest_time_ms st = Some c"
    and f: "forward fuel v chat limit k s = Some (Inr n, k', s')" "inv s" "n < limit"
  shows "inv s' \<and> (\<forall>x. fst (hist s x) \<subseteq> fst (hist s' x)) \<and>
    (\<forall>m \<in> set (H (k' - 1)). c < hm_time m \<longrightarrow> hm_id m \<in> fst (hist s' chat))"
proof -
  obtain s1 where l: "forward_loop fuel v chat limit k c (seen_ids st) 0 s = Some (Inr n, k', s1)"
    and s': "s' = sv_finish v s1 chat None"
    using f(1) by (auto simp: forward_cases [OF st] split: option.splits sum.splits)
  from forward_loop_complete [OF assms(1) ok H good l f(2,3)] show ?thesis
    unfolding s' using finished [of s1 chat None] by simp
qed

lemma forward_returns:
  assumes ok: "\<forall>k m s. fst (sv_store v k chat m s)" and st: "snd (hist s chat) = Some st" "cu_newest_time_ms st = Some c"
    and H: "pages_forward v chat H" and fuel: "limit \<le> fuel"
  shows "\<exists>n k' s'. forward fuel v chat limit k s = Some (Inr n, k', s')"
proof -
  have no_error: "forward_loop fuel v chat limit k c seen stored s \<noteq> Some (Inl e, r)" for fuel k c seen stored s e r
    by (induction fuel arbitrary: k c seen stored s)
       (use H in \<open>auto simp: pages_forward_def Let_def split: prod.splits\<close>)
  have "forward_loop fuel v chat limit k c (seen_ids st) 0 s \<noteq> None"
    using fuel by (intro forward_loop_returns [OF ok]) simp
  then obtain r k' s' where "forward_loop fuel v chat limit k c (seen_ids st) 0 s = Some (r, k', s')" by auto
  moreover from this obtain n where "r = Inr n" using no_error by (cases r) blast+
  ultimately show ?thesis by (simp add: forward_cases [OF st])
qed

subsection \<open>What the limit leaves out\<close>

text \<open>Without other tasks a loop adds at most as many ids as it counts.\<close>

lemma store_all_adds:
  assumes quiet: "\<forall>k s. sv_others v k s = s"
  shows "\<lbrakk>store_all v chat k ms s = (n, k', s'); inv s; \<forall>m \<in> set ms. good chat m\<rbrakk> \<Longrightarrow>
    inv s' \<and> n \<le> length ms \<and> (\<exists>I. fst (hist s' chat) = fst (hist s chat) \<union> I \<and> finite I \<and> card I \<le> n)"
proof (induction ms arbitrary: k s n)
  case Nil
  then show ?case by (intro conjI exI [of _ "{}"]) auto
next
  case (Cons m ms)
  obtain ok s1 where 1: "sv_store v k chat m s = (ok, s1)" by (rule prod.exhaust)
  obtain l k1 s2 where 2: "store_all v chat (Suc k) ms s1 = (l, k1, s2)" by (metis prod.exhaust)
  have e: "n = (if ok then 1 else 0) + l" "k' = k1" "s' = s2" using Cons.prems(1) 1 2 quiet by auto
  have good: "good chat m" "\<forall>m \<in> set ms. good chat m" using Cons.prems(3) by simp_all
  have i1: "inv s1" using store_keeps [OF Cons.prems(2) good(1) 1] by blast
  obtain I where I: "inv s2" "l \<le> length ms" "fst (hist s2 chat) = fst (hist s1 chat) \<union> I" "finite I" "card I \<le> l"
    using Cons.IH [OF 2 [folded e(2,3)] i1 good(2)] e(3) by blast
  show ?case
  proof (cases ok)
    case True
    then have "fst (hist s1 chat) = insert (hm_id m) (fst (hist s chat))"
      using stored [OF Cons.prems(2) good(1), of k s1 chat] 1 by (simp add: add_message_def)
    moreover have "card (insert (hm_id m) I) \<le> Suc l" using I(4,5) by (simp add: card_insert_if)
    ultimately show ?thesis using True e I by (intro conjI exI [of _ "insert (hm_id m) I"]) auto
  next
    case False
    then have "s1 = s" using 1 not_stored by simp
    then show ?thesis using False e I by auto
  qed
qed

lemma forward_loop_adds:
  assumes quiet: "\<forall>k s. sv_others v k s = s"
    and H: "pages_forward v chat H" and good: "\<forall>k. \<forall>m \<in> set (H k). good chat m"
  shows "\<lbrakk>forward_loop fuel v chat limit k c seen stored s = Some (Inr n, k', s'); inv s; stored \<le> limit\<rbrakk> \<Longrightarrow>
    inv s' \<and> n \<le> limit \<and> (\<exists>I. fst (hist s' chat) = fst (hist s chat) \<union> I \<and> finite I \<and> stored + card I \<le> n)"
proof (induction fuel arbitrary: k c seen stored s)
  case 0
  then show ?case by (intro conjI exI [of _ "{}"]) (auto split: if_splits)
next
  case (Suc fuel)
  let ?page = "take (page_size (limit - stored) True) (filter (\<lambda>m. c \<le> hm_time m) (H k))"
  let ?newer = "newer_of c seen ?page"
  let ?ms = "take (limit - stored) (sort_key hm_time ?newer)" and ?t = "newest_time ?newer"
  have ask: "sv_history v k chat (Some c) (page_size (limit - stored) True) 0 = Inr ?page"
    using H by (simp add: pages_forward_def)
  show ?case
  proof (cases "stored < limit \<and> ?newer \<noteq> []")
    case False
    then have "n = stored" "s' = s" using Suc.prems(1,3) ask by (auto simp: Let_def split: if_splits)
    then show ?thesis using Suc.prems(2,3) by (intro conjI exI [of _ "{}"]) auto
  next
    case True
    obtain got k1 s1 where g: "store_all v chat (Suc k) ?ms s = (got, k1, s1)" by (metis prod.exhaust)
    have rest: "forward_loop fuel v chat limit k1 ?t (map hm_id (filter (\<lambda>m. hm_time m = ?t) ?newer)) (stored + got) s1
        = Some (Inr n, k', s')" using Suc.prems(1) ask True g by (simp add: Let_def)
    have gm: "\<forall>m \<in> set ?ms. good chat m" using good by (auto dest!: in_set_takeD simp: newer_of_def)
    obtain I where I: "inv s1" "got \<le> length ?ms" "fst (hist s1 chat) = fst (hist s chat) \<union> I" "finite I" "card I \<le> got"
      using store_all_adds [OF quiet g Suc.prems(2) gm] by blast
    then have "got \<le> limit - stored" by simp
    then have "stored + got \<le> limit" using Suc.prems(3) by linarith
    from Suc.IH [OF rest I(1) \<open>stored + got \<le> limit\<close>] obtain J where J: "inv s'" "n \<le> limit" "fst (hist s' chat) = fst (hist s1 chat) \<union> J"
      "finite J" "stored + got + card J \<le> n" by blast
    have "card (I \<union> J) \<le> card I + card J" by (rule card_Un_le)
    then show ?thesis using I J by (intro conjI exI [of _ "I \<union> J"]) auto
  qed
qed

lemma forward_leaves_out:
  assumes quiet: "\<forall>k s. sv_others v k s = s"
    and H: "pages_forward v chat H" and good: "\<forall>k. \<forall>m \<in> set (H k). good chat m"
    and st: "snd (hist s chat) = Some st" "cu_newest_time_ms st = Some c" and i: "inv s"
    and f: "forward fuel v chat limit k s = Some (Inr n, k', s')"
    and many: "limit < card (hm_id ` {m \<in> set ms. c < hm_time m} - fst (hist s chat))"
  shows "\<exists>m \<in> set ms. c < hm_time m \<and> hm_id m \<notin> fst (hist s' chat)"
proof -
  obtain s1 where l: "forward_loop fuel v chat limit k c (seen_ids st) 0 s = Some (Inr n, k', s1)"
    and s': "s' = sv_finish v s1 chat None"
    using f by (auto simp: forward_cases [OF st] split: option.splits sum.splits)
  from forward_loop_adds [OF quiet H good l i] obtain I where I: "inv s1" "n \<le> limit"
    "fst (hist s1 chat) = fst (hist s chat) \<union> I" "finite I" "card I \<le> n" by auto
  have "fst (hist s' chat) = fst (hist s chat) \<union> I" using I(3) finished [OF I(1)] s' by simp
  moreover have "\<not> hm_id ` {m \<in> set ms. c < hm_time m} - fst (hist s chat) \<subseteq> I"
  proof
    assume "hm_id ` {m \<in> set ms. c < hm_time m} - fst (hist s chat) \<subseteq> I"
    then have "card (hm_id ` {m \<in> set ms. c < hm_time m} - fst (hist s chat)) \<le> card I" by (rule card_mono [OF I(4)])
    then show False using many I(2,5) by simp
  qed
  ultimately show ?thesis by auto
qed

end

subsection \<open>The tables of an account\<close>

interpretation max_history: message_store "max_sync_env e norm kind fails ask others" tables_ok view "storable norm"
  for e norm kind fails ask others
proof
  fix s :: account_tables and chat m k s' x b
  show "sv_store (max_sync_env e norm kind fails ask others) k chat m s = (False, s') \<Longrightarrow> s' = s"
    by (auto simp: max_sync_env_def store_history_def split: if_splits sum.splits)
  show "sv_cursor (max_sync_env e norm kind fails ask others) s chat = snd (view s chat)"
    by (simp add: max_sync_env_def load_cursor_view)
  assume ok: "tables_ok s"
  show "tables_ok (sv_finish (max_sync_env e norm kind fails ask others) s chat b) \<and>
      view (sv_finish (max_sync_env e norm kind fails ask others) s chat b) x = view s x"
    using finish_backfill_refines [OF ok] by (simp add: max_sync_env_def)
  show "tables_ok (sv_mark_catchup (max_sync_env e norm kind fails ask others) s chat) \<and>
      view (sv_mark_catchup (max_sync_env e norm kind fails ask others) s chat) x = view s x"
    using mark_catchup_refines [OF ok] by (simp add: max_sync_env_def)
  assume m: "storable norm chat m" and st: "sv_store (max_sync_env e norm kind fails ask others) k chat m s = (True, s')"
  obtain miss where "store_message e s chat (norm chat m) (kind chat m) True (Some (hm_time m)) = Inr (miss, s')"
    using st by (auto simp: max_sync_env_def store_history_def split: if_splits sum.splits)
  from store_message_refines [OF ok _ this] m
  show "tables_ok s' \<and> view s' x = (if x = chat then add_message (hm_id m) (hm_time m) True (view s chat) else view s x)"
    by (simp add: storable_def)
qed

subsection \<open>Two messages in one millisecond\<close>

context message_store
begin

lemma ping_pong:
  assumes ok: "\<forall>k m s. fst (sv_store v k chat m s)" and H: "pages_forward v chat (\<lambda>_. [a, b])"
    and ab: "hm_time a = c" "hm_time b = c" "hm_id a \<noteq> hm_id b"
  shows "\<lbrakk>x \<in> {hm_id a, hm_id b}; stored \<le> limit; limit \<le> stored + fuel\<rbrakk> \<Longrightarrow>
    \<exists>s'. forward_loop fuel v chat limit k c [x] stored s = Some (Inr limit, k + 2 * (limit - stored), s')"
proof (induction fuel arbitrary: k x stored s)
  case 0
  then show ?case by simp
next
  case (Suc n)
  show ?case
  proof (cases "stored < limit")
    case True
    have p: "2 \<le> page_size (limit - stored) True" using True by (simp add: page_size_def PAGE_SIZE_def)
    have ask: "sv_history v k chat (Some c) (page_size (limit - stored) True) 0 = Inr [a, b]"
      using H ab p by (simp add: pages_forward_def take_Cons' numeral_2_eq_2)
    obtain m where m: "newer_of c [x] [a, b] = [m]" "hm_time m = c" "hm_id m \<in> {hm_id a, hm_id b}"
      using ab Suc.prems(1) by (cases "x = hm_id a") (auto simp: newer_of_def)
    have t: "newest_time [m] = c" using m(2) by (simp add: newest_time_def)
    obtain s1 where g: "store_all v chat (Suc k) (take (limit - stored) (sort_key hm_time [m])) s = (1, Suc (Suc k), s1)"
    proof -
      obtain okay s1 where 1: "sv_store v (Suc k) chat m (sv_others v (Suc k) s) = (okay, s1)" by (rule prod.exhaust)
      then have okay using ok by (metis fst_conv)
      moreover have "take (limit - stored) [m] = [m]" using True by (cases "limit - stored") auto
      ultimately show thesis using that 1 by simp
    qed
    obtain s' where "forward_loop n v chat limit (Suc (Suc k)) c [hm_id m] (stored + 1) s1
        = Some (Inr limit, Suc (Suc k) + 2 * (limit - (stored + 1)), s')"
      using Suc.IH [OF m(3), of "stored + 1" "Suc (Suc k)" s1] Suc.prems(3) True by auto
    moreover have "Suc (Suc k) + 2 * (limit - (stored + 1)) = k + 2 * (limit - stored)" using True by simp
    ultimately show ?thesis using True ask m t g by (auto simp: Let_def simp del: take.simps)
  next
    case False
    then show ?thesis using Suc.prems(2) by simp
  qed
qed

end

end
