(* ===== verification/Max_Connection_Facts.thy ===== *)
theory Max_Connection_Facts
  imports Max_Connection Max_Sync_Facts
begin

text \<open>
  The invariant of one chat under the steps of the protocol, on its abstract history: \<open>H\<close> is what
  MAX has, \<open>I\<close> the ids stored, \<open>C\<close> the cursor, \<open>k\<close> whether the chat counts as caught up in the
  current connection.
\<close>

subsection \<open>Ordered histories\<close>

lemma ordered_inj: "ordered ms \<Longrightarrow> a \<in> set ms \<Longrightarrow> b \<in> set ms \<Longrightarrow> hm_time a = hm_time b \<Longrightarrow> a = b"
  by (induction ms) (auto simp: ordered_def)

lemma ordered_snoc: "ordered (ms @ [m]) \<longleftrightarrow> ordered ms \<and> (\<forall>p \<in> set ms. hm_time p < hm_time m)"
  by (simp add: ordered_def sorted_wrt_append)

lemma ordered_Cons: "ordered (m # ms) \<longleftrightarrow> ordered ms \<and> (\<forall>p \<in> set ms. hm_time m < hm_time p)"
  by (auto simp: ordered_def)

lemma ordered_take: "ordered ms \<Longrightarrow> ordered (take n ms)"
  by (simp add: ordered_def sorted_wrt_take)

lemma ordered_drop: "ordered ms \<Longrightarrow> ordered (drop n ms)"
  by (simp add: ordered_def sorted_wrt_drop)

lemma ordered_sort: "ordered ms \<Longrightarrow> sort_key hm_time ms = ms"
  by (rule sort_key_id_if_sorted) (simp add: ordered_def sorted_map sorted_wrt_mono_rel [of _ "\<lambda>a b. hm_time a < hm_time b"])

lemma ordered_le_last: "ordered ms \<Longrightarrow> m \<in> set ms \<Longrightarrow> hm_time m \<le> hm_time (last ms)"
  by (induction ms) (auto simp: ordered_def less_imp_le)

lemma ordered_suffix:
  assumes "ordered ms" and "m \<in> set ms" and "p \<in> set (drop n ms)" and "hm_time p \<le> hm_time m"
  shows "m \<in> set (drop n ms)"
proof -
  have "m \<in> set (take n ms) \<or> m \<in> set (drop n ms)" using assms(2) by (metis Un_iff append_take_drop_id set_append)
  moreover have "hm_time x < hm_time p" if "x \<in> set (take n ms)" for x
  proof -
    have "ordered (take n ms @ drop n ms)" using assms(1) by simp
    then show ?thesis using that assms(3) unfolding ordered_def sorted_wrt_append by blast
  qed
  ultimately show ?thesis using assms(4) by fastforce
qed

lemma ordered_distinct: "ordered ms \<Longrightarrow> distinct ms"
  by (induction ms) (auto simp: ordered_def)

lemma filter_between:
  "c \<le> t \<Longrightarrow> length (filter (\<lambda>m. hm_time m \<le> t) H) = length (filter (\<lambda>m. hm_time m \<le> c) H)
     + length (filter (\<lambda>m. c < hm_time m \<and> hm_time m \<le> t) H)"
  by (induction H) auto

lemma oldest_of_hd: "ordered (m # ms) \<Longrightarrow> oldest_of m ms = m"
proof (induction ms)
  case (Cons x xs)
  then have "\<not> hm_time x < hm_time m" "ordered (m # xs)" by (auto simp: ordered_def)
  then show ?case using Cons.IH by simp
qed simp

subsection \<open>The invariant of a chat\<close>

definition cursor_ok :: "hmsg list \<Rightarrow> cursor option \<Rightarrow> bool" where
  "cursor_ok H C \<longleftrightarrow> (\<forall>st. C = Some st \<longrightarrow> cu_oldest_time_ms st \<noteq> None \<and> (cu_newest_time_ms st \<noteq> None \<longrightarrow>
     (\<exists>p \<in> set H. cu_newest_time_ms st = Some (hm_time p) \<and> cu_newest_message_id st = Some (hm_id p))))"

definition before_oldest :: "cursor option \<Rightarrow> hmsg \<Rightarrow> bool" where
  "before_oldest C m \<longleftrightarrow> (\<exists>st. C = Some st \<and> hm_time m < the (cu_oldest_time_ms st))"

text \<open>No gap: between the ends of the cursor everything is stored.\<close>

definition no_gap :: "hmsg list \<Rightarrow> int set \<Rightarrow> cursor option \<Rightarrow> bool" where
  "no_gap H I C \<longleftrightarrow> (\<forall>st t. \<forall>m \<in> set H. C = Some st \<longrightarrow> cu_newest_time_ms st = Some t \<longrightarrow>
     the (cu_oldest_time_ms st) \<le> hm_time m \<longrightarrow> hm_time m \<le> t \<longrightarrow> hm_id m \<in> I)"

definition all_stored :: "hmsg list \<Rightarrow> int set \<Rightarrow> cursor option \<Rightarrow> bool" where
  "all_stored H I C \<longleftrightarrow> (\<forall>m \<in> set H. hm_id m \<in> I \<or> before_oldest C m)"

fun pass_ok :: "hmsg list \<Rightarrow> int set \<Rightarrow> cursor option \<Rightarrow> pass \<Rightarrow> bool" where
  "pass_ok H I C Idle = True"
| "pass_ok H I C (Forward chat c seen ms got) \<longleftrightarrow> C \<noteq> None \<and> (\<exists>p \<in> set H. hm_time p = c \<and> hm_id p \<in> set seen) \<and>
     ordered ms \<and> set ms \<subseteq> set H \<and> (\<forall>m \<in> set ms. hm_time m \<le> c) \<and>
     (\<forall>m \<in> set H. hm_time m \<le> c \<longrightarrow> hm_id m \<in> I \<or> m \<in> set ms \<or> before_oldest C m) \<and>
     got + length ms \<le> length (filter (\<lambda>m. hm_time m \<le> c) H)"
| "pass_ok H I C (Seeding chat ms pg) \<longleftrightarrow> ordered ms \<and> ordered pg \<and> set ms \<subseteq> set pg \<and> set pg \<subseteq> set H \<and>
     (\<forall>m \<in> set H. hm_id m \<in> I \<or> m \<in> set ms \<or> (pg \<noteq> [] \<and> hm_time m < hm_time (hd pg))) \<and>
     (\<forall>st. C = Some st \<longrightarrow> pg \<noteq> [] \<longrightarrow> hm_time (hd pg) \<le> the (cu_oldest_time_ms st))"
| "pass_ok H I C (Finishing chat) = all_stored H I C"

definition chat_inv :: "hmsg list \<Rightarrow> int set \<Rightarrow> cursor option \<Rightarrow> bool \<Rightarrow> pass \<Rightarrow> bool" where
  "chat_inv H I C k p \<longleftrightarrow> cursor_ok H C \<and> no_gap H I C \<and> (k \<longrightarrow> all_stored H I C) \<and> pass_ok H I C p"

lemmas chat_defs = chat_inv_def cursor_ok_def no_gap_def all_stored_def before_oldest_def

lemma page_pos: "got < CATCHUP_LIMIT \<Longrightarrow> 2 \<le> page_size (CATCHUP_LIMIT - got) True"
  by (simp add: page_size_def PAGE_SIZE_def)

text \<open>What the server gets later.\<close>

lemma pass_ok_later:
  assumes "pass_ok H I C p" and "\<forall>q \<in> set H. hm_time q < hm_time m" and "I \<subseteq> J"
    and "hm_id m \<in> J"
  shows "pass_ok (H @ [m]) J C p"
proof (cases p)
  case (Forward chat c seen ms got)
  then have "\<not> hm_time m \<le> c" using assms(1,2) by auto
  then show ?thesis using assms Forward by auto
next
  case (Seeding chat ms pg)
  then show ?thesis using assms by auto
next
  case (Finishing chat)
  then show ?thesis using assms by (auto simp: all_stored_def)
qed simp

lemma before_oldest_eq: "cu_oldest_time_ms st = cu_oldest_time_ms st' \<Longrightarrow> before_oldest (Some st) m = before_oldest (Some st') m"
  by (simp add: before_oldest_def)

lemma pass_ok_cursor:
  assumes "pass_ok H I (Some st) p" and "cu_oldest_time_ms st = cu_oldest_time_ms st'"
  shows "pass_ok H I (Some st') p"
  using assms before_oldest_eq [OF assms(2)] by (cases p) (auto simp: all_stored_def)

text \<open>A first cursor at a message that is later than all others, everything being stored.\<close>

lemma pass_ok_first:
  assumes "pass_ok H I None p" and "\<forall>q \<in> set H. hm_id q \<in> I" and "\<forall>q \<in> set H. hm_time q \<le> t"
    and "cu_oldest_time_ms st = Some t"
  shows "pass_ok H I (Some st) p"
proof (cases p)
  case (Seeding chat ms pg)
  then have "hm_time (hd pg) \<le> t" if "pg \<noteq> []" using assms(1,3) that by (metis hd_in_set pass_ok.simps(3) subsetD)
  then show ?thesis using assms Seeding by auto
qed (use assms in \<open>auto simp: all_stored_def\<close>)

lemma inv_live:
  assumes inv: "chat_inv H I C k p" and m: "\<forall>q \<in> set H. hm_time q < hm_time m"
  shows "chat_inv (H @ [m]) (insert (hm_id m) I) (if k then advanced (hm_id m) (hm_time m) C else C) k p"
proof (cases k)
  case False
  then show ?thesis using inv m pass_ok_later [of H I C p m "insert (hm_id m) I"]
    by (fastforce simp: chat_defs)
next
  case k: True
  let ?H = "H @ [m]" and ?I = "insert (hm_id m) I"
  have p': "pass_ok ?H ?I C p" using pass_ok_later [of H I C p m ?I] inv m by (auto simp: chat_inv_def)
  show ?thesis
  proof (cases C)
    case None
    have all: "\<forall>q \<in> set ?H. hm_id q \<in> ?I" using inv k None by (auto simp: chat_defs)
    have "pass_ok ?H ?I (Some (cursor_at (hm_id m) (hm_time m))) p"
      by (rule pass_ok_first [OF p' [unfolded None] all, of "hm_time m"]) (use m in \<open>auto simp: cursor_at_def less_imp_le\<close>)
    then show ?thesis using k None all by (auto simp: chat_defs advanced_def cursor_at_def)
  next
    case (Some st)
    let ?st = "st\<lparr>cu_newest_time_ms := Some (hm_time m), cu_newest_message_id := Some (hm_id m)\<rparr>"
    have n: "newer_than (hm_time m) (cu_newest_time_ms st)" using inv m Some by (auto simp: chat_defs newer_than_def)
    have "pass_ok ?H ?I (Some ?st) p" by (rule pass_ok_cursor [OF p' [unfolded Some]]) simp
    then show ?thesis using k Some n inv by (fastforce simp: chat_defs advanced_def)
  qed
qed

lemma inv_missed:
  assumes inv: "chat_inv H I C False Idle" and m: "\<forall>q \<in> set H. hm_time q < hm_time m"
  shows "chat_inv (H @ [m]) I C False Idle"
  using inv m by (fastforce simp: chat_defs)

lemma inv_drop: "chat_inv H I C k p \<Longrightarrow> chat_inv H I C False Idle"
  by (simp add: chat_inv_def)

lemma inv_no_tail:
  assumes inv: "chat_inv H I C k p" and H: "ordered H"
    and t: "H = [] \<or> (\<exists>st t. C = Some st \<and> cu_newest_time_ms st = Some t \<and> hm_time (last H) \<le> t)"
  shows "chat_inv H I C k' p"
proof (cases "H = []")
  case True
  then show ?thesis using inv by (auto simp: chat_defs)
next
  case False
  then obtain st t where st: "C = Some st" "cu_newest_time_ms st = Some t" "hm_time (last H) \<le> t" using t by blast
  have "hm_id m \<in> I \<or> before_oldest C m" if "m \<in> set H" for m
  proof (cases "before_oldest C m")
    case b: False
    then have "the (cu_oldest_time_ms st) \<le> hm_time m" using st(1) by (simp add: before_oldest_def)
    moreover have "hm_time m \<le> t" using ordered_le_last [OF H that] st(3) by simp
    ultimately show ?thesis using inv that st by (auto simp: chat_inv_def no_gap_def)
  qed simp
  then show ?thesis using inv by (simp add: chat_inv_def all_stored_def)
qed

subsection \<open>The forward pass\<close>

lemma inv_begin:
  assumes inv: "chat_inv H I C k Idle" and st: "C = Some st" "cu_newest_time_ms st = Some c"
  shows "chat_inv H I C k (Forward chat c (seen_ids st) [] 0)"
proof -
  have "\<exists>p \<in> set H. hm_time p = c \<and> hm_id p \<in> set (seen_ids st)"
    using inv st by (auto simp: chat_inv_def cursor_ok_def seen_ids_def)
  moreover have "\<forall>m \<in> set H. hm_time m \<le> c \<longrightarrow> hm_id m \<in> I \<or> before_oldest C m"
    using inv st by (auto simp: chat_inv_def no_gap_def before_oldest_def)
  ultimately show ?thesis using inv st(1) by (auto simp: chat_inv_def ordered_def)
qed

text \<open>The new messages of a page are those after the loop's cursor, up to the last of them.\<close>

lemma newer_after:
  assumes H: "ordered H" and p: "\<exists>p \<in> set H. hm_time p = c \<and> hm_id p \<in> set seen"
  shows "newer_of c seen (take n (filter (\<lambda>m. c \<le> hm_time m) H)) = filter (\<lambda>m. c < hm_time m) (take n (filter (\<lambda>m. c \<le> hm_time m) H))"
  unfolding newer_of_def
proof (rule filter_cong [OF refl])
  fix m assume "m \<in> set (take n (filter (\<lambda>m. c \<le> hm_time m) H))"
  then have "m \<in> set H" by (auto dest: in_set_takeD)
  then have "hm_id m \<in> set seen" if "hm_time m = c" using p that ordered_inj [OF H] by blast
  then show "(c < hm_time m \<or> hm_time m = c \<and> hm_id m \<notin> set seen) \<longleftrightarrow> c < hm_time m" by blast
qed

lemma inv_page:
  assumes inv: "chat_inv H I C k (Forward chat c seen [] got)" and H: "ordered H" "length H \<le> CATCHUP_LIMIT"
    and newer: "newer = newer_of c seen (take n (filter (\<lambda>m. c \<le> hm_time m) H))" "newer \<noteq> []"
  shows "chat_inv H I C k (Forward chat (newest_time newer) (map hm_id (filter (\<lambda>m. hm_time m = newest_time newer) newer))
     (take (CATCHUP_LIMIT - got) (sort_key hm_time newer)) got)"
proof -
  let ?page = "take n (filter (\<lambda>m. c \<le> hm_time m) H)" and ?t = "newest_time newer"
  have old: "\<exists>p \<in> set H. hm_time p = c \<and> hm_id p \<in> set seen" using inv by (auto simp: chat_inv_def)
  have nw: "newer = filter (\<lambda>m. c < hm_time m) ?page" unfolding newer(1) by (rule newer_after [OF H(1) old])
  have ord: "ordered newer" unfolding nw by (intro ordered_filter ordered_take H(1))
  obtain q where q: "q \<in> set newer" "hm_time q = ?t" using newest_time_facts(1) [OF newer(2)] by blast
  have sub: "set newer \<subseteq> set H" unfolding nw by (auto dest: in_set_takeD)
  have in_newer: "m \<in> set newer" if "m \<in> set H" "c < hm_time m" "hm_time m \<le> ?t" for m
  proof -
    have "m \<in> set ?page"
      by (rule page_prefix [OF ordered_filter [OF H(1)], of q]) (use q that in \<open>auto simp: nw\<close>)
    then show ?thesis using that(2) by (simp add: nw)
  qed
  have "set newer \<subseteq> set (filter (\<lambda>m. c < hm_time m \<and> hm_time m \<le> ?t) H)"
    using sub newest_time_facts(2) [OF newer(2)] by (auto simp: nw)
  then have "card (set newer) \<le> card (set (filter (\<lambda>m. c < hm_time m \<and> hm_time m \<le> ?t) H))" by (rule card_mono [OF finite_set])
  then have few: "length newer \<le> length (filter (\<lambda>m. c < hm_time m \<and> hm_time m \<le> ?t) H)"
    by (simp only: distinct_card [OF ordered_distinct [OF ord]] distinct_card [OF ordered_distinct [OF ordered_filter [OF H(1)]]])
  have "c \<le> ?t" using q by (auto simp: nw)
  then have count: "length (filter (\<lambda>m. hm_time m \<le> ?t) H) = length (filter (\<lambda>m. hm_time m \<le> c) H)
      + length (filter (\<lambda>m. c < hm_time m \<and> hm_time m \<le> ?t) H)" by (rule filter_between)
  have got: "got \<le> length (filter (\<lambda>m. hm_time m \<le> c) H)" using inv by (simp add: chat_inv_def)
  have "length (filter (\<lambda>m. hm_time m \<le> ?t) H) \<le> CATCHUP_LIMIT" using H(2) length_filter_le [of _ H] le_trans by blast
  then have all: "take (CATCHUP_LIMIT - got) (sort_key hm_time newer) = newer"
    using few count got by (simp add: ordered_sort [OF ord])
  have "hm_id m \<in> I \<or> m \<in> set newer \<or> before_oldest C m" if "m \<in> set H" "hm_time m \<le> ?t" for m
    using inv in_newer [OF that(1)] that by (cases "c < hm_time m") (auto simp: chat_inv_def)
  moreover have "\<exists>p \<in> set H. hm_time p = ?t \<and> hm_id p \<in> set (map hm_id (filter (\<lambda>m. hm_time m = ?t) newer))"
    using q sub by (intro bexI [of _ q]) auto
  ultimately show ?thesis
    unfolding chat_inv_def all pass_ok.simps
    using inv ord sub newest_time_facts(2) [OF newer(2)] few count got by (simp add: chat_inv_def)
qed

lemma inv_put:
  assumes inv: "chat_inv H I C k (Forward chat c seen (m # ms) got)" and H: "ordered H"
  shows "chat_inv H (insert (hm_id m) I) (advanced (hm_id m) (hm_time m) C) k (Forward chat c seen ms (Suc got))"
proof -
  obtain st where st: "C = Some st" using inv by (auto simp: chat_inv_def)
  define st' where "st' = (if newer_than (hm_time m) (cu_newest_time_ms st)
    then st\<lparr>cu_newest_time_ms := Some (hm_time m), cu_newest_message_id := Some (hm_id m)\<rparr> else st)"
  have C': "advanced (hm_id m) (hm_time m) C = Some st'" by (simp add: advanced_def st st'_def)
  have b: "before_oldest (Some st') x = before_oldest C x" for x by (simp add: before_oldest_def st st'_def)
  have mH: "m \<in> set H" and ms: "ordered (m # ms)" using inv by (auto simp: chat_inv_def)
  have "cursor_ok H (Some st')" using inv mH st by (auto simp: chat_inv_def cursor_ok_def st'_def)
  moreover have "no_gap H (insert (hm_id m) I) (Some st')"
  proof (cases "newer_than (hm_time m) (cu_newest_time_ms st)")
    case False
    then show ?thesis using inv st by (auto simp: chat_inv_def no_gap_def st'_def)
  next
    case True
    have "hm_id x \<in> insert (hm_id m) I" if x: "x \<in> set H" "\<not> before_oldest C x" "hm_time x \<le> hm_time m" for x
    proof -
      have "hm_time m \<le> c" using inv by (auto simp: chat_inv_def)
      then have "hm_id x \<in> I \<or> x \<in> set (m # ms)" using inv x by (auto simp: chat_inv_def)
      moreover have "x \<notin> set ms" using ms x(3) by (auto simp: ordered_Cons)
      ultimately show ?thesis by auto
    qed
    then show ?thesis using True by (auto simp: no_gap_def st'_def before_oldest_def st not_less)
  qed
  moreover have "k \<longrightarrow> all_stored H (insert (hm_id m) I) (Some st')"
    using inv by (auto simp: chat_inv_def all_stored_def b)
  moreover have "pass_ok H (insert (hm_id m) I) (Some st') (Forward chat c seen ms (Suc got))"
    using inv ms by (auto simp: chat_inv_def b ordered_Cons)
  ultimately show ?thesis by (simp add: chat_inv_def C')
qed

lemma inv_end_forward:
  assumes inv: "chat_inv H I C k (Forward chat c seen [] got)" and H: "ordered H" "length H \<le> CATCHUP_LIMIT"
    and e: "got < CATCHUP_LIMIT \<longrightarrow> newer_of c seen (take (page_size (CATCHUP_LIMIT - got) True) (filter (\<lambda>m. c \<le> hm_time m) H)) = []"
  shows "chat_inv H I C k (Finishing chat)"
proof -
  have old: "\<exists>p \<in> set H. hm_time p = c \<and> hm_id p \<in> set seen" using inv by (auto simp: chat_inv_def)
  have "hm_time m \<le> c" if m: "m \<in> set H" for m
  proof (cases "got < CATCHUP_LIMIT")
    case True
    let ?ys = "filter (\<lambda>m. c \<le> hm_time m) H" and ?n = "page_size (CATCHUP_LIMIT - got) True"
    have none: "filter (\<lambda>m. c < hm_time m) (take ?n ?ys) = []" using e True newer_after [OF H(1) old] by simp
    obtain p where p: "p \<in> set H" "hm_time p = c" using old by blast
    show ?thesis
    proof (rule ccontr)
      assume "\<not> hm_time m \<le> c"
      then have m': "m \<in> set ?ys" "m \<notin> set (take ?n ?ys)" using m none by (auto simp: filter_empty_conv)
      then have "?n < length ?ys" by (metis not_le take_all)
      then have len: "2 \<le> length (take ?n ?ys)" using page_pos [OF True] by simp
      have o: "ordered (take ?n ?ys)" by (intro ordered_take ordered_filter H(1))
      have "take ?n ?ys ! 0 \<in> set (take ?n ?ys)" "take ?n ?ys ! 1 \<in> set (take ?n ?ys)" using len by (metis nth_mem One_nat_def Suc_1 Suc_le_lessD le_less_trans lessI not_less0 not_le order_less_le_trans zero_less_one)+
      moreover have "hm_time (take ?n ?ys ! 0) < hm_time (take ?n ?ys ! 1)"
        using o len sorted_wrt_nth_less [of "\<lambda>a b. hm_time a < hm_time b" "take ?n ?ys" 0 1] by (simp add: ordered_def)
      ultimately show False using none by (fastforce simp: filter_empty_conv dest: in_set_takeD)
    qed
  next
    case False
    have "got \<le> length (filter (\<lambda>m. hm_time m \<le> c) H)" using inv by (simp add: chat_inv_def)
    then have "length (filter (\<lambda>m. hm_time m \<le> c) H) = length H"
      using False H(2) length_filter_le [of "\<lambda>m. hm_time m \<le> c" H] by linarith
    then show ?thesis using m by (metis length_filter_less less_irrefl)
  qed
  then show ?thesis using inv by (auto simp: chat_inv_def all_stored_def)
qed

subsection \<open>The seed\<close>

lemma inv_begin_seed:
  assumes inv: "chat_inv H I None k Idle" and H: "ordered H" and n: "0 < n"
  shows "chat_inv H I None k (Seeding chat (drop (length H - n) H) (drop (length H - n) H))"
proof -
  let ?pg = "drop (length H - n) H"
  have "m \<in> set ?pg \<or> (?pg \<noteq> [] \<and> hm_time m < hm_time (hd ?pg))" if m: "m \<in> set H" for m
  proof -
    have ne: "?pg \<noteq> []" using m n by (cases H) auto
    show ?thesis
    proof (cases "hm_time (hd ?pg) \<le> hm_time m")
      case True
      then show ?thesis using ordered_suffix [OF H m hd_in_set [OF ne]] by blast
    qed (use ne in simp)
  qed
  moreover have "set ?pg \<subseteq> set H" by (rule set_drop_subset)
  ultimately show ?thesis using inv ordered_drop [OF H] by (auto simp: chat_inv_def)
qed

lemma inv_put_seed:
  assumes inv: "chat_inv H I C k (Seeding chat (m # ms) pg)"
  shows "chat_inv H (insert (hm_id m) I) (advanced (hm_id m) (hm_time m) C) k (Seeding chat ms pg)"
proof -
  have ms: "ordered (m # ms)" "ordered pg" and mpg: "m \<in> set pg" "set ms \<subseteq> set pg" and sub: "set pg \<subseteq> set H"
    and rest: "\<And>x. x \<in> set H \<Longrightarrow> hm_id x \<in> I \<or> x \<in> set (m # ms) \<or> hm_time x < hm_time (hd pg)"
    using inv by (auto simp: chat_inv_def)
  have hd: "hm_time (hd pg) \<le> hm_time x" if "x \<in> set pg" for x
    using that ms(2) by (cases pg) (auto simp: ordered_Cons less_imp_le)
  have early: "hm_id x \<in> insert (hm_id m) I" if "x \<in> set H" "hm_time (hd pg) \<le> hm_time x" "hm_time x \<le> hm_time m" for x
    using rest [OF that(1)] that(2,3) ms(1) by (auto simp: ordered_Cons)
  show ?thesis
  proof (cases C)
    case None
    let ?I = "insert (hm_id m) I" and ?st = "cursor_at (hm_id m) (hm_time m)"
    have C': "advanced (hm_id m) (hm_time m) C = Some ?st" by (simp add: advanced_def None)
    have mH: "m \<in> set H" using mpg sub by blast
    have "cursor_ok H (Some ?st)" using mH by (auto simp: cursor_ok_def cursor_at_def)
    moreover have "no_gap H ?I (Some ?st)" using early hd [OF mpg(1)] by (auto simp: no_gap_def cursor_at_def)
    moreover have "k \<longrightarrow> all_stored H ?I (Some ?st)" using inv None by (auto simp: chat_defs)
    moreover have "pass_ok H ?I (Some ?st) (Seeding chat ms pg)"
      using ms mpg sub rest hd [OF mpg(1)] by (auto simp: ordered_Cons cursor_at_def)
    ultimately show ?thesis by (simp add: chat_inv_def C')
  next
    case (Some st)
    define st' where "st' = (if newer_than (hm_time m) (cu_newest_time_ms st)
      then st\<lparr>cu_newest_time_ms := Some (hm_time m), cu_newest_message_id := Some (hm_id m)\<rparr> else st)"
    have C': "advanced (hm_id m) (hm_time m) C = Some st'" by (simp add: advanced_def Some st'_def)
    have b: "before_oldest (Some st') x = before_oldest C x" for x by (simp add: before_oldest_def Some st'_def)
    have o': "hm_time (hd pg) \<le> the (cu_oldest_time_ms st)" "cu_oldest_time_ms st' = cu_oldest_time_ms st"
      using inv Some mpg(1) by (auto simp: chat_inv_def st'_def)
    have "cursor_ok H (Some st')" using inv mpg sub Some by (auto simp: chat_inv_def cursor_ok_def st'_def)
    moreover have "no_gap H (insert (hm_id m) I) (Some st')"
    proof (cases "newer_than (hm_time m) (cu_newest_time_ms st)")
      case False
      then show ?thesis using inv Some by (auto simp: chat_inv_def no_gap_def st'_def)
    next
      case True
      then show ?thesis using early o' by (auto simp: no_gap_def st'_def)
    qed
    moreover have "k \<longrightarrow> all_stored H (insert (hm_id m) I) (Some st')"
      using inv by (auto simp: chat_inv_def all_stored_def b)
    moreover have "pass_ok H (insert (hm_id m) I) (Some st') (Seeding chat ms pg)"
      using ms mpg sub rest o' by (auto simp: ordered_Cons)
    ultimately show ?thesis by (simp add: chat_inv_def C')
  qed
qed

lemma inv_end_seed:
  assumes inv: "chat_inv H I C k (Seeding chat [] pg)"
  shows "chat_inv H I (case pg of [] \<Rightarrow> C | m # ms \<Rightarrow> extended_back (hm_id (oldest_of m ms)) (hm_time (oldest_of m ms)) C) k (Finishing chat)"
proof (cases pg)
  case Nil
  then show ?thesis using inv by (auto simp: chat_inv_def all_stored_def)
next
  case (Cons m ms)
  have m: "oldest_of m ms = m" using inv Cons by (intro oldest_of_hd) (auto simp: chat_inv_def)
  have all: "hm_id x \<in> I" if "x \<in> set H" "hm_time m \<le> hm_time x" for x using inv that Cons by (auto simp: chat_inv_def)
  show ?thesis
  proof (cases C)
    case None
    then show ?thesis using inv all unfolding Cons m list.case
      by (auto simp: chat_defs extended_back_def older_than_def no_cursor_def Let_def not_le)
  next
    case st: (Some st)
    obtain o' where o': "cu_oldest_time_ms st = Some o'" "hm_time m \<le> o'" using inv st Cons by (auto simp: chat_inv_def cursor_ok_def)
    show ?thesis using inv st o' all unfolding Cons m list.case
      by (auto simp: chat_defs extended_back_def older_than_def Let_def not_le)
  qed
qed

lemma inv_mark: "chat_inv H I C k (Finishing chat) \<Longrightarrow> chat_inv H I C True Idle"
  by (simp add: chat_inv_def)

subsection \<open>Failures\<close>

text \<open>
  A store that fails changes nothing in the tables; the invariant holds for the ids stored or
  skipped. After the loss of the connection the history goes on without us.
\<close>

lemma inv_live_fails:
  assumes inv: "chat_inv H I C k p" and m: "\<forall>q \<in> set H. hm_time q < hm_time m"
  shows "chat_inv (H @ [m]) (insert (hm_id m) I) C k p"
  using inv m pass_ok_later [of H I C p m "insert (hm_id m) I"] by (fastforce simp: chat_defs)

lemma inv_put_fails:
  "chat_inv H I C k (Forward chat c seen (m # ms) got) \<Longrightarrow> chat_inv H (insert (hm_id m) I) C k (Forward chat c seen ms got)"
  by (auto simp: chat_defs ordered_Cons)

lemma inv_put_seed_fails:
  "chat_inv H I C k (Seeding chat (m # ms) pg) \<Longrightarrow> chat_inv H (insert (hm_id m) I) C k (Seeding chat ms pg)"
  by (auto simp: chat_defs ordered_Cons)

lemma inv_later:
  assumes "chat_inv H I C k p" and "ordered (H @ R)"
  shows "chat_inv (H @ R) I C False Idle"
  using assms(2)
proof (induction R rule: rev_induct)
  case Nil
  then show ?case using inv_drop [OF assms(1)] by simp
next
  case (snoc m R)
  then have "ordered (H @ R)" "\<forall>q \<in> set (H @ R). hm_time q < hm_time m"
    using ordered_snoc [of "H @ R" m] by simp_all
  then show ?case using inv_missed [OF snoc.IH] by simp
qed

lemma inv_no_gap:
  assumes "chat_inv H I C k p" and "ordered (H @ R)"
  shows "no_gap (H @ R) I C"
  using inv_later [OF assms] by (simp add: chat_inv_def)

end
