(* ===== verification/Max_Sync_Props.thy ===== *)
theory Max_Sync_Props
  imports Max_Sync_Facts
begin

text \<open>
  Properties of the account's history: merging copies of a message, the tables as a refinement of
  the abstract history, and what the forward loop and the catch-up pass reach.
\<close>

subsection \<open>An account for examples\<close>

definition demo_env :: store_env where
  "demo_env = \<lparr>se_srt = (\<lambda>xs. xs), se_mid = (\<lambda>d. d), se_saved = ''Saved'', se_now = 0\<rparr>"

definition demo_norm :: "int \<Rightarrow> hmsg \<Rightarrow> message_row" where
  "demo_norm chat m = \<lparr>mr_external_id = hm_id m, mr_sent_at = hm_time m * 1000, mr_sender_external_id = None,
     mr_sender_chat_external_id = None, mr_reply_to_external_id = None, mr_forward_from_chat_external_id = None,
     mr_forward_from_message_external_id = None, mr_message_type = ''text'', mr_text = Some ''x'',
     mr_text_html = None, mr_is_edited = False, mr_edited_at = None, mr_deleted_at = None, mr_views = None,
     mr_raw = None, mr_is_outgoing_hint = None, mr_media = []\<rparr>"

definition demo_ask :: "hmsg list \<Rightarrow> nat \<Rightarrow> int \<Rightarrow> int option \<Rightarrow> nat \<Rightarrow> nat \<Rightarrow> failure + hmsg list" where
  "demo_ask hs k chat from fwd bwd = Inr (case from of
     None \<Rightarrow> drop (length hs - bwd) hs
   | Some c \<Rightarrow> if bwd = 0 then take fwd (filter (\<lambda>m. c \<le> hm_time m) hs)
               else (let old = filter (\<lambda>m. hm_time m \<le> c) hs in drop (length old - bwd) old))"

definition demo_sync :: "hmsg list \<Rightarrow> account_tables sync_env" where
  "demo_sync hs = max_sync_env demo_env demo_norm (\<lambda>_ _. ''group'') (\<lambda>_ _ _. False) (demo_ask hs) (\<lambda>_ db. db)"

definition demo_empty :: account_tables where
  "demo_empty = \<lparr>at_account_id = 1, at_platform = ''max'', at_self = Some 100,
     at_people = \<lparr>pd_people = [], pd_identities = [], pd_users = [], pd_log = [], pd_next_person = 1,
       pd_next_identity = 1, pd_next_user = 1\<rparr>,
     at_chats = [], at_messages = [], at_media = [], at_states = [], at_next_chat = 1, at_next_message = 1\<rparr>"

text \<open>The tables with one message, at the cursor of chat 5.\<close>

definition demo_at :: "int \<Rightarrow> int \<Rightarrow> account_tables" where
  "demo_at i t = snd (store_history demo_env demo_norm (\<lambda>_ _. ''group'') False 5 \<lparr>hm_id = i, hm_time = t\<rparr> demo_empty)"

lemma demo_empty_ok: "tables_ok demo_empty"
  by (simp add: tables_ok_def chats_ok_def messages_ok_def states_ok_def demo_empty_def)

lemma demo_stores: "fst (store_history demo_env demo_norm kind False chat m db)"
  by (auto simp: store_history_def store_message_def Let_def store_sender_def demo_norm_def split: prod.splits option.splits)

lemma demo_sync_stores: "\<forall>k m s. fst (sv_store (demo_sync hs) k chat m s)"
  by (simp add: demo_sync_def max_sync_env_def demo_stores)

lemma demo_pages: "pages_forward (demo_sync hs) chat (\<lambda>_. hs)"
  by (auto simp: pages_forward_def demo_sync_def max_sync_env_def demo_ask_def)

lemma demo_storable: "0 < hm_time m \<Longrightarrow> storable demo_norm chat m"
  by (simp add: storable_def demo_norm_def)

lemma demo_keep: "message_store.keep (demo_sync hs) tables_ok view"
  unfolding demo_sync_def max_history.keep_def by (simp add: max_sync_env_def)

lemma demo_at_facts:
  assumes "0 < t"
  shows "tables_ok (demo_at i t)" "view (demo_at i t) 5 = ({i}, Some (cursor_at i t))"
proof -
  let ?m = "\<lparr>hm_id = i, hm_time = t\<rparr>"
  have st: "sv_store (demo_sync []) 0 5 ?m demo_empty = (True, demo_at i t)"
    using demo_stores [of "\<lambda>_ _. ''group''" 5 ?m demo_empty]
    by (simp add: demo_sync_def max_sync_env_def demo_at_def prod_eq_iff)
  have v: "view demo_empty 5 = ({}, None)" by (simp add: view_def chat_pk_def get_chat_def one_or_none_def demo_empty_def)
  note s = max_history.stored [OF demo_empty_ok demo_storable [of ?m 5] st [unfolded demo_sync_def], of 5]
  show "tables_ok (demo_at i t)" using s assms by simp
  show "view (demo_at i t) 5 = ({i}, Some (cursor_at i t))" using s assms by (simp add: v add_message_def advanced_def)
qed

subsection \<open>Copies of a message\<close>

text \<open>
  The latest edit wins. Copies of one message may arrive in any order (live events, edits,
  history pages): the stored content is that of an edited copy with the latest edit time, or, if
  no copy is edited, that of the copy that came last.
\<close>

theorem latest_edit_wins:
  assumes "tables_ok db" and "pk \<in> ch_id ` set (at_chats db)"
    and "\<forall>m \<in> set (at_messages db). \<not> is_message pk e m"
    and "rows \<noteq> []" "\<forall>r \<in> set rows. mr_external_id r = e"
    and "\<forall>r \<in> set rows. mr_is_edited r \<longrightarrow> mr_edited_at r \<noteq> None"
  shows "\<exists>m \<in> set (at_messages (store_copies pk rows db)). is_message pk e m \<and>
    (\<exists>r. winning rows r \<and> content_from r m)"
  using copies_winner [of db pk e rows] assms by blast

definition copy_at :: "string \<Rightarrow> int option \<Rightarrow> message_row" where
  "copy_at t at = (demo_norm 5 \<lparr>hm_id = 9, hm_time = 20\<rparr>)\<lparr>mr_text := Some t, mr_is_edited := (at \<noteq> None), mr_edited_at := at\<rparr>"

theorem latest_edit_wins_witness:
  "\<exists>m \<in> set (at_messages (store_copies 1 [copy_at ''new'' (Some 2), copy_at ''old'' (Some 1), copy_at ''first'' None] (demo_at 1 10))).
     mg_text m = Some ''new''"
proof -
  have "chat_pk (demo_at 1 10) 5 = Some 1" by code_simp
  then have pk: "1 \<in> ch_id ` set (at_chats (demo_at 1 10))" by (rule chat_pk_Some)
  have "list_all (\<lambda>m. \<not> is_message 1 9 m) (at_messages (demo_at 1 10))" by code_simp
  then have none: "\<forall>m \<in> set (at_messages (demo_at 1 10)). \<not> is_message 1 9 m" by (simp add: list_all_iff)
  let ?rows = "[copy_at ''new'' (Some 2), copy_at ''old'' (Some 1), copy_at ''first'' None]"
  obtain m r where m: "m \<in> set (at_messages (store_copies 1 ?rows (demo_at 1 10)))" "winning ?rows r" "content_from r m"
    using latest_edit_wins [OF demo_at_facts(1) pk none, of ?rows] by (auto simp: copy_at_def demo_norm_def)
  then have "r = copy_at ''new'' (Some 2)" by (auto simp: winning_def copy_at_def split: if_splits)
  then show ?thesis using m(1,3) by (intro bexI [of _ m]) (auto simp: content_from_def copy_at_def)
qed

text \<open>
  The attachments do not follow: an older edit that is refused still replaces them.
\<close>

definition photo :: "string \<Rightarrow> media_row" where
  "photo f = \<lparr>xr_file_type = ''photo'', xr_attach_index = 0, xr_file_external_id = Some f, xr_file_unique_id = None,
     xr_file_name = None, xr_file_size = None, xr_mime_type = None\<rparr>"

lemma refused_copy_replaces_media:
  "let db = store_copies 1 [(copy_at ''new'' (Some 2))\<lparr>mr_media := [photo ''B'']\<rparr>, (copy_at ''old'' (Some 1))\<lparr>mr_media := [photo ''A'']\<rparr>]
       (demo_at 1 10)
   in map mg_text (filter (is_message 1 9) (at_messages db)) = [Some ''new''] \<and> map md_file_external_id (at_media db) = [Some ''A'']"
  by code_simp

subsection \<open>Refinement\<close>

text \<open>
  C22 Storing a message refines the abstract history: the id joins the stored ids of its chat,
  the cursor moves only when asked, to a later message only, its oldest end only when it is
  created; no other chat changes and the tables stay consistent.
\<close>

theorem store_message_refines_history:
  assumes "tables_ok db" and "0 < t" and "store_message e db ext row ct adv (Some t) = Inr (miss, db')"
  shows "tables_ok db' \<and> view db' x = (if x = ext then add_message (mr_external_id row) t adv (view db ext) else view db x)"
  using assms by (rule store_message_refines)

theorem store_message_refines_history_witness:
  "\<exists>db'. store_message demo_env (demo_at 1 10) 5 (copy_at ''a'' None) ''group'' True (Some 20) = Inr ([], db') \<and>
     view db' 5 = ({1, 9}, Some ((cursor_at 1 10)\<lparr>cu_newest_time_ms := Some 20, cu_newest_message_id := Some 9\<rparr>))"
proof -
  have "(case store_message demo_env (demo_at 1 10) 5 (copy_at ''a'' None) ''group'' True (Some 20) of Inr (x, _) \<Rightarrow> x = [] | Inl _ \<Rightarrow> False)"
    by code_simp
  then obtain db' where s: "store_message demo_env (demo_at 1 10) 5 (copy_at ''a'' None) ''group'' True (Some 20) = Inr ([], db')"
    by (auto split: sum.splits)
  have "mr_external_id (copy_at ''a'' None) = 9" by (simp add: copy_at_def demo_norm_def)
  then have "view db' 5 = add_message 9 20 True (view (demo_at 1 10) 5)"
    using store_message_refines_history [OF demo_at_facts(1) _ s, of 5] by simp
  then show ?thesis using s demo_at_facts(2) [of 10 1]
    by (auto simp: add_message_def advanced_def cursor_at_def newer_than_def)
qed

subsection \<open>The forward loop\<close>






text \<open>
  Two messages in one millisecond defeat the forward loop: with the cursor at the first of two
  messages of equal time at the end of the chat it asks again and again, stores the two in turn,
  and reports its whole limit although one message is new.
\<close>

theorem equal_times_repeat:
  assumes "\<forall>k m s. fst (sv_store (max_sync_env e norm kind fails ask others) k chat m s)"
    and "pages_forward (max_sync_env e norm kind fails ask others) chat (\<lambda>_. [a, b])"
    and "hm_time a = c" "hm_time b = c" "hm_id a \<noteq> hm_id b"
    and "load_cursor s chat = Some st" "cu_newest_time_ms st = Some c" "cu_newest_message_id st = Some (hm_id a)"
  shows "\<exists>s'. forward limit (max_sync_env e norm kind fails ask others) chat limit k s = Some (Inr limit, k + 2 * limit, s')"
proof -
  have st: "snd (view s chat) = Some st" using assms(6) by (simp add: load_cursor_view)
  obtain s1 where "forward_loop limit (max_sync_env e norm kind fails ask others) chat limit k c (seen_ids st) 0 s
      = Some (Inr limit, k + 2 * limit, s1)"
    using max_history.ping_pong [OF assms(1-5), of "hm_id a" 0 limit limit k s] assms(8) by (auto simp: seen_ids_def)
  then show ?thesis by (simp add: max_history.forward_cases [OF st assms(7)])
qed

theorem equal_times_repeat_witness:
  "\<exists>s'. forward 7 (demo_sync [\<lparr>hm_id = 1, hm_time = 10\<rparr>, \<lparr>hm_id = 2, hm_time = 10\<rparr>]) 5 7 0 (demo_at 1 10) = Some (Inr 7, 14, s')"
proof -
  have "load_cursor (demo_at 1 10) 5 = Some (cursor_at 1 10)" using demo_at_facts(2) [of 10 1] by (simp add: load_cursor_view)
  then show ?thesis
    using equal_times_repeat [OF demo_sync_stores [unfolded demo_sync_def] demo_pages [unfolded demo_sync_def],
        of "\<lparr>hm_id = 1, hm_time = 10\<rparr>" 10 "\<lparr>hm_id = 2, hm_time = 10\<rparr>" "demo_at 1 10" 5 "cursor_at 1 10" 7 0]
    unfolding demo_sync_def by (simp add: cursor_at_def)
qed

subsection \<open>The catch-up pass\<close>

text \<open>
  The catch-up pass takes a chat for caught up although its limit cut it short: when MAX has
  more than 10,000 messages newer than the cursor, some of them is not stored after the pass, the
  chat counts as caught up nevertheless and the pass reports no backlog for it.
\<close>

theorem catch_up_limit_leaves_a_gap:
  fixes e norm kind fails ask others
  defines "v \<equiv> max_sync_env e norm kind fails ask others"
  assumes ok: "\<forall>k m s. fst (sv_store v k chat m s)" and quiet: "\<forall>k s. others k s = s"
    and H: "pages_forward v chat (\<lambda>_. ms)" "\<forall>m \<in> set ms. storable norm chat m"
    and st: "load_cursor (ss_tables ss) chat = Some st" "cu_newest_time_ms st = Some c" and inv: "tables_ok (ss_tables ss)"
    and many: "CATCHUP_LIMIT < card (hm_id ` {m \<in> set ms. c < hm_time m} - fst (view (ss_tables ss) chat))"
    and fuel: "CATCHUP_LIMIT \<le> fuel"
  shows "\<exists>ss'. catch_up_chats fuel v n [(chat, Some st')] ss = Some (Inr 0, ss') \<and> chat \<in> set (ss_caught_up ss') \<and>
    (\<exists>m \<in> set ms. c < hm_time m \<and> hm_id m \<notin> fst (view (ss_tables ss') chat))"
proof -
  have vs: "snd (view (ss_tables ss) chat) = Some st" using st(1) by (simp add: load_cursor_view)
  have quiet': "\<forall>k s. sv_others v k s = s" using quiet by (simp add: v_def max_sync_env_def)
  obtain l k s where f: "forward fuel v chat CATCHUP_LIMIT (ss_requests ss) (ss_tables ss) = Some (Inr l, k, s)"
    using max_history.forward_returns [OF ok [unfolded v_def] vs st(2) H(1) [unfolded v_def] fuel] unfolding v_def by blast
  let ?ss = "ss\<lparr>ss_tables := sv_mark_catchup v s chat, ss_requests := k, ss_caught_up := List.insert chat (ss_caught_up ss)\<rparr>"
  have "catch_up_chats fuel v n [(chat, Some st')] ss = Some (Inr 0, ?ss)"
    by (simp add: catch_up_chat_def f)
  moreover have "tables_ok s"
  proof -
    obtain s1 where l: "forward_loop fuel v chat CATCHUP_LIMIT (ss_requests ss) c (seen_ids st) 0 (ss_tables ss) = Some (Inr l, k, s1)"
      and s: "s = sv_finish v s1 chat None"
      using f unfolding v_def max_history.forward_cases [OF vs st(2)] by (auto split: option.splits sum.splits)
    have "tables_ok s1"
      using max_history.forward_loop_adds [OF quiet' [unfolded v_def] H(1) [unfolded v_def] _ l [unfolded v_def] inv] H(2) by simp
    then show ?thesis unfolding s v_def using max_history.finished by blast
  qed
  then have "view (sv_mark_catchup v s chat) chat = view s chat" unfolding v_def using max_history.marked by blast
  moreover have "\<exists>m \<in> set ms. c < hm_time m \<and> hm_id m \<notin> fst (view s chat)"
    using max_history.forward_leaves_out [OF quiet' [unfolded v_def] H(1) [unfolded v_def] _ vs st(2) inv f [unfolded v_def] many] H(2)
    by simp
  ultimately show ?thesis by (intro exI [of _ ?ss]) simp
qed

definition crowd :: "hmsg list" where
  "crowd = map (\<lambda>i. \<lparr>hm_id = int i + 2, hm_time = int i + 11\<rparr>) [0..<10001]"

theorem catch_up_limit_leaves_a_gap_witness:
  "\<exists>ss'. catch_up_chats 10000 (demo_sync crowd) 50 [(5, Some (cursor_at 1 10))]
       \<lparr>ss_tables = demo_at 1 10, ss_caught_up = [], ss_requests = 0, ss_backlog = 0\<rparr> = Some (Inr 0, ss') \<and>
     5 \<in> set (ss_caught_up ss') \<and> (\<exists>m \<in> set crowd. 10 < hm_time m \<and> hm_id m \<notin> fst (view (ss_tables ss') 5))"
proof -
  have v: "view (demo_at 1 10) 5 = ({1}, Some (cursor_at 1 10))" by (rule demo_at_facts) simp
  have "{m \<in> set crowd. 10 < hm_time m} = set crowd" by (auto simp: crowd_def)
  moreover have "hm_id ` set crowd = (\<lambda>i. int i + 2) ` {0..<10001}" by (simp add: crowd_def image_image)
  moreover have "1 \<notin> (\<lambda>i. int i + 2) ` {0..<10001}" by auto
  ultimately have "hm_id ` {m \<in> set crowd. 10 < hm_time m} - {1} = (\<lambda>i. int i + 2) ` {0..<10001}" by simp
  moreover have "card ((\<lambda>i. int i + 2) ` {0..<10001}) = 10001"
    by (subst card_image) (simp_all add: inj_on_def)
  ultimately have many: "CATCHUP_LIMIT < card (hm_id ` {m \<in> set crowd. 10 < hm_time m} - {1})"
    by (simp add: CATCHUP_LIMIT_def)
  have "\<forall>m \<in> set crowd. storable demo_norm 5 m" by (auto simp: crowd_def storable_def demo_norm_def)
  then show ?thesis
    using catch_up_limit_leaves_a_gap [of demo_env demo_norm "\<lambda>_ _. ''group''" "\<lambda>_ _ _. False" "demo_ask crowd" "\<lambda>_ db. db" 5
        crowd "\<lparr>ss_tables = demo_at 1 10, ss_caught_up = [], ss_requests = 0, ss_backlog = 0\<rparr>" "cursor_at 1 10" 10 10000 50 "cursor_at 1 10"]
      demo_sync_stores [of crowd] demo_pages [of crowd 5] demo_at_facts(1) [of 10 1] v many unfolding demo_sync_def
    by (simp add: load_cursor_view cursor_at_def CATCHUP_LIMIT_def)
qed

text \<open>
  The backward loop has its own trouble with equal times: a message that shares its millisecond
  with the oldest stored one is never taken, and the chat counts as fully synced.
\<close>

lemma backward_skips_equal_time:
  "case backward 9 (demo_sync [\<lparr>hm_id = 2, hm_time = 10\<rparr>, \<lparr>hm_id = 1, hm_time = 10\<rparr>]) 5 9 None 0 (demo_at 1 10) of
     Some (Inr n, _, db) \<Rightarrow> n = 0 \<and> map mg_external_id (at_messages db) = [1] \<and> map sy_is_fully_synced (at_states db) = [True]
   | _ \<Rightarrow> False"
  by code_simp

end
