(* ===== verification/Max_Connection_Props.thy ===== *)
theory Max_Connection_Props
  imports Max_Connection_Facts Max_Sync_Props
begin

text \<open>
  The invariant of the protocol and the property it is for: no gap behind the newest cursor.
\<close>

subsection \<open>The invariant of the world\<close>


















subsection \<open>The steps\<close>

















subsection \<open>Runs\<close>












end
