(* ===== verification/Max_Login.thy ===== *)
theory Max_Login
  imports Bridge_Prelude
begin

text \<open>
  Errors of MAX (\<^verbatim>\<open>app/max/errors.py\<close>) and the state of one interactive login
  (\<^verbatim>\<open>app/max/auth.py\<close>): the futures PyMax's providers wait on and the REST calls that
  resolve them. The monotonic clock counts microseconds.
\<close>

subsection \<open>Errors\<close>

text \<open>The classes the supervisor tells apart; \<open>Network_error\<close> is any of \<^verbatim>\<open>_NETWORK_ERRORS\<close>.\<close>

datatype exc_kind =
    Cancelled_error
  | Qr_expired_error
  | Max_auth_error
  | Password_attempts_error
  | Identity_mismatch_error
  | Api_error
  | Network_error
  | Other_error

text \<open>
  An exception: its class, \<^verbatim>\<open>str(exc)\<close>, and for an API error the attributes \<^verbatim>\<open>error\<close>
  and \<^verbatim>\<open>message\<close>.
\<close>

record exc =
  ex_kind :: exc_kind
  ex_type :: string
  ex_text :: string
  ex_api :: bool                \<comment> \<open>has the attributes opcode and error\<close>
  ex_error :: "string option"
  ex_message :: "string option"

definition UNAUTHORIZED_CODES :: "string list" where
  "UNAUTHORIZED_CODES = [''FAIL_LOGIN_TOKEN'', ''FAIL_LOGOUT_ALL'']"

definition BAN_WORDS :: "string list" where
  "BAN_WORDS = [''ban'', ''banned'', ''block'', ''blocked'', ''suspend'', ''suspended'', ''restricted'']"

definition texts :: "exc \<Rightarrow> string list" where
  "texts x = concat (map (\<lambda>t. case t of Some s \<Rightarrow> if s = [] then [] else [s] | None \<Rightarrow> []) [ex_error x, ex_message x])"

definition is_unauthorized :: "exc \<Rightarrow> bool" where
  "is_unauthorized x \<longleftrightarrow> ex_api x \<and> list_ex (\<lambda>code. code \<in> set (texts x)) UNAUTHORIZED_CODES"

definition is_letter :: "char \<Rightarrow> bool" where
  "is_letter c = (let n = (of_char c :: nat) in 97 \<le> n \<and> n \<le> 122)"

text \<open>\<^verbatim>\<open>re.split(r"[^a-z]+", s)\<close>; empty pieces are no ban words.\<close>

fun split_words :: "string \<Rightarrow> string \<Rightarrow> string list" where
  "split_words w [] = [w]"
| "split_words w (c # cs) = (if is_letter c then split_words (w @ [c]) cs else w # split_words [] cs)"

definition is_banned :: "exc \<Rightarrow> bool" where
  "is_banned x \<longleftrightarrow> ex_api x \<and> \<not> is_unauthorized x \<and>
    list_ex (\<lambda>w. w \<in> set BAN_WORDS) (split_words [] (lower (join_with '' '' (texts x))))"

fun has_infix :: "string \<Rightarrow> string \<Rightarrow> bool" where
  "has_infix p [] = (p = [])"
| "has_infix p (c # cs) = (starts_with (c # cs) p \<or> has_infix p cs)"

definition is_chat_denied :: "exc \<Rightarrow> bool" where
  "is_chat_denied x \<longleftrightarrow> ex_api x \<and> list_ex (has_infix ''chat.denied'') (texts x)"

subsection \<open>The login controller\<close>

definition PASSWORD_MAX_ATTEMPTS :: int where
  "PASSWORD_MAX_ATTEMPTS = 3"

definition PASSWORD_TIMEOUT :: usec where
  "PASSWORD_TIMEOUT = seconds 600"

definition CODE_TIMEOUT :: usec where
  "CODE_TIMEOUT = seconds 600"

datatype future = Pending | Given string | Dropped

datatype login_step = Awaiting_qr | Awaiting_code | Awaiting_password

datatype login_error = Auth_timeout string | Attempts_exceeded string | Login_cancelled

record login =
  lc_method :: string
  lc_step :: "login_step option"
  lc_qr_link :: "string option"
  lc_qr_expires_at :: "usec option"
  lc_password_hint :: "string option"
  lc_password_attempts :: int
  lc_last_error :: "string option"
  lc_password_deadline :: "usec option"
  lc_code :: "future option"
  lc_password :: "future option"

definition login_controller :: "string \<Rightarrow> login option" where
  "login_controller method =
    (if method \<notin> {''qr'', ''sms''} then None
     else Some \<lparr>lc_method = method, lc_step = None, lc_qr_link = None, lc_qr_expires_at = None, lc_password_hint = None,
       lc_password_attempts = 0, lc_last_error = None, lc_password_deadline = None, lc_code = None, lc_password = None\<rparr>)"

definition on_qr :: "string \<Rightarrow> int option \<Rightarrow> login \<Rightarrow> login" where
  "on_qr link expires_at_ms l =
    (let l1 = l\<lparr>lc_qr_link := Some link\<rparr>;
         l2 = (case expires_at_ms of None \<Rightarrow> l1 | Some ms \<Rightarrow> l1\<lparr>lc_qr_expires_at := Some (ms * 1000)\<rparr>)
     in l2\<lparr>lc_step := Some Awaiting_qr\<rparr>)"

definition qr_alive :: "usec \<Rightarrow> login \<Rightarrow> bool" where
  "qr_alive now l \<longleftrightarrow> lc_step l = Some Awaiting_qr \<and> (case lc_qr_expires_at l of None \<Rightarrow> False | Some t \<Rightarrow> now < t)"

definition password_pending :: "login \<Rightarrow> bool" where
  "password_pending l \<longleftrightarrow> lc_password l = Some Pending"

definition password_attempts_left :: "login \<Rightarrow> int" where
  "password_attempts_left l = max (PASSWORD_MAX_ATTEMPTS - lc_password_attempts l) 0"

text \<open>\<^verbatim>\<open>wait_code\<close> up to its await, and from it: what the future holds when the wait ends.\<close>

definition begin_code :: "login \<Rightarrow> login" where
  "begin_code l = l\<lparr>lc_code := Some Pending, lc_step := Some Awaiting_code\<rparr>"

definition awaited :: "string \<Rightarrow> future option \<Rightarrow> login_error + string" where
  "awaited late f = (case f of Some (Given s) \<Rightarrow> Inr s | Some Pending \<Rightarrow> Inl (Auth_timeout late) | _ \<Rightarrow> Inl Login_cancelled)"

definition end_code :: "login \<Rightarrow> (login_error + string) \<times> login" where
  "end_code l = (awaited ''SMS code was not provided in time'' (lc_code l), l\<lparr>lc_code := None\<rparr>)"

text \<open>\<^verbatim>\<open>wait_password\<close> up to its await: the error it raises, or the new future.\<close>

definition begin_password :: "string option \<Rightarrow> usec \<Rightarrow> login \<Rightarrow> login_error option \<times> login" where
  "begin_password hint now l =
    (if PASSWORD_MAX_ATTEMPTS \<le> lc_password_attempts l
     then (Some (Attempts_exceeded ''password attempts exceeded''), l\<lparr>lc_last_error := Some ''password attempts exceeded''\<rparr>)
     else
       (let l1 = (case lc_password_deadline l of
              None \<Rightarrow> l\<lparr>lc_password_deadline := Some (now + PASSWORD_TIMEOUT)\<rparr>
            | Some _ \<Rightarrow> if 0 < lc_password_attempts l then l\<lparr>lc_last_error := Some ''invalid password''\<rparr> else l);
            deadline = (case lc_password_deadline l1 of None \<Rightarrow> now | Some t \<Rightarrow> t)
        in if deadline - now \<le> 0 then (Some (Auth_timeout ''2FA password was not provided in time''), l1)
           else (None, l1\<lparr>lc_password_hint := hint, lc_password := Some Pending, lc_step := Some Awaiting_password\<rparr>)))"

definition end_password :: "login \<Rightarrow> (login_error + string) \<times> login" where
  "end_password l =
    (let l1 = l\<lparr>lc_password := None\<rparr> in
     case awaited ''2FA password was not provided in time'' (lc_password l) of
       Inl err \<Rightarrow> (Inl err, l1)
     | Inr password \<Rightarrow> (Inr password, l1\<lparr>lc_password_attempts := lc_password_attempts l + 1\<rparr>))"

text \<open>The REST side.\<close>

definition give_code :: "string \<Rightarrow> login \<Rightarrow> bool \<times> login" where
  "give_code code l = (if lc_code l \<noteq> Some Pending then (False, l) else (True, l\<lparr>lc_code := Some (Given code)\<rparr>))"

definition give_password :: "string \<Rightarrow> login \<Rightarrow> bool \<times> login" where
  "give_password password l =
    (if lc_password l \<noteq> Some Pending then (False, l) else (True, l\<lparr>lc_password := Some (Given password)\<rparr>))"

definition cancel_future :: "future option \<Rightarrow> future option" where
  "cancel_future f = (case f of Some Pending \<Rightarrow> Some Dropped | _ \<Rightarrow> f)"

definition cancel_login :: "login \<Rightarrow> login" where
  "cancel_login l = l\<lparr>lc_code := cancel_future (lc_code l), lc_password := cancel_future (lc_password l)\<rparr>"

definition show_qr :: "string \<Rightarrow> login \<Rightarrow> login" where
  "show_qr qr_url l = l\<lparr>lc_qr_link := Some qr_url\<rparr>"

text \<open>\<^verbatim>\<open>RestQrAuthFlow.authenticate\<close>: PyMax's expiry becomes \<^verbatim>\<open>MaxQrExpired\<close>.\<close>

definition map_qr_expiry :: "exc \<Rightarrow> exc" where
  "map_qr_expiry x =
    (if ex_type x = ''RuntimeError'' \<and> ex_text x = ''QR authentication expired''
     then x\<lparr>ex_kind := Qr_expired_error, ex_type := ''MaxQrExpired'', ex_text := ''QR expired before it was confirmed''\<rparr>
     else x)"

subsection \<open>A login as a run\<close>

text \<open>
  PyMax asks for codes and passwords in any order, the REST side answers, time passes. The wait
  for a password ends no later than its deadline: time does not pass it while the future is
  pending. \<open>handed\<close> are the passwords PyMax got, each with the time it was given.
\<close>

record login_world =
  lw_login :: login
  lw_now :: usec
  lw_given_at :: usec
  lw_handed :: "(usec \<times> string) list"
  lw_first :: "usec option"   \<comment> \<open>time of the first prompt\<close>

inductive login_run :: "login_world \<Rightarrow> login_world \<Rightarrow> bool" where
  pass_time: "\<lbrakk>0 \<le> d; \<forall>t. lc_password (lw_login w) = Some Pending \<longrightarrow> lc_password_deadline (lw_login w) = Some t \<longrightarrow> lw_now w + d \<le> t\<rbrakk> \<Longrightarrow>
     login_run w (w\<lparr>lw_now := lw_now w + d\<rparr>)"
| ask_code: "lc_password (lw_login w) = None \<Longrightarrow> login_run w (w\<lparr>lw_login := begin_code (lw_login w)\<rparr>)"
| got_code: "login_run w (w\<lparr>lw_login := snd (end_code (lw_login w))\<rparr>)"
| qr: "login_run w (w\<lparr>lw_login := on_qr link ex (lw_login w)\<rparr>)"
| ask_password: "lc_password (lw_login w) = None \<Longrightarrow>
     login_run w (w\<lparr>lw_login := snd (begin_password hint (lw_now w) (lw_login w)),
       lw_first := (case lw_first w of None \<Rightarrow> Some (lw_now w) | t \<Rightarrow> t)\<rparr>)"
| give: "lc_password (lw_login w) = Some Pending \<Longrightarrow>
     login_run w (w\<lparr>lw_login := snd (give_password p (lw_login w)), lw_given_at := lw_now w\<rparr>)"
| got_password: "\<lbrakk>lc_password (lw_login w) \<noteq> None; end_password (lw_login w) = (r, l)\<rbrakk> \<Longrightarrow>
     login_run w (w\<lparr>lw_login := l, lw_handed := (case r of Inr p \<Rightarrow> lw_handed w @ [(lw_given_at w, p)] | Inl _ \<Rightarrow> lw_handed w)\<rparr>)"
| code_given: "login_run w (w\<lparr>lw_login := snd (give_code c (lw_login w))\<rparr>)"
| cancelled: "login_run w (w\<lparr>lw_login := cancel_login (lw_login w)\<rparr>)"

definition login_start :: "login_world \<Rightarrow> bool" where
  "login_start w \<longleftrightarrow> login_controller (lc_method (lw_login w)) = Some (lw_login w) \<and> lw_handed w = [] \<and> lw_first w = None"

end
