(* ===== verification/Session_Store.thy ===== *)
theory Session_Store
  imports Bridge_Prelude
begin

text \<open>
  The stored MAX session (\<^verbatim>\<open>app/max/store.py\<close>): the JSON v1 of a session, the rows of
  \<^verbatim>\<open>account_sessions\<close>, \<^verbatim>\<open>PgSessionStore\<close> and the in-memory \<^verbatim>\<open>SeededStore\<close>
  of an import. What PyMax's \<^verbatim>\<open>SessionInfo\<close> does (dump, validate, its fields) and the JSON
  text itself are parameters.
\<close>

record 'i pymax =
  pm_version :: string
  pm_dump :: "'i \<Rightarrow> dict"                       \<comment> \<open>info.model_dump\<close>
  pm_validate :: "dict \<Rightarrow> string + 'i"          \<comment> \<open>SessionInfo.model_validate\<close>
  pm_token :: "'i \<Rightarrow> string"
  pm_device_id :: "'i \<Rightarrow> string"
  pm_phone :: "'i \<Rightarrow> string option"
  pm_with_token :: "'i \<Rightarrow> string \<Rightarrow> 'i"          \<comment> \<open>model_copy(update=...)\<close>
  pm_dumps :: "json \<Rightarrow> string"                  \<comment> \<open>json.dumps\<close>
  pm_loads :: "string \<Rightarrow> json option"           \<comment> \<open>json.loads, None when it raises\<close>
  pm_float :: "string \<Rightarrow> int option"            \<comment> \<open>the integer a float literal equals\<close>

subsection \<open>JSON v1\<close>

definition TRANSPORTS :: "string list" where
  "TRANSPORTS = [''web'', ''tcp'']"

datatype format_error =
    Not_json
  | Unsupported_version
  | Unknown_transport "json option"
  | Other_transport string string
  | No_token
  | Invalid_fields string

text \<open>The truth value of a member read with \<^verbatim>\<open>dict.get\<close>.\<close>

fun truthy :: "'i pymax \<Rightarrow> json \<Rightarrow> bool" where
  "truthy pm JNull = False"
| "truthy pm (JBool b) = b"
| "truthy pm (JInt i) = (i \<noteq> 0)"
| "truthy pm (JFloat s) = (pm_float pm s \<noteq> Some 0)"
| "truthy pm (JStr s) = (s \<noteq> [])"
| "truthy pm (JList xs) = (xs \<noteq> [])"
| "truthy pm (JObj kvs) = (kvs \<noteq> [])"

definition has_value :: "'i pymax \<Rightarrow> dict \<Rightarrow> string \<Rightarrow> bool" where
  "has_value pm d k = (case map_of d k of None \<Rightarrow> False | Some v \<Rightarrow> truthy pm v)"

text \<open>\<^verbatim>\<open>data.get("v") == 1\<close>: True and 1.0 equal 1 in Python.\<close>

definition version_ok :: "'i pymax \<Rightarrow> json option \<Rightarrow> bool" where
  "version_ok pm v = (case v of Some (JInt i) \<Rightarrow> i = 1 | Some (JBool b) \<Rightarrow> b
     | Some (JFloat s) \<Rightarrow> pm_float pm s = Some 1 | _ \<Rightarrow> False)"

text \<open>\<^verbatim>\<open>dict.update\<close>: a new value for a key that is there, a new member otherwise.\<close>

definition dict_put :: "dict \<Rightarrow> string \<times> json \<Rightarrow> dict" where
  "dict_put d kv = (if fst kv \<in> fst ` set d then map (\<lambda>(k, v). if k = fst kv then kv else (k, v)) d else d @ [kv])"

definition session_dict :: "'i pymax \<Rightarrow> 'i \<Rightarrow> string \<Rightarrow> dict" where
  "session_dict pm info transport =
    dict_put (foldl dict_put [(''v'', JInt 1), (''transport'', JStr transport)] (pm_dump pm info))
      (''pymax'', JStr (pm_version pm))"

definition session_to_json :: "'i pymax \<Rightarrow> 'i \<Rightarrow> string \<Rightarrow> string" where
  "session_to_json pm info transport = pm_dumps pm (JObj (session_dict pm info transport))"

definition session_fields :: "dict \<Rightarrow> dict" where
  "session_fields d = filter (\<lambda>(k, v). k \<notin> {''v'', ''transport'', ''pymax''}) d"

definition parse_session_json :: "'i pymax \<Rightarrow> string \<Rightarrow> string option \<Rightarrow> format_error + string \<times> 'i" where
  "parse_session_json pm raw expected =
    (case pm_loads pm raw of
       None \<Rightarrow> Inl Not_json
     | Some (JObj d) \<Rightarrow>
         if \<not> version_ok pm (map_of d ''v'') then Inl Unsupported_version
         else (case map_of d ''transport'' of
             Some (JStr transport) \<Rightarrow>
               if transport \<notin> set TRANSPORTS then Inl (Unknown_transport (Some (JStr transport)))
               else if expected \<noteq> None \<and> expected \<noteq> Some transport then Inl (Other_transport transport (the expected))
               else if \<not> has_value pm d ''token'' \<or> \<not> has_value pm d ''device_id'' then Inl No_token
               else (case pm_validate pm (session_fields d) of
                   Inl msg \<Rightarrow> Inl (Invalid_fields msg)
                 | Inr info \<Rightarrow> Inr (transport, info))
           | t \<Rightarrow> Inl (Unknown_transport t))
     | Some _ \<Rightarrow> Inl Unsupported_version)"

subsection \<open>The rows\<close>

record session_row =
  sr_account_id :: int
  sr_plaintext :: "string option"
  sr_authorized_at :: "usec option"
  sr_last_connected_at :: "usec option"
  sr_is_active :: bool

type_synonym session_rows = "session_row list"

definition is_active_of :: "int \<Rightarrow> session_row \<Rightarrow> bool" where
  "is_active_of account r \<longleftrightarrow> sr_account_id r = account \<and> sr_is_active r"

definition active_row :: "session_rows \<Rightarrow> int \<Rightarrow> session_row option" where
  "active_row rows account = one_or_none (is_active_of account) rows"

definition load_raw :: "session_rows \<Rightarrow> int \<Rightarrow> string option" where
  "load_raw rows account = (case active_row rows account of None \<Rightarrow> None | Some r \<Rightarrow> sr_plaintext r)"

definition load_stored_transport :: "'i pymax \<Rightarrow> session_rows \<Rightarrow> int \<Rightarrow> string option" where
  "load_stored_transport pm rows account =
    (case load_raw rows account of
       None \<Rightarrow> None
     | Some raw \<Rightarrow> (case parse_session_json pm raw None of Inl _ \<Rightarrow> None | Inr (transport, _) \<Rightarrow> Some transport))"

definition deactivate_session :: "session_rows \<Rightarrow> int \<Rightarrow> session_rows" where
  "deactivate_session rows account =
    (case active_row rows account of
       None \<Rightarrow> rows
     | Some _ \<Rightarrow> update_rows (is_active_of account) (\<lambda>r. r\<lparr>sr_plaintext := None, sr_is_active := False\<rparr>) rows)"

subsection \<open>PgSessionStore\<close>

text \<open>\<open>now\<close> is the clock of the call.\<close>

definition reauthorized :: "'i pymax \<Rightarrow> session_row \<Rightarrow> 'i \<Rightarrow> bool" where
  "reauthorized pm r info =
    (case sr_plaintext r of
       None \<Rightarrow> False
     | Some raw \<Rightarrow> raw \<noteq> [] \<and>
         (case parse_session_json pm raw None of Inl _ \<Rightarrow> True | Inr (_, old) \<Rightarrow> pm_token pm old \<noteq> pm_token pm info))"

definition save_session :: "'i pymax \<Rightarrow> int \<Rightarrow> string \<Rightarrow> usec \<Rightarrow> 'i \<Rightarrow> session_rows \<Rightarrow> session_rows" where
  "save_session pm account transport now info rows =
    (let payload = session_to_json pm info transport in
     case active_row rows account of
       None \<Rightarrow> rows @ [\<lparr>sr_account_id = account, sr_plaintext = Some payload, sr_authorized_at = Some now,
                          sr_last_connected_at = Some now, sr_is_active = True\<rparr>]
     | Some row \<Rightarrow> update_rows (is_active_of account) (\<lambda>r.
         (if reauthorized pm row info then r\<lparr>sr_authorized_at := Some now\<rparr> else r)
           \<lparr>sr_plaintext := Some payload, sr_last_connected_at := Some now\<rparr>) rows)"

definition load_session :: "'i pymax \<Rightarrow> int \<Rightarrow> string \<Rightarrow> session_rows \<Rightarrow> 'i option" where
  "load_session pm account transport rows =
    (case load_raw rows account of
       None \<Rightarrow> None
     | Some raw \<Rightarrow> (case parse_session_json pm raw (Some transport) of Inl _ \<Rightarrow> None | Inr (_, info) \<Rightarrow> Some info))"

definition update_token :: "'i pymax \<Rightarrow> int \<Rightarrow> string \<Rightarrow> usec \<Rightarrow> string \<Rightarrow> string \<Rightarrow> session_rows \<Rightarrow> session_rows" where
  "update_token pm account transport now old new rows =
    (case load_session pm account transport rows of
       None \<Rightarrow> rows
     | Some current \<Rightarrow>
         if pm_token pm current \<noteq> old then rows
         else save_session pm account transport now (pm_with_token pm current new) rows)"

definition load_session_by_device_id :: "'i pymax \<Rightarrow> int \<Rightarrow> string \<Rightarrow> string \<Rightarrow> session_rows \<Rightarrow> 'i option" where
  "load_session_by_device_id pm account transport device_id rows =
    (case load_session pm account transport rows of
       None \<Rightarrow> None | Some info \<Rightarrow> if pm_device_id pm info = device_id then Some info else None)"

definition load_session_by_phone :: "'i pymax \<Rightarrow> int \<Rightarrow> string \<Rightarrow> string \<Rightarrow> session_rows \<Rightarrow> 'i option" where
  "load_session_by_phone pm account transport phone rows =
    (case load_session pm account transport rows of
       None \<Rightarrow> None | Some info \<Rightarrow> if pm_phone pm info = Some phone then Some info else None)"

definition delete_session :: "'i pymax \<Rightarrow> int \<Rightarrow> string \<Rightarrow> string \<Rightarrow> session_rows \<Rightarrow> session_rows" where
  "delete_session pm account transport token rows =
    (case load_session pm account transport rows of
       None \<Rightarrow> rows
     | Some info \<Rightarrow> if pm_token pm info \<noteq> token then rows else deactivate_session rows account)"

subsection \<open>SeededStore\<close>

text \<open>The imported session and, once promoted, the transport of the target store.\<close>

record 'i seeded =
  sd_session :: "'i option"
  sd_target :: "string option"

definition seeded_with :: "'i \<Rightarrow> 'i seeded" where
  "seeded_with info = \<lparr>sd_session = Some info, sd_target = None\<rparr>"

definition promote :: "'i pymax \<Rightarrow> int \<Rightarrow> string \<Rightarrow> usec \<Rightarrow> 'i seeded \<times> session_rows \<Rightarrow> 'i seeded \<times> session_rows" where
  "promote pm account transport now s =
    ((fst s)\<lparr>sd_target := Some transport\<rparr>,
     case sd_session (fst s) of None \<Rightarrow> snd s | Some info \<Rightarrow> save_session pm account transport now info (snd s))"

definition seeded_save :: "'i pymax \<Rightarrow> int \<Rightarrow> usec \<Rightarrow> 'i \<Rightarrow> 'i seeded \<times> session_rows \<Rightarrow> 'i seeded \<times> session_rows" where
  "seeded_save pm account now info s =
    ((fst s)\<lparr>sd_session := Some info\<rparr>,
     case sd_target (fst s) of None \<Rightarrow> snd s | Some transport \<Rightarrow> save_session pm account transport now info (snd s))"

definition seeded_update :: "'i pymax \<Rightarrow> int \<Rightarrow> usec \<Rightarrow> string \<Rightarrow> string \<Rightarrow> 'i seeded \<times> session_rows \<Rightarrow> 'i seeded \<times> session_rows" where
  "seeded_update pm account now old new s =
    ((case sd_session (fst s) of
        None \<Rightarrow> fst s
      | Some info \<Rightarrow> if pm_token pm info = old then (fst s)\<lparr>sd_session := Some (pm_with_token pm info new)\<rparr> else fst s),
     case sd_target (fst s) of None \<Rightarrow> snd s | Some transport \<Rightarrow> update_token pm account transport now old new (snd s))"

definition seeded_load :: "'i seeded \<times> session_rows \<Rightarrow> 'i option" where
  "seeded_load s = sd_session (fst s)"

definition seeded_load_by_device_id :: "'i pymax \<Rightarrow> string \<Rightarrow> 'i seeded \<Rightarrow> 'i option" where
  "seeded_load_by_device_id pm device_id s =
    (case sd_session s of None \<Rightarrow> None | Some info \<Rightarrow> if pm_device_id pm info = device_id then Some info else None)"

definition seeded_load_by_phone :: "'i pymax \<Rightarrow> string \<Rightarrow> 'i seeded \<Rightarrow> 'i option" where
  "seeded_load_by_phone pm phone s =
    (case sd_session s of None \<Rightarrow> None | Some info \<Rightarrow> if pm_phone pm info = Some phone then Some info else None)"

definition seeded_delete :: "'i pymax \<Rightarrow> int \<Rightarrow> string \<Rightarrow> 'i seeded \<times> session_rows \<Rightarrow> 'i seeded \<times> session_rows" where
  "seeded_delete pm account token s =
    ((case sd_session (fst s) of
        None \<Rightarrow> fst s
      | Some info \<Rightarrow> if pm_token pm info = token then (fst s)\<lparr>sd_session := None\<rparr> else fst s),
     case sd_target (fst s) of None \<Rightarrow> snd s | Some transport \<Rightarrow> delete_session pm account transport token (snd s))"

end
