(* ===== verification/Max_Session.thy ===== *)
theory Max_Session
  imports Max_Login Session_Store Control_Tables
begin

text \<open>
  One MAX account (\<^verbatim>\<open>app/max/session.py\<close>): the state machine, the supervisor of the
  connection, the interactive login, import and logout, with the identity check of
  \<^verbatim>\<open>app/services/account_identity.py\<close>. PyMax is outside: how a connection attempt ends is an
  event. A REST call that awaits the supervisor is split at the await.
\<close>

datatype sstate =
    Stopped | Connecting | St_awaiting_qr | St_awaiting_code | St_awaiting_password
  | Authorized | Reconnecting | Unauthorized | Banned | Failed

fun state_name :: "sstate \<Rightarrow> string" where
  "state_name Stopped = ''stopped''"
| "state_name Connecting = ''connecting''"
| "state_name St_awaiting_qr = ''awaiting_qr''"
| "state_name St_awaiting_code = ''awaiting_code''"
| "state_name St_awaiting_password = ''awaiting_password''"
| "state_name Authorized = ''authorized''"
| "state_name Reconnecting = ''reconnecting''"
| "state_name Unauthorized = ''unauthorized''"
| "state_name Banned = ''banned''"
| "state_name Failed = ''error''"

definition BACKOFF_START :: usec where
  "BACKOFF_START = seconds 5"

definition BACKOFF_MAX :: usec where
  "BACKOFF_MAX = seconds 600"

definition STABLE_RESET :: usec where
  "STABLE_RESET = seconds 600"

text \<open>What PyMax's profile tells of the logged-in user.\<close>

record profile =
  pf_user_id :: "int option"
  pf_link :: "string option"

record session =
  ms_account_id :: int
  ms_alias :: string
  ms_phone :: string
  ms_state :: sstate
  ms_transport :: "string option"
  ms_last_error :: "string option"
  ms_profile :: "profile option"
  ms_login :: "login option"
  ms_qr_expired :: bool
  ms_caught_up :: "int list"
  ms_identity_ok :: bool
  ms_client :: bool       \<comment> \<open>_client is not None\<close>
  ms_running :: bool      \<comment> \<open>the supervisor task exists and is not done\<close>

definition new_session :: "int \<Rightarrow> string \<Rightarrow> string \<Rightarrow> session" where
  "new_session account alias phone = \<lparr>ms_account_id = account, ms_alias = alias, ms_phone = phone, ms_state = Stopped,
     ms_transport = None, ms_last_error = None, ms_profile = None, ms_login = None, ms_qr_expired = False,
     ms_caught_up = [], ms_identity_ok = False, ms_client = False, ms_running = False\<rparr>"

definition set_state :: "sstate \<Rightarrow> string option \<Rightarrow> session \<Rightarrow> session" where
  "set_state st err s =
    (let s1 = s\<lparr>ms_state := st\<rparr> in if err \<noteq> None \<or> st = Authorized then s1\<lparr>ms_last_error := err\<rparr> else s1)"

fun step_state :: "login_step \<Rightarrow> sstate" where
  "step_state Awaiting_qr = St_awaiting_qr"
| "step_state Awaiting_code = St_awaiting_code"
| "step_state Awaiting_password = St_awaiting_password"

definition on_login_step :: "session \<Rightarrow> session" where
  "on_login_step s =
    (case ms_login s of None \<Rightarrow> s
     | Some l \<Rightarrow> (case lc_step l of None \<Rightarrow> s | Some st \<Rightarrow> s\<lparr>ms_state := step_state st\<rparr>))"

definition session_client :: "session \<Rightarrow> bool" where
  "session_client s \<longleftrightarrow> ms_state s = Authorized \<and> ms_client s"

definition user_id :: "session \<Rightarrow> int option" where
  "user_id s = (case ms_profile s of None \<Rightarrow> None | Some p \<Rightarrow> pf_user_id p)"

definition username :: "session \<Rightarrow> string option" where
  "username s = (case ms_profile s of None \<Rightarrow> None | Some p \<Rightarrow> pf_link p)"

subsection \<open>The account of a session\<close>

text \<open>
  The unique key (platform, external_user_id) of accounts makes the update fail when another
  account holds the id.
\<close>

definition id_taken :: "account list \<Rightarrow> account \<Rightarrow> int \<Rightarrow> bool" where
  "id_taken accs a uid \<longleftrightarrow>
    list_ex (\<lambda>b. acc_id b \<noteq> acc_id a \<and> acc_platform b = acc_platform a \<and> acc_external_user_id b = Some uid) accs"

definition ensure_account_user :: "account list \<Rightarrow> int \<Rightarrow> int \<Rightarrow> string + account list" where
  "ensure_account_user accs account uid =
    (case account_by_id accs account of
       None \<Rightarrow> Inl (''account '' @ show_int account @ '' not found'')
     | Some a \<Rightarrow> (case acc_external_user_id a of
         Some known \<Rightarrow>
           if known \<noteq> uid
           then Inl (''session of '' @ acc_platform a @ '' user '' @ show_int uid @ '' under account '' @ quoted (acc_alias a)
                       @ '' (user '' @ show_int known @ '')'')
           else Inr accs
       | None \<Rightarrow>
           if id_taken accs a uid
           then Inl (acc_platform a @ '' user '' @ show_int uid @ '' already belongs to another account; not usable as ''
                       @ quoted (acc_alias a))
           else Inr (update_rows (\<lambda>b. acc_id b = account) (\<lambda>b. b\<lparr>acc_external_user_id := Some uid\<rparr>) accs)))"

text \<open>\<^verbatim>\<open>_on_authorized\<close>; the legacy update that fails is logged and leaves the account.\<close>

definition record_user :: "bool \<Rightarrow> int \<Rightarrow> int option \<Rightarrow> account list \<Rightarrow> string + account list" where
  "record_user new_mode account uid accs =
    (if new_mode then
       (case uid of
          None \<Rightarrow> Inl ''MAX profile has no user id''
        | Some u \<Rightarrow> (case ensure_account_user accs account u of
            Inl msg \<Rightarrow> Inl msg
          | Inr accs' \<Rightarrow> Inr (update_rows (\<lambda>b. acc_id b = account) (\<lambda>b. b\<lparr>acc_platform_user_id := Some u\<rparr>) accs')))
     else
       (case uid of
          None \<Rightarrow> Inr accs
        | Some u \<Rightarrow>
            if (case account_by_id accs account of None \<Rightarrow> False | Some a \<Rightarrow> id_taken accs a u) then Inr accs
            else Inr (update_rows (\<lambda>b. acc_id b = account)
                   (\<lambda>b. b\<lparr>acc_platform_user_id := Some u, acc_external_user_id := Some u\<rparr>) accs)))"

definition on_authorized :: "bool \<Rightarrow> profile option \<Rightarrow> session \<times> account list \<Rightarrow> (string + unit) \<times> session \<times> account list" where
  "on_authorized new_mode profile x =
    (case x of (s, accs) \<Rightarrow>
      (let s1 = s\<lparr>ms_profile := profile\<rparr> in
       case record_user new_mode (ms_account_id s) (user_id s1) accs of
         Inl msg \<Rightarrow> (Inl msg, s1, accs)
       | Inr accs' \<Rightarrow>
           (let s2 = (if new_mode then s1\<lparr>ms_identity_ok := True\<rparr> else s1)
            in (Inr (), set_state Authorized None (s2\<lparr>ms_login := None, ms_qr_expired := False\<rparr>), accs'))))"

subsection \<open>The supervisor\<close>

text \<open>The local variables of \<^verbatim>\<open>_supervise\<close>; \<open>sv_seeded\<close> is the imported session while the store is seeded.\<close>

record 'i sup =
  sv_transport :: string
  sv_seeded :: "'i option"
  sv_interactive :: bool
  sv_one_shot :: bool
  sv_backoff :: usec
  sv_was_authorized :: bool
  sv_began :: usec

datatype phase = Attempt | Serving | Pausing usec

record 'i supervised =
  sp_session :: session
  sp_accounts :: "account list"
  sp_rows :: session_rows
  sp_sup :: "('i sup \<times> phase) option"     \<comment> \<open>None: the task has ended\<close>

definition proxy_ok :: "bool \<Rightarrow> string \<Rightarrow> bool" where
  "proxy_ok require_proxy proxy_url \<longleftrightarrow> proxy_url \<noteq> [] \<or> \<not> require_proxy"

text \<open>The top of the loop up to the call of \<^verbatim>\<open>connect\<close>.\<close>

definition begin_attempt :: "usec \<Rightarrow> 'i sup \<Rightarrow> session \<Rightarrow> session \<times> 'i sup" where
  "begin_attempt now v s =
    ((set_state (if sv_was_authorized v then Reconnecting else Connecting) None s)\<lparr>ms_caught_up := [], ms_identity_ok := False\<rparr>,
     v\<lparr>sv_began := now\<rparr>)"

definition spawn ::
    "bool \<Rightarrow> string \<Rightarrow> usec \<Rightarrow> string \<Rightarrow> 'i option \<Rightarrow> bool \<Rightarrow> bool \<Rightarrow> 'i supervised \<Rightarrow> 'i supervised" where
  "spawn require_proxy proxy_url now transport seed interactive one_shot p =
    (let s = (sp_session p)\<lparr>ms_transport := Some transport\<rparr> in
     if \<not> proxy_ok require_proxy proxy_url
     then p\<lparr>sp_session := (set_state Failed (Some ''proxy required: MAX_PROXY_URL is empty and MAX_REQUIRE_PROXY=true'') s)
              \<lparr>ms_running := False\<rparr>, sp_sup := None\<rparr>
     else
       (let (s', v) = begin_attempt now \<lparr>sv_transport = transport, sv_seeded = seed, sv_interactive = interactive,
              sv_one_shot = one_shot, sv_backoff = BACKOFF_START, sv_was_authorized = False, sv_began = now\<rparr> s
        in p\<lparr>sp_session := s'\<lparr>ms_running := True\<rparr>, sp_sup := Some (v, Attempt)\<rparr>))"

text \<open>The exception handlers of the loop: the task ends with a session, or the attempt is retried.\<close>

definition final_state :: "exc \<Rightarrow> session \<Rightarrow> session option" where
  "final_state x s =
    (case ex_kind x of
       Cancelled_error \<Rightarrow> Some s
     | Qr_expired_error \<Rightarrow> Some (set_state Failed (Some (ex_text x)) (s\<lparr>ms_qr_expired := True\<rparr>))
     | Max_auth_error \<Rightarrow> Some (set_state Failed (or_else (Some (ex_text x)) (Some (ex_type x))) s)
     | Password_attempts_error \<Rightarrow> Some (set_state Failed (or_else (Some (ex_text x)) (Some (ex_type x))) s)
     | Identity_mismatch_error \<Rightarrow> Some (set_state Failed (Some (''identity mismatch: '' @ ex_text x)) s)
     | Api_error \<Rightarrow>
         if is_unauthorized x
         then Some (set_state Unauthorized (Some (''session revoked: '' @ (case ex_error x of None \<Rightarrow> ''None'' | Some e \<Rightarrow> e))) s)
         else if is_banned x then Some (set_state Banned (Some (ex_text x)) s)
         else None
     | _ \<Rightarrow> None)"

definition attempt_failed :: "exc \<Rightarrow> usec \<Rightarrow> 'i sup \<Rightarrow> 'i supervised \<Rightarrow> 'i supervised" where
  "attempt_failed x now v p =
    (let s = (sp_session p)\<lparr>ms_client := False\<rparr>;
         msg = or_else (Some (ex_text x)) (Some (ex_type x)) in
     case final_state x s of
       Some s' \<Rightarrow>
         p\<lparr>sp_session := s'\<lparr>ms_running := False\<rparr>, sp_sup := None,
           sp_rows := (if ex_kind x = Api_error \<and> is_unauthorized x \<and> sv_seeded v = None
                       then deactivate_session (sp_rows p) (ms_account_id s) else sp_rows p)\<rparr>
     | None \<Rightarrow>
         if sv_one_shot v
         then p\<lparr>sp_session := (set_state Failed msg s)\<lparr>ms_running := False\<rparr>, sp_sup := None\<rparr>
         else
           (let backoff = (if STABLE_RESET \<le> now - sv_began v then BACKOFF_START else sv_backoff v);
                network = (ex_kind x = Network_error)
            in p\<lparr>sp_session := set_state (if network \<and> sv_was_authorized v then Reconnecting else Failed) msg s,
                 sp_sup := Some (v\<lparr>sv_backoff := backoff\<rparr>, Pausing backoff)\<rparr>))"

text \<open>\<^verbatim>\<open>connect\<close> has returned and the client is connected: the login took place.\<close>

definition mismatch :: "string \<Rightarrow> exc" where
  "mismatch msg = \<lparr>ex_kind = Identity_mismatch_error, ex_type = ''IdentityMismatch'', ex_text = msg, ex_api = False,
     ex_error = None, ex_message = None\<rparr>"

definition attempt_connected :: "'i pymax \<Rightarrow> bool \<Rightarrow> usec \<Rightarrow> profile option \<Rightarrow> 'i sup \<Rightarrow> 'i supervised \<Rightarrow> 'i supervised" where
  "attempt_connected pm new_mode now profile v p =
    (let rows = (case sv_seeded v of
           None \<Rightarrow> sp_rows p
         | Some info \<Rightarrow> save_session pm (ms_account_id (sp_session p)) (sv_transport v) now info (sp_rows p));
         v' = v\<lparr>sv_seeded := None, sv_was_authorized := True, sv_one_shot := False, sv_interactive := False\<rparr>;
         p1 = p\<lparr>sp_rows := rows\<rparr>
     in case on_authorized new_mode profile ((sp_session p)\<lparr>ms_client := True\<rparr>, sp_accounts p) of
          (Inl msg, s, accs) \<Rightarrow> attempt_failed (mismatch msg) now v' (p1\<lparr>sp_session := s, sp_accounts := accs\<rparr>)
        | (Inr _, s, accs) \<Rightarrow> p1\<lparr>sp_session := s, sp_accounts := accs, sp_sup := Some (v', Serving)\<rparr>)"

text \<open>After the pause the backoff doubles and the next attempt begins.\<close>

definition pause_over :: "usec \<Rightarrow> 'i sup \<Rightarrow> 'i supervised \<Rightarrow> 'i supervised" where
  "pause_over now v p =
    (let (s, v') = begin_attempt now (v\<lparr>sv_backoff := min (sv_backoff v * 2) BACKOFF_MAX\<rparr>) (sp_session p)
     in p\<lparr>sp_session := s, sp_sup := Some (v', Attempt)\<rparr>)"

subsection \<open>Starting and stopping\<close>

definition stop :: "'i supervised \<Rightarrow> 'i supervised" where
  "stop p =
    (let s = (sp_session p)\<lparr>ms_login := map_option cancel_login (ms_login (sp_session p)), ms_client := False, ms_running := False\<rparr>
     in p\<lparr>sp_session := (if ms_state s \<notin> {Unauthorized, Banned} then set_state Stopped None s else s), sp_sup := None\<rparr>)"

definition start :: "'i pymax \<Rightarrow> bool \<Rightarrow> string \<Rightarrow> usec \<Rightarrow> 'i supervised \<Rightarrow> 'i supervised" where
  "start pm require_proxy proxy_url now p =
    (if ms_running (sp_session p) then p
     else (case load_stored_transport pm (sp_rows p) (ms_account_id (sp_session p)) of
         None \<Rightarrow> p\<lparr>sp_session := set_state Stopped None ((sp_session p)\<lparr>ms_transport := None\<rparr>)\<rparr>
       | Some transport \<Rightarrow> spawn require_proxy proxy_url now transport None False False p))"

definition logout :: "'i supervised \<Rightarrow> 'i supervised" where
  "logout p =
    (let p1 = stop p in
     p1\<lparr>sp_rows := deactivate_session (sp_rows p1) (ms_account_id (sp_session p1)),
        sp_session := set_state Stopped None ((sp_session p1)\<lparr>ms_profile := None, ms_transport := None\<rparr>)\<rparr>)"

subsection \<open>Interactive login\<close>

text \<open>\<^verbatim>\<open>_ensure_can_login\<close>: the text of the 409, if any.\<close>

definition ensure_can_login :: "'i pymax \<Rightarrow> string \<Rightarrow> 'i supervised \<Rightarrow> string option" where
  "ensure_can_login pm method p =
    (let s = sp_session p in
     if ms_state s = Authorized then Some ''already authorized''
     else (case ms_login s of
         Some l \<Rightarrow>
           if ms_running s then (if lc_method l \<noteq> method then Some ''login already in progress'' else None)
           else if load_stored_transport pm (sp_rows p) (ms_account_id s) \<noteq> None
           then Some ''stored session exists; POST /auth/logout first'' else None
       | None \<Rightarrow>
           if load_stored_transport pm (sp_rows p) (ms_account_id s) \<noteq> None
           then Some ''stored session exists; POST /auth/logout first'' else None))"

definition login_running :: "session \<Rightarrow> bool" where
  "login_running s \<longleftrightarrow> ms_login s \<noteq> None \<and> ms_running s"

text \<open>\<^verbatim>\<open>start_qr_login\<close> and \<^verbatim>\<open>start_sms_login\<close> up to their wait.\<close>

definition start_qr_login :: "'i pymax \<Rightarrow> bool \<Rightarrow> string \<Rightarrow> usec \<Rightarrow> 'i supervised \<Rightarrow> string + 'i supervised" where
  "start_qr_login pm require_proxy proxy_url now p =
    (case ensure_can_login pm ''qr'' p of
       Some err \<Rightarrow> Inl err
     | None \<Rightarrow>
         if login_running (sp_session p) then Inr p
         else (let p1 = stop p;
                   p2 = p1\<lparr>sp_session := (sp_session p1)\<lparr>ms_login := login_controller ''qr'', ms_qr_expired := False\<rparr>\<rparr>
               in Inr (spawn require_proxy proxy_url now ''web'' None True True p2)))"

definition start_sms_login :: "'i pymax \<Rightarrow> bool \<Rightarrow> string \<Rightarrow> usec \<Rightarrow> 'i supervised \<Rightarrow> string + 'i supervised" where
  "start_sms_login pm require_proxy proxy_url now p =
    (case ensure_can_login pm ''sms'' p of
       Some err \<Rightarrow> Inl err
     | None \<Rightarrow>
         if login_running (sp_session p) then Inr p
         else (let p1 = stop p;
                   p2 = p1\<lparr>sp_session := (sp_session p1)\<lparr>ms_login := login_controller ''sms''\<rparr>\<rparr>
               in Inr (spawn require_proxy proxy_url now ''tcp'' None True True p2)))"

text \<open>After the wait of \<^verbatim>\<open>start_sms_login\<close>: the conflict, or the answer.\<close>

definition sms_answer :: "session \<Rightarrow> string + dict" where
  "sms_answer s =
    (if ms_state s \<noteq> St_awaiting_code
     then Inl (case or_else (ms_last_error s) (Some ''failed to request SMS code'') of None \<Rightarrow> [] | Some e \<Rightarrow> e)
     else Inr [(''status'', JStr ''code_sent''), (''phone'', JStr (ms_phone s)), (''alias'', JStr (ms_alias s))])"

fun step_name :: "login_step \<Rightarrow> string" where
  "step_name Awaiting_qr = ''awaiting_qr''"
| "step_name Awaiting_code = ''awaiting_code''"
| "step_name Awaiting_password = ''awaiting_password''"

definition iso_z :: "usec \<Rightarrow> string" where
  "iso_z t = (let s = isoformat t in take (length s - 6) s @ ''Z'')"

definition qr_status :: "session \<Rightarrow> string" where
  "qr_status s =
    (if ms_state s = Authorized then ''authorized''
     else if ms_qr_expired s then ''expired''
     else (case ms_login s of
         Some l \<Rightarrow> (if lc_method l = ''qr'' \<and> ms_running s
           then (case lc_step l of Some st \<Rightarrow> step_name st | None \<Rightarrow> ''error'') else ''error'')
       | None \<Rightarrow> ''error''))"

definition qr_snapshot :: "session \<Rightarrow> dict" where
  "qr_snapshot s =
    (let status = qr_status s;
         err = (if status \<in> {''error'', ''expired''} then ms_last_error s
                else (case ms_login s of None \<Rightarrow> None | Some l \<Rightarrow> lc_last_error l));
         err' = (if status = ''error'' \<and> err = None then Some ''no QR login in progress'' else err)
     in [(''status'', JStr status),
         (''qr_link'', jopt_str (case ms_login s of None \<Rightarrow> None
            | Some l \<Rightarrow> if lc_method l = ''qr'' \<and> status = ''awaiting_qr'' then lc_qr_link l else None)),
         (''expires_at'', jopt_str (case ms_login s of None \<Rightarrow> None
            | Some l \<Rightarrow> if status = ''awaiting_qr'' then map_option iso_z (lc_qr_expires_at l) else None)),
         (''error'', jopt_str err'),
         (''password_hint'', jopt_str (case ms_login s of None \<Rightarrow> None
            | Some l \<Rightarrow> if status = ''awaiting_password'' then lc_password_hint l else None))])"

text \<open>
  \<^verbatim>\<open>submit_code\<close> up to its wait: a conflict, an answer at once, or a code or password given to
  the login (with the number of attempts before it).
\<close>

datatype code_call =
    Conflict string
  | Answer int dict
  | Sent_code
  | Sent_password int

definition present :: "string option \<Rightarrow> bool" where
  "present x \<longleftrightarrow> x \<noteq> None \<and> x \<noteq> Some []"

definition send_password :: "string \<Rightarrow> login \<Rightarrow> session \<Rightarrow> code_call \<times> session" where
  "send_password password l s = (Sent_password (lc_password_attempts l), s\<lparr>ms_login := Some (snd (give_password password l))\<rparr>)"

definition submit_code :: "string option \<Rightarrow> string option \<Rightarrow> session \<Rightarrow> code_call \<times> session" where
  "submit_code code password s =
    (case ms_login s of
       None \<Rightarrow> (Conflict ''no login in progress'', s)
     | Some l \<Rightarrow>
         if \<not> ms_running s \<or> lc_step l \<notin> {Some Awaiting_code, Some Awaiting_password}
         then (Conflict ''no login in progress'', s)
         else if lc_step l = Some Awaiting_code then
           (case code of
              Some (c # cs) \<Rightarrow> (Sent_code, s\<lparr>ms_login := Some (snd (give_code (c # cs) l))\<rparr>)
            | _ \<Rightarrow> (Answer 400 [(''error'', JStr ''code required'')], s))
         else
           (case password of
              Some (c # cs) \<Rightarrow> send_password (c # cs) l s
            | _ \<Rightarrow> (Answer 400 [(''error'', JStr ''password required''), (''attempts_left'', JInt (password_attempts_left l))], s)))"

definition login_result :: "login \<Rightarrow> string \<Rightarrow> session \<Rightarrow> int \<times> dict" where
  "login_result l wrong s =
    (if ms_state s = Authorized then
       (200, [(''status'', JStr ''authorized''), (''alias'', JStr (ms_alias s)), (''user_id'', jopt_int (user_id s)),
              (''username'', jopt_str (username s))])
     else if ms_state s = St_awaiting_password \<and> ms_running s then
       (if lc_password_attempts l = 0
        then (200, [(''status'', JStr ''2fa_required''), (''alias'', JStr (ms_alias s)), (''hint'', jopt_str (lc_password_hint l))])
        else (400, [(''error'', jopt_str (or_else (lc_last_error l) (Some wrong))), (''attempts_left'', JInt (password_attempts_left l))]))
     else
       (400, [(''error'', jopt_str (if wrong = ''invalid code'' then Some wrong else or_else (ms_last_error s) (Some wrong))),
              (''detail'', jopt_str (ms_last_error s)), (''state'', JStr (state_name (ms_state s)))]))"

text \<open>After the wait for the outcome of a code: the password given along, or the answer.\<close>

definition after_code :: "login \<Rightarrow> string option \<Rightarrow> session \<Rightarrow> code_call \<times> session" where
  "after_code l password s =
    (case password of
       Some (c # cs) \<Rightarrow>
         if ms_state s = St_awaiting_password then send_password (c # cs) l s
         else ((case login_result l ''invalid code'' s of (st, body) \<Rightarrow> Answer st body), s)
     | _ \<Rightarrow> ((case login_result l ''invalid code'' s of (st, body) \<Rightarrow> Answer st body), s))"

subsection \<open>Import\<close>

definition import_begin ::
    "'i pymax \<Rightarrow> bool \<Rightarrow> string \<Rightarrow> usec \<Rightarrow> string \<Rightarrow> 'i supervised \<Rightarrow> format_error + 'i supervised" where
  "import_begin pm require_proxy proxy_url now raw p =
    (case parse_session_json pm raw None of
       Inl err \<Rightarrow> Inl err
     | Inr (transport, info) \<Rightarrow>
         (let p1 = stop p;
              p2 = p1\<lparr>sp_session := (sp_session p1)\<lparr>ms_login := None\<rparr>\<rparr>
          in Inr (spawn require_proxy proxy_url now transport (Some info) False True p2)))"

definition import_end :: "'i pymax \<Rightarrow> bool \<Rightarrow> string \<Rightarrow> usec \<Rightarrow> 'i supervised \<Rightarrow> dict \<times> 'i supervised" where
  "import_end pm require_proxy proxy_url now p =
    (let s = sp_session p in
     if ms_state s = Authorized
     then ([(''status'', JStr ''authorized''), (''alias'', JStr (ms_alias s)), (''user_id'', jopt_int (user_id s)),
            (''username'', jopt_str (username s))], p)
     else ([(''status'', JStr ''error''), (''detail'', JStr ''Session is invalid or expired'')],
           start pm require_proxy proxy_url now (stop p)))"

text \<open>\<^verbatim>\<open>auth_status\<close>; whether the client has a live connection is an argument.\<close>

definition auth_status :: "bool \<Rightarrow> session \<Rightarrow> dict" where
  "auth_status is_connected s =
    (let authorized = (ms_state s = Authorized) in
     [(''connected'', JBool (authorized \<and> ms_client s \<and> is_connected)),
      (''phone_number'', if authorized then JStr (ms_phone s) else JNull),
      (''user_id'', if authorized then jopt_int (user_id s) else JNull),
      (''username'', if authorized then jopt_str (username s) else JNull)])"

subsection \<open>Runs\<close>

text \<open>
  What may happen to a session: attempts end in a login or an error, a connection ends, pauses end,
  REST calls come in, PyMax writes the stored session. Only \<^verbatim>\<open>stop\<close> cancels the task; the factory
  of the client and the hooks do not raise.
\<close>

inductive session_step ::
    "'i pymax \<Rightarrow> bool \<Rightarrow> bool \<Rightarrow> string \<Rightarrow> 'i supervised \<Rightarrow> 'i supervised \<Rightarrow> bool"
    for pm new_mode require_proxy proxy_url where
  connected: "sp_sup p = Some (v, Attempt) \<Longrightarrow>
     session_step pm new_mode require_proxy proxy_url p (attempt_connected pm new_mode now profile v p)"
| not_connected: "\<lbrakk>sp_sup p = Some (v, Attempt); ex_kind x \<noteq> Cancelled_error\<rbrakk> \<Longrightarrow>
     session_step pm new_mode require_proxy proxy_url p (attempt_failed x now v p)"
| connection_ended: "\<lbrakk>sp_sup p = Some (v, Serving); ex_kind x \<noteq> Cancelled_error\<rbrakk> \<Longrightarrow>
     session_step pm new_mode require_proxy proxy_url p (attempt_failed x now v p)"
| resumed: "sp_sup p = Some (v, Pausing d) \<Longrightarrow> session_step pm new_mode require_proxy proxy_url p (pause_over now v p)"
| started: "session_step pm new_mode require_proxy proxy_url p (start pm require_proxy proxy_url now p)"
| stopped: "session_step pm new_mode require_proxy proxy_url p (stop p)"
| logged_out: "session_step pm new_mode require_proxy proxy_url p (logout p)"
| qr_login: "start_qr_login pm require_proxy proxy_url now p = Inr p' \<Longrightarrow> session_step pm new_mode require_proxy proxy_url p p'"
| sms_login: "start_sms_login pm require_proxy proxy_url now p = Inr p' \<Longrightarrow> session_step pm new_mode require_proxy proxy_url p p'"
| login_moved: "\<lbrakk>sp_sup p = Some (v, Attempt); ms_login (sp_session p) \<noteq> None\<rbrakk> \<Longrightarrow>
     session_step pm new_mode require_proxy proxy_url p
       (p\<lparr>sp_session := on_login_step ((sp_session p)\<lparr>ms_login := Some l\<rparr>)\<rparr>)"
| code_sent: "submit_code code password (sp_session p) = (r, s) \<Longrightarrow>
     session_step pm new_mode require_proxy proxy_url p (p\<lparr>sp_session := s\<rparr>)"
| session_saved: "\<lbrakk>sp_sup p = Some (v, ph); sv_seeded v = None\<rbrakk> \<Longrightarrow>
     session_step pm new_mode require_proxy proxy_url p
       (p\<lparr>sp_rows := save_session pm (ms_account_id (sp_session p)) (sv_transport v) now info (sp_rows p)\<rparr>)"
| token_rotated: "\<lbrakk>sp_sup p = Some (v, ph); sv_seeded v = None\<rbrakk> \<Longrightarrow>
     session_step pm new_mode require_proxy proxy_url p
       (p\<lparr>sp_rows := update_token pm (ms_account_id (sp_session p)) (sv_transport v) now old new (sp_rows p)\<rparr>)"
| session_removed: "\<lbrakk>sp_sup p = Some (v, ph); sv_seeded v = None\<rbrakk> \<Longrightarrow>
     session_step pm new_mode require_proxy proxy_url p
       (p\<lparr>sp_rows := delete_session pm (ms_account_id (sp_session p)) (sv_transport v) tok (sp_rows p)\<rparr>)"
| seed_changed: "\<lbrakk>sp_sup p = Some (v, ph); sv_seeded v \<noteq> None\<rbrakk> \<Longrightarrow>
     session_step pm new_mode require_proxy proxy_url p (p\<lparr>sp_sup := Some (v\<lparr>sv_seeded := Some info\<rparr>, ph)\<rparr>)"
| import_begun: "import_begin pm require_proxy proxy_url now raw p = Inr p' \<Longrightarrow> session_step pm new_mode require_proxy proxy_url p p'"
| import_ended: "import_end pm require_proxy proxy_url now p = (d, p') \<Longrightarrow> session_step pm new_mode require_proxy proxy_url p p'"

end
