(* ===== verification/Session_Store_Facts.thy ===== *)
theory Session_Store_Facts
  imports Session_Store
begin

text \<open>
  The contract of a PyMax session store as a locale, and its interpretations on the database
  store and on the seeded store of an import.
\<close>

subsection \<open>What the parameters promise\<close>

text \<open>
  A dump has distinct keys, none of them the envelope's, holds token and device id, and validates
  back; the JSON text of a session loads back; a copy with a new token changes the token only.
\<close>

definition codec_ok :: "'i pymax \<Rightarrow> bool" where
  "codec_ok pm \<longleftrightarrow>
    (\<forall>i. distinct (map fst (pm_dump pm i)) \<and> fst ` set (pm_dump pm i) \<inter> {''v'', ''transport'', ''pymax''} = {} \<and>
       map_of (pm_dump pm i) ''token'' = Some (JStr (pm_token pm i)) \<and>
       map_of (pm_dump pm i) ''device_id'' = Some (JStr (pm_device_id pm i)) \<and> pm_validate pm (pm_dump pm i) = Inr i) \<and>
    (\<forall>i t. pm_loads pm (pm_dumps pm (JObj (session_dict pm i t))) = Some (JObj (session_dict pm i t))) \<and>
    (\<forall>i t. pm_token pm (pm_with_token pm i t) = t \<and> pm_device_id pm (pm_with_token pm i t) = pm_device_id pm i)"

definition valid_info :: "'i pymax \<Rightarrow> 'i \<Rightarrow> bool" where
  "valid_info pm i \<longleftrightarrow> pm_token pm i \<noteq> [] \<and> pm_device_id pm i \<noteq> []"

lemma codec_with_token: "codec_ok pm \<Longrightarrow> pm_token pm (pm_with_token pm i t) = t"
  by (simp add: codec_ok_def)

lemma valid_with_token: "codec_ok pm \<Longrightarrow> valid_info pm i \<Longrightarrow> t \<noteq> [] \<Longrightarrow> valid_info pm (pm_with_token pm i t)"
  by (simp add: codec_ok_def valid_info_def)

subsection \<open>The JSON of a session\<close>

lemma dict_put_new: "k \<notin> fst ` set d \<Longrightarrow> dict_put d (k, v) = d @ [(k, v)]"
  by (simp add: dict_put_def)

lemma put_all_new:
  "distinct (map fst e) \<Longrightarrow> fst ` set e \<inter> fst ` set d = {} \<Longrightarrow> foldl dict_put d e = d @ e"
proof (induction e arbitrary: d)
  case (Cons kv e)
  obtain k v where kv: "kv = (k, v)" by (rule prod.exhaust)
  have "foldl dict_put (d @ [(k, v)]) e = (d @ [(k, v)]) @ e" using Cons.prems kv by (intro Cons.IH) auto
  then show ?case using Cons.prems kv by (simp add: dict_put_new)
qed simp

lemma session_dict_layout:
  assumes "codec_ok pm"
  shows "session_dict pm i t = [(''v'', JInt 1), (''transport'', JStr t)] @ pm_dump pm i @ [(''pymax'', JStr (pm_version pm))]"
proof -
  have d: "distinct (map fst (pm_dump pm i))" "fst ` set (pm_dump pm i) \<inter> {''v'', ''transport'', ''pymax''} = {}"
    using assms by (simp_all add: codec_ok_def)
  have "foldl dict_put [(''v'', JInt 1), (''transport'', JStr t)] (pm_dump pm i) = [(''v'', JInt 1), (''transport'', JStr t)] @ pm_dump pm i"
    by (rule put_all_new [OF d(1)]) (use d(2) in auto)
  moreover have "''pymax'' \<notin> fst ` set ([(''v'', JInt 1), (''transport'', JStr t)] @ pm_dump pm i)" using d(2) by auto
  ultimately show ?thesis by (simp add: session_dict_def dict_put_new)
qed

lemma map_of_envelope: "k \<notin> {''v'', ''transport''} \<Longrightarrow> map_of d k = Some x \<Longrightarrow>
    map_of ([(''v'', a), (''transport'', b)] @ d @ e) k = Some x"
  by (auto simp: map_add_Some_iff)

lemma session_fields_envelope:
  assumes "fst ` set d \<inter> {''v'', ''transport'', ''pymax''} = {}"
  shows "session_fields ([(''v'', a), (''transport'', b)] @ d @ [(''pymax'', c)]) = d"
proof -
  have "filter (\<lambda>(k, v). k \<notin> {''v'', ''transport'', ''pymax''}) d = d"
    by (rule filter_True) (use assms in force)
  then show ?thesis by (simp add: session_fields_def)
qed

lemma parse_printed:
  assumes ok: "codec_ok pm" and i: "valid_info pm i" and t: "t \<in> set TRANSPORTS" and e: "e = None \<or> e = Some t"
  shows "parse_session_json pm (session_to_json pm i t) e = Inr (t, i)"
proof -
  let ?d = "session_dict pm i t"
  have c: "pm_loads pm (pm_dumps pm (JObj ?d)) = Some (JObj ?d)"
    "map_of (pm_dump pm i) ''token'' = Some (JStr (pm_token pm i))"
    "map_of (pm_dump pm i) ''device_id'' = Some (JStr (pm_device_id pm i))"
    "pm_validate pm (pm_dump pm i) = Inr i" "fst ` set (pm_dump pm i) \<inter> {''v'', ''transport'', ''pymax''} = {}"
    using ok by (simp_all add: codec_ok_def)
  note l = session_dict_layout [OF ok, of i t]
  have v: "map_of ?d ''v'' = Some (JInt 1)" "map_of ?d ''transport'' = Some (JStr t)" by (simp_all add: l)
  have "map_of ?d ''token'' = Some (JStr (pm_token pm i))" "map_of ?d ''device_id'' = Some (JStr (pm_device_id pm i))"
    unfolding l by (rule map_of_envelope, simp, rule c)+
  then have h: "has_value pm ?d ''token''" "has_value pm ?d ''device_id''"
    using i by (simp_all add: has_value_def valid_info_def)
  show ?thesis
    using c(1,4) v h t e session_fields_envelope [OF c(5)]
    by (auto simp: parse_session_json_def session_to_json_def version_ok_def l)
qed

subsection \<open>The contract\<close>

datatype 'i store_op =
    Save 'i
  | Rotate string string
  | Remove string

text \<open>The abstract store: one cell.\<close>

fun cell_step :: "('i \<Rightarrow> string) \<Rightarrow> ('i \<Rightarrow> string \<Rightarrow> 'i) \<Rightarrow> 'i store_op \<Rightarrow> 'i option \<Rightarrow> 'i option" where
  "cell_step tk wt (Save i) c = Some i"
| "cell_step tk wt (Rotate old new) c = map_option (\<lambda>i. if tk i = old then wt i new else i) c"
| "cell_step tk wt (Remove t) c = (case c of None \<Rightarrow> None | Some i \<Rightarrow> if tk i = t then None else Some i)"

fun op_ok :: "('i \<Rightarrow> bool) \<Rightarrow> 'i store_op \<Rightarrow> bool" where
  "op_ok valid (Save i) = valid i"
| "op_ok valid (Rotate old new) = (new \<noteq> [])"
| "op_ok valid (Remove t) = True"

locale token_store =
  fixes inv :: "'s \<Rightarrow> bool" and load :: "'s \<Rightarrow> 'i option" and perform :: "usec \<Rightarrow> 'i store_op \<Rightarrow> 's \<Rightarrow> 's"
    and tk :: "'i \<Rightarrow> string" and wt :: "'i \<Rightarrow> string \<Rightarrow> 'i" and valid :: "'i \<Rightarrow> bool"
  assumes performed: "inv s \<Longrightarrow> op_ok valid x \<Longrightarrow> inv (perform now x s) \<and> load (perform now x s) = cell_step tk wt x (load s)"
    and new_token: "inv s \<Longrightarrow> tk (wt i t) = t"
begin

lemma run: "inv s \<Longrightarrow> \<forall>(now, x) \<in> set xs. op_ok valid x \<Longrightarrow>
    inv (fold (\<lambda>(now, x). perform now x) xs s) \<and>
    load (fold (\<lambda>(now, x). perform now x) xs s) = fold (\<lambda>(now, x). cell_step tk wt x) xs (load s)"
proof (induction xs arbitrary: s)
  case (Cons y ys)
  obtain now x where y: "y = (now, x)" by (rule prod.exhaust)
  have p: "inv (perform now x s) \<and> load (perform now x s) = cell_step tk wt x (load s)"
    using performed Cons.prems y by simp
  then show ?case using Cons.IH [of "perform now x s"] Cons.prems(2) y by simp
qed simp

text \<open>A chain of rotations from the saved token leaves the last token.\<close>

lemma rotations:
  assumes "inv s" and "load s = Some i" and "list_all (\<lambda>t. t \<noteq> []) ts"
  shows "\<exists>j. load (fold (perform now) (map2 Rotate (tk i # ts) ts) s) = Some j \<and> tk j = last (tk i # ts)"
  using assms
proof (induction ts arbitrary: s i)
  case (Cons t ts)
  have p: "inv (perform now (Rotate (tk i) t) s)" "load (perform now (Rotate (tk i) t) s) = Some (wt i t)"
    using performed [of s "Rotate (tk i) t" now] Cons.prems by simp_all
  show ?case using Cons.IH [OF p] Cons.prems(3) new_token [OF Cons.prems(1), of i t] by simp
qed simp

lemma stale_rotation:
  "inv s \<Longrightarrow> load s = Some i \<Longrightarrow> tk i \<noteq> old \<Longrightarrow> new \<noteq> [] \<Longrightarrow> load (perform now (Rotate old new) s) = Some i"
  using performed [of s "Rotate old new" now] by simp

end

subsection \<open>The database store\<close>

lemma find_update_rows: "(\<And>r. P (f r) = P r) \<Longrightarrow> find P (update_rows P f rows) = map_option f (find P rows)"
  by (induction rows) (auto simp: update_rows_def)

lemma find_snoc: "find P (xs @ [x]) = (case find P xs of None \<Rightarrow> if P x then Some x else None | Some y \<Rightarrow> Some y)"
  by (induction xs) auto

lemma active_saved:
  "active_row (save_session pm a t now i rows) a =
    Some (case active_row rows a of
        None \<Rightarrow> \<lparr>sr_account_id = a, sr_plaintext = Some (session_to_json pm i t), sr_authorized_at = Some now,
                 sr_last_connected_at = Some now, sr_is_active = True\<rparr>
      | Some row \<Rightarrow> (if reauthorized pm row i then row\<lparr>sr_authorized_at := Some now\<rparr> else row)
                     \<lparr>sr_plaintext := Some (session_to_json pm i t), sr_last_connected_at := Some now\<rparr>)"
  by (auto simp: save_session_def active_row_def one_or_none_def find_update_rows find_snoc is_active_of_def Let_def split: option.splits)

lemma raw_saved: "load_raw (save_session pm a t now i rows) a = Some (session_to_json pm i t)"
  by (simp add: load_raw_def active_saved split: option.split)

lemma other_account_saved: "b \<noteq> a \<Longrightarrow> active_row (save_session pm a t now i rows) b = active_row rows b"
proof -
  assume b: "b \<noteq> a"
  have "find (is_active_of b) (update_rows (is_active_of a) f rows) = find (is_active_of b) rows"
    if "\<And>r. sr_account_id (f r) = sr_account_id r" for f
    using b that by (induction rows) (auto simp: update_rows_def is_active_of_def)
  moreover have "find (is_active_of b) (rows @ [x]) = find (is_active_of b) rows" if "sr_account_id x = a" for x
    using b that by (auto simp: find_snoc is_active_of_def split: option.split)
  ultimately show ?thesis
    by (auto simp: save_session_def active_row_def one_or_none_def Let_def split: option.splits)
qed

text \<open>The unique index of the table: one active row per account.\<close>

definition one_active :: "session_rows \<Rightarrow> bool" where
  "one_active rows \<longleftrightarrow> (\<forall>a. length (filter (is_active_of a) rows) \<le> 1)"

lemma length_filter_update_rows: "(\<And>r. Q r \<Longrightarrow> P (f r) \<Longrightarrow> P r) \<Longrightarrow> length (filter P (update_rows Q f rows)) \<le> length (filter P rows)"
  by (induction rows) (auto simp: update_rows_def)

lemma one_active_saved: "one_active rows \<Longrightarrow> one_active (save_session pm a t now i rows)"
proof -
  assume o: "one_active rows"
  show ?thesis
  proof (cases "active_row rows a")
    case None
    then have "filter (is_active_of a) rows = []" by (simp add: active_row_def one_or_none_None filter_empty_conv)
    then show ?thesis using None o by (auto simp: one_active_def save_session_def Let_def is_active_of_def)
  next
    case (Some row)
    let ?f = "\<lambda>r. (if reauthorized pm row i then r\<lparr>sr_authorized_at := Some now\<rparr> else r)
       \<lparr>sr_plaintext := Some (session_to_json pm i t), sr_last_connected_at := Some now\<rparr>"
    have "length (filter (is_active_of b) (update_rows (is_active_of a) ?f rows)) \<le> 1" for b
      using o length_filter_update_rows [of "is_active_of a" "is_active_of b" ?f rows] le_trans
      by (fastforce simp: one_active_def is_active_of_def)
    then show ?thesis using Some by (simp add: one_active_def save_session_def Let_def)
  qed
qed

lemma one_active_deactivated: "one_active rows \<Longrightarrow> one_active (deactivate_session rows a)"
proof -
  assume o: "one_active rows"
  let ?f = "\<lambda>r. r\<lparr>sr_plaintext := None, sr_is_active := False\<rparr>"
  have "length (filter (is_active_of b) (update_rows (is_active_of a) ?f rows)) \<le> 1" for b
    using o length_filter_update_rows [of "is_active_of a" "is_active_of b" ?f rows] le_trans
    by (fastforce simp: one_active_def is_active_of_def)
  then show ?thesis using o by (simp add: one_active_def deactivate_session_def split: option.split)
qed

lemma deactivated: "active_row (deactivate_session rows a) a = None"
proof (cases "active_row rows a")
  case (Some r)
  then have "deactivate_session rows a = update_rows (is_active_of a) (\<lambda>r. r\<lparr>sr_plaintext := None, sr_is_active := False\<rparr>) rows"
    by (simp add: deactivate_session_def)
  moreover have "find (is_active_of a) (update_rows (is_active_of a) (\<lambda>r. r\<lparr>sr_plaintext := None, sr_is_active := False\<rparr>) rows) = None"
    by (induction rows) (auto simp: update_rows_def is_active_of_def)
  ultimately show ?thesis by (simp add: active_row_def one_or_none_def)
qed (simp add: deactivate_session_def)

lemma load_deactivated: "load_session pm a t (deactivate_session rows a) = None"
  by (simp add: load_session_def load_raw_def deactivated)

fun pg_perform :: "'i pymax \<Rightarrow> int \<Rightarrow> string \<Rightarrow> usec \<Rightarrow> 'i store_op \<Rightarrow> session_rows \<Rightarrow> session_rows" where
  "pg_perform pm a t now (Save i) rows = save_session pm a t now i rows"
| "pg_perform pm a t now (Rotate old new) rows = update_token pm a t now old new rows"
| "pg_perform pm a t now (Remove tok) rows = delete_session pm a t tok rows"

definition pg_inv :: "'i pymax \<Rightarrow> int \<Rightarrow> string \<Rightarrow> session_rows \<Rightarrow> bool" where
  "pg_inv pm a t rows \<longleftrightarrow> codec_ok pm \<and> t \<in> set TRANSPORTS \<and> one_active rows \<and> (\<forall>i. load_session pm a t rows = Some i \<longrightarrow> valid_info pm i)"

lemma load_saved:
  "codec_ok pm \<Longrightarrow> t \<in> set TRANSPORTS \<Longrightarrow> valid_info pm i \<Longrightarrow> load_session pm a t (save_session pm a t now i rows) = Some i"
  by (simp add: load_session_def raw_saved parse_printed)

lemma pg_saved: "pg_inv pm a t rows \<Longrightarrow> valid_info pm i \<Longrightarrow>
    pg_inv pm a t (save_session pm a t now i rows) \<and> load_session pm a t (save_session pm a t now i rows) = Some i"
  by (simp add: pg_inv_def load_saved one_active_saved)

lemma pg_deactivated: "pg_inv pm a t rows \<Longrightarrow> pg_inv pm a t (deactivate_session rows a)"
  by (simp add: pg_inv_def load_deactivated one_active_deactivated)

lemma pg_rotated:
  assumes "pg_inv pm a t rows" and "new \<noteq> []"
  shows "pg_inv pm a t (update_token pm a t now old new rows) \<and>
    load_session pm a t (update_token pm a t now old new rows) =
      map_option (\<lambda>i. if pm_token pm i = old then pm_with_token pm i new else i) (load_session pm a t rows)"
proof (cases "load_session pm a t rows")
  case None
  then show ?thesis using assms by (simp add: update_token_def)
next
  case (Some i)
  then have "valid_info pm (pm_with_token pm i new)" using assms by (simp add: pg_inv_def valid_with_token)
  then show ?thesis using assms Some pg_saved [OF assms(1), of "pm_with_token pm i new" now] by (simp add: update_token_def)
qed

lemma pg_removed:
  assumes "pg_inv pm a t rows"
  shows "pg_inv pm a t (delete_session pm a t tok rows) \<and>
    load_session pm a t (delete_session pm a t tok rows) =
      (case load_session pm a t rows of None \<Rightarrow> None | Some i \<Rightarrow> if pm_token pm i = tok then None else Some i)"
  using assms pg_deactivated [OF assms] by (simp add: delete_session_def load_deactivated split: option.split)

lemma pg_performed:
  assumes "pg_inv pm a t rows" and "op_ok (valid_info pm) x"
  shows "pg_inv pm a t (pg_perform pm a t now x rows) \<and>
    load_session pm a t (pg_perform pm a t now x rows) = cell_step (pm_token pm) (pm_with_token pm) x (load_session pm a t rows)"
  using assms by (cases x) (simp_all add: pg_saved pg_rotated pg_removed)

interpretation pg: token_store "pg_inv pm a t" "load_session pm a t" "pg_perform pm a t" "pm_token pm" "pm_with_token pm" "valid_info pm"
  for pm a t
proof
  fix s x now i u
  show "pg_inv pm a t s \<Longrightarrow> op_ok (valid_info pm) x \<Longrightarrow> pg_inv pm a t (pg_perform pm a t now x s) \<and>
      load_session pm a t (pg_perform pm a t now x s) = cell_step (pm_token pm) (pm_with_token pm) x (load_session pm a t s)"
    by (rule pg_performed)
  show "pg_inv pm a t s \<Longrightarrow> pm_token pm (pm_with_token pm i u) = u" by (simp add: pg_inv_def codec_with_token)
qed

text \<open>The operations leave the sessions of other accounts alone.\<close>

lemma other_account_deactivated: "b \<noteq> a \<Longrightarrow> active_row (deactivate_session rows a) b = active_row rows b"
proof -
  assume b: "b \<noteq> a"
  have "find (is_active_of b) (update_rows (is_active_of a) (\<lambda>r. r\<lparr>sr_plaintext := None, sr_is_active := False\<rparr>) rows) = find (is_active_of b) rows"
    using b by (induction rows) (auto simp: update_rows_def is_active_of_def)
  then show ?thesis by (simp add: deactivate_session_def active_row_def one_or_none_def split: option.split)
qed

lemma pg_other_account: "b \<noteq> a \<Longrightarrow> active_row (pg_perform pm a t now x rows) b = active_row rows b"
  by (cases x) (simp_all add: other_account_saved other_account_deactivated update_token_def delete_session_def split: option.split)

lemma pg_run_other_account:
  "b \<noteq> a \<Longrightarrow> active_row (fold (\<lambda>(now, x). pg_perform pm a t now x) xs rows) b = active_row rows b"
  by (induction xs arbitrary: rows) (auto simp: pg_other_account)

subsection \<open>The seeded store\<close>

fun seeded_perform :: "'i pymax \<Rightarrow> int \<Rightarrow> usec \<Rightarrow> 'i store_op \<Rightarrow> 'i seeded \<times> session_rows \<Rightarrow> 'i seeded \<times> session_rows" where
  "seeded_perform pm a now (Save i) s = seeded_save pm a now i s"
| "seeded_perform pm a now (Rotate old new) s = seeded_update pm a now old new s"
| "seeded_perform pm a now (Remove tok) s = seeded_delete pm a tok s"

text \<open>Once promoted, the database holds what the memory holds.\<close>

definition seeded_inv :: "'i pymax \<Rightarrow> int \<Rightarrow> 'i seeded \<times> session_rows \<Rightarrow> bool" where
  "seeded_inv pm a s \<longleftrightarrow> codec_ok pm \<and> (\<forall>i. sd_session (fst s) = Some i \<longrightarrow> valid_info pm i) \<and>
    (\<forall>t. sd_target (fst s) = Some t \<longrightarrow> pg_inv pm a t (snd s) \<and> load_session pm a t (snd s) = sd_session (fst s))"

lemma seeded_targets: "sd_target (fst (seeded_perform pm a now x s)) = sd_target (fst s)"
  by (cases x) (auto simp: seeded_save_def seeded_update_def seeded_delete_def split: option.split)

lemma seeded_memory: "sd_session (fst (seeded_perform pm a now x s)) = cell_step (pm_token pm) (pm_with_token pm) x (sd_session (fst s))"
  by (cases x) (auto simp: seeded_save_def seeded_update_def seeded_delete_def split: option.split)

lemma seeded_rows: "snd (seeded_perform pm a now x s) = (case sd_target (fst s) of None \<Rightarrow> snd s | Some t \<Rightarrow> pg_perform pm a t now x (snd s))"
  by (cases x) (auto simp: seeded_save_def seeded_update_def seeded_delete_def split: option.split)

lemma cell_valid: "codec_ok pm \<Longrightarrow> op_ok (valid_info pm) x \<Longrightarrow> \<forall>i. c = Some i \<longrightarrow> valid_info pm i \<Longrightarrow>
    \<forall>j. cell_step (pm_token pm) (pm_with_token pm) x c = Some j \<longrightarrow> valid_info pm j"
  by (cases x; cases c) (auto simp: valid_with_token split: if_splits)

interpretation import: token_store "seeded_inv pm a" seeded_load "seeded_perform pm a" "pm_token pm" "pm_with_token pm" "valid_info pm"
  for pm a
proof
  fix s :: "'a seeded \<times> session_rows" and x now i u
  assume s: "seeded_inv pm a s"
  then show "pm_token pm (pm_with_token pm i u) = u" by (simp add: seeded_inv_def codec_with_token)
  assume x: "op_ok (valid_info pm) x"
  have "\<forall>t. sd_target (fst s) = Some t \<longrightarrow> pg_inv pm a t (pg_perform pm a t now x (snd s)) \<and>
      load_session pm a t (pg_perform pm a t now x (snd s)) = cell_step (pm_token pm) (pm_with_token pm) x (sd_session (fst s))"
    using s pg_performed [OF _ x] by (simp add: seeded_inv_def)
  then show "seeded_inv pm a (seeded_perform pm a now x s) \<and>
      seeded_load (seeded_perform pm a now x s) = cell_step (pm_token pm) (pm_with_token pm) x (seeded_load s)"
    using s cell_valid [OF _ x, of "sd_session (fst s)"] by (simp add: seeded_inv_def seeded_load_def seeded_targets seeded_memory seeded_rows)
qed

text \<open>
  The import: a session that logged in is promoted, and from then on the database follows the
  memory through every rotation.
\<close>

lemma promoted_inv:
  assumes "codec_ok pm" and "t \<in> set TRANSPORTS" and "one_active rows" and "valid_info pm i"
  shows "seeded_inv pm a (promote pm a t now (seeded_with i, rows))"
  using assms by (simp add: seeded_inv_def promote_def seeded_with_def pg_inv_def load_saved one_active_saved)

lemma import_persists:
  assumes "codec_ok pm" and "t \<in> set TRANSPORTS" and "one_active rows" and "valid_info pm i"
    and "\<forall>(now, x) \<in> set xs. op_ok (valid_info pm) x"
  shows "load_session pm a t (snd (fold (\<lambda>(now, x). seeded_perform pm a now x) xs (promote pm a t now (seeded_with i, rows)))) =
    fold (\<lambda>(now, x). cell_step (pm_token pm) (pm_with_token pm) x) xs (Some i)"
proof -
  let ?s = "promote pm a t now (seeded_with i, rows)"
  have tgt: "sd_target (fst (fold (\<lambda>(now, x). seeded_perform pm a now x) xs s)) = sd_target (fst s)" for s
    by (induction xs arbitrary: s) (auto simp: seeded_targets)
  have "sd_target (fst ?s) = Some t" "seeded_load ?s = Some i" by (simp_all add: promote_def seeded_with_def seeded_load_def)
  then show ?thesis using import.run [OF promoted_inv [OF assms(1-4)] assms(5), of a now] tgt [of ?s]
    by (simp add: seeded_inv_def seeded_load_def)
qed

end
