(* ===== verification/Max_Session_Facts.thy ===== *)
theory Max_Session_Facts
  imports Max_Session Session_Store_Facts
begin

text \<open>
  The invariants of a session and of its login: who is logged in when frames are stored, the
  bounds of the pauses, the passwords handed to PyMax.
\<close>

subsection \<open>States\<close>

lemma set_state_sel [simp]:
  "ms_state (set_state st err s) = st"
  "ms_account_id (set_state st err s) = ms_account_id s" "ms_profile (set_state st err s) = ms_profile s"
  "ms_identity_ok (set_state st err s) = ms_identity_ok s" "ms_client (set_state st err s) = ms_client s"
  "ms_running (set_state st err s) = ms_running s" "ms_login (set_state st err s) = ms_login s"
  "ms_caught_up (set_state st err s) = ms_caught_up s" "user_id (set_state st err s) = user_id s"
  by (simp_all add: set_state_def user_id_def Let_def)

lemma user_id_update [simp]:
  "user_id (s\<lparr>ms_transport := x1\<rparr>) = user_id s" "user_id (s\<lparr>ms_running := b\<rparr>) = user_id s"
  "user_id (s\<lparr>ms_client := b\<rparr>) = user_id s" "user_id (s\<lparr>ms_caught_up := cs\<rparr>) = user_id s"
  "user_id (s\<lparr>ms_identity_ok := b\<rparr>) = user_id s" "user_id (s\<lparr>ms_login := l\<rparr>) = user_id s"
  "user_id (s\<lparr>ms_qr_expired := b\<rparr>) = user_id s" "user_id (s\<lparr>ms_state := st\<rparr>) = user_id s"
  "user_id (s\<lparr>ms_profile := pf\<rparr>) = (case pf of None \<Rightarrow> None | Some p \<Rightarrow> pf_user_id p)"
  by (simp_all add: user_id_def)

subsection \<open>The users of accounts\<close>

definition external_of :: "account list \<Rightarrow> int \<Rightarrow> int option" where
  "external_of accs i = (case account_by_id accs i of None \<Rightarrow> None | Some a \<Rightarrow> acc_external_user_id a)"

definition unique_users :: "account list \<Rightarrow> bool" where
  "unique_users accs \<longleftrightarrow> (\<forall>a \<in> set accs. \<forall>b \<in> set accs. \<forall>u. acc_id a \<noteq> acc_id b \<longrightarrow> acc_platform a = acc_platform b \<longrightarrow>
     acc_external_user_id a = Some u \<longrightarrow> acc_external_user_id b \<noteq> Some u)"

lemma account_update:
  assumes "\<And>a. acc_id (f a) = acc_id a"
  shows "account_by_id (update_rows (\<lambda>b. acc_id b = i) f accs) j = (if j = i then map_option f (account_by_id accs j) else account_by_id accs j)"
  using assms by (induction accs) (auto simp: account_by_id_def one_or_none_def update_rows_def)

lemma ensure_user:
  assumes "ensure_account_user accs i u = Inr accs'"
  shows "external_of accs' i = Some u \<and> (\<forall>x. external_of accs i = Some x \<longrightarrow> x = u) \<and> (\<forall>j. j \<noteq> i \<longrightarrow> external_of accs' j = external_of accs j)"
proof (cases "account_by_id accs i")
  case None
  then show ?thesis using assms by (simp add: ensure_account_user_def)
next
  case (Some a)
  then show ?thesis using assms
    by (auto simp: ensure_account_user_def external_of_def account_update split: option.splits if_splits)
qed

lemma unique_update:
  assumes u: "unique_users accs" and a: "account_by_id accs i = Some a" and ids: "distinct (map acc_id accs)"
    and free: "\<not> id_taken accs a uid"
  shows "unique_users (update_rows (\<lambda>b. acc_id b = i) (\<lambda>b. b\<lparr>acc_external_user_id := Some uid\<rparr>) accs)"
proof -
  have a': "a \<in> set accs" "acc_id a = i" using account_by_id_Some [OF a] by simp_all
  have only: "b = a" if "b \<in> set accs" "acc_id b = i" for b
    using ids a' that by (auto simp: distinct_map dest: inj_onD)
  have other: "acc_external_user_id b \<noteq> Some uid" if "b \<in> set accs" "acc_id b \<noteq> i" "acc_platform b = acc_platform a" for b
    using free that a'(2) by (auto simp: id_taken_def list_ex_iff)
  show ?thesis
    unfolding unique_users_def set_update_rows
  proof (intro ballI allI impI)
    fix x y v
    assume x: "x \<in> {b\<lparr>acc_external_user_id := Some uid\<rparr> |b. b \<in> set accs \<and> acc_id b = i} \<union> {b \<in> set accs. acc_id b \<noteq> i}"
      and y: "y \<in> {b\<lparr>acc_external_user_id := Some uid\<rparr> |b. b \<in> set accs \<and> acc_id b = i} \<union> {b \<in> set accs. acc_id b \<noteq> i}"
      and ne: "acc_id x \<noteq> acc_id y" and pl: "acc_platform x = acc_platform y" and ex: "acc_external_user_id x = Some v"
    have shape: "z = a\<lparr>acc_external_user_id := Some uid\<rparr> \<or> z \<in> set accs \<and> acc_id z \<noteq> i"
      if "z \<in> {b\<lparr>acc_external_user_id := Some uid\<rparr> |b. b \<in> set accs \<and> acc_id b = i} \<union> {b \<in> set accs. acc_id b \<noteq> i}" for z
      using that only by blast
    have "acc_id (a\<lparr>acc_external_user_id := Some uid\<rparr>) = i" using a'(2) by simp
    then consider (first) "x = a\<lparr>acc_external_user_id := Some uid\<rparr>" "y \<in> set accs" "acc_id y \<noteq> i"
      | (second) "y = a\<lparr>acc_external_user_id := Some uid\<rparr>" "x \<in> set accs" "acc_id x \<noteq> i"
      | (none) "x \<in> set accs" "y \<in> set accs"
      using shape [OF x] shape [OF y] ne by metis
    then show "acc_external_user_id y \<noteq> Some v"
    proof cases
      case first
      then show ?thesis using other [of y] pl ex by auto
    next
      case second
      then show ?thesis using other [of x] pl ex by auto
    next
      case none
      then show ?thesis using u ne pl ex unfolding unique_users_def by blast
    qed
  qed
qed

lemma unique_users_cong:
  "map (\<lambda>a. (acc_id a, acc_platform a, acc_external_user_id a)) accs' = map (\<lambda>a. (acc_id a, acc_platform a, acc_external_user_id a)) accs \<Longrightarrow>
    unique_users accs' = unique_users accs"
proof -
  assume m: "map (\<lambda>a. (acc_id a, acc_platform a, acc_external_user_id a)) accs' = map (\<lambda>a. (acc_id a, acc_platform a, acc_external_user_id a)) accs"
  let ?f = "\<lambda>a. (acc_id a, acc_platform a, acc_external_user_id a)"
  have eq: "unique_users xs \<longleftrightarrow> (\<forall>x \<in> ?f ` set xs. \<forall>y \<in> ?f ` set xs. \<forall>u. fst x \<noteq> fst y \<longrightarrow> fst (snd x) = fst (snd y) \<longrightarrow>
     snd (snd x) = Some u \<longrightarrow> snd (snd y) \<noteq> Some u)" for xs
    by (simp add: unique_users_def)
  have "?f ` set accs' = ?f ` set accs" using arg_cong [OF m, of set] by (simp only: list.set_map)
  then show ?thesis by (simp only: eq)
qed

text \<open>What the identity check leaves of the accounts.\<close>

definition accounts_ok :: "account list \<Rightarrow> bool" where
  "accounts_ok accs \<longleftrightarrow> distinct (map acc_id accs) \<and> unique_users accs"

lemma record_user_new:
  assumes ok: "accounts_ok accs" and s: "record_user True i uid accs = Inr accs'"
  shows "accounts_ok accs' \<and> uid \<noteq> None \<and> external_of accs' i = uid \<and>
    (\<forall>x. external_of accs i = Some x \<longrightarrow> uid = Some x) \<and> (\<forall>j. j \<noteq> i \<longrightarrow> external_of accs' j = external_of accs j)"
proof -
  obtain u accs1 where u: "uid = Some u" "ensure_account_user accs i u = Inr accs1"
    and r: "accs' = update_rows (\<lambda>b. acc_id b = i) (\<lambda>b. b\<lparr>acc_platform_user_id := Some u\<rparr>) accs1"
    using s by (auto simp: record_user_def split: option.splits sum.splits)
  have ok1: "accounts_ok accs1"
  proof (cases "account_by_id accs i")
    case None
    then show ?thesis using u(2) by (simp add: ensure_account_user_def)
  next
    case (Some a)
    then have "accs1 = accs \<or> (\<not> id_taken accs a u \<and> accs1 = update_rows (\<lambda>b. acc_id b = i) (\<lambda>b. b\<lparr>acc_external_user_id := Some u\<rparr>) accs)"
      using u(2) by (auto simp: ensure_account_user_def split: option.splits if_splits)
    then show ?thesis using ok unique_update [OF _ Some] by (auto simp: accounts_ok_def map_update_rows_keep)
  qed
  have "unique_users accs' = unique_users accs1" unfolding r by (rule unique_users_cong) (simp add: map_update_rows_keep)
  then have "accounts_ok accs'" using ok1 by (simp add: accounts_ok_def r map_update_rows_keep)
  moreover have "external_of accs' j = external_of accs1 j" for j
    unfolding r external_of_def by (subst account_update) (auto split: option.split)
  ultimately show ?thesis using ensure_user [OF u(2)] u(1) by auto
qed

subsection \<open>The invariant of a session\<close>

text \<open>\<open>i\<close> is the account, \<open>e\<close> the user id it had at the start.\<close>

definition account_kept :: "int \<Rightarrow> int option \<Rightarrow> 'i supervised \<Rightarrow> bool" where
  "account_kept i e p \<longleftrightarrow> ms_account_id (sp_session p) = i \<and> accounts_ok (sp_accounts p) \<and>
    (e \<noteq> None \<longrightarrow> external_of (sp_accounts p) i = e)"

definition right_user :: "'i supervised \<Rightarrow> bool" where
  "right_user p \<longleftrightarrow> user_id (sp_session p) \<noteq> None \<and>
    external_of (sp_accounts p) (ms_account_id (sp_session p)) = user_id (sp_session p)"

definition backoff_ok :: "'i sup \<Rightarrow> bool" where
  "backoff_ok v \<longleftrightarrow> BACKOFF_START \<le> sv_backoff v \<and> sv_backoff v \<le> BACKOFF_MAX"

fun phase_ok :: "'i supervised \<Rightarrow> 'i sup \<Rightarrow> phase \<Rightarrow> bool" where
  "phase_ok p v Attempt \<longleftrightarrow> \<not> ms_identity_ok (sp_session p) \<and> ms_state (sp_session p) \<noteq> Authorized"
| "phase_ok p v Serving \<longleftrightarrow> ms_identity_ok (sp_session p)"
| "phase_ok p v (Pausing d) \<longleftrightarrow> d = sv_backoff v \<and> ms_state (sp_session p) \<noteq> Authorized"

definition session_inv :: "int \<Rightarrow> int option \<Rightarrow> 'i supervised \<Rightarrow> bool" where
  "session_inv i e p \<longleftrightarrow> account_kept i e p \<and> ms_running (sp_session p) = (sp_sup p \<noteq> None) \<and>
    (sp_sup p = None \<longrightarrow> ms_state (sp_session p) \<noteq> Authorized) \<and>
    (\<forall>v ph. sp_sup p = Some (v, ph) \<longrightarrow> backoff_ok v \<and> phase_ok p v ph \<and> (ms_identity_ok (sp_session p) \<longrightarrow> right_user p))"

lemmas session_defs = session_inv_def account_kept_def right_user_def

lemma begin_attempt_sel [simp]:
  "ms_account_id (fst (begin_attempt now v s)) = ms_account_id s" "ms_identity_ok (fst (begin_attempt now v s)) = False"
  "ms_running (fst (begin_attempt now v s)) = ms_running s" "ms_login (fst (begin_attempt now v s)) = ms_login s"
  "ms_state (fst (begin_attempt now v s)) \<noteq> Authorized"
  "sv_backoff (snd (begin_attempt now v s)) = sv_backoff v" "sv_one_shot (snd (begin_attempt now v s)) = sv_one_shot v"
  "sv_began (snd (begin_attempt now v s)) = now" "sv_seeded (snd (begin_attempt now v s)) = sv_seeded v"
  by (simp_all add: begin_attempt_def)

definition fresh_sup :: "string \<Rightarrow> 'i option \<Rightarrow> bool \<Rightarrow> bool \<Rightarrow> usec \<Rightarrow> 'i sup" where
  "fresh_sup t seed ia one now = \<lparr>sv_transport = t, sv_seeded = seed, sv_interactive = ia, sv_one_shot = one,
     sv_backoff = BACKOFF_START, sv_was_authorized = False, sv_began = now\<rparr>"

lemma fresh_sup_sel [simp]:
  "sv_transport (fresh_sup t seed ia one now) = t" "sv_seeded (fresh_sup t seed ia one now) = seed"
  "sv_one_shot (fresh_sup t seed ia one now) = one" "sv_backoff (fresh_sup t seed ia one now) = BACKOFF_START"
  "sv_began (fresh_sup t seed ia one now) = now"
  by (simp_all add: fresh_sup_def)

text \<open>What \<open>spawn\<close> does when the proxy is there.\<close>

lemma spawn_eq:
  "spawn rp url now t seed ia one p =
    (if \<not> proxy_ok rp url
     then p\<lparr>sp_session := (set_state Failed (Some ''proxy required: MAX_PROXY_URL is empty and MAX_REQUIRE_PROXY=true'')
            ((sp_session p)\<lparr>ms_transport := Some t\<rparr>))\<lparr>ms_running := False\<rparr>, sp_sup := None\<rparr>
     else p\<lparr>sp_session := (fst (begin_attempt now (fresh_sup t seed ia one now) ((sp_session p)\<lparr>ms_transport := Some t\<rparr>)))\<lparr>ms_running := True\<rparr>,
            sp_sup := Some (snd (begin_attempt now (fresh_sup t seed ia one now) ((sp_session p)\<lparr>ms_transport := Some t\<rparr>)), Attempt)\<rparr>)"
  by (simp add: spawn_def Let_def fresh_sup_def split: prod.split)

lemma spawn_inv:
  assumes "account_kept i e p"
  shows "session_inv i e (spawn rp url now t seed ia one p)"
  using assms unfolding spawn_eq
  by (simp add: session_inv_def account_kept_def backoff_ok_def BACKOFF_START_def BACKOFF_MAX_def)

lemma stop_kept: "account_kept i e p \<Longrightarrow> account_kept i e (stop p)"
  by (simp add: stop_def Let_def account_kept_def)

lemma stop_inv: "account_kept i e p \<Longrightarrow> session_inv i e (stop p)"
  using stop_kept [of i e p] by (auto simp: session_inv_def stop_def Let_def)

lemma stop_sel [simp]: "sp_rows (stop p) = sp_rows p" "sp_accounts (stop p) = sp_accounts p"
  "ms_account_id (sp_session (stop p)) = ms_account_id (sp_session p)" "ms_running (sp_session (stop p)) = False"
  by (simp_all add: stop_def Let_def)

lemma inv_kept: "session_inv i e p \<Longrightarrow> account_kept i e p"
  by (simp add: session_inv_def)

lemma start_inv:
  assumes "session_inv i e p"
  shows "session_inv i e (start pm rp url now p)"
proof (cases "ms_running (sp_session p)")
  case False
  then have "sp_sup p = None" using assms unfolding session_inv_def by blast
  then have "session_inv i e (p\<lparr>sp_session := set_state Stopped None ((sp_session p)\<lparr>ms_transport := None\<rparr>)\<rparr>)"
    using assms by (simp add: session_defs)
  then show ?thesis using False spawn_inv [OF inv_kept [OF assms]] by (simp add: start_def split: option.split)
qed (use assms in \<open>simp add: start_def\<close>)

lemma final_state_sel:
  assumes "final_state x s = Some s'"
  shows "ms_account_id s' = ms_account_id s" "ms_profile s' = ms_profile s" "ms_identity_ok s' = ms_identity_ok s"
    "ex_kind x \<noteq> Cancelled_error \<Longrightarrow> ms_state s' \<noteq> Authorized"
  using assms by (auto simp: final_state_def split: exc_kind.splits if_splits)

lemma failed_inv:
  assumes k: "account_kept i e p" and u: "ms_identity_ok (sp_session p) \<longrightarrow> right_user p" and b: "backoff_ok v"
    and x: "ex_kind x \<noteq> Cancelled_error" and run: "ms_running (sp_session p)"
  shows "session_inv i e (attempt_failed x now v p)"
proof (cases "final_state x ((sp_session p)\<lparr>ms_client := False\<rparr>)")
  case (Some s')
  note f = final_state_sel [OF Some]
  show ?thesis using k f x Some by (simp add: attempt_failed_def Let_def session_defs)
next
  case None
  let ?b = "if STABLE_RESET \<le> now - sv_began v then BACKOFF_START else sv_backoff v"
  have "backoff_ok (v\<lparr>sv_backoff := ?b\<rparr>)" using b by (simp add: backoff_ok_def BACKOFF_START_def BACKOFF_MAX_def)
  then show ?thesis using k u run None by (auto simp: attempt_failed_def Let_def session_defs)
qed

lemma on_authorized_new:
  assumes "on_authorized True profile (s, accs) = (r, s', accs')" and "accounts_ok accs"
  shows "ms_account_id s' = ms_account_id s \<and> ms_running s' = ms_running s \<and> accounts_ok accs' \<and>
    (\<forall>x. external_of accs (ms_account_id s) = Some x \<longrightarrow> external_of accs' (ms_account_id s) = Some x) \<and>
    (case r of Inl msg \<Rightarrow> ms_identity_ok s' = ms_identity_ok s
     | Inr _ \<Rightarrow> ms_identity_ok s' \<and> user_id s' \<noteq> None \<and> external_of accs' (ms_account_id s) = user_id s')"
proof (cases "record_user True (ms_account_id s) (user_id (s\<lparr>ms_profile := profile\<rparr>)) accs")
  case (Inl msg)
  then show ?thesis using assms by (auto simp: on_authorized_def Let_def)
next
  case (Inr accs1)
  then show ?thesis using assms record_user_new [OF assms(2) Inr] by (auto simp: on_authorized_def Let_def)
qed

lemma connected_inv:
  assumes inv: "session_inv i e p" and at: "sp_sup p = Some (v, Attempt)"
  shows "session_inv i e (attempt_connected pm True now profile v p)"
proof -
  define rows where "rows = (case sv_seeded v of None \<Rightarrow> sp_rows p
    | Some info \<Rightarrow> save_session pm (ms_account_id (sp_session p)) (sv_transport v) now info (sp_rows p))"
  obtain r s accs where o: "on_authorized True profile ((sp_session p)\<lparr>ms_client := True\<rparr>, sp_accounts p) = (r, s, accs)"
    by (metis prod_cases3)
  have k: "account_kept i e p" and b: "backoff_ok v" and no: "\<not> ms_identity_ok (sp_session p)" and run: "ms_running (sp_session p)"
    using inv at by (auto simp: session_inv_def)
  have ok: "accounts_ok (sp_accounts p)" using k by (simp add: account_kept_def)
  note f = on_authorized_new [OF o ok]
  let ?v = "v\<lparr>sv_seeded := None, sv_was_authorized := True, sv_one_shot := False, sv_interactive := False\<rparr>"
  have b': "backoff_ok ?v" using b by (simp add: backoff_ok_def)
  have k': "account_kept i e (p\<lparr>sp_rows := rows, sp_session := s, sp_accounts := accs\<rparr>)"
    using k f by (auto simp: account_kept_def)
  show ?thesis
  proof (cases r)
    case (Inl msg)
    then have "session_inv i e (attempt_failed (mismatch msg) now ?v (p\<lparr>sp_rows := rows, sp_session := s, sp_accounts := accs\<rparr>))"
      using failed_inv [OF k' _ b'] f no run by (simp add: mismatch_def)
    then show ?thesis using Inl o by (simp add: attempt_connected_def Let_def rows_def)
  next
    case (Inr u)
    then show ?thesis using f k' b' run o
      by (simp add: attempt_connected_def Let_def rows_def session_inv_def right_user_def account_kept_def)
  qed
qed

lemma pause_over_inv:
  assumes inv: "session_inv i e p" and at: "sp_sup p = Some (v, Pausing d)"
  shows "session_inv i e (pause_over now v p)"
proof -
  obtain s v' where b: "begin_attempt now (v\<lparr>sv_backoff := min (sv_backoff v * 2) BACKOFF_MAX\<rparr>) (sp_session p) = (s, v')"
    by (rule prod.exhaust)
  note f = begin_attempt_sel [of now "v\<lparr>sv_backoff := min (sv_backoff v * 2) BACKOFF_MAX\<rparr>" "sp_session p", unfolded b fst_conv snd_conv]
  have "backoff_ok v" using inv at by (simp add: session_inv_def)
  then have "backoff_ok v'" using f by (simp add: backoff_ok_def BACKOFF_START_def BACKOFF_MAX_def seconds_def)
  then show ?thesis using inv at f by (simp add: pause_over_def b session_inv_def account_kept_def)
qed

subsection \<open>The steps\<close>

lemma step_state_not_authorized [simp]: "step_state st \<noteq> Authorized"
  by (cases st) simp_all

lemma login_moved_inv:
  assumes "session_inv i e p" and "sp_sup p = Some (v, Attempt)"
  shows "session_inv i e (p\<lparr>sp_session := on_login_step ((sp_session p)\<lparr>ms_login := Some l\<rparr>)\<rparr>)"
  using assms by (auto simp: on_login_step_def session_inv_def account_kept_def split: option.split)

lemma submit_code_sel:
  assumes "submit_code code password s = (r, s')"
  shows "\<exists>l. s' = s\<lparr>ms_login := l\<rparr>"
proof -
  have "s' = s \<or> (\<exists>l. s' = s\<lparr>ms_login := l\<rparr>)"
    using assms by (auto simp: submit_code_def send_password_def split: option.splits if_splits list.splits)
  then show ?thesis
  proof
    assume "s' = s"
    then have "s' = s\<lparr>ms_login := ms_login s\<rparr>" by simp
    then show ?thesis ..
  qed
qed

lemma login_changed_inv:
  assumes "session_inv i e p"
  shows "session_inv i e (p\<lparr>sp_session := (sp_session p)\<lparr>ms_login := l\<rparr>\<rparr>)"
proof -
  have "phase_ok (p\<lparr>sp_session := (sp_session p)\<lparr>ms_login := l\<rparr>\<rparr>) v ph = phase_ok p v ph" for v ph by (cases ph) simp_all
  then show ?thesis using assms by (auto simp: session_defs)
qed

lemma rows_changed_inv:
  assumes "session_inv i e p"
  shows "session_inv i e (p\<lparr>sp_rows := rows\<rparr>)"
proof -
  have "phase_ok (p\<lparr>sp_rows := rows\<rparr>) v ph = phase_ok p v ph" for v ph by (cases ph) simp_all
  then show ?thesis using assms by (auto simp: session_defs)
qed

lemma seed_changed_inv:
  assumes "session_inv i e p" and "sp_sup p = Some (v, ph)"
  shows "session_inv i e (p\<lparr>sp_sup := Some (v\<lparr>sv_seeded := x\<rparr>, ph)\<rparr>)"
proof -
  have "phase_ok (p\<lparr>sp_sup := Some (v\<lparr>sv_seeded := x\<rparr>, ph)\<rparr>) (v\<lparr>sv_seeded := x\<rparr>) ph = phase_ok p v ph" by (cases ph) simp_all
  moreover have "backoff_ok (v\<lparr>sv_seeded := x\<rparr>) = backoff_ok v" by (simp add: backoff_ok_def)
  ultimately show ?thesis using assms by (auto simp: session_defs)
qed

lemma kept_session: "account_kept i e p \<Longrightarrow> ms_account_id s = i \<Longrightarrow> account_kept i e (p\<lparr>sp_session := s\<rparr>)"
  by (simp add: account_kept_def)

lemma logout_inv:
  assumes "account_kept i e p" shows "session_inv i e (logout p)"
  using stop_kept [OF assms] stop_inv [OF assms] by (auto simp: logout_def Let_def session_inv_def account_kept_def stop_def)

lemma qr_login_inv:
  assumes "start_qr_login pm rp url now p = Inr p'" and "session_inv i e p"
  shows "session_inv i e p'"
proof (cases "login_running (sp_session p)")
  case True
  then show ?thesis using assms by (simp add: start_qr_login_def split: option.splits)
next
  case False
  let ?p = "(stop p)\<lparr>sp_session := (sp_session (stop p))\<lparr>ms_login := login_controller ''qr'', ms_qr_expired := False\<rparr>\<rparr>"
  have "account_kept i e ?p" using kept_session [OF stop_kept [OF inv_kept [OF assms(2)]]] assms(2) by (simp add: session_defs)
  moreover have "p' = spawn rp url now ''web'' None True True ?p"
    using assms(1) False by (simp add: start_qr_login_def Let_def split: option.splits)
  ultimately show ?thesis using spawn_inv by simp
qed

lemma sms_login_inv:
  assumes "start_sms_login pm rp url now p = Inr p'" and "session_inv i e p"
  shows "session_inv i e p'"
proof (cases "login_running (sp_session p)")
  case True
  then show ?thesis using assms by (simp add: start_sms_login_def split: option.splits)
next
  case False
  let ?p = "(stop p)\<lparr>sp_session := (sp_session (stop p))\<lparr>ms_login := login_controller ''sms''\<rparr>\<rparr>"
  have "account_kept i e ?p" using kept_session [OF stop_kept [OF inv_kept [OF assms(2)]]] assms(2) by (simp add: session_defs)
  moreover have "p' = spawn rp url now ''tcp'' None True True ?p"
    using assms(1) False by (simp add: start_sms_login_def Let_def split: option.splits)
  ultimately show ?thesis using spawn_inv by simp
qed

lemma import_begin_eq:
  assumes "import_begin pm rp url now raw p = Inr p'"
  shows "\<exists>t info. parse_session_json pm raw None = Inr (t, info) \<and>
    p' = spawn rp url now t (Some info) False True ((stop p)\<lparr>sp_session := (sp_session (stop p))\<lparr>ms_login := None\<rparr>\<rparr>)"
  using assms by (auto simp: import_begin_def Let_def split: sum.splits)

lemma import_begin_inv:
  assumes "import_begin pm rp url now raw p = Inr p'" and "session_inv i e p"
  shows "session_inv i e p'"
proof -
  let ?p = "(stop p)\<lparr>sp_session := (sp_session (stop p))\<lparr>ms_login := None\<rparr>\<rparr>"
  have "account_kept i e ?p" using kept_session [OF stop_kept [OF inv_kept [OF assms(2)]]] assms(2) by (simp add: session_defs)
  then show ?thesis using import_begin_eq [OF assms(1)] spawn_inv by auto
qed

lemma import_end_inv:
  assumes "import_end pm rp url now p = (d, p')" and "session_inv i e p"
  shows "session_inv i e p'"
  using assms start_inv [OF stop_inv [OF inv_kept [OF assms(2)]]]
  by (auto simp: import_end_def Let_def split: if_splits)

lemma session_step_inv:
  assumes "session_step pm True rp url p p'" and "session_inv i e p"
  shows "session_inv i e p'"
  using assms
proof (induction rule: session_step.induct)
  case (connected p v now profile) then show ?case by (intro connected_inv)
next
  case (not_connected p v x now)
  then have "backoff_ok v" "\<not> ms_identity_ok (sp_session p)" "ms_running (sp_session p)" by (auto simp: session_inv_def)
  then show ?case using failed_inv [OF inv_kept] not_connected by blast
next
  case (connection_ended p v x now)
  then have "backoff_ok v" "ms_identity_ok (sp_session p) \<longrightarrow> right_user p" "ms_running (sp_session p)" by (auto simp: session_inv_def)
  then show ?case using failed_inv [OF inv_kept] connection_ended by blast
next
  case (resumed p v d now) then show ?case by (intro pause_over_inv)
next
  case (started p now) then show ?case by (rule start_inv)
next
  case (stopped p) then show ?case by (intro stop_inv inv_kept)
next
  case (logged_out p) then show ?case by (intro logout_inv inv_kept)
next
  case (qr_login now p p') then show ?case by (rule qr_login_inv)
next
  case (sms_login now p p') then show ?case by (rule sms_login_inv)
next
  case (login_moved p v l) then show ?case by (intro login_moved_inv)
next
  case (code_sent code password p r s)
  then obtain l where "s = (sp_session p)\<lparr>ms_login := l\<rparr>" using submit_code_sel by blast
  then show ?case using login_changed_inv code_sent by simp
next
  case (session_saved p v ph now info) then show ?case by (intro rows_changed_inv)
next
  case (token_rotated p v ph now old new) then show ?case by (intro rows_changed_inv)
next
  case (session_removed p v ph tok) then show ?case by (intro rows_changed_inv)
next
  case (seed_changed p v ph info) then show ?case by (intro seed_changed_inv)
next
  case (import_begun now raw p p') then show ?case by (rule import_begin_inv)
next
  case (import_ended now p d p') then show ?case by (rule import_end_inv)
qed

interpretation session_runs: preserved "session_step pm True rp url" "session_inv i e"
  for pm rp url i e
  by unfold_locales (rule session_step_inv)

end
