(* ===== verification/Max_Session_Props.thy ===== *)
theory Max_Session_Props
  imports Max_Session_Facts
begin

text \<open>
  Properties of a MAX session: the limits of a login, the supervisor's retries, the identity
  check, the stored session and its import.
\<close>

subsection \<open>The limits of a login\<close>

text \<open>Every password was given within the time of the first prompt.\<close>

definition in_time :: "usec \<Rightarrow> (usec \<times> string) list \<Rightarrow> bool" where
  "in_time f xs \<longleftrightarrow> list_all (\<lambda>t. f \<le> t \<and> t \<le> f + PASSWORD_TIMEOUT) (map fst xs)"

lemma in_time_simps [simp]:
  "in_time f []" "in_time f (xs @ [x]) \<longleftrightarrow> in_time f xs \<and> f \<le> fst x \<and> fst x \<le> f + PASSWORD_TIMEOUT"
  by (auto simp: in_time_def)

definition login_inv :: "login_world \<Rightarrow> bool" where
  "login_inv w \<longleftrightarrow> lc_password_attempts (lw_login w) = int (length (lw_handed w)) \<and> length (lw_handed w) \<le> 3 \<and>
    (lc_password (lw_login w) \<noteq> None \<longrightarrow> length (lw_handed w) \<le> 2) \<and>
    (lw_first w = None \<longrightarrow> lc_password_deadline (lw_login w) = None \<and> lc_password (lw_login w) = None \<and> lw_handed w = []) \<and>
    (\<forall>f. lw_first w = Some f \<longrightarrow> lc_password_deadline (lw_login w) = Some (f + PASSWORD_TIMEOUT) \<and> f \<le> lw_now w \<and>
      (lc_password (lw_login w) = Some Pending \<longrightarrow> lw_now w \<le> f + PASSWORD_TIMEOUT) \<and>
      ((\<exists>p. lc_password (lw_login w) = Some (Given p)) \<longrightarrow> f \<le> lw_given_at w \<and> lw_given_at w \<le> f + PASSWORD_TIMEOUT) \<and>
      in_time f (lw_handed w))"

lemma begin_password_inv:
  assumes "login_inv w" and "lc_password (lw_login w) = None"
  shows "login_inv (w\<lparr>lw_login := snd (begin_password hint (lw_now w) (lw_login w)),
     lw_first := (case lw_first w of None \<Rightarrow> Some (lw_now w) | t \<Rightarrow> t)\<rparr>)"
proof (cases "lw_first w")
  case None
  then show ?thesis using assms
    by (auto simp: login_inv_def begin_password_def Let_def PASSWORD_MAX_ATTEMPTS_def PASSWORD_TIMEOUT_def seconds_def)
next
  case (Some f)
  then show ?thesis using assms
    by (auto simp: login_inv_def begin_password_def Let_def PASSWORD_MAX_ATTEMPTS_def)
qed

lemma login_run_inv:
  assumes "login_run w w'" and "login_inv w"
  shows "login_inv w'"
  using assms
proof (induction rule: login_run.induct)
  case (ask_password w hint)
  then show ?case by (intro begin_password_inv)
next
  case (pass_time d w)
  then show ?case by (auto simp: login_inv_def)
next
  case (qr w link ex)
  then show ?case by (auto simp: login_inv_def on_qr_def Let_def split: option.split)
next
  case (give w p)
  then show ?case by (auto simp: login_inv_def give_password_def)
next
  case (got_password w r l)
  then show ?case by (cases "lw_first w") (auto simp: login_inv_def end_password_def awaited_def Let_def split: future.splits)
next
  case (cancelled w)
  then show ?case by (auto simp: login_inv_def cancel_login_def cancel_future_def split: option.splits future.splits)
qed (auto simp: login_inv_def begin_code_def end_code_def give_code_def)

interpretation login_runs: preserved login_run login_inv
  by unfold_locales (rule login_run_inv)

lemma login_start_inv: "login_start w \<Longrightarrow> login_inv w"
  by (auto simp: login_start_def login_controller_def login_inv_def split: if_splits)
     (metis login.select_convs(6,8,10))+

text \<open>
  C7 At most three passwords. However REST calls, PyMax's questions and time interleave, a login
  hands PyMax at most three passwords, each given within 600 seconds of the first question; after
  the third the next question ends the login.
\<close>

theorem password_limits:
  assumes "login_start w0" and "login_run\<^sup>*\<^sup>* w0 w"
  shows "length (lw_handed w) \<le> 3 \<and>
    (\<forall>x \<in> set (lw_handed w). \<exists>f. lw_first w = Some f \<and> f \<le> fst x \<and> fst x \<le> f + PASSWORD_TIMEOUT) \<and>
    (length (lw_handed w) = 3 \<longrightarrow>
      fst (begin_password hint now (lw_login w)) = Some (Attempts_exceeded ''password attempts exceeded''))"
proof -
  have i: "login_inv w" using login_runs.run_inv [OF assms(2) login_start_inv [OF assms(1)]] .
  then have "length (lw_handed w) = 3 \<longrightarrow>
      fst (begin_password hint now (lw_login w)) = Some (Attempts_exceeded ''password attempts exceeded'')"
    by (simp add: login_inv_def begin_password_def PASSWORD_MAX_ATTEMPTS_def)
  moreover have "\<exists>f. lw_first w = Some f \<and> f \<le> fst x \<and> fst x \<le> f + PASSWORD_TIMEOUT" if "x \<in> set (lw_handed w)" for x
    using i that by (cases "lw_first w") (auto simp: login_inv_def in_time_def list_all_iff)
  ultimately show ?thesis using i by (simp add: login_inv_def)
qed

definition demo_login :: login_world where
  "demo_login = \<lparr>lw_login = the (login_controller ''qr''), lw_now = 0, lw_given_at = 0, lw_handed = [], lw_first = None\<rparr>"

theorem password_limits_witness:
  "\<exists>w. login_run\<^sup>*\<^sup>* demo_login w \<and> lw_handed w = [(0, ''secret'')] \<and> length (lw_handed w) \<le> 3"
proof -
  let ?l0 = "lw_login demo_login"
  let ?l1 = "snd (begin_password None 0 ?l0)"
  let ?l2 = "snd (give_password ''secret'' ?l1)"
  let ?w1 = "demo_login\<lparr>lw_login := ?l1, lw_first := Some 0\<rparr>"
  let ?w2 = "?w1\<lparr>lw_login := ?l2, lw_given_at := 0\<rparr>"
  let ?w3 = "?w2\<lparr>lw_login := snd (end_password ?l2), lw_handed := [(0, ''secret'')]\<rparr>"
  have none: "lc_password ?l0 = None" "lc_password ?l1 = Some Pending" "lc_password ?l2 = Some (Given ''secret'')"
    "end_password ?l2 = (Inr ''secret'', snd (end_password ?l2))" by code_simp+
  have "login_run demo_login ?w1" using login_run.ask_password [of demo_login None] none(1) by (simp add: demo_login_def)
  moreover have "login_run ?w1 ?w2" using login_run.give [of ?w1 "''secret''"] none(2) by (simp add: demo_login_def)
  moreover have "login_run ?w2 ?w3"
    using login_run.got_password [of ?w2 "Inr ''secret''" "snd (end_password ?l2)"] none(3,4) by (simp add: demo_login_def)
  ultimately have run: "login_run\<^sup>*\<^sup>* demo_login ?w3" by simp
  have "login_start demo_login" by (simp add: login_start_def demo_login_def login_controller_def)
  from password_limits [OF this run] have "length (lw_handed ?w3) \<le> 3" by blast
  then show ?thesis using run by (intro exI [of _ ?w3]) simp
qed

subsection \<open>The supervisor\<close>

text \<open>The errors that end the session for good.\<close>

definition fatal :: "exc \<Rightarrow> bool" where
  "fatal x \<longleftrightarrow> ex_kind x \<in> {Cancelled_error, Qr_expired_error, Max_auth_error, Password_attempts_error, Identity_mismatch_error} \<or>
    ex_kind x = Api_error \<and> (is_unauthorized x \<or> is_banned x)"

lemma final_iff_fatal: "final_state x s = None \<longleftrightarrow> \<not> fatal x"
  by (cases "ex_kind x") (auto simp: final_state_def fatal_def)

text \<open>One failed attempt and the pause after it.\<close>

fun retry_all :: "(exc \<times> usec \<times> usec) list \<Rightarrow> 'i supervised \<Rightarrow> 'i supervised" where
  "retry_all [] p = p"
| "retry_all ((x, failed_at, resumed_at) # es) p =
    (case sp_sup p of
       Some (v, Attempt) \<Rightarrow>
         (case sp_sup (attempt_failed x failed_at v p) of
            Some (v', Pausing d) \<Rightarrow> retry_all es (pause_over resumed_at v' (attempt_failed x failed_at v p))
          | _ \<Rightarrow> attempt_failed x failed_at v p)
     | _ \<Rightarrow> p)"

text \<open>Each attempt fails within the stable time, with an error that is not fatal.\<close>

fun short_attempts :: "usec \<Rightarrow> (exc \<times> usec \<times> usec) list \<Rightarrow> bool" where
  "short_attempts began [] = True"
| "short_attempts began ((x, failed_at, resumed_at) # es) \<longleftrightarrow>
    \<not> fatal x \<and> failed_at - began < STABLE_RESET \<and> short_attempts resumed_at es"

lemma failed_retry:
  assumes "\<not> fatal x" and "\<not> sv_one_shot v"
  shows "sp_sup (attempt_failed x now v p) =
    (let d = (if STABLE_RESET \<le> now - sv_began v then BACKOFF_START else sv_backoff v) in Some (v\<lparr>sv_backoff := d\<rparr>, Pausing d))"
  using assms final_iff_fatal [of x] by (auto simp: attempt_failed_def Let_def split: option.split)

lemma retry_all_backoff:
  assumes "sp_sup p = Some (v, Attempt)" and "\<not> sv_one_shot v" and "short_attempts (sv_began v) es"
    and "sv_backoff v = min (b * 2 ^ k) BACKOFF_MAX" and "0 \<le> b"
  shows "\<exists>v'. sp_sup (retry_all es p) = Some (v', Attempt) \<and> sv_backoff v' = min (b * 2 ^ (k + length es)) BACKOFF_MAX \<and>
    \<not> sv_one_shot v'"
  using assms
proof (induction es arbitrary: p v k)
  case (Cons y es)
  obtain x t t' where y: "y = (x, t, t')" by (rule prod_cases3)
  have x: "\<not> fatal x" "t - sv_began v < STABLE_RESET" "short_attempts t' es" using Cons.prems(3) y by simp_all
  let ?p1 = "attempt_failed x t v p"
  have s: "sp_sup ?p1 = Some (v, Pausing (sv_backoff v))" using failed_retry [OF x(1) Cons.prems(2)] x(2) by simp
  obtain s' v' where b: "begin_attempt t' (v\<lparr>sv_backoff := min (sv_backoff v * 2) BACKOFF_MAX\<rparr>) (sp_session ?p1) = (s', v')"
    by (rule prod.exhaust)
  note f = begin_attempt_sel [of t' "v\<lparr>sv_backoff := min (sv_backoff v * 2) BACKOFF_MAX\<rparr>" "sp_session ?p1", unfolded b fst_conv snd_conv]
  have sup: "sp_sup (pause_over t' v ?p1) = Some (v', Attempt)" by (simp add: pause_over_def b)
  have d: "0 \<le> b * 2 ^ k" using Cons.prems(5) by simp
  have "sv_backoff v' = min (b * 2 ^ Suc k) BACKOFF_MAX"
    using f Cons.prems(4) d by (simp add: min_def BACKOFF_MAX_def seconds_def)
  from Cons.IH [OF sup _ _ this Cons.prems(5)] show ?case using f x(3) Cons.prems(1,2) y s by simp
qed (use assms in simp)

text \<open>
  The pauses double. After k attempts in a row that failed within ten minutes, the pause is
  five seconds times 2^k, at most ten minutes; an attempt that lasted ten minutes sets it back.
\<close>

theorem pauses_double:
  assumes "sp_sup p = Some (v, Attempt)" and "\<not> sv_one_shot v" and "sv_backoff v = BACKOFF_START"
    and "short_attempts (sv_began v) es" and "\<not> fatal x"
  shows "\<exists>v'. sp_sup (retry_all es p) = Some (v', Attempt) \<and>
    (\<exists>v''. sp_sup (attempt_failed x now v' (retry_all es p)) = Some (v'', Pausing
       (if STABLE_RESET \<le> now - sv_began v' then seconds 5 else min (seconds 5 * 2 ^ length es) (seconds 600))))"
proof -
  have "sv_backoff v = min (BACKOFF_START * 2 ^ 0) BACKOFF_MAX" "0 \<le> BACKOFF_START"
    using assms(3) by (simp_all add: BACKOFF_START_def BACKOFF_MAX_def)
  from retry_all_backoff [OF assms(1,2,4) this]
  obtain v' where v': "sp_sup (retry_all es p) = Some (v', Attempt)"
    "sv_backoff v' = min (BACKOFF_START * 2 ^ length es) BACKOFF_MAX" "\<not> sv_one_shot v'" by auto
  then show ?thesis using failed_retry [OF assms(5) v'(3), of now "retry_all es p"]
    by (simp add: BACKOFF_START_def BACKOFF_MAX_def Let_def)
qed

definition no_network :: exc where
  "no_network = \<lparr>ex_kind = Network_error, ex_type = ''ConnectionError'', ex_text = ''closed'', ex_api = False, ex_error = None, ex_message = None\<rparr>"

definition demo_supervised :: "'i supervised" where
  "demo_supervised = spawn False [] 0 ''web'' None False False
     \<lparr>sp_session = new_session 1 ''work'' ''+7'', sp_accounts = [], sp_rows = [], sp_sup = None\<rparr>"

definition eight_failures :: "(exc \<times> usec \<times> usec) list" where
  "eight_failures = replicate 8 (no_network, 0, 0)"

theorem pauses_double_witness:
  "\<exists>v v'. sp_sup (retry_all eight_failures (demo_supervised :: unit supervised)) = Some (v, Attempt) \<and>
     sp_sup (attempt_failed no_network (sv_began v) v (retry_all eight_failures demo_supervised)) = Some (v', Pausing (seconds 600))"
proof -
  let ?v = "snd (begin_attempt 0 (fresh_sup ''web'' (None :: unit option) False False 0) (new_session 1 ''work'' ''+7''))"
  have sup: "sp_sup (demo_supervised :: unit supervised) = Some (?v, Attempt)"
    by (simp add: demo_supervised_def spawn_eq proxy_ok_def begin_attempt_def)
  have nf: "\<not> fatal no_network" by (simp add: fatal_def no_network_def)
  have s: "short_attempts (sv_began ?v) eight_failures"
    using nf by (simp add: eight_failures_def numeral_eq_Suc STABLE_RESET_def seconds_def)
  obtain v where v: "sp_sup (retry_all eight_failures (demo_supervised :: unit supervised)) = Some (v, Attempt)"
    using pauses_double [OF sup _ _ s nf] by auto
  then show ?thesis using pauses_double [OF sup _ _ s nf, of "sv_began v"]
    by (simp add: eight_failures_def STABLE_RESET_def seconds_def)
qed

subsection \<open>The stored session\<close>

text \<open>
  The stored session reads back. The JSON of a session with token and device id parses to the
  same transport and session, and a store of the other transport refuses it.
\<close>

theorem session_json_roundtrip:
  assumes "codec_ok pm" and "valid_info pm info" and "t \<in> set TRANSPORTS"
  shows "parse_session_json pm (session_to_json pm info t) None = Inr (t, info) \<and>
    parse_session_json pm (session_to_json pm info t) (Some u) = (if u = t then Inr (t, info) else Inl (Other_transport t u))"
proof -
  have "parse_session_json pm raw (Some u) = Inl (Other_transport t u)"
    if "parse_session_json pm raw None = Inr (t, info)" "u \<noteq> t" for raw
    using that by (auto simp: parse_session_json_def split: option.splits json.splits if_splits sum.splits)
  then show ?thesis using parse_printed [OF assms, of None] parse_printed [OF assms, of "Some t"] by auto
qed

text \<open>A concrete PyMax for examples: a session is a token and a device id, its text a list of escaped strings.\<close>

fun escaped :: "string \<Rightarrow> string" where
  "escaped [] = ''.''"
| "escaped (c # cs) = CHR ''x'' # c # escaped cs"

fun unescape :: "string \<Rightarrow> string \<times> string" where
  "unescape (a # c # cs) = (if a = CHR ''x'' then (case unescape cs of (s, r) \<Rightarrow> (c # s, r)) else ([], c # cs))"
| "unescape [a] = ([], [])"
| "unescape [] = ([], [])"

lemma unescape_escaped: "unescape (escaped s @ r) = (s, r)"
  by (induction s) (cases r, auto)

definition text_of :: "dict \<Rightarrow> string \<Rightarrow> string" where
  "text_of d k = (case map_of d k of Some (JStr s) \<Rightarrow> s | _ \<Rightarrow> [])"

definition demo_session_dict :: "string \<Rightarrow> string \<Rightarrow> string \<Rightarrow> dict" where
  "demo_session_dict tr t d = [(''v'', JInt 1), (''transport'', JStr tr), (''token'', JStr t), (''device_id'', JStr d), (''pymax'', JStr ''2.4.1'')]"

definition demo_pymax :: "(string \<times> string) pymax" where
  "demo_pymax = \<lparr>pm_version = ''2.4.1'', pm_dump = (\<lambda>(t, d). [(''token'', JStr t), (''device_id'', JStr d)]),
     pm_validate = (\<lambda>f. Inr (text_of f ''token'', text_of f ''device_id'')), pm_token = fst, pm_device_id = snd,
     pm_phone = (\<lambda>_. None), pm_with_token = (\<lambda>(t, d) new. (new, d)),
     pm_dumps = (\<lambda>j. case j of JObj d \<Rightarrow> escaped (text_of d ''transport'') @ escaped (text_of d ''token'') @ escaped (text_of d ''device_id'') | _ \<Rightarrow> []),
     pm_loads = (\<lambda>s. case unescape s of (tr, r) \<Rightarrow> (case unescape r of (t, r') \<Rightarrow> Some (JObj (demo_session_dict tr t (fst (unescape r')))))),
     pm_float = (\<lambda>_. None)\<rparr>"

lemma demo_dict: "session_dict demo_pymax i tr = demo_session_dict tr (fst i) (snd i)"
  by (cases i) (simp add: session_dict_def demo_pymax_def dict_put_def demo_session_dict_def)

lemma demo_codec_ok: "codec_ok demo_pymax"
proof -
  have "pm_loads demo_pymax (pm_dumps demo_pymax (JObj (demo_session_dict tr t d))) = Some (JObj (demo_session_dict tr t d))" for tr t d
    using unescape_escaped [of d "[]"]
    by (simp add: demo_pymax_def demo_session_dict_def text_of_def unescape_escaped split: prod.split)
  moreover have "text_of [(''token'', JStr a), (''device_id'', JStr b)] ''token'' = a \<and> text_of [(''token'', JStr a), (''device_id'', JStr b)] ''device_id'' = b" for a b
    by (simp add: text_of_def)
  ultimately show ?thesis unfolding codec_ok_def demo_dict by (auto simp: demo_pymax_def)
qed

theorem session_json_roundtrip_witness:
  "parse_session_json demo_pymax (session_to_json demo_pymax (''tok'', ''dev'') ''web'') (Some ''tcp'') = Inl (Other_transport ''web'' ''tcp'')"
  using session_json_roundtrip [OF demo_codec_ok, of "(''tok'', ''dev'')" "''web''" "''tcp''"]
  by (simp add: valid_info_def demo_pymax_def TRANSPORTS_def)

text \<open>
  C33 The database store is one cell. Any sequence of saved sessions, token rotations and removals
  on an account's rows behaves as on one optional session: a rotation counts only from the current
  token, a removal only with it; the sessions of other accounts stay, and never two rows are active.
\<close>

theorem session_store_is_a_cell:
  assumes "codec_ok pm" and "t \<in> set TRANSPORTS" and "one_active rows" and "active_row rows a = None"
    and "\<forall>(now, x) \<in> set xs. op_ok (valid_info pm) x" and "b \<noteq> a"
  shows "let rows' = fold (\<lambda>(now, x). pg_perform pm a t now x) xs rows in
    load_session pm a t rows' = fold (\<lambda>(now, x). cell_step (pm_token pm) (pm_with_token pm) x) xs None \<and>
    one_active rows' \<and> active_row rows' b = active_row rows b"
proof -
  have none: "load_session pm a t rows = None" using assms(4) by (simp add: load_session_def load_raw_def)
  then have "pg_inv pm a t rows" using assms(1-3) by (simp add: pg_inv_def)
  from pg.run [OF this assms(5)] show ?thesis
    using none pg_run_other_account [OF assms(6)] by (simp add: Let_def pg_inv_def)
qed

theorem session_store_is_a_cell_witness:
  "load_session demo_pymax 1 ''web'' (fold (\<lambda>(now, x). pg_perform demo_pymax 1 ''web'' now x)
     [(0, Save (''a'', ''dev'')), (1, Rotate ''a'' ''b''), (2, Rotate ''a'' ''c''), (3, Remove ''a'')] []) = Some (''b'', ''dev'')"
proof -
  let ?xs = "[(0, Save (''a'', ''dev'')), (1, Rotate ''a'' ''b''), (2, Rotate ''a'' ''c''), (3, Remove ''a'')] :: (usec \<times> (string \<times> string) store_op) list"
  have "\<forall>(now, x) \<in> set ?xs. op_ok (valid_info demo_pymax) x" by (simp add: valid_info_def demo_pymax_def)
  from session_store_is_a_cell [OF demo_codec_ok _ _ _ this, of "''web''" "[]" 1 2]
  show ?thesis by (simp add: TRANSPORTS_def one_active_def active_row_def one_or_none_def Let_def) (simp add: demo_pymax_def)
qed

text \<open>
  When the supervisor gives up. A failed attempt is retried exactly when the error is neither
  a failed login, an identity mismatch, a revoked session nor a ban, and the attempt was not the
  one of a login or an import. A revoked token ends as unauthorized and its stored session is
  deactivated, unless the session is an import not yet stored.
\<close>

theorem supervisor_gives_up_iff:
  "(sp_sup (attempt_failed x now v p) = None \<longleftrightarrow> fatal x \<or> sv_one_shot v) \<and>
   (sp_sup (attempt_failed x now v p) \<noteq> None \<longleftrightarrow> (\<exists>v' d. sp_sup (attempt_failed x now v p) = Some (v', Pausing d))) \<and>
   (ex_kind x = Api_error \<and> is_unauthorized x \<longrightarrow> ms_state (sp_session (attempt_failed x now v p)) = Unauthorized \<and>
      (if sv_seeded v = None then active_row (sp_rows (attempt_failed x now v p)) (ms_account_id (sp_session p)) = None
       else sp_rows (attempt_failed x now v p) = sp_rows p)) \<and>
   (ex_kind x = Api_error \<and> is_banned x \<longrightarrow> ms_state (sp_session (attempt_failed x now v p)) = Banned)"
proof (cases "final_state x ((sp_session p)\<lparr>ms_client := False\<rparr>)")
  case None
  then have "\<not> fatal x" using final_iff_fatal by blast
  then show ?thesis using None by (auto simp: attempt_failed_def Let_def fatal_def)
next
  case (Some s)
  then have "fatal x" using final_iff_fatal [of x "(sp_session p)\<lparr>ms_client := False\<rparr>"] by simp
  moreover have "ex_kind x = Api_error \<and> is_unauthorized x \<longrightarrow> ms_state s = Unauthorized" "ex_kind x = Api_error \<and> is_banned x \<longrightarrow> ms_state s = Banned"
    using Some by (auto simp: final_state_def is_banned_def)
  ultimately show ?thesis using Some by (auto simp: attempt_failed_def Let_def deactivated)
qed

definition revoked :: exc where
  "revoked = \<lparr>ex_kind = Api_error, ex_type = ''ApiError'', ex_text = ''x'', ex_api = True, ex_error = Some ''FAIL_LOGIN_TOKEN'', ex_message = None\<rparr>"

theorem supervisor_gives_up_iff_witness:
  "case sp_sup (demo_supervised :: unit supervised) of
     Some (v, ph) \<Rightarrow> sp_sup (attempt_failed revoked 0 v (demo_supervised :: unit supervised)) = None \<and>
       ms_state (sp_session (attempt_failed revoked 0 v (demo_supervised :: unit supervised))) = Unauthorized
   | None \<Rightarrow> False"
proof -
  have u: "is_unauthorized revoked" by code_simp
  obtain v where v: "sp_sup (demo_supervised :: unit supervised) = Some (v, Attempt)"
    by (simp add: demo_supervised_def spawn_eq proxy_ok_def)
  show ?thesis using supervisor_gives_up_iff [of revoked 0 v demo_supervised] u v by (simp add: fatal_def revoked_def)
qed


definition demo_account :: "int \<Rightarrow> int option \<Rightarrow> account" where
  "demo_account i u = \<lparr>acc_id = i, acc_alias = ''work'', acc_phone = ''+7'', acc_mode = ''rw'', acc_is_enabled = True,
     acc_platform = ''max'', acc_platform_user_id = None, acc_write_chat_ids = None, acc_write_rate_per_hour = None,
     acc_external_user_id = u, acc_tg_user_id = None, acc_display_name = None, acc_watch_chat_ids = None, acc_notes = None\<rparr>"

definition idle_session :: "int option \<Rightarrow> session_rows \<Rightarrow> (string \<times> string) supervised" where
  "idle_session u rows = \<lparr>sp_session = new_session 1 ''work'' ''+7'', sp_accounts = [demo_account 1 u], sp_rows = rows, sp_sup = None\<rparr>"

definition user_profile :: "int \<Rightarrow> profile option" where
  "user_profile u = Some \<lparr>pf_user_id = Some u, pf_link = None\<rparr>"






subsection \<open>The import\<close>

text \<open>
  C40 A foreign import replaces the stored session. \<^verbatim>\<open>import_session\<close> is to persist only on
  success, but the supervisor promotes the seeded store right after the connection, before the
  identity check: an import of another user's session is answered with an error and leaves that
  session, not the one stored before, as the account's stored session.
\<close>

theorem foreign_import_replaces_session:
  assumes "codec_ok pm" and "parse_session_json pm raw None = Inr (t, info)" and "valid_info pm info"
    and "import_begin pm rp url t1 raw p = Inr p1" and "sp_sup p1 = Some (v, Attempt)"
    and "external_of (sp_accounts p) (ms_account_id (sp_session p)) = Some u" and "w \<noteq> u"
    and "import_end pm rp url t3 (attempt_connected pm True t2 (user_profile w) v p1) = (answer, p3)"
  shows "answer = [(''status'', JStr ''error''), (''detail'', JStr ''Session is invalid or expired'')] \<and>
    load_session pm (ms_account_id (sp_session p)) t (sp_rows p3) = Some info"
proof -
  let ?i = "ms_account_id (sp_session p)"
  let ?q = "(stop p)\<lparr>sp_session := (sp_session (stop p))\<lparr>ms_login := None\<rparr>\<rparr>"
  have p1: "p1 = spawn rp url t1 t (Some info) False True ?q" using import_begin_eq [OF assms(4)] assms(2) by auto
  have px: "proxy_ok rp url" using assms(5) by (auto simp: p1 spawn_eq split: if_splits)
  have s1: "sp_rows p1 = sp_rows p" "sp_accounts p1 = sp_accounts p" "ms_account_id (sp_session p1) = ?i"
    and v: "sv_seeded v = Some info" "sv_transport v = t"
    using assms(5) px by (auto simp: p1 spawn_eq begin_attempt_def)
  let ?rows = "save_session pm ?i t t2 info (sp_rows p)"
  have tr: "t \<in> set TRANSPORTS"
    using assms(2) by (auto simp: parse_session_json_def split: option.splits json.splits if_splits sum.splits)
  obtain a where a: "account_by_id (sp_accounts p) ?i = Some a" "acc_external_user_id a = Some u"
    using assms(6) by (auto simp: external_of_def split: option.splits)
  obtain msg where m: "record_user True ?i (Some w) (sp_accounts p) = Inl msg"
    using a assms(7) by (simp add: record_user_def ensure_account_user_def)
  let ?v = "v\<lparr>sv_seeded := None, sv_was_authorized := True, sv_one_shot := False, sv_interactive := False\<rparr>"
  have o: "attempt_connected pm True t2 (user_profile w) v p1 = attempt_failed (mismatch msg) t2 ?v
      (p1\<lparr>sp_rows := ?rows, sp_session := (sp_session p1)\<lparr>ms_client := True, ms_profile := user_profile w\<rparr>, sp_accounts := sp_accounts p\<rparr>)"
    using m s1 v by (simp add: attempt_connected_def on_authorized_def Let_def user_profile_def)
  let ?p2 = "attempt_connected pm True t2 (user_profile w) v p1"
  have p2: "sp_rows ?p2 = ?rows" "ms_state (sp_session ?p2) = Failed" "ms_account_id (sp_session ?p2) = ?i"
    unfolding o by (simp_all add: attempt_failed_def final_state_def mismatch_def Let_def s1)
  have "sp_rows (start pm rp url t3 (stop ?p2)) = ?rows"
    using p2(1) by (simp add: start_def spawn_eq split: option.split)
  then show ?thesis using assms(8) p2(2) load_saved [OF assms(1) tr assms(3)] by (auto simp: import_end_def Let_def)
qed

text \<open>The stored session of user 77 is lost to an import of user 78.\<close>

definition own_rows :: session_rows where
  "own_rows = save_session demo_pymax 1 ''web'' 0 (''own'', ''dev'') []"

definition foreign_text :: string where
  "foreign_text = session_to_json demo_pymax (''foreign'', ''dev2'') ''web''"

definition importing :: "(string \<times> string) supervised" where
  "importing = (case import_begin demo_pymax False [] 1 foreign_text (idle_session (Some 77) own_rows) of Inr p \<Rightarrow> p | Inl _ \<Rightarrow> idle_session None [])"

definition imported :: "dict \<times> (string \<times> string) supervised" where
  "imported = (case sp_sup importing of
     Some (v, _) \<Rightarrow> import_end demo_pymax False [] 3 (attempt_connected demo_pymax True 2 (user_profile 78) v importing)
   | None \<Rightarrow> ([], importing))"

theorem foreign_import_replaces_session_witness:
  "load_session demo_pymax 1 ''web'' own_rows = Some (''own'', ''dev'') \<and>
   load_session demo_pymax 1 ''web'' (sp_rows (snd imported)) = Some (''foreign'', ''dev2'')"
proof -
  have vi: "valid_info demo_pymax (''own'', ''dev'')" "valid_info demo_pymax (''foreign'', ''dev2'')"
    by (simp_all add: valid_info_def demo_pymax_def)
  have tr: "''web'' \<in> set TRANSPORTS" by (simp add: TRANSPORTS_def)
  have own: "load_session demo_pymax 1 ''web'' own_rows = Some (''own'', ''dev'')"
    unfolding own_rows_def by (rule load_saved [OF demo_codec_ok tr vi(1)])
  have raw: "parse_session_json demo_pymax foreign_text None = Inr (''web'', (''foreign'', ''dev2''))"
    unfolding foreign_text_def by (rule parse_printed [OF demo_codec_ok vi(2) tr]) simp
  then have b: "import_begin demo_pymax False [] 1 foreign_text (idle_session (Some 77) own_rows) = Inr importing"
    by (simp add: importing_def import_begin_def Let_def)
  obtain t i where "importing = spawn False [] 1 t (Some i) False True
      ((stop (idle_session (Some 77) own_rows))\<lparr>sp_session := (sp_session (stop (idle_session (Some 77) own_rows)))\<lparr>ms_login := None\<rparr>\<rparr>)"
    using import_begin_eq [OF b] by blast
  then have "sp_sup importing = sp_sup (spawn False [] 1 t (Some i) False True
      ((stop (idle_session (Some 77) own_rows))\<lparr>sp_session := (sp_session (stop (idle_session (Some 77) own_rows)))\<lparr>ms_login := None\<rparr>\<rparr>))"
    by (rule arg_cong)
  then have "\<exists>v. sp_sup importing = Some (v, Attempt)" by (simp add: spawn_eq proxy_ok_def)
  then obtain v where v: "sp_sup importing = Some (v, Attempt)" by blast
  obtain d p3 where e: "imported = (d, p3)" by (rule prod.exhaust)
  then have e': "import_end demo_pymax False [] 3 (attempt_connected demo_pymax True 2 (user_profile 78) v importing) = (d, p3)"
    using v by (simp add: imported_def)
  have ex: "external_of (sp_accounts (idle_session (Some 77) own_rows)) (ms_account_id (sp_session (idle_session (Some 77) own_rows))) = Some 77"
    by (simp add: idle_session_def new_session_def external_of_def account_by_id_def one_or_none_def demo_account_def)
  from foreign_import_replaces_session [OF demo_codec_ok raw vi(2) b v ex _ e']
  have "load_session demo_pymax 1 ''web'' (sp_rows p3) = Some (''foreign'', ''dev2'')" by (simp add: idle_session_def new_session_def)
  then show ?thesis using own arg_cong [OF e, of snd] by simp
qed

end
