(* ===== verification/Max_Rights.thy ===== *)
theory Max_Rights
  imports Bridge_Prelude "HOL-Library.List_Lexorder" "HOL-Library.Char_ord"
begin

unbundle bit_operations_syntax

text \<open>
  Rights of group and channel admins (\<^verbatim>\<open>app/max/groups.py\<close>): the twelve bits, the mask to
  give and its limits, the route \<^verbatim>\<open>set_group_admin\<close> up to its write, and the pages of members.
  Masks are Python's integers with their bit operations.
\<close>

subsection \<open>The bits\<close>

text \<open>Name, bit in a group, bit in a channel.\<close>

definition PERMISSIONS :: "(string \<times> int option \<times> int option) list" where
  "PERMISSIONS = [
    (''add_remove_member'', Some 2, Some 2),
    (''add_admin'', Some 4, Some 4),
    (''change_chat_info'', Some 8, Some 8),
    (''pin_message'', Some 16, Some 16),
    (''read_all_messages'', Some 32, Some 32),
    (''edit_link'', Some 128, Some 128),
    (''delete_message'', Some 1, Some 1024),
    (''call'', Some 64, None),
    (''post_message'', None, Some 256),
    (''edit_message'', None, Some 512),
    (''view_stats'', None, Some 2048)]"

definition FULL_MASK :: int where
  "FULL_MASK = 4095"

definition GROUP_BITS :: int where
  "GROUP_BITS = 1 OR 2 OR 4 OR 8 OR 16 OR 32 OR 64 OR 128"

definition CHANNEL_BITS :: int where
  "CHANNEL_BITS = 2 OR 4 OR 8 OR 16 OR 32 OR 128 OR 256 OR 512 OR 1024 OR 2048"

definition DEFAULTS :: "bool \<Rightarrow> bool \<Rightarrow> int" where
  "DEFAULTS channel is_bot = (if channel then (if is_bot then 1850 else 4026) else (if is_bot then 123 else 251))"

text \<open>The 422 answers of \<^verbatim>\<open>UnknownPermission\<close>.\<close>

datatype rights_error =
    Both_given
  | Out_of_range
  | Foreign_bits "int list"
  | Unknown_names "string list"
  | Foreign_names "string list"
  | Link_rule
  | Bot_rule
  | Lacking "string list"
  | Nothing_to_give

definition bit_of :: "string \<Rightarrow> bool \<Rightarrow> int option" where
  "bit_of name channel = (case map_of PERMISSIONS name of None \<Rightarrow> None | Some (g, c) \<Rightarrow> if channel then c else g)"

definition allowed_names :: "bool \<Rightarrow> string list" where
  "allowed_names channel = filter (\<lambda>n. bit_of n channel \<noteq> None) (map fst PERMISSIONS)"

definition permission_names :: "int option \<Rightarrow> bool \<Rightarrow> string list" where
  "permission_names msk channel =
    filter (\<lambda>n. case msk of None \<Rightarrow> False | Some m \<Rightarrow> m AND the (bit_of n channel) \<noteq> 0) (allowed_names channel)"

subsection \<open>the mask to give\<close>

definition check_dependencies :: "int \<Rightarrow> bool \<Rightarrow> bool \<Rightarrow> rights_error option" where
  "check_dependencies msk channel is_bot =
    (if msk AND 128 \<noteq> 0 \<and> msk AND 2 = 0 then Some Link_rule
     else if is_bot \<and> \<not> channel \<and> msk AND (1 OR 16) \<noteq> 0 \<and> msk AND 32 = 0 then Some Bot_rule
     else None)"

definition kind_bits :: "bool \<Rightarrow> int" where
  "kind_bits channel = (if channel then CHANNEL_BITS else GROUP_BITS)"

fun or_bits :: "bool \<Rightarrow> int \<Rightarrow> string list \<Rightarrow> int" where
  "or_bits channel msk [] = msk"
| "or_bits channel msk (n # ns) = or_bits channel (msk OR (case bit_of n channel of None \<Rightarrow> 0 | Some b \<Rightarrow> b)) ns"

definition checked :: "int \<Rightarrow> bool \<Rightarrow> bool \<Rightarrow> rights_error + int" where
  "checked msk channel is_bot = (case check_dependencies msk channel is_bot of Some err \<Rightarrow> Inl err | None \<Rightarrow> Inr msk)"

text \<open>\<open>names\<close> is None or empty when no permissions are named.\<close>

definition resolve_mask :: "string list \<Rightarrow> int option \<Rightarrow> bool \<Rightarrow> bool \<Rightarrow> rights_error + int" where
  "resolve_mask names msk channel is_bot =
    (if names \<noteq> [] \<and> msk \<noteq> None then Inl Both_given
     else (case msk of
       Some m \<Rightarrow>
         if \<not> (1 \<le> m \<and> m \<le> FULL_MASK) then Inl Out_of_range
         else (let foreign = m AND NOT (kind_bits channel) in
           if foreign \<noteq> 0 then Inl (Foreign_bits (filter (\<lambda>b. foreign AND b \<noteq> 0) [1, 64, 256, 512, 1024, 2048]))
           else checked m channel is_bot)
     | None \<Rightarrow>
         if names = [] then Inr (DEFAULTS channel is_bot)
         else (let unknown = filter (\<lambda>n. n \<notin> fst ` set PERMISSIONS) names in
           if unknown \<noteq> [] then Inl (Unknown_names unknown)
           else (let foreign = filter (\<lambda>n. bit_of n channel = None) names in
             if foreign \<noteq> [] then Inl (Foreign_names (sort (remdups foreign)))
             else checked (or_bits channel 0 names) channel is_bot))))"

definition within_own :: "int \<Rightarrow> int option \<Rightarrow> bool \<Rightarrow> bool \<Rightarrow> bool \<Rightarrow> rights_error + int" where
  "within_own msk own explicit channel is_bot =
    (case own of
       None \<Rightarrow> Inr msk
     | Some o' \<Rightarrow>
         if explicit then
           (let lacking = msk AND NOT o' in
            if lacking \<noteq> 0 then Inl (Lacking (permission_names (Some lacking) channel)) else Inr msk)
         else
           (let m1 = msk AND (o' AND NOT 4);
                m2 = (if m1 AND 2 = 0 then m1 AND NOT 128 else m1);
                m3 = (if is_bot \<and> \<not> channel \<and> m2 AND 32 = 0 then m2 AND NOT (1 OR 16) else m2)
            in if m3 = 0 then Inl Nothing_to_give else Inr m3))"

subsection \<open>The route\<close>

text \<open>
  A chat as PyMax tells it: the owner, and the admins with their masks (None: an entry without
  permissions).
\<close>

record group_chat =
  gc_owner :: "int option"
  gc_admins :: "(int \<times> int option) list"

definition admin_mask :: "group_chat \<Rightarrow> int \<Rightarrow> int option" where
  "admin_mask chat uid =
    (if gc_owner chat = Some uid then Some FULL_MASK
     else (case map_of (gc_admins chat) uid of Some (Some m) \<Rightarrow> Some m | _ \<Rightarrow> None))"

text \<open>\<^verbatim>\<open>set_group_admin\<close> up to the write slot: the mask that goes out.\<close>

definition own_mask :: "group_chat \<Rightarrow> int option \<Rightarrow> int option" where
  "own_mask before me =
    (case me of None \<Rightarrow> None | Some u \<Rightarrow> if gc_owner before \<noteq> Some u then admin_mask before u else None)"

definition admin_rights :: "string list \<Rightarrow> int option \<Rightarrow> bool \<Rightarrow> bool \<Rightarrow> group_chat \<Rightarrow> int option \<Rightarrow> rights_error + int" where
  "admin_rights names msk channel is_bot before me =
    (let explicit = (names \<noteq> [] \<or> msk \<noteq> None) in
     case (if explicit then resolve_mask names msk channel False else Inr 0) of
       Inl err \<Rightarrow> Inl err
     | Inr _ \<Rightarrow>
         (case resolve_mask names msk channel is_bot of
            Inl err \<Rightarrow> Inl err
          | Inr m \<Rightarrow> within_own m (own_mask before me) explicit channel is_bot))"

subsection \<open>Members\<close>

definition MEMBERS_PAGE :: nat where
  "MEMBERS_PAGE = 100"

text \<open>
  \<^verbatim>\<open>members\<close> and \<^verbatim>\<open>find_members\<close>: \<open>ask\<close> answers request \<open>k\<close> with its marker and count by a
  page, each element parsed or skipped, and the next marker (None: none or zero). The fuel
  counts requests.
\<close>

fun member_pages ::
    "(nat \<Rightarrow> int option \<Rightarrow> nat \<Rightarrow> 'm option list \<times> int option) \<Rightarrow> nat \<Rightarrow> nat \<Rightarrow> nat \<Rightarrow> int option \<Rightarrow> 'm list \<Rightarrow> 'm list option" where
  "member_pages ask limit 0 k marker out = None"
| "member_pages ask limit (Suc fuel) k marker out =
    (if limit \<le> length out then Some (take limit out)
     else (case ask k marker (min MEMBERS_PAGE (limit - length out)) of
       (items, next) \<Rightarrow>
         (let out' = out @ map the (filter (\<lambda>m. m \<noteq> None) items) in
          if items = [] \<or> next = None then Some (take limit out')
          else member_pages ask limit fuel (Suc k) next out')))"

definition find_members :: "(nat \<Rightarrow> int option \<Rightarrow> nat \<Rightarrow> 'm option list \<times> int option) \<Rightarrow> nat \<Rightarrow> nat \<Rightarrow> 'm list option" where
  "find_members ask limit fuel = member_pages ask limit fuel 0 None []"

end
