(* ===== verification/Max_Rights_Props.thy ===== *)
theory Max_Rights_Props
  imports Max_Rights
begin

unbundle bit_operations_syntax

text \<open>
  Properties of the rights an admin is given, and of the pages of members.
\<close>

subsection \<open>Bits\<close>

lemma and_bit_zero: "(m::int) AND 2 ^ k = 0 \<longleftrightarrow> \<not> bit m k"
  by (simp add: and_exp_eq_0_iff_not_bit)

lemmas single_bits =
  and_bit_zero [of _ 0, simplified] and_bit_zero [of _ 1, simplified] and_bit_zero [of _ 2, simplified]
  and_bit_zero [of _ 4, simplified] and_bit_zero [of _ 5, simplified] and_bit_zero [of _ 7, simplified]

lemma two_bits: "(m::int) AND (1 OR 16) = 0 \<longleftrightarrow> \<not> bit m 0 \<and> \<not> bit m 4"
proof -
  have "m AND (1 OR 16) = (m AND 1) OR (m AND 16)" by (rule bit.conj_disj_distrib)
  then show ?thesis using and_bit_zero [of m 0] and_bit_zero [of m 4] by (simp add: or_eq_0_iff)
qed

definition deps_ok :: "int \<Rightarrow> bool \<Rightarrow> bool \<Rightarrow> bool" where
  "deps_ok m channel is_bot \<longleftrightarrow> (bit m 7 \<longrightarrow> bit m 1) \<and> (is_bot \<and> \<not> channel \<and> (bit m 0 \<or> bit m 4) \<longrightarrow> bit m 5)"

lemma check_dependencies_iff: "check_dependencies m channel is_bot = None \<longleftrightarrow> deps_ok m channel is_bot"
  using and_bit_zero [of m 7] and_bit_zero [of m 1] and_bit_zero [of m 5] two_bits [of m]
  by (simp add: check_dependencies_def deps_ok_def) blast

lemma subset_bits: "(m::int) AND NOT k = 0 \<longleftrightarrow> (\<forall>n. bit m n \<longrightarrow> bit k n)"
  by (auto simp: bit_eq_iff bit_and_iff bit_not_int_iff)

lemma bit_exp: "bit (2 ^ k :: int) n \<longleftrightarrow> n = k"
  by (auto simp: bit_exp_iff)

lemmas bit_numerals = bit_exp [of 0, simplified] bit_exp [of 1, simplified] bit_exp [of 2, simplified]
  bit_exp [of 4, simplified] bit_exp [of 7, simplified]

subsection \<open>The cut to the own rights\<close>

definition cut :: "int \<Rightarrow> int \<Rightarrow> bool \<Rightarrow> bool \<Rightarrow> int" where
  "cut m own channel is_bot =
    (let m1 = m AND (own AND NOT 4);
         m2 = (if m1 AND 2 = 0 then m1 AND NOT 128 else m1)
     in if is_bot \<and> \<not> channel \<and> m2 AND 32 = 0 then m2 AND NOT (1 OR 16) else m2)"

lemma bit_cut:
  "bit (cut m own channel is_bot) n \<longleftrightarrow>
    (bit m n \<and> bit own n \<and> n \<noteq> 2 \<and> (n = 7 \<longrightarrow> bit m 1 \<and> bit own 1) \<and>
     (is_bot \<and> \<not> channel \<and> (n = 0 \<or> n = 4) \<longrightarrow> bit m 5 \<and> bit own 5))"
proof -
  define m1 where "m1 = m AND (own AND NOT 4)"
  define m2 where "m2 = (if m1 AND 2 = 0 then m1 AND NOT 128 else m1)"
  have b1: "bit m1 i \<longleftrightarrow> bit m i \<and> bit own i \<and> i \<noteq> 2" for i
    using bit_exp [of 2 i] unfolding m1_def bit_and_iff bit_not_int_iff by simp
  have z1: "m1 AND 2 = 0 \<longleftrightarrow> \<not> bit m1 1" using and_bit_zero [of m1 1] by simp
  have b2: "bit m2 i \<longleftrightarrow> bit m1 i \<and> (i = 7 \<longrightarrow> bit m1 1)" for i
  proof (cases "bit m1 1")
    case False
    then have "m2 = m1 AND NOT 128" by (simp add: m2_def z1)
    then have "bit m2 i \<longleftrightarrow> bit m1 i \<and> \<not> bit (128 :: int) i" by (simp only: bit_and_iff bit_not_int_iff)
    then show ?thesis using bit_exp [of 7 i] False by simp
  qed (simp add: m2_def z1)
  have z2: "m2 AND 32 = 0 \<longleftrightarrow> \<not> bit m2 5" using and_bit_zero [of m2 5] by simp
  have b16: "bit (1 OR 16 :: int) i \<longleftrightarrow> i = 0 \<or> i = 4" for i
    using bit_exp [of 0 i] bit_exp [of 4 i] by (simp only: bit_or_iff) simp
  have "cut m own channel is_bot = (if is_bot \<and> \<not> channel \<and> m2 AND 32 = 0 then m2 AND NOT (1 OR 16) else m2)"
    by (simp add: cut_def m1_def m2_def Let_def)
  then have "bit (cut m own channel is_bot) n \<longleftrightarrow> bit m2 n \<and> (is_bot \<and> \<not> channel \<and> (n = 0 \<or> n = 4) \<longrightarrow> bit m2 5)"
    by (simp only: z2 bit_and_iff bit_not_int_iff b16 split: if_split) blast
  then show ?thesis by (auto simp: b1 b2)
qed

lemma cut_facts:
  "deps_ok (cut m own channel is_bot) channel is_bot" "cut m own channel is_bot AND NOT own = 0"
  "cut m own channel is_bot AND 4 = 0" "m AND NOT k = 0 \<Longrightarrow> cut m own channel is_bot AND NOT k = 0"
proof -
  show "deps_ok (cut m own channel is_bot) channel is_bot" by (auto simp: deps_ok_def bit_cut)
  show "cut m own channel is_bot AND NOT own = 0" by (simp add: subset_bits bit_cut)
  show "cut m own channel is_bot AND 4 = 0" using and_bit_zero [of "cut m own channel is_bot" 2] by (simp add: bit_cut)
  show "m AND NOT k = 0 \<Longrightarrow> cut m own channel is_bot AND NOT k = 0" by (simp add: subset_bits bit_cut)
qed

lemma within_own_cut:
  "within_own m own explicit channel is_bot = (case own of None \<Rightarrow> Inr m
     | Some o' \<Rightarrow> if explicit
         then (if m AND NOT o' \<noteq> 0 then Inl (Lacking (permission_names (Some (m AND NOT o')) channel)) else Inr m)
         else (if cut m o' channel is_bot = 0 then Inl Nothing_to_give else Inr (cut m o' channel is_bot)))"
  by (simp add: within_own_def cut_def Let_def split: option.split)

subsection \<open>The mask asked for\<close>

definition fits :: "int \<Rightarrow> bool \<Rightarrow> bool" where
  "fits m channel \<longleftrightarrow> m AND NOT (kind_bits channel) = 0 \<and> m \<noteq> 0"

lemma permission_bits: "list_all (\<lambda>(n, g, c). (\<forall>b \<in> set_option g. fits b False) \<and> (\<forall>b \<in> set_option c. fits b True)) PERMISSIONS"
  by code_simp

lemma bit_of_fits: "bit_of n channel = Some b \<Longrightarrow> fits b channel"
proof -
  assume "bit_of n channel = Some b"
  then obtain g c where "(n, g, c) \<in> set PERMISSIONS" "(if channel then c else g) = Some b"
    by (auto simp: bit_of_def split: option.splits dest!: map_of_SomeD)
  then show ?thesis using permission_bits by (cases channel) (auto simp: list_all_iff)
qed

lemma or_bits_facts:
  "m AND NOT (kind_bits channel) = 0 \<Longrightarrow> or_bits channel m ns AND NOT (kind_bits channel) = 0"
  "bit m k \<Longrightarrow> bit (or_bits channel m ns) k"
proof (induction ns arbitrary: m)
  case (Cons n ns)
  {
    case 1
    have "(m OR (case bit_of n channel of None \<Rightarrow> 0 | Some b \<Rightarrow> b)) AND NOT (kind_bits channel) = 0"
      using 1 bit_of_fits [of n channel] by (auto simp: fits_def subset_bits bit_or_iff split: option.split)
    then show ?case using Cons.IH(1) by simp
  next
    case 2
    then show ?case using Cons.IH(2) [of "m OR (case bit_of n channel of None \<Rightarrow> 0 | Some b \<Rightarrow> b)"] by (simp add: bit_or_iff)
  }
qed simp_all

lemma or_bits_nonzero:
  assumes "bit_of n channel = Some b"
  shows "or_bits channel m (n # ns) \<noteq> 0"
proof -
  have "b \<noteq> 0" using bit_of_fits [OF assms] by (simp add: fits_def)
  then obtain k where "bit b k" by (metis bit_0_eq bit_eqI bot_apply bot_bool_def)
  then have "bit (or_bits channel m (n # ns)) k" using assms or_bits_facts(2) by (simp add: bit_or_iff)
  then show ?thesis by (metis bit_0_eq bot_apply bot_bool_def)
qed

lemma defaults_ok: "fits (DEFAULTS channel is_bot) channel \<and> deps_ok (DEFAULTS channel is_bot) channel is_bot"
proof -
  have "\<forall>c \<in> {True, False}. \<forall>b \<in> {True, False}. fits (DEFAULTS c b) c \<and> check_dependencies (DEFAULTS c b) c b = None"
    by code_simp
  then show ?thesis by (cases channel; cases is_bot) (simp_all add: check_dependencies_iff)
qed

lemma checked_Inr: "checked m channel is_bot = Inr r \<Longrightarrow> r = m \<and> deps_ok m channel is_bot"
  by (auto simp: checked_def check_dependencies_iff [symmetric] split: option.splits)

lemma resolve_mask_ok:
  assumes "resolve_mask names msk channel is_bot = Inr r"
  shows "fits r channel \<and> deps_ok r channel is_bot \<and> (msk = None \<or> msk = Some r)"
proof (cases msk)
  case (Some m)
  then have "checked m channel is_bot = Inr r" "1 \<le> m" "m AND NOT (kind_bits channel) = 0"
    using assms by (auto simp: resolve_mask_def Let_def split: if_splits)
  then show ?thesis using checked_Inr [of m channel is_bot r] Some by (auto simp: fits_def)
next
  case None
  show ?thesis
  proof (cases names)
    case Nil
    then show ?thesis using assms None defaults_ok [of channel is_bot] by (auto simp: resolve_mask_def)
  next
    case (Cons n ns)
    then have c: "checked (or_bits channel 0 names) channel is_bot = Inr r" "filter (\<lambda>n. bit_of n channel = None) names = []"
      using assms None by (auto simp: resolve_mask_def Let_def split: if_splits)
    then have "bit_of n channel \<noteq> None" using Cons by (auto split: if_splits)
    then obtain b where "bit_of n channel = Some b" by blast
    then have "or_bits channel 0 names \<noteq> 0" using or_bits_nonzero [of n channel b 0 ns] Cons by simp
    moreover have "or_bits channel 0 names AND NOT (kind_bits channel) = 0" by (rule or_bits_facts(1)) simp
    ultimately show ?thesis using checked_Inr [OF c(1)] None by (simp add: fits_def)
  qed
qed

lemma fits_range: "fits m channel \<Longrightarrow> 1 \<le> m \<and> m \<le> FULL_MASK"
proof -
  assume f: "fits m channel"
  have "\<forall>c \<in> {True, False}. 0 \<le> kind_bits c \<and> kind_bits c \<le> FULL_MASK" by code_simp
  then have k: "0 \<le> kind_bits channel" "kind_bits channel \<le> FULL_MASK" by (cases channel; simp)+
  have "m = m AND kind_bits channel"
    using f unfolding fits_def subset_bits by (auto simp: bit_eq_iff bit_and_iff)
  then have "0 \<le> m" "m \<le> kind_bits channel" using k(1) AND_upper2 [of "kind_bits channel" m]
    by (metis and_nonnegative_int_iff, metis)
  then show ?thesis using f k(2) by (simp add: fits_def)
qed

subsection \<open>The rights given\<close>

text \<open>
  C18 An admin gets only rights that may be given. Whatever is asked for (names, an exact mask or
  the default), the mask that \<^verbatim>\<open>set_group_admin\<close> sends has only bits of the chat's kind,
  satisfies MAX's dependencies, is within 1 to 4095 and, when the account is an admin whose own
  mask is known, within its own rights; an exact mask goes out as asked, a default never gives
  the right to add admins.
\<close>

theorem rights_given_are_own:
  assumes "admin_rights names msk channel is_bot before me = Inr g"
  shows "g AND NOT (kind_bits channel) = 0 \<and> check_dependencies g channel is_bot = None \<and> 1 \<le> g \<and> g \<le> FULL_MASK \<and>
    (case own_mask before me of None \<Rightarrow> True | Some own \<Rightarrow> g AND NOT own = 0 \<and> (names = [] \<and> msk = None \<longrightarrow> g AND 4 = 0)) \<and>
    (msk = None \<or> msk = Some g)"
proof -
  let ?explicit = "names \<noteq> [] \<or> msk \<noteq> None"
  obtain m where m: "resolve_mask names msk channel is_bot = Inr m" "within_own m (own_mask before me) ?explicit channel is_bot = Inr g"
    using assms by (auto simp: admin_rights_def Let_def split: sum.splits)
  note ok = resolve_mask_ok [OF m(1)]
  have g: "fits g channel \<and> deps_ok g channel is_bot \<and> (msk = None \<or> msk = Some g) \<and>
    (case own_mask before me of None \<Rightarrow> True | Some own \<Rightarrow> g AND NOT own = 0 \<and> (\<not> ?explicit \<longrightarrow> g AND 4 = 0))"
  proof (cases "own_mask before me")
    case None
    then show ?thesis using m(2) ok by (simp add: within_own_cut)
  next
    case (Some own)
    show ?thesis
    proof (cases ?explicit)
      case True
      then have "g = m" "m AND NOT own = 0" using m(2) Some by (auto simp: within_own_cut split: if_splits)
      then show ?thesis using ok True Some by simp
    next
      case False
      then have "g = cut m own channel is_bot" "g \<noteq> 0" using m(2) Some by (auto simp: within_own_cut split: if_splits)
      then show ?thesis using cut_facts ok False Some by (simp add: fits_def)
    qed
  qed
  then show ?thesis using fits_range [of g channel] by (auto simp: fits_def check_dependencies_iff split: option.split)
qed

definition small_admin :: group_chat where
  "small_admin = \<lparr>gc_owner = Some 1, gc_admins = [(7, Some 150)]\<rparr>"

theorem rights_given_are_own_witness:
  "admin_rights [] None False True small_admin (Some 7) = Inr 2 \<and> 2 AND NOT 150 = (0 :: int) \<and> check_dependencies 2 False True = None"
proof -
  have g: "admin_rights [] None False True small_admin (Some 7) = Inr 2" by code_simp
  have "own_mask small_admin (Some 7) = Some 150" by code_simp
  then show ?thesis using rights_given_are_own [OF g] g by simp
qed

subsection \<open>Members\<close>

text \<open>
  Pages that never are only skipped elements end the loop within as many requests as members are
  wanted, and no more than that many come back.
\<close>

lemma member_pages_end:
  assumes "\<forall>k marker n. fst (ask k marker n) = [] \<or> (\<exists>m. Some m \<in> set (fst (ask k marker n)))"
    and "limit \<le> length out + fuel"
  shows "\<exists>ms. member_pages ask limit (Suc fuel) k marker out = Some ms \<and> length ms \<le> limit"
  using assms(2)
proof (induction fuel arbitrary: k marker out)
  case 0
  then show ?case by simp
next
  case (Suc fuel)
  obtain items nxt where a: "ask k marker (min MEMBERS_PAGE (limit - length out)) = (items, nxt)" by (rule prod.exhaust)
  let ?out = "out @ map the (filter (\<lambda>m. m \<noteq> None) items)"
  show ?case
  proof (cases "limit \<le> length out \<or> items = [] \<or> nxt = None")
    case True
    then show ?thesis using a by (auto simp: Let_def)
  next
    case False
    then obtain m where "Some m \<in> set items" using assms(1) a by (metis fst_conv)
    then have "filter (\<lambda>m. m \<noteq> None) items \<noteq> []" by (auto simp: filter_empty_conv)
    then have "limit \<le> length ?out + fuel" using Suc.prems by (cases "filter (\<lambda>m. m \<noteq> None) items") auto
    note ih = Suc.IH [OF this, of "Suc k" nxt]
    have "member_pages ask limit (Suc (Suc fuel)) k marker out = member_pages ask limit (Suc fuel) (Suc k) nxt ?out"
      using False a by (subst member_pages.simps(2)) (auto simp: Let_def simp del: member_pages.simps)
    then show ?thesis using ih by simp
  qed
qed

text \<open>A page of elements without contact that names a next page is asked for again without end.\<close>

lemma member_pages_stuck: "0 < limit \<Longrightarrow> member_pages (\<lambda>_ _ _. ([None], Some 1)) limit fuel k marker [] = None"
  by (induction fuel arbitrary: k marker) (simp_all add: Let_def)

end
