(* ===== verification/Max_Markup.thy ===== *)
theory Max_Markup
  imports Bridge_Prelude "HOL-Library.Word" "HOL-Library.Product_Lexorder"
begin

unbundle bit_operations_syntax

text \<open>
  Outgoing texts of MAX: the HTML subset (\<^verbatim>\<open>app/max/html_text.py\<close>), \<^verbatim>\<open>prepare_text\<close>
  and \<^verbatim>\<open>message_link\<close> of \<^verbatim>\<open>app/max/frames.py\<close>. A text is a list of code points; the
  events of Python's \<^verbatim>\<open>HTMLParser\<close> are its input, PyMax's markdown formatter is a parameter.
\<close>

subsection \<open>UTF-16\<close>

text \<open>A lone surrogate cannot be encoded: \<^verbatim>\<open>UnicodeEncodeError\<close>.\<close>

definition utf16_len :: "codes \<Rightarrow> nat option" where
  "utf16_len s = (if list_ex (\<lambda>c. 0xD800 \<le> c \<and> c \<le> 0xDFFF) s then None
     else Some (sum_list (map (\<lambda>c. if 0x10000 \<le> c then 2 else 1) s)))"

subsection \<open>The parser\<close>

datatype html_event =
    Data codes
  | Startend string "(string \<times> codes option) list"
  | Start string "(string \<times> codes option) list"
  | End string

datatype html_error =
    Unsupported string
  | Needs_href
  | Stray_close string "string option"
  | Unclosed "string list"
  | Not_encodable

definition TAGS :: "(string \<times> string) list" where
  "TAGS = [(''b'', ''STRONG''), (''strong'', ''STRONG''), (''i'', ''EMPHASIZED''), (''em'', ''EMPHASIZED''),
     (''u'', ''UNDERLINE''), (''ins'', ''UNDERLINE''), (''s'', ''STRIKETHROUGH''), (''strike'', ''STRIKETHROUGH''),
     (''del'', ''STRIKETHROUGH''), (''code'', ''MONOSPACED''), (''pre'', ''CODE''), (''a'', ''LINK''), (''blockquote'', ''QUOTE'')]"

record element =
  el_type :: string
  el_from :: nat
  el_length :: nat
  el_url :: "codes option"

record open_tag =
  ot_tag :: string
  ot_start :: nat
  ot_url :: "codes option"
  ot_skipped :: bool

text \<open>The stack grows at the end, as the source's list.\<close>

record parser =
  ps_parts :: "codes list"
  ps_pos :: nat
  ps_open :: "open_tag list"
  ps_elements :: "element list"

definition empty_parser :: parser where
  "empty_parser = \<lparr>ps_parts = [], ps_pos = 0, ps_open = [], ps_elements = []\<rparr>"

definition add_text :: "codes \<Rightarrow> parser \<Rightarrow> html_error + parser" where
  "add_text s p = (case utf16_len s of None \<Rightarrow> Inl Not_encodable
     | Some n \<Rightarrow> Inr (p\<lparr>ps_parts := ps_parts p @ [s], ps_pos := ps_pos p + n\<rparr>))"

text \<open>\<^verbatim>\<open>dict(attrs).get("href")\<close>: the last of equal names.\<close>

definition href_of :: "(string \<times> codes option) list \<Rightarrow> codes option" where
  "href_of attrs = (case map_of (rev attrs) ''href'' of Some (Some u) \<Rightarrow> if u = [] then None else Some u | _ \<Rightarrow> None)"

definition handle_starttag :: "string \<Rightarrow> (string \<times> codes option) list \<Rightarrow> parser \<Rightarrow> html_error + parser" where
  "handle_starttag tag attrs p =
    (if tag = ''br'' then add_text [10] p
     else if tag \<notin> fst ` set TAGS then Inl (Unsupported tag)
     else if tag = ''a'' \<and> href_of attrs = None then Inl Needs_href
     else
       (let url = (if tag = ''a'' then href_of attrs else None);
            skipped = (tag = ''code'' \<and> ps_open p \<noteq> [] \<and> ot_tag (last (ps_open p)) = ''pre'')
        in Inr (p\<lparr>ps_open := ps_open p @ [\<lparr>ot_tag = tag, ot_start = ps_pos p, ot_url = url, ot_skipped = skipped\<rparr>]\<rparr>)))"

definition handle_endtag :: "string \<Rightarrow> parser \<Rightarrow> html_error + parser" where
  "handle_endtag tag p =
    (if tag = ''br'' then Inr p
     else if ps_open p = [] then Inl (Stray_close tag None)
     else if ot_tag (last (ps_open p)) \<noteq> tag then Inl (Stray_close tag (Some (ot_tag (last (ps_open p)))))
     else
       (let t = last (ps_open p);
            p1 = p\<lparr>ps_open := butlast (ps_open p)\<rparr>
        in if ot_skipped t \<or> ps_pos p \<le> ot_start t then Inr p1
           else Inr (p1\<lparr>ps_elements := ps_elements p @
             [\<lparr>el_type = the (map_of TAGS tag), el_from = ot_start t, el_length = ps_pos p - ot_start t, el_url = ot_url t\<rparr>]\<rparr>)))"

fun handle :: "html_event \<Rightarrow> parser \<Rightarrow> html_error + parser" where
  "handle (Data s) p = add_text s p"
| "handle (Start tag attrs) p = handle_starttag tag attrs p"
| "handle (End tag) p = handle_endtag tag p"
| "handle (Startend tag attrs) p =
    (if tag = ''br'' then add_text [10] p
     else (case handle_starttag tag attrs p of Inl err \<Rightarrow> Inl err | Inr p' \<Rightarrow> handle_endtag tag p'))"

fun feed :: "html_event list \<Rightarrow> parser \<Rightarrow> html_error + parser" where
  "feed [] p = Inr p"
| "feed (e # es) p = (case handle e p of Inl err \<Rightarrow> Inl err | Inr p' \<Rightarrow> feed es p')"

text \<open>\<open>events\<close> are what \<^verbatim>\<open>HTMLParser\<close> calls for a text.\<close>

definition html_to_elements :: "html_event list \<Rightarrow> html_error + codes \<times> element list" where
  "html_to_elements events =
    (case feed events empty_parser of
       Inl err \<Rightarrow> Inl err
     | Inr p \<Rightarrow>
         if ps_open p \<noteq> [] then Inl (Unclosed (map ot_tag (ps_open p)))
         else Inr (concat (ps_parts p), sort_key (\<lambda>e. (int (el_from e), - int (el_length e))) (ps_elements p)))"

subsection \<open>The text to send\<close>

text \<open>\<^verbatim>\<open>TextMarkupError\<close> for markup and mode; an encoding error is none and passes through.\<close>

datatype prepare_error = Bad_html html_error | Bad_mode string | Encode_error

definition prepare_text ::
    "(codes \<Rightarrow> codes \<times> element list) \<Rightarrow> (codes \<Rightarrow> html_event list) \<Rightarrow> codes option \<Rightarrow> string option
       \<Rightarrow> prepare_error + codes option \<times> element list" where
  "prepare_text format_markdown html_parser text parse_mode =
    (case text of
       None \<Rightarrow> Inr (None, [])
     | Some t \<Rightarrow>
         if t = [] then Inr (None, [])
         else (case parse_mode of
             None \<Rightarrow> Inr (Some t, [])
           | Some mode \<Rightarrow>
               if lower mode = ''markdown'' then (case format_markdown t of (clean, es) \<Rightarrow> Inr (Some clean, es))
               else if lower mode = ''html'' then
                 (case html_to_elements (html_parser t) of
                    Inl err \<Rightarrow> Inl (if err = Not_encodable then Encode_error else Bad_html err)
                  | Inr (plain, es) \<Rightarrow> Inr (Some plain, es))
               else Inl (Bad_mode mode)))"

subsection \<open>The link to a message\<close>

definition URLSAFE :: string where
  "URLSAFE = ''ABCDEFGHIJKLMNOPQRSTUVWXYZabcdefghijklmnopqrstuvwxyz0123456789-_''"

text \<open>
  Base64 of the eight bytes of an id, most significant first: ten groups of six bits and one of
  the last four with two zeros; the padding is stripped.
\<close>

definition sextets :: "64 word \<Rightarrow> nat list" where
  "sextets w = map (\<lambda>i. unat (drop_bit (58 - 6 * i) w AND 63)) [0..<10] @ [unat (push_bit 2 w AND 63)]"

definition link_token :: "int \<Rightarrow> string" where
  "link_token message_id = map (\<lambda>i. URLSAFE ! i) (sextets (word_of_int message_id))"

definition message_link :: "int \<Rightarrow> int \<Rightarrow> string option \<Rightarrow> string" where
  "message_link chat_id message_id public_link =
    (case public_link of
       Some (c # cs) \<Rightarrow> rev (dropWhile (\<lambda>x. x = CHR ''/'') (rev (c # cs))) @ ''/'' @ link_token message_id
     | _ \<Rightarrow> ''https://max.ru/c/'' @ show_int chat_id @ ''/'' @ link_token message_id)"

lemma link_example: "message_link (-5) 115936498722357248 None = ''https://max.ru/c/-5/AZvjoZ7ZQAA''"
  by code_simp

end
