(* ===== verification/Max_Markup_Props.thy ===== *)
theory Max_Markup_Props
  imports Max_Markup
begin

unbundle bit_operations_syntax

text \<open>
  The elements of a document: what the parser makes of well-formed markup, and that message links
  keep messages apart.
\<close>

subsection \<open>Documents\<close>

datatype node =
    Text codes
  | Break
  | Elem string "codes option" "node list"

fun events :: "node \<Rightarrow> html_event list" where
  "events (Text s) = [Data s]"
| "events Break = [Start ''br'' []]"
| "events (Elem tag url ns) = Start tag (case url of None \<Rightarrow> [] | Some u \<Rightarrow> [(''href'', Some u)]) # concat (map events ns) @ [End tag]"

fun plain :: "node \<Rightarrow> codes" where
  "plain (Text s) = s"
| "plain Break = [10]"
| "plain (Elem tag url ns) = concat (map plain ns)"

fun well_formed :: "node \<Rightarrow> bool" where
  "well_formed (Text s) \<longleftrightarrow> utf16_len s \<noteq> None"
| "well_formed Break \<longleftrightarrow> True"
| "well_formed (Elem tag url ns) \<longleftrightarrow> tag \<in> fst ` set TAGS \<and> url \<noteq> Some [] \<and> (tag = ''a'' \<longleftrightarrow> url \<noteq> None) \<and> list_all well_formed ns"

definition units :: "codes \<Rightarrow> nat" where
  "units s = (case utf16_len s of None \<Rightarrow> 0 | Some n \<Rightarrow> n)"

fun width :: "node \<Rightarrow> nat" where
  "width (Text s) = units s"
| "width Break = 1"
| "width (Elem tag url ns) = sum_list (map width ns)"

text \<open>The elements in the order their tags close; \<open>parent\<close> is the tag around the node.\<close>

fun spans :: "string option \<Rightarrow> nat \<Rightarrow> node \<Rightarrow> element list"
  and spans_of :: "string option \<Rightarrow> nat \<Rightarrow> node list \<Rightarrow> element list" where
  "spans parent pos (Text s) = []"
| "spans parent pos Break = []"
| "spans parent pos (Elem tag url ns) = spans_of (Some tag) pos ns @
    (if tag = ''code'' \<and> parent = Some ''pre'' \<or> sum_list (map width ns) = 0 then []
     else [\<lparr>el_type = the (map_of TAGS tag), el_from = pos, el_length = sum_list (map width ns), el_url = url\<rparr>])"
| "spans_of parent pos [] = []"
| "spans_of parent pos (n # ns) = spans parent pos n @ spans_of parent (pos + width n) ns"

subsection \<open>The parser on a document\<close>

definition top_tag :: "parser \<Rightarrow> string option" where
  "top_tag p = (if ps_open p = [] then None else Some (ot_tag (last (ps_open p))))"

text \<open>\<open>parsed p n p'\<close>: the parser has read the node.\<close>

definition parsed :: "parser \<Rightarrow> codes \<Rightarrow> nat \<Rightarrow> element list \<Rightarrow> parser \<Rightarrow> bool" where
  "parsed p s k es p' \<longleftrightarrow> ps_open p' = ps_open p \<and> concat (ps_parts p') = concat (ps_parts p) @ s \<and>
    ps_pos p' = ps_pos p + k \<and> ps_elements p' = ps_elements p @ es"

lemma parsed_trans: "parsed p s k es p1 \<Longrightarrow> parsed p1 t l fs p2 \<Longrightarrow> parsed p (s @ t) (k + l) (es @ fs) p2"
  by (simp add: parsed_def)

lemma feed_append: "feed (xs @ ys) p = (case feed xs p of Inl err \<Rightarrow> Inl err | Inr p' \<Rightarrow> feed ys p')"
  by (induction xs arbitrary: p) (auto split: sum.split)

lemma br_not_tag: "''br'' \<notin> fst ` set TAGS"
  by (simp add: TAGS_def)

lemma feed_document:
  "well_formed n \<Longrightarrow> \<exists>p'. feed (events n) p = Inr p' \<and> parsed p (plain n) (width n) (spans (top_tag p) (ps_pos p) n) p'"
  "list_all well_formed ns \<Longrightarrow> \<exists>p'. feed (concat (map events ns)) p = Inr p' \<and>
     parsed p (concat (map plain ns)) (sum_list (map width ns)) (spans_of (top_tag p) (ps_pos p) ns) p'"
proof (induction "top_tag p" "ps_pos p" n and "top_tag p" "ps_pos p" ns arbitrary: p and p rule: spans_spans_of.induct)
  case (1 s)
  then show ?case by (auto simp: add_text_def parsed_def units_def)
next
  case 2
  then show ?case by (simp add: handle_starttag_def add_text_def utf16_len_def parsed_def)
next
  case (3 tag url ns)
  have t: "tag \<in> fst ` set TAGS" using 3(2) by simp
  then have "tag \<noteq> ''br''" using br_not_tag by metis
  note tag = this t
  let ?t = "\<lparr>ot_tag = tag, ot_start = ps_pos p, ot_url = url, ot_skipped = (tag = ''code'' \<and> top_tag p = Some ''pre'')\<rparr>"
  let ?p1 = "p\<lparr>ps_open := ps_open p @ [?t]\<rparr>"
  have "handle_starttag tag (case url of None \<Rightarrow> [] | Some u \<Rightarrow> [(''href'', Some u)]) p = Inr ?p1"
    using 3(2) tag by (auto simp: handle_starttag_def href_of_def top_tag_def Let_def split: option.splits)
  moreover have "\<exists>p'. feed (concat (map events ns)) ?p1 = Inr p' \<and>
      parsed ?p1 (concat (map plain ns)) (sum_list (map width ns)) (spans_of (Some tag) (ps_pos p) ns) p'"
    using 3(1) [of ?p1] 3(2) by (simp add: top_tag_def)
  then obtain p' where p': "feed (concat (map events ns)) ?p1 = Inr p'"
    "parsed ?p1 (concat (map plain ns)) (sum_list (map width ns)) (spans_of (Some tag) (ps_pos p) ns) p'" by blast
  moreover have "\<exists>p''. handle_endtag tag p' = Inr p'' \<and> parsed p (concat (map plain ns)) (sum_list (map width ns))
      (spans (top_tag p) (ps_pos p) (Elem tag url ns)) p''"
    using p'(2) tag by (auto simp: handle_endtag_def parsed_def Let_def)
  then obtain p'' where "handle_endtag tag p' = Inr p''"
    "parsed p (plain (Elem tag url ns)) (width (Elem tag url ns)) (spans (top_tag p) (ps_pos p) (Elem tag url ns)) p''" by auto
  ultimately show ?case by (intro exI [of _ p'']) (simp add: feed_append)
next
  case 4
  then show ?case by (simp add: parsed_def)
next
  case (5 n ns)
  obtain p1 where p1: "feed (events n) p = Inr p1" "parsed p (plain n) (width n) (spans (top_tag p) (ps_pos p) n) p1"
    using 5(1) [of p] 5(3) by auto
  then have s: "top_tag p1 = top_tag p" "ps_pos p1 = ps_pos p + width n" by (simp_all add: parsed_def top_tag_def)
  obtain p2 where "feed (concat (map events ns)) p1 = Inr p2"
    "parsed p1 (concat (map plain ns)) (sum_list (map width ns)) (spans_of (top_tag p) (ps_pos p + width n) ns) p2"
    using 5(2) [of p1] 5(3) s by auto
  then show ?case using p1(1) parsed_trans [OF p1(2)] by (auto simp: feed_append)
qed

subsection \<open>Where the elements lie\<close>

definition upto :: "element \<Rightarrow> nat" where
  "upto e = el_from e + el_length e"

definition within :: "nat \<Rightarrow> nat \<Rightarrow> element \<Rightarrow> bool" where
  "within a b e \<longleftrightarrow> a \<le> el_from e \<and> upto e \<le> b \<and> 0 < el_length e"

text \<open>Two elements lie one after the other or one in the other.\<close>

definition nested :: "element \<Rightarrow> element \<Rightarrow> bool" where
  "nested x y \<longleftrightarrow> upto x \<le> el_from y \<or> upto y \<le> el_from x \<or>
    (el_from x \<le> el_from y \<and> upto y \<le> upto x) \<or> (el_from y \<le> el_from x \<and> upto x \<le> upto y)"

lemma within_mono: "within a b e \<Longrightarrow> c \<le> a \<Longrightarrow> b \<le> d \<Longrightarrow> within c d e"
  by (simp add: within_def)

lemma spans_within:
  "\<forall>e \<in> set (spans parent pos n). within pos (pos + width n) e"
  "\<forall>e \<in> set (spans_of parent pos ns). within pos (pos + sum_list (map width ns)) e"
proof (induction parent pos n and parent pos ns rule: spans_spans_of.induct)
  case (3 parent pos tag url ns)
  then show ?case by (auto simp: within_def upto_def simp del: sum_list_eq_0_iff)
next
  case (5 parent pos n ns)
  have "within pos (pos + sum_list (map width (n # ns))) e" if "e \<in> set (spans parent pos n)" for e
    using 5(1) that within_mono [of pos "pos + width n" e pos] by simp
  moreover have "within pos (pos + sum_list (map width (n # ns))) e" if "e \<in> set (spans_of parent (pos + width n) ns)" for e
    using 5(2) that within_mono [of "pos + width n" "pos + width n + sum_list (map width ns)" e pos] by (simp add: add.assoc)
  ultimately show ?case by auto
qed simp_all

lemma nested_sym: "nested x y \<longleftrightarrow> nested y x"
  by (auto simp: nested_def)

lemma spans_nested:
  "\<forall>x \<in> set (spans parent pos n). \<forall>y \<in> set (spans parent pos n). nested x y"
  "\<forall>x \<in> set (spans_of parent pos ns). \<forall>y \<in> set (spans_of parent pos ns). nested x y"
proof (induction parent pos n and parent pos ns rule: spans_spans_of.induct)
  case (3 parent pos tag url ns)
  let ?e = "\<lparr>el_type = the (map_of TAGS tag), el_from = pos, el_length = sum_list (map width ns), el_url = url\<rparr>"
  have "nested x ?e" if "x \<in> set (spans_of (Some tag) pos ns)" for x
    using spans_within(2) [of "Some tag" pos ns] that by (auto simp: nested_def within_def upto_def)
  moreover have "nested ?e ?e" by (simp add: nested_def)
  ultimately show ?case using 3 nested_sym by auto
next
  case (5 parent pos n ns)
  have "nested x y" if "x \<in> set (spans parent pos n)" "y \<in> set (spans_of parent (pos + width n) ns)" for x y
    using spans_within(1) [of parent pos n] spans_within(2) [of parent "pos + width n" ns] that
    by (fastforce simp: nested_def within_def)
  then have "nested x y" "nested y x" if "x \<in> set (spans parent pos n)" "y \<in> set (spans_of parent (pos + width n) ns)" for x y
    using that nested_sym [of x y] by blast+
  then show ?case using 5 by auto
qed simp_all

text \<open>
  C25 The markup of a document. For a document of supported tags, each with what it needs, the
  HTML subset gives the plain text and, ordered by start with the enclosing first, exactly the
  elements of its tags at their UTF-16 offsets; they are not empty, lie in the text, and two of
  them never cross.
\<close>

theorem elements_of_document:
  assumes "list_all well_formed ns"
  shows "\<exists>es. html_to_elements (concat (map events ns)) = Inr (concat (map plain ns), es) \<and>
    es = sort_key (\<lambda>e. (int (el_from e), - int (el_length e))) (spans_of None 0 ns) \<and>
    (\<forall>x \<in> set es. within 0 (sum_list (map width ns)) x \<and> (\<forall>y \<in> set es. nested x y))"
proof -
  obtain p where p: "feed (concat (map events ns)) empty_parser = Inr p"
    "parsed empty_parser (concat (map plain ns)) (sum_list (map width ns)) (spans_of None 0 ns) p"
    using feed_document(2) [OF assms, of empty_parser] by (auto simp: top_tag_def empty_parser_def)
  then have "html_to_elements (concat (map events ns)) =
      Inr (concat (map plain ns), sort_key (\<lambda>e. (int (el_from e), - int (el_length e))) (spans_of None 0 ns))"
    by (simp add: html_to_elements_def parsed_def empty_parser_def)
  then show ?thesis using spans_within(2) [of None 0 ns] spans_nested(2) [of None 0 ns] by simp
qed

text \<open>\<open>A<b>B<i>C</i></b>\<close> with an astral character before the first tag.\<close>

definition small_document :: "node list" where
  "small_document = [Text [65, 0x1F600], Elem ''b'' None [Text [66], Elem ''i'' None [Text [67]]], Break]"

theorem elements_of_document_witness:
  "html_to_elements (concat (map events small_document)) = Inr ([65, 0x1F600, 66, 67, 10],
     [\<lparr>el_type = ''STRONG'', el_from = 3, el_length = 2, el_url = None\<rparr>,
      \<lparr>el_type = ''EMPHASIZED'', el_from = 4, el_length = 1, el_url = None\<rparr>])"
proof -
  have "list_all well_formed small_document" by (simp add: small_document_def TAGS_def utf16_len_def)
  from elements_of_document [OF this] have "html_to_elements (concat (map events small_document)) = Inr (concat (map plain small_document),
      sort_key (\<lambda>e. (int (el_from e), - int (el_length e))) (spans_of None 0 small_document))" by blast
  moreover have "spans_of None 0 small_document =
     [\<lparr>el_type = ''EMPHASIZED'', el_from = 4, el_length = 1, el_url = None\<rparr>, \<lparr>el_type = ''STRONG'', el_from = 3, el_length = 2, el_url = None\<rparr>]"
    by (simp add: small_document_def TAGS_def units_def utf16_len_def)
  ultimately show ?thesis by (simp add: small_document_def)
qed

subsection \<open>Message links\<close>

lemma sextet_bits: "bit (drop_bit k w AND 63 :: 64 word) j \<longleftrightarrow> bit w (k + j) \<and> j < 6"
proof -
  have "bit (63 :: 64 word) j \<longleftrightarrow> j < 6"
    using bit_mask_iff [of 6 j, where ?'a = "64 word"] by (auto simp: mask_eq_exp_minus_1)
  then show ?thesis by (simp add: bit_and_iff bit_drop_bit_eq)
qed

lemma sextets_inj:
  assumes "sextets v = sextets w"
  shows "v = w"
proof (rule bit_word_eqI)
  fix n :: nat assume "n < LENGTH(64)"
  then have n: "n < 64" by simp
  have high: "drop_bit (58 - 6 * i) v AND 63 = drop_bit (58 - 6 * i) w AND 63" if "i < 10" for i
  proof -
    have "map (\<lambda>i. unat (drop_bit (58 - 6 * i) v AND 63)) [0..<10] = map (\<lambda>i. unat (drop_bit (58 - 6 * i) w AND 63)) [0..<10]"
      using assms by (simp only: sextets_def append1_eq_conv)
    then have "\<forall>i \<in> set [0..<10]. unat (drop_bit (58 - 6 * i) v AND 63) = unat (drop_bit (58 - 6 * i) w AND 63)"
      by (simp only: map_eq_conv)
    then show ?thesis using that by (simp add: word_unat_eq_iff)
  qed
  have "unat (push_bit 2 v AND 63) = unat (push_bit 2 w AND 63)" using assms by (simp only: sextets_def append1_eq_conv)
  then have low: "push_bit 2 v AND 63 = push_bit 2 w AND 63" by (simp only: word_unat_eq_iff)
  show "bit v n \<longleftrightarrow> bit w n"
  proof (cases "n < 4")
    case True
    have "bit (push_bit 2 v AND 63) (n + 2) = bit (push_bit 2 w AND 63) (n + 2)" by (simp only: low)
    moreover have "bit (push_bit 2 x AND 63) (n + 2) \<longleftrightarrow> bit x n" for x :: "64 word"
      using True sextet_bits [of 0 "push_bit 2 x" "n + 2"] by (simp add: bit_push_bit_iff)
    ultimately show ?thesis by simp
  next
    case False
    define i where "i = 9 - (n - 4) div 6"
    have i: "i < 10" "58 - 6 * i \<le> n" "n - (58 - 6 * i) < 6" using n False by (auto simp: i_def)
    have "bit (drop_bit (58 - 6 * i) x AND 63) (n - (58 - 6 * i)) \<longleftrightarrow> bit x n" for x :: "64 word"
      using i sextet_bits by simp
    then show ?thesis using high [OF i(1)] by metis
  qed
qed

text \<open>Links to two messages of a chat are equal only when their ids are equal as 64-bit numbers.\<close>

lemma link_token_inj:
  assumes "link_token a = link_token b"
  shows "(word_of_int a :: 64 word) = word_of_int b"
proof (rule sextets_inj)
  have "x < 64" if "x \<in> set (sextets w)" for x w
  proof -
    have "unat (y AND 63 :: 64 word) < 64" for y
    proof -
      have "y AND 63 \<le> 63" by (rule word_and_le1)
      then have "unat (y AND 63) \<le> unat (63 :: 64 word)" by (rule word_le_nat_alt [THEN iffD1])
      then show ?thesis by simp
    qed
    then show ?thesis using that by (auto simp: sextets_def)
  qed
  moreover have "inj_on ((!) URLSAFE) {..<64}"
  proof -
    have "distinct URLSAFE" "length URLSAFE = 64" by code_simp+
    then show ?thesis by (simp add: inj_on_nth)
  qed
  ultimately show "sextets (word_of_int a) = sextets (word_of_int b)"
    using assms unfolding link_token_def by (intro map_inj_on [of "(!) URLSAFE"]) (auto elim!: inj_on_subset)
qed

end
