(* ===== verification/Max_Normalize.thy ===== *)
theory Max_Normalize
  imports Max_Store Phone
begin

text \<open>
  PyMax's models and raw frames to rows: \<^verbatim>\<open>app/max/normalize.py\<close>, and the rows of
  \<^verbatim>\<open>app/max/store_new.py\<close>. A PyMax object is the record of the attributes the code reads, None
  where it has none; enums are their values; \<open>raw\<close> is what \<^verbatim>\<open>model_raw\<close> gives for it. PyMax's
  validation of a payload is a parameter.
\<close>

subsection \<open>PyMax's models\<close>

record attachment =
  ac_type :: string
  ac_photo_id :: "int option"
  ac_video_id :: "int option"
  ac_file_id :: "int option"
  ac_audio_id :: "int option"
  ac_sticker_id :: "int option"
  ac_name :: "string option"
  ac_size :: "int option"
  ac_first_name :: "string option"
  ac_last_name :: "string option"
  ac_contact_id :: "int option"
  ac_phone :: "string option"

text \<open>The message a link holds.\<close>

record linked =
  lm_id :: int
  lm_text :: "string option"
  lm_attaches :: "attachment list"

record link =
  lk_type :: string
  lk_chat_id :: "int option"
  lk_message :: "linked option"

record pymax_message =
  pm_id :: int
  pm_chat_id :: "int option"
  pm_sender :: "int option"
  pm_type :: string
  pm_text :: "string option"
  pm_time :: int
  pm_status :: "string option"
  pm_stats :: json
  pm_attaches :: "attachment list"
  pm_link :: "link option"
  pm_raw :: dict

record pymax_chat =
  pc_id :: int
  pc_type :: string
  pc_title :: "string option"
  pc_link :: "string option"
  pc_description :: "string option"
  pc_participants_count :: "int option"
  pc_last_message :: "(int \<times> int) option" \<comment> \<open>id and time\<close>
  pc_owner :: "int option"
  pc_admins :: "int list"
  pc_raw :: dict

record pymax_name =
  pn_name :: "string option"
  pn_first_name :: "string option"
  pn_last_name :: "string option"

record pymax_user =
  pu_id :: int
  pu_link :: "string option"
  pu_names :: "pymax_name list"
  pu_phone :: json
  pu_options :: "string list"
  pu_raw :: dict

subsection \<open>Names and numbers\<close>

definition OP_MESSAGE :: int where "OP_MESSAGE = 128"
definition OP_EDIT :: int where "OP_EDIT = 67"
definition OP_DELETE :: int where "OP_DELETE = 142"
definition OP_CHAT :: int where "OP_CHAT = 135"
definition OP_ATTACH :: int where "OP_ATTACH = 136"
definition SERVER_PUSH :: int where "SERVER_PUSH = 0"

definition JOURNALED_OPCODES :: "int list" where
  "JOURNALED_OPCODES = [OP_MESSAGE, OP_EDIT, OP_DELETE, OP_CHAT]"

definition TYPE_BY_ATTACHMENT :: "(string \<times> string) list" where
  "TYPE_BY_ATTACHMENT = [(''PHOTO'', ''photo''), (''VIDEO'', ''video''), (''FILE'', ''document''),
     (''AUDIO'', ''voice''), (''STICKER'', ''sticker''), (''CONTACT'', ''contact''), (''SHARE'', ''web_page''),
     (''CALL'', ''call''), (''POLL'', ''poll''), (''CONTROL'', ''service'')]"

definition MEDIA_TYPES :: "string list" where
  "MEDIA_TYPES = [''photo'', ''video'', ''document'', ''voice'', ''sticker'']"

definition CHAT_TYPES :: "(string \<times> string) list" where
  "CHAT_TYPES = [(''DIALOG'', ''private''), (''CHAT'', ''group''), (''CHANNEL'', ''channel'')]"

definition ms_to_dt :: "int option \<Rightarrow> usec option" where
  "ms_to_dt ms = (case ms of None \<Rightarrow> None | Some t \<Rightarrow> if t = 0 then None else Some (t * 1000))"

definition dt_to_ms :: "usec option \<Rightarrow> int option" where
  "dt_to_ms dt = map_option (\<lambda>u. u div 1000) dt"

definition upper_char :: "char \<Rightarrow> char" where
  "upper_char c = (let n = (of_char c :: nat) in if 97 \<le> n \<and> n \<le> 122 then char_of (n - 32) else c)"

text \<open>\<^verbatim>\<open>str.upper()\<close> on ASCII.\<close>

definition upper :: "string \<Rightarrow> string" where
  "upper s = map upper_char s"

text \<open>\<^verbatim>\<open>x or None\<close> of a number.\<close>

definition nonzero :: "int option \<Rightarrow> int option" where
  "nonzero i = (case i of None \<Rightarrow> None | Some n \<Rightarrow> if n = 0 then None else i)"

subsection \<open>Attachments\<close>

definition attachment_kind :: "attachment \<Rightarrow> string option" where
  "attachment_kind att =
    (if ac_type att = ''INLINE_KEYBOARD'' then None
     else Some (case map_of TYPE_BY_ATTACHMENT (ac_type att) of Some k \<Rightarrow> k | None \<Rightarrow> ''unknown''))"

definition forward_link :: "pymax_message \<Rightarrow> linked option" where
  "forward_link msg = (case pm_link msg of
      None \<Rightarrow> None
    | Some l \<Rightarrow> if lk_type l = ''FORWARD'' then lk_message l else None)"

definition numbered :: "nat \<Rightarrow> bool \<Rightarrow> attachment list \<Rightarrow> (int \<times> attachment \<times> bool) list" where
  "numbered n fwd atts = map (\<lambda>(i, a). (int (n + i), a, fwd)) (zip [0..<length atts] atts)"

definition all_attaches :: "pymax_message \<Rightarrow> (int \<times> attachment \<times> bool) list" where
  "all_attaches msg =
    (let own = pm_attaches msg
     in numbered 0 False own @
        (case forward_link msg of None \<Rightarrow> [] | Some l \<Rightarrow> numbered (length own) True (lm_attaches l)))"

definition message_type :: "pymax_message \<Rightarrow> string" where
  "message_type msg =
    (case List.map_filter (\<lambda>(_, a, _). attachment_kind a) (all_attaches msg) of
       k # _ \<Rightarrow> k
     | [] \<Rightarrow> ''text'')"

text \<open>The first id that is set and not 0; a sticker id of 0 comes last and is kept.\<close>

definition file_id :: "attachment \<Rightarrow> int option" where
  "file_id a =
    (case List.map_filter nonzero [ac_photo_id a, ac_video_id a, ac_file_id a, ac_audio_id a] of
       i # _ \<Rightarrow> Some i
     | [] \<Rightarrow> ac_sticker_id a)"

definition media_rows :: "pymax_message \<Rightarrow> media_row list" where
  "media_rows msg =
    List.map_filter (\<lambda>(index, a, _). case attachment_kind a of
        None \<Rightarrow> None
      | Some k \<Rightarrow> if k \<notin> set MEDIA_TYPES then None
          else Some \<lparr>xr_file_type = k, xr_attach_index = index, xr_file_external_id = map_option show_int (file_id a),
             xr_file_unique_id = None, xr_file_name = ac_name a, xr_file_size = ac_size a, xr_mime_type = None\<rparr>)
      (all_attaches msg)"

subsection \<open>Contact cards\<close>

record card =
  cd_user_id :: "int option"
  cd_name :: "string option"
  cd_first_name :: "string option"
  cd_last_name :: "string option"
  cd_phone :: "string option"
  cd_forwarded :: bool

definition contact_card :: "(int \<Rightarrow> string option) option \<Rightarrow> attachment \<Rightarrow> bool \<Rightarrow> card" where
  "contact_card phone_of a fwd =
    (let parts = List.map_filter nonempty [ac_first_name a, ac_last_name a];
         name = (case nonempty (ac_name a) of Some n \<Rightarrow> Some n | None \<Rightarrow> nonempty (Some (join_with '' '' parts)));
         phone = (case normalize_phone (ac_phone a) of
            Some p \<Rightarrow> Some p
          | None \<Rightarrow> (case (phone_of, ac_contact_id a) of (Some f, Some i) \<Rightarrow> f i | _ \<Rightarrow> None))
     in \<lparr>cd_user_id = ac_contact_id a, cd_name = name, cd_first_name = ac_first_name a,
         cd_last_name = ac_last_name a, cd_phone = phone, cd_forwarded = fwd\<rparr>)"

definition contact_cards :: "(int \<Rightarrow> string option) option \<Rightarrow> pymax_message \<Rightarrow> card list" where
  "contact_cards phone_of msg =
    map (\<lambda>(_, a, fwd). contact_card phone_of a fwd) (filter (\<lambda>(_, a, _). ac_type a = ''CONTACT'') (all_attaches msg))"

text \<open>The Russian word of the source in UTF-8, with a colon and a space.\<close>

definition CONTACT_LABEL :: string where
  "CONTACT_LABEL = map char_of [0xD0, 0x9A, 0xD0, 0xBE, 0xD0, 0xBD, 0xD1, 0x82, 0xD0, 0xB0, 0xD0, 0xBA, 0xD1, 0x82, 0x3A, 0x20 :: nat]"

definition card_text :: "card \<Rightarrow> string" where
  "card_text c =
    (let label = (case nonempty (cd_name c) of
          Some n \<Rightarrow> n
        | None \<Rightarrow> (case cd_user_id c of Some i \<Rightarrow> show_int i | None \<Rightarrow> ''?''))
     in CONTACT_LABEL @ label @ (case nonempty (cd_phone c) of Some p \<Rightarrow> '', '' @ p | None \<Rightarrow> []))"

definition cards_text :: "card list \<Rightarrow> string option" where
  "cards_text cards = nonempty (Some (join_with ''; '' (map card_text cards)))"

subsection \<open>Messages\<close>

definition is_channel_post :: "pymax_message \<Rightarrow> string option \<Rightarrow> bool" where
  "is_channel_post msg chat_type \<longleftrightarrow> chat_type = Some ''channel'' \<or> upper (pm_type msg) = ''CHANNEL''"

definition guess_chat_type :: "pymax_message \<Rightarrow> int \<Rightarrow> string" where
  "guess_chat_type msg chat_id =
    (if is_channel_post msg None then ''channel'' else if 0 < chat_id then ''private'' else ''group'')"

text \<open>The row of \<^verbatim>\<open>max_messages\<close>.\<close>

record max_row =
  nm_message_id :: int
  nm_chat_id :: int
  nm_from_user_id :: "int option"
  nm_sender_chat_id :: "int option"
  nm_reply_to_message_id :: "int option"
  nm_forward_from_chat_id :: "int option"
  nm_forward_from_message_id :: "int option"
  nm_message_type :: string
  nm_text :: "string option"
  nm_text_html :: "string option"
  nm_tg_date :: "usec option"
  nm_is_outgoing :: bool
  nm_is_edited :: bool
  nm_edit_date :: "usec option"
  nm_views :: "int option"
  nm_raw_data :: dict
  nm_deleted_at :: "usec option"

datatype normalize_error = No_chat_id int | No_linked_message

text \<open>\<^verbatim>\<open>PYMAX_VERSION\<close> is the argument \<open>version\<close>; \<^verbatim>\<open>raw["_pymax"] = version\<close>.\<close>

definition with_version :: "string \<Rightarrow> dict \<Rightarrow> dict" where
  "with_version version raw =
    (if ''_pymax'' \<in> fst ` set raw then map (\<lambda>(k, v). if k = ''_pymax'' then (k, JStr version) else (k, v)) raw
     else raw @ [(''_pymax'', JStr version)])"

text \<open>
  What the link of a message gives: reply, forwarded chat and message, text. A reply or forward
  without its message fails on the attribute.
\<close>

definition link_parts ::
    "pymax_message \<Rightarrow> normalize_error + int option \<times> int option \<times> int option \<times> string option" where
  "link_parts msg =
    (let text = nonempty (pm_text msg)
     in case pm_link msg of
          None \<Rightarrow> Inr (None, None, None, text)
        | Some l \<Rightarrow>
            if lk_type l = ''REPLY'' then
              (case lk_message l of None \<Rightarrow> Inl No_linked_message | Some m \<Rightarrow> Inr (Some (lm_id m), None, None, text))
            else if lk_type l = ''FORWARD'' then
              (case lk_message l of
                 None \<Rightarrow> Inl No_linked_message
               | Some m \<Rightarrow> Inr (None, lk_chat_id l, Some (lm_id m), if text = None then nonempty (lm_text m) else text))
            else Inr (None, None, None, text))"

definition views_of :: "json \<Rightarrow> int option" where
  "views_of stats = (case member ''views'' stats of Some (JInt n) \<Rightarrow> Some n | _ \<Rightarrow> None)"

definition normalize_message ::
    "string \<Rightarrow> pymax_message \<Rightarrow> int option \<Rightarrow> int option \<Rightarrow> string option \<Rightarrow> usec \<Rightarrow> bool
       \<Rightarrow> normalize_error + max_row \<times> media_row list" where
  "normalize_message version msg me_id chat_id chat_type received_at is_edit =
    (case (case pm_chat_id msg of Some c \<Rightarrow> Some c | None \<Rightarrow> chat_id) of
       None \<Rightarrow> Inl (No_chat_id (pm_id msg))
     | Some cid \<Rightarrow>
        (case link_parts msg of
           Inl err \<Rightarrow> Inl err
         | Inr (reply_to, forward_chat, forward_msg, text) \<Rightarrow>
            (let channel = is_channel_post msg chat_type;
                 media = media_rows msg;
                 card = (if text = None then cards_text (contact_cards None msg) else None);
                 kind = (if card \<noteq> None \<and> media = [] then ''contact'' else message_type msg);
                 edited = (is_edit \<or> pm_status msg = Some ''EDITED'')
             in Inr (\<lparr>nm_message_id = pm_id msg, nm_chat_id = cid,
                  nm_from_user_id = (if channel then None else pm_sender msg),
                  nm_sender_chat_id = (if channel then Some cid else None),
                  nm_reply_to_message_id = reply_to, nm_forward_from_chat_id = forward_chat,
                  nm_forward_from_message_id = forward_msg, nm_message_type = kind,
                  nm_text = (if text = None then card else text), nm_text_html = None,
                  nm_tg_date = ms_to_dt (Some (pm_time msg)),
                  nm_is_outgoing = (me_id \<noteq> None \<and> pm_sender msg = me_id),
                  nm_is_edited = edited, nm_edit_date = (if edited then Some received_at else None),
                  nm_views = views_of (pm_stats msg), nm_raw_data = with_version version (pm_raw msg),
                  nm_deleted_at = (if pm_status msg = Some ''REMOVED'' then Some received_at else None)\<rparr>, media))))"

subsection \<open>Chats and users\<close>

definition my_role :: "pymax_chat \<Rightarrow> int option \<Rightarrow> string option" where
  "my_role chat me_id =
    (case me_id of
       None \<Rightarrow> None
     | Some me \<Rightarrow>
         if map_of CHAT_TYPES (pc_type chat) \<notin> {Some ''group'', Some ''channel''} then None
         else if pc_owner chat = Some me then Some ''creator''
         else if me \<in> set (pc_admins chat) then Some ''admin'' else Some ''member'')"

text \<open>The dictionary goes straight into \<^verbatim>\<open>chat_row\<close>: the row of \<^verbatim>\<open>store_new.py\<close> is its result.\<close>

definition normalize_chat :: "string \<Rightarrow> pymax_chat \<Rightarrow> int option \<Rightarrow> chat_row" where
  "normalize_chat version chat me_id = \<lparr>
     cr_external_id = pc_id chat,
     cr_chat_type = (case map_of CHAT_TYPES (pc_type chat) of Some k \<Rightarrow> k | None \<Rightarrow> lower (pc_type chat)),
     cr_title = pc_title chat, cr_username = pc_link chat, cr_description = pc_description chat,
     cr_members_count = nonzero (pc_participants_count chat), cr_access_hash = None,
     cr_my_role = my_role chat me_id,
     cr_last_message_external_id = map_option fst (pc_last_message chat),
     cr_last_message_at = ms_to_dt (map_option snd (pc_last_message chat)),
     cr_raw = Some (JObj (with_version version (pc_raw chat)))\<rparr>"

text \<open>A dictionary key of the participants as Python's \<^verbatim>\<open>int\<close> reads it.\<close>

definition normalize_dialog_peer :: "int \<Rightarrow> json option \<Rightarrow> int \<Rightarrow> int option" where
  "normalize_dialog_peer chat_id raw me_id =
    (if chat_id = 0 then None
     else
       (let keys = (case raw of
              Some r \<Rightarrow> (case member ''participants'' r of Some (JObj kvs) \<Rightarrow> map fst kvs | _ \<Rightarrow> [])
            | None \<Rightarrow> [])
        in case filter (\<lambda>i. i \<noteq> me_id) (List.map_filter py_int keys) of
             i # _ \<Rightarrow> Some i
           | [] \<Rightarrow> Some (chat_id XOR me_id)))"

definition phone_of_user :: "json \<Rightarrow> string option" where
  "phone_of_user p = (case p of
      JInt i \<Rightarrow> if i = 0 then None else Some (''+'' @ show_int i)
    | JStr s \<Rightarrow> if s = [] then None else Some (''+'' @ s)
    | _ \<Rightarrow> None)"

text \<open>\<^verbatim>\<open>is_self\<close> of the dictionary is read by the old tables only and not kept in the row.\<close>

definition normalize_user :: "string \<Rightarrow> pymax_user \<Rightarrow> user_row" where
  "normalize_user version user =
    (let first = (case pu_names user of [] \<Rightarrow> None | n # _ \<Rightarrow> Some n)
     in \<lparr>ur_external_id = pu_id user, ur_username = pu_link user,
         ur_first_name = (case first of None \<Rightarrow> None | Some n \<Rightarrow> or_else (pn_first_name n) (pn_name n)),
         ur_last_name = (case first of None \<Rightarrow> None | Some n \<Rightarrow> pn_last_name n),
         ur_phone = phone_of_user (pu_phone user),
         ur_is_bot = (''BOT'' \<in> set (map upper (pu_options user))),
         ur_access_hash = None, ur_is_contact = None,
         ur_raw = Some (JObj (with_version version (pu_raw user)))\<rparr>)"

text \<open>
  \<^verbatim>\<open>message_row\<close> of \<^verbatim>\<open>store_new.py\<close>. A message of time 0 has no \<^verbatim>\<open>sent_at\<close>, which the
  table requires: \<^term>\<open>None\<close> is that violation.
\<close>

definition to_message_row :: "max_row \<Rightarrow> media_row list \<Rightarrow> message_row option" where
  "to_message_row row media = map_option (\<lambda>at. \<lparr>
     mr_external_id = nm_message_id row, mr_sent_at = at,
     mr_sender_external_id = nm_from_user_id row, mr_sender_chat_external_id = nm_sender_chat_id row,
     mr_reply_to_external_id = nm_reply_to_message_id row,
     mr_forward_from_chat_external_id = nm_forward_from_chat_id row,
     mr_forward_from_message_external_id = nm_forward_from_message_id row,
     mr_message_type = nm_message_type row, mr_text = nm_text row, mr_text_html = nm_text_html row,
     mr_is_edited = nm_is_edited row, mr_edited_at = nm_edit_date row, mr_deleted_at = nm_deleted_at row,
     mr_views = nm_views row, mr_raw = Some (JObj (nm_raw_data row)),
     mr_is_outgoing_hint = Some (nm_is_outgoing row), mr_media = media\<rparr>) (nm_tg_date row)"

subsection \<open>Raw frames\<close>

text \<open>\<^verbatim>\<open>int(v)\<close> of a JSON value; \<open>trunc\<close> is that of a float's literal.\<close>

definition json_int :: "(string \<Rightarrow> int) \<Rightarrow> json \<Rightarrow> int option" where
  "json_int trunc v = (case v of
      JInt i \<Rightarrow> Some i
    | JBool b \<Rightarrow> Some (if b then 1 else 0)
    | JFloat f \<Rightarrow> Some (trunc f)
    | JStr s \<Rightarrow> py_int s
    | _ \<Rightarrow> None)"

text \<open>\<^verbatim>\<open>d.get(k)\<close> with a JSON null as None.\<close>

definition field :: "string \<Rightarrow> dict \<Rightarrow> json option" where
  "field k d = (case map_of d k of Some JNull \<Rightarrow> None | r \<Rightarrow> r)"

definition frame_chat_id :: "(string \<Rightarrow> int) \<Rightarrow> int \<Rightarrow> dict \<Rightarrow> int option" where
  "frame_chat_id trunc opcode payload =
    (if opcode = OP_CHAT then
       (case field ''chat'' payload of
          Some (JObj chat) \<Rightarrow> (case map_of chat ''id'' of Some v \<Rightarrow> json_int trunc v | None \<Rightarrow> None)
        | _ \<Rightarrow> None)
     else
       (case (case field ''chatId'' payload of
                Some v \<Rightarrow> Some v
              | None \<Rightarrow> (case field ''message'' payload of Some (JObj m) \<Rightarrow> field ''chatId'' m | _ \<Rightarrow> None)) of
          Some v \<Rightarrow> json_int trunc v
        | None \<Rightarrow> None))"

definition DELAYED_SLACK_MS :: int where "DELAYED_SLACK_MS = 5000"

text \<open>The message of a payload, which is the payload itself when it holds none.\<close>

definition message_part :: "dict \<Rightarrow> dict" where
  "message_part payload = (case field ''message'' payload of Some (JObj m) \<Rightarrow> m | _ \<Rightarrow> payload)"

definition is_delayed :: "(string \<Rightarrow> int) \<Rightarrow> dict \<Rightarrow> int \<Rightarrow> bool" where
  "is_delayed trunc payload now_ms =
    (case field ''delayedAttributes'' (message_part payload) of
       Some (JObj attrs) \<Rightarrow>
         (case field ''timeToFire'' attrs of
            None \<Rightarrow> False
          | Some fire \<Rightarrow> (case json_int trunc fire of None \<Rightarrow> False | Some t \<Rightarrow> now_ms + DELAYED_SLACK_MS < t))
     | _ \<Rightarrow> False)"

text \<open>\<^verbatim>\<open>{**a, **b}\<close>.\<close>

definition merge_dict :: "dict \<Rightarrow> dict \<Rightarrow> dict" where
  "merge_dict a b = map (\<lambda>(k, v). (k, case map_of b k of Some w \<Rightarrow> w | None \<Rightarrow> v)) a @
     filter (\<lambda>(k, _). k \<notin> fst ` set a) b"

definition delayed_filled :: "dict \<Rightarrow> dict" where
  "delayed_filled payload =
    (let msg = message_part payload
     in case field ''delayedAttributes'' msg of
          Some (JObj attrs) \<Rightarrow>
            if {''notifySender'', ''notifyOpponents''} \<subseteq> fst ` set attrs then payload
            else
              (let filled = merge_dict msg [(''delayedAttributes'',
                     JObj (merge_dict [(''notifySender'', JBool False), (''notifyOpponents'', JBool False)] attrs))]
               in case field ''message'' payload of
                    Some (JObj m) \<Rightarrow> merge_dict payload [(''message'', JObj filled)]
                  | _ \<Rightarrow> filled)
        | _ \<Rightarrow> payload)"

text \<open>The parsers; \<open>validate\<close> is \<^verbatim>\<open>model_validate\<close> of the PyMax model, \<open>strip\<close> removes the markers.\<close>

definition parse_message :: "(dict \<Rightarrow> 'e + pymax_message) \<Rightarrow> dict \<Rightarrow> 'e + pymax_message" where
  "parse_message validate payload = validate (delayed_filled payload)"

definition parse_stored :: "(dict \<Rightarrow> 'e + pymax_message) \<Rightarrow> (dict \<Rightarrow> dict) \<Rightarrow> dict \<Rightarrow> 'e + pymax_message" where
  "parse_stored validate strip_markers raw =
    parse_message validate (strip_markers (filter (\<lambda>(k, _). k \<noteq> ''_pymax'') raw))"

definition parse_delete :: "(dict \<Rightarrow> 'e + int \<times> int list) \<Rightarrow> dict \<Rightarrow> 'e + int \<times> int list" where
  "parse_delete validate payload = validate payload"

definition parse_chat :: "(json \<Rightarrow> 'e + pymax_chat) \<Rightarrow> dict \<Rightarrow> 'e + pymax_chat" where
  "parse_chat validate payload =
    validate (case map_of payload ''chat'' of Some c \<Rightarrow> c | None \<Rightarrow> JObj payload)"

end
