(* ===== verification/Max_Ingest.thy ===== *)
theory Max_Ingest
  imports Max_Normalize
begin

text \<open>
  Frames of one MAX session into the account's tables: \<^verbatim>\<open>app/max/ingest.py\<close> with
  \<^verbatim>\<open>app/repo/raw_events.py\<close>, for \<^verbatim>\<open>STORAGE_MODE=new\<close> without shadow writes. Every frame is a
  task that holds the lock of its chat from its arrival to its end and runs one transaction at a
  time; tasks of different chats interleave between transactions. What is not the program's own is
  in \<open>ingest_env\<close>: PyMax's validation, the journal's converter, the texts of exceptions.
\<close>

subsection \<open>The journal\<close>

record raw_event =
  re_id :: int
  re_kind :: string
  re_payload :: dict
  re_normalized :: bool
  re_error :: "string option"

record ingest =
  in_tables :: account_tables
  in_raw :: "raw_event list"
  in_next_raw :: int
  in_me_id :: "int option"
  in_identity_ok :: bool
  in_caught_up :: "int list"
  in_fill_asks :: "int \<Rightarrow> nat"
  in_spawned :: "(string \<times> int list) list" \<comment> \<open>background jobs \<^verbatim>\<open>fill-users-n\<close>\<close>
  in_stream :: "dict list" \<comment> \<open>events broadcast\<close>
  in_last_event_at :: "usec option"

definition add_raw_event :: "string \<Rightarrow> dict \<Rightarrow> ingest \<Rightarrow> int \<times> ingest" where
  "add_raw_event kind payload st =
    (in_next_raw st, st\<lparr>in_raw := in_raw st @ [\<lparr>re_id = in_next_raw st, re_kind = kind, re_payload = payload,
       re_normalized = False, re_error = None\<rparr>], in_next_raw := in_next_raw st + 1\<rparr>)"

definition mark_normalized :: "int \<Rightarrow> string option \<Rightarrow> ingest \<Rightarrow> ingest" where
  "mark_normalized event_id error st = st\<lparr>in_raw :=
     update_rows (\<lambda>r. re_id r = event_id) (\<lambda>r. r\<lparr>re_normalized := (error = None), re_error := error\<rparr>) (in_raw st)\<rparr>"

text \<open>\<^verbatim>\<open>NewMaxStore.journal\<close> and \<^verbatim>\<open>finish_journal\<close>.\<close>

definition journal :: "int \<Rightarrow> dict \<Rightarrow> ingest \<Rightarrow> int \<times> ingest" where
  "journal opcode payload st = add_raw_event (''max:'' @ show_int opcode) payload st"

definition finish_journal :: "int \<Rightarrow> bool \<Rightarrow> string option \<Rightarrow> ingest \<Rightarrow> ingest" where
  "finish_journal event_id normalized error st = mark_normalized event_id
     (if normalized then None else Some (case nonempty error of Some e \<Rightarrow> e | None \<Rightarrow> ''not normalized'')) st"

subsection \<open>What is not the program's own\<close>

datatype ingest_error =
    Invalid string \<comment> \<open>PyMax's ValidationError\<close>
  | Not_normalized normalize_error
  | No_sent_at
  | Bad_sender people_error
  | Database string

record ingest_env =
  ie_version :: string
  ie_trunc :: "string \<Rightarrow> int"
  ie_str :: "json \<Rightarrow> string" \<comment> \<open>\<^verbatim>\<open>str\<close> of a status that is no text\<close>
  ie_message :: "dict \<Rightarrow> string + pymax_message"
  ie_delete :: "dict \<Rightarrow> string + int \<times> int list"
  ie_chat :: "json \<Rightarrow> string + pymax_chat"
  ie_jsonable :: "dict \<Rightarrow> dict"
  ie_error_text :: "ingest_error \<Rightarrow> string"

definition ERROR_MAX_LEN :: nat where "ERROR_MAX_LEN = 2000"
definition FILL_ASKS_PER_SESSION :: nat where "FILL_ASKS_PER_SESSION = 2"

subsection \<open>Users to ask for\<close>

text \<open>A set of ids as a list without repetition.\<close>

definition fill_once :: "int list \<Rightarrow> ingest \<Rightarrow> ingest" where
  "fill_once user_ids st =
    (let todo = filter (\<lambda>u. in_fill_asks st u < FILL_ASKS_PER_SESSION) (remdups user_ids)
     in if todo = [] then st
        else st\<lparr>in_fill_asks := (\<lambda>u. in_fill_asks st u + (if u \<in> set todo then 1 else 0)),
               in_spawned := in_spawned st @ [(''fill-users-'' @ show_int (int (length (in_spawned st) + 1)), todo)]\<rparr>)"

text \<open>\<^verbatim>\<open>dialog_peers_missing\<close>: peers of private chats without a users row or without a name.\<close>

definition dialog_peers_missing :: "account_tables \<Rightarrow> int list" where
  "dialog_peers_missing db =
    (case at_self db of
       None \<Rightarrow> []
     | Some me \<Rightarrow>
        (let peers = remdups (filter (\<lambda>p. p \<noteq> me) (List.map_filter
               (\<lambda>c. normalize_dialog_peer (ch_external_id c) (ch_raw c) me)
               (filter (\<lambda>c. ch_type c = ''private'' \<and> ch_external_id c \<noteq> 0) (at_chats db))))
         in filter (\<lambda>p. \<not> list_ex (\<lambda>u. us_account_id u = at_account_id db \<and> us_external_id u = p \<and> us_first_name u \<noteq> None)
              (pd_users (at_people db))) peers))"

subsection \<open>Messages\<close>

definition stored_chat_type :: "account_tables \<Rightarrow> int \<Rightarrow> string option" where
  "stored_chat_type db chat_id = map_option ch_type (get_chat db chat_id)"

definition event_payload :: "string \<Rightarrow> max_row \<Rightarrow> dict" where
  "event_payload event row = [(''event'', JStr event), (''platform'', JStr ''max''),
     (''message_id'', JInt (nm_message_id row)), (''chat_id'', JInt (nm_chat_id row)),
     (''from_user_id'', jopt_int (nm_from_user_id row)), (''sender_chat_id'', jopt_int (nm_sender_chat_id row)),
     (''text'', jopt_str (nm_text row)), (''message_type'', JStr (nm_message_type row)),
     (''tg_date'', jopt_str (map_option isoformat (nm_tg_date row))),
     (''is_outgoing'', JBool (nm_is_outgoing row)), (''is_edited'', JBool (nm_is_edited row))]"

definition broadcast :: "dict \<Rightarrow> ingest \<Rightarrow> ingest" where
  "broadcast data st = st\<lparr>in_stream := in_stream st @ [data]\<rparr>"

text \<open>
  \<^verbatim>\<open>MaxIngest.store_message\<close>; \<open>adv\<close> None is a live event. The read of the chat's type and the
  transaction are one step: both run under the lock of the chat. \<open>fault\<close> is the text of a failing
  transaction.
\<close>

definition ingest_message ::
    "ingest_env \<Rightarrow> store_env \<Rightarrow> string option \<Rightarrow> pymax_message \<Rightarrow> usec \<Rightarrow> bool \<Rightarrow> int option \<Rightarrow> bool option
       \<Rightarrow> ingest \<Rightarrow> ingest_error + max_row \<times> ingest" where
  "ingest_message v e fault msg received_at is_edit chat_id adv st =
    (let cid = (case pm_chat_id msg of Some c \<Rightarrow> Some c | None \<Rightarrow> chat_id);
         advance_cursor = (case adv of Some b \<Rightarrow> b
           | None \<Rightarrow> (case cid of None \<Rightarrow> False | Some c \<Rightarrow> c \<in> set (in_caught_up st)));
         chat_type = (case cid of None \<Rightarrow> None | Some c \<Rightarrow> stored_chat_type (in_tables st) c)
     in case normalize_message (ie_version v) msg (in_me_id st) cid chat_type received_at is_edit of
          Inl err \<Rightarrow> Inl (Not_normalized err)
        | Inr (row, media) \<Rightarrow>
           (case to_message_row row media of
              None \<Rightarrow> Inl No_sent_at
            | Some mrow \<Rightarrow>
               (case store_message e (in_tables st) (nm_chat_id row) mrow
                       (case nonempty chat_type of Some k \<Rightarrow> k | None \<Rightarrow> guess_chat_type msg (nm_chat_id row))
                       advance_cursor (Some (pm_time msg)) of
                  Inl err \<Rightarrow> Inl (Bad_sender err)
                | Inr (missing, db) \<Rightarrow>
                   (case fault of
                      Some t \<Rightarrow> Inl (Database t)
                    | None \<Rightarrow> Inr (row, fill_once missing (st\<lparr>in_tables := db\<rparr>))))))"

text \<open>\<^verbatim>\<open>_on_delete\<close>: a note when messages are not known.\<close>

definition on_delete ::
    "string option \<Rightarrow> int \<Rightarrow> int list \<Rightarrow> usec \<Rightarrow> ingest \<Rightarrow> (ingest_error + string option) \<times> ingest" where
  "on_delete fault chat_id ids received_at st =
    (case fault of
       Some t \<Rightarrow> (Inl (Database t), st)
     | None \<Rightarrow>
        (case store_mark_deleted (in_tables st) chat_id ids received_at of
           (found, db) \<Rightarrow>
             (Inr (if set ids - set found = {} then None else Some ''delete_unknown_message''),
              broadcast [(''event'', JStr ''delete''), (''platform'', JStr ''max''), (''chat_id'', JInt chat_id),
                (''message_ids'', JList (map JInt ids))] (st\<lparr>in_tables := db\<rparr>))))"

text \<open>The status of the chat in a message frame.\<close>

definition status_text :: "ingest_env \<Rightarrow> json \<Rightarrow> string option" where
  "status_text v j = (case j of
      JStr s \<Rightarrow> nonempty (Some s)
    | JInt i \<Rightarrow> if i = 0 then None else Some (show_int i)
    | JBool b \<Rightarrow> if b then Some ''True'' else None
    | JNull \<Rightarrow> None
    | JList xs \<Rightarrow> if xs = [] then None else Some (ie_str v j)
    | JObj d \<Rightarrow> if d = [] then None else Some (ie_str v j)
    | JFloat f \<Rightarrow> Some (ie_str v j))"

definition chat_status_of :: "ingest_env \<Rightarrow> string option \<Rightarrow> dict \<Rightarrow> ingest \<Rightarrow> ingest" where
  "chat_status_of v fault payload st =
    (case field ''chat'' payload of
       Some (JObj chat) \<Rightarrow>
         (case (map_of chat ''status'', field ''id'' chat) of
            (Some s, Some i) \<Rightarrow>
              (case (status_text v s, json_int (ie_trunc v) i) of
                 (Some t, Some n) \<Rightarrow> if fault \<noteq> None then st else st\<lparr>in_tables := set_chat_status (in_tables st) n t\<rparr>
               | _ \<Rightarrow> st)
          | _ \<Rightarrow> st)
     | _ \<Rightarrow> st)"

text \<open>The message itself, after its chat's status.\<close>

definition on_message ::
    "ingest_env \<Rightarrow> store_env \<Rightarrow> string option \<Rightarrow> pymax_message \<Rightarrow> usec \<Rightarrow> bool \<Rightarrow> ingest
       \<Rightarrow> (ingest_error + string option) \<times> ingest" where
  "on_message v e fault msg received_at is_edit st =
    (case (if pm_status msg = Some ''REMOVED'' then pm_chat_id msg else None) of
       Some c \<Rightarrow> on_delete fault c [pm_id msg] received_at st
     | None \<Rightarrow>
        (let event = (if is_edit \<or> pm_status msg = Some ''EDITED'' then ''edit'' else ''message'')
         in case ingest_message v e fault msg received_at (event = ''edit'') None None st of
              Inl err \<Rightarrow> (Inl err, st)
            | Inr (row, st') \<Rightarrow> (Inr None, broadcast (event_payload event row) st')))"

definition on_chat ::
    "ingest_env \<Rightarrow> store_env \<Rightarrow> string option \<Rightarrow> dict \<Rightarrow> ingest \<Rightarrow> (ingest_error + string option) \<times> ingest" where
  "on_chat v e fault payload st =
    (case parse_chat (ie_chat v) payload of
       Inl err \<Rightarrow> (Inl (Invalid err), st)
     | Inr chat \<Rightarrow>
        (case fault of
           Some t \<Rightarrow> (Inl (Database t), st)
         | None \<Rightarrow> (Inr None, st\<lparr>in_tables :=
             upsert_chats e (in_tables st) [normalize_chat (ie_version v) chat (in_me_id st)]\<rparr>)))"

subsection \<open>Login snapshot and names\<close>

text \<open>\<^verbatim>\<open>fill_users\<close>: \<open>found\<close> is what \<^verbatim>\<open>get_users\<close> answers, None a failure, which is logged.\<close>

definition fill_users :: "ingest_env \<Rightarrow> store_env \<Rightarrow> pymax_user list option \<Rightarrow> ingest \<Rightarrow> ingest" where
  "fill_users v e found st =
    (case found of
       None \<Rightarrow> st
     | Some us \<Rightarrow>
        (case upsert_users e (in_tables st) (map (normalize_user (ie_version v)) us) ''message'' None of
           Inl _ \<Rightarrow> st
         | Inr db \<Rightarrow> st\<lparr>in_tables := db\<rparr>))"

definition ingest_authorized ::
    "ingest_env \<Rightarrow> store_env \<Rightarrow> pymax_chat list \<Rightarrow> pymax_user list \<Rightarrow> pymax_user option \<Rightarrow> ingest \<Rightarrow> people_error + ingest" where
  "ingest_authorized v e chats contacts me st =
    (let st1 = st\<lparr>in_fill_asks := (\<lambda>_. 0)\<rparr>;
         db1 = upsert_chats e (in_tables st1) (map (\<lambda>c. normalize_chat (ie_version v) c (in_me_id st1)) chats)
     in case upsert_users e db1 (map (normalize_user (ie_version v)) contacts) ''contact'' (Some True) of
          Inl err \<Rightarrow> Inl err
        | Inr db2 \<Rightarrow>
           (case (case me of
                    None \<Rightarrow> Inr db2
                  | Some u \<Rightarrow> upsert_users e db2 [normalize_user (ie_version v) u] ''dialog'' None) of
              Inl err \<Rightarrow> Inl err
            | Inr db3 \<Rightarrow> Inr (fill_once (dialog_peers_missing db3) (st1\<lparr>in_tables := db3\<rparr>))))"

subsection \<open>Tasks and their transactions\<close>

text \<open>
  Who takes the lock of a chat: a frame, a message just sent (\<^verbatim>\<open>store_sent\<close>), messages just
  deleted (\<^verbatim>\<open>apply_delete\<close>).
\<close>

datatype task =
    Frame int dict
  | Sent pymax_message int bool
  | Deleted int "int list"

definition lock_key :: "ingest_env \<Rightarrow> task \<Rightarrow> int option" where
  "lock_key v t = (case t of
      Frame opcode payload \<Rightarrow> frame_chat_id (ie_trunc v) opcode payload
    | Sent msg chat_id is_edit \<Rightarrow> Some chat_id
    | Deleted chat_id ids \<Rightarrow> Some chat_id)"

text \<open>
  Where a task stands: waiting for the lock, journaled, with the chat's status stored, with its
  result, over. \<open>usec\<close> is \<^verbatim>\<open>received_at\<close>, the number the journal row when it was written.
\<close>

datatype stage =
    Begin
  | Journaled usec "int option"
  | Parsed usec "int option" pymax_message
  | Result "int option" bool "string option"
  | Over bool

definition result_of :: "ingest_env \<Rightarrow> int option \<Rightarrow> ingest_error + string option \<Rightarrow> stage" where
  "result_of v raw r = (case r of
      Inl err \<Rightarrow> Result raw False (Some (take ERROR_MAX_LEN (ie_error_text v err)))
    | Inr note \<Rightarrow> Result raw True note)"

definition begin_frame :: "ingest_env \<Rightarrow> string option \<Rightarrow> usec \<Rightarrow> int \<Rightarrow> dict \<Rightarrow> ingest \<Rightarrow> stage \<times> ingest" where
  "begin_frame v fault now opcode payload st =
    (let st1 = st\<lparr>in_last_event_at := Some now\<rparr>
     in case fault of
          Some _ \<Rightarrow> (Journaled now None, st1)
        | None \<Rightarrow> (case journal opcode (ie_jsonable v payload) st1 of (i, st2) \<Rightarrow> (Journaled now (Some i), st2)))"

definition work_frame ::
    "ingest_env \<Rightarrow> store_env \<Rightarrow> string option \<Rightarrow> usec \<Rightarrow> int option \<Rightarrow> int \<Rightarrow> dict \<Rightarrow> ingest \<Rightarrow> stage \<times> ingest" where
  "work_frame v e fault received_at raw opcode payload st =
    (if opcode = OP_MESSAGE \<or> opcode = OP_EDIT then
       (if is_delayed (ie_trunc v) payload (received_at div 1000) then (Result raw True None, st)
        else (case parse_message (ie_message v) payload of
            Inl err \<Rightarrow> (result_of v raw (Inl (Invalid err)), st)
          | Inr msg \<Rightarrow> (Parsed received_at raw msg, chat_status_of v fault payload st)))
     else if opcode = OP_DELETE then
       (case parse_delete (ie_delete v) payload of
          Inl err \<Rightarrow> (result_of v raw (Inl (Invalid err)), st)
        | Inr (chat_id, ids) \<Rightarrow> apfst (result_of v raw) (on_delete fault chat_id ids received_at st))
     else if opcode = OP_CHAT then apfst (result_of v raw) (on_chat v e fault payload st)
     else (Result raw True None, st))"

definition finish_frame :: "string option \<Rightarrow> int option \<Rightarrow> bool \<Rightarrow> string option \<Rightarrow> ingest \<Rightarrow> stage \<times> ingest" where
  "finish_frame fault raw normalized error st =
    (Over normalized, case (raw, fault) of (Some i, None) \<Rightarrow> finish_journal i normalized error st | _ \<Rightarrow> st)"

text \<open>One transaction of the task that holds the lock.\<close>

fun task_step ::
    "ingest_env \<Rightarrow> store_env \<Rightarrow> string option \<Rightarrow> usec \<Rightarrow> task \<Rightarrow> stage \<Rightarrow> ingest \<Rightarrow> stage \<times> ingest" where
  "task_step v e fault now (Frame opcode payload) Begin st = begin_frame v fault now opcode payload st"
| "task_step v e fault now (Frame opcode payload) (Journaled at raw) st = work_frame v e fault at raw opcode payload st"
| "task_step v e fault now (Frame opcode payload) (Parsed at raw msg) st =
     apfst (result_of v raw) (on_message v e fault msg at (opcode = OP_EDIT) st)"
| "task_step v e fault now t (Result raw normalized error) st = finish_frame fault raw normalized error st"
| "task_step v e fault now (Sent msg chat_id is_edit) s st =
     (case ingest_message v e fault msg now is_edit (Some chat_id) None st of
        Inl _ \<Rightarrow> (Over False, st)
      | Inr (_, st') \<Rightarrow> (Over True, st'))"
| "task_step v e fault now (Deleted chat_id ids) s st =
     (case on_delete fault chat_id ids now st of
        (Inl _, st') \<Rightarrow> (Over False, st')
      | (Inr _, st') \<Rightarrow> (Over True, st'))"
| "task_step v e fault now t s st = (s, st)"

text \<open>A task with the lock to itself, at most \<open>n\<close> transactions; \<open>fault\<close> says which fail.\<close>

fun task_run ::
    "nat \<Rightarrow> ingest_env \<Rightarrow> store_env \<Rightarrow> (stage \<Rightarrow> string option) \<Rightarrow> usec \<Rightarrow> task \<Rightarrow> stage \<Rightarrow> ingest \<Rightarrow> stage \<times> ingest" where
  "task_run 0 v e fault now t s st = (s, st)"
| "task_run (Suc n) v e fault now t s st =
     (case s of
        Over b \<Rightarrow> (s, st)
      | _ \<Rightarrow> (case task_step v e (fault s) now t s st of (s', st') \<Rightarrow> task_run n v e fault now t s' st'))"

subsection \<open>The gate and the locks\<close>

text \<open>What \<^verbatim>\<open>on_frame\<close> lets through to the lock.\<close>

definition frame_accepted :: "ingest \<Rightarrow> int \<Rightarrow> int \<Rightarrow> bool" where
  "frame_accepted st opcode cmd \<longleftrightarrow>
     cmd = SERVER_PUSH \<and> opcode \<in> set JOURNALED_OPCODES \<and> in_identity_ok st"

text \<open>
  \<^verbatim>\<open>asyncio.Lock\<close> of a chat: the holder and those that wait, in the order they came. Tasks are
  numbered as they arrive.
\<close>

record ingest_system =
  is_state :: ingest
  is_queue :: "int option \<Rightarrow> (nat \<times> task \<times> stage) list"
  is_next :: nat

datatype event =
    Arrived nat task
  | Worked nat
  | Finished nat bool
  | Background

text \<open>
  Beside the tasks other parts of the session write without the lock: names are filled, the login
  snapshot is stored, the history stores messages, the session changes what it knows.
\<close>

inductive ingest_step :: "ingest_env \<Rightarrow> ingest_system \<Rightarrow> event \<Rightarrow> ingest_system \<Rightarrow> bool" for v where
  arrive: "\<lbrakk>case t of Frame opcode payload \<Rightarrow> frame_accepted (is_state w) opcode cmd | _ \<Rightarrow> True; lock_key v t = k\<rbrakk> \<Longrightarrow>
     ingest_step v w (Arrived (is_next w) t)
       (w\<lparr>is_queue := (is_queue w)(k := is_queue w k @ [(is_next w, t, Begin)]), is_next := Suc (is_next w)\<rparr>)"
| work: "\<lbrakk>is_queue w k = (i, t, s) # q; task_step v e fault now t s (is_state w) = (s', st'); \<forall>b. s' \<noteq> Over b\<rbrakk> \<Longrightarrow>
     ingest_step v w (Worked i) (w\<lparr>is_state := st', is_queue := (is_queue w)(k := (i, t, s') # q)\<rparr>)"
| finish: "\<lbrakk>is_queue w k = (i, t, s) # q; task_step v e fault now t s (is_state w) = (Over b, st')\<rbrakk> \<Longrightarrow>
     ingest_step v w (Finished i b) (w\<lparr>is_state := st', is_queue := (is_queue w)(k := q)\<rparr>)"
| fill: "fill_users v e found (is_state w) = st' \<Longrightarrow> ingest_step v w Background (w\<lparr>is_state := st'\<rparr>)"
| authorized: "ingest_authorized v e chats contacts me (is_state w) = Inr st' \<Longrightarrow>
     ingest_step v w Background (w\<lparr>is_state := st'\<rparr>)"
| history: "ingest_message v e None msg now False (Some chat) (Some True) (is_state w) = Inr (row, st') \<Longrightarrow>
     ingest_step v w Background (w\<lparr>is_state := st'\<rparr>)"
| session: "ingest_step v w Background (w\<lparr>is_state := (is_state w)\<lparr>in_caught_up := cs, in_identity_ok := b, in_me_id := m\<rparr>\<rparr>)"

definition ingest_start :: "ingest_system \<Rightarrow> bool" where
  "ingest_start w \<longleftrightarrow> is_queue w = (\<lambda>k. []) \<and> is_next w = 0 \<and> in_raw (is_state w) = [] \<and> in_next_raw (is_state w) = 1"

inductive_cases ingest_stepE: "ingest_step v w ev w'"

end
