(* ===== verification/Max_Ingest_Facts.thy ===== *)
theory Max_Ingest_Facts
  imports Max_Ingest Max_Store_Facts
begin

text \<open>
  Facts on the processing of frames. The locale \<open>fifo_lock\<close> is what the ingest relies on of
  \<^verbatim>\<open>asyncio.Lock\<close>: tasks join the queue of their key at the end, only the first of a queue
  leaves. Its lemma gives the order; the frames interpret it. The rest shows what every step keeps
  of the tables and of the journal.
\<close>

subsection \<open>Queues by key\<close>

definition arrivals :: "('e \<Rightarrow> (nat \<times> 'k) option) \<Rightarrow> 'k \<Rightarrow> 'e list \<Rightarrow> nat list" where
  "arrivals arrival k es = map fst (filter (\<lambda>(i, k'). k' = k) (List.map_filter arrival es))"

definition departures :: "('e \<Rightarrow> (nat \<times> 'k) option) \<Rightarrow> ('e \<Rightarrow> nat option) \<Rightarrow> 'k \<Rightarrow> 'e list \<Rightarrow> nat list" where
  "departures arrival leaving k es =
     filter (\<lambda>i. i \<in> set (arrivals arrival k es)) (List.map_filter leaving es)"

lemma map_filter_snoc: "List.map_filter f (es @ [e]) = List.map_filter f es @ (case f e of None \<Rightarrow> [] | Some x \<Rightarrow> [x])"
  by (simp add: List.map_filter_def split: option.split)

locale fifo_lock =
  fixes step :: "'w \<Rightarrow> 'e \<Rightarrow> 'w \<Rightarrow> bool"
    and queue :: "'w \<Rightarrow> 'k \<Rightarrow> nat list"
    and number :: "'w \<Rightarrow> nat"
    and arrival :: "'e \<Rightarrow> (nat \<times> 'k) option"
    and leaving :: "'e \<Rightarrow> nat option"
  assumes arrives: "step w e w' \<Longrightarrow> arrival e = Some (i, k) \<Longrightarrow>
      i = number w \<and> leaving e = None \<and> number w' = Suc (number w) \<and> queue w' = (queue w)(k := queue w k @ [i])"
    and leaves: "step w e w' \<Longrightarrow> leaving e = Some i \<Longrightarrow>
      arrival e = None \<and> number w' = number w \<and> (\<exists>k q. queue w k = i # q \<and> queue w' = (queue w)(k := q))"
    and stays: "step w e w' \<Longrightarrow> arrival e = None \<Longrightarrow> leaving e = None \<Longrightarrow>
      number w' = number w \<and> queue w' = queue w"
begin

definition in_order :: "'e list \<Rightarrow> 'w \<Rightarrow> bool" where
  "in_order es w \<longleftrightarrow> map fst (List.map_filter arrival es) = [0..<number w] \<and>
     (\<forall>k. departures arrival leaving k es @ queue w k = arrivals arrival k es) \<and>
     set (List.map_filter leaving es) \<subseteq> {0..<number w}"

lemma arrivals_in: "in_order es w \<Longrightarrow> i \<in> set (arrivals arrival k es) \<Longrightarrow> i < number w"
proof -
  assume o: "in_order es w" and a: "i \<in> set (arrivals arrival k es)"
  have i: "i \<in> set (map fst (List.map_filter arrival es))" using a unfolding arrivals_def by auto
  have m: "map fst (List.map_filter arrival es) = [0..<number w]" using o by (simp add: in_order_def)
  show ?thesis using i unfolding m by simp
qed

lemma arrivals_key:
  assumes o: "in_order es w" and i: "i \<in> set (arrivals arrival k es)" "i \<in> set (arrivals arrival k' es)"
  shows "k = k'"
proof -
  have "(i, k) \<in> set (List.map_filter arrival es)" "(i, k') \<in> set (List.map_filter arrival es)"
    using i by (auto simp: arrivals_def)
  moreover have "distinct (map fst (List.map_filter arrival es))" using o by (simp add: in_order_def)
  ultimately show ?thesis by (rule eq_key_imp_eq_value [OF _ _ _, rotated 1])
qed

lemma step_in_order:
  assumes o: "in_order es w" and s: "step w e w'"
  shows "in_order (es @ [e]) w'"
proof -
  consider (arr) i k where "arrival e = Some (i, k)" | (dep) i where "leaving e = Some i" "arrival e = None"
    | (stay) "arrival e = None" "leaving e = None"
    by (metis not_None_eq prod.exhaust leaves [OF s])
  then show ?thesis
  proof cases
    case arr
    note a = arrives [OF s arr]
    have new: "number w \<notin> set (arrivals arrival k' es)" for k' using arrivals_in [OF o] by blast
    have arr': "arrivals arrival k' (es @ [e]) = arrivals arrival k' es @ (if k' = k then [number w] else [])" for k'
      using arr a by (simp add: arrivals_def map_filter_snoc)
    have "set (List.map_filter leaving es) \<subseteq> {0..<number w}" using o by (simp add: in_order_def)
    then have "departures arrival leaving k' (es @ [e]) = departures arrival leaving k' es" for k'
      using a by (auto simp: departures_def arr' map_filter_snoc intro!: filter_cong)
    then show ?thesis using o arr a arr' by (auto simp: in_order_def map_filter_snoc)
  next
    case dep
    obtain k q where q: "queue w k = i # q" "queue w' = (queue w)(k := q)" "number w' = number w"
      using leaves [OF s dep(1)] by blast
    have arr': "arrivals arrival k' (es @ [e]) = arrivals arrival k' es" for k'
      using dep by (simp add: arrivals_def map_filter_snoc)
    have ar: "departures arrival leaving k es @ i # q = arrivals arrival k es"
      using o q(1) by (metis in_order_def)
    then have i: "i \<in> set (arrivals arrival k es)" by (metis in_set_conv_decomp)
    have other: "i \<notin> set (arrivals arrival k' es)" if "k' \<noteq> k" for k'
      using arrivals_key [OF o i, of k'] that by blast
    have dd: "departures arrival leaving k' (es @ [e]) = departures arrival leaving k' es @ (if i \<in> set (arrivals arrival k' es) then [i] else [])" for k'
      by (simp add: departures_def arr' map_filter_snoc dep)
    have "departures arrival leaving k' (es @ [e]) @ queue w' k' = arrivals arrival k' (es @ [e])" for k'
    proof (cases "k' = k")
      case True
      then show ?thesis using ar i by (simp add: dd arr' q)
    next
      case False
      then show ?thesis using o other by (simp add: dd arr' q in_order_def)
    qed
    moreover have "map fst (List.map_filter arrival (es @ [e])) = [0..<number w']"
      "set (List.map_filter leaving (es @ [e])) \<subseteq> {0..<number w'}"
      using o dep arrivals_in [OF o i] by (simp_all add: in_order_def map_filter_snoc q(3))
    ultimately show ?thesis by (simp add: in_order_def)
  next
    case stay
    then have "arrivals arrival k' (es @ [e]) = arrivals arrival k' es"
      "departures arrival leaving k' (es @ [e]) = departures arrival leaving k' es" for k'
      by (simp_all add: arrivals_def departures_def map_filter_snoc)
    then show ?thesis using o stay stays [OF s] by (simp add: in_order_def map_filter_snoc)
  qed
qed

lemma run_in_order:
  assumes "run_of step w es w'" and "queue w = (\<lambda>k. [])" and "number w = 0"
  shows "in_order es w'"
  using assms
proof (induction rule: run_of.induct)
  case (start w)
  then show ?case by (simp add: in_order_def arrivals_def departures_def List.map_filter_def)
qed (blast intro: step_in_order)

lemma arrivals_ascend: "in_order es w \<Longrightarrow> sorted_wrt (<) (arrivals arrival k es)"
proof -
  assume "in_order es w"
  then have "map fst (List.map_filter arrival es) = [0..<number w]" by (simp add: in_order_def)
  then have "sorted_wrt (<) (map fst (List.map_filter arrival es))" by simp
  then show ?thesis unfolding arrivals_def by (simp add: sorted_wrt_map sorted_wrt_filter)
qed

lemma left_before:
  assumes o: "in_order es w" and i: "i \<in> set (departures arrival leaving k es)" and j: "j \<in> set (queue w k)"
  shows "i < j"
proof -
  have "departures arrival leaving k es @ queue w k = arrivals arrival k es" using o by (simp add: in_order_def)
  then have "sorted_wrt (<) (departures arrival leaving k es @ queue w k)" using arrivals_ascend [OF o, of k] by simp
  then show ?thesis using i j by (simp add: sorted_wrt_append)
qed

lemma queue_ascends:
  assumes o: "in_order es w"
  shows "sorted_wrt (<) (queue w k)"
proof -
  have "departures arrival leaving k es @ queue w k = arrivals arrival k es" using o by (simp add: in_order_def)
  then have "sorted_wrt (<) (departures arrival leaving k es @ queue w k)" using arrivals_ascend [OF o, of k] by simp
  then show ?thesis by (simp add: sorted_wrt_append)
qed

lemma first_come_first_served:
  assumes "run_of step w es w'" and "queue w = (\<lambda>k. [])" and "number w = 0"
  shows "departures arrival leaving k es @ queue w' k = arrivals arrival k es"
  using run_in_order [OF assms] by (simp add: in_order_def)

end

subsection \<open>What no operation takes away\<close>

definition message_at :: "account_tables \<Rightarrow> int \<Rightarrow> int \<Rightarrow> message option" where
  "message_at db pk i = one_or_none (is_message pk i) (at_messages db)"

definition message_stored :: "account_tables \<Rightarrow> int \<Rightarrow> int \<Rightarrow> bool" where
  "message_stored db chat_id i = (case chat_pk db chat_id of None \<Rightarrow> False | Some pk \<Rightarrow> message_at db pk i \<noteq> None)"

definition message_deleted :: "account_tables \<Rightarrow> int \<Rightarrow> int \<Rightarrow> bool" where
  "message_deleted db chat_id i = (case chat_pk db chat_id of
      None \<Rightarrow> False
    | Some pk \<Rightarrow> (case message_at db pk i of None \<Rightarrow> False | Some m \<Rightarrow> mg_deleted_at m \<noteq> None))"

text \<open>Chats keep their row, messages stay stored, deleted ones stay deleted.\<close>

definition grows :: "account_tables \<Rightarrow> account_tables \<Rightarrow> bool" where
  "grows db db' \<longleftrightarrow> (\<forall>ext pk. chat_pk db ext = Some pk \<longrightarrow> chat_pk db' ext = Some pk) \<and>
     (\<forall>pk i m. message_at db pk i = Some m \<longrightarrow>
        (\<exists>m'. message_at db' pk i = Some m' \<and> (mg_deleted_at m \<noteq> None \<longrightarrow> mg_deleted_at m' \<noteq> None)))"

named_theorems grows_intros \<open>operations that take nothing away\<close>

lemma grows_refl [simp]: "grows db db"
  by (simp add: grows_def)

lemma grows_trans [trans]: "grows a b \<Longrightarrow> grows b c \<Longrightarrow> grows a c"
  unfolding grows_def by meson

lemma grows_stored: "grows db db' \<Longrightarrow> message_stored db c i \<Longrightarrow> message_stored db' c i"
  unfolding grows_def message_stored_def by (cases "chat_pk db c") fastforce+

lemma grows_deleted: "grows db db' \<Longrightarrow> message_deleted db c i \<Longrightarrow> message_deleted db' c i"
  unfolding grows_def message_deleted_def
  by (cases "chat_pk db c"; fastforce split: option.splits)

lemma same_history_grows: "same_history db db' \<Longrightarrow> grows db db'"
  by (simp add: grows_def same_history_pk) (simp add: same_history_def message_at_def)

lemma grows_messages:
  assumes "\<And>ext. chat_pk db' ext = chat_pk db ext"
    and "\<And>pk i m. message_at db pk i = Some m \<Longrightarrow>
      \<exists>m'. message_at db' pk i = Some m' \<and> (mg_deleted_at m \<noteq> None \<longrightarrow> mg_deleted_at m' \<noteq> None)"
  shows "grows db db'"
  using assms by (simp add: grows_def)

lemma message_at_update:
  assumes "\<And>m. mg_chat_id (f m) = mg_chat_id m" "\<And>m. mg_external_id (f m) = mg_external_id m"
  shows "one_or_none (is_message pk i) (update_rows P f ms) = map_option (\<lambda>m. if P m then f m else m) (one_or_none (is_message pk i) ms)"
  by (rule one_or_none_update_rows) (simp add: is_message_def assms)

lemma insert_message_grows: "grows db (snd (insert_message db pk row))"
proof (rule grows_messages)
  show "chat_pk (snd (insert_message db pk row)) ext = chat_pk db ext" for ext
    by (auto simp: insert_message_def Let_def chat_pk_def get_chat_def split: option.split)
  fix p i m assume m: "message_at db p i = Some m"
  show "\<exists>m'. message_at (snd (insert_message db pk row)) p i = Some m' \<and> (mg_deleted_at m \<noteq> None \<longrightarrow> mg_deleted_at m' \<noteq> None)"
  proof (cases "one_or_none (is_message pk (mr_external_id row)) (at_messages db)")
    case None
    then show ?thesis using m by (simp add: insert_message_def Let_def message_at_def one_or_none_append)
  next
    case (Some t)
    then show ?thesis using m
      by (simp add: insert_message_def Let_def message_at_def message_at_update)
        (auto simp: merged_message_def coalesce_def split: option.splits)
  qed
qed

lemma insert_message_at: "message_at (snd (insert_message db pk row)) pk (mr_external_id row) \<noteq> None"
proof (cases "one_or_none (is_message pk (mr_external_id row)) (at_messages db)")
  case None
  then show ?thesis
    by (simp add: insert_message_def Let_def message_at_def one_or_none_append) (simp add: one_or_none_def is_message_def)
qed (simp add: insert_message_def Let_def message_at_def message_at_update)

lemma upsert_message_history:
  "same_history (snd (insert_message db pk row)) (snd (upsert_message db pk row))"
  by (auto simp: upsert_message_def split: prod.split intro: same_history_trans [OF media_history touch_history] touch_history)

lemma upsert_message_grows [grows_intros]: "grows db (snd (upsert_message db pk row))"
  by (rule grows_trans [OF insert_message_grows same_history_grows [OF upsert_message_history]])

lemma upsert_message_at: "message_at (snd (upsert_message db pk row)) pk (mr_external_id row) \<noteq> None"
  using insert_message_at [of db pk row] upsert_message_history [of db pk row]
  by (simp add: message_at_def same_history_def)

lemma upsert_chat_grows [grows_intros]: "grows db (snd (upsert_chat db row))"
proof (cases "get_chat db (cr_external_id row)")
  case None
  then show ?thesis
    by (auto simp: upsert_chat_def grows_def chat_pk_def get_chat_def one_or_none_append message_at_def)
next
  case (Some c)
  have "same_history db (db\<lparr>at_chats := update_rows (is_chat (cr_external_id row)) (merged_chat row) (at_chats db)\<rparr>)"
    by (rule update_chats_history) (simp add: keeps_keys_def merged_chat_def)
  then have "grows db (db\<lparr>at_chats := update_rows (is_chat (cr_external_id row)) (merged_chat row) (at_chats db)\<rparr>)"
    by (rule same_history_grows)
  then show ?thesis using Some by (simp add: upsert_chat_def grows_def chat_pk_def get_chat_def message_at_def)
qed

lemma mark_deleted_grows [grows_intros]: "grows db (snd (mark_deleted db c exts at))"
proof (rule grows_messages)
  show "chat_pk (snd (mark_deleted db c exts at)) ext = chat_pk db ext" for ext
    by (simp add: mark_deleted_def chat_pk_def get_chat_def Let_def)
  fix p i m assume "message_at db p i = Some m"
  then show "\<exists>m'. message_at (snd (mark_deleted db c exts at)) p i = Some m' \<and> (mg_deleted_at m \<noteq> None \<longrightarrow> mg_deleted_at m' \<noteq> None)"
    by (auto simp: mark_deleted_def Let_def message_at_def message_at_update)
qed

lemma upsert_state_grows [grows_intros]: "grows db (upsert_state db pk f)"
  by (auto simp: upsert_state_def grows_def chat_pk_def get_chat_def message_at_def split: option.split)

lemma advance_grows [grows_intros]: "grows db (advance db pk i t)"
  by (auto simp: advance_def intro: grows_intros split: option.split)

lemma store_sender_grows: "store_sender e s db = Inr (miss, db') \<Longrightarrow> grows db db'"
  by (blast intro: same_history_grows store_sender_history)

lemma store_message_grows:
  assumes "store_message e db ext row ct adv t = Inr (miss, db')"
  shows "grows db db' \<and> message_stored db' ext (mr_external_id row)"
proof -
  obtain pk db1 where p: "(case chat_pk db ext of Some pk \<Rightarrow> (pk, db) | None \<Rightarrow> upsert_chat db (stub_chat ext ct)) = (pk, db1)"
    by (rule prod.exhaust)
  have 1: "grows db db1 \<and> chat_pk db1 ext = Some pk"
  proof (cases "chat_pk db ext")
    case None
    then have u: "upsert_chat db (stub_chat ext ct) = (pk, db1)" using p by simp
    then have "grows db db1" using upsert_chat_grows [of db "stub_chat ext ct"] by simp
    moreover have "chat_pk db1 ext = Some pk" using u None
      by (auto simp: upsert_chat_def chat_pk_def get_chat_def one_or_none_append stub_chat_def new_chat_def)
        (simp add: one_or_none_def)
    ultimately show ?thesis by blast
  next
    case (Some q)
    then show ?thesis using p by simp
  qed
  obtain db2 where d2: "store_sender e (mr_sender_external_id row) db1 = Inr (miss, db2)"
    using assms p by (cases "store_sender e (mr_sender_external_id row) db1") (auto simp: store_message_def Let_def)
  note 2 = store_sender_grows [OF d2]
  let ?db3 = "snd (upsert_message db2 pk row)"
  have 3: "grows db1 ?db3" by (rule grows_trans [OF 2 upsert_message_grows])
  then have pk3: "chat_pk ?db3 ext = Some pk" using 1 by (simp add: grows_def)
  then have s3: "message_stored ?db3 ext (mr_external_id row)" using upsert_message_at by (simp add: message_stored_def)
  let ?db4 = "if chat_pk db ext = None \<and> ct = ''private'' then snd (fill_dialog_titles (se_saved e) ?db3 (Some [ext])) else ?db3"
  have 4: "grows ?db3 ?db4" by (simp add: same_history_grows titles_history)
  have "db' = (case t of Some u \<Rightarrow> if adv then advance ?db4 pk (mr_external_id row) u else ?db4 | None \<Rightarrow> ?db4)"
    using assms p d2 by (simp add: store_message_def Let_def)
  then have 5: "grows ?db4 db'" by (auto intro: advance_grows split: option.split)
  have "grows ?db3 db'" by (rule grows_trans [OF 4 5])
  with 1 3 s3 show ?thesis using grows_trans grows_stored by blast
qed

lemma set_status_grows [grows_intros]: "grows db (set_status db ext st old store)"
  by (rule same_history_grows [OF status_history])

lemma store_chat_grows: "grows db (store_chat before row db)"
  by (auto simp: store_chat_def Let_def intro: grows_trans [OF upsert_chat_grows set_status_grows] upsert_chat_grows split: option.split)

lemma store_chats_grow: "grows db (fold (store_chat before) rows db)"
  by (induction rows arbitrary: db) (auto intro: grows_trans [OF store_chat_grows])

lemma upsert_chats_grows [grows_intros]: "grows db (upsert_chats e db rows)"
  by (simp add: upsert_chats_def Let_def) (rule grows_trans [OF store_chats_grow same_history_grows [OF titles_history]])

lemma store_users_history: "store_users e contact via rows db = Inr db' \<Longrightarrow> same_history db db'"
  by (induction rows arbitrary: db) (auto split: sum.splits intro: same_history_trans [OF store_user_history])

lemma upsert_users_grows: "upsert_users e db rows via contact = Inr db' \<Longrightarrow> grows db db'"
  by (auto simp: upsert_users_def split: sum.splits
      intro: grows_trans [OF same_history_grows [OF store_users_history] same_history_grows [OF titles_history]])

lemma store_mark_deleted_grows: "store_mark_deleted db c ids at = (found, db') \<Longrightarrow> grows db db'"
  by (auto simp: store_mark_deleted_def Let_def intro: mark_deleted_grows split: option.splits)

lemma store_mark_deleted_deletes:
  assumes d: "store_mark_deleted db c ids at = (found, db')" and s: "message_stored db c i" and i: "i \<in> set ids"
  shows "message_deleted db' c i"
proof -
  obtain pk m where pk: "chat_pk db c = Some pk" and m: "message_at db pk i = Some m"
    using s by (auto simp: message_stored_def split: option.splits)
  have m': "mg_external_id m = i" "mg_chat_id m = pk"
    using one_or_none_Some [OF m [unfolded message_at_def]] by (simp_all add: is_message_def)
  have db': "db' = snd (mark_deleted db (Some pk) ids at)" using d pk by (simp add: store_mark_deleted_def Let_def)
  have "chat_pk db' c = Some pk" using mark_deleted_grows [of db "Some pk" ids at] pk unfolding db' grows_def by blast
  moreover have "\<exists>m2. message_at db' pk i = Some m2 \<and> mg_deleted_at m2 \<noteq> None"
    using m m' i by (auto simp: db' mark_deleted_def Let_def message_at_def message_at_update)
  ultimately show ?thesis by (auto simp: message_deleted_def)
qed

subsection \<open>Steps of tasks\<close>

lemma fill_once_tables [simp]: "in_tables (fill_once us st) = in_tables st" "in_raw (fill_once us st) = in_raw st"
  "in_next_raw (fill_once us st) = in_next_raw st"
  by (simp_all add: fill_once_def Let_def)

lemma broadcast_tables [simp]: "in_tables (broadcast d st) = in_tables st" "in_raw (broadcast d st) = in_raw st"
  "in_next_raw (broadcast d st) = in_next_raw st"
  by (simp_all add: broadcast_def)

lemma mark_tables [simp]: "in_tables (finish_journal i n err st) = in_tables st"
  by (simp add: finish_journal_def mark_normalized_def)

lemma normalize_message_ids:
  assumes "normalize_message ver msg me cid ct at ed = Inr (row, media)"
  shows "nm_message_id row = pm_id msg" "(case pm_chat_id msg of Some c \<Rightarrow> Some c | None \<Rightarrow> cid) = Some (nm_chat_id row)"
    "nm_tg_date row = ms_to_dt (Some (pm_time msg))"
  using assms by (auto simp: normalize_message_def Let_def split: option.splits sum.splits prod.splits)

lemma ingest_message_facts:
  assumes "ingest_message v e fault msg at ed cid adv st = Inr (row, st')"
  shows "grows (in_tables st) (in_tables st') \<and> in_raw st' = in_raw st \<and> in_next_raw st' = in_next_raw st \<and>
    nm_message_id row = pm_id msg \<and> (case pm_chat_id msg of Some c \<Rightarrow> Some c | None \<Rightarrow> cid) = Some (nm_chat_id row) \<and>
    message_stored (in_tables st') (nm_chat_id row) (pm_id msg)"
proof -
  let ?cid = "case pm_chat_id msg of Some c \<Rightarrow> Some c | None \<Rightarrow> cid"
  let ?ct = "case ?cid of None \<Rightarrow> None | Some c \<Rightarrow> stored_chat_type (in_tables st) c"
  obtain media where n: "normalize_message (ie_version v) msg (in_me_id st) ?cid ?ct at ed = Inr (row, media)"
    using assms by (auto simp: ingest_message_def Let_def split: sum.splits option.splits)
  obtain mrow where m: "to_message_row row media = Some mrow"
    using assms n by (auto simp: ingest_message_def Let_def split: option.splits)
  obtain k adv' missing db where s: "store_message e (in_tables st) (nm_chat_id row) mrow k adv' (Some (pm_time msg)) = Inr (missing, db)"
    and st': "st' = fill_once missing (st\<lparr>in_tables := db\<rparr>)"
    using assms n m by (auto simp: ingest_message_def Let_def split: option.splits sum.splits)
  have "mr_external_id mrow = nm_message_id row" using m by (auto simp: to_message_row_def)
  then show ?thesis using store_message_grows [OF s] normalize_message_ids [OF n] by (simp add: st' split: option.splits)
qed

lemma on_delete_facts:
  assumes "on_delete fault c ids at st = (r, st')"
  shows "grows (in_tables st) (in_tables st') \<and> in_raw st' = in_raw st \<and> in_next_raw st' = in_next_raw st \<and>
    (\<forall>note. r = Inr note \<longrightarrow> (\<forall>i \<in> set ids. message_stored (in_tables st) c i \<longrightarrow> message_deleted (in_tables st') c i))"
proof (cases fault)
  case None
  obtain found db where d: "store_mark_deleted (in_tables st) c ids at = (found, db)" by (rule prod.exhaust)
  have "in_tables st' = db" "in_raw st' = in_raw st" "in_next_raw st' = in_next_raw st"
    using assms None d by (auto simp: on_delete_def)
  then show ?thesis using store_mark_deleted_grows [OF d] store_mark_deleted_deletes [OF d] by blast
next
  case (Some t)
  then show ?thesis using assms by (auto simp: on_delete_def)
qed

lemma chat_status_facts:
  "grows (in_tables st) (in_tables (chat_status_of v fault payload st)) \<and>
   in_raw (chat_status_of v fault payload st) = in_raw st \<and> in_next_raw (chat_status_of v fault payload st) = in_next_raw st"
  by (auto simp: chat_status_of_def intro: same_history_grows [OF set_chat_status_history] split: option.split json.split)

lemma on_message_facts:
  assumes "on_message v e fault msg at ed st = (r, st')"
  shows "grows (in_tables st) (in_tables st') \<and> in_raw st' = in_raw st \<and> in_next_raw st' = in_next_raw st \<and>
    (\<forall>note c. r = Inr note \<longrightarrow> pm_chat_id msg = Some c \<longrightarrow> pm_status msg \<noteq> Some ''REMOVED'' \<longrightarrow> message_stored (in_tables st') c (pm_id msg))"
proof (cases "pm_status msg = Some ''REMOVED'' \<and> pm_chat_id msg \<noteq> None")
  case True
  then obtain c where c: "pm_chat_id msg = Some c" "pm_status msg = Some ''REMOVED''" by blast
  then have "on_delete fault c [pm_id msg] at st = (r, st')" using assms by (simp add: on_message_def)
  from on_delete_facts [OF this] show ?thesis using c by simp
next
  case False
  let ?ev = "if ed \<or> pm_status msg = Some ''EDITED'' then ''edit'' else ''message''"
  have o: "(case ingest_message v e fault msg at (?ev = ''edit'') None None st of
              Inl err \<Rightarrow> (Inl err, st) | Inr (row, st') \<Rightarrow> (Inr None, broadcast (event_payload ?ev row) st')) = (r, st')"
  proof -
    have "(if pm_status msg = Some ''REMOVED'' then pm_chat_id msg else None) = None" using False by auto
    then show ?thesis using assms by (simp add: on_message_def Let_def)
  qed
  show ?thesis
  proof (cases "ingest_message v e fault msg at (?ev = ''edit'') None None st")
    case (Inl err)
    then have "r = Inl err" "st' = st" using o by auto
    then show ?thesis by simp
  next
    case (Inr p)
    obtain row st1 where p: "p = (row, st1)" by (rule prod.exhaust)
    note f = ingest_message_facts [OF Inr [unfolded p]]
    have "in_tables st' = in_tables st1" "in_raw st' = in_raw st1" "in_next_raw st' = in_next_raw st1"
      using o unfolding Inr p by auto
    then show ?thesis using f by (auto split: option.splits)
  qed
qed

text \<open>What a task stores or deletes when it succeeds; a scheduled message is not stored yet.\<close>

definition stores :: "ingest_env \<Rightarrow> task \<Rightarrow> int \<Rightarrow> int \<Rightarrow> bool" where
  "stores v t c i = (case t of
      Frame opcode payload \<Rightarrow> (opcode = OP_MESSAGE \<or> opcode = OP_EDIT) \<and>
        field ''delayedAttributes'' (message_part payload) = None \<and>
        (case parse_message (ie_message v) payload of
           Inl _ \<Rightarrow> False
         | Inr msg \<Rightarrow> pm_chat_id msg = Some c \<and> pm_id msg = i \<and> pm_status msg \<noteq> Some ''REMOVED'')
    | Sent msg chat_id is_edit \<Rightarrow> (case pm_chat_id msg of Some c' \<Rightarrow> c' = c | None \<Rightarrow> chat_id = c) \<and> pm_id msg = i
    | Deleted chat_id ids \<Rightarrow> False)"

definition deletes :: "ingest_env \<Rightarrow> task \<Rightarrow> int \<Rightarrow> int \<Rightarrow> bool" where
  "deletes v t c i = (case t of
      Frame opcode payload \<Rightarrow> opcode = OP_DELETE \<and>
        (case parse_delete (ie_delete v) payload of Inl _ \<Rightarrow> False | Inr (chat_id, ids) \<Rightarrow> chat_id = c \<and> i \<in> set ids)
    | Sent msg chat_id is_edit \<Rightarrow> False
    | Deleted chat_id ids \<Rightarrow> chat_id = c \<and> i \<in> set ids)"

definition stage_ok :: "ingest_env \<Rightarrow> task \<Rightarrow> stage \<Rightarrow> bool" where
  "stage_ok v t s = (case s of
      Parsed at raw msg \<Rightarrow> (\<exists>opcode payload. t = Frame opcode payload \<and> (opcode = OP_MESSAGE \<or> opcode = OP_EDIT) \<and>
        parse_message (ie_message v) payload = Inr msg)
    | Journaled at raw \<Rightarrow> (\<exists>opcode payload. t = Frame opcode payload)
    | Result raw n err \<Rightarrow> (\<exists>opcode payload. t = Frame opcode payload)
    | Over b \<Rightarrow> False
    | Begin \<Rightarrow> True)"

definition succeeded :: "stage \<Rightarrow> bool" where
  "succeeded s = (case s of Result raw n err \<Rightarrow> n | Over b \<Rightarrow> b | _ \<Rightarrow> False)"

lemma opcodes_differ [simp]: "OP_DELETE \<noteq> OP_MESSAGE" "OP_DELETE \<noteq> OP_EDIT" "OP_CHAT \<noteq> OP_MESSAGE" "OP_CHAT \<noteq> OP_EDIT"
  "OP_CHAT \<noteq> OP_DELETE" "OP_MESSAGE \<noteq> OP_EDIT" "OP_EDIT \<noteq> OP_MESSAGE" "OP_MESSAGE \<noteq> OP_DELETE" "OP_EDIT \<noteq> OP_DELETE"
  by (simp_all add: OP_DELETE_def OP_MESSAGE_def OP_EDIT_def OP_CHAT_def)

lemma result_of_succeeded: "succeeded (result_of v raw r) \<Longrightarrow> \<exists>note. r = Inr note"
  by (auto simp: result_of_def succeeded_def split: sum.splits)

lemma result_of_ok: "stage_ok v (Frame op p) (result_of v raw r)" "result_of v raw r \<noteq> Over b"
  by (auto simp: result_of_def stage_ok_def split: sum.splits)

lemma not_delayed: "field ''delayedAttributes'' (message_part payload) = None \<Longrightarrow> \<not> is_delayed tr payload now"
  by (simp add: is_delayed_def)

definition effect :: "ingest_env \<Rightarrow> task \<Rightarrow> stage \<Rightarrow> ingest \<Rightarrow> stage \<Rightarrow> ingest \<Rightarrow> bool" where
  "effect v t s st s' st' \<longleftrightarrow> grows (in_tables st) (in_tables st') \<and> (stage_ok v t s' \<or> (\<exists>b. s' = Over b)) \<and>
     (succeeded s' \<longrightarrow> \<not> succeeded s \<longrightarrow> (\<forall>c i. (stores v t c i \<longrightarrow> message_stored (in_tables st') c i) \<and>
        (deletes v t c i \<longrightarrow> message_stored (in_tables st) c i \<longrightarrow> message_deleted (in_tables st') c i)))"

lemma begin_frame_effect: "begin_frame v fault now op p st = (s', st') \<Longrightarrow> effect v (Frame op p) Begin st s' st'"
  by (auto simp: begin_frame_def journal_def add_raw_event_def effect_def stage_ok_def succeeded_def Let_def split: option.splits)

lemma finish_frame_effect: "finish_frame fault raw n err st = (s', st') \<Longrightarrow> effect v t (Result raw n err) st s' st'"
  by (auto simp: finish_frame_def effect_def succeeded_def split: option.splits)

lemma on_chat_facts:
  "on_chat v e fault p st = (r, st') \<Longrightarrow>
    grows (in_tables st) (in_tables st') \<and> in_raw st' = in_raw st \<and> in_next_raw st' = in_next_raw st"
  by (auto simp: on_chat_def intro: upsert_chats_grows split: sum.splits option.splits)

lemma work_frame_effect:
  assumes w: "work_frame v e fault at raw op p st = (s', st')"
  shows "effect v (Frame op p) (Journaled at raw) st s' st'"
proof -
  consider (msg) "op = OP_MESSAGE \<or> op = OP_EDIT" | (del) "op = OP_DELETE" | (chat) "op = OP_CHAT"
    | (other) "op \<noteq> OP_MESSAGE" "op \<noteq> OP_EDIT" "op \<noteq> OP_DELETE" "op \<noteq> OP_CHAT" by blast
  then show ?thesis
  proof cases
    case msg
    then show ?thesis using w chat_status_facts [of st v fault p] msg
      by (auto simp: work_frame_def effect_def succeeded_def stage_ok_def result_of_def stores_def deletes_def not_delayed split: if_splits sum.splits)
  next
    case del
    then show ?thesis
    proof (cases "parse_delete (ie_delete v) p")
      case (Inl err)
      then show ?thesis using w del by (auto simp: work_frame_def effect_def result_of_ok result_of_def succeeded_def stage_ok_def)
    next
      case (Inr q)
      obtain c ids where q: "q = (c, ids)" by (rule prod.exhaust)
      obtain r st1 where d: "on_delete fault c ids at st = (r, st1)" by (rule prod.exhaust)
      have e: "s' = result_of v raw r" "st' = st1" using w del Inr q d by (auto simp: work_frame_def)
      note f = on_delete_facts [OF d]
      have "message_deleted (in_tables st') c' i" if "succeeded s'" "deletes v (Frame op p) c' i" "message_stored (in_tables st) c' i" for c' i
        using f result_of_succeeded [of v raw r] that Inr q e by (auto simp: deletes_def)
      moreover have "\<not> stores v (Frame op p) c' i" for c' i using del by (simp add: stores_def)
      ultimately show ?thesis using f e by (simp add: effect_def result_of_ok)
    qed
  next
    case chat
    obtain r st1 where d: "on_chat v e fault p st = (r, st1)" by (rule prod.exhaust)
    have "s' = result_of v raw r" "st' = st1" using w chat d by (auto simp: work_frame_def)
    then show ?thesis using on_chat_facts [OF d] chat
      by (auto simp: effect_def result_of_ok stores_def deletes_def)
  next
    case other
    then show ?thesis using w by (auto simp: work_frame_def effect_def stage_ok_def stores_def deletes_def)
  qed
qed

lemma parsed_effect:
  assumes m: "on_message v e fault msg at ed st = (r, st')" and ok: "stage_ok v (Frame op p) (Parsed at raw msg)"
  shows "effect v (Frame op p) (Parsed at raw msg) st (result_of v raw r) st'"
proof -
  have op: "op = OP_MESSAGE \<or> op = OP_EDIT" and p: "parse_message (ie_message v) p = Inr msg" using ok by (auto simp: stage_ok_def)
  have "message_stored (in_tables st') c i" if "succeeded (result_of v raw r)" "stores v (Frame op p) c i" for c i
    using on_message_facts [OF m] result_of_succeeded [OF that(1)] that(2) p by (auto simp: stores_def)
  moreover have "\<not> deletes v (Frame op p) c i" for c i using op by (auto simp: deletes_def)
  ultimately show ?thesis using on_message_facts [OF m] by (auto simp: effect_def result_of_ok)
qed

lemma task_step_effect:
  assumes "task_step v e fault now t s st = (s', st')" and ok: "stage_ok v t s"
  shows "effect v t s st s' st'"
proof (cases t)
  case (Frame op p)
  show ?thesis
  proof (cases s)
    case (Parsed at raw msg)
    obtain r st1 where m: "on_message v e fault msg at (op = OP_EDIT) st = (r, st1)" by (rule prod.exhaust)
    then show ?thesis using assms Frame Parsed parsed_effect [OF m] by auto
  qed (use assms Frame in \<open>auto simp: begin_frame_effect work_frame_effect finish_frame_effect stage_ok_def\<close>)
next
  case (Sent msg c ed)
  have s: "s = Begin" using ok Sent by (cases s) (auto simp: stage_ok_def)
  show ?thesis
  proof (cases "ingest_message v e fault msg now ed (Some c) None st")
    case (Inl err)
    then show ?thesis using assms Sent s by (auto simp: effect_def succeeded_def)
  next
    case (Inr q)
    obtain row st1 where q: "q = (row, st1)" by (rule prod.exhaust)
    have "s' = Over True" "st' = st1" using assms Sent s Inr q by auto
    then show ?thesis using ingest_message_facts [OF Inr [unfolded q]] Sent
      by (auto simp: effect_def stores_def deletes_def split: option.splits)
  qed
next
  case (Deleted c ids)
  have s: "s = Begin" using ok Deleted by (cases s) (auto simp: stage_ok_def)
  obtain r st1 where d: "on_delete fault c ids now st = (r, st1)" by (rule prod.exhaust)
  show ?thesis using on_delete_facts [OF d] assms Deleted s d
    by (cases r) (auto simp: effect_def succeeded_def stores_def deletes_def)
qed

subsection \<open>The locks of the chats\<close>

definition waiting_ids :: "ingest_system \<Rightarrow> int option \<Rightarrow> nat list" where
  "waiting_ids w k = map fst (is_queue w k)"

definition arrival_of :: "ingest_env \<Rightarrow> event \<Rightarrow> (nat \<times> int option) option" where
  "arrival_of v ev = (case ev of Arrived i t \<Rightarrow> Some (i, lock_key v t) | _ \<Rightarrow> None)"

definition leaving_of :: "event \<Rightarrow> nat option" where
  "leaving_of ev = (case ev of Finished i b \<Rightarrow> Some i | _ \<Rightarrow> None)"

inductive_cases finished_stepE: "ingest_step v w (Finished i b) w'"

lemma waiting_ids_eq: "waiting_ids w = (\<lambda>k. map fst (is_queue w k))"
  by (simp add: waiting_ids_def fun_eq_iff)

interpretation chat_lock: fifo_lock "ingest_step v" waiting_ids is_next "arrival_of v" leaving_of for v
proof
  fix w ev w' i k
  assume s: "ingest_step v w ev w'" and a: "arrival_of v ev = Some (i, k)"
  show "i = is_next w \<and> leaving_of ev = None \<and> is_next w' = Suc (is_next w) \<and>
      waiting_ids w' = (waiting_ids w)(k := waiting_ids w k @ [i])"
    using s by (cases rule: ingest_stepE) (use a in \<open>auto simp: arrival_of_def leaving_of_def waiting_ids_eq fun_eq_iff\<close>)
next
  fix w ev w' i
  assume s: "ingest_step v w ev w'" and l: "leaving_of ev = Some i"
  show "arrival_of v ev = None \<and> is_next w' = is_next w \<and>
      (\<exists>k q. waiting_ids w k = i # q \<and> waiting_ids w' = (waiting_ids w)(k := q))"
  proof -
    obtain b where ev: "ev = Finished i b" using l by (auto simp: leaving_of_def split: event.splits)
    obtain k t x q st' where k: "is_queue w k = (i, t, x) # q"
        "w' = w\<lparr>is_state := st', is_queue := (is_queue w)(k := q)\<rparr>"
      using s unfolding ev by (auto elim: finished_stepE)
    have "waiting_ids w k = i # map fst q" "waiting_ids w' = (waiting_ids w)(k := map fst q)"
      using k by (auto simp: waiting_ids_eq)
    then show ?thesis using ev k by (auto simp: arrival_of_def)
  qed
next
  fix w ev w'
  assume s: "ingest_step v w ev w'" and a: "arrival_of v ev = None" "leaving_of ev = None"
  show "is_next w' = is_next w \<and> waiting_ids w' = waiting_ids w"
    using s by (cases rule: ingest_stepE) (use a in \<open>auto simp: arrival_of_def leaving_of_def waiting_ids_eq fun_eq_iff\<close>)
qed

subsection \<open>Deletes come after what they delete\<close>

text \<open>A task has done its work: it is over with success or only its journal row is left.\<close>

definition worked :: "event list \<Rightarrow> ingest_system \<Rightarrow> nat \<Rightarrow> bool" where
  "worked es w i \<longleftrightarrow> Finished i True \<in> set es \<or> (\<exists>k t s. (i, t, s) \<in> set (is_queue w k) \<and> succeeded s)"

text \<open>Only the holder of a lock has begun; the tasks are those that arrived.\<close>

definition queues_ok :: "ingest_env \<Rightarrow> event list \<Rightarrow> ingest_system \<Rightarrow> bool" where
  "queues_ok v es w \<longleftrightarrow> chat_lock.in_order v es w \<and> (\<forall>i t. Arrived i t \<in> set es \<longrightarrow> i < is_next w) \<and>
     (\<forall>i t t'. Arrived i t \<in> set es \<longrightarrow> Arrived i t' \<in> set es \<longrightarrow> t = t') \<and>
     (\<forall>k x. x \<in> set (tl (is_queue w k)) \<longrightarrow> snd (snd x) = Begin) \<and>
     (\<forall>k i t s. (i, t, s) \<in> set (is_queue w k) \<longrightarrow> Arrived i t \<in> set es \<and> lock_key v t = k \<and> stage_ok v t s)"

definition deletes_ok :: "ingest_env \<Rightarrow> event list \<Rightarrow> ingest_system \<Rightarrow> bool" where
  "deletes_ok v es w \<longleftrightarrow>
     (\<forall>i t c m. Arrived i t \<in> set es \<longrightarrow> worked es w i \<longrightarrow> stores v t c m \<longrightarrow> message_stored (in_tables (is_state w)) c m) \<and>
     (\<forall>i t j u c m. Arrived i t \<in> set es \<longrightarrow> Arrived j u \<in> set es \<longrightarrow> i < j \<longrightarrow> lock_key v t = lock_key v u \<longrightarrow>
        worked es w i \<longrightarrow> worked es w j \<longrightarrow> stores v t c m \<longrightarrow> deletes v u c m \<longrightarrow> message_deleted (in_tables (is_state w)) c m)"

text \<open>How a step changes the queues: it adds a task, moves the holder of a lock on, or leaves them.\<close>

lemma fill_users_grows: "grows (in_tables st) (in_tables (fill_users v e found st))"
  by (auto simp: fill_users_def intro: upsert_users_grows split: option.split sum.split)

lemma ingest_authorized_grows:
  assumes "ingest_authorized v e chats contacts me st = Inr st'"
  shows "grows (in_tables st) (in_tables st')"
proof -
  let ?db1 = "upsert_chats e (in_tables st) (map (\<lambda>c. normalize_chat (ie_version v) c (in_me_id st)) chats)"
  obtain db2 where 2: "upsert_users e ?db1 (map (normalize_user (ie_version v)) contacts) ''contact'' (Some True) = Inr db2"
    using assms by (auto simp: ingest_authorized_def Let_def split: sum.splits)
  obtain db3 where 3: "(case me of None \<Rightarrow> Inr db2 | Some u \<Rightarrow> upsert_users e db2 [normalize_user (ie_version v) u] ''dialog'' None) = Inr db3"
    and st': "in_tables st' = db3"
    using assms 2 by (auto simp: ingest_authorized_def Let_def split: sum.splits)
  have "grows db2 db3" using 3 by (auto intro: upsert_users_grows split: option.splits)
  then show ?thesis unfolding st' by (rule grows_trans [OF upsert_chats_grows grows_trans [OF upsert_users_grows [OF 2]]])
qed

lemma background_step:
  assumes "ingest_step v w Background w'"
  shows "is_queue w' = is_queue w \<and> is_next w' = is_next w \<and> grows (in_tables (is_state w)) (in_tables (is_state w'))"
  using assms by (cases rule: ingest_stepE)
    (auto simp: fill_users_grows intro: ingest_authorized_grows dest: ingest_message_facts)

inductive_cases arrived_stepE: "ingest_step v w (Arrived i t) w'"
inductive_cases worked_stepE: "ingest_step v w (Worked i) w'"

text \<open>The holder of a lock after its step: its new stage, or None when it left.\<close>

definition moved :: "ingest_env \<Rightarrow> ingest_system \<Rightarrow> event \<Rightarrow> ingest_system \<Rightarrow> bool" where
  "moved v w ev w' \<longleftrightarrow> (\<exists>k i t s q s' st' e fault now. is_queue w k = (i, t, s) # q \<and>
     task_step v e fault now t s (is_state w) = (s', st') \<and> is_state w' = st' \<and> is_next w' = is_next w \<and>
     ((ev = Worked i \<and> (\<forall>b. s' \<noteq> Over b) \<and> is_queue w' = (is_queue w)(k := (i, t, s') # q)) \<or>
      (\<exists>b. ev = Finished i b \<and> s' = Over b \<and> is_queue w' = (is_queue w)(k := q))))"

lemma moved_step: "ingest_step v w ev w' \<Longrightarrow> ev = Worked i \<or> ev = Finished i b \<Longrightarrow> moved v w ev w'"
  by (elim disjE; hypsubst) (auto simp: moved_def elim!: worked_stepE finished_stepE; blast)+

lemma set_tl_snoc: "set (tl (xs @ [y])) \<subseteq> insert y (set (tl xs))"
  by (cases xs) auto

lemma queues_step:
  assumes q: "queues_ok v es w" and s: "ingest_step v w ev w'"
  shows "queues_ok v (es @ [ev]) w'"
proof -
  note o = chat_lock.step_in_order [OF q [unfolded queues_ok_def, THEN conjunct1] s]
  show ?thesis
  proof (cases ev)
    case (Arrived i t)
    then have i: "i = is_next w" "is_next w' = Suc (is_next w)"
      "is_queue w' = (is_queue w)(lock_key v t := is_queue w (lock_key v t) @ [(i, t, Begin)])"
      using s by (auto elim: arrived_stepE)
    have "snd (snd x) = Begin" if "x \<in> set (tl (is_queue w' k))" for k x
    proof -
      have "x \<in> set (tl (is_queue w k)) \<or> x = (i, t, Begin)"
        using that i set_tl_snoc [of "is_queue w (lock_key v t)" "(i, t, Begin)"] by (auto split: if_splits)
      then show ?thesis using q unfolding queues_ok_def by (metis snd_conv)
    qed
    moreover have "Arrived j u \<in> set (es @ [ev]) \<and> lock_key v u = k \<and> stage_ok v u x"
      if "(j, u, x) \<in> set (is_queue w' k)" for k j u x
      using that q i Arrived by (auto simp: queues_ok_def stage_ok_def split: if_splits)
    moreover have "j < is_next w'" if "Arrived j u \<in> set (es @ [ev])" for j u
      using that q i Arrived by (auto simp: queues_ok_def less_Suc_eq)
    moreover have "u = u'" if "Arrived j u \<in> set (es @ [ev])" "Arrived j u' \<in> set (es @ [ev])" for j u u'
      using that q i Arrived by (auto simp: queues_ok_def)
    ultimately show ?thesis using o unfolding queues_ok_def by blast
  next
    case Background
    then show ?thesis using q o background_step [of v w w'] s by (simp add: queues_ok_def)
  next
    case (Worked i)
    then obtain k t x q' s' st' e fault now where m: "is_queue w k = (i, t, x) # q'"
      "task_step v e fault now t x (is_state w) = (s', st')" "\<forall>b. s' \<noteq> Over b"
      "is_queue w' = (is_queue w)(k := (i, t, s') # q')" "is_next w' = is_next w"
      using moved_step [OF s] by (auto simp: moved_def)
    have "stage_ok v t x" using q m(1) unfolding queues_ok_def by (metis list.set_intros(1))
    then have "stage_ok v t s'" using task_step_effect [OF m(2)] m(3) by (auto simp: effect_def)
    then show ?thesis using q o m(1,4,5) Worked unfolding queues_ok_def
      by (auto split: if_splits) (metis list.sel(3) list.set_intros)+
  next
    case (Finished i b)
    then obtain k t x q' where m: "is_queue w k = (i, t, x) # q'"
      "is_queue w' = (is_queue w)(k := q')" "is_next w' = is_next w"
      using moved_step [OF s] by (auto simp: moved_def)
    have "set (tl q') \<subseteq> set q'" by (cases q') auto
    then show ?thesis using q o m Finished unfolding queues_ok_def
      by (auto split: if_splits) (metis list.sel(3) list.set_intros subsetD)+
  qed
qed

lemma moved_effect:
  assumes q: "queues_ok v es w" and m: "moved v w ev w'"
  obtains i t s k where "(i, t, s) \<in> set (is_queue w k)" "hd (is_queue w k) = (i, t, s)" "lock_key v t = k"
    "Arrived i t \<in> set es" "grows (in_tables (is_state w)) (in_tables (is_state w'))"
    "\<And>j. worked (es @ [ev]) w' j \<Longrightarrow> j \<noteq> i \<Longrightarrow> worked es w j"
    "\<And>c x. worked (es @ [ev]) w' i \<Longrightarrow> \<not> worked es w i \<Longrightarrow> stores v t c x \<Longrightarrow> message_stored (in_tables (is_state w')) c x"
    "\<And>c x. worked (es @ [ev]) w' i \<Longrightarrow> \<not> worked es w i \<Longrightarrow> deletes v t c x \<Longrightarrow>
       message_stored (in_tables (is_state w)) c x \<Longrightarrow> message_deleted (in_tables (is_state w')) c x"
proof -
  obtain k i t s q' s' st' e fault now where h: "is_queue w k = (i, t, s) # q'"
    and t: "task_step v e fault now t s (is_state w) = (s', st')" and st': "is_state w' = st'"
    and ev: "(ev = Worked i \<and> (\<forall>b. s' \<noteq> Over b) \<and> is_queue w' = (is_queue w)(k := (i, t, s') # q')) \<or>
      (\<exists>b. ev = Finished i b \<and> s' = Over b \<and> is_queue w' = (is_queue w)(k := q'))"
    using m unfolding moved_def by blast
  have a: "lock_key v t = k" "Arrived i t \<in> set es" "stage_ok v t s"
    using q h unfolding queues_ok_def by (metis list.set_intros(1))+
  note eff = task_step_effect [OF t a(3)]
  have old: "x \<in> set (is_queue w k')" if "x \<in> set (is_queue w' k')" "fst x \<noteq> i" for x k'
    using that ev h by (auto split: if_splits)
  have others: "worked es w j" if "worked (es @ [ev]) w' j" "j \<noteq> i" for j
    using that old ev unfolding worked_def by (auto, blast+)
  have all: "(\<forall>k' j u x. (j, u, x) \<in> set (is_queue w' k') \<longrightarrow> j = i \<longrightarrow> x = s' \<or> (j, u, x) \<in> set (is_queue w k'))"
    using ev h by (auto split: if_splits)
  have mine: "succeeded s' \<and> \<not> succeeded s" if w: "worked (es @ [ev]) w' i" "\<not> worked es w i"
  proof
    show "\<not> succeeded s" using w(2) h unfolding worked_def by (metis list.set_intros(1))
    from w(1) consider "Finished i True \<in> set es" | "ev = Finished i True" | k' u x where "(i, u, x) \<in> set (is_queue w' k')" "succeeded x"
      unfolding worked_def by auto
    then show "succeeded s'"
    proof cases
      case 1
      then show ?thesis using w(2) by (simp add: worked_def)
    next
      case 2
      then show ?thesis using ev by (auto simp: succeeded_def)
    next
      case 3
      then show ?thesis using all w(2) unfolding worked_def by blast
    qed
  qed
  show thesis
  proof (rule that [of i t s k])
    show "(i, t, s) \<in> set (is_queue w k)" "hd (is_queue w k) = (i, t, s)" using h by simp_all
    show "lock_key v t = k" "Arrived i t \<in> set es" by (fact a)+
    show "grows (in_tables (is_state w)) (in_tables (is_state w'))" using eff st' by (simp add: effect_def)
  next
    fix j assume "worked (es @ [ev]) w' j" "j \<noteq> i"
    then show "worked es w j" by (rule others)
  next
    fix c x assume "worked (es @ [ev]) w' i" "\<not> worked es w i" "stores v t c x"
    then show "message_stored (in_tables (is_state w')) c x" using mine eff st' by (simp add: effect_def)
  next
    fix c x assume "worked (es @ [ev]) w' i" "\<not> worked es w i" "deletes v t c x" "message_stored (in_tables (is_state w)) c x"
    then show "message_deleted (in_tables (is_state w')) c x" using mine eff st' by (simp add: effect_def)
  qed
qed

text \<open>No later task of the same lock has worked while the holder is not done.\<close>

lemma later_not_worked:
  assumes q: "queues_ok v es w" and h: "(i, t, s) \<in> set (is_queue w k)" "hd (is_queue w k) = (i, t, s)" "lock_key v t = k"
    and j: "Arrived j u \<in> set es" "lock_key v u = k" "i < j"
  shows "\<not> worked es w j"
proof
  assume "worked es w j"
  then consider (over) "Finished j True \<in> set es" | (here) k' u' x where "(j, u', x) \<in> set (is_queue w k')" "succeeded x"
    by (auto simp: worked_def)
  then show False
  proof cases
    case over
    have "(j, k) \<in> set (List.map_filter (arrival_of v) es)" using j(1,2)
      by (force simp: List.map_filter_def arrival_of_def)
    then have "j \<in> set (arrivals (arrival_of v) k es)" by (force simp: arrivals_def)
    moreover have "j \<in> set (List.map_filter leaving_of es)" using over by (force simp: List.map_filter_def leaving_of_def)
    ultimately have "j \<in> set (departures (arrival_of v) leaving_of k es)" by (simp add: departures_def)
    moreover have "i \<in> set (waiting_ids w k)" using h(1) by (force simp: waiting_ids_def)
    ultimately have "j < i" using chat_lock.left_before q unfolding queues_ok_def by blast
    then show False using j(3) by simp
  next
    case here
    have "Arrived j u' \<in> set es" "lock_key v u' = k'" using q here(1) unfolding queues_ok_def by blast+
    then have "k' = k" using q j unfolding queues_ok_def by blast
    moreover have "is_queue w k = (i, t, s) # tl (is_queue w k)" using h by (cases "is_queue w k") auto
    ultimately have "(j, u', x) \<in> set (tl (is_queue w k))" using here(1) j(3) by (metis less_irrefl prod.inject set_ConsD)
    then have "x = Begin" using q unfolding queues_ok_def by (metis snd_conv)
    then show False using here(2) by (simp add: succeeded_def)
  qed
qed

lemma deletes_step:
  assumes q: "queues_ok v es w" and d: "deletes_ok v es w" and s: "ingest_step v w ev w'"
  shows "deletes_ok v (es @ [ev]) w'"
proof -
  note d1 = d [unfolded deletes_ok_def, THEN conjunct1, rule_format]
  note d2 = d [unfolded deletes_ok_def, THEN conjunct2, rule_format]
  note uniq = q [unfolded queues_ok_def, THEN conjunct2, THEN conjunct2, THEN conjunct1, rule_format]
  show ?thesis
  proof (cases "\<exists>i b. ev = Worked i \<or> ev = Finished i b")
    case True
    then have m: "moved v w ev w'" using moved_step [OF s] by blast
    have arr: "Arrived j u \<in> set (es @ [ev]) \<longleftrightarrow> Arrived j u \<in> set es" for j u using True by auto
    obtain i t x k where h: "(i, t, x) \<in> set (is_queue w k)" "hd (is_queue w k) = (i, t, x)" "lock_key v t = k"
      and ai: "Arrived i t \<in> set es" and g: "grows (in_tables (is_state w)) (in_tables (is_state w'))"
      and others: "\<And>j. worked (es @ [ev]) w' j \<Longrightarrow> j \<noteq> i \<Longrightarrow> worked es w j"
      and new: "\<And>c y. worked (es @ [ev]) w' i \<Longrightarrow> \<not> worked es w i \<Longrightarrow> stores v t c y \<Longrightarrow> message_stored (in_tables (is_state w')) c y"
        "\<And>c y. worked (es @ [ev]) w' i \<Longrightarrow> \<not> worked es w i \<Longrightarrow> deletes v t c y \<Longrightarrow>
          message_stored (in_tables (is_state w)) c y \<Longrightarrow> message_deleted (in_tables (is_state w')) c y"
      by (rule moved_effect [OF q m]) blast
    have "message_stored (in_tables (is_state w')) c y"
      if "Arrived j u \<in> set es" "worked (es @ [ev]) w' j" "stores v u c y" for j u c y
    proof (cases "worked es w j")
      case True
      then show ?thesis using d1 that g grows_stored by blast
    next
      case False
      then have "j = i" using others that by blast
      then show ?thesis using new(1) that False uniq ai by blast
    qed
    moreover have "message_deleted (in_tables (is_state w')) c y"
      if "Arrived a u1 \<in> set es" "Arrived b u2 \<in> set es" "a < b" "lock_key v u1 = lock_key v u2"
        "worked (es @ [ev]) w' a" "worked (es @ [ev]) w' b" "stores v u1 c y" "deletes v u2 c y" for a u1 b u2 c y
    proof (cases "worked es w b")
      case True
      have "worked es w a"
      proof (rule ccontr)
        assume "\<not> worked es w a"
        then have "a = i" using others that by blast
        then have "\<not> worked es w b" using later_not_worked [OF q h that(2)] that uniq ai h(3) by metis
        then show False using True by blast
      qed
      then show ?thesis using d2 that True g grows_deleted by blast
    next
      case False
      then have b: "b = i" using others that by blast
      then have "u2 = t" using uniq ai that by blast
      moreover have "worked es w a" using others that b by blast
      then have "message_stored (in_tables (is_state w)) c y" using d1 that by blast
      ultimately show ?thesis using new(2) that False b by blast
    qed
    ultimately show ?thesis unfolding deletes_ok_def arr by blast
  next
    case False
    show ?thesis
    proof (cases ev)
      case (Arrived i t)
      have w: "i = is_next w" "is_state w' = is_state w"
        "is_queue w' = (is_queue w)(lock_key v t := is_queue w (lock_key v t) @ [(i, t, Begin)])"
        using s Arrived by (auto elim: arrived_stepE)
      have wk: "worked (es @ [ev]) w' j \<longleftrightarrow> worked es w j" for j
        using Arrived w(3) by (auto simp: worked_def succeeded_def; metis)
      have no: "\<not> worked es w i"
      proof
        assume "worked es w i"
        then consider "Finished i True \<in> set es" | k' u x where "(i, u, x) \<in> set (is_queue w k')" by (auto simp: worked_def)
        then show False
        proof cases
          case 1
          then have "i \<in> set (List.map_filter leaving_of es)" by (force simp: List.map_filter_def leaving_of_def)
          then show ?thesis using q w(1) unfolding queues_ok_def chat_lock.in_order_def by auto
        next
          case 2
          then show ?thesis using q w(1) unfolding queues_ok_def by blast
        qed
      qed
      have arr: "Arrived j u \<in> set (es @ [ev]) \<and> worked es w j \<longleftrightarrow> Arrived j u \<in> set es \<and> worked es w j" for j u
        using Arrived no by auto
      show ?thesis using d1 d2 arr unfolding deletes_ok_def wk w(2) by blast
    next
      case Background
      then have b: "is_queue w' = is_queue w" "grows (in_tables (is_state w)) (in_tables (is_state w'))"
        using background_step s by blast+
      have wk: "worked (es @ [ev]) w' j \<longleftrightarrow> worked es w j" for j using Background b(1) by (auto simp: worked_def)
      have arr: "Arrived j u \<in> set (es @ [ev]) \<longleftrightarrow> Arrived j u \<in> set es" for j u using Background by auto
      show ?thesis unfolding deletes_ok_def wk arr using d1 d2 b(2) grows_stored grows_deleted by blast
    qed (use False in blast)+
  qed
qed

lemma run_ok:
  assumes "run_of (ingest_step v) w es w'" and "ingest_start w"
  shows "queues_ok v es w' \<and> deletes_ok v es w'"
  using assms
proof (induction rule: run_of.induct)
  case (start w)
  have "chat_lock.in_order v [] w" using chat_lock.run_in_order [OF run_of.start, of w v] start
    by (simp add: ingest_start_def waiting_ids_eq)
  then show ?case using start by (simp add: queues_ok_def deletes_ok_def ingest_start_def)
qed (blast intro: queues_step deletes_step)

subsection \<open>The journal row of a frame\<close>

definition journal_ok :: "ingest \<Rightarrow> bool" where
  "journal_ok st \<longleftrightarrow> (\<forall>r \<in> set (in_raw st). re_id r < in_next_raw st)"

definition raw_of :: "stage \<Rightarrow> int option" where
  "raw_of s = (case s of Journaled at raw \<Rightarrow> raw | Parsed at raw msg \<Rightarrow> raw | Result raw n err \<Rightarrow> raw | _ \<Rightarrow> None)"

definition open_row :: "ingest_env \<Rightarrow> int \<Rightarrow> dict \<Rightarrow> int \<Rightarrow> raw_event" where
  "open_row v op p i = \<lparr>re_id = i, re_kind = ''max:'' @ show_int op, re_payload = ie_jsonable v p, re_normalized = False, re_error = None\<rparr>"

lemma result_of_raw [simp]: "raw_of (result_of v raw r) = raw"
  by (simp add: result_of_def raw_of_def split: sum.split)

lemma result_of_shape: "\<exists>n err. result_of v raw r = Result raw n err \<and> (n \<or> (\<exists>t. err = Some (take ERROR_MAX_LEN t)))"
  by (auto simp: result_of_def split: sum.split)

text \<open>The work of a frame between the first and the last transaction leaves the journal alone.\<close>

lemma work_frame_raw:
  assumes "work_frame v e fault at raw op p st = (s', st')"
  shows "in_raw st' = in_raw st \<and> in_next_raw st' = in_next_raw st \<and> raw_of s' = raw \<and>
    ((\<exists>n err. s' = Result raw n err \<and> (n \<or> (\<exists>t. err = Some (take ERROR_MAX_LEN t)))) \<or> (\<exists>a msg. s' = Parsed a raw msg))"
proof -
  note r = result_of_shape [of v raw]
  consider (msg) "op = OP_MESSAGE \<or> op = OP_EDIT" | (del) "op = OP_DELETE" | (chat) "op = OP_CHAT"
    | (other) "op \<noteq> OP_MESSAGE" "op \<noteq> OP_EDIT" "op \<noteq> OP_DELETE" "op \<noteq> OP_CHAT" by blast
  then show ?thesis
  proof cases
    case msg
    then show ?thesis using assms r chat_status_facts [of st v fault p]
      by (auto simp: work_frame_def raw_of_def split: if_splits sum.splits; metis result_of_raw raw_of_def)
  next
    case del
    show ?thesis
    proof (cases "parse_delete (ie_delete v) p")
      case (Inl err)
      then show ?thesis using assms del r by (auto simp: work_frame_def)
    next
      case (Inr q)
      obtain c ids where q: "q = (c, ids)" by (rule prod.exhaust)
      obtain x st1 where d: "on_delete fault c ids at st = (x, st1)" by (rule prod.exhaust)
      then have "s' = result_of v raw x" "st' = st1" using assms del Inr q by (auto simp: work_frame_def)
      then show ?thesis using on_delete_facts [OF d] r by simp
    qed
  next
    case chat
    obtain x st1 where d: "on_chat v e fault p st = (x, st1)" by (rule prod.exhaust)
    then have "s' = result_of v raw x" "st' = st1" using assms chat by (auto simp: work_frame_def)
    then show ?thesis using on_chat_facts [OF d] r by simp
  next
    case other
    then show ?thesis using assms by (auto simp: work_frame_def raw_of_def)
  qed
qed

text \<open>The row when the frame is over.\<close>

definition closed_row :: "raw_event \<Rightarrow> bool \<Rightarrow> string option \<Rightarrow> raw_event" where
  "closed_row r n err = r\<lparr>re_normalized := n,
     re_error := (if n then None else Some (case nonempty err of Some t \<Rightarrow> t | None \<Rightarrow> ''not normalized''))\<rparr>"

lemma closed_error:
  assumes "n \<or> (\<exists>t. err = Some (take ERROR_MAX_LEN t))"
  shows "\<forall>x. re_error (closed_row r n err) = Some x \<longrightarrow> x \<noteq> [] \<and> length x \<le> ERROR_MAX_LEN"
proof (cases n)
  case False
  then obtain t where "err = Some (take ERROR_MAX_LEN t)" using assms by blast
  moreover have "length (take ERROR_MAX_LEN t) \<le> ERROR_MAX_LEN" by simp
  moreover have "length ''not normalized'' \<le> ERROR_MAX_LEN" by (simp add: ERROR_MAX_LEN_def)
  ultimately show ?thesis using False
    by (cases "take ERROR_MAX_LEN t") (simp_all add: closed_row_def nonempty_def or_else_def)
qed (simp add: closed_row_def)

lemma finish_journal_row:
  assumes "\<forall>x \<in> set rows. re_id x < re_id r" and "in_raw st = rows @ [r]"
  shows "in_raw (finish_journal (re_id r) n err st) = rows @ [closed_row r n err]"
proof -
  have "update_rows (\<lambda>x. re_id x = re_id r) f rows = rows" for f
    using assms(1) by (induction rows) (auto simp: update_rows_def)
  then show ?thesis using assms(2)
    by (simp add: finish_journal_def mark_normalized_def update_rows_def closed_row_def split: option.split)
qed

text \<open>The note of a deletion that found nothing is not kept: the row says normalised, no error.\<close>

lemma unknown_deletion_leaves_no_note:
  assumes "chat_pk (in_tables st) c = None" "ids \<noteq> []"
  shows "fst (on_delete None c ids at st) = Inr (Some ''delete_unknown_message'') \<and>
    re_error (closed_row r True (Some ''delete_unknown_message'')) = None"
  using assms by (cases ids) (simp_all add: on_delete_def store_mark_deleted_def closed_row_def)

end
