(* ===== verification/Max_Ingest_Props.thy ===== *)
theory Max_Ingest_Props
  imports Max_Ingest_Facts
begin

text \<open>
  Properties of normalisation and of the processing of frames: the order of the frames of a chat
  and what it is for, the journal row of a frame, the numbering of attachments, the peer of a
  dialog.
\<close>

subsection \<open>A sample run\<close>

text \<open>A frame with message 100 of chat 5, then its deletion, and another chat in between.\<close>

definition some_message :: pymax_message where
  "some_message = \<lparr>pm_id = 100, pm_chat_id = Some 5, pm_sender = None, pm_type = ''USER'', pm_text = Some ''hello'',
     pm_time = 1000, pm_status = None, pm_stats = JNull, pm_attaches = [], pm_link = None, pm_raw = []\<rparr>"

definition some_env :: ingest_env where
  "some_env = \<lparr>ie_version = ''2.4.1'', ie_trunc = (\<lambda>_. 0), ie_str = (\<lambda>_. []),
     ie_message = (\<lambda>_. Inr some_message), ie_delete = (\<lambda>_. Inr (5, [100])), ie_chat = (\<lambda>_. Inl ''no chat''),
     ie_jsonable = (\<lambda>p. p), ie_error_text = (\<lambda>_. ''error'')\<rparr>"

definition some_store :: store_env where
  "some_store = \<lparr>se_srt = (\<lambda>ts. ts), se_mid = (\<lambda>p. p), se_saved = ''Saved'', se_now = 5000\<rparr>"

definition some_ingest :: ingest where
  "some_ingest = \<lparr>in_tables = \<lparr>at_account_id = 1, at_platform = ''max'', at_self = Some 7,
       at_people = \<lparr>pd_people = [], pd_identities = [], pd_users = [], pd_log = [], pd_next_person = 1,
         pd_next_identity = 1, pd_next_user = 1\<rparr>,
       at_chats = [], at_messages = [], at_media = [], at_states = [], at_next_chat = 1, at_next_message = 1\<rparr>,
     in_raw = [], in_next_raw = 1, in_me_id = Some 7, in_identity_ok = True, in_caught_up = [],
     in_fill_asks = (\<lambda>_. 0), in_spawned = [], in_stream = [], in_last_event_at = None\<rparr>"

text \<open>The system with the given queue at the lock of chat 5.\<close>

definition at_lock :: "nat \<Rightarrow> (nat \<times> task \<times> stage) list \<Rightarrow> ingest \<Rightarrow> ingest_system" where
  "at_lock n q st = \<lparr>is_state = st, is_queue = (\<lambda>_. [])(Some 5 := q), is_next = n\<rparr>"

lemma at_lock_sel [simp]: "is_state (at_lock n q st) = st" "is_next (at_lock n q st) = n" "is_queue (at_lock n q st) (Some 5) = q"
  by (simp_all add: at_lock_def)

lemma arrive_at_lock:
  assumes "lock_key some_env t = Some 5" "case t of Frame op p \<Rightarrow> frame_accepted st op SERVER_PUSH | _ \<Rightarrow> True"
  shows "ingest_step some_env (at_lock n q st) (Arrived n t) (at_lock (Suc n) (q @ [(n, t, Begin)]) st)"
proof -
  have "at_lock (Suc n) (q @ [(n, t, Begin)]) st = (at_lock n q st)\<lparr>is_queue :=
      (is_queue (at_lock n q st))(Some 5 := is_queue (at_lock n q st) (Some 5) @ [(is_next (at_lock n q st), t, Begin)]),
      is_next := Suc (is_next (at_lock n q st))\<rparr>"
    by (simp add: at_lock_def fun_eq_iff)
  then show ?thesis using ingest_step.arrive [where t = t and w = "at_lock n q st" and cmd = SERVER_PUSH and v = some_env and k = "Some 5", OF _ assms(1)] assms(2)
    by (simp del: task.case) (cases t; simp)
qed

lemma finish_at_lock:
  assumes "task_step some_env some_store None 5000 t s st = (Over b, st')"
  shows "ingest_step some_env (at_lock n ((i, t, s) # q) st) (Finished i b) (at_lock n q st')"
proof -
  have "at_lock n q st' = (at_lock n ((i, t, s) # q) st)\<lparr>is_state := st',
      is_queue := (is_queue (at_lock n ((i, t, s) # q) st))(Some 5 := q)\<rparr>"
    by (simp add: at_lock_def)
  then show ?thesis using ingest_step.finish [where w = "at_lock n ((i, t, s) # q) st" and k = "Some 5"] assms by simp
qed

text \<open>The message is sent, its deletion waits for the lock, both end.\<close>

abbreviation "sent_task \<equiv> Sent some_message 5 False"
abbreviation "deleted_task \<equiv> Deleted 5 [100]"

definition after_send :: ingest where
  "after_send = snd (task_step some_env some_store None 5000 sent_task Begin some_ingest)"

definition after_delete :: ingest where
  "after_delete = snd (task_step some_env some_store None 5000 deleted_task Begin after_send)"

lemma sends: "fst (task_step some_env some_store None 5000 sent_task Begin some_ingest) = Over True"
  by code_simp

lemma removes: "fst (task_step some_env some_store None 5000 deleted_task Begin after_send) = Over True"
  by (simp add: on_delete_def split: prod.splits)


text \<open>The sample run with its end.\<close>

definition sample_events :: "event list" where
  "sample_events = [Arrived 0 sent_task, Arrived 1 deleted_task, Finished 0 True, Finished 1 True]"

lemma sample_steps:
  "ingest_step some_env (at_lock 0 [] some_ingest) (Arrived 0 sent_task) (at_lock 1 [(0, sent_task, Begin)] some_ingest)"
  "ingest_step some_env (at_lock 1 [(0, sent_task, Begin)] some_ingest) (Arrived 1 deleted_task)
     (at_lock 2 [(0, sent_task, Begin), (1, deleted_task, Begin)] some_ingest)"
  "ingest_step some_env (at_lock 2 [(0, sent_task, Begin), (1, deleted_task, Begin)] some_ingest) (Finished 0 True)
     (at_lock 2 [(1, deleted_task, Begin)] after_send)"
  "ingest_step some_env (at_lock 2 [(1, deleted_task, Begin)] after_send) (Finished 1 True) (at_lock 2 [] after_delete)"
  using arrive_at_lock [where t = sent_task and q = "[]" and n = 0 and st = some_ingest] arrive_at_lock [where t = deleted_task and q = "[(0, sent_task, Begin)]" and n = 1 and st = some_ingest]
    finish_at_lock [where i = 0 and n = 2 and t = sent_task and s = Begin and q = "[(1, deleted_task, Begin)]" and st = some_ingest and st' = after_send and b = True]
    finish_at_lock [where i = 1 and n = 2 and t = deleted_task and s = Begin and q = "[]" and st = after_send and st' = after_delete and b = True]
    sends removes
  by (simp_all add: lock_key_def after_send_def [symmetric] after_delete_def [symmetric] numeral_2_eq_2 prod_eq_iff del: task_step.simps)

lemma sample_run: "run_of (ingest_step some_env) (at_lock 0 [] some_ingest) sample_events (at_lock 2 [] after_delete)"
proof -
  have "run_of (ingest_step some_env) (at_lock 0 [] some_ingest)
      (((([] @ [Arrived 0 sent_task]) @ [Arrived 1 deleted_task]) @ [Finished 0 True]) @ [Finished 1 True]) (at_lock 2 [] after_delete)"
    by (rule run_of.more, rule run_of.more, rule run_of.more, rule run_of.more, rule run_of.start) (rule sample_steps)+
  then show ?thesis by (simp add: sample_events_def)
qed

lemma sample_start: "ingest_start (at_lock 0 [] some_ingest)"
  by (auto simp: ingest_start_def at_lock_def some_ingest_def)


text \<open>
  C29 A deletion is never lost to a race with the message it deletes. When a message frame (or a
  message just sent) and a later deletion of the same chat both succeeded, in any interleaving with
  other tasks and however their transactions are ordered, the message is stored and marked deleted,
  and stays so whatever happens afterwards.
\<close>

theorem deletion_follows_message:
  assumes "run_of (ingest_step v) w es w'" and "ingest_start w"
    and "Arrived i t \<in> set es" "Arrived j u \<in> set es" "i < j" "lock_key v t = lock_key v u"
    and "Finished i True \<in> set es" "Finished j True \<in> set es"
    and "stores v t c m" "deletes v u c m"
  shows "message_deleted (in_tables (is_state w')) c m"
  using run_ok [OF assms(1,2)] assms(3-) unfolding deletes_ok_def worked_def by blast

lemma deletion_follows_message_witness: "message_deleted (in_tables after_delete) 5 100"
proof -
  have k: "lock_key some_env sent_task = lock_key some_env deleted_task" by (simp add: lock_key_def)
  have s: "stores some_env sent_task 5 100" "deletes some_env deleted_task 5 100"
    by (simp_all add: stores_def deletes_def some_message_def)
  have "Arrived 0 sent_task \<in> set sample_events" "Arrived 1 deleted_task \<in> set sample_events"
    "Finished 0 True \<in> set sample_events" "Finished 1 True \<in> set sample_events"
    by (simp_all add: sample_events_def)
  from deletion_follows_message [OF sample_run sample_start this(1,2) _ k this(3,4) s]
  show ?thesis by simp
qed

text \<open>
  C31 Every frame leaves exactly one row in the journal. When the two journal transactions succeed,
  a frame alone at its lock is over after at most four transactions, whichever of the others fail,
  and has added one row with its kind and its converted payload: normalised without an error, or not
  normalised with a text of 1 to 2000 characters; the other rows are as they were.
\<close>

theorem frame_leaves_one_row:
  assumes ok: "journal_ok st" and f: "fault Begin = None" "\<And>raw n err. fault (Result raw n err) = None"
    and r: "task_run 4 v e fault now (Frame op p) Begin st = (s', st')"
  shows "\<exists>b err. s' = Over b \<and>
    in_raw st' = in_raw st @ [\<lparr>re_id = in_next_raw st, re_kind = ''max:'' @ show_int op, re_payload = ie_jsonable v p,
      re_normalized = b, re_error = err\<rparr>] \<and> b = (err = None) \<and> (\<forall>x. err = Some x \<longrightarrow> x \<noteq> [] \<and> length x \<le> ERROR_MAX_LEN)"
proof -
  let ?i = "in_next_raw st" and ?row = "open_row v op p (in_next_raw st)"
  obtain st1 where b: "begin_frame v None now op p st = (Journaled now (Some ?i), st1)"
    and st1: "in_raw st1 = in_raw st @ [?row]"
    by (simp add: begin_frame_def journal_def add_raw_event_def open_row_def Let_def)
  obtain s2 st2 where w: "work_frame v e (fault (Journaled now (Some ?i))) now (Some ?i) op p st1 = (s2, st2)" by (rule prod.exhaust)
  note w' = work_frame_raw [OF w]
  have closing: "\<exists>b err. s' = Over b \<and> in_raw st' = in_raw st @ [?row\<lparr>re_normalized := b, re_error := err\<rparr>] \<and>
      b = (err = None) \<and> (\<forall>x. err = Some x \<longrightarrow> x \<noteq> [] \<and> length x \<le> ERROR_MAX_LEN)"
    if fin: "finish_frame None (Some ?i) n err st3 = (s', st')" and st3: "in_raw st3 = in_raw st @ [?row]"
      and err: "n \<or> (\<exists>t. err = Some (take ERROR_MAX_LEN t))" for n err st3
  proof -
    have less: "\<forall>x \<in> set (in_raw st). re_id x < re_id ?row" using ok by (simp add: journal_ok_def open_row_def)
    have "re_id ?row = ?i" by (simp add: open_row_def)
    then have e: "s' = Over n" "in_raw st' = in_raw st @ [closed_row ?row n err]"
      using fin finish_journal_row [OF less st3, of n err] by (auto simp: finish_frame_def)
    have "\<forall>x. re_error (closed_row ?row n err) = Some x \<longrightarrow> x \<noteq> [] \<and> length x \<le> ERROR_MAX_LEN"
      by (rule closed_error [OF err])
    moreover have "n = (re_error (closed_row ?row n err) = None)" "re_normalized (closed_row ?row n err) = n"
      "closed_row ?row n err = ?row\<lparr>re_normalized := n, re_error := re_error (closed_row ?row n err)\<rparr>"
      by (simp_all add: closed_row_def)
    ultimately show ?thesis using e by metis
  qed
  have "\<exists>b err. s' = Over b \<and> in_raw st' = in_raw st @ [?row\<lparr>re_normalized := b, re_error := err\<rparr>] \<and>
      b = (err = None) \<and> (\<forall>x. err = Some x \<longrightarrow> x \<noteq> [] \<and> length x \<le> ERROR_MAX_LEN)"
  proof (cases "\<exists>a msg. s2 = Parsed a (Some ?i) msg")
    case True
    then obtain a msg where s2: "s2 = Parsed a (Some ?i) msg" by blast
    obtain x st3 where m: "on_message v e (fault s2) msg a (op = OP_EDIT) st2 = (x, st3)" by (rule prod.exhaust)
    obtain n err where n: "result_of v (Some ?i) x = Result (Some ?i) n err" "n \<or> (\<exists>t. err = Some (take ERROR_MAX_LEN t))"
      using result_of_shape by blast
    have "finish_frame None (Some ?i) n err st3 = (s', st')"
      using r f b w s2 m n by (simp add: eval_nat_numeral split: prod.splits)
    then show ?thesis by (rule closing) (use on_message_facts [OF m] w' st1 n in auto)
  next
    case False
    then obtain n err where s2: "s2 = Result (Some ?i) n err" "n \<or> (\<exists>t. err = Some (take ERROR_MAX_LEN t))"
      using w' by blast
    have "finish_frame None (Some ?i) n err st2 = (s', st')"
      using r f b w s2 by (simp add: eval_nat_numeral finish_frame_def)
    then show ?thesis by (rule closing) (use w' st1 s2 in auto)
  qed
  then show ?thesis by (simp add: open_row_def)
qed

lemma frame_leaves_one_row_witness:
  "\<exists>b. fst (task_run 4 some_env some_store (\<lambda>_. None) 5000 (Frame OP_MESSAGE []) Begin some_ingest) = Over b \<and>
     length (in_raw (snd (task_run 4 some_env some_store (\<lambda>_. None) 5000 (Frame OP_MESSAGE []) Begin some_ingest))) = 1"
proof -
  have "journal_ok some_ingest" by (simp add: journal_ok_def some_ingest_def)
  moreover have "in_raw some_ingest = []" by (simp add: some_ingest_def)
  ultimately show ?thesis
    using frame_leaves_one_row [of some_ingest "\<lambda>_. None" some_env some_store 5000 OP_MESSAGE "[]", OF _ _ _ prod.collapse [symmetric]]
    by auto
qed

end
