(* ===== verification/Max_Normalize_Props.thy ===== *)
theory Max_Normalize_Props
  imports Max_Normalize
begin

text \<open>
  Properties of the normaliser: one numbering for the attachments of a message, and one rule for
  the peer of a dialog in Python and in SQL.
\<close>

subsection \<open>Attachments\<close>

text \<open>The media row of one attachment.\<close>

definition media_row_of :: "int \<Rightarrow> attachment \<Rightarrow> media_row option" where
  "media_row_of i a = (case attachment_kind a of
      None \<Rightarrow> None
    | Some k \<Rightarrow> if k \<notin> set MEDIA_TYPES then None
        else Some \<lparr>xr_file_type = k, xr_attach_index = i, xr_file_external_id = map_option show_int (file_id a),
           xr_file_unique_id = None, xr_file_name = ac_name a, xr_file_size = ac_size a, xr_mime_type = None\<rparr>)"

definition own_and_forwarded :: "pymax_message \<Rightarrow> attachment list" where
  "own_and_forwarded msg = pm_attaches msg @ (case forward_link msg of None \<Rightarrow> [] | Some l \<Rightarrow> lm_attaches l)"

lemma numbered_nth [simp]: "length (numbered n f as) = length as"
  "i < length as \<Longrightarrow> numbered n f as ! i = (int (n + i), as ! i, f)"
  by (simp_all add: numbered_def)

lemma all_attaches_nth:
  assumes "i < length (own_and_forwarded msg)"
  shows "all_attaches msg ! i = (int i, own_and_forwarded msg ! i, length (pm_attaches msg) \<le> i)"
  using assms by (cases "forward_link msg")
    (auto simp: all_attaches_def own_and_forwarded_def Let_def nth_append)

lemma all_attaches_length: "length (all_attaches msg) = length (own_and_forwarded msg)"
  by (cases "forward_link msg") (simp_all add: all_attaches_def own_and_forwarded_def Let_def)

lemma media_rows_eq: "media_rows msg = List.map_filter (\<lambda>(i, a, _). media_row_of i a) (all_attaches msg)"
  by (simp add: media_rows_def media_row_of_def)

lemma media_row_index: "media_row_of i a = Some r \<Longrightarrow> xr_attach_index r = i"
  by (auto simp: media_row_of_def split: option.splits if_splits)

lemma find_map_filter_key:
  assumes "\<And>x r. f x = Some r \<Longrightarrow> key r = tag x" and "distinct (map tag xs)" and "x \<in> set xs"
  shows "one_or_none (\<lambda>r. key r = tag x) (List.map_filter f xs) = f x"
  using assms(2,3)
proof (induction xs)
  case (Cons y xs)
  show ?case
  proof (cases "x = y")
    case True
    have "key r \<noteq> tag x" if "r \<in> set (List.map_filter f xs)" for r
    proof -
      obtain z where "z \<in> set xs" "f z = Some r" using \<open>r \<in> _\<close> by (auto simp: List.map_filter_def)
      then have "key r = tag z" "tag z \<in> set (map tag xs)" using assms(1) by simp_all
      moreover have "tag y \<notin> set (map tag xs)" using Cons.prems(1) by simp
      ultimately have "key r = tag z" "tag z \<noteq> tag y" by auto
      then show ?thesis using True by simp
    qed
    then have "one_or_none (\<lambda>r. key r = tag x) (List.map_filter f xs) = None" by (simp add: one_or_none_None)
    then show ?thesis using True assms(1) [of x] by (auto simp: List.map_filter_def one_or_none_def split: option.splits)
  next
    case False
    then have x: "x \<in> set xs" "tag y \<noteq> tag x" using Cons.prems by auto
    then have "one_or_none (\<lambda>r. key r = tag x) (List.map_filter f xs) = f x" using Cons by simp
    then show ?thesis using x(2) assms(1) [of y] by (auto simp: List.map_filter_def one_or_none_def)
  qed
qed simp

lemma map_filter_tags:
  assumes "\<And>x r. f x = Some r \<Longrightarrow> key r = tag x"
  shows "map key (List.map_filter f xs) = map tag (filter (\<lambda>x. f x \<noteq> None) xs)"
  using assms by (induction xs) (auto simp: List.map_filter_def)

text \<open>
  One number per attachment. The attachments of a message, its own and then those of the
  message it forwards, are numbered 0 to n-1; the media row with number \<open>i\<close> is that of attachment
  \<open>i\<close>, there is none for an attachment without a file, and no other.
\<close>

theorem attachments_keep_their_number:
  "length (all_attaches msg) = length (own_and_forwarded msg) \<and>
   (\<forall>i < length (own_and_forwarded msg).
      all_attaches msg ! i = (int i, own_and_forwarded msg ! i, length (pm_attaches msg) \<le> i) \<and>
      one_or_none (\<lambda>r. xr_attach_index r = int i) (media_rows msg) = media_row_of (int i) (own_and_forwarded msg ! i)) \<and>
   distinct (map xr_attach_index (media_rows msg)) \<and>
   (\<forall>r \<in> set (media_rows msg). 0 \<le> xr_attach_index r \<and> xr_attach_index r < int (length (own_and_forwarded msg)))"
proof (intro conjI allI impI ballI)
  let ?n = "length (own_and_forwarded msg)"
  have tags: "map fst (all_attaches msg) = map int [0..<?n]"
    by (rule nth_equalityI) (simp_all add: all_attaches_length all_attaches_nth)
  then have d: "distinct (map fst (all_attaches msg))" by (simp add: distinct_map)
  show "length (all_attaches msg) = ?n" by (rule all_attaches_length)
  fix i assume i: "i < ?n"
  show nth: "all_attaches msg ! i = (int i, own_and_forwarded msg ! i, length (pm_attaches msg) \<le> i)"
    using i by (rule all_attaches_nth)
  have "all_attaches msg ! i \<in> set (all_attaches msg)" using i by (simp add: all_attaches_length)
  then have "one_or_none (\<lambda>r. xr_attach_index r = fst (all_attaches msg ! i)) (media_rows msg) =
      (case all_attaches msg ! i of (i, a, _) \<Rightarrow> media_row_of i a)"
    unfolding media_rows_eq by (intro find_map_filter_key d) (auto dest: media_row_index)
  then show "one_or_none (\<lambda>r. xr_attach_index r = int i) (media_rows msg) = media_row_of (int i) (own_and_forwarded msg ! i)"
    by (simp add: nth)
next
  let ?n = "length (own_and_forwarded msg)"
  have tags: "map fst (all_attaches msg) = map int [0..<?n]"
    by (rule nth_equalityI) (simp_all add: all_attaches_length all_attaches_nth)
  have "map xr_attach_index (media_rows msg) = map fst (filter (\<lambda>x. (case x of (i, a, _) \<Rightarrow> media_row_of i a) \<noteq> None) (all_attaches msg))"
    unfolding media_rows_eq by (rule map_filter_tags) (auto dest: media_row_index)
  moreover have "distinct (map fst (filter P (all_attaches msg)))" for P
  proof (rule distinct_map_filter)
    show "distinct (map fst (all_attaches msg))" unfolding tags by (simp add: distinct_map)
  qed
  ultimately show "distinct (map xr_attach_index (media_rows msg))" by simp
  fix r assume "r \<in> set (media_rows msg)"
  then obtain i a f where "(i, a, f) \<in> set (all_attaches msg)" "media_row_of i a = Some r"
    by (auto simp: media_rows_eq List.map_filter_def)
  then have "xr_attach_index r \<in> set (map fst (all_attaches msg))" by (force dest: media_row_index)
  then have "xr_attach_index r \<in> set (map int [0..<?n])" unfolding tags .
  then show "0 \<le> xr_attach_index r" "xr_attach_index r < int ?n" by auto
qed

definition some_attachment :: "string \<Rightarrow> attachment" where
  "some_attachment k = \<lparr>ac_type = k, ac_photo_id = None, ac_video_id = None, ac_file_id = Some 9, ac_audio_id = None,
     ac_sticker_id = None, ac_name = Some ''a.pdf'', ac_size = Some 10, ac_first_name = None, ac_last_name = None,
     ac_contact_id = None, ac_phone = None\<rparr>"

definition some_forward :: pymax_message where
  "some_forward = \<lparr>pm_id = 1, pm_chat_id = Some 5, pm_sender = Some 2, pm_type = ''USER'', pm_text = None, pm_time = 1000,
     pm_status = None, pm_stats = JNull, pm_attaches = [some_attachment ''INLINE_KEYBOARD''],
     pm_link = Some \<lparr>lk_type = ''FORWARD'', lk_chat_id = Some 6,
       lk_message = Some \<lparr>lm_id = 3, lm_text = None, lm_attaches = [some_attachment ''FILE'']\<rparr>\<rparr>, pm_raw = []\<rparr>"

lemma attachments_keep_their_number_witness:
  "all_attaches some_forward ! 1 = (1, some_attachment ''FILE'', True) \<and>
   map_option xr_file_external_id (one_or_none (\<lambda>r. xr_attach_index r = 1) (media_rows some_forward)) = Some (Some ''9'')"
proof -
  have n: "own_and_forwarded some_forward = [some_attachment ''INLINE_KEYBOARD'', some_attachment ''FILE'']"
    by (simp add: own_and_forwarded_def forward_link_def some_forward_def)
  have l: "length (pm_attaches some_forward) \<le> 1" by (simp add: some_forward_def)
  have r: "map_option xr_file_external_id (media_row_of 1 (some_attachment ''FILE'')) = Some (Some ''9'')" by code_simp
  from attachments_keep_their_number [of some_forward, THEN conjunct2, THEN conjunct1, rule_format, of 1]
  show ?thesis using l r by (simp add: n)
qed

subsection \<open>The peer of a dialog\<close>

lemma py_digits_digit: "is_digit c \<Longrightarrow> py_digits b acc (c # cs) = py_digits True (acc * 10 + (of_char c - 48)) cs"
  by simp

lemma py_digits_after: "digits_value acc s = Some n \<Longrightarrow> py_digits True acc s = Some n"
proof (induction s arbitrary: acc)
  case (Cons c cs)
  then have "is_digit c" "digits_value (acc * 10 + (of_char c - 48)) cs = Some n" by (auto split: if_splits)
  then show ?case using Cons.IH by (simp only: py_digits_digit)
qed simp

lemma py_digits_value:
  assumes "digits_value acc s = Some n" "s \<noteq> []"
  shows "py_digits b acc s = Some n"
proof -
  obtain c cs where s: "s = c # cs" using assms(2) by (cases s) auto
  then have "is_digit c" "digits_value (acc * 10 + (of_char c - 48)) cs = Some n" using assms(1) by (auto split: if_splits)
  then show ?thesis unfolding s by (simp only: py_digits_digit py_digits_after)
qed

lemma digits_value_digits: "digits_value acc s = Some n \<Longrightarrow> list_all is_digit s"
  by (induction s arbitrary: acc) (auto split: if_splits)

lemma digit_not_space: "is_digit c \<Longrightarrow> \<not> is_space c"
  by (auto simp: is_digit_def is_space_def Let_def)

lemma strip_same:
  assumes "s \<noteq> []" "\<not> is_space (hd s)" "\<not> is_space (last s)"
  shows "strip s = s"
proof -
  have 1: "dropWhile is_space s = s" using assms(1,2) by (cases s) auto
  have 2: "dropWhile is_space (rev s) = rev s" using assms(1,3) by (cases s rule: rev_cases) auto
  show ?thesis by (simp add: strip_def 1 2)
qed

lemma bigint_key_py_int:
  assumes "bigint_key k = Some n"
  shows "py_int k = Some n"
proof -
  obtain c cs where k: "k = c # cs" using assms by (cases k) (auto simp: bigint_key_def)
  have minus: "\<not> is_space (CHR ''-'')" "\<not> is_digit (CHR ''-'')" "\<not> is_digit (CHR ''+'')"
    by (simp_all add: is_space_def is_digit_def)
  show ?thesis
  proof (cases "c = CHR ''-''")
    case True
    then obtain m where m: "digits_value 0 cs = Some m" "n = - m" "cs \<noteq> []"
      using assms k by (auto simp: bigint_key_def split: if_splits)
    have "is_digit (last cs)" using digits_value_digits [OF m(1)] m(3) by (simp add: list_all_iff)
    then have "strip k = k" using True k m(3) minus(1) by (intro strip_same) (auto dest: digit_not_space)
    then show ?thesis using True k py_digits_value [OF m(1,3)] m(2) by (simp add: py_int_def)
  next
    case False
    then have v: "digits_value 0 k = Some n" using assms k by (simp add: bigint_key_def)
    have dg: "list_all is_digit k" by (rule digits_value_digits [OF v])
    then have "is_digit c" "is_digit (last k)" using k by (auto simp: list_all_iff)
    then have "strip k = k" "c \<noteq> CHR ''+''" using k minus by (auto intro!: strip_same dest: digit_not_space)
    then show ?thesis using False k py_digits_value [OF v] by (simp add: py_int_def)
  qed
qed

text \<open>The keys of the participants a raw chat lists.\<close>

definition participant_keys :: "json option \<Rightarrow> string list" where
  "participant_keys raw = (case raw of
      Some r \<Rightarrow> (case member ''participants'' r of Some (JObj kvs) \<Rightarrow> map fst kvs | _ \<Rightarrow> [])
    | None \<Rightarrow> [])"

lemma map_filter_cong: "(\<And>x. x \<in> set xs \<Longrightarrow> f x = g x) \<Longrightarrow> List.map_filter f xs = List.map_filter g xs"
  by (induction xs) (auto simp: List.map_filter_def)

text \<open>
  The peer whose name is asked for is the peer whose name becomes the title. For every chat but
  the saved messages, whatever its participants, Python's \<^verbatim>\<open>normalize.dialog_peer\<close> and the SQL of
  \<^verbatim>\<open>fill_dialog_titles\<close> give the same peer, provided no key is a number only Python reads (with
  spaces, underscores or a plus sign).
\<close>

theorem dialog_peer_agrees:
  assumes "ch_external_id c \<noteq> 0"
    and "\<forall>k \<in> set (participant_keys (ch_raw c)). bigint_key k = None \<longrightarrow> py_int k = None"
  shows "normalize_dialog_peer (ch_external_id c) (ch_raw c) me = Some (dialog_peer me c)"
proof -
  have "py_int k = bigint_key k" if "k \<in> set (participant_keys (ch_raw c))" for k
    using bigint_key_py_int [of k] assms(2) that by (cases "bigint_key k") auto
  then have "List.map_filter py_int (participant_keys (ch_raw c)) = List.map_filter bigint_key (participant_keys (ch_raw c))"
    by (rule map_filter_cong)
  then show ?thesis using assms(1)
    by (simp add: normalize_dialog_peer_def dialog_peer_def participant_keys_def [symmetric] Let_def split: list.split)
qed

lemma dialog_peer_agrees_witness:
  "normalize_dialog_peer 12 (Some (JObj [(''participants'', JObj [(''7'', JInt 0), (''x'', JInt 0), (''42'', JInt 1)])])) 7 = Some 42"
proof -
  let ?raw = "Some (JObj [(''participants'', JObj [(''7'', JInt 0), (''x'', JInt 0), (''42'', JInt 1)])])"
  let ?c = "\<lparr>ch_id = 1, ch_external_id = 12, ch_type = ''private'', ch_title = None, ch_username = None,
     ch_description = None, ch_members_count = None, ch_access_hash = None, ch_my_role = None, ch_is_monitored = True,
     ch_last_message_external_id = None, ch_last_message_at = None, ch_raw = ?raw\<rparr> :: chat"
  have k: "participant_keys ?raw = [''7'', ''x'', ''42'']" by code_simp
  have "py_int ''x'' = None" by code_simp
  moreover have "bigint_key ''7'' = Some 7" "bigint_key ''42'' = Some 42" by code_simp+
  moreover have "dialog_peer 7 ?c = 42" by code_simp
  ultimately show ?thesis using dialog_peer_agrees [of ?c 7] k by simp
qed

text \<open>A key only Python reads: the title and the name asked for part.\<close>

lemma peers_may_differ:
  "normalize_dialog_peer 12 (Some (JObj [(''participants'', JObj [(''+42'', JInt 1)])])) 7 = Some 42 \<and>
   bigint_key ''+42'' = None"
  by code_simp

end
