(* ===== verification/Raw_Json.thy ===== *)
theory Raw_Json
  imports Bridge_Prelude
begin

text \<open>
  Objects of the messengers as JSON the database takes: \<^verbatim>\<open>app/utils/raw.py\<close>. A Python value
  is a \<open>pyval\<close>: texts are lists of code points, a date carries its ISO text, an enum its value, a
  pydantic model what \<^verbatim>\<open>model_dump\<close> gives, a TL object what \<^verbatim>\<open>to_dict\<close> gives, any other
  object its \<^verbatim>\<open>str\<close>. A dictionary lists its pairs in insertion order.
\<close>

datatype pyval =
    PNone
  | PBool bool
  | PInt int
  | PFloat string
  | PNonfinite string \<comment> \<open>nan, inf, -inf\<close>
  | PStr codes
  | PList "pyval list"
  | PTuple "pyval list" \<comment> \<open>tuple, set, frozenset in the order of iteration\<close>
  | PDict "(pyval \<times> pyval) list"
  | PBytes "nat list"
  | PDate codes
  | PEnum pyval
  | PModel pyval
  | PTl pyval
  | POther codes

subsection \<open>Texts\<close>

definition surrogate :: "nat \<Rightarrow> bool" where
  "surrogate c \<longleftrightarrow> 0xD800 \<le> c \<and> c \<le> 0xDFFF"

text \<open>
  \<^verbatim>\<open>_text\<close>: NULs removed; a text that cannot be encoded gets a question mark for every
  surrogate.
\<close>

definition plain_text :: "codes \<Rightarrow> codes" where
  "plain_text s =
    (let s1 = (if 0 \<in> set s then filter (\<lambda>c. c \<noteq> 0) s else s)
     in if list_ex surrogate s1 then map (\<lambda>c. if surrogate c then 63 else c) s1 else s1)"

definition codes_of :: "string \<Rightarrow> codes" where
  "codes_of s = map of_char s"

text \<open>\<^verbatim>\<open>str(k)\<close> of a key; \<open>str_of\<close> is that of a value other than a text, a number or None.\<close>

definition key_text :: "(pyval \<Rightarrow> codes) \<Rightarrow> pyval \<Rightarrow> codes" where
  "key_text str_of k = (case k of
      PStr s \<Rightarrow> s
    | PInt i \<Rightarrow> codes_of (show_int i)
    | PBool b \<Rightarrow> codes_of (if b then ''True'' else ''False'')
    | PNone \<Rightarrow> codes_of ''None''
    | _ \<Rightarrow> str_of k)"

subsection \<open>Dictionaries\<close>

text \<open>\<^verbatim>\<open>d[k] = v\<close>: an existing key keeps its place.\<close>

fun py_set :: "'k \<Rightarrow> 'v \<Rightarrow> ('k \<times> 'v) list \<Rightarrow> ('k \<times> 'v) list" where
  "py_set k v [] = [(k, v)]"
| "py_set k v ((k', v') # kvs) = (if k' = k then (k, v) # kvs else (k', v') # py_set k v kvs)"

definition py_dict :: "('k \<times> 'v) list \<Rightarrow> ('k \<times> 'v) list" where
  "py_dict kvs = fold (\<lambda>(k, v). py_set k v) kvs []"

subsection \<open>The converter\<close>

definition bytes_marker :: "nat list \<Rightarrow> pyval" where
  "bytes_marker b = PDict [(PStr (codes_of ''_bytes''), PInt (int (length b)))]"

fun jsonable :: "(pyval \<Rightarrow> codes) \<Rightarrow> pyval \<Rightarrow> pyval" where
  "jsonable str_of PNone = PNone"
| "jsonable str_of (PBool b) = PBool b"
| "jsonable str_of (PInt i) = PInt i"
| "jsonable str_of (PStr s) = PStr (plain_text s)"
| "jsonable str_of (PFloat f) = PFloat f"
| "jsonable str_of (PNonfinite f) = PNone"
| "jsonable str_of (PDict kvs) = PDict (py_dict (map (\<lambda>(k, v). (PStr (plain_text (key_text str_of k)), jsonable str_of v)) kvs))"
| "jsonable str_of (PList vs) = PList (map (jsonable str_of) vs)"
| "jsonable str_of (PTuple vs) = PList (map (jsonable str_of) vs)"
| "jsonable str_of (PBytes b) = bytes_marker b"
| "jsonable str_of (PDate s) = PStr s"
| "jsonable str_of (PEnum v) = jsonable str_of v"
| "jsonable str_of (PModel v) = jsonable str_of v"
| "jsonable str_of (PTl v) = jsonable str_of v"
| "jsonable str_of (POther s) = PStr (plain_text s)"

text \<open>\<^verbatim>\<open>model_raw\<close>; the argument is what the model dumps.\<close>

definition model_raw :: "(pyval \<Rightarrow> codes) \<Rightarrow> pyval \<Rightarrow> pyval" where
  "model_raw str_of dump = jsonable str_of dump"

definition is_bytes_marker :: "pyval \<Rightarrow> bool" where
  "is_bytes_marker v = (case v of
      PDict [(k, n)] \<Rightarrow> k = PStr (codes_of ''_bytes'') \<and> (case n of PInt i \<Rightarrow> True | _ \<Rightarrow> False)
    | _ \<Rightarrow> False)"

fun strip_bytes_markers :: "pyval \<Rightarrow> pyval" where
  "strip_bytes_markers (PDict kvs) =
     (if is_bytes_marker (PDict kvs) then PNone
      else PDict (map (\<lambda>(k, v). (k, strip_bytes_markers v)) kvs))"
| "strip_bytes_markers (PList vs) = PList (map strip_bytes_markers vs)"
| "strip_bytes_markers v = v"

end
