(* ===== verification/Raw_Json_Props.thy ===== *)
theory Raw_Json_Props
  imports Raw_Json
begin

text \<open>
  What the converter promises: its results are values jsonb accepts, a second conversion changes
  nothing, and a stored value read back without its markers is the original with the binary
  content forgotten.
\<close>

subsection \<open>Texts and dictionaries\<close>

definition storable_text :: "codes \<Rightarrow> bool" where
  "storable_text s \<longleftrightarrow> 0 \<notin> set s \<and> \<not> list_ex surrogate s"

lemma plain_text_storable: "storable_text (plain_text s)"
  by (auto simp: storable_text_def plain_text_def Let_def list_ex_iff surrogate_def)

lemma plain_text_id: "storable_text s \<Longrightarrow> plain_text s = s"
  by (simp add: storable_text_def plain_text_def)

lemma py_set_keys: "fst ` set (py_set k v kvs) = insert k (fst ` set kvs)"
  by (induction k v kvs rule: py_set.induct) auto

lemma py_set_subset: "set (py_set k v kvs) \<subseteq> insert (k, v) (set kvs)"
  by (induction k v kvs rule: py_set.induct) auto

lemma py_set_distinct: "distinct (map fst kvs) \<Longrightarrow> distinct (map fst (py_set k v kvs))"
proof (induction k v kvs rule: py_set.induct)
  case (2 k v k' v' kvs)
  have "k' \<notin> fst ` set (py_set k v kvs)" if "k' \<noteq> k"
    using that 2(2) by (auto simp: py_set_keys)
  with 2 show ?case by auto
qed simp

lemma py_set_new: "k \<notin> fst ` set kvs \<Longrightarrow> py_set k v kvs = kvs @ [(k, v)]"
  by (induction k v kvs rule: py_set.induct) auto

lemma py_fold_distinct:
  "distinct (map fst acc) \<Longrightarrow> distinct (map fst (fold (\<lambda>(k, v). py_set k v) kvs acc))"
  by (induction kvs arbitrary: acc) (auto simp: py_set_distinct)

lemma py_fold_subset: "set (fold (\<lambda>(k, v). py_set k v) kvs acc) \<subseteq> set kvs \<union> set acc"
proof (induction kvs arbitrary: acc)
  case (Cons a kvs)
  obtain k v where a: "a = (k, v)" by (rule prod.exhaust)
  show ?case using Cons [of "py_set k v acc"] py_set_subset [of k v acc] a by auto
qed simp

lemma py_fold_new:
  "distinct (map fst (acc @ kvs)) \<Longrightarrow> fold (\<lambda>(k, v). py_set k v) kvs acc = acc @ kvs"
proof (induction kvs arbitrary: acc)
  case (Cons a kvs)
  obtain k v where a: "a = (k, v)" by (rule prod.exhaust)
  have "k \<notin> fst ` set acc" using Cons(2) a by auto
  then show ?case using Cons(1) [of "acc @ [a]"] Cons(2) a by (simp add: py_set_new)
qed simp

lemma py_dict_distinct: "distinct (map fst (py_dict kvs))"
  by (simp add: py_dict_def py_fold_distinct)

lemma py_dict_subset: "set (py_dict kvs) \<subseteq> set kvs"
  using py_fold_subset [of kvs "[]"] by (simp add: py_dict_def)

lemma py_dict_id: "distinct (map fst kvs) \<Longrightarrow> py_dict kvs = kvs"
  using py_fold_new [of "[]" kvs] by (simp add: py_dict_def)

subsection \<open>What jsonb accepts\<close>

definition storable_key :: "pyval \<Rightarrow> bool" where
  "storable_key k = (case k of PStr s \<Rightarrow> storable_text s | _ \<Rightarrow> False)"

fun storable :: "pyval \<Rightarrow> bool" where
  "storable PNone = True"
| "storable (PBool b) = True"
| "storable (PInt i) = True"
| "storable (PFloat f) = True"
| "storable (PStr s) = storable_text s"
| "storable (PList vs) = list_all storable vs"
| "storable (PDict kvs) = (distinct (map fst kvs) \<and> list_all (\<lambda>(k, v). storable_key k \<and> storable v) kvs)"
| "storable v = False"

text \<open>The ISO texts of dates are plain: the assumption on Python's \<^verbatim>\<open>isoformat\<close>.\<close>

fun plain_dates :: "pyval \<Rightarrow> bool" where
  "plain_dates (PDate s) = storable_text s"
| "plain_dates (PList vs) = list_all plain_dates vs"
| "plain_dates (PTuple vs) = list_all plain_dates vs"
| "plain_dates (PDict kvs) = list_all (\<lambda>(k, v). plain_dates v) kvs"
| "plain_dates (PEnum v) = plain_dates v"
| "plain_dates (PModel v) = plain_dates v"
| "plain_dates (PTl v) = plain_dates v"
| "plain_dates v = True"

lemma storable_marker: "storable (bytes_marker b)"
  by (simp add: bytes_marker_def storable_key_def storable_text_def codes_of_def surrogate_def)

lemma storable_dict_put:
  assumes "\<And>k v. (k, v) \<in> set kvs \<Longrightarrow> storable_key k \<and> storable v"
  shows "storable (PDict (py_dict kvs))"
  using assms py_dict_subset [of kvs] by (auto simp: py_dict_distinct list_all_iff)

lemma jsonable_storable: "plain_dates v \<Longrightarrow> storable (jsonable str_of v)"
proof (induction str_of v rule: jsonable.induct)
  case (7 str_of kvs)
  have "storable_key k \<and> storable v"
    if "(k, v) \<in> set (map (\<lambda>(k, v). (PStr (plain_text (key_text str_of k)), jsonable str_of v)) kvs)" for k v
    using that 7 by (auto simp: storable_key_def plain_text_storable list_all_iff)
  then show ?case unfolding jsonable.simps by (rule storable_dict_put)
qed (auto simp: plain_text_storable storable_marker list_all_iff)

lemma jsonable_id: "storable v \<Longrightarrow> jsonable str_of v = v"
proof (induction str_of v rule: jsonable.induct)
  case (7 str_of kvs)
  have "map (\<lambda>(k, v). (PStr (plain_text (key_text str_of k)), jsonable str_of v)) kvs = kvs"
  proof (rule map_idI)
    fix p assume p: "p \<in> set kvs"
    obtain k v where kv: "p = (k, v)" by (rule prod.exhaust)
    have "storable_key k" "storable v" using 7(2) p kv by (auto simp: list_all_iff)
    then have "PStr (plain_text (key_text str_of k)) = k" "jsonable str_of v = v"
      using 7(1) [OF p kv [symmetric]] by (auto simp: storable_key_def key_text_def plain_text_id split: pyval.splits)
    then show "(case p of (k, v) \<Rightarrow> (PStr (plain_text (key_text str_of k)), jsonable str_of v)) = p" using kv by simp
  qed
  then show ?case using 7(2) by (simp add: py_dict_id)
qed (auto simp: plain_text_id list_all_iff map_idI)

subsection \<open>Reading back\<close>

text \<open>A value jsonb accepts except for binary content, without dictionaries that look like a marker.\<close>

fun binary_json :: "pyval \<Rightarrow> bool" where
  "binary_json PNone = True"
| "binary_json (PBool b) = True"
| "binary_json (PInt i) = True"
| "binary_json (PFloat f) = True"
| "binary_json (PStr s) = storable_text s"
| "binary_json (PBytes b) = True"
| "binary_json (PList vs) = list_all binary_json vs"
| "binary_json (PDict kvs) = (\<not> is_bytes_marker (PDict kvs) \<and> distinct (map fst kvs) \<and>
     list_all (\<lambda>(k, v). storable_key k \<and> binary_json v) kvs)"
| "binary_json v = False"

fun forget_bytes :: "pyval \<Rightarrow> pyval" where
  "forget_bytes (PBytes b) = PNone"
| "forget_bytes (PList vs) = PList (map forget_bytes vs)"
| "forget_bytes (PDict kvs) = PDict (map (\<lambda>(k, v). (k, forget_bytes v)) kvs)"
| "forget_bytes v = v"

lemma strip_marker: "strip_bytes_markers (bytes_marker b) = PNone"
  by (simp add: bytes_marker_def is_bytes_marker_def)

lemma jsonable_int: "binary_json v \<Longrightarrow> jsonable str_of v = PInt i \<longleftrightarrow> v = PInt i"
  by (cases v) (auto simp: bytes_marker_def)

lemma marker_only_int:
  "is_bytes_marker (PDict kvs) \<longleftrightarrow> (\<exists>i. kvs = [(PStr (codes_of ''_bytes''), PInt i)])"
proof -
  have "(case n of PInt i \<Rightarrow> True | _ \<Rightarrow> False) \<longleftrightarrow> (\<exists>i. n = PInt i)" for n by (cases n) auto
  then show ?thesis unfolding is_bytes_marker_def by (auto split: list.splits)
qed

lemma strip_jsonable: "binary_json v \<Longrightarrow> strip_bytes_markers (jsonable str_of v) = forget_bytes v"
proof (induction str_of v rule: jsonable.induct)
  case (7 str_of kvs)
  let ?j = "map (\<lambda>(k, v). (k, jsonable str_of v)) kvs"
  have m: "map (\<lambda>(k, v). (PStr (plain_text (key_text str_of k)), jsonable str_of v)) kvs = ?j"
    using 7(2) by (auto simp: list_all_iff storable_key_def key_text_def plain_text_id split: pyval.splits)
  have keys: "map fst ?j = map fst kvs" by (auto simp: split_def)
  have "distinct (map fst ?j)" unfolding keys using 7(2) by simp
  then have "py_dict ?j = ?j" by (rule py_dict_id)
  then have j: "jsonable str_of (PDict kvs) = PDict ?j" unfolding jsonable.simps m by simp
  have "\<not> is_bytes_marker (PDict ?j)"
    using 7(2) by (auto simp: marker_only_int jsonable_int)
  moreover have "map (\<lambda>(k, v). (k, strip_bytes_markers v)) ?j = map (\<lambda>(k, v). (k, forget_bytes v)) kvs"
    using 7 by (auto simp: list_all_iff)
  ultimately show ?case unfolding j by simp
qed (auto simp: strip_marker list_all_iff plain_text_id)

subsection \<open>Properties\<close>

text \<open>C32 The converter gives, for any value of Python, one jsonb accepts: None, Booleans, numbers, texts without NUL and surrogates, lists, and dictionaries with distinct such texts as keys; converting it again, as the journal of stored rows does, changes nothing.\<close>

theorem jsonable_is_json:
  assumes "plain_dates v"
  shows "storable (jsonable str_of v) \<and> jsonable str_of' (jsonable str_of v) = jsonable str_of v"
  using jsonable_storable [OF assms, of str_of] jsonable_id by blast

definition sample_value :: pyval where
  "sample_value = PModel (PDict [(PStr (codes_of ''a''), PTuple [PNonfinite ''nan'', PBytes [1, 2, 3]]),
     (PInt 7, PDate (codes_of ''2026-10-19'')), (PStr [97, 0], PStr [0xD800, 66, 0])])"

lemma jsonable_is_json_witness:
  "storable (jsonable (\<lambda>_. []) sample_value) \<and> jsonable (\<lambda>_. []) sample_value =
     PDict [(PStr (codes_of ''a''), PStr [63, 66]), (PStr (codes_of ''7''), PStr (codes_of ''2026-10-19''))]"
proof -
  have "plain_dates sample_value"
    by (simp add: sample_value_def storable_text_def codes_of_def surrogate_def)
  from jsonable_is_json [OF this] have "storable (jsonable (\<lambda>_. []) sample_value)" by blast
  moreover have "jsonable (\<lambda>_. []) sample_value =
     PDict [(PStr (codes_of ''a''), PStr [63, 66]), (PStr (codes_of ''7''), PStr (codes_of ''2026-10-19''))]"
    by (simp add: sample_value_def codes_of_def key_text_def plain_text_def py_dict_def surrogate_def bytes_marker_def show_int_def show_digits.simps digit_char_def)
  ultimately show ?thesis by blast
qed

text \<open>What the database keeps of a value and \<^verbatim>\<open>strip_bytes_markers\<close> hands to the parser is the value itself with its binary content, and nothing else, forgotten.\<close>

theorem stored_raw_reads_back:
  assumes "binary_json v"
  shows "strip_bytes_markers (jsonable str_of v) = forget_bytes v"
  using assms by (rule strip_jsonable)

lemma stored_raw_reads_back_witness:
  "strip_bytes_markers (jsonable (\<lambda>_. []) (PDict [(PStr [97], PList [PBytes [1], PInt 2])])) = PDict [(PStr [97], PList [PNone, PInt 2])]"
proof -
  have "binary_json (PDict [(PStr [97], PList [PBytes [1], PInt 2])])"
    by (simp add: storable_key_def storable_text_def surrogate_def is_bytes_marker_def codes_of_def)
  from stored_raw_reads_back [OF this, of "\<lambda>_. []"] show ?thesis by simp
qed

end
