(* ===== verification/Tg_Normalize.thy ===== *)
theory Tg_Normalize
  imports Chat_Tables
begin

text \<open>
  Telethon objects to rows: \<^verbatim>\<open>app/telegram/normalize.py\<close> with the helpers of
  \<^verbatim>\<open>app/services/chat_service.py\<close>, \<^verbatim>\<open>message_service.py\<close> and
  \<^verbatim>\<open>app/utils/sender.py\<close>. A TL object is the record of the attributes the code reads, None or
  False where it has none; its raw form is what \<^verbatim>\<open>raw_of\<close> gives.
\<close>

subsection \<open>TL objects\<close>

datatype entity_kind = EUser | EChannel | EChat | EOther

record entity =
  en_kind :: entity_kind
  en_id :: int
  en_min :: bool
  en_username :: "string option"
  en_first_name :: "string option"
  en_last_name :: "string option"
  en_title :: "string option"
  en_about :: "string option"
  en_phone :: "string option"
  en_participants_count :: "int option"
  en_access_hash :: "int option"
  en_creator :: bool
  en_admin_rights :: bool \<comment> \<open>not None\<close>
  en_broadcast :: bool
  en_bot :: bool
  en_contact :: bool
  en_raw :: "json option"

datatype doc_attribute =
    Sticker_attr
  | Video_attr bool \<comment> \<open>a round message\<close>
  | Audio_attr bool \<comment> \<open>a voice message\<close>
  | Animated_attr
  | File_name string
  | Other_attr

record tl_document =
  td_id :: int
  td_access_hash :: int
  td_size :: "int option"
  td_mime_type :: "string option"
  td_attributes :: "doc_attribute list"

datatype tl_media =
    Media_photo "int option" \<comment> \<open>the photo's id\<close>
  | Media_document "tl_document option"
  | Media_web_page
  | Media_geo
  | Media_contact
  | Media_poll
  | Media_other

datatype tl_peer = Peer_channel int | Peer_chat int | Peer_user int

record tl_forward =
  tf_from_id :: "tl_peer option"
  tf_channel_post :: "int option"

text \<open>
  \<open>html\<close> is what \<^verbatim>\<open>html.unparse\<close> makes of the text and its entities, None without entities or
  when it fails; the reply is the id it refers to.
\<close>

record tl_message =
  tm_id :: "int option"
  tm_date :: usec
  tm_sender_id :: "int option"
  tm_sender :: "entity option"
  tm_text :: "string option"
  tm_message :: "string option"
  tm_html :: "string option"
  tm_out :: bool
  tm_edit_date :: "usec option"
  tm_views :: "int option"
  tm_reply_to :: "int option"
  tm_fwd_from :: "tl_forward option"
  tm_media :: "tl_media option"
  tm_raw :: "json option"

subsection \<open>Senders\<close>

definition is_user_entity :: "entity \<Rightarrow> bool" where
  "is_user_entity e \<longleftrightarrow> en_kind e = EUser"

definition classify_sender :: "int option \<Rightarrow> int option \<times> int option" where
  "classify_sender sender_id = (case sender_id of
      None \<Rightarrow> (None, None)
    | Some s \<Rightarrow> if s < 0 then (None, Some s) else (Some s, None))"

definition sender_display_name :: "entity option \<Rightarrow> string" where
  "sender_display_name e = (case e of
      None \<Rightarrow> ''(unknown)''
    | Some u \<Rightarrow>
        if en_kind u = EUser then
          (let parts = map (\<lambda>p. strip (case p of Some s \<Rightarrow> s | None \<Rightarrow> [])) [en_first_name u, en_last_name u];
               name = join_with '' '' (filter (\<lambda>p. p \<noteq> []) parts)
           in if name = [] then ''(no name)'' else name)
        else
          (let t = strip (case en_title u of Some s \<Rightarrow> s | None \<Rightarrow> [])
           in if t = [] then ''(unknown)'' else t))"

subsection \<open>Chats and users\<close>

definition get_chat_id :: "entity \<Rightarrow> int" where
  "get_chat_id e = (case en_kind e of
      EUser \<Rightarrow> en_id e
    | EChannel \<Rightarrow> - 1000000000000 - en_id e
    | EChat \<Rightarrow> - en_id e
    | EOther \<Rightarrow> en_id e)"

definition get_chat_type :: "entity \<Rightarrow> string" where
  "get_chat_type e = (case en_kind e of
      EUser \<Rightarrow> ''private''
    | EChannel \<Rightarrow> if en_broadcast e then ''channel'' else ''supergroup''
    | EChat \<Rightarrow> ''group''
    | EOther \<Rightarrow> ''unknown'')"

definition get_title :: "entity \<Rightarrow> string option" where
  "get_title e = (if en_kind e = EUser then nonempty (Some (full_name (en_first_name e) (en_last_name e)))
     else en_title e)"

definition role_of :: "entity \<Rightarrow> string option" where
  "role_of e =
    (if en_kind e = EUser then None
     else if en_creator e then Some ''creator''
     else if en_admin_rights e then Some ''admin'' else Some ''member'')"

definition access_hash_of :: "entity \<Rightarrow> int option" where
  "access_hash_of e = (if en_min e then None else en_access_hash e)"

definition tg_chat_row :: "entity \<Rightarrow> tl_message option \<Rightarrow> chat_row" where
  "tg_chat_row e last_message = \<lparr>
     cr_external_id = get_chat_id e, cr_chat_type = get_chat_type e, cr_title = get_title e,
     cr_username = en_username e, cr_description = en_about e, cr_members_count = en_participants_count e,
     cr_access_hash = (if en_kind e \<in> {EUser, EChannel} then access_hash_of e else None),
     cr_my_role = (if en_kind e \<in> {EChannel, EChat} \<and> \<not> en_min e then role_of e else None),
     cr_last_message_external_id = (case last_message of None \<Rightarrow> None | Some m \<Rightarrow> tm_id m),
     cr_last_message_at = map_option tm_date last_message,
     cr_raw = en_raw e\<rparr>"

definition tg_user_row :: "entity \<Rightarrow> user_row" where
  "tg_user_row u = \<lparr>
     ur_external_id = en_id u, ur_username = en_username u, ur_first_name = en_first_name u,
     ur_last_name = en_last_name u, ur_phone = en_phone u, ur_is_bot = en_bot u,
     ur_access_hash = access_hash_of u,
     ur_is_contact = (if en_min u then None else Some (en_contact u)), ur_raw = en_raw u\<rparr>"

subsection \<open>Messages\<close>

fun attribute_type :: "doc_attribute \<Rightarrow> string option" where
  "attribute_type Sticker_attr = Some ''sticker''"
| "attribute_type (Video_attr is_round) = Some (if is_round then ''video_note'' else ''video'')"
| "attribute_type (Audio_attr is_voice) = Some (if is_voice then ''voice'' else ''audio'')"
| "attribute_type Animated_attr = Some ''animation''"
| "attribute_type (File_name n) = None"
| "attribute_type Other_attr = None"

definition detect_message_type :: "tl_media option \<Rightarrow> string" where
  "detect_message_type media = (case media of
      None \<Rightarrow> ''text''
    | Some (Media_photo p) \<Rightarrow> ''photo''
    | Some (Media_document doc) \<Rightarrow>
        (case List.map_filter attribute_type (case doc of None \<Rightarrow> [] | Some d \<Rightarrow> td_attributes d) of
           t # _ \<Rightarrow> t
         | [] \<Rightarrow> ''document'')
    | Some Media_web_page \<Rightarrow> ''web_page''
    | Some Media_geo \<Rightarrow> ''location''
    | Some Media_contact \<Rightarrow> ''contact''
    | Some Media_poll \<Rightarrow> ''poll''
    | Some Media_other \<Rightarrow> ''other'')"

definition forward_chat_id :: "tl_message \<Rightarrow> int option" where
  "forward_chat_id m = (case tm_fwd_from m of
      None \<Rightarrow> None
    | Some f \<Rightarrow> map_option (\<lambda>p. case p of
          Peer_channel c \<Rightarrow> - 1000000000000 - c
        | Peer_chat c \<Rightarrow> - c
        | Peer_user u \<Rightarrow> u) (tf_from_id f))"

definition forward_msg_id :: "tl_message \<Rightarrow> int option" where
  "forward_msg_id m = (case tm_fwd_from m of None \<Rightarrow> None | Some f \<Rightarrow> tf_channel_post f)"

text \<open>The first attribute that has a file name.\<close>

definition file_name_of :: "doc_attribute list \<Rightarrow> string option" where
  "file_name_of as = (case List.map_filter (\<lambda>a. case a of File_name n \<Rightarrow> Some n | _ \<Rightarrow> None) as of
      n # _ \<Rightarrow> Some n | [] \<Rightarrow> None)"

definition tg_media_rows :: "tl_media \<Rightarrow> media_row list" where
  "tg_media_rows media = (case media of
      Media_photo (Some i) \<Rightarrow> [\<lparr>xr_file_type = ''photo'', xr_attach_index = 0, xr_file_external_id = Some (show_int i),
        xr_file_unique_id = None, xr_file_name = None, xr_file_size = None, xr_mime_type = None\<rparr>]
    | Media_document (Some d) \<Rightarrow> [\<lparr>xr_file_type = ''document'', xr_attach_index = 0,
        xr_file_external_id = Some (show_int (td_id d)), xr_file_unique_id = Some (show_int (td_access_hash d)),
        xr_file_name = file_name_of (td_attributes d), xr_file_size = td_size d, xr_mime_type = td_mime_type d\<rparr>]
    | _ \<Rightarrow> [])"

definition tg_message_row :: "int \<Rightarrow> tl_message \<Rightarrow> message_row" where
  "tg_message_row i m =
    (let (user_id, chat_id) = classify_sender (tm_sender_id m);
         text = nonempty (or_else (tm_text m) (tm_message m))
     in \<lparr>mr_external_id = i, mr_sent_at = tm_date m, mr_sender_external_id = user_id,
         mr_sender_chat_external_id = chat_id, mr_reply_to_external_id = tm_reply_to m,
         mr_forward_from_chat_external_id = forward_chat_id m, mr_forward_from_message_external_id = forward_msg_id m,
         mr_message_type = detect_message_type (tm_media m), mr_text = text,
         mr_text_html = (if text = None then None else tm_html m),
         mr_is_edited = (tm_edit_date m \<noteq> None), mr_edited_at = tm_edit_date m, mr_deleted_at = None,
         mr_views = tm_views m, mr_raw = tm_raw m, mr_is_outgoing_hint = Some (tm_out m),
         mr_media = (case tm_media m of None \<Rightarrow> [] | Some x \<Rightarrow> tg_media_rows x)\<rparr>)"

end
