(* ===== verification/Tg_Store.thy ===== *)
theory Tg_Store
  imports Tg_Normalize Max_Store
begin

text \<open>
  Telegram writes into the account's tables: \<^verbatim>\<open>app/services/tg_store.py\<close>, for
  \<^verbatim>\<open>STORAGE_MODE=new\<close> without shadow writes, with \<^verbatim>\<open>app/repo/snapshots.py\<close>. The tables, the
  contacts and the clock are those of the MAX store; what Telegram answers is an argument.
\<close>

definition put_user :: "store_env \<Rightarrow> entity \<Rightarrow> string \<Rightarrow> bool option \<Rightarrow> account_tables \<Rightarrow> people_error + int \<times> account_tables" where
  "put_user e user via is_contact db =
    (let row = (case is_contact of None \<Rightarrow> tg_user_row user | Some c \<Rightarrow> (tg_user_row user)\<lparr>ur_is_contact := Some c\<rparr>)
     in case upsert_user (se_srt e) (se_mid e) True (at_self db) (at_people db) (at_account_id db) ''telegram'' row via (se_now e) of
          Inl err \<Rightarrow> Inl err
        | Inr (pk, p) \<Rightarrow> Inr (pk, db\<lparr>at_people := p\<rparr>))"

text \<open>The sender: full from a user entity, else a stub from a positive id.\<close>

definition put_sender :: "store_env \<Rightarrow> int option \<Rightarrow> entity option \<Rightarrow> account_tables \<Rightarrow> people_error + account_tables" where
  "put_sender e sender_id sender db =
    (case (case sender of Some u \<Rightarrow> is_user_entity u | None \<Rightarrow> False) of
       True \<Rightarrow> (case put_user e (the sender) ''message'' None db of Inl err \<Rightarrow> Inl err | Inr (_, db') \<Rightarrow> Inr db')
     | False \<Rightarrow>
        (case sender_id of
           None \<Rightarrow> Inr db
         | Some s \<Rightarrow>
            if 0 < s then
              (case upsert_user (se_srt e) (se_mid e) True (at_self db) (at_people db) (at_account_id db) ''telegram''
                     (stub_user s) ''message'' (se_now e) of
                 Inl err \<Rightarrow> Inl err
               | Inr (_, p) \<Rightarrow> Inr (db\<lparr>at_people := p\<rparr>))
            else Inr db))"

definition put_chat :: "entity \<Rightarrow> tl_message option \<Rightarrow> account_tables \<Rightarrow> int \<times> account_tables" where
  "put_chat entity last_message db = upsert_chat db (tg_chat_row entity last_message)"

definition is_monitored :: "account_tables \<Rightarrow> int \<Rightarrow> bool" where
  "is_monitored db pk = (case one_or_none (\<lambda>c. ch_id c = pk) (at_chats db) of None \<Rightarrow> False | Some c \<Rightarrow> ch_is_monitored c)"

subsection \<open>Live events\<close>

definition sse_payload :: "int \<Rightarrow> tl_message \<Rightarrow> int \<Rightarrow> dict" where
  "sse_payload i message chat_external_id =
    (let row = tg_message_row i message
     in [(''event'', JStr ''message''), (''message_id'', JInt (mr_external_id row)), (''chat_id'', JInt chat_external_id),
       (''from_user_id'', jopt_int (mr_sender_external_id row)),
       (''sender_chat_id'', jopt_int (mr_sender_chat_external_id row)), (''text'', jopt_str (mr_text row)),
       (''message_type'', JStr (mr_message_type row)), (''tg_date'', JStr (isoformat (mr_sent_at row))),
       (''is_outgoing'', JBool (tm_out message)), (''is_edited'', JBool (mr_is_edited row))])"

text \<open>
  \<^verbatim>\<open>store_event\<close> for a message with id \<open>i\<close>; \<open>sender\<close> is what \<^verbatim>\<open>get_sender\<close> answers. The
  first transaction of an unmonitored chat keeps the chat's row only.
\<close>

definition store_event ::
    "store_env \<Rightarrow> int \<Rightarrow> tl_message \<Rightarrow> entity option \<Rightarrow> entity option \<Rightarrow> account_tables
       \<Rightarrow> people_error + dict option \<times> account_tables" where
  "store_event e i message chat sender db =
    (case chat of
       None \<Rightarrow> Inr (None, db)
     | Some c \<Rightarrow>
        (case put_chat c None db of
           (pk, db1) \<Rightarrow>
             if \<not> is_monitored db1 pk then Inr (None, db1)
             else
              (case put_sender e (tm_sender_id message) sender db1 of
                 Inl err \<Rightarrow> Inl err
               | Inr db2 \<Rightarrow> Inr (Some (sse_payload i message (cr_external_id (tg_chat_row c None))),
                   snd (upsert_message db2 pk (tg_message_row i message))))))"

definition store_deleted :: "int option \<Rightarrow> int list \<Rightarrow> usec \<Rightarrow> account_tables \<Rightarrow> nat \<times> account_tables" where
  "store_deleted chat_external_id ids at db =
    (case chat_external_id of
       None \<Rightarrow> mark_deleted db None ids at
     | Some ext \<Rightarrow> (case chat_pk db ext of None \<Rightarrow> (0, db) | Some pk \<Rightarrow> mark_deleted db (Some pk) ids at))"

subsection \<open>History\<close>

text \<open>\<open>entity\<close> is what \<^verbatim>\<open>get_entity\<close> answers, None when it fails.\<close>

definition ensure_chat :: "entity option \<Rightarrow> int \<Rightarrow> account_tables \<Rightarrow> int option \<times> account_tables" where
  "ensure_chat entity ext db =
    (case chat_pk db ext of
       Some pk \<Rightarrow> (Some pk, db)
     | None \<Rightarrow> (case entity of None \<Rightarrow> (None, db) | Some c \<Rightarrow> apfst Some (put_chat c None db)))"

text \<open>
  \<^verbatim>\<open>store_history\<close>: every message in a savepoint of its own; \<open>fails\<close> says whose statements the
  database refuses. The ids stored.
\<close>

definition store_one :: "store_env \<Rightarrow> (int \<Rightarrow> bool) \<Rightarrow> int \<Rightarrow> tl_message \<Rightarrow> account_tables \<Rightarrow> int list \<times> account_tables" where
  "store_one e fails pk m db =
    (case tm_id m of
       None \<Rightarrow> ([], db)
     | Some i \<Rightarrow>
        if fails i then ([], db)
        else (case put_sender e (tm_sender_id m) (tm_sender m) db of
                Inl _ \<Rightarrow> ([], db)
              | Inr db1 \<Rightarrow> ([i], snd (upsert_message db1 pk (tg_message_row i m)))))"

fun tg_store_history :: "store_env \<Rightarrow> (int \<Rightarrow> bool) \<Rightarrow> int \<Rightarrow> tl_message list \<Rightarrow> account_tables \<Rightarrow> int list \<times> account_tables" where
  "tg_store_history e fails pk [] db = ([], db)"
| "tg_store_history e fails pk (m # ms) db =
     (case store_one e fails pk m db of
        (is, db1) \<Rightarrow> (case tg_store_history e fails pk ms db1 of (js, db2) \<Rightarrow> (is @ js, db2)))"

subsection \<open>Dialogs, contacts, snapshots\<close>

definition store_dialog :: "store_env \<Rightarrow> entity \<Rightarrow> tl_message option \<Rightarrow> account_tables \<Rightarrow> people_error + int \<times> account_tables" where
  "store_dialog e entity last_message db =
    (case put_chat entity last_message db of
       (pk, db1) \<Rightarrow>
         if is_user_entity entity then
           (case put_user e entity ''dialog'' None db1 of Inl err \<Rightarrow> Inl err | Inr (_, db2) \<Rightarrow> Inr (pk, db2))
         else Inr (pk, db1))"

text \<open>\<^verbatim>\<open>store_dialogs\<close>: one transaction per dialog; an error ends the walk and keeps what was stored.\<close>

fun store_dialogs :: "store_env \<Rightarrow> (entity \<times> tl_message option) list \<Rightarrow> account_tables \<Rightarrow> (people_error + nat) \<times> account_tables" where
  "store_dialogs e [] db = (Inr 0, db)"
| "store_dialogs e ((c, m) # ds) db =
     (case store_dialog e c m db of
        Inl err \<Rightarrow> (Inl err, db)
      | Inr (_, db1) \<Rightarrow>
         (case store_dialogs e ds db1 of (Inl err, db2) \<Rightarrow> (Inl err, db2) | (Inr n, db2) \<Rightarrow> (Inr (Suc n), db2)))"

definition store_dialog_entity :: "store_env \<Rightarrow> entity \<Rightarrow> account_tables \<Rightarrow> people_error + int \<times> account_tables" where
  "store_dialog_entity e entity db = store_dialog e entity None db"

definition store_resolved :: "store_env \<Rightarrow> entity \<Rightarrow> account_tables \<Rightarrow> people_error + int \<times> account_tables" where
  "store_resolved e user db = put_user e user ''resolve'' None db"

text \<open>\<open>put_users\<close> stores the user entities of a list, the others are skipped.\<close>

fun put_users :: "store_env \<Rightarrow> string \<Rightarrow> bool option \<Rightarrow> entity list \<Rightarrow> account_tables \<Rightarrow> people_error + int list \<times> account_tables" where
  "put_users e via c [] db = Inr ([], db)"
| "put_users e via c (u # us) db =
     (if \<not> is_user_entity u then put_users e via c us db
      else (case put_user e u via c db of
              Inl err \<Rightarrow> Inl err
            | Inr (_, db1) \<Rightarrow>
               (case put_users e via c us db1 of Inl err \<Rightarrow> Inl err | Inr (seen, db2) \<Rightarrow> Inr (en_id u # seen, db2))))"

definition drop_contacts :: "int list \<Rightarrow> account_tables \<Rightarrow> account_tables" where
  "drop_contacts seen db = db\<lparr>at_people := (at_people db)\<lparr>pd_users :=
     update_rows (\<lambda>u. us_account_id u = at_account_id db \<and> us_is_contact u \<and> (seen \<noteq> [] \<longrightarrow> us_external_id u \<notin> set seen))
       (\<lambda>u. u\<lparr>us_is_contact := False\<rparr>) (pd_users (at_people db))\<rparr>\<rparr>"

definition store_contacts :: "store_env \<Rightarrow> entity list \<Rightarrow> bool \<Rightarrow> account_tables \<Rightarrow> people_error + nat \<times> account_tables" where
  "store_contacts e contacts full db =
    (case put_users e ''contact'' (Some True) contacts db of
       Inl err \<Rightarrow> Inl err
     | Inr (seen, db1) \<Rightarrow> Inr (length seen, if full then drop_contacts seen db1 else db1))"

record snapshot_member =
  sm_snapshot_id :: int
  sm_user_id :: "int option"
  sm_external_user_id :: "int option"
  sm_username :: "string option"
  sm_first_name :: "string option"
  sm_last_name :: "string option"
  sm_phone :: "string option"
  sm_role :: "string option"
  sm_raw :: "json option"

record snapshot =
  sn_id :: int
  sn_chat_id :: int
  sn_members_count :: "int option"
  sn_taken_at :: usec
  sn_source :: "string option"
  sn_note :: "string option"

record snapshot_tables =
  st_snapshots :: "snapshot list"
  st_members :: "snapshot_member list"
  st_next :: int

text \<open>\<^verbatim>\<open>create_snapshot\<close>; the member rows come with the id of the snapshot still open.\<close>

definition link_member :: "account_tables \<Rightarrow> int \<Rightarrow> snapshot_member \<Rightarrow> snapshot_member" where
  "link_member db i m = m\<lparr>sm_snapshot_id := i, sm_user_id :=
     (case sm_external_user_id m of None \<Rightarrow> None | Some x \<Rightarrow> map_option us_id (own_user db x))\<rparr>"

definition create_snapshot ::
    "account_tables \<Rightarrow> int \<Rightarrow> snapshot_member list \<Rightarrow> int option \<Rightarrow> string option \<Rightarrow> string option \<Rightarrow> usec
       \<Rightarrow> snapshot_tables \<Rightarrow> int \<times> snapshot_tables" where
  "create_snapshot db chat_id members members_count source note now st =
    (let i = st_next st
     in (i, st\<lparr>st_snapshots := st_snapshots st @ [\<lparr>sn_id = i, sn_chat_id = chat_id, sn_members_count = members_count,
              sn_taken_at = now, sn_source = source, sn_note = note\<rparr>],
            st_members := st_members st @ map (link_member db i) members, st_next := i + 1\<rparr>))"

definition list_snapshots :: "snapshot_tables \<Rightarrow> int \<Rightarrow> snapshot list" where
  "list_snapshots st chat_id =
    rev (sort_key sn_taken_at (sort_key sn_id (filter (\<lambda>s. sn_chat_id s = chat_id) (st_snapshots st))))"

definition get_snapshot :: "snapshot_tables \<Rightarrow> int \<Rightarrow> snapshot option" where
  "get_snapshot st i = one_or_none (\<lambda>s. sn_id s = i) (st_snapshots st)"

definition list_members :: "snapshot_tables \<Rightarrow> int \<Rightarrow> nat \<Rightarrow> nat \<Rightarrow> snapshot_member list \<times> nat" where
  "list_members st i limit offset =
    (let ms = filter (\<lambda>m. sm_snapshot_id m = i) (st_members st) in (take limit (drop offset ms), length ms))"

definition store_snapshot ::
    "store_env \<Rightarrow> entity option \<Rightarrow> int \<Rightarrow> entity list \<Rightarrow> snapshot_member list \<Rightarrow> string option
       \<Rightarrow> account_tables \<times> snapshot_tables \<Rightarrow> people_error + int \<times> account_tables \<times> snapshot_tables" where
  "store_snapshot e entity ext participants members note s =
    (case s of (db, st) \<Rightarrow>
      (let (pk, db1) = (case ensure_chat entity ext db of
             (Some pk, db1) \<Rightarrow> (pk, db1)
           | (None, db1) \<Rightarrow> upsert_chat db1 (stub_chat ext ''unknown''))
       in case put_users e ''member'' None participants db1 of
            Inl err \<Rightarrow> Inl err
          | Inr (_, db2) \<Rightarrow>
             (case create_snapshot db2 pk members (Some (int (length members))) (Some ''api'') note (se_now e) st of
                (i, st') \<Rightarrow> Inr (i, db2, st'))))"

subsection \<open>The entity cache\<close>

type_synonym entity_row = "int \<times> int \<times> string option \<times> string option \<times> string option"

definition without_plus :: "string \<Rightarrow> string" where
  "without_plus s = dropWhile (\<lambda>c. c = CHR ''+'') s"

definition entity_rows :: "account_tables \<Rightarrow> entity_row list" where
  "entity_rows db =
    List.map_filter (\<lambda>u. map_option (\<lambda>h. (us_external_id u, h, nonempty (map_option lower (us_username u)),
         nonempty (map_option without_plus (us_phone u)),
         nonempty (Some (full_name (us_first_name u) (us_last_name u))))) (us_access_hash u))
      (filter (\<lambda>u. us_account_id u = at_account_id db) (pd_users (at_people db))) @
    List.map_filter (\<lambda>c. map_option (\<lambda>h. (ch_external_id c, h, nonempty (map_option lower (ch_username c)), None, ch_title c))
         (ch_access_hash c))
      (filter (\<lambda>c. ch_type c \<in> {''channel'', ''supergroup''}) (at_chats db))"

text \<open>The session's cache is the set of its rows.\<close>

definition preload :: "account_tables \<Rightarrow> entity_row set \<Rightarrow> nat \<times> entity_row set" where
  "preload db cache = (length (entity_rows db), cache \<union> set (entity_rows db))"

end
