(* ===== verification/Tg_Backfill.thy ===== *)
theory Tg_Backfill
  imports Tg_Store
begin

text \<open>
  History of Telegram for \<^verbatim>\<open>STORAGE_MODE=new\<close>: \<^verbatim>\<open>_run_backfill_new\<close> and
  \<^verbatim>\<open>start_backfill\<close> of \<^verbatim>\<open>app/services/backfill_service.py\<close>. What Telegram answers, which
  stores fail and what other tasks do before request \<open>k\<close> is in \<open>tg_env\<close>; the loop runs on fuel,
  one unit per page.
\<close>

record tg_env =
  tg_ask :: "nat \<Rightarrow> bool \<Rightarrow> int option \<Rightarrow> nat \<Rightarrow> tl_message list option"
    \<comment> \<open>request number, forward, \<^verbatim>\<open>min_id\<close> or \<^verbatim>\<open>offset_id\<close>, limit; None: it raised\<close>
  tg_fails :: "nat \<Rightarrow> int \<Rightarrow> bool"
  tg_others :: "nat \<Rightarrow> account_tables \<Rightarrow> account_tables"

definition BATCH :: nat where "BATCH = 100"

text \<open>\<^verbatim>\<open>min([i for i in (old, *ids) if i])\<close> and the same with max; no id left is an error.\<close>

definition least_id :: "int option \<Rightarrow> int list \<Rightarrow> int option" where
  "least_id old ids = (case filter (\<lambda>i. i \<noteq> 0) ((case old of None \<Rightarrow> [] | Some i \<Rightarrow> [i]) @ ids) of
      [] \<Rightarrow> None
    | i # is \<Rightarrow> Some (foldl min i is))"

definition greatest_id :: "int option \<Rightarrow> int list \<Rightarrow> int option" where
  "greatest_id old ids = (case filter (\<lambda>i. i \<noteq> 0) ((case old of None \<Rightarrow> [] | Some i \<Rightarrow> [i]) @ ids) of
      [] \<Rightarrow> None
    | i # is \<Rightarrow> Some (foldl max i is))"

text \<open>The variables of the loop.\<close>

record backfill =
  bf_oldest :: "int option"
  bf_newest :: "int option"
  bf_total :: nat
  bf_fetched :: nat
  bf_offset :: "int option"
  bf_fully_synced :: "bool option"

text \<open>One page that is not empty: stored, the ends of the cursor and the offset moved.\<close>

definition take_page ::
    "tg_env \<Rightarrow> store_env \<Rightarrow> nat \<Rightarrow> int \<Rightarrow> tl_message list \<Rightarrow> backfill \<Rightarrow> account_tables \<Rightarrow> backfill option \<times> account_tables" where
  "take_page v e k pk batch b db =
    (case tg_store_history e (tg_fails v k) pk batch db of
       (ids, db1) \<Rightarrow>
         (let ends = (if ids = [] then Some (bf_oldest b, bf_newest b)
                else (case (least_id (bf_oldest b) ids, greatest_id (bf_newest b) ids) of
                    (Some l, Some g) \<Rightarrow> Some (Some l, Some g)
                  | _ \<Rightarrow> None))
          in (map_option (\<lambda>(l, g). b\<lparr>bf_oldest := l, bf_newest := g, bf_total := bf_total b + length ids,
                bf_fetched := bf_fetched b + length batch, bf_offset := tm_id (last batch)\<rparr>) ends, db1)))"

fun backfill_pages ::
    "nat \<Rightarrow> tg_env \<Rightarrow> store_env \<Rightarrow> bool \<Rightarrow> int \<Rightarrow> nat \<Rightarrow> nat \<Rightarrow> backfill \<Rightarrow> account_tables
       \<Rightarrow> (backfill option \<times> nat \<times> account_tables) option" where
  "backfill_pages 0 v e fwd pk limit k b db = (if bf_fetched b < limit then None else Some (Some b, k, db))"
| "backfill_pages (Suc n) v e fwd pk limit k b db =
     (if \<not> bf_fetched b < limit then Some (Some b, k, db)
      else
       (let db0 = tg_others v k db
        in case tg_ask v k fwd (bf_offset b) (min BATCH (limit - bf_fetched b)) of
             None \<Rightarrow> Some (None, Suc k, db0)
           | Some [] \<Rightarrow> Some (Some (if fwd then b else b\<lparr>bf_fully_synced := Some True\<rparr>), Suc k, db0)
           | Some (m # ms) \<Rightarrow>
              (case take_page v e k pk (m # ms) b db0 of
                 (None, db1) \<Rightarrow> Some (None, Suc k, db1)
               | (Some b', db1) \<Rightarrow> backfill_pages n v e fwd pk limit (Suc k) b' db1)))"

definition first_page :: "bool \<Rightarrow> sync_state option \<Rightarrow> backfill" where
  "first_page fwd st =
    (let oldest = (case st of None \<Rightarrow> None | Some s \<Rightarrow> sy_oldest_external_id s);
         newest = (case st of None \<Rightarrow> None | Some s \<Rightarrow> sy_newest_external_id s)
     in \<lparr>bf_oldest = oldest, bf_newest = newest, bf_total = 0, bf_fetched = 0,
         bf_offset = (if fwd then Some (case newest of None \<Rightarrow> 0 | Some n \<Rightarrow> n)
           else (case oldest of Some i \<Rightarrow> if i = 0 then None else Some i | None \<Rightarrow> None)),
         bf_fully_synced = None\<rparr>)"

definition save_cursor ::
    "bool \<Rightarrow> int \<Rightarrow> sync_state option \<Rightarrow> backfill \<Rightarrow> usec \<Rightarrow> account_tables \<Rightarrow> account_tables" where
  "save_cursor fwd pk st b now db =
    upsert_state db pk (\<lambda>s.
      (let s1 = s\<lparr>sy_newest_external_id := bf_newest b,
             sy_total_synced := (case st of None \<Rightarrow> 0 | Some x \<Rightarrow> sy_total_synced x) + int (bf_total b),
             sy_last_backfill_at := Some now\<rparr>
       in if fwd then s1
          else (case bf_fully_synced b of
                  None \<Rightarrow> s1\<lparr>sy_oldest_external_id := bf_oldest b\<rparr>
                | Some f \<Rightarrow> s1\<lparr>sy_oldest_external_id := bf_oldest b, sy_is_fully_synced := f\<rparr>)))"

text \<open>\<^verbatim>\<open>_run_backfill_new\<close>; an exception is logged and leaves the cursor as it was.\<close>

definition run_backfill_new ::
    "nat \<Rightarrow> tg_env \<Rightarrow> store_env \<Rightarrow> entity option \<Rightarrow> int \<Rightarrow> nat \<Rightarrow> bool \<Rightarrow> account_tables \<Rightarrow> account_tables option" where
  "run_backfill_new fuel v e entity chat_id limit fwd db =
    (case ensure_chat entity chat_id db of
       (None, db1) \<Rightarrow> Some db1
     | (Some pk, db1) \<Rightarrow>
        (let st = get_state db1 pk
         in case backfill_pages fuel v e fwd pk limit 0 (first_page fwd st) db1 of
              None \<Rightarrow> None
            | Some (None, k, db2) \<Rightarrow> Some db2
            | Some (Some b, k, db2) \<Rightarrow> Some (save_cursor fwd pk st b (se_now e) db2)))"

subsection \<open>Starting\<close>

text \<open>
  \<^verbatim>\<open>start_backfill\<close> checks the table of running tasks, waits for Telegram and the identity check,
  and then creates its task; requests interleave at the waits. A key is account and chat.
\<close>

record backfill_tasks =
  bt_table :: "((int \<times> int) \<times> nat) list" \<comment> \<open>\<^verbatim>\<open>_backfill_tasks\<close>: the task of a key\<close>
  bt_waiting :: "(int \<times> int) list" \<comment> \<open>requests past the check\<close>
  bt_running :: "(nat \<times> (int \<times> int)) list" \<comment> \<open>tasks not done\<close>
  bt_next :: nat

definition is_backfill_running :: "backfill_tasks \<Rightarrow> int \<Rightarrow> int option \<Rightarrow> bool" where
  "is_backfill_running s chat_id account \<longleftrightarrow>
     list_ex (\<lambda>((a, c), i). c = chat_id \<and> (case account of None \<Rightarrow> True | Some x \<Rightarrow> a = x) \<and> i \<in> fst ` set (bt_running s))
       (bt_table s)"

inductive backfill_start_step :: "backfill_tasks \<Rightarrow> backfill_tasks \<Rightarrow> bool" where
  refused: "is_backfill_running s c (Some a) \<Longrightarrow> backfill_start_step s s"
| checked: "\<not> is_backfill_running s c (Some a) \<Longrightarrow> backfill_start_step s (s\<lparr>bt_waiting := (a, c) # bt_waiting s\<rparr>)"
| given_up: "(a, c) \<in> set (bt_waiting s) \<Longrightarrow> backfill_start_step s (s\<lparr>bt_waiting := remove1 (a, c) (bt_waiting s)\<rparr>)"
| created: "(a, c) \<in> set (bt_waiting s) \<Longrightarrow>
    backfill_start_step s (s\<lparr>bt_waiting := remove1 (a, c) (bt_waiting s),
      bt_table := ((a, c), bt_next s) # filter (\<lambda>(k, i). k \<noteq> (a, c)) (bt_table s),
      bt_running := (bt_next s, a, c) # bt_running s, bt_next := Suc (bt_next s)\<rparr>)"
| ended: "(i, a, c) \<in> set (bt_running s) \<Longrightarrow>
    backfill_start_step s (s\<lparr>bt_running := removeAll (i, a, c) (bt_running s),
      bt_table := filter (\<lambda>(k, j). \<not> (k = (a, c) \<and> j = i)) (bt_table s)\<rparr>)"

text \<open>Two requests that wait at the same time both get a task for one chat.\<close>

lemma two_backfills_of_one_chat:
  "\<exists>s. backfill_start_step\<^sup>*\<^sup>* \<lparr>bt_table = [], bt_waiting = [], bt_running = [], bt_next = 0\<rparr> s \<and>
     bt_running s = [(1, 7, 5), (0, 7, 5)]"
proof -
  let ?s0 = "\<lparr>bt_table = [], bt_waiting = [], bt_running = [], bt_next = 0\<rparr>"
  let ?s1 = "?s0\<lparr>bt_waiting := [(7, 5)]\<rparr>"
  let ?s2 = "?s0\<lparr>bt_waiting := [(7, 5), (7, 5)]\<rparr>"
  let ?s3 = "\<lparr>bt_table = [((7, 5), 0)], bt_waiting = [(7, 5)], bt_running = [(0, 7, 5)], bt_next = 1\<rparr>"
  let ?s4 = "\<lparr>bt_table = [((7, 5), 1)], bt_waiting = [], bt_running = [(1, 7, 5), (0, 7, 5)], bt_next = 2\<rparr>"
  have "backfill_start_step ?s0 ?s1" using checked [of ?s0 5 7] by (simp add: is_backfill_running_def)
  moreover have "backfill_start_step ?s1 ?s2" using checked [of ?s1 5 7] by (simp add: is_backfill_running_def)
  moreover have "backfill_start_step ?s2 ?s3" using created [of 7 5 ?s2] by simp
  moreover have "backfill_start_step ?s3 ?s4" using created [of 7 5 ?s3] by (simp add: numeral_2_eq_2)
  ultimately have "backfill_start_step\<^sup>*\<^sup>* ?s0 ?s4" by (meson converse_rtranclp_into_rtranclp rtranclp.rtrancl_refl)
  then show ?thesis by (intro exI [of _ ?s4]) simp
qed

end
