(* ===== verification/Tg_Facts.thy ===== *)
theory Tg_Facts
  imports Tg_Backfill Max_Store_Facts
begin

text \<open>
  Facts on the Telegram writes: storing a person of Telegram cannot fail, a page of history adds
  the ids of its messages and changes nothing else of the histories and cursors, and what a walk
  over the pages of a chat keeps.
\<close>

subsection \<open>Storing cannot fail\<close>

lemma row_in_Some: "row_in platform row x is \<Longrightarrow> \<exists>i. x = Some i"
  by (auto simp: row_in_def)

lemma upsert_identity_total:
  assumes "platform \<in> set PLATFORMS"
  shows "\<exists>r. upsert_identity srt mid db platform row now = Inr r"
proof -
  obtain y db1 where y: "update_identity db platform row now = (y, db1)" by (rule prod.exhaust)
  obtain z db2 where z: "(case y of Some i \<Rightarrow> (Some i, db1) | None \<Rightarrow> create_identity (mid db1) platform row now) = (z, db2)"
    by (rule prod.exhaust)
  have "\<exists>i. z = Some i" using z row_in_Some [OF create_identity_in] by (cases y) auto
  then show ?thesis using assms y z by (auto simp: upsert_identity_def split: option.split)
qed

lemma upsert_user_total:
  assumes "platform \<in> set PLATFORMS" "via \<in> set VIA"
  shows "\<exists>pk p. upsert_user srt mid True me db a platform row via now = Inr (pk, p)"
proof -
  obtain r where r: "upsert_identity srt mid db platform row now = Inr r" using upsert_identity_total [OF assms(1)] by blast
  obtain i db1 where "r = (i, db1)" by (rule prod.exhaust)
  then show ?thesis using r assms(2) by (auto simp: upsert_user_def Let_def split: option.split)
qed

lemma put_user_total:
  assumes "via \<in> set VIA"
  shows "\<exists>pk p. put_user e u via c db = Inr (pk, db\<lparr>at_people := p\<rparr>)"
proof -
  have "''telegram'' \<in> set PLATFORMS" by (simp add: PLATFORMS_def)
  note t = upsert_user_total [OF this assms]
  show ?thesis unfolding put_user_def Let_def
    using t [of "se_srt e" "se_mid e" "at_self db" "at_people db" "at_account_id db"
        "case c of None \<Rightarrow> tg_user_row u | Some c \<Rightarrow> (tg_user_row u)\<lparr>ur_is_contact := Some c\<rparr>" "se_now e"]
    by (elim exE) (simp, blast)
qed

lemma put_sender_total: "\<exists>p. put_sender e s u db = Inr (db\<lparr>at_people := p\<rparr>)"
proof -
  have via: "''message'' \<in> set VIA" and tg: "''telegram'' \<in> set PLATFORMS" by (simp_all add: VIA_def PLATFORMS_def)
  have stub: "\<exists>pk p. upsert_user (se_srt e) (se_mid e) True (at_self db) (at_people db) (at_account_id db) ''telegram''
      row ''message'' (se_now e) = Inr (pk, p)" for row
    by (rule upsert_user_total [OF tg via])
  have same: "db = db\<lparr>at_people := at_people db\<rparr>" by simp
  show ?thesis
  proof (cases "case u of Some x \<Rightarrow> is_user_entity x | None \<Rightarrow> False")
    case True
    then show ?thesis using put_user_total [OF via, of e "the u" None db] by (auto simp: put_sender_def)
  next
    case False
    show ?thesis
    proof (cases s)
      case None
      then have "put_sender e s u db = Inr db" using False by (simp add: put_sender_def)
      then show ?thesis using same by metis
    next
      case (Some x)
      show ?thesis
      proof (cases "0 < x")
        case True
        then show ?thesis using False Some stub [of "stub_user x"] by (auto simp: put_sender_def)
      next
        case neg: False
        then have "put_sender e s u db = Inr db" using False Some by (simp add: put_sender_def)
        then show ?thesis using same by metis
      qed
    qed
  qed
qed

text \<open>A stub of a sender whose entity is not at hand forgets that the sender is a bot.\<close>

lemma stub_forgets_bot:
  assumes "0 < s" "u \<in> set (pd_users (at_people db))" "us_account_id u = at_account_id db" "us_external_id u = s"
    and p: "put_sender e (Some s) None db = Inr db'"
  shows "\<exists>u' \<in> set (pd_users (at_people db')). us_account_id u' = at_account_id db \<and> us_external_id u' = s \<and> \<not> us_is_bot u'"
proof -
  obtain pk q where q: "upsert_user (se_srt e) (se_mid e) True (at_self db) (at_people db) (at_account_id db) ''telegram''
      (stub_user s) ''message'' (se_now e) = Inr (pk, q)" "db' = db\<lparr>at_people := q\<rparr>"
    using p assms(1) by (auto simp: put_sender_def split: sum.splits)
  obtain i db1 where i: "upsert_identity (se_srt e) (se_mid e) (at_people db) ''telegram'' (stub_user s) (se_now e) = Inr (i, db1)"
    using q(1) by (auto simp: upsert_user_def split: if_splits sum.splits)
  let ?hit = "\<lambda>u. us_account_id u = at_account_id db \<and> us_external_id u = s"
  have ext: "ur_external_id (stub_user s) = s" "\<not> ur_is_bot (stub_user s)" by (simp_all add: stub_user_def)
  show ?thesis
  proof (cases "one_or_none ?hit (pd_users db1)")
    case None
    then show ?thesis using q i ext by (auto simp: upsert_user_def Let_def split: if_splits)
  next
    case (Some old)
    have old: "old \<in> set (pd_users db1)" "?hit old" using one_or_none_Some [OF Some] by auto
    have v: "''message'' \<in> set VIA" by (simp add: VIA_def)
    have q': "q = snd (projr (upsert_user (se_srt e) (se_mid e) True (at_self db) (at_people db) (at_account_id db) ''telegram''
      (stub_user s) ''message'' (se_now e)))" using q(1) by simp
    have "\<exists>f. pd_users q = update_rows ?hit f (pd_users db1) \<and>
        (\<forall>u. us_account_id (f u) = us_account_id u \<and> us_external_id (f u) = us_external_id u \<and> \<not> us_is_bot (f u))"
      unfolding q' upsert_user_def Let_def using i ext Some v by simp (rule exI, rule conjI, rule refl, simp)
    then obtain f where f: "pd_users q = update_rows ?hit f (pd_users db1)"
        "\<And>u. us_account_id (f u) = us_account_id u \<and> us_external_id (f u) = us_external_id u \<and> \<not> us_is_bot (f u)"
      by blast
    have "f old \<in> set (pd_users q)" unfolding f(1) set_update_rows using old by blast
    then show ?thesis using f(2) [of old] old(2) q(2) by (intro bexI [of _ "f old"]) simp_all
  qed
qed

subsection \<open>A page of history\<close>

text \<open>What a store of a message keeps: chats, cursors, and the messages already stored.\<close>

definition keeps :: "account_tables \<Rightarrow> account_tables \<Rightarrow> bool" where
  "keeps db db' \<longleftrightarrow> (tables_ok db \<longrightarrow> tables_ok db') \<and>
     (\<forall>ext pk. chat_pk db ext = Some pk \<longrightarrow> chat_pk db' ext = Some pk) \<and>
     (\<forall>pk. ids_at db pk \<subseteq> ids_at db' pk) \<and> (\<forall>pk. get_state db' pk = get_state db pk) \<and>
     ch_id ` set (at_chats db) \<subseteq> ch_id ` set (at_chats db')"

lemma keeps_refl [simp]: "keeps db db"
  by (simp add: keeps_def)

lemma keeps_trans: "keeps a b \<Longrightarrow> keeps b c \<Longrightarrow> keeps a c"
  unfolding keeps_def by (intro conjI allI impI) (metis subset_trans)+

lemma same_history_keeps: "same_history db db' \<Longrightarrow> keeps db db'"
  using same_history_keys(1) [of db db', THEN arg_cong, of set]
  by (auto simp: keeps_def same_history_ok same_history_pk same_history_ids same_history_state)

lemma store_one_facts:
  assumes ok: "tables_ok db" and pk: "pk \<in> ch_id ` set (at_chats db)" and s: "store_one e fails pk m db = (got, db')"
    and i: "tm_id m = Some i" "\<not> fails i"
  shows "got = [i] \<and> keeps db db' \<and> tables_ok db' \<and> pk \<in> ch_id ` set (at_chats db') \<and> i \<in> ids_at db' pk"
proof -
  obtain p where p: "put_sender e (tm_sender_id m) (tm_sender m) db = Inr (db\<lparr>at_people := p\<rparr>)" using put_sender_total by blast
  let ?db1 = "db\<lparr>at_people := p\<rparr>"
  have h: "same_history db ?db1" by (rule people_history)
  have got: "got = [i]" "db' = snd (upsert_message ?db1 pk (tg_message_row i m))" using s i p by (auto simp: store_one_def)
  have ok1: "tables_ok ?db1" by (rule same_history_ok [OF h ok])
  have pk1: "pk \<in> ch_id ` set (at_chats ?db1)" using pk by simp
  note f = upsert_message_facts [OF ok1 pk1 got(2)]
  have ext: "mr_external_id (tg_message_row i m) = i" by (simp add: tg_message_row_def Let_def split: prod.split)
  have chats: "ch_id ` set (at_chats db') = ch_id ` set (at_chats ?db1)" unfolding got(2) by (rule upsert_message_chats)
  have "keeps ?db1 db'" unfolding keeps_def using f chats by auto
  then have "keeps db db'" by (rule keeps_trans [OF same_history_keeps [OF h]])
  then show ?thesis using got(1) f(1) f(4) [of pk] chats pk1 ext by simp
qed

lemma history_facts:
  assumes "tables_ok db" "pk \<in> ch_id ` set (at_chats db)" "tg_store_history e fails pk ms db = (ids, db')"
    and "map tm_id ms = map Some js" "\<forall>i. \<not> fails i"
  shows "ids = js \<and> keeps db db' \<and> tables_ok db' \<and> pk \<in> ch_id ` set (at_chats db') \<and> set js \<subseteq> ids_at db' pk"
  using assms
proof (induction ms arbitrary: db ids js)
  case (Cons m ms)
  obtain i ks where js: "js = i # ks" "tm_id m = Some i" "map tm_id ms = map Some ks" using Cons.prems(4) by (cases js) auto
  obtain x db1 where x: "store_one e fails pk m db = (x, db1)" by (rule prod.exhaust)
  obtain y where y: "tg_store_history e fails pk ms db1 = (y, db')" "ids = x @ y"
    using Cons.prems(3) x by (auto split: prod.splits)
  note o = store_one_facts [OF Cons.prems(1,2) x js(2)]
  have o': "x = [i]" "keeps db db1" "tables_ok db1" "pk \<in> ch_id ` set (at_chats db1)" "i \<in> ids_at db1 pk"
    using o Cons.prems(5) by blast+
  note r = Cons.IH [OF o'(3,4) y(1) js(3) Cons.prems(5)]
  have "i \<in> ids_at db' pk" using r o'(5) by (auto simp: keeps_def)
  then show ?case using r o' y js keeps_trans by auto
qed auto

subsection \<open>Pages of ids\<close>

lemma least_id_Some: "least_id old ids = Some l \<Longrightarrow> l \<noteq> 0 \<and> (old = Some l \<or> l \<in> set ids)"
proof -
  have m: "foldl min a xs \<in> insert a (set xs)" for a :: int and xs
    by (induction xs arbitrary: a) (auto simp: min_def split: if_splits)
  assume "least_id old ids = Some l"
  then obtain i ks where f: "filter (\<lambda>i. i \<noteq> 0) ((case old of None \<Rightarrow> [] | Some i \<Rightarrow> [i]) @ ids) = i # ks" "l = foldl min i ks"
    by (auto simp: least_id_def split: list.splits)
  have "l \<in> set (filter (\<lambda>i. i \<noteq> 0) ((case old of None \<Rightarrow> [] | Some i \<Rightarrow> [i]) @ ids))" using m [of i ks] f by simp
  then show ?thesis by (auto split: option.splits)
qed

lemma greatest_id_Some: "greatest_id old ids = Some g \<Longrightarrow> g \<noteq> 0 \<and> (old = Some g \<or> g \<in> set ids)"
proof -
  have m: "foldl max a xs \<in> insert a (set xs)" for a :: int and xs
    by (induction xs arbitrary: a) (auto simp: max_def split: if_splits)
  assume "greatest_id old ids = Some g"
  then obtain i ks where f: "filter (\<lambda>i. i \<noteq> 0) ((case old of None \<Rightarrow> [] | Some i \<Rightarrow> [i]) @ ids) = i # ks" "g = foldl max i ks"
    by (auto simp: greatest_id_def split: list.splits)
  have "g \<in> set (filter (\<lambda>i. i \<noteq> 0) ((case old of None \<Rightarrow> [] | Some i \<Rightarrow> [i]) @ ids))" using m [of i ks] f by simp
  then show ?thesis by (auto split: option.splits)
qed

lemma ends_found: "i \<in> set ids \<Longrightarrow> i \<noteq> 0 \<Longrightarrow> \<exists>l g. least_id o1 ids = Some l \<and> greatest_id o2 ids = Some g"
  by (auto simp: least_id_def greatest_id_def filter_empty_conv split: list.split)

text \<open>The first ids of a strictly ordered list: whatever comes before the last of them is among them.\<close>

lemma page_prefix_of:
  assumes "sorted_wrt R xs" "take L xs \<noteq> []" "i \<in> set xs"
  shows "i \<in> set (take L xs) \<or> R (last (take L xs)) i"
proof -
  have "sorted_wrt R (take L xs @ drop L xs)" using assms(1) by simp
  then have "\<forall>x \<in> set (take L xs). \<forall>y \<in> set (drop L xs). R x y" unfolding sorted_wrt_append by blast
  moreover have "i \<in> set (take L xs) \<or> i \<in> set (drop L xs)" using assms(3) by (metis Un_iff append_take_drop_id set_append)
  ultimately show ?thesis using assms(2) last_in_set by blast
qed

end
