(* ===== verification/Tg_Props.thy ===== *)
theory Tg_Props
  imports Tg_Facts
begin

text \<open>
  What a backfill of Telegram reaches: the ids between the ends of a chat's cursor are all stored,
  whatever the walk's limit, the pages and the other tasks of the account.
\<close>

subsection \<open>What Telegram answers\<close>

text \<open>
  The ids of a chat, ever, in order; request \<open>k\<close> sees those up to \<open>seen k\<close>. A page starts after
  \<^verbatim>\<open>min_id\<close> and ascends, or starts before \<^verbatim>\<open>offset_id\<close> and descends.
\<close>

definition page_ids :: "int list \<Rightarrow> int \<Rightarrow> bool \<Rightarrow> int option \<Rightarrow> nat \<Rightarrow> int list" where
  "page_ids H t fwd from n = take n
     (if fwd then filter (\<lambda>i. (case from of None \<Rightarrow> True | Some m \<Rightarrow> m < i) \<and> i \<le> t) H
      else rev (filter (\<lambda>i. (case from of None \<Rightarrow> True | Some m \<Rightarrow> i < m) \<and> i \<le> t) H))"

definition honest_telegram :: "tg_env \<Rightarrow> int list \<Rightarrow> (nat \<Rightarrow> int) \<Rightarrow> bool" where
  "honest_telegram v H seen \<longleftrightarrow> sorted_wrt (<) H \<and> (\<forall>i \<in> set H. 0 < i) \<and> mono seen \<and>
     (\<forall>k fwd from n ms. tg_ask v k fwd from n = Some ms \<longrightarrow> map tm_id ms = map Some (page_ids H (seen k) fwd from n)) \<and>
     (\<forall>k i. \<not> tg_fails v k i) \<and> (\<forall>k db. keeps db (tg_others v k db))"

lemma page_in: "i \<in> set (page_ids H t fwd from n) \<Longrightarrow> i \<in> set H \<and> i \<le> t \<and>
    (\<forall>m. from = Some m \<longrightarrow> (if fwd then m < i else i < m))"
  unfolding page_ids_def by (auto dest!: in_set_takeD split: if_splits option.splits)

lemma page_reaches:
  assumes "sorted_wrt (<) H" "page_ids H t fwd from n \<noteq> []" "i \<in> set H" "i \<le> t"
    "\<forall>m. from = Some m \<longrightarrow> (if fwd then m < i else i < m)"
    "if fwd then i \<le> last (page_ids H t fwd from n) else last (page_ids H t fwd from n) \<le> i"
  shows "i \<in> set (page_ids H t fwd from n)"
proof (cases fwd)
  case True
  let ?xs = "filter (\<lambda>i. (case from of None \<Rightarrow> True | Some m \<Rightarrow> m < i) \<and> i \<le> t) H"
  have p: "page_ids H t fwd from n = take n ?xs" using True by (simp add: page_ids_def)
  have "sorted_wrt (<) ?xs" using assms(1) by (rule sorted_wrt_filter)
  moreover have "i \<in> set ?xs" using assms(3-5) True by (auto split: option.split)
  ultimately show ?thesis using page_prefix_of [of "(<)" ?xs n i] assms(2,6) True unfolding p by auto
next
  case False
  let ?xs = "filter (\<lambda>i. (case from of None \<Rightarrow> True | Some m \<Rightarrow> i < m) \<and> i \<le> t) H"
  have p: "page_ids H t fwd from n = take n (rev ?xs)" using False by (simp add: page_ids_def)
  have "sorted_wrt (>) (rev ?xs)" using sorted_wrt_filter [OF assms(1)] by (simp add: sorted_wrt_rev)
  moreover have "i \<in> set (rev ?xs)" using assms(3-5) False by (auto split: option.split)
  ultimately show ?thesis using page_prefix_of [of "(>)" "rev ?xs" n i] assms(2,6) False unfolding p by auto
qed

lemma last_is_end: "sorted_wrt R xs \<Longrightarrow> x \<in> set xs \<Longrightarrow> x = last xs \<or> R x (last xs)"
  by (induction xs) auto

lemma page_empty: "page_ids H t fwd from n = [] \<Longrightarrow> 0 < n \<Longrightarrow> i \<in> set H \<Longrightarrow> i \<le> t \<Longrightarrow>
    (\<forall>m. from = Some m \<longrightarrow> (if fwd then m < i else i < m)) \<Longrightarrow> False"
  unfolding page_ids_def by (auto simp: filter_empty_conv split: if_splits option.splits)

subsection \<open>One page, and the walk\<close>

lemma take_page_facts:
  assumes "tables_ok db" "pk \<in> ch_id ` set (at_chats db)" "map tm_id ms = map Some js" "ms \<noteq> []"
    "\<forall>i \<in> set js. 0 < i" "\<forall>i. \<not> tg_fails v k i"
  shows "\<exists>b' db'. take_page v e k pk ms b db = (Some b', db') \<and> tables_ok db' \<and> keeps db db' \<and>
    pk \<in> ch_id ` set (at_chats db') \<and> set js \<subseteq> ids_at db' pk \<and> bf_offset b' = Some (last js) \<and>
    bf_fully_synced b' = bf_fully_synced b \<and>
    (\<exists>l. bf_oldest b' = Some l \<and> (bf_oldest b = Some l \<or> l \<in> set js)) \<and>
    (\<exists>g. bf_newest b' = Some g \<and> (bf_newest b = Some g \<or> g \<in> set js))"
proof -
  obtain ids db' where s: "tg_store_history e (tg_fails v k) pk ms db = (ids, db')" by (rule prod.exhaust)
  note h = history_facts [OF assms(1,2) s assms(3,6)]
  have js: "js \<noteq> []" using assms(3,4) by auto
  then have "last js \<in> set js" by simp
  moreover from this have "last js \<noteq> 0" using assms(5) by force
  ultimately obtain l g where ends: "least_id (bf_oldest b) js = Some l" "greatest_id (bf_newest b) js = Some g"
    using ends_found by blast
  have "map tm_id ms \<noteq> []" using assms(4) by simp
  then have "tm_id (last ms) = Some (last js)" using assms(3,4) js by (metis last_map)
  moreover have "\<exists>b'. take_page v e k pk ms b db = (Some b', db') \<and> b' = b\<lparr>bf_oldest := Some l, bf_newest := Some g,
      bf_total := bf_total b + length ids, bf_fetched := bf_fetched b + length ms, bf_offset := tm_id (last ms)\<rparr>"
    using h s ends js by (simp add: take_page_def)
  ultimately show ?thesis using h least_id_Some [OF ends(1)] greatest_id_Some [OF ends(2)] by auto
qed

text \<open>An invariant that every page keeps holds when the walk ends, however it ends.\<close>

lemma walk_invariant:
  assumes "backfill_pages n v e fwd pk limit k b db = Some (r, k', db')" and "J k b db"
    and others: "\<And>k b db. J k b db \<Longrightarrow> J k b (tg_others v k db)"
    and page: "\<And>k b db l ms. J k b db \<Longrightarrow> tg_ask v k fwd (bf_offset b) l = Some ms \<Longrightarrow> ms \<noteq> [] \<Longrightarrow>
        \<exists>b' db'. take_page v e k pk ms b db = (Some b', db') \<and> J (Suc k) b' db'"
  shows "\<exists>k0 b0. J k0 b0 db' \<and> (r = None \<or> r = Some b0 \<or>
     (\<exists>l > 0. tg_ask v k0 fwd (bf_offset b0) l = Some [] \<and> r = Some (if fwd then b0 else b0\<lparr>bf_fully_synced := Some True\<rparr>)))"
  using assms(1,2)
proof (induction n arbitrary: k b db)
  case 0
  then show ?case by (auto split: if_splits)
next
  case (Suc n)
  show ?case
  proof (cases "bf_fetched b < limit")
    case False
    then show ?thesis using Suc.prems by auto
  next
    case True
    let ?db = "tg_others v k db" and ?l = "min BATCH (limit - bf_fetched b)"
    have i: "J k b ?db" by (rule others [OF Suc.prems(2)])
    have l: "0 < ?l" using True by (simp add: BATCH_def)
    show ?thesis
    proof (cases "tg_ask v k fwd (bf_offset b) ?l")
      case None
      then show ?thesis using Suc.prems(1) True i by (auto simp: Let_def)
    next
      case (Some ms)
      show ?thesis
      proof (cases ms)
        case Nil
        then have "r = Some (if fwd then b else b\<lparr>bf_fully_synced := Some True\<rparr>)" "db' = ?db"
          using Suc.prems(1) True Some by (auto simp: Let_def)
        then show ?thesis using i l Some Nil by blast
      next
        case (Cons m rest)
        obtain b1 db1 where t: "take_page v e k pk ms b ?db = (Some b1, db1)" "J (Suc k) b1 db1"
          using page [OF i Some] Cons by auto
        have "backfill_pages n v e fwd pk limit (Suc k) b1 db1 = Some (r, k', db')"
          using Suc.prems(1) True Some t(1) Cons by (simp add: Let_def)
        then show ?thesis using Suc.IH t(2) by blast
      qed
    qed
  qed
qed

subsection \<open>The ends of a cursor\<close>

text \<open>
  The tables are consistent, the ends of the chat's cursor are ids Telegram has given, and every
  id between them is stored; without an oldest end everything up to the newest is.
\<close>

definition history_ok :: "int list \<Rightarrow> int \<Rightarrow> account_tables \<Rightarrow> int \<Rightarrow> bool" where
  "history_ok H t db chat_id \<longleftrightarrow> tables_ok db \<and> (\<forall>pk s. chat_pk db chat_id = Some pk \<longrightarrow> get_state db pk = Some s \<longrightarrow>
     (\<forall>l. sy_oldest_external_id s = Some l \<longrightarrow> 0 < l \<and> l \<le> t) \<and>
     (\<forall>n. sy_newest_external_id s = Some n \<longrightarrow> 0 < n \<and> n \<le> t \<and>
        (\<forall>i \<in> set H. i \<le> n \<and> (\<forall>l. sy_oldest_external_id s = Some l \<longrightarrow> l \<le> i) \<longrightarrow> i \<in> ids_at db pk)))"

text \<open>What the walk keeps in either direction, the ids below \<open>m\<close> or in \<open>S\<close> being the ones to store.\<close>

definition walking :: "(nat \<Rightarrow> int) \<Rightarrow> account_tables \<Rightarrow> int \<Rightarrow> int option \<Rightarrow> int set \<Rightarrow> nat \<Rightarrow> backfill \<Rightarrow> account_tables \<Rightarrow> bool" where
  "walking seen db0 pk newest S k b db \<longleftrightarrow> tables_ok db \<and> keeps db0 db \<and> pk \<in> ch_id ` set (at_chats db) \<and>
     bf_fully_synced b = None \<and>
     (\<forall>n. bf_newest b = Some n \<longrightarrow> 0 < n \<and> n \<le> seen k \<and> (newest = Some n \<or> n \<in> S))"

definition walking_up :: "int list \<Rightarrow> (nat \<Rightarrow> int) \<Rightarrow> account_tables \<Rightarrow> int \<Rightarrow> int option \<Rightarrow> nat \<Rightarrow> backfill \<Rightarrow> account_tables \<Rightarrow> bool" where
  "walking_up H seen db0 pk newest k b db \<longleftrightarrow> walking seen db0 pk newest (set H) k b db \<and>
     (\<exists>m. bf_offset b = Some m \<and> (\<forall>n. bf_newest b = Some n \<longrightarrow> n \<le> m) \<and> (\<forall>n. newest = Some n \<longrightarrow> n \<le> m) \<and>
        (\<forall>i \<in> set H. i \<le> m \<and> (\<forall>n. newest = Some n \<longrightarrow> n < i) \<longrightarrow> i \<in> ids_at db pk))"

definition older_ids :: "int list \<Rightarrow> int \<Rightarrow> int option \<Rightarrow> int set" where
  "older_ids H t oldest = {i \<in> set H. i \<le> t \<and> (\<forall>l. oldest = Some l \<longrightarrow> i < l)}"

definition walking_down ::
    "int list \<Rightarrow> (nat \<Rightarrow> int) \<Rightarrow> account_tables \<Rightarrow> int \<Rightarrow> int option \<Rightarrow> int option \<Rightarrow> nat \<Rightarrow> backfill \<Rightarrow> account_tables \<Rightarrow> bool" where
  "walking_down H seen db0 pk oldest newest k b db \<longleftrightarrow> walking seen db0 pk newest (older_ids H (seen 0) oldest) k b db \<and>
     (\<forall>l. bf_oldest b = Some l \<longrightarrow> 0 < l \<and> l \<le> seen k) \<and>
     (case bf_offset b of
        None \<Rightarrow> k = 0 \<and> oldest = None \<and> bf_oldest b = None \<and> bf_newest b = newest
      | Some m \<Rightarrow> m \<le> seen 0 \<and> (\<forall>l. oldest = Some l \<longrightarrow> m \<le> l) \<and> (\<exists>l. bf_oldest b = Some l \<and> m \<le> l) \<and>
          (\<forall>i \<in> older_ids H (seen 0) oldest. m \<le> i \<longrightarrow> i \<in> ids_at db pk))"

lemma honest_page: "honest_telegram v H seen \<Longrightarrow> tg_ask v k fwd from n = Some ms \<Longrightarrow>
    map tm_id ms = map Some (page_ids H (seen k) fwd from n)"
  by (simp add: honest_telegram_def)

lemma walking_page:
  assumes h: "honest_telegram v H seen" and w: "walking seen db0 pk newest S k b db"
    and ms: "tg_ask v k fwd (bf_offset b) l = Some ms" "ms \<noteq> []"
    and S: "set (page_ids H (seen k) fwd (bf_offset b) l) \<subseteq> S"
  obtains b' db' where "take_page v e k pk ms b db = (Some b', db')" "walking seen db0 pk newest S (Suc k) b' db'"
    "set (page_ids H (seen k) fwd (bf_offset b) l) \<subseteq> ids_at db' pk" "ids_at db pk \<subseteq> ids_at db' pk"
    "page_ids H (seen k) fwd (bf_offset b) l \<noteq> []"
    "bf_offset b' = Some (last (page_ids H (seen k) fwd (bf_offset b) l))"
    "\<exists>x. bf_oldest b' = Some x \<and> (bf_oldest b = Some x \<or> x \<in> set (page_ids H (seen k) fwd (bf_offset b) l))"
    "\<exists>x. bf_newest b' = Some x \<and> (bf_newest b = Some x \<or> x \<in> set (page_ids H (seen k) fwd (bf_offset b) l))"
proof -
  let ?js = "page_ids H (seen k) fwd (bf_offset b) l"
  have js: "map tm_id ms = map Some ?js" by (rule honest_page [OF h ms(1)])
  have pos: "\<forall>i \<in> set ?js. 0 < i" using page_in h unfolding honest_telegram_def by blast
  have up: "seen k \<le> seen (Suc k)" using h by (auto simp: honest_telegram_def mono_def)
  have no: "\<forall>i. \<not> tg_fails v k i" using h by (simp add: honest_telegram_def)
  have wd: "tables_ok db" "keeps db0 db" "pk \<in> ch_id ` set (at_chats db)" "bf_fully_synced b = None"
    "\<And>n. bf_newest b = Some n \<Longrightarrow> 0 < n \<and> n \<le> seen k \<and> (newest = Some n \<or> n \<in> S)"
    using w unfolding walking_def by blast+
  obtain b' db' where t: "take_page v e k pk ms b db = (Some b', db')" "tables_ok db'" "keeps db db'"
    "pk \<in> ch_id ` set (at_chats db')" "set ?js \<subseteq> ids_at db' pk" "bf_offset b' = Some (last ?js)"
    "bf_fully_synced b' = bf_fully_synced b"
    "\<exists>l. bf_oldest b' = Some l \<and> (bf_oldest b = Some l \<or> l \<in> set ?js)"
    "\<exists>g. bf_newest b' = Some g \<and> (bf_newest b = Some g \<or> g \<in> set ?js)"
    using take_page_facts [OF wd(1,3) js ms(2) pos no] by blast
  have "0 < n \<and> n \<le> seen (Suc k) \<and> (newest = Some n \<or> n \<in> S)" if n: "bf_newest b' = Some n" for n
  proof (cases "n \<in> set ?js")
    case True
    then show ?thesis using page_in [of n] pos S up by force
  next
    case False
    then have "bf_newest b = Some n" using t(9) n by auto
    then show ?thesis using wd(5) up by fastforce
  qed
  then have "walking seen db0 pk newest S (Suc k) b' db'"
    unfolding walking_def using t(2,4,7) wd(4) keeps_trans [OF wd(2) t(3)] by simp
  moreover have "ids_at db pk \<subseteq> ids_at db' pk" using t(3) by (simp add: keeps_def)
  moreover have "?js \<noteq> []" using js ms(2) by auto
  ultimately show thesis using that t by blast
qed

lemma walking_others:
  "honest_telegram v H seen \<Longrightarrow> walking seen db0 pk newest S k b db \<Longrightarrow> walking seen db0 pk newest S k b (tg_others v k db)
     \<and> ids_at db pk \<subseteq> ids_at (tg_others v k db) pk"
proof -
  assume h: "honest_telegram v H seen" and w: "walking seen db0 pk newest S k b db"
  have k: "keeps db (tg_others v k db)" using h by (simp add: honest_telegram_def)
  have "keeps db0 db" using w by (simp add: walking_def)
  from keeps_trans [OF this k] show ?thesis using w k unfolding walking_def by (auto simp: keeps_def)
qed

lemma walking_up_page:
  assumes h: "honest_telegram v H seen" and w: "walking_up H seen db0 pk newest k b db"
    and ms: "tg_ask v k True (bf_offset b) l = Some ms" "ms \<noteq> []"
  shows "\<exists>b' db'. take_page v e k pk ms b db = (Some b', db') \<and> walking_up H seen db0 pk newest (Suc k) b' db'"
proof -
  obtain m where m: "bf_offset b = Some m" "\<forall>n. bf_newest b = Some n \<longrightarrow> n \<le> m" "\<forall>n. newest = Some n \<longrightarrow> n \<le> m"
    "\<forall>i \<in> set H. i \<le> m \<and> (\<forall>n. newest = Some n \<longrightarrow> n < i) \<longrightarrow> i \<in> ids_at db pk"
    and w': "walking seen db0 pk newest (set H) k b db" using w unfolding walking_up_def by blast
  let ?js = "page_ids H (seen k) True (bf_offset b) l"
  have sub: "set ?js \<subseteq> set H" using page_in by blast
  obtain b' db' where t: "take_page v e k pk ms b db = (Some b', db')" "walking seen db0 pk newest (set H) (Suc k) b' db'"
    "set ?js \<subseteq> ids_at db' pk" "ids_at db pk \<subseteq> ids_at db' pk" "?js \<noteq> []" "bf_offset b' = Some (last ?js)"
    "\<exists>x. bf_newest b' = Some x \<and> (bf_newest b = Some x \<or> x \<in> set ?js)"
    by (rule walking_page [OF h w' ms sub])
  have s: "sorted_wrt (<) H" using h by (simp add: honest_telegram_def)
  have "last ?js \<in> set ?js" using t(5) by simp
  from page_in [OF this] have up: "m < last ?js" "last ?js \<le> seen k" using m(1) by auto
  have reach: "i \<in> set ?js" if "i \<in> set H" "m < i" "i \<le> last ?js" for i
    using page_reaches [OF s t(5) that(1)] that up m(1) by auto
  have le: "x \<le> last ?js" if "x \<in> set ?js" for x
  proof -
    have "sorted_wrt (<) ?js" unfolding page_ids_def using s by (simp add: sorted_wrt_take sorted_wrt_filter)
    then show ?thesis using last_is_end that by fastforce
  qed
  have "\<forall>n. bf_newest b' = Some n \<longrightarrow> n \<le> last ?js" using t(7) le m(2) up(1) by fastforce
  moreover have "\<forall>n. newest = Some n \<longrightarrow> n \<le> last ?js" using m(3) up(1) by fastforce
  moreover have "\<forall>i \<in> set H. i \<le> last ?js \<and> (\<forall>n. newest = Some n \<longrightarrow> n < i) \<longrightarrow> i \<in> ids_at db' pk"
    using m(4) reach t(3,4) by (meson linorder_not_less subsetD)
  ultimately show ?thesis using t(1,2,6) unfolding walking_up_def by blast
qed

lemma walking_down_page:
  assumes h: "honest_telegram v H seen" and w: "walking_down H seen db0 pk oldest newest k b db"
    and ms: "tg_ask v k False (bf_offset b) l = Some ms" "ms \<noteq> []" and o: "\<forall>x. oldest = Some x \<longrightarrow> x \<le> seen 0"
  shows "\<exists>b' db'. take_page v e k pk ms b db = (Some b', db') \<and> walking_down H seen db0 pk oldest newest (Suc k) b' db'"
proof -
  let ?js = "page_ids H (seen k) False (bf_offset b) l" and ?S = "older_ids H (seen 0) oldest"
  have s: "sorted_wrt (<) H" and pos: "\<forall>i \<in> set H. 0 < i" and mo: "seen 0 \<le> seen k" "seen k \<le> seen (Suc k)"
    using h by (auto simp: honest_telegram_def mono_def)
  have w': "walking seen db0 pk newest ?S k b db" "\<forall>l. bf_oldest b = Some l \<longrightarrow> 0 < l \<and> l \<le> seen k"
    and off: "case bf_offset b of
        None \<Rightarrow> k = 0 \<and> oldest = None \<and> bf_oldest b = None \<and> bf_newest b = newest
      | Some m \<Rightarrow> m \<le> seen 0 \<and> (\<forall>l. oldest = Some l \<longrightarrow> m \<le> l) \<and> (\<exists>l. bf_oldest b = Some l \<and> m \<le> l) \<and>
          (\<forall>i \<in> ?S. m \<le> i \<longrightarrow> i \<in> ids_at db pk)"
    using w unfolding walking_down_def by blast+
  have sub: "set ?js \<subseteq> ?S"
  proof
    fix i assume "i \<in> set ?js"
    from page_in [OF this] show "i \<in> ?S" using off by (cases "bf_offset b") (auto simp: older_ids_def)
  qed
  obtain b' db' where t: "take_page v e k pk ms b db = (Some b', db')" "walking seen db0 pk newest ?S (Suc k) b' db'"
    "set ?js \<subseteq> ids_at db' pk" "ids_at db pk \<subseteq> ids_at db' pk" "?js \<noteq> []" "bf_offset b' = Some (last ?js)"
    "\<exists>x. bf_oldest b' = Some x \<and> (bf_oldest b = Some x \<or> x \<in> set ?js)"
    by (rule walking_page [OF h w'(1) ms sub])
  have l: "last ?js \<in> set ?js" using t(5) by simp
  then have lS: "last ?js \<in> ?S" using sub by blast
  have below: "last ?js < m" if "bf_offset b = Some m" for m using page_in [OF l] that by auto
  have reach: "i \<in> ids_at db' pk" if "i \<in> ?S" "last ?js \<le> i" for i
  proof (cases "\<exists>m. bf_offset b = Some m \<and> m \<le> i")
    case True
    then show ?thesis using off that(1) t(4) by auto
  next
    case False
    then have "\<forall>m. bf_offset b = Some m \<longrightarrow> i < m" by auto
    moreover have "i \<in> set H" "i \<le> seen k" using that(1) mo by (auto simp: older_ids_def)
    ultimately show ?thesis using page_reaches [OF s t(5)] that(2) t(3) by auto
  qed
  have ge: "last ?js \<le> x" if "x \<in> set ?js" for x
  proof -
    have "sorted_wrt (>) ?js" unfolding page_ids_def using s by (simp add: sorted_wrt_take sorted_wrt_filter sorted_wrt_rev)
    then show ?thesis using last_is_end that by fastforce
  qed
  have a: "\<exists>x. bf_oldest b' = Some x \<and> last ?js \<le> x \<and> 0 < x \<and> x \<le> seen (Suc k)"
  proof -
    obtain x where x: "bf_oldest b' = Some x" "bf_oldest b = Some x \<or> x \<in> set ?js" using t(7) by blast
    show ?thesis
    proof (cases "x \<in> set ?js")
      case True
      from page_in [OF True] show ?thesis using x(1) ge [OF True] pos mo by auto
    next
      case False
      then have "bf_oldest b = Some x" using x(2) by blast
      moreover from this have "last ?js \<le> x" using off below by (fastforce split: option.splits)
      ultimately show ?thesis using x(1) w'(2) mo by fastforce
    qed
  qed
  have "last ?js \<le> seen 0" "\<forall>l. oldest = Some l \<longrightarrow> last ?js \<le> l" using lS by (auto simp: older_ids_def)
  then have "walking_down H seen db0 pk oldest newest (Suc k) b' db'"
    unfolding walking_down_def using t(2,6) a reach by auto
  then show ?thesis using t(1) by blast
qed

subsection \<open>The run\<close>

lemma backfill_pages_return:
  "limit - bf_fetched b \<le> n \<Longrightarrow> \<exists>r. backfill_pages n v e fwd pk limit k b db = Some r"
proof (induction n arbitrary: k b db)
  case (Suc n)
  have more: "\<exists>r. backfill_pages n v e fwd pk limit (Suc k) b' db' = Some r"
    if "take_page v e k pk (m # ms) b db0 = (Some b', db')" "bf_fetched b < limit" for m ms b' db0 db'
  proof -
    have "bf_fetched b' = bf_fetched b + length (m # ms)"
      using that(1) by (auto simp: take_page_def Let_def split: prod.splits if_splits option.splits)
    then have "limit - bf_fetched b' \<le> n" using Suc.prems that(2) by simp
    then show ?thesis by (rule Suc.IH)
  qed
  show ?case using more by (auto simp: Let_def split: option.split list.split prod.split)
qed auto

lemma backfill_returns: "limit \<le> fuel \<Longrightarrow> \<exists>db'. run_backfill_new fuel v e entity c limit fwd db = Some db'"
proof -
  assume "limit \<le> fuel"
  then have "\<exists>r. backfill_pages fuel v e fwd pk limit 0 (first_page fwd st) d = Some r" for pk st d
    by (intro backfill_pages_return) simp
  then show ?thesis
    unfolding run_backfill_new_def Let_def by (auto split: prod.split option.split) (metis option.distinct(1) prod.exhaust)
qed

lemma keeps_history_ok:
  assumes "keeps db db'" "history_ok H t db c" "chat_pk db c = Some pk" "t \<le> t'"
  shows "history_ok H t' db' c"
proof -
  have k: "tables_ok db'" "chat_pk db' c = Some pk" "get_state db' pk = get_state db pk" "ids_at db pk \<subseteq> ids_at db' pk"
    using assms(1-3) by (auto simp: keeps_def history_ok_def)
  then show ?thesis using assms(2-4) unfolding history_ok_def by (auto intro: order_trans)
qed

lemma ensure_chat_history:
  assumes h: "history_ok H t db c" and x: "ensure_chat entity c db = (Some pk, db1)"
    and c: "\<forall>u. entity = Some u \<longrightarrow> get_chat_id u = c"
  shows "history_ok H t db1 c \<and> chat_pk db1 c = Some pk \<and> ids_at db1 = ids_at db \<and> get_state db1 pk = get_state db pk
    \<and> (case chat_pk db c of None \<Rightarrow> get_state db pk = None | Some p \<Rightarrow> p = pk)"
proof (cases "chat_pk db c")
  case (Some p)
  then show ?thesis using x h by (simp add: ensure_chat_def)
next
  case None
  then obtain u where u: "entity = Some u" "upsert_chat db (tg_chat_row u None) = (pk, db1)"
    using x by (auto simp: ensure_chat_def put_chat_def apfst_def map_prod_def split: option.splits prod.splits)
  have ext: "cr_external_id (tg_chat_row u None) = c" using c u(1) by (simp add: tg_chat_row_def)
  have ok: "tables_ok db" using h by (simp add: history_ok_def)
  have n: "get_chat db c = None" using None by (simp add: chat_pk_def)
  then have db1: "at_states db1 = at_states db" "at_messages db1 = at_messages db" "pk = at_next_chat db"
    using u(2) ext by (auto simp: upsert_chat_def)
  have "pk \<notin> ch_id ` set (at_chats db)" using ok db1(3) by (auto simp: tables_ok_def chats_ok_def)
  then have "get_state db pk = None" using ok
    by (auto simp: tables_ok_def states_ok_def get_state_def one_or_none_None)
  moreover have "tables_ok db1" "chat_pk db1 c = Some pk" using upsert_chat_ok [OF ok u(2)] ext by simp_all
  moreover have "ids_at db1 = ids_at db" "get_state db1 pk = get_state db pk" by (auto simp: ids_at_def get_state_def db1)
  ultimately show ?thesis using None by (simp add: history_ok_def)
qed

lemma save_cursor_facts:
  assumes "tables_ok db" "pk \<in> ch_id ` set (at_chats db)"
  shows "tables_ok (save_cursor fwd pk st b now db)" "chat_pk (save_cursor fwd pk st b now db) c = chat_pk db c"
    "ids_at (save_cursor fwd pk st b now db) p = ids_at db p"
    "\<exists>s. get_state (save_cursor fwd pk st b now db) pk = Some s \<and> sy_newest_external_id s = bf_newest b \<and>
       sy_oldest_external_id s = (if fwd then (case get_state db pk of None \<Rightarrow> None | Some x \<Rightarrow> sy_oldest_external_id x) else bf_oldest b) \<and>
       sy_is_fully_synced s = (case (if fwd then None else bf_fully_synced b) of Some f \<Rightarrow> f
          | None \<Rightarrow> (case get_state db pk of None \<Rightarrow> False | Some x \<Rightarrow> sy_is_fully_synced x))"
proof -
  let ?f = "\<lambda>s. let s1 = s\<lparr>sy_newest_external_id := bf_newest b,
             sy_total_synced := (case st of None \<Rightarrow> 0 | Some x \<Rightarrow> sy_total_synced x) + int (bf_total b),
             sy_last_backfill_at := Some now\<rparr>
       in if fwd then s1
          else (case bf_fully_synced b of
                  None \<Rightarrow> s1\<lparr>sy_oldest_external_id := bf_oldest b\<rparr>
                | Some f \<Rightarrow> s1\<lparr>sy_oldest_external_id := bf_oldest b, sy_is_fully_synced := f\<rparr>)"
  have f: "sy_chat_id (?f s) = sy_chat_id s" for s by (simp add: Let_def split: option.split)
  note u = upsert_state_facts [OF assms, of ?f, OF f]
  show "tables_ok (save_cursor fwd pk st b now db)" "chat_pk (save_cursor fwd pk st b now db) c = chat_pk db c"
    "ids_at (save_cursor fwd pk st b now db) p = ids_at db p"
    unfolding save_cursor_def by (rule u)+
  show "\<exists>s. get_state (save_cursor fwd pk st b now db) pk = Some s \<and> sy_newest_external_id s = bf_newest b \<and>
       sy_oldest_external_id s = (if fwd then (case get_state db pk of None \<Rightarrow> None | Some x \<Rightarrow> sy_oldest_external_id x) else bf_oldest b) \<and>
       sy_is_fully_synced s = (case (if fwd then None else bf_fully_synced b) of Some f \<Rightarrow> f
          | None \<Rightarrow> (case get_state db pk of None \<Rightarrow> False | Some x \<Rightarrow> sy_is_fully_synced x))"
    unfolding save_cursor_def u(4) by (simp add: Let_def empty_state_def split: option.split)
qed

text \<open>Where a walk that ended normally leaves the tables, in either direction.\<close>

lemma walked_up:
  assumes h: "honest_telegram v H seen" and ok: "history_ok H (seen 0) db c" and pk: "chat_pk db c = Some pk"
    and st: "st = get_state db pk"
    and w: "backfill_pages n v e True pk limit 0 (first_page True st) db = Some (r, k', db')"
  shows "\<exists>k0 b0. walking_up H seen db pk (case st of None \<Rightarrow> None | Some s \<Rightarrow> sy_newest_external_id s) k0 b0 db' \<and>
    (r = None \<or> r = Some b0)"
proof -
  let ?newest = "case st of None \<Rightarrow> None | Some s \<Rightarrow> sy_newest_external_id s"
  have pos: "\<forall>i \<in> set H. 0 < i" using h by (simp add: honest_telegram_def)
  have n: "0 < n \<and> n \<le> seen 0" if "?newest = Some n" for n
    using ok pk st that unfolding history_ok_def by (auto split: option.splits)
  have init: "walking_up H seen db pk ?newest 0 (first_page True st) db"
    using ok chat_pk_Some [OF pk] n pos
    by (auto simp: walking_up_def walking_def first_page_def history_ok_def Let_def split: option.splits)
  have others: "walking_up H seen db pk ?newest k b (tg_others v k d)" if "walking_up H seen db pk ?newest k b d" for k b d
    using walking_others [OF h, of db pk ?newest "set H" k b d] that unfolding walking_up_def by blast
  have "\<exists>k0 b0. walking_up H seen db pk ?newest k0 b0 db' \<and> (r = None \<or> r = Some b0 \<or>
     (\<exists>l > 0. tg_ask v k0 True (bf_offset b0) l = Some [] \<and> r = Some (if True then b0 else b0\<lparr>bf_fully_synced := Some True\<rparr>)))"
    using w init others walking_up_page [OF h] by (rule walk_invariant [where J = "walking_up H seen db pk ?newest"])
  then show ?thesis by auto
qed

lemma walked_down:
  assumes h: "honest_telegram v H seen" and ok: "history_ok H (seen 0) db c" and pk: "chat_pk db c = Some pk"
    and st: "st = get_state db pk" and o: "oldest = (case st of None \<Rightarrow> None | Some s \<Rightarrow> sy_oldest_external_id s)"
    and w: "backfill_pages n v e False pk limit 0 (first_page False st) db = Some (r, k', db')"
  shows "\<exists>k0 b0. walking_down H seen db pk oldest (case st of None \<Rightarrow> None | Some s \<Rightarrow> sy_newest_external_id s) k0 b0 db' \<and>
    (r = None \<or> r = Some b0 \<or> (r = Some (b0\<lparr>bf_fully_synced := Some True\<rparr>) \<and>
      (\<forall>i \<in> older_ids H (seen 0) oldest. i \<in> ids_at db' pk)))"
proof -
  let ?newest = "case st of None \<Rightarrow> None | Some s \<Rightarrow> sy_newest_external_id s"
  let ?J = "walking_down H seen db pk oldest ?newest"
  have mo: "seen 0 \<le> seen k" for k using h by (auto simp: honest_telegram_def mono_def)
  have n: "0 < n \<and> n \<le> seen 0" if "?newest = Some n" for n
    using ok pk st that unfolding history_ok_def by (auto split: option.splits)
  have l: "0 < x \<and> x \<le> seen 0" if "oldest = Some x" for x
    using ok pk st o that unfolding history_ok_def by (auto split: option.splits)
  have page1: "first_page False st = \<lparr>bf_oldest = oldest, bf_newest = ?newest, bf_total = 0, bf_fetched = 0,
      bf_offset = oldest, bf_fully_synced = None\<rparr>"
    using l by (auto simp: first_page_def o Let_def split: option.splits)
  have init: "?J 0 (first_page False st) db"
    using ok chat_pk_Some [OF pk] n l unfolding page1
    by (auto simp: walking_down_def walking_def older_ids_def history_ok_def split: option.splits)
  have others: "?J k b (tg_others v k d)" if "?J k b d" for k b d
    using walking_others [OF h, of db pk ?newest "older_ids H (seen 0) oldest" k b d] that
    unfolding walking_down_def by (auto split: option.splits)
  have page: "\<exists>b' d'. take_page v e k pk ms b d = (Some b', d') \<and> ?J (Suc k) b' d'"
    if "?J k b d" "tg_ask v k False (bf_offset b) l = Some ms" "ms \<noteq> []" for k b d l ms
    using walking_down_page [OF h that] l by blast
  have "\<exists>k0 b0. ?J k0 b0 db' \<and> (r = None \<or> r = Some b0 \<or>
     (\<exists>l > 0. tg_ask v k0 False (bf_offset b0) l = Some [] \<and> r = Some (if False then b0 else b0\<lparr>bf_fully_synced := Some True\<rparr>)))"
    using w init others page by (rule walk_invariant [where J = ?J])
  then obtain k0 b0 where e: "?J k0 b0 db'" "r = None \<or> r = Some b0 \<or>
     (\<exists>l > 0. tg_ask v k0 False (bf_offset b0) l = Some [] \<and> r = Some (b0\<lparr>bf_fully_synced := Some True\<rparr>))"
    by auto
  have "i \<in> ids_at db' pk" if l: "0 < l" "tg_ask v k0 False (bf_offset b0) l = Some []" and i: "i \<in> older_ids H (seen 0) oldest" for l i
  proof -
    have "page_ids H (seen k0) False (bf_offset b0) l = []" using honest_page [OF h l(2)] by simp
    from page_empty [OF this l(1), of i] have "\<exists>m. bf_offset b0 = Some m \<and> m \<le> i"
      using i mo [of k0] by (force simp: older_ids_def)
    then show ?thesis using e(1) i unfolding walking_down_def by auto
  qed
  then show ?thesis using e by blast
qed

text \<open>The flag set by this run: then nothing up to the newest end is missing.\<close>

definition newly_whole :: "int list \<Rightarrow> sync_state option \<Rightarrow> account_tables \<Rightarrow> int \<Rightarrow> bool" where
  "newly_whole H st db pk \<longleftrightarrow> (\<forall>s. get_state db pk = Some s \<and> sy_is_fully_synced s \<and> (\<forall>x. st = Some x \<longrightarrow> \<not> sy_is_fully_synced x) \<longrightarrow>
     (\<forall>i \<in> set H. \<forall>n. sy_newest_external_id s = Some n \<longrightarrow> i \<le> n \<longrightarrow> i \<in> ids_at db pk))"

lemma cursor_saved_up:
  assumes w: "walking_up H seen db pk newest k b db2" and ok: "history_ok H (seen 0) db c" and pk: "chat_pk db c = Some pk"
    and st: "st = get_state db pk" and n: "newest = (case st of None \<Rightarrow> None | Some s \<Rightarrow> sy_newest_external_id s)" and mo: "mono seen"
  shows "history_ok H (seen k) (save_cursor True pk st b now db2) c \<and> newly_whole H st (save_cursor True pk st b now db2) pk"
proof -
  obtain m where w': "walking seen db pk newest (set H) k b db2" and m: "bf_offset b = Some m" "\<forall>n. bf_newest b = Some n \<longrightarrow> n \<le> m"
    "\<forall>i \<in> set H. i \<le> m \<and> (\<forall>n. newest = Some n \<longrightarrow> n < i) \<longrightarrow> i \<in> ids_at db2 pk"
    using w unfolding walking_up_def by blast
  have wd: "tables_ok db2" "keeps db db2" "pk \<in> ch_id ` set (at_chats db2)"
    "\<And>n. bf_newest b = Some n \<Longrightarrow> 0 < n \<and> n \<le> seen k" using w' unfolding walking_def by blast+
  have k: "chat_pk db2 c = Some pk" "get_state db2 pk = st" "ids_at db pk \<subseteq> ids_at db2 pk" using wd(2) pk st by (auto simp: keeps_def)
  have up: "seen 0 \<le> seen k" using mo by (auto simp: mono_def)
  note f = save_cursor_facts [OF wd(1,3), of True st b now]
  obtain s where s: "get_state (save_cursor True pk st b now db2) pk = Some s" "sy_newest_external_id s = bf_newest b"
    "sy_oldest_external_id s = (case st of None \<Rightarrow> None | Some x \<Rightarrow> sy_oldest_external_id x)"
    "sy_is_fully_synced s = (case st of None \<Rightarrow> False | Some x \<Rightarrow> sy_is_fully_synced x)" using f(4) k(2) by auto
  have "newly_whole H st (save_cursor True pk st b now db2) pk" using s by (auto simp: newly_whole_def split: option.splits)
  moreover have "i \<in> ids_at db2 pk" if "i \<in> set H" "bf_newest b = Some x" "i \<le> x" "\<forall>l. sy_oldest_external_id s = Some l \<longrightarrow> l \<le> i" for i x
  proof (cases "\<exists>y. newest = Some y \<and> i \<le> y")
    case True
    then obtain y z where z: "newest = Some y" "i \<le> y" "st = Some z" using n by (auto split: option.splits)
    then have "i \<in> ids_at db pk" using ok pk st n that(1,4) s(3) unfolding history_ok_def by auto
    then show ?thesis using k(3) by blast
  next
    case False
    then show ?thesis using m that by force
  qed
  moreover have "0 < l \<and> l \<le> seen k" if l: "sy_oldest_external_id s = Some l" for l
  proof -
    obtain z where "st = Some z" "sy_oldest_external_id z = Some l" using l s(3) by (auto split: option.splits)
    then show ?thesis using ok pk st up unfolding history_ok_def by force
  qed
  ultimately show ?thesis using f(1-3) k(1) s wd(4) unfolding history_ok_def by auto
qed

lemma cursor_saved_down:
  assumes w: "walking_down H seen db pk oldest newest k b db2" and ok: "history_ok H (seen 0) db c" and pk: "chat_pk db c = Some pk"
    and st: "st = get_state db pk" and n: "newest = (case st of None \<Rightarrow> None | Some s \<Rightarrow> sy_newest_external_id s)"
    and o: "oldest = (case st of None \<Rightarrow> None | Some s \<Rightarrow> sy_oldest_external_id s)" and mo: "mono seen"
    and r: "b' = b \<or> (b' = b\<lparr>bf_fully_synced := Some True\<rparr> \<and> (\<forall>i \<in> older_ids H (seen 0) oldest. i \<in> ids_at db2 pk))"
  shows "history_ok H (seen k) (save_cursor False pk st b' now db2) c \<and> newly_whole H st (save_cursor False pk st b' now db2) pk"
proof -
  let ?S = "older_ids H (seen 0) oldest"
  have w': "walking seen db pk newest ?S k b db2" "\<forall>l. bf_oldest b = Some l \<longrightarrow> 0 < l \<and> l \<le> seen k"
    and off: "case bf_offset b of
        None \<Rightarrow> k = 0 \<and> oldest = None \<and> bf_oldest b = None \<and> bf_newest b = newest
      | Some m \<Rightarrow> m \<le> seen 0 \<and> (\<forall>l. oldest = Some l \<longrightarrow> m \<le> l) \<and> (\<exists>l. bf_oldest b = Some l \<and> m \<le> l) \<and>
          (\<forall>i \<in> ?S. m \<le> i \<longrightarrow> i \<in> ids_at db2 pk)" using w unfolding walking_down_def by blast+
  have wd: "tables_ok db2" "keeps db db2" "pk \<in> ch_id ` set (at_chats db2)" "bf_fully_synced b = None"
    "\<And>n. bf_newest b = Some n \<Longrightarrow> 0 < n \<and> n \<le> seen k \<and> (newest = Some n \<or> n \<in> ?S)" using w'(1) unfolding walking_def by blast+
  have k: "chat_pk db2 c = Some pk" "get_state db2 pk = st" "ids_at db pk \<subseteq> ids_at db2 pk" using wd(2) pk st by (auto simp: keeps_def)
  note f = save_cursor_facts [OF wd(1,3), of False st b' now]
  have b': "bf_newest b' = bf_newest b" "bf_oldest b' = bf_oldest b" using r by auto
  obtain s where s: "get_state (save_cursor False pk st b' now db2) pk = Some s" "sy_newest_external_id s = bf_newest b"
    "sy_oldest_external_id s = bf_oldest b"
    "sy_is_fully_synced s = (case bf_fully_synced b' of Some f \<Rightarrow> f | None \<Rightarrow> (case st of None \<Rightarrow> False | Some x \<Rightarrow> sy_is_fully_synced x))"
    using f(4) k(2) b' by auto
  have old: "i \<in> ids_at db pk" if "i \<in> set H" "newest = Some x" "i \<le> x" "\<forall>l. oldest = Some l \<longrightarrow> l \<le> i" for i x
    using that n o ok pk st unfolding history_ok_def by (auto split: option.splits)
  have top: "x \<le> seen 0" if "newest = Some x" for x
    using that n ok pk st unfolding history_ok_def by (auto split: option.splits)
  have rest: "i \<in> ids_at db2 pk" if i: "i \<in> set H" "bf_newest b = Some x" "i \<le> x" "i \<notin> ?S" for i x
  proof (cases "newest = Some x")
    case True
    then have "\<forall>l. oldest = Some l \<longrightarrow> l \<le> i" using i top [OF True] by (force simp: older_ids_def)
    then show ?thesis using old [OF i(1) True i(3)] k(3) by blast
  next
    case False
    then have "x \<in> ?S" using wd(5) i(2) by blast
    then have "i \<in> ?S" using i by (auto simp: older_ids_def)
    then show ?thesis using i(4) by blast
  qed
  have "i \<in> ids_at db2 pk" if i: "i \<in> set H" "bf_newest b = Some x" "i \<le> x" "\<forall>l. bf_oldest b = Some l \<longrightarrow> l \<le> i" for i x
  proof (cases "bf_offset b")
    case None
    then have "oldest = None" "bf_newest b = newest" using off by simp_all
    then show ?thesis using old [OF i(1) _ i(3)] i(2) k(3) by auto
  next
    case (Some m)
    then show ?thesis using off i rest [OF i(1-3)] by (cases "i \<in> ?S") auto
  qed
  then have "history_ok H (seen k) (save_cursor False pk st b' now db2) c"
    using f(1-3) k(1) s wd(5) w'(2) unfolding history_ok_def by auto
  moreover have "newly_whole H st (save_cursor False pk st b' now db2) pk"
    using s r wd(4) rest f(3) by (auto simp: newly_whole_def split: option.splits)
  ultimately show ?thesis by blast
qed

lemma backfill_run:
  assumes h: "honest_telegram v H seen" and ok: "history_ok H (seen 0) db c"
    and c: "\<forall>u. entity = Some u \<longrightarrow> get_chat_id u = c"
    and run: "run_backfill_new fuel v e entity c limit fwd db = Some db'"
  shows "(\<exists>k. history_ok H (seen k) db' c) \<and> (\<forall>p. ids_at db p \<subseteq> ids_at db' p) \<and>
    (case chat_pk db' c of None \<Rightarrow> True | Some pk \<Rightarrow>
       newly_whole H (case chat_pk db c of None \<Rightarrow> None | Some p \<Rightarrow> get_state db p) db' pk)"
proof -
  obtain x db1 where x: "ensure_chat entity c db = (x, db1)" by (rule prod.exhaust)
  have mo: "mono seen" "seen 0 \<le> seen k" for k using h by (auto simp: honest_telegram_def mono_def)
  show ?thesis
  proof (cases x)
    case None
    then have "db' = db" "chat_pk db c = None" using x run
      by (auto simp: run_backfill_new_def ensure_chat_def apfst_def map_prod_def split: option.splits prod.splits)
    then show ?thesis using ok by auto
  next
    case (Some pk)
    note en = ensure_chat_history [OF ok x [unfolded Some] c]
    have E: "history_ok H (seen 0) db1 c" "chat_pk db1 c = Some pk" "ids_at db1 = ids_at db" using en by blast+
    let ?st = "get_state db1 pk"
    have st: "(case chat_pk db c of None \<Rightarrow> None | Some p \<Rightarrow> get_state db p) = ?st" using en by (auto split: option.splits)
    obtain r k db2 where w: "backfill_pages fuel v e fwd pk limit 0 (first_page fwd ?st) db1 = Some (r, k, db2)"
      using run x Some by (auto simp: run_backfill_new_def Let_def split: option.splits)
    have db': "db' = (case r of None \<Rightarrow> db2 | Some b \<Rightarrow> save_cursor fwd pk ?st b (se_now e) db2)"
      using run x Some w by (auto simp: run_backfill_new_def Let_def split: option.splits)
    let ?newest = "case ?st of None \<Rightarrow> None | Some s \<Rightarrow> sy_newest_external_id s"
    let ?oldest = "case ?st of None \<Rightarrow> None | Some s \<Rightarrow> sy_oldest_external_id s"
    have "\<exists>k0. keeps db1 db2 \<and> tables_ok db2 \<and> pk \<in> ch_id ` set (at_chats db2) \<and>
        (r \<noteq> None \<longrightarrow> history_ok H (seen k0) db' c \<and> newly_whole H ?st db' pk)"
    proof (cases fwd)
      case True
      then have f: "fwd = True" by simp
      obtain k0 b0 where b: "walking_up H seen db1 pk ?newest k0 b0 db2" "r = None \<or> r = Some b0"
        using walked_up [OF h E(1,2) refl w [unfolded f]] by blast
      have "keeps db1 db2 \<and> tables_ok db2 \<and> pk \<in> ch_id ` set (at_chats db2)"
        using b(1) unfolding walking_up_def walking_def by blast
      moreover have "r \<noteq> None \<longrightarrow> history_ok H (seen k0) db' c \<and> newly_whole H ?st db' pk"
        using cursor_saved_up [OF b(1) E(1,2) refl refl mo(1), of "se_now e"] db' b(2) f by force
      ultimately show ?thesis by blast
    next
      case False
      have f: "fwd = False" using False by simp
      obtain k0 b0 where b: "walking_down H seen db1 pk ?oldest ?newest k0 b0 db2"
        "r = None \<or> (\<exists>b'. r = Some b' \<and> (b' = b0 \<or> (b' = b0\<lparr>bf_fully_synced := Some True\<rparr> \<and>
          (\<forall>i \<in> older_ids H (seen 0) ?oldest. i \<in> ids_at db2 pk))))"
        using walked_down [OF h E(1,2) refl refl w [unfolded f]] by blast
      have "keeps db1 db2 \<and> tables_ok db2 \<and> pk \<in> ch_id ` set (at_chats db2)"
        using b(1) unfolding walking_down_def walking_def by blast
      moreover have "history_ok H (seen k0) db' c \<and> newly_whole H ?st db' pk" if some: "r \<noteq> None"
      proof -
        obtain b' where r: "r = Some b'" "b' = b0 \<or> (b' = b0\<lparr>bf_fully_synced := Some True\<rparr> \<and>
          (\<forall>i \<in> older_ids H (seen 0) ?oldest. i \<in> ids_at db2 pk))" using b(2) some by auto
        have "db' = save_cursor False pk ?st b' (se_now e) db2" using db' r(1) f by simp
        then show ?thesis using cursor_saved_down [OF b(1) E(1,2) refl refl refl mo(1) r(2), of "se_now e"] by simp
      qed
      ultimately show ?thesis by blast
    qed
    then obtain k0 where k: "keeps db1 db2" "tables_ok db2" "pk \<in> ch_id ` set (at_chats db2)"
        "r \<noteq> None \<Longrightarrow> history_ok H (seen k0) db' c \<and> newly_whole H ?st db' pk" by blast
    have pk2: "chat_pk db2 c = Some pk" "get_state db2 pk = ?st" using k(1) E(2) by (auto simp: keeps_def)
    have ids: "ids_at db p \<subseteq> ids_at db2 p" for p using k(1) E(3) by (auto simp: keeps_def)
    show ?thesis
    proof (cases r)
      case None
      then have "db' = db2" using db' by simp
      moreover have "history_ok H (seen 0) db2 c" by (rule keeps_history_ok [OF k(1) E(1,2)]) simp
      ultimately show ?thesis using ids pk2 st by (auto simp: newly_whole_def)
    next
      case (Some b)
      then have d: "db' = save_cursor fwd pk ?st b (se_now e) db2" using db' by simp
      then have "chat_pk db' c = Some pk" "\<forall>p. ids_at db p \<subseteq> ids_at db' p"
        using save_cursor_facts(2,3) [OF k(2,3)] pk2(1) ids by simp_all
      then show ?thesis using k(4) Some st by auto
    qed
  qed
qed

subsection \<open>A chat for examples\<close>

text \<open>A group with three messages and an account that has seen none of them.\<close>

definition tg_text :: "int \<Rightarrow> tl_message" where
  "tg_text i = \<lparr>tm_id = Some i, tm_date = i * 1000, tm_sender_id = None, tm_sender = None, tm_text = Some ''x'',
     tm_message = Some ''x'', tm_html = None, tm_out = False, tm_edit_date = None, tm_views = None, tm_reply_to = None,
     tm_fwd_from = None, tm_media = None, tm_raw = None\<rparr>"

definition tg_group :: entity where
  "tg_group = \<lparr>en_kind = EChat, en_id = 5, en_min = False, en_username = None, en_first_name = None, en_last_name = None,
     en_title = Some ''Group'', en_about = None, en_phone = None, en_participants_count = None, en_access_hash = None,
     en_creator = False, en_admin_rights = False, en_broadcast = False, en_bot = False, en_contact = False, en_raw = None\<rparr>"

definition tg_demo :: "int list \<Rightarrow> tg_env" where
  "tg_demo H = \<lparr>tg_ask = (\<lambda>k fwd from n. Some (map tg_text (page_ids H 100 fwd from n))),
     tg_fails = (\<lambda>_ _. False), tg_others = (\<lambda>_ db. db)\<rparr>"

definition tg_store_env :: store_env where
  "tg_store_env = \<lparr>se_srt = (\<lambda>xs. xs), se_mid = (\<lambda>d. d), se_saved = ''Saved'', se_now = 0\<rparr>"

definition tg_empty :: account_tables where
  "tg_empty = \<lparr>at_account_id = 1, at_platform = ''telegram'', at_self = Some 100,
     at_people = \<lparr>pd_people = [], pd_identities = [], pd_users = [], pd_log = [], pd_next_person = 1,
       pd_next_identity = 1, pd_next_user = 1\<rparr>,
     at_chats = [], at_messages = [], at_media = [], at_states = [], at_next_chat = 1, at_next_message = 1\<rparr>"

lemma tg_demo_honest: "sorted_wrt (<) H \<Longrightarrow> \<forall>i \<in> set H. 0 < i \<Longrightarrow> honest_telegram (tg_demo H) H (\<lambda>_. 100)"
  by (auto simp: honest_telegram_def tg_demo_def mono_def tg_text_def)

lemma tg_empty_ok: "history_ok H t tg_empty c"
  by (simp add: history_ok_def tables_ok_def chats_ok_def messages_ok_def states_ok_def tg_empty_def chat_pk_def
      get_chat_def one_or_none_def)

lemma tg_group_id: "\<forall>u. Some tg_group = Some u \<longrightarrow> get_chat_id u = - 5"
  by (simp add: get_chat_id_def tg_group_def)

subsection \<open>The properties\<close>

text \<open>
  C27 A backfill leaves no gap. As long as Telegram's pages are what it documents and no store is
  refused, a run in either direction, with any limit, ends within as many pages as its limit; it
  loses no message of the account, keeps the tables consistent, and leaves every message of the
  chat between the ends of the saved cursor stored. So does a run whose request fails, or that
  runs beside live messages.
\<close>

theorem backfill_leaves_no_gap:
  assumes "honest_telegram v H seen" "history_ok H (seen 0) db chat_id"
    "\<forall>u. entity = Some u \<longrightarrow> get_chat_id u = chat_id" "limit \<le> fuel"
  shows "\<exists>k db'. run_backfill_new fuel v e entity chat_id limit fwd db = Some db' \<and>
     history_ok H (seen k) db' chat_id \<and> (\<forall>p. ids_at db p \<subseteq> ids_at db' p)"
proof -
  obtain db' where "run_backfill_new fuel v e entity chat_id limit fwd db = Some db'" using backfill_returns [OF assms(4)] by blast
  then show ?thesis using backfill_run [OF assms(1-3)] by blast
qed

theorem backfill_leaves_no_gap_witness:
  "\<exists>k db'. run_backfill_new 2 (tg_demo [3, 4, 7]) tg_store_env (Some tg_group) (- 5) 2 False tg_empty = Some db' \<and>
     history_ok [3, 4, 7] ((\<lambda>_. 100) (k :: nat)) db' (- 5) \<and> (\<forall>p. ids_at tg_empty p \<subseteq> ids_at db' p)"
  by (rule backfill_leaves_no_gap [OF tg_demo_honest tg_empty_ok tg_group_id]) simp_all






text \<open>
  The flag outlives the chat it was true of: set on an empty chat, it stays when a later run stops
  at its limit with older messages missing.
\<close>

lemma empty_chat_stays_synced:
  "\<exists>db1 db2. run_backfill_new 1 (tg_demo []) tg_store_env (Some tg_group) (- 5) 1 False tg_empty = Some db1 \<and>
     run_backfill_new 1 (tg_demo [3, 4, 7]) tg_store_env None (- 5) 1 False db1 = Some db2 \<and>
     map_option sy_is_fully_synced (get_state db2 1) = Some True \<and> map mg_external_id (at_messages db2) = [7]"
proof -
  have "case run_backfill_new 1 (tg_demo []) tg_store_env (Some tg_group) (- 5) 1 False tg_empty of
      None \<Rightarrow> False
    | Some db1 \<Rightarrow> (case run_backfill_new 1 (tg_demo [3, 4, 7]) tg_store_env None (- 5) 1 False db1 of
          None \<Rightarrow> False
        | Some db2 \<Rightarrow> map_option sy_is_fully_synced (get_state db2 1) = Some True \<and> map mg_external_id (at_messages db2) = [7])"
    by code_simp
  then show ?thesis by (auto split: option.splits)
qed

end
