(* ===== verification/Tg_Session.thy ===== *)
theory Tg_Session
  imports Max_Session
begin

text \<open>
  One Telegram account: the client of \<^verbatim>\<open>app/telegram/session.py\<close>, the identity check and the
  handlers of \<^verbatim>\<open>app/telegram/pool.py\<close>, and the login endpoints of \<^verbatim>\<open>app/api/auth.py\<close>.
  Telethon is outside: which session strings it accepts and whose they are is in \<open>telethon\<close>, how a
  request of it ends is an argument.
\<close>

record telethon =
  tl_api_keys :: bool \<comment> \<open>TG_API_ID and TG_API_HASH are set\<close>
  tl_valid :: "string \<Rightarrow> bool" \<comment> \<open>\<^verbatim>\<open>StringSession\<close> accepts the string\<close>
  tl_owner :: "string \<Rightarrow> int option" \<comment> \<open>the user it is authorized as\<close>

record tg_client =
  tc_string :: string \<comment> \<open>\<^verbatim>\<open>session.save()\<close>\<close>
  tc_user :: "int option"
  tc_connected :: bool

record tg_session =
  ts_alias :: string
  ts_account_id :: "int option"
  ts_me_id :: "int option"
  ts_identity_ok :: "bool option"
  ts_identity_error :: "string option"
  ts_phone :: string
  ts_initial_session :: "string option"
  ts_client :: "tg_client option"
  ts_phone_code_hash :: "string option"
  ts_last_error :: "string option"
  ts_last_started_at :: "usec option"

definition new_tg_session :: "string \<Rightarrow> string \<Rightarrow> string option \<Rightarrow> int option \<Rightarrow> tg_session" where
  "new_tg_session alias phone str account = \<lparr>ts_alias = alias, ts_account_id = account, ts_me_id = None,
     ts_identity_ok = None, ts_identity_error = None, ts_phone = phone, ts_initial_session = str, ts_client = None,
     ts_phone_code_hash = None, ts_last_error = None, ts_last_started_at = None\<rparr>"

definition is_running :: "tg_session \<Rightarrow> bool" where
  "is_running s = (case ts_client s of None \<Rightarrow> False | Some c \<Rightarrow> tc_connected c)"

definition client_user :: "tg_session \<Rightarrow> int option" where
  "client_user s = (case ts_client s of None \<Rightarrow> None | Some c \<Rightarrow> tc_user c)"

subsection \<open>Start and stop\<close>

definition create_client :: "telethon \<Rightarrow> string \<Rightarrow> tg_session \<Rightarrow> tg_session" where
  "create_client T str s = s\<lparr>ts_client := Some \<lparr>tc_string = str, tc_user = tl_owner T str, tc_connected = False\<rparr>\<rparr>"

definition set_connected :: "bool \<Rightarrow> tg_session \<Rightarrow> tg_session" where
  "set_connected b s = s\<lparr>ts_client := map_option (\<lambda>c. c\<lparr>tc_connected := b\<rparr>) (ts_client s)\<rparr>"

definition know_self :: "usec \<Rightarrow> tg_session \<Rightarrow> tg_session" where
  "know_self now s = s\<lparr>ts_me_id := (case client_user s of None \<Rightarrow> ts_me_id s | Some u \<Rightarrow> Some u), ts_last_started_at := Some now\<rparr>"

datatype start_fault = No_fault | Connect_fails | Profile_fails

text \<open>\<^verbatim>\<open>start\<close>: whether it returned, and the object it leaves.\<close>

definition session_start :: "telethon \<Rightarrow> start_fault \<Rightarrow> usec \<Rightarrow> tg_session \<Rightarrow> bool \<times> tg_session" where
  "session_start T fault now s =
    (let str = (case ts_initial_session s of None \<Rightarrow> [] | Some x \<Rightarrow> x) in
     if \<not> tl_api_keys T then (True, s)
     else if \<not> tl_valid T str then (False, s)
     else if fault = Connect_fails then (False, create_client T str s)
     else if fault = Profile_fails then (False, set_connected True (create_client T str s))
     else (True, know_self now (set_connected True (create_client T str s))))"

definition session_stop :: "tg_session \<Rightarrow> tg_session" where
  "session_stop s = set_connected False s"

subsection \<open>Login\<close>

datatype tg_result =
    Code_sent
  | Needs_2fa
  | Signed_in "int \<times> string" \<comment> \<open>user id and session string\<close>
  | Invalid_string
  | Logged_out
  | Raised string

definition send_code :: "string + string \<Rightarrow> tg_session \<Rightarrow> tg_result \<times> tg_session" where
  "send_code answer s =
    (case ts_client s of
       None \<Rightarrow> (Raised ''Client not initialized'', s)
     | Some _ \<Rightarrow> (case answer of
           Inl err \<Rightarrow> (Raised err, s)
         | Inr h \<Rightarrow> (Code_sent, s\<lparr>ts_phone_code_hash := Some h\<rparr>)))"

text \<open>How \<^verbatim>\<open>client.sign_in\<close> ends: the user and the new string, a password is needed, another error.\<close>

datatype sign_in_answer = Accepted int string | Password_needed | Sign_in_error string

definition sign_in :: "sign_in_answer \<Rightarrow> string option \<Rightarrow> sign_in_answer \<Rightarrow> tg_session \<Rightarrow> tg_result \<times> tg_session" where
  "sign_in answer password answer2 s =
    (case ts_client s of
       None \<Rightarrow> (Raised ''Client not initialized'', s)
     | Some c \<Rightarrow>
        (let signed = (\<lambda>u str. (Signed_in (u, str), s\<lparr>ts_client := Some (c\<lparr>tc_user := Some u, tc_string := str\<rparr>)\<rparr>)) in
         case answer of
           Accepted u str \<Rightarrow> signed u str
         | Sign_in_error err \<Rightarrow> (Raised err, s)
         | Password_needed \<Rightarrow>
             (if (case password of None \<Rightarrow> True | Some p \<Rightarrow> p = []) then (Needs_2fa, s)
              else (case answer2 of
                      Accepted u str \<Rightarrow> signed u str
                    | Password_needed \<Rightarrow> (Raised ''SessionPasswordNeeded'', s)
                    | Sign_in_error err \<Rightarrow> (Raised err, s)))))"

text \<open>\<^verbatim>\<open>import_session\<close> keeps \<^verbatim>\<open>me_id\<close> and \<^verbatim>\<open>identity_ok\<close> of the client it replaces.\<close>

definition import_session :: "telethon \<Rightarrow> bool \<Rightarrow> string \<Rightarrow> tg_session \<Rightarrow> tg_result \<times> tg_session" where
  "import_session T connects str s =
    (let s0 = set_connected False s in
     if \<not> tl_valid T str then (Raised ''Not a valid string'', s0)
     else if \<not> connects then (Raised ''ConnectionError'', create_client T str s0)
     else
       (let s1 = set_connected True (create_client T str s0)
        in case tl_owner T str of
             None \<Rightarrow> (Invalid_string, s1)
           | Some u \<Rightarrow> (Signed_in (u, str), s1\<lparr>ts_initial_session := Some str\<rparr>)))"

definition tg_logout :: "tg_session \<Rightarrow> tg_result \<times> tg_session" where
  "tg_logout s =
    (case ts_client s of
       None \<Rightarrow> (Logged_out, s)
     | Some c \<Rightarrow>
         if \<not> tc_connected c then (Raised ''ConnectionError'', s)
         else if tc_user c = None then (Logged_out, s)
         else (Logged_out, s\<lparr>ts_client := Some (c\<lparr>tc_user := None, tc_connected := False\<rparr>)\<rparr>))"

subsection \<open>Whose session it is\<close>

text \<open>\<^verbatim>\<open>confirm_identity\<close>; None: an exception (the client has no user) leaves it.\<close>

definition identity_mismatch :: "string \<Rightarrow> tg_session \<Rightarrow> tg_session" where
  "identity_mismatch msg s = s\<lparr>ts_identity_ok := Some False, ts_identity_error := Some msg,
     ts_last_error := Some (''identity mismatch: '' @ msg)\<rparr>"

definition self_id :: "tg_session \<Rightarrow> int option" where
  "self_id s = (case ts_me_id s of Some m \<Rightarrow> if m \<noteq> 0 then Some m else client_user s | None \<Rightarrow> client_user s)"

definition confirm_identity :: "bool \<Rightarrow> tg_session \<Rightarrow> account list \<Rightarrow> bool option \<times> tg_session \<times> account list" where
  "confirm_identity new_mode s accs =
    (if \<not> new_mode then (Some True, s, accs)
     else (case ts_identity_ok s of
         Some b \<Rightarrow> (Some b, s, accs)
       | None \<Rightarrow>
           (case ts_account_id s of
              None \<Rightarrow> (Some False, identity_mismatch (''session '' @ quoted (ts_alias s) @ '' has no account id'') s, accs)
            | Some a \<Rightarrow>
               (case self_id s of
                  None \<Rightarrow> (None, s, accs)
                | Some m \<Rightarrow>
                   (case ensure_account_user accs a m of
                      Inl msg \<Rightarrow> (Some False, identity_mismatch msg (s\<lparr>ts_me_id := Some m\<rparr>), accs)
                    | Inr accs' \<Rightarrow> (Some True, s\<lparr>ts_me_id := Some m, ts_identity_ok := Some True\<rparr>, accs'))))))"

text \<open>\<^verbatim>\<open>require_authorized_client\<close> after \<^verbatim>\<open>pool.get\<close>: the client's user, 503, 409 or an exception.\<close>

datatype client_answer = Client int | Not_authorized | Other_user string | Client_error

definition require_client :: "bool \<Rightarrow> tg_session \<Rightarrow> account list \<Rightarrow> client_answer \<times> tg_session \<times> account list" where
  "require_client new_mode s accs =
    (case ts_client s of
       None \<Rightarrow> (Not_authorized, s, accs)
     | Some c \<Rightarrow>
        if \<not> tc_connected c then (Client_error, s, accs)
        else (case tc_user c of
            None \<Rightarrow> (Not_authorized, s, accs)
          | Some u \<Rightarrow>
             (case confirm_identity new_mode s accs of
                (None, s', accs') \<Rightarrow> (Client_error, s', accs')
              | (Some True, s', accs') \<Rightarrow> (Client u, s', accs')
              | (Some False, s', accs') \<Rightarrow>
                  (Other_user (case ts_identity_error s' of None \<Rightarrow> ''None'' | Some e \<Rightarrow> e), s', accs'))))"

text \<open>\<^verbatim>\<open>attach_handlers\<close>: the account the handlers write to, if they are registered.\<close>

datatype handlers = For_account int | Legacy_handlers | No_handlers | Attach_error

definition attach_handlers :: "bool \<Rightarrow> tg_session \<Rightarrow> account list \<Rightarrow> handlers \<times> tg_session \<times> account list" where
  "attach_handlers new_mode s accs =
    (if \<not> new_mode then (Legacy_handlers, s, accs)
     else (case ts_account_id s of
         None \<Rightarrow> (Attach_error, s, accs)
       | Some a \<Rightarrow>
          (case confirm_identity new_mode s accs of
             (None, s', accs') \<Rightarrow> (Attach_error, s', accs')
           | (Some ok, s', accs') \<Rightarrow> (if ok then For_account a else No_handlers, s', accs'))))"

end
