(* ===== verification/Tg_Auth.thy ===== *)
theory Tg_Auth
  imports Tg_Session
begin

text \<open>
  The login endpoints of \<^verbatim>\<open>app/api/auth.py\<close> with the tables they write, and how a session is
  loaded from them (\<^verbatim>\<open>_load_session\<close> of \<^verbatim>\<open>app/telegram/pool.py\<close>). Here a request runs alone; the
  session of the alias in the pool is an argument and a result.
\<close>

definition account_of_alias :: "account list \<Rightarrow> string \<Rightarrow> account option" where
  "account_of_alias accs alias = one_or_none (\<lambda>a. acc_alias a = alias) accs"

definition tg_account :: "account list \<Rightarrow> string \<Rightarrow> account option" where
  "tg_account accs alias =
    one_or_none (\<lambda>a. acc_alias a = alias \<and> acc_is_enabled a \<and> acc_platform a = ''telegram'') accs"

definition tg_load_session :: "account list \<Rightarrow> session_rows \<Rightarrow> string \<Rightarrow> tg_session option" where
  "tg_load_session accs rows alias =
    map_option (\<lambda>a. new_tg_session alias (acc_phone a) (load_raw rows (acc_id a)) (Some (acc_id a))) (tg_account accs alias)"

text \<open>\<^verbatim>\<open>a or b\<close> on ids, where 0 is false.\<close>

definition or_id :: "int option \<Rightarrow> int option \<Rightarrow> int option" where
  "or_id a b = (if a = None \<or> a = Some 0 then b else a)"

definition require_same_user :: "account list \<Rightarrow> string \<Rightarrow> int \<Rightarrow> string option" where
  "require_same_user accs alias uid =
    (if uid = 0 then None
     else
      (let taken = (case filter (\<lambda>a. acc_platform a = ''telegram'' \<and> acc_alias a \<noteq> alias \<and>
                (acc_external_user_id a = Some uid \<or> acc_tg_user_id a = Some uid)) accs of
              [] \<Rightarrow> None | a # _ \<Rightarrow> Some (acc_alias a));
           known = (case account_of_alias accs alias of None \<Rightarrow> None | Some a \<Rightarrow> or_id (acc_external_user_id a) (acc_tg_user_id a))
       in if known \<noteq> None \<and> known \<noteq> Some uid then
            Some (''session belongs to Telegram user '' @ show_int uid @ '', account '' @ quoted alias @ '' is user '' @ show_int (the known))
          else map_option (\<lambda>other. ''Telegram user '' @ show_int uid @ '' is already account '' @ quoted other) taken))"

text \<open>
  \<^verbatim>\<open>_save_session_to_db\<close>: one transaction; an exception, such as the unique key on the user id,
  is logged and saves nothing.
\<close>

definition learn_user :: "int \<Rightarrow> account \<Rightarrow> account" where
  "learn_user uid a = (if uid = 0 then a
     else a\<lparr>acc_tg_user_id := or_id (acc_tg_user_id a) (Some uid), acc_external_user_id := or_id (acc_external_user_id a) (Some uid)\<rparr>)"

definition save_session_to_db ::
    "string \<Rightarrow> string \<Rightarrow> int \<Rightarrow> usec \<Rightarrow> account list \<times> session_rows \<Rightarrow> account list \<times> session_rows" where
  "save_session_to_db alias str uid now db =
    (case db of (accs, rows) \<Rightarrow>
      (case account_of_alias accs alias of
         None \<Rightarrow> db
       | Some a \<Rightarrow>
           if acc_external_user_id (learn_user uid a) \<noteq> acc_external_user_id a \<and> id_taken accs a uid then db
           else (update_rows (\<lambda>b. acc_id b = acc_id a) (learn_user uid) accs,
             (case active_row rows (acc_id a) of
                None \<Rightarrow> rows @ [\<lparr>sr_account_id = acc_id a, sr_plaintext = Some str, sr_authorized_at = Some now,
                   sr_last_connected_at = Some now, sr_is_active = True\<rparr>]
              | Some _ \<Rightarrow> update_rows (is_active_of (acc_id a))
                   (\<lambda>r. r\<lparr>sr_plaintext := Some str, sr_authorized_at := Some now, sr_last_connected_at := Some now\<rparr>) rows))))"

definition clear_session_in_db :: "string \<Rightarrow> account list \<Rightarrow> session_rows \<Rightarrow> session_rows" where
  "clear_session_in_db alias accs rows =
    (case account_of_alias accs alias of None \<Rightarrow> rows | Some a \<Rightarrow> deactivate_session rows (acc_id a))"

subsection \<open>Endpoints\<close>

datatype auth_answer = Http nat string | Answer tg_result

record tg_world =
  tw_session :: "tg_session option" \<comment> \<open>the pool's session of the alias\<close>
  tw_accounts :: "account list"
  tw_rows :: session_rows

definition refuse_user :: "string \<Rightarrow> tg_world \<Rightarrow> auth_answer \<times> tg_world" where
  "refuse_user detail w = (Http 409 detail, w\<lparr>tw_session := None\<rparr>)"

definition save_login :: "string \<Rightarrow> int \<times> string \<Rightarrow> usec \<Rightarrow> tg_world \<Rightarrow> tg_world" where
  "save_login alias login now w =
    (if snd login = [] then w
     else (let (accs, rows) = save_session_to_db alias (snd login) (fst login) now (tw_accounts w, tw_rows w)
           in w\<lparr>tw_accounts := accs, tw_rows := rows\<rparr>))"

definition failed_stub :: "string \<Rightarrow> string \<Rightarrow> usec \<Rightarrow> tg_session" where
  "failed_stub alias err now = (new_tg_session alias [] None None)\<lparr>ts_last_error := Some err, ts_last_started_at := Some now\<rparr>"

text \<open>\<^verbatim>\<open>pool.restart\<close>: the object is dropped and a new one loaded and started; None: HTTP 404.\<close>

definition restart_session :: "telethon \<Rightarrow> start_fault \<Rightarrow> usec \<Rightarrow> string \<Rightarrow> tg_world \<Rightarrow> bool \<times> tg_world" where
  "restart_session T fault now alias w =
    (case tg_load_session (tw_accounts w) (tw_rows w) alias of
       None \<Rightarrow> (False, w\<lparr>tw_session := None\<rparr>)
     | Some s \<Rightarrow>
        (case session_start T fault now s of
           (True, s') \<Rightarrow> (True, w\<lparr>tw_session := Some s'\<rparr>)
         | (False, _) \<Rightarrow> (True, w\<lparr>tw_session := Some (failed_stub alias ''start failed'' now)\<rparr>)))"

definition auth_login :: "string \<Rightarrow> string + string \<Rightarrow> tg_session \<Rightarrow> tg_world \<Rightarrow> auth_answer \<times> tg_world" where
  "auth_login alias answer s w =
    (case ts_client s of
       Some c \<Rightarrow>
        if \<not> tc_connected c then (Answer (Raised ''ConnectionError''), w)
        else if tc_user c \<noteq> None then (Http 409 (''Session '' @ quoted alias @ '' is already authorized''), w)
        else (case send_code answer s of (r, s') \<Rightarrow> (Answer r, w\<lparr>tw_session := Some s'\<rparr>))
     | None \<Rightarrow> (case send_code answer s of (r, s') \<Rightarrow> (Answer r, w\<lparr>tw_session := Some s'\<rparr>)))"

definition auth_code ::
    "string \<Rightarrow> sign_in_answer \<Rightarrow> string option \<Rightarrow> sign_in_answer \<Rightarrow> usec \<Rightarrow> tg_session \<Rightarrow> tg_world \<Rightarrow> auth_answer \<times> tg_world" where
  "auth_code alias answer password answer2 now s w =
    (case sign_in answer password answer2 s of
       (Signed_in login, s') \<Rightarrow>
         (let w' = w\<lparr>tw_session := Some s'\<rparr>
          in case require_same_user (tw_accounts w') alias (fst login) of
               Some detail \<Rightarrow> refuse_user detail w'
             | None \<Rightarrow> (Answer (Signed_in login), save_login alias login now w'))
     | (r, s') \<Rightarrow> (Answer r, w\<lparr>tw_session := Some s'\<rparr>))"

definition auth_session ::
    "telethon \<Rightarrow> bool \<Rightarrow> start_fault \<Rightarrow> string \<Rightarrow> string \<Rightarrow> usec \<Rightarrow> tg_session \<Rightarrow> tg_world \<Rightarrow> auth_answer \<times> tg_world" where
  "auth_session T connects fault alias str now s w =
    (case import_session T connects str s of
       (Signed_in login, s') \<Rightarrow>
         (let w' = w\<lparr>tw_session := Some s'\<rparr>
          in case require_same_user (tw_accounts w') alias (fst login) of
               Some detail \<Rightarrow> refuse_user detail w'
             | None \<Rightarrow>
                 (case restart_session T fault now alias (save_login alias login now w') of
                    (True, w'') \<Rightarrow> (Answer (Signed_in login), w'')
                  | (False, w'') \<Rightarrow> (Http 404 (''Session alias '' @ quoted alias @ '' not registered or disabled''), w'')))
     | (r, s') \<Rightarrow> (Answer r, w\<lparr>tw_session := Some s'\<rparr>))"

definition auth_logout :: "string \<Rightarrow> tg_session \<Rightarrow> tg_world \<Rightarrow> auth_answer \<times> tg_world" where
  "auth_logout alias s w =
    (case tg_logout s of
       (Raised err, s') \<Rightarrow> (Answer (Raised err), w\<lparr>tw_session := Some s'\<rparr>)
     | (r, s') \<Rightarrow> (Answer r, w\<lparr>tw_session := None, tw_rows := clear_session_in_db alias (tw_accounts w) (tw_rows w)\<rparr>))"

end
