(* ===== verification/Tg_Pool.thy ===== *)
theory Tg_Pool
  imports Tg_Auth "HOL-Library.AList"
begin

text \<open>
  The pool of Telegram sessions (\<^verbatim>\<open>app/telegram/pool.py\<close>) as interleaved steps: every request is a
  task that stops at its awaits. The lock of an alias is its queue of tasks, the head holds it.
  \<^verbatim>\<open>stop\<close> and \<^verbatim>\<open>import_session\<close> work without that lock. Objects are the session objects ever made.
\<close>

datatype pool_task =
    Want_get
  | Checking            \<comment> \<open>the read of \<^verbatim>\<open>_load_and_start\<close>\<close>
  | Loading             \<comment> \<open>the read of \<^verbatim>\<open>_load_session\<close>\<close>
  | Dialing nat         \<comment> \<open>\<^verbatim>\<open>client.connect()\<close>\<close>
  | Asking nat          \<comment> \<open>connected, the profile is asked for\<close>
  | Want_stop
  | Hanging_up nat      \<comment> \<open>\<^verbatim>\<open>disconnect()\<close> under the lock\<close>

record pool_world =
  pw_objects :: "tg_session list"
  pw_pool :: "(string \<times> nat) list"
  pw_queue :: "string \<Rightarrow> pool_task list"
  pw_stopping :: "(string \<times> nat) list" \<comment> \<open>\<^verbatim>\<open>stop\<close> at its await\<close>
  pw_accounts :: "account list"
  pw_rows :: session_rows

datatype pool_event =
    Gives string nat          \<comment> \<open>\<^verbatim>\<open>get\<close> returns the object\<close>
  | Refuses string            \<comment> \<open>404\<close>
  | Hands_out nat int         \<comment> \<open>\<^verbatim>\<open>require_authorized_client\<close> returns the client of the object, and its user\<close>
  | Attaches nat int          \<comment> \<open>handlers on the object's client, writing to the account\<close>
  | Leaves_connected nat      \<comment> \<open>a start failed after the connection was made\<close>
  | Imports nat
  | Stops_unlocked string bool \<comment> \<open>False: KeyError\<close>
  | Revoked nat               \<comment> \<open>Telegram ended the session\<close>
  | Other

definition pool_running :: "pool_world \<Rightarrow> string \<Rightarrow> nat option" where
  "pool_running w a = (case map_of (pw_pool w) a of
      None \<Rightarrow> None
    | Some i \<Rightarrow> if is_running (pw_objects w ! i) then Some i else None)"

definition set_object :: "nat \<Rightarrow> tg_session \<Rightarrow> pool_world \<Rightarrow> pool_world" where
  "set_object i s w = w\<lparr>pw_objects := (pw_objects w)[i := s]\<rparr>"

definition set_head :: "string \<Rightarrow> pool_task \<Rightarrow> pool_world \<Rightarrow> pool_world" where
  "set_head a t w = w\<lparr>pw_queue := (pw_queue w)(a := t # tl (pw_queue w a))\<rparr>"

definition release_lock :: "string \<Rightarrow> pool_world \<Rightarrow> pool_world" where
  "release_lock a w = w\<lparr>pw_queue := (pw_queue w)(a := tl (pw_queue w a))\<rparr>"

definition enter_pool :: "string \<Rightarrow> nat \<Rightarrow> pool_world \<Rightarrow> pool_world" where
  "enter_pool a i w = w\<lparr>pw_pool := AList.update a i (pw_pool w)\<rparr>"

definition leave_pool :: "string \<Rightarrow> pool_world \<Rightarrow> pool_world" where
  "leave_pool a w = w\<lparr>pw_pool := AList.delete a (pw_pool w)\<rparr>"

definition add_object :: "tg_session \<Rightarrow> pool_world \<Rightarrow> nat \<times> pool_world" where
  "add_object s w = (length (pw_objects w), w\<lparr>pw_objects := pw_objects w @ [s]\<rparr>)"

text \<open>A failed start puts a stub into the pool, which is what \<^verbatim>\<open>get\<close> then returns.\<close>

definition put_stub :: "string \<Rightarrow> string \<Rightarrow> usec \<Rightarrow> pool_world \<Rightarrow> nat \<times> pool_world" where
  "put_stub a err now w = (case add_object (failed_stub a err now) w of (i, w') \<Rightarrow> (i, enter_pool a i w'))"

text \<open>The head after its read of the account and its session.\<close>

definition after_load :: "telethon \<Rightarrow> usec \<Rightarrow> string \<Rightarrow> pool_world \<Rightarrow> pool_event \<times> pool_world" where
  "after_load T now a w =
    (case tg_load_session (pw_accounts w) (pw_rows w) a of
       None \<Rightarrow> (Refuses a, release_lock a w)
     | Some s \<Rightarrow>
        (let str = (case ts_initial_session s of None \<Rightarrow> [] | Some x \<Rightarrow> x) in
         if \<not> tl_api_keys T then
           (case add_object s w of (i, w') \<Rightarrow> (Gives a i, release_lock a (enter_pool a i w')))
         else if \<not> tl_valid T str then
           (case put_stub a ''ValueError'' now w of (i, w') \<Rightarrow> (Gives a i, release_lock a w'))
         else (case add_object (create_client T str s) w of (i, w') \<Rightarrow> (Other, set_head a (Dialing i) w'))))"

definition accounts_later :: "account list \<Rightarrow> account list \<Rightarrow> bool" where
  "accounts_later accs accs' \<longleftrightarrow> (\<forall>i a u. account_by_id accs i = Some a \<and> acc_external_user_id a = Some u \<longrightarrow>
     (\<exists>a'. account_by_id accs' i = Some a' \<and> acc_external_user_id a' = Some u))"

text \<open>
  Requests: \<^verbatim>\<open>get\<close>, \<^verbatim>\<open>stop_alias\<close> and the first half of \<^verbatim>\<open>reload_account\<close> (the second is a
  \<^verbatim>\<open>get\<close>), \<^verbatim>\<open>stop\<close> and the first half of \<^verbatim>\<open>restart\<close>; on an object at hand the identity check,
  the handlers, sign-in, logout, import; and what happens to connections and tables meanwhile.
\<close>

inductive pool_step :: "telethon \<Rightarrow> bool \<Rightarrow> pool_world \<Rightarrow> pool_event \<Rightarrow> pool_world \<Rightarrow> bool" for T new_mode where
  get_fast: "pool_running w a = Some i \<Longrightarrow> pool_step T new_mode w (Gives a i) w"
| get_waits: "pool_running w a = None \<Longrightarrow>
    pool_step T new_mode w Other (w\<lparr>pw_queue := (pw_queue w)(a := pw_queue w a @ [Want_get])\<rparr>)"
| get_again: "\<lbrakk>pw_queue w a = Want_get # q; pool_running w a = Some i\<rbrakk> \<Longrightarrow> pool_step T new_mode w (Gives a i) (release_lock a w)"
| get_reads: "\<lbrakk>pw_queue w a = Want_get # q; pool_running w a = None\<rbrakk> \<Longrightarrow> pool_step T new_mode w Other (set_head a Checking w)"
| get_checked: "\<lbrakk>pw_queue w a = Checking # q; tg_account (pw_accounts w) a \<noteq> None\<rbrakk> \<Longrightarrow>
    pool_step T new_mode w Other (set_head a Loading w)"
| get_unknown: "\<lbrakk>pw_queue w a = Checking # q; tg_account (pw_accounts w) a = None\<rbrakk> \<Longrightarrow>
    pool_step T new_mode w (Refuses a) (release_lock a w)"
| get_loaded: "\<lbrakk>pw_queue w a = Loading # q; after_load T now a w = (ev, w')\<rbrakk> \<Longrightarrow> pool_step T new_mode w ev w'"
| get_connects: "pw_queue w a = Dialing i # q \<Longrightarrow>
    pool_step T new_mode w Other (set_object i (set_connected True (pw_objects w ! i)) (set_head a (Asking i) w))"
| get_not_connected: "\<lbrakk>pw_queue w a = Dialing i # q; put_stub a err now w = (j, w')\<rbrakk> \<Longrightarrow>
    pool_step T new_mode w (Gives a j) (release_lock a w')"
| get_started: "pw_queue w a = Asking i # q \<Longrightarrow>
    pool_step T new_mode w (Gives a i) (release_lock a (enter_pool a i (set_object i (know_self now (pw_objects w ! i)) w)))"
| get_no_profile: "\<lbrakk>pw_queue w a = Asking i # q; put_stub a err now w = (j, w')\<rbrakk> \<Longrightarrow>
    pool_step T new_mode w (Leaves_connected i) (release_lock a w')"
| stop_alias_waits: "pool_step T new_mode w Other (w\<lparr>pw_queue := (pw_queue w)(a := pw_queue w a @ [Want_stop])\<rparr>)"
| stop_alias_none: "\<lbrakk>pw_queue w a = Want_stop # q; map_of (pw_pool w) a = None\<rbrakk> \<Longrightarrow> pool_step T new_mode w Other (release_lock a w)"
| stop_alias_begins: "\<lbrakk>pw_queue w a = Want_stop # q; map_of (pw_pool w) a = Some i\<rbrakk> \<Longrightarrow>
    pool_step T new_mode w Other (set_head a (Hanging_up i) w)"
| stop_alias_ends: "pw_queue w a = Hanging_up i # q \<Longrightarrow>
    pool_step T new_mode w Other (release_lock a (leave_pool a (set_object i (session_stop (pw_objects w ! i)) w)))"
| stop_begins: "map_of (pw_pool w) a = Some i \<Longrightarrow> pool_step T new_mode w Other (w\<lparr>pw_stopping := (a, i) # pw_stopping w\<rparr>)"
| stop_disconnects: "(a, i) \<in> set (pw_stopping w) \<Longrightarrow>
    pool_step T new_mode w Other (set_object i (session_stop (pw_objects w ! i)) w)"
| stop_ends: "\<lbrakk>(a, i) \<in> set (pw_stopping w); map_of (pw_pool w) a = Some j\<rbrakk> \<Longrightarrow>
    pool_step T new_mode w (Stops_unlocked a True) (leave_pool a (w\<lparr>pw_stopping := remove1 (a, i) (pw_stopping w)\<rparr>))"
| stop_fails: "\<lbrakk>(a, i) \<in> set (pw_stopping w); map_of (pw_pool w) a = None\<rbrakk> \<Longrightarrow>
    pool_step T new_mode w (Stops_unlocked a False) (w\<lparr>pw_stopping := remove1 (a, i) (pw_stopping w)\<rparr>)"
| client_asked: "\<lbrakk>i < length (pw_objects w); require_client new_mode (pw_objects w ! i) (pw_accounts w) = (r, s, accs)\<rbrakk> \<Longrightarrow>
    pool_step T new_mode w (case r of Client u \<Rightarrow> Hands_out i u | _ \<Rightarrow> Other) (set_object i s (w\<lparr>pw_accounts := accs\<rparr>))"
| handlers_asked: "\<lbrakk>i < length (pw_objects w); is_running (pw_objects w ! i); client_user (pw_objects w ! i) \<noteq> None;
    attach_handlers new_mode (pw_objects w ! i) (pw_accounts w) = (r, s, accs)\<rbrakk> \<Longrightarrow>
    pool_step T new_mode w (case r of For_account acc \<Rightarrow> Attaches i acc | _ \<Rightarrow> Other) (set_object i s (w\<lparr>pw_accounts := accs\<rparr>))"
| code_sent: "\<lbrakk>i < length (pw_objects w); send_code answer (pw_objects w ! i) = (r, s)\<rbrakk> \<Longrightarrow>
    pool_step T new_mode w Other (set_object i s w)"
| signed_in: "\<lbrakk>i < length (pw_objects w); is_running (pw_objects w ! i);
    \<forall>u str. answer = Accepted u str \<or> answer2 = Accepted u str \<longrightarrow> client_user (pw_objects w ! i) \<in> {None, Some u};
    sign_in answer password answer2 (pw_objects w ! i) = (r, s)\<rbrakk> \<Longrightarrow> pool_step T new_mode w Other (set_object i s w)"
| logged_out: "\<lbrakk>i < length (pw_objects w); tg_logout (pw_objects w ! i) = (r, s)\<rbrakk> \<Longrightarrow> pool_step T new_mode w Other (set_object i s w)"
| imported: "\<lbrakk>i < length (pw_objects w); import_session T connects str (pw_objects w ! i) = (r, s)\<rbrakk> \<Longrightarrow>
    pool_step T new_mode w (Imports i) (set_object i s w)"
| revoked: "\<lbrakk>i < length (pw_objects w); ts_client (pw_objects w ! i) = Some c\<rbrakk> \<Longrightarrow>
    pool_step T new_mode w (Revoked i) (set_object i ((pw_objects w ! i)\<lparr>ts_client := Some (c\<lparr>tc_user := None\<rparr>)\<rparr>) w)"
| lost: "i < length (pw_objects w) \<Longrightarrow> pool_step T new_mode w Other (set_object i (set_connected False (pw_objects w ! i)) w)"
| tables: "accounts_later (pw_accounts w) accs \<Longrightarrow> pool_step T new_mode w Other (w\<lparr>pw_accounts := accs, pw_rows := rows\<rparr>)"

inductive_cases pool_stepE: "pool_step T new_mode w ev w'"

subsection \<open>Start and shutdown of the service\<close>

text \<open>
  \<^verbatim>\<open>start_all\<close> runs before the first request, one \<^verbatim>\<open>_start_one\<close> per enabled account, and
  \<^verbatim>\<open>fault\<close> tells how the start of an alias ends.
\<close>

definition start_one :: "telethon \<Rightarrow> (string \<Rightarrow> start_fault) \<Rightarrow> usec \<Rightarrow> string \<Rightarrow> pool_world \<Rightarrow> pool_world" where
  "start_one T fault now a w =
    (case tg_load_session (pw_accounts w) (pw_rows w) a of
       None \<Rightarrow> w
     | Some s \<Rightarrow>
        (case session_start T (fault a) now s of
           (ok, s') \<Rightarrow>
            (case add_object s' w of
               (i, w') \<Rightarrow> if ok then enter_pool a i w' else snd (put_stub a ''start failed'' now w'))))"

definition empty_pool :: "account list \<Rightarrow> session_rows \<Rightarrow> pool_world" where
  "empty_pool accs rows = \<lparr>pw_objects = [], pw_pool = [], pw_queue = (\<lambda>_. []), pw_stopping = [], pw_accounts = accs, pw_rows = rows\<rparr>"

definition start_all :: "telethon \<Rightarrow> (string \<Rightarrow> start_fault) \<Rightarrow> usec \<Rightarrow> account list \<Rightarrow> session_rows \<Rightarrow> pool_world" where
  "start_all T fault now accs rows =
    fold (start_one T fault now) (map acc_alias (filter (\<lambda>a. acc_is_enabled a \<and> acc_platform a = ''telegram'') accs))
      (empty_pool accs rows)"

definition stop_all :: "pool_world \<Rightarrow> pool_world" where
  "stop_all w = (fold (\<lambda>(a, i). set_object i (session_stop (pw_objects w ! i))) (pw_pool w) w)\<lparr>pw_pool := []\<rparr>"

definition pool_status :: "pool_world \<Rightarrow> (string \<times> bool \<times> string option \<times> usec option) list" where
  "pool_status w = map (\<lambda>(a, i). (a, is_running (pw_objects w ! i), ts_last_error (pw_objects w ! i),
     ts_last_started_at (pw_objects w ! i))) (pw_pool w)"

end
