(* ===== verification/Tg_Pool_Facts.thy ===== *)
theory Tg_Pool_Facts
  imports Tg_Pool Max_Session_Facts
begin

text \<open>
  Facts on the pool of Telegram sessions: what the lock of an alias keeps of the connections, what
  the identity check keeps of the users, and the tables behind a login.
\<close>

subsection \<open>The lock of an alias\<close>

definition waits :: "pool_task \<Rightarrow> bool" where
  "waits t \<longleftrightarrow> t = Want_get \<or> t = Want_stop"

definition starts :: "pool_task \<Rightarrow> bool" where
  "starts t \<longleftrightarrow> t = Checking \<or> t = Loading \<or> (\<exists>i. t = Dialing i \<or> t = Asking i)"

definition off_at :: "tg_session list \<Rightarrow> (string \<Rightarrow> nat option) \<Rightarrow> string \<Rightarrow> bool" where
  "off_at objs m a \<longleftrightarrow> (\<forall>i. m a = Some i \<longrightarrow> \<not> is_running (objs ! i))"

text \<open>
  The pool knows objects of its alias; a running object is in the pool or being started by the
  owner of the lock; only the owner is past its wait, and while it starts an object the pool has
  none that runs.
\<close>

definition lock_ok :: "tg_session list \<Rightarrow> (string \<Rightarrow> nat option) \<Rightarrow> (string \<Rightarrow> pool_task list) \<Rightarrow> bool" where
  "lock_ok objs m q \<longleftrightarrow>
     (\<forall>a i. m a = Some i \<longrightarrow> i < length objs \<and> ts_alias (objs ! i) = a) \<and>
     (\<forall>i < length objs. is_running (objs ! i) \<longrightarrow>
        m (ts_alias (objs ! i)) = Some i \<or> (\<exists>r. q (ts_alias (objs ! i)) = Asking i # r)) \<and>
     (\<forall>a. list_all waits (tl (q a))) \<and>
     (\<forall>a t r. q a = t # r \<longrightarrow> starts t \<longrightarrow> off_at objs m a) \<and>
     (\<forall>a i r. q a = Dialing i # r \<or> q a = Asking i # r \<longrightarrow> i < length objs \<and> ts_alias (objs ! i) = a \<and> m a \<noteq> Some i) \<and>
     (\<forall>a i r. q a = Hanging_up i # r \<longrightarrow> m a = Some i)"

lemma lock_okI:
  assumes "\<And>a i. m a = Some i \<Longrightarrow> i < length objs \<and> ts_alias (objs ! i) = a"
    "\<And>i. i < length objs \<Longrightarrow> is_running (objs ! i) \<Longrightarrow>
        m (ts_alias (objs ! i)) = Some i \<or> (\<exists>r. q (ts_alias (objs ! i)) = Asking i # r)"
    "\<And>a. list_all waits (tl (q a))" "\<And>a t r. q a = t # r \<Longrightarrow> starts t \<Longrightarrow> off_at objs m a"
    "\<And>a i r. q a = Dialing i # r \<or> q a = Asking i # r \<Longrightarrow> i < length objs \<and> ts_alias (objs ! i) = a \<and> m a \<noteq> Some i"
    "\<And>a i r. q a = Hanging_up i # r \<Longrightarrow> m a = Some i"
  shows "lock_ok objs m q"
  unfolding lock_ok_def using assms by blast

lemma lock_okD:
  assumes "lock_ok objs m q"
  shows "m a = Some i \<Longrightarrow> i < length objs \<and> ts_alias (objs ! i) = a"
    "i < length objs \<Longrightarrow> is_running (objs ! i) \<Longrightarrow>
        m (ts_alias (objs ! i)) = Some i \<or> (\<exists>r. q (ts_alias (objs ! i)) = Asking i # r)"
    "list_all waits (tl (q a))" "q a = t # r \<Longrightarrow> starts t \<Longrightarrow> off_at objs m a"
    "q a = Dialing i # r \<or> q a = Asking i # r \<Longrightarrow> i < length objs \<and> ts_alias (objs ! i) = a \<and> m a \<noteq> Some i"
    "q a = Hanging_up i # r \<Longrightarrow> m a = Some i"
  using assms unfolding lock_ok_def by blast+

lemma waits_simps [simp]: "waits Want_get" "waits Want_stop" "\<not> starts Want_get" "\<not> starts Want_stop"
    "starts Checking" "starts Loading" "starts (Dialing i)" "starts (Asking i)" "\<not> starts (Hanging_up i)"
  by (auto simp: waits_def starts_def)

text \<open>An object changes without starting to run.\<close>

lemma lock_ok_object:
  assumes l: "lock_ok objs m q" and i: "i < length objs" "ts_alias s = ts_alias (objs ! i)" "is_running s \<Longrightarrow> is_running (objs ! i)"
  shows "lock_ok (objs[i := s]) m q"
proof (rule lock_okI)
  have nth: "objs[i := s] ! j = (if j = i then s else objs ! j)" if "j < length objs" for j using that by simp
  note D = lock_okD [OF l]
  show "k < length (objs[i := s]) \<and> ts_alias (objs[i := s] ! k) = a" if "m a = Some k" for a k
    using D(1) [OF that] i by (auto simp: nth_list_update)
  show "m (ts_alias (objs[i := s] ! k)) = Some k \<or> (\<exists>r. q (ts_alias (objs[i := s] ! k)) = Asking k # r)"
    if "k < length (objs[i := s])" "is_running (objs[i := s] ! k)" for k
    using D(2) [of k] that i nth [of k] by (cases "k = i") auto
  show "list_all waits (tl (q a))" for a by (rule D(3))
  show "off_at (objs[i := s]) m a" if "q a = t # r" "starts t" for a t r
    using D(4) [OF that] D(1) nth i(3) unfolding off_at_def by (metis (full_types))
  show "k < length (objs[i := s]) \<and> ts_alias (objs[i := s] ! k) = a \<and> m a \<noteq> Some k"
    if "q a = Dialing k # r \<or> q a = Asking k # r" for a k r using D(5) [OF that] i(1,2) by (auto simp: nth_list_update)
  show "m a = Some k" if "q a = Hanging_up k # r" for a k r by (rule D(6) [OF that])
qed

lemma lock_ok_add:
  assumes l: "lock_ok objs m q" and "\<not> is_running s"
  shows "lock_ok (objs @ [s]) m q"
proof (rule lock_okI)
  note D = lock_okD [OF l]
  show "k < length (objs @ [s]) \<and> ts_alias ((objs @ [s]) ! k) = a" if "m a = Some k" for a k
    using D(1) [OF that] by (auto simp: nth_append)
  show "m (ts_alias ((objs @ [s]) ! k)) = Some k \<or> (\<exists>r. q (ts_alias ((objs @ [s]) ! k)) = Asking k # r)"
    if "k < length (objs @ [s])" "is_running ((objs @ [s]) ! k)" for k
    using D(2) [of k] that assms(2) by (auto simp: nth_append split: if_splits)
  show "list_all waits (tl (q a))" for a by (rule D(3))
  show "off_at (objs @ [s]) m a" if "q a = t # r" "starts t" for a t r
    using D(4) [OF that] D(1) unfolding off_at_def by (auto simp: nth_append)
  show "k < length (objs @ [s]) \<and> ts_alias ((objs @ [s]) ! k) = a \<and> m a \<noteq> Some k"
    if "q a = Dialing k # r \<or> q a = Asking k # r" for a k r using D(5) [OF that] by (auto simp: nth_append)
  show "m a = Some k" if "q a = Hanging_up k # r" for a k r by (rule D(6) [OF that])
qed

text \<open>The queue of an alias changes: its new head is waiting, or fits the pool.\<close>

lemma lock_ok_queue:
  assumes l: "lock_ok objs m q" and w: "list_all waits (tl xs)"
    and lost: "\<And>i r. q a = Asking i # r \<Longrightarrow> \<exists>r. xs = Asking i # r"
    and starts: "\<And>t r. xs = t # r \<Longrightarrow> starts t \<Longrightarrow> off_at objs m a"
    and obj: "\<And>i r. xs = Dialing i # r \<or> xs = Asking i # r \<Longrightarrow> i < length objs \<and> ts_alias (objs ! i) = a \<and> m a \<noteq> Some i"
    and hang: "\<And>i r. xs = Hanging_up i # r \<Longrightarrow> m a = Some i"
  shows "lock_ok objs m (q(a := xs))"
proof (rule lock_okI)
  note D = lock_okD [OF l]
  show "k < length objs \<and> ts_alias (objs ! k) = b" if "m b = Some k" for b k by (rule D(1) [OF that])
  show "m (ts_alias (objs ! k)) = Some k \<or> (\<exists>r. (q(a := xs)) (ts_alias (objs ! k)) = Asking k # r)"
    if "k < length objs" "is_running (objs ! k)" for k using D(2) [OF that] lost by auto
  show "list_all waits (tl ((q(a := xs)) b))" for b using D(3) [of b] w by simp
  show "off_at objs m b" if "(q(a := xs)) b = t # r" "starts t" for b t r
    using that starts D(4) by (cases "b = a") auto
  show "k < length objs \<and> ts_alias (objs ! k) = b \<and> m b \<noteq> Some k"
    if "(q(a := xs)) b = Dialing k # r \<or> (q(a := xs)) b = Asking k # r" for b k r
  proof (cases "b = a")
    case True
    then show ?thesis using that obj by auto
  next
    case False
    then show ?thesis using that D(5) [of b k r] by auto
  qed
  show "m b = Some k" if "(q(a := xs)) b = Hanging_up k # r" for b k r
    using that hang D(6) by (cases "b = a") auto
qed

lemma waiting_head: "list_all waits q \<Longrightarrow> q = t # r \<Longrightarrow> waits t"
  by simp

lemma waits_not: "\<not> waits (Asking i)" "\<not> waits (Dialing i)" "\<not> waits (Hanging_up i)" "waits t \<Longrightarrow> \<not> starts t"
  by (auto simp: waits_def)

lemma lock_ok_enqueue:
  assumes l: "lock_ok objs m q" and t: "waits t"
  shows "lock_ok objs m (q(a := q a @ [t]))"
proof (rule lock_ok_queue [OF l])
  note D = lock_okD [OF l]
  show "list_all waits (tl (q a @ [t]))" using D(3) [of a] t by (cases "q a") auto
  show "\<exists>r. q a @ [t] = Asking i # r" if "q a = Asking i # r" for i r using that by simp
  show "off_at objs m a" if "q a @ [t] = x # r" "starts x" for x r
    using that D(4) [of a x] waits_not(4) [OF t] by (cases "q a") auto
  show "i < length objs \<and> ts_alias (objs ! i) = a \<and> m a \<noteq> Some i" if "q a @ [t] = Dialing i # r \<or> q a @ [t] = Asking i # r" for i r
    using that D(5) [of a i] waits_not t by (cases "q a") auto
  show "m a = Some i" if "q a @ [t] = Hanging_up i # r" for i r
    using that D(6) [of a i] waits_not t by (cases "q a") auto
qed

text \<open>The owner leaves, or goes on.\<close>

lemma lock_ok_release:
  assumes l: "lock_ok objs m q" and t: "q a = t # r" "\<forall>i. t \<noteq> Asking i"
  shows "lock_ok objs m (q(a := tl (q a)))"
proof (rule lock_ok_queue [OF l])
  have w: "list_all waits (tl (q a))" by (rule lock_okD(3) [OF l])
  then show "list_all waits (tl (tl (q a)))" by (cases "tl (q a)") auto
  show "\<exists>r. tl (q a) = Asking i # r" if "q a = Asking i # r" for i r using that t by simp
  note n = waits_not
  show "off_at objs m a" if "tl (q a) = x # r" "starts x" for x r using w that n(4) by auto
  show "i < length objs \<and> ts_alias (objs ! i) = a \<and> m a \<noteq> Some i" if "tl (q a) = Dialing i # r \<or> tl (q a) = Asking i # r" for i r
    using w that n by auto
  show "m a = Some i" if "tl (q a) = Hanging_up i # r" for i r using w that n by auto
qed

lemma lock_ok_head:
  assumes l: "lock_ok objs m q" and t: "q a = t # r" "\<forall>i. t \<noteq> Asking i"
    and s: "starts u \<Longrightarrow> off_at objs m a"
    and o: "\<And>i. u = Dialing i \<or> u = Asking i \<Longrightarrow> i < length objs \<and> ts_alias (objs ! i) = a \<and> m a \<noteq> Some i"
    and h: "\<And>i. u = Hanging_up i \<Longrightarrow> m a = Some i"
  shows "lock_ok objs m (q(a := u # tl (q a)))"
  by (rule lock_ok_queue [OF l]) (use lock_okD(3) [OF l, of a] t s o h in auto)

text \<open>What a step does to the pool itself.\<close>

lemma lock_ok_connect:
  assumes l: "lock_ok objs m q" and d: "q a = Dialing i # r" and s: "ts_alias s = ts_alias (objs ! i)"
  shows "lock_ok (objs[i := s]) m (q(a := Asking i # tl (q a)))"
proof -
  have i: "i < length objs" "ts_alias (objs ! i) = a" "m a \<noteq> Some i" using lock_okD(5) [OF l, of a i r] d by auto
  have off: "off_at objs m a" using lock_okD(4) [OF l d] by simp
  have l': "lock_ok objs m (q(a := Asking i # tl (q a)))" (is "lock_ok _ _ ?q")
    by (rule lock_ok_head [OF l d]) (use off i in simp_all)
  note D = lock_okD [OF l']
  show ?thesis
  proof (rule lock_okI)
    show "k < length (objs[i := s]) \<and> ts_alias (objs[i := s] ! k) = b" if "m b = Some k" for b k
      using D(1) [OF that] s i(1) by (auto simp: nth_list_update)
    show "m (ts_alias (objs[i := s] ! k)) = Some k \<or> (\<exists>r. ?q (ts_alias (objs[i := s] ! k)) = Asking k # r)"
      if "k < length (objs[i := s])" "is_running (objs[i := s] ! k)" for k
    proof (cases "k = i")
      case True
      then show ?thesis using i s by simp
    next
      case False
      then show ?thesis using D(2) [of k] that by simp
    qed
    show "list_all waits (tl (?q b))" for b by (rule D(3))
    show "off_at (objs[i := s]) m b" if q: "?q b = t # r" "starts t" for b t r
    proof -
      have "m b \<noteq> Some i" using i D(1) [of b i] by auto
      then show ?thesis using D(4) [OF q] by (auto simp: off_at_def nth_list_update)
    qed
    show "k < length (objs[i := s]) \<and> ts_alias (objs[i := s] ! k) = b \<and> m b \<noteq> Some k"
      if "?q b = Dialing k # r \<or> ?q b = Asking k # r" for b k r using D(5) [OF that] s i(1) by (auto simp: nth_list_update)
    show "m b = Some k" if "?q b = Hanging_up k # r" for b k r by (rule D(6) [OF that])
  qed
qed

text \<open>An object of the alias enters the pool as the owner leaves; none else runs.\<close>

lemma lock_ok_enter:
  assumes l: "lock_ok objs m q" and h: "q a = t # r" "starts t" and i: "i < length objs" "ts_alias (objs ! i) = a"
    and only: "\<And>j. t = Asking j \<Longrightarrow> j = i \<or> \<not> is_running (objs ! j)"
  shows "lock_ok objs (m(a := Some i)) (q(a := tl (q a)))"
proof (rule lock_okI)
  note D = lock_okD [OF l]
  have off: "off_at objs m a" by (rule D(4) [OF h])
  have w: "list_all waits (tl (q a))" by (rule D(3))
  note n = waits_not
  have head: "P" if "(q(a := tl (q a))) a = x # r" "\<not> waits x" for x r P using w that by auto
  show "k < length objs \<and> ts_alias (objs ! k) = b" if "(m(a := Some i)) b = Some k" for b k
    using that D(1) [of b k] i by (auto split: if_splits)
  show "(m(a := Some i)) (ts_alias (objs ! k)) = Some k \<or> (\<exists>r. (q(a := tl (q a))) (ts_alias (objs ! k)) = Asking k # r)"
    if k: "k < length objs" "is_running (objs ! k)" for k
  proof (cases "ts_alias (objs ! k) = a")
    case True
    then have "m a \<noteq> Some k" using off k(2) by (auto simp: off_at_def)
    then have "t = Asking k" using D(2) [OF k] True h(1) by auto
    then show ?thesis using only k(2) True by auto
  next
    case False
    then show ?thesis using D(2) [OF k] by auto
  qed
  show "list_all waits (tl ((q(a := tl (q a))) b))" for b
    using D(3) [of b] w by (cases "tl (q a)") auto
  show "off_at objs (m(a := Some i)) b" if "(q(a := tl (q a))) b = x # r" "starts x" for b x r
    using that D(4) [of b x r] w n(4) by (cases "b = a") (auto simp: off_at_def)
  show "k < length objs \<and> ts_alias (objs ! k) = b \<and> (m(a := Some i)) b \<noteq> Some k"
    if "(q(a := tl (q a))) b = Dialing k # r \<or> (q(a := tl (q a))) b = Asking k # r" for b k r
    using that D(5) [of b k r] w n by (cases "b = a") auto
  show "(m(a := Some i)) b = Some k" if "(q(a := tl (q a))) b = Hanging_up k # r" for b k r
    using that D(6) [of b k r] w n by (cases "b = a") auto
qed

lemma lock_ok_hang_up:
  assumes l: "lock_ok objs m q" and h: "q a = Hanging_up i # r"
    and s: "ts_alias s = ts_alias (objs ! i)" "\<not> is_running s"
  shows "lock_ok (objs[i := s]) (m(a := None)) (q(a := tl (q a)))"
proof -
  have i: "m a = Some i" "i < length objs" "ts_alias (objs ! i) = a" using lock_okD(6) [OF l h] lock_okD(1) [OF l] by auto
  have l1: "lock_ok (objs[i := s]) m q" by (rule lock_ok_object [OF l i(2) s(1)]) (use s in simp)
  have l2: "lock_ok (objs[i := s]) m (q(a := tl (q a)))" (is "lock_ok ?o _ ?q") by (rule lock_ok_release [OF l1 h]) simp
  note D = lock_okD [OF l2]
  have w: "list_all waits (tl (q a))" by (rule lock_okD(3) [OF l])
  show ?thesis
  proof (rule lock_okI)
    show "k < length ?o \<and> ts_alias (?o ! k) = b" if "(m(a := None)) b = Some k" for b k
      using that D(1) [of b k] by (auto split: if_splits)
    show "(m(a := None)) (ts_alias (?o ! k)) = Some k \<or> (\<exists>r. ?q (ts_alias (?o ! k)) = Asking k # r)"
      if k: "k < length ?o" "is_running (?o ! k)" for k
    proof -
      have "k \<noteq> i" using k(2) s(2) i(2) by auto
      then have "m (ts_alias (?o ! k)) = Some k \<Longrightarrow> ts_alias (?o ! k) \<noteq> a" using i(1) by auto
      then show ?thesis using D(2) [OF k] by auto
    qed
    show "list_all waits (tl (?q b))" for b by (rule D(3))
    show "off_at ?o (m(a := None)) b" if "?q b = t # r" "starts t" for b t r
      using D(4) [OF that] by (auto simp: off_at_def)
    show "k < length ?o \<and> ts_alias (?o ! k) = b \<and> (m(a := None)) b \<noteq> Some k"
      if "?q b = Dialing k # r \<or> ?q b = Asking k # r" for b k r using D(5) [OF that] by auto
    show "(m(a := None)) b = Some k" if "?q b = Hanging_up k # r" for b k r
      using D(6) [OF that] that w waits_not by (cases "b = a") auto
  qed
qed

subsection \<open>Objects\<close>

lemma set_connected_simps [simp]:
  "ts_alias (set_connected b s) = ts_alias s" "is_running (set_connected False s) = False"
  "client_user (set_connected b s) = client_user s" "ts_me_id (set_connected b s) = ts_me_id s"
  "ts_identity_ok (set_connected b s) = ts_identity_ok s" "ts_account_id (set_connected b s) = ts_account_id s"
  by (auto simp: set_connected_def is_running_def client_user_def split: option.split)

lemma know_self_simps [simp]:
  "ts_alias (know_self now s) = ts_alias s" "is_running (know_self now s) = is_running s"
  "client_user (know_self now s) = client_user s" "ts_identity_ok (know_self now s) = ts_identity_ok s"
  "ts_account_id (know_self now s) = ts_account_id s"
  by (auto simp: know_self_def is_running_def client_user_def)

lemma create_client_simps [simp]:
  "ts_alias (create_client T str s) = ts_alias s" "is_running (create_client T str s) = False"
  "client_user (create_client T str s) = tl_owner T str" "ts_me_id (create_client T str s) = ts_me_id s"
  "ts_identity_ok (create_client T str s) = ts_identity_ok s" "ts_account_id (create_client T str s) = ts_account_id s"
  by (simp_all add: create_client_def is_running_def client_user_def)

lemma new_session_simps [simp]:
  "ts_alias (new_tg_session a p str acc) = a" "is_running (new_tg_session a p str acc) = False"
  "ts_initial_session (new_tg_session a p str acc) = str" "ts_me_id (new_tg_session a p str acc) = None"
  "ts_identity_ok (new_tg_session a p str acc) = None" "ts_account_id (new_tg_session a p str acc) = acc"
  "client_user (new_tg_session a p str acc) = None" "ts_client (new_tg_session a p str acc) = None"
  by (simp_all add: new_tg_session_def is_running_def client_user_def)

lemma stub_simps [simp]: "ts_alias (failed_stub a err now) = a" "is_running (failed_stub a err now) = False"
    "ts_identity_ok (failed_stub a err now) = None" "ts_me_id (failed_stub a err now) = None"
  by (simp_all add: failed_stub_def is_running_def new_tg_session_def)

lemma loaded_session:
  "tg_load_session accs rows a = Some s \<Longrightarrow> ts_alias s = a \<and> \<not> is_running s \<and> ts_identity_ok s = None \<and> ts_me_id s = None"
  by (auto simp: tg_load_session_def)

lemma confirm_identity_keeps:
  "confirm_identity new_mode s accs = (r, s', accs') \<Longrightarrow> ts_alias s' = ts_alias s \<and> ts_client s' = ts_client s \<and> ts_account_id s' = ts_account_id s"
  by (auto simp: confirm_identity_def identity_mismatch_def split: if_splits option.splits sum.splits)

lemma require_client_keeps:
  "require_client new_mode s accs = (r, s', accs') \<Longrightarrow> ts_alias s' = ts_alias s \<and> ts_client s' = ts_client s \<and> ts_account_id s' = ts_account_id s"
  using confirm_identity_keeps [of new_mode s accs]
  by (fastforce simp: require_client_def split: option.splits if_splits prod.splits bool.splits)

lemma attach_handlers_keeps:
  "attach_handlers new_mode s accs = (r, s', accs') \<Longrightarrow> ts_alias s' = ts_alias s \<and> ts_client s' = ts_client s \<and> ts_account_id s' = ts_account_id s"
  using confirm_identity_keeps [of new_mode s accs]
  by (fastforce simp: attach_handlers_def split: option.splits if_splits prod.splits)

lemma send_code_keeps: "send_code answer s = (r, s') \<Longrightarrow> ts_alias s' = ts_alias s \<and> ts_client s' = ts_client s \<and>
    ts_account_id s' = ts_account_id s \<and> ts_me_id s' = ts_me_id s \<and> ts_identity_ok s' = ts_identity_ok s"
  by (auto simp: send_code_def split: option.splits sum.splits)

lemma sign_in_keeps: "sign_in x p y s = (r, s') \<Longrightarrow> ts_alias s' = ts_alias s \<and> is_running s' = is_running s \<and>
    ts_account_id s' = ts_account_id s \<and> ts_me_id s' = ts_me_id s \<and> ts_identity_ok s' = ts_identity_ok s \<and>
    (client_user s' = client_user s \<or> (\<exists>u str. x = Accepted u str \<and> client_user s' = Some u) \<or>
      (\<exists>u str. y = Accepted u str \<and> client_user s' = Some u))"
  by (auto simp: sign_in_def Let_def is_running_def client_user_def split: option.splits sign_in_answer.splits if_splits)

lemma tg_logout_keeps: "tg_logout s = (r, s') \<Longrightarrow> ts_alias s' = ts_alias s \<and> (is_running s' \<longrightarrow> s' = s) \<and>
    ts_account_id s' = ts_account_id s \<and> ts_me_id s' = ts_me_id s \<and> ts_identity_ok s' = ts_identity_ok s"
  by (auto simp: tg_logout_def is_running_def split: option.splits if_splits)

lemma same_client_running: "ts_client s' = ts_client s \<Longrightarrow> is_running s' = is_running s \<and> client_user s' = client_user s"
  by (simp add: is_running_def client_user_def)

subsection \<open>Steps under the lock\<close>

definition orderly :: "pool_event \<Rightarrow> bool" where
  "orderly ev \<longleftrightarrow> (case ev of Leaves_connected _ \<Rightarrow> False | Stops_unlocked _ _ \<Rightarrow> False | Imports _ \<Rightarrow> False | _ \<Rightarrow> True)"

definition pool_ok :: "pool_world \<Rightarrow> bool" where
  "pool_ok w \<longleftrightarrow> lock_ok (pw_objects w) (map_of (pw_pool w)) (pw_queue w)"

lemma pool_running_off: "pool_running w a = None \<longleftrightarrow> off_at (pw_objects w) (map_of (pw_pool w)) a"
  by (auto simp: pool_running_def off_at_def split: option.split)

lemma pool_ok_object:
  assumes "pool_ok w" "i < length (pw_objects w)" "ts_alias s = ts_alias (pw_objects w ! i)"
    "is_running s \<Longrightarrow> is_running (pw_objects w ! i)"
    "pw_objects w' = (pw_objects w)[i := s]" "pw_pool w' = pw_pool w" "pw_queue w' = pw_queue w"
  shows "pool_ok w'"
  unfolding pool_ok_def assms(5-7) by (rule lock_ok_object) (use assms(1-4) in \<open>auto simp: pool_ok_def\<close>)

lemma head_goes_on:
  assumes "pool_ok w" "pw_queue w a = t # r" "\<forall>i. t \<noteq> Asking i"
    and "starts u \<Longrightarrow> off_at (pw_objects w) (map_of (pw_pool w)) a"
    and "\<And>i. u \<noteq> Dialing i \<and> u \<noteq> Asking i" "\<And>i. u = Hanging_up i \<Longrightarrow> map_of (pw_pool w) a = Some i"
  shows "pool_ok (set_head a u w)"
proof -
  have l: "lock_ok (pw_objects w) (map_of (pw_pool w)) (pw_queue w)" using assms(1) by (simp add: pool_ok_def)
  have "lock_ok (pw_objects w) (map_of (pw_pool w)) ((pw_queue w)(a := u # tl (pw_queue w a)))"
    by (rule lock_ok_head [OF l assms(2,3)]) (use assms(4-6) in blast)+
  then show ?thesis by (simp add: pool_ok_def set_head_def)
qed

lemma stub_enters:
  assumes ok: "pool_ok w" and q: "pw_queue w a = t # r" "starts t" "\<And>j. t \<noteq> Asking j" and s: "put_stub a err now w = (j, w')"
  shows "pool_ok (release_lock a w')"
proof -
  have w': "w' = w\<lparr>pw_objects := pw_objects w @ [failed_stub a err now], pw_pool := AList.update a (length (pw_objects w)) (pw_pool w)\<rparr>"
    using s by (auto simp: put_stub_def add_object_def enter_pool_def)
  have l: "lock_ok (pw_objects w @ [failed_stub a err now]) (map_of (pw_pool w)) (pw_queue w)"
    by (rule lock_ok_add) (use ok in \<open>simp_all add: pool_ok_def\<close>)
  show ?thesis unfolding pool_ok_def w' release_lock_def
    using lock_ok_enter [OF l q(1,2), of "length (pw_objects w)"] q(3) by (simp add: update_conv')
qed

lemma after_load_ok:
  assumes ok: "pool_ok w" and q: "pw_queue w a = Loading # r" and s: "after_load T now a w = (ev, w')"
  shows "pool_ok w'"
proof -
  have rel: "pool_ok (release_lock a w)" using ok unfolding pool_ok_def release_lock_def by (simp add: lock_ok_release [where q = "pw_queue w", OF _ q])
  show ?thesis
  proof (cases "tg_load_session (pw_accounts w) (pw_rows w) a")
    case None
    then show ?thesis using s rel by (simp add: after_load_def)
  next
    case (Some x)
    note x = loaded_session [OF Some]
    let ?str = "case ts_initial_session x of None \<Rightarrow> [] | Some y \<Rightarrow> y" and ?n = "length (pw_objects w)"
    consider "\<not> tl_api_keys T" | "tl_api_keys T" "\<not> tl_valid T ?str" | "tl_api_keys T" "tl_valid T ?str" by blast
    then show ?thesis
    proof cases
      case 1
      then have w': "w' = release_lock a (enter_pool a ?n (w\<lparr>pw_objects := pw_objects w @ [x]\<rparr>))"
        using s Some by (simp add: after_load_def add_object_def)
      have l: "lock_ok (pw_objects w @ [x]) (map_of (pw_pool w)) (pw_queue w)"
        by (rule lock_ok_add) (use ok x in \<open>simp_all add: pool_ok_def\<close>)
      show ?thesis using lock_ok_enter [OF l q, of ?n] x
        by (simp add: w' pool_ok_def release_lock_def enter_pool_def update_conv')
    next
      case 2
      then show ?thesis using s Some stub_enters [OF ok q, of "''ValueError''" now] by (auto simp: after_load_def Let_def split: prod.splits)
    next
      case 3
      let ?s = "create_client T ?str x"
      have w': "w' = set_head a (Dialing ?n) (w\<lparr>pw_objects := pw_objects w @ [?s]\<rparr>)"
        using 3 s Some by (simp add: after_load_def add_object_def Let_def)
      have l: "lock_ok (pw_objects w @ [?s]) (map_of (pw_pool w)) (pw_queue w)"
        by (rule lock_ok_add) (use ok in \<open>simp_all add: pool_ok_def\<close>)
      have "off_at (pw_objects w @ [?s]) (map_of (pw_pool w)) a" using lock_okD(4) [OF l q] by simp
      moreover have "map_of (pw_pool w) a \<noteq> Some ?n" using lock_okD(1) [OF ok [unfolded pool_ok_def], of a ?n] by auto
      ultimately show ?thesis using lock_ok_head [OF l q, of "Dialing ?n"] x
        by (simp add: w' pool_ok_def set_head_def)
    qed
  qed
qed

lemma pool_step_ok:
  assumes s: "pool_step T new_mode w ev w'" and ok: "pool_ok w" and ord: "orderly ev"
  shows "pool_ok w'"
  using s
proof cases
  case (get_waits a)
  show ?thesis using ok unfolding pool_ok_def get_waits by (simp add: lock_ok_enqueue)
next
  case (get_again a q i)
  show ?thesis using ok unfolding pool_ok_def get_again(2) release_lock_def by (simp add: lock_ok_release [where q = "pw_queue w", OF _ get_again(3)])
next
  case (get_reads a q)
  show ?thesis unfolding get_reads(2) by (rule head_goes_on [OF ok get_reads(3)]) (use get_reads(4) in \<open>simp_all add: pool_running_off\<close>)
next
  case (get_checked a q)
  have "off_at (pw_objects w) (map_of (pw_pool w)) a" by (rule lock_okD(4) [OF ok [unfolded pool_ok_def] get_checked(3)]) simp
  then show ?thesis unfolding get_checked(2) by (intro head_goes_on [OF ok get_checked(3)]) simp_all
next
  case (get_unknown a q)
  show ?thesis using ok unfolding pool_ok_def get_unknown(2) release_lock_def by (simp add: lock_ok_release [where q = "pw_queue w", OF _ get_unknown(3)])
next
  case (get_loaded a q now)
  show ?thesis by (rule after_load_ok [OF ok get_loaded(1,2)])
next
  case (get_connects a i q)
  show ?thesis using ok unfolding pool_ok_def get_connects(2) set_head_def set_object_def
    by (simp add: lock_ok_connect [where q = "pw_queue w", OF _ get_connects(3)])
next
  case (get_not_connected a i q err now j w1)
  show ?thesis unfolding get_not_connected(2) by (rule stub_enters [OF ok get_not_connected(3) _ _ get_not_connected(4)]) simp_all
next
  case (get_started a i q now)
  have d: "i < length (pw_objects w)" "ts_alias (pw_objects w ! i) = a"
    using lock_okD(5) [OF ok [unfolded pool_ok_def], of a i q] get_started(3) by auto
  let ?s = "know_self now (pw_objects w ! i)"
  have l: "lock_ok ((pw_objects w)[i := ?s]) (map_of (pw_pool w)) (pw_queue w)"
    by (rule lock_ok_object) (use ok d in \<open>simp_all add: pool_ok_def\<close>)
  show ?thesis using lock_ok_enter [OF l get_started(3), of i] d
    by (simp add: get_started(2) pool_ok_def release_lock_def enter_pool_def set_object_def update_conv')
next
  case (stop_alias_waits a)
  show ?thesis using ok unfolding pool_ok_def stop_alias_waits by (simp add: lock_ok_enqueue)
next
  case (stop_alias_none a q)
  show ?thesis using ok unfolding pool_ok_def stop_alias_none(2) release_lock_def by (simp add: lock_ok_release [where q = "pw_queue w", OF _ stop_alias_none(3)])
next
  case (stop_alias_begins a q i)
  show ?thesis unfolding stop_alias_begins(2) by (rule head_goes_on [OF ok stop_alias_begins(3)]) (use stop_alias_begins(4) in simp_all)
next
  case (stop_alias_ends a i q)
  show ?thesis using ok lock_ok_hang_up [where q = "pw_queue w", OF _ stop_alias_ends(3)]
    by (simp add: stop_alias_ends(2) pool_ok_def release_lock_def leave_pool_def set_object_def session_stop_def delete_conv')
next
  case (stop_disconnects a i)
  show ?thesis
  proof (cases "i < length (pw_objects w)")
    case True
    then show ?thesis
      by (intro pool_ok_object [OF ok True, of "session_stop (pw_objects w ! i)"])
        (simp_all add: stop_disconnects(2) set_object_def session_stop_def)
  next
    case False
    then show ?thesis using ok by (simp add: stop_disconnects(2) pool_ok_def set_object_def list_update_beyond)
  qed
next
  case (client_asked i r s accs)
  show ?thesis using require_client_keeps [OF client_asked(4)] same_client_running [of s "pw_objects w ! i"]
    by (intro pool_ok_object [OF ok client_asked(3), of s]) (auto simp: client_asked(2) set_object_def)
next
  case (handlers_asked i r s accs)
  show ?thesis using attach_handlers_keeps [OF handlers_asked(6)] same_client_running [of s "pw_objects w ! i"]
    by (intro pool_ok_object [OF ok handlers_asked(3), of s]) (auto simp: handlers_asked(2) set_object_def)
next
  case (code_sent i answer r s)
  show ?thesis using send_code_keeps [OF code_sent(4)] same_client_running [of s "pw_objects w ! i"]
    by (intro pool_ok_object [OF ok code_sent(3), of s]) (auto simp: code_sent(2) set_object_def)
next
  case (signed_in i answer answer2 password r s)
  show ?thesis using sign_in_keeps [OF signed_in(6)]
    by (intro pool_ok_object [OF ok signed_in(3), of s]) (auto simp: signed_in(2) set_object_def)
next
  case (logged_out i r s)
  show ?thesis using tg_logout_keeps [OF logged_out(4)]
    by (intro pool_ok_object [OF ok logged_out(3), of s]) (auto simp: logged_out(2) set_object_def)
next
  case (revoked i c)
  show ?thesis by (rule pool_ok_object [OF ok revoked(3), of "(pw_objects w ! i)\<lparr>ts_client := Some (c\<lparr>tc_user := None\<rparr>)\<rparr>"])
      (use revoked(4) in \<open>simp_all add: revoked(2) set_object_def is_running_def\<close>)
next
  case (lost i)
  show ?thesis by (rule pool_ok_object [OF ok lost(3), of "set_connected False (pw_objects w ! i)"]) (simp_all add: lost(2) set_object_def)
qed (use ok ord in \<open>simp_all add: pool_ok_def orderly_def\<close>)

lemma session_start_facts:
  "session_start T fault now s = (b, s') \<Longrightarrow> ts_alias s' = ts_alias s \<and> ts_account_id s' = ts_account_id s \<and>
     ts_identity_ok s' = ts_identity_ok s \<and> (\<not> is_running s \<longrightarrow> is_running s' \<longrightarrow> b \<or> fault = Profile_fails)"
  by (auto simp: session_start_def Let_def split: if_splits)

text \<open>Before the first request: no task, and what runs is in the pool.\<close>

definition quiet :: "pool_world \<Rightarrow> bool" where
  "quiet w \<longleftrightarrow> pw_queue w = (\<lambda>_. []) \<and> (\<forall>a i. map_of (pw_pool w) a = Some i \<longrightarrow> i < length (pw_objects w) \<and> ts_alias (pw_objects w ! i) = a) \<and>
     (\<forall>i < length (pw_objects w). is_running (pw_objects w ! i) \<longrightarrow> map_of (pw_pool w) (ts_alias (pw_objects w ! i)) = Some i)"

lemma quiet_ok: "quiet w \<Longrightarrow> pool_ok w"
  by (auto simp: quiet_def pool_ok_def lock_ok_def)

lemma quiet_add:
  assumes "quiet w" "\<not> is_running s"
  shows "quiet (w\<lparr>pw_objects := pw_objects w @ [s]\<rparr>)"
  using assms unfolding quiet_def by (auto simp: nth_append less_Suc_eq)

lemma quiet_enter:
  assumes w: "quiet w" and a: "map_of (pw_pool w) a = None" and s: "ts_alias s = a"
  shows "quiet (enter_pool a (length (pw_objects w)) (w\<lparr>pw_objects := pw_objects w @ [s]\<rparr>))"
proof -
  let ?m = "(map_of (pw_pool w))(a \<mapsto> length (pw_objects w))"
  have d: "\<And>b i. map_of (pw_pool w) b = Some i \<Longrightarrow> i < length (pw_objects w) \<and> ts_alias (pw_objects w ! i) = b"
    "\<And>i. i < length (pw_objects w) \<Longrightarrow> is_running (pw_objects w ! i) \<Longrightarrow> map_of (pw_pool w) (ts_alias (pw_objects w ! i)) = Some i"
    "pw_queue w = (\<lambda>_. [])"
    using w unfolding quiet_def by blast+
  have "i < Suc (length (pw_objects w)) \<and> ts_alias ((pw_objects w @ [s]) ! i) = b" if "?m b = Some i" for b i
    using that d(1) [of b i] s by (auto simp: nth_append split: if_splits)
  moreover have "?m (ts_alias ((pw_objects w @ [s]) ! i)) = Some i" if "i < Suc (length (pw_objects w))" "is_running ((pw_objects w @ [s]) ! i)" for i
  proof (cases "i < length (pw_objects w)")
    case True
    then have "map_of (pw_pool w) (ts_alias (pw_objects w ! i)) = Some i" using d(2) that(2) by (simp add: nth_append)
    moreover from this have "ts_alias (pw_objects w ! i) \<noteq> a" using a by auto
    ultimately show ?thesis using True by (simp add: nth_append)
  next
    case False
    then have "i = length (pw_objects w)" using that(1) by simp
    then show ?thesis using s by simp
  qed
  ultimately show ?thesis using d(3) by (simp add: quiet_def enter_pool_def update_conv')
qed

lemma start_one_quiet:
  assumes w: "quiet w" and a: "map_of (pw_pool w) a = None" and f: "fault a \<noteq> Profile_fails" and w': "w' = start_one T fault now a w"
  shows "quiet w' \<and> dom (map_of (pw_pool w')) \<subseteq> insert a (dom (map_of (pw_pool w)))"
proof (cases "tg_load_session (pw_accounts w) (pw_rows w) a")
  case None
  then show ?thesis using w w' by (auto simp: start_one_def)
next
  case (Some s)
  obtain ok s' where st: "session_start T (fault a) now s = (ok, s')" by (rule prod.exhaust)
  note s = loaded_session [OF Some] session_start_facts [OF st]
  show ?thesis
  proof (cases ok)
    case True
    then have "w' = enter_pool a (length (pw_objects w)) (w\<lparr>pw_objects := pw_objects w @ [s']\<rparr>)"
      using w' Some st by (simp add: start_one_def add_object_def)
    then show ?thesis using quiet_enter [OF w a, of s'] s by (auto simp: enter_pool_def update_conv' split: if_splits)
  next
    case False
    let ?w = "w\<lparr>pw_objects := pw_objects w @ [s']\<rparr>"
    have w'': "w' = enter_pool a (length (pw_objects ?w)) (?w\<lparr>pw_objects := pw_objects ?w @ [failed_stub a ''start failed'' now]\<rparr>)"
      using w' Some st False by (simp add: start_one_def add_object_def put_stub_def)
    have "\<not> is_running s'" using s f False by auto
    from quiet_add [OF w this] have "quiet w'" unfolding w'' by (rule quiet_enter) (use a in simp_all)
    then show ?thesis by (auto simp: w'' enter_pool_def update_conv' split: if_splits)
  qed
qed

lemma start_all_quiet:
  assumes "distinct (map acc_alias accs)" "\<forall>a. fault a \<noteq> Profile_fails"
  shows "quiet (start_all T fault now accs rows)"
proof -
  have "quiet w \<Longrightarrow> distinct as \<Longrightarrow> set as \<inter> dom (map_of (pw_pool w)) = {} \<Longrightarrow> quiet (fold (start_one T fault now) as w)" for as w
  proof (induction as arbitrary: w)
    case (Cons a as)
    have n: "map_of (pw_pool w) a = None" using Cons.prems(3) by auto
    note s = start_one_quiet [OF Cons.prems(1) n assms(2) [rule_format] refl, where T = T and now = now]
    then show ?case using Cons.IH [of "start_one T fault now a w"] Cons.prems(2,3) by fastforce
  qed simp
  moreover have "distinct (map acc_alias (filter P accs))" for P using assms(1) by (rule distinct_map_filter)
  moreover have "quiet (empty_pool accs rows)" by (simp add: quiet_def empty_pool_def)
  ultimately show ?thesis by (simp add: start_all_def empty_pool_def)
qed

subsection \<open>The users of clients\<close>

definition user_fits :: "account list \<Rightarrow> tg_session \<Rightarrow> bool" where
  "user_fits accs s \<longleftrightarrow> (is_running s \<longrightarrow>
     (ts_identity_ok s = Some True \<longrightarrow>
        (\<exists>a u. ts_account_id s = Some a \<and> external_of accs a = Some u \<and> client_user s = Some u)) \<and>
     (\<forall>m. ts_me_id s = Some m \<longrightarrow> client_user s = Some m))"

definition not_checked :: "tg_session \<Rightarrow> bool" where
  "not_checked s \<longleftrightarrow> ts_identity_ok s = None \<and> ts_me_id s = None"

definition keep_users :: "account list \<Rightarrow> account list \<Rightarrow> bool" where
  "keep_users accs accs' \<longleftrightarrow> (\<forall>a u. external_of accs a = Some u \<longrightarrow> external_of accs' a = Some u)"

lemma keep_users_refl [simp]: "keep_users accs accs"
  by (simp add: keep_users_def)

lemma keep_users_fits: "keep_users accs accs' \<Longrightarrow> user_fits accs s \<Longrightarrow> user_fits accs' s"
  unfolding keep_users_def user_fits_def by blast

lemma accounts_later_keep: "accounts_later accs accs' \<Longrightarrow> keep_users accs accs'"
  unfolding accounts_later_def keep_users_def external_of_def by (fastforce split: option.splits)

lemma not_checked_fits: "not_checked s \<Longrightarrow> user_fits accs s"
  by (simp add: not_checked_def user_fits_def)

lemma ensure_keeps: "ensure_account_user accs i u = Inr accs' \<Longrightarrow> keep_users accs accs'"
  using ensure_user [of accs i u accs'] unfolding keep_users_def by (metis (full_types))

lemma confirm_identity_fits:
  assumes c: "confirm_identity True s accs = (r, s', accs')" and f: "user_fits accs s" and u: "client_user s = Some u" "is_running s"
  shows "user_fits accs' s' \<and> keep_users accs accs' \<and>
    (r = Some True \<longrightarrow> (\<exists>a. ts_account_id s' = Some a \<and> external_of accs' a = Some u))"
proof (cases "ts_identity_ok s")
  case (Some b)
  then have "r = Some b" "s' = s" "accs' = accs" using c by (simp_all add: confirm_identity_def)
  then show ?thesis using f u Some by (auto simp: user_fits_def)
next
  case None
  have self: "self_id s = Some u" using f u by (auto simp: self_id_def user_fits_def split: option.split)
  show ?thesis
  proof (cases "ts_account_id s")
    case n: None
    then show ?thesis using c None f u
      by (auto simp: confirm_identity_def identity_mismatch_def user_fits_def is_running_def client_user_def)
  next
    case (Some a)
    show ?thesis
    proof (cases "ensure_account_user accs a u")
      case (Inl msg)
      then show ?thesis using c None Some self f u
        by (auto simp: confirm_identity_def identity_mismatch_def user_fits_def is_running_def client_user_def)
    next
      case (Inr accs1)
      then have r: "r = Some True" "s' = s\<lparr>ts_me_id := Some u, ts_identity_ok := Some True\<rparr>" "accs' = accs1"
        using c None Some self by (auto simp: confirm_identity_def)
      then have "client_user s' = Some u" "is_running s'" "ts_account_id s' = Some a" using u Some by (simp_all add: client_user_def is_running_def)
      then show ?thesis using ensure_user [OF Inr] ensure_keeps [OF Inr] r by (simp add: user_fits_def)
    qed
  qed
qed

lemma require_client_fits:
  assumes c: "require_client True s accs = (r, s', accs')" and f: "user_fits accs s"
  shows "user_fits accs' s' \<and> keep_users accs accs' \<and> (\<not> is_running s \<longrightarrow> s' = s) \<and>
    (\<forall>u. r = Client u \<longrightarrow> (\<exists>a. ts_account_id s' = Some a \<and> external_of accs' a = Some u))"
proof (cases "\<exists>u. client_user s = Some u \<and> is_running s")
  case False
  then show ?thesis using c f
    by (auto simp: require_client_def client_user_def is_running_def split: option.splits if_splits)
next
  case True
  then obtain u cl where u: "client_user s = Some u" "is_running s" "ts_client s = Some cl" "tc_user cl = Some u" "tc_connected cl"
    by (auto simp: client_user_def is_running_def split: option.splits)
  obtain x s1 accs1 where i: "confirm_identity True s accs = (x, s1, accs1)" by (metis prod_cases3)
  note k = confirm_identity_fits [OF i f u(1,2)]
  have "s' = s1 \<and> accs' = accs1 \<and> (\<forall>v. r = Client v \<longrightarrow> x = Some True \<and> v = u)"
  proof (cases x)
    case None
    then show ?thesis using c u i by (simp add: require_client_def)
  next
    case (Some b)
    then show ?thesis using c u i by (cases b) (auto simp: require_client_def)
  qed
  then show ?thesis using k u(2) by auto
qed

lemma attach_handlers_fits:
  assumes c: "attach_handlers True s accs = (r, s', accs')" and f: "user_fits accs s" and u: "client_user s = Some u" "is_running s"
  shows "user_fits accs' s' \<and> keep_users accs accs' \<and> (\<forall>a. r = For_account a \<longrightarrow> external_of accs' a = Some u)"
proof (cases "ts_account_id s")
  case None
  then show ?thesis using c f by (simp add: attach_handlers_def)
next
  case (Some a)
  obtain x s1 accs1 where i: "confirm_identity True s accs = (x, s1, accs1)" by (metis prod_cases3)
  note k = confirm_identity_fits [OF i f u] confirm_identity_keeps [OF i]
  have "s' = s1 \<and> accs' = accs1 \<and> (\<forall>b. r = For_account b \<longrightarrow> x = Some True \<and> b = a)"
    using c Some i by (cases x) (auto simp: attach_handlers_def split: if_splits)
  then show ?thesis using k Some by auto
qed

definition users_ok :: "pool_world \<Rightarrow> bool" where
  "users_ok w \<longleftrightarrow> pool_ok w \<and> (\<forall>i < length (pw_objects w). user_fits (pw_accounts w) (pw_objects w ! i)) \<and>
     (\<forall>a i r. pw_queue w a = Dialing i # r \<longrightarrow> not_checked (pw_objects w ! i))"

lemma users_okI:
  assumes w: "users_ok w" and ok: "pool_ok w'" and k: "keep_users (pw_accounts w) (pw_accounts w')"
    and o: "\<And>i. i < length (pw_objects w') \<Longrightarrow> (i < length (pw_objects w) \<and> pw_objects w' ! i = pw_objects w ! i) \<or>
        user_fits (pw_accounts w') (pw_objects w' ! i)"
    and q: "\<And>a i r. pw_queue w' a = Dialing i # r \<Longrightarrow>
        (\<exists>r. pw_queue w a = Dialing i # r \<and> pw_objects w' ! i = pw_objects w ! i) \<or> not_checked (pw_objects w' ! i)"
  shows "users_ok w'"
proof -
  have "user_fits (pw_accounts w') (pw_objects w' ! i)" if "i < length (pw_objects w')" for i
    using o [OF that] keep_users_fits [OF k] w by (auto simp: users_ok_def)
  moreover have "not_checked (pw_objects w' ! i)" if "pw_queue w' a = Dialing i # r" for a i r
  proof -
    from q [OF that] consider r' where "pw_queue w a = Dialing i # r'" "pw_objects w' ! i = pw_objects w ! i"
      | "not_checked (pw_objects w' ! i)" by blast
    then show ?thesis
    proof cases
      case (1 r')
      then have "not_checked (pw_objects w ! i)" using w unfolding users_ok_def by blast
      then show ?thesis using 1 by simp
    qed
  qed
  ultimately show ?thesis using ok by (simp add: users_ok_def)
qed

lemma dialing_off:
  assumes "pool_ok w" "pw_queue w a = Dialing i # r"
  shows "\<not> is_running (pw_objects w ! i) \<and> i < length (pw_objects w)"
proof -
  note l = assms(1) [unfolded pool_ok_def]
  have d: "i < length (pw_objects w)" "ts_alias (pw_objects w ! i) = a" "map_of (pw_pool w) a \<noteq> Some i"
    using lock_okD(5) [OF l, of a i r] assms(2) by auto
  then show ?thesis using lock_okD(2) [OF l d(1)] assms(2) by auto
qed

text \<open>A step on one object.\<close>

lemma users_object:
  assumes w: "users_ok w" and ok: "pool_ok w'" and i: "i < length (pw_objects w)"
    and w': "pw_objects w' = (pw_objects w)[i := s]" "pw_queue w' = pw_queue w"
    and k: "keep_users (pw_accounts w) (pw_accounts w')" and f: "user_fits (pw_accounts w') s"
    and c: "\<not> is_running (pw_objects w ! i) \<Longrightarrow> not_checked (pw_objects w ! i) \<Longrightarrow> not_checked s"
  shows "users_ok w'"
proof (rule users_okI [OF w ok k])
  show "(j < length (pw_objects w) \<and> pw_objects w' ! j = pw_objects w ! j) \<or> user_fits (pw_accounts w') (pw_objects w' ! j)"
    if "j < length (pw_objects w')" for j using that f w' i by (cases "j = i") auto
  show "(\<exists>r. pw_queue w a = Dialing j # r \<and> pw_objects w' ! j = pw_objects w ! j) \<or> not_checked (pw_objects w' ! j)"
    if "pw_queue w' a = Dialing j # r" for a j r
  proof (cases "j = i")
    case True
    have q: "pw_queue w a = Dialing i # r" using that w' True by simp
    have "not_checked (pw_objects w ! i)" using w q by (auto simp: users_ok_def)
    then show ?thesis using c dialing_off [OF _ q] w w' i True by (auto simp: users_ok_def)
  next
    case False
    then show ?thesis using that w' by simp
  qed
qed

text \<open>A step of the lock's owner that adds objects nobody has checked, or none.\<close>

lemma users_owner:
  assumes w: "users_ok w" and ok: "pool_ok w'" and acc: "pw_accounts w' = pw_accounts w"
    and o: "pw_objects w' = pw_objects w @ new" "list_all not_checked new"
    and q: "\<And>a i r. pw_queue w' a = Dialing i # r \<Longrightarrow>
        (\<exists>r. pw_queue w a = Dialing i # r) \<or> (length (pw_objects w) \<le> i \<and> i < length (pw_objects w'))"
  shows "users_ok w'"
proof (rule users_okI [OF w ok])
  show "keep_users (pw_accounts w) (pw_accounts w')" by (simp add: acc)
  have n: "not_checked (pw_objects w' ! i)" if "length (pw_objects w) \<le> i" "i < length (pw_objects w')" for i
    using that o by (auto simp: nth_append list_all_length)
  then show "(i < length (pw_objects w) \<and> pw_objects w' ! i = pw_objects w ! i) \<or> user_fits (pw_accounts w') (pw_objects w' ! i)"
    if "i < length (pw_objects w')" for i using that o not_checked_fits by (cases "i < length (pw_objects w)") (auto simp: nth_append)
  show "(\<exists>r. pw_queue w a = Dialing i # r \<and> pw_objects w' ! i = pw_objects w ! i) \<or> not_checked (pw_objects w' ! i)"
    if "pw_queue w' a = Dialing i # r" for a i r
    using q [OF that] n dialing_off [of w a i] w o(1) by (auto simp: users_ok_def nth_append)
qed

lemma tail_waits: "pool_ok w \<Longrightarrow> tl (pw_queue w a) \<noteq> Dialing i # r"
  using lock_okD(3) [of "pw_objects w" "map_of (pw_pool w)" "pw_queue w" a] waits_not(2) by (auto simp: pool_ok_def)

lemma after_load_objects:
  assumes "after_load T now a w = (ev, w')"
  shows "pw_accounts w' = pw_accounts w \<and> (\<exists>new. pw_objects w' = pw_objects w @ new \<and> list_all not_checked new \<and>
     (pw_queue w' = (pw_queue w)(a := tl (pw_queue w a)) \<or>
      (pw_queue w' = (pw_queue w)(a := Dialing (length (pw_objects w)) # tl (pw_queue w a)) \<and> new \<noteq> [])))"
proof (cases "tg_load_session (pw_accounts w) (pw_rows w) a")
  case None
  then show ?thesis using assms by (auto simp: after_load_def release_lock_def)
next
  case (Some s)
  have "not_checked s" "not_checked (create_client T str s)" for str using loaded_session [OF Some] by (simp_all add: not_checked_def)
  then show ?thesis using assms Some
    by (auto simp: after_load_def Let_def add_object_def put_stub_def enter_pool_def release_lock_def set_head_def
        not_checked_def split: if_splits)
qed

definition faithful :: "pool_event \<Rightarrow> bool" where
  "faithful ev \<longleftrightarrow> orderly ev \<and> (\<forall>i. ev \<noteq> Revoked i)"

text \<open>A step of the owner that adds nothing and leaves, or goes on without dialing.\<close>

lemma owner_releases:
  assumes "users_ok w" "pool_ok (release_lock a w')" "pw_accounts w' = pw_accounts w" "pw_objects w' = pw_objects w @ new"
    "list_all not_checked new" "pw_queue w' = pw_queue w"
  shows "users_ok (release_lock a w')"
proof (rule users_owner [OF assms(1,2)])
  show "list_all not_checked new" by (rule assms(5))
  show "(\<exists>r. pw_queue w b = Dialing i # r) \<or> (length (pw_objects w) \<le> i \<and> i < length (pw_objects (release_lock a w')))"
    if "pw_queue (release_lock a w') b = Dialing i # r" for b i r
  proof (cases "b = a")
    case True
    then show ?thesis using that tail_waits [of w a i r] assms(1,6) by (simp add: release_lock_def users_ok_def)
  next
    case False
    then show ?thesis using that assms(6) by (simp add: release_lock_def)
  qed
qed (simp_all add: release_lock_def assms)

lemma owner_goes_on:
  assumes "users_ok w" "pool_ok (set_head a t w)" "\<And>i. t \<noteq> Dialing i"
  shows "users_ok (set_head a t w)"
proof (rule users_owner [OF assms(1,2), where new = "[]"])
  show "(\<exists>r. pw_queue w b = Dialing i # r) \<or> (length (pw_objects w) \<le> i \<and> i < length (pw_objects (set_head a t w)))"
    if "pw_queue (set_head a t w) b = Dialing i # r" for b i r
    using that assms(3) by (auto simp: set_head_def split: if_splits)
qed (simp_all add: set_head_def)

lemma stub_objects:
  "put_stub a err now w = (j, w') \<Longrightarrow> pw_accounts w' = pw_accounts w \<and> pw_queue w' = pw_queue w \<and>
     (\<exists>s. pw_objects w' = pw_objects w @ [s] \<and> not_checked s)"
  by (auto simp: put_stub_def add_object_def enter_pool_def not_checked_def)

lemma release_object:
  assumes w: "users_ok w" and ok: "pool_ok w'" and h: "pw_queue w a = t # r" "\<And>i. t \<noteq> Dialing i"
    and w': "pw_objects w' = (pw_objects w)[i := s]" "pw_queue w' = (pw_queue w)(a := tl (pw_queue w a))" "pw_accounts w' = pw_accounts w"
    and f: "user_fits (pw_accounts w) s" and al: "ts_alias (pw_objects w ! i) = a"
  shows "users_ok w'"
proof (rule users_okI [OF w ok])
  show "keep_users (pw_accounts w) (pw_accounts w')" using w' by simp
  show "(j < length (pw_objects w) \<and> pw_objects w' ! j = pw_objects w ! j) \<or> user_fits (pw_accounts w') (pw_objects w' ! j)"
    if "j < length (pw_objects w')" for j using that f w' by (cases "j = i") auto
  show "(\<exists>r. pw_queue w b = Dialing j # r \<and> pw_objects w' ! j = pw_objects w ! j) \<or> not_checked (pw_objects w' ! j)"
    if "pw_queue w' b = Dialing j # r" for b j r
  proof -
    have "b \<noteq> a" using that tail_waits [of w a j r] w w' by (auto simp: users_ok_def)
    then have q: "pw_queue w b = Dialing j # r" using that w' by simp
    have "pool_ok w" using w by (simp add: users_ok_def)
    then have "ts_alias (pw_objects w ! j) = b" using lock_okD(5) q unfolding pool_ok_def by blast
    then have "j \<noteq> i" using al \<open>b \<noteq> a\<close> by auto
    then show ?thesis using q w' by simp
  qed
qed

lemma fits_same:
  "user_fits accs s \<Longrightarrow> is_running s' = is_running s \<Longrightarrow> client_user s' = client_user s \<Longrightarrow> ts_me_id s' = ts_me_id s \<Longrightarrow>
    ts_identity_ok s' = ts_identity_ok s \<Longrightarrow> ts_account_id s' = ts_account_id s \<Longrightarrow> user_fits accs s'"
  by (simp add: user_fits_def)

lemma fits_not_running: "\<not> is_running s \<Longrightarrow> user_fits accs s"
  by (simp add: user_fits_def)

lemma not_checked_set [simp]: "not_checked (set_connected b s) = not_checked s"
  by (simp add: not_checked_def)

lemma pool_step_users:
  assumes s: "pool_step T True w ev w'" and u: "users_ok w" and f: "faithful ev"
  shows "users_ok w'"
proof -
  have ok: "pool_ok w" and ord: "orderly ev" using u f by (simp_all add: users_ok_def faithful_def)
  note ok' = pool_step_ok [OF s ok ord]
  have fit: "user_fits (pw_accounts w) (pw_objects w ! i)" if "i < length (pw_objects w)" for i using u that by (simp add: users_ok_def)
  from s show ?thesis
  proof cases
    case (get_waits a)
    show ?thesis by (rule users_owner [OF u ok', where new = "[]"]) (auto simp: get_waits(2) append_eq_Cons_conv split: if_splits)
  next
    case (get_again a q i)
    show ?thesis unfolding get_again(2) by (rule owner_releases [OF u ok' [unfolded get_again(2)], where new = "[]"]) simp_all
  next
    case (get_reads a q)
    show ?thesis unfolding get_reads(2) by (rule owner_goes_on [OF u ok' [unfolded get_reads(2)]]) simp
  next
    case (get_checked a q)
    show ?thesis unfolding get_checked(2) by (rule owner_goes_on [OF u ok' [unfolded get_checked(2)]]) simp
  next
    case (get_unknown a q)
    show ?thesis unfolding get_unknown(2) by (rule owner_releases [OF u ok' [unfolded get_unknown(2)], where new = "[]"]) simp_all
  next
    case (get_loaded a q now)
    obtain new where n: "pw_accounts w' = pw_accounts w" "pw_objects w' = pw_objects w @ new" "list_all not_checked new"
      "pw_queue w' = (pw_queue w)(a := tl (pw_queue w a)) \<or>
       (pw_queue w' = (pw_queue w)(a := Dialing (length (pw_objects w)) # tl (pw_queue w a)) \<and> new \<noteq> [])"
      using after_load_objects [OF get_loaded(2)] by blast
    show ?thesis
    proof (rule users_owner [OF u ok' n(1-3)])
      show "(\<exists>r. pw_queue w b = Dialing i # r) \<or> (length (pw_objects w) \<le> i \<and> i < length (pw_objects w'))"
        if "pw_queue w' b = Dialing i # r" for b i r
        using n(2,4) that tail_waits [OF ok, of a i r] by (auto split: if_splits)
    qed
  next
    case (get_connects a i q)
    let ?s = "set_connected True (pw_objects w ! i)"
    have i: "not_checked (pw_objects w ! i)" using u get_connects(3) unfolding users_ok_def by blast
    show ?thesis
    proof (rule users_okI [OF u ok'])
      show "(j < length (pw_objects w) \<and> pw_objects w' ! j = pw_objects w ! j) \<or> user_fits (pw_accounts w') (pw_objects w' ! j)"
        if "j < length (pw_objects w')" for j
        using that i not_checked_fits [of ?s] by (cases "j = i") (auto simp: get_connects(2) set_object_def set_head_def)
      show "(\<exists>r. pw_queue w b = Dialing j # r \<and> pw_objects w' ! j = pw_objects w ! j) \<or> not_checked (pw_objects w' ! j)"
        if "pw_queue w' b = Dialing j # r" for b j r
      proof -
        have q: "b \<noteq> a" "pw_queue w b = Dialing j # r" using that by (auto simp: get_connects(2) set_object_def set_head_def split: if_splits)
        have "ts_alias (pw_objects w ! j) = b" "ts_alias (pw_objects w ! i) = a"
          using lock_okD(5) [OF ok [unfolded pool_ok_def]] q(2) get_connects(3) by blast+
        then have "i \<noteq> j" using q(1) by auto
        then show ?thesis using q by (simp add: get_connects(2) set_object_def set_head_def)
      qed
    qed (simp add: get_connects(2) set_object_def set_head_def)
  next
    case (get_not_connected a i q err now j w1)
    note st = stub_objects [OF get_not_connected(4)]
    then obtain x where "pw_objects w1 = pw_objects w @ [x]" "not_checked x" by blast
    then show ?thesis unfolding get_not_connected(2)
      using st by (intro owner_releases [OF u ok' [unfolded get_not_connected(2)], where new = "[x]"]) simp_all
  next
    case (get_started a i q now)
    have d: "i < length (pw_objects w)" "ts_alias (pw_objects w ! i) = a"
      using lock_okD(5) [OF ok [unfolded pool_ok_def], of a i q] get_started(3) by auto
    show ?thesis
    proof (rule release_object [OF u ok' get_started(3), where s = "know_self now (pw_objects w ! i)" and i = i])
      show "user_fits (pw_accounts w) (know_self now (pw_objects w ! i))" using fit [OF d(1)]
        by (auto simp: user_fits_def know_self_def is_running_def client_user_def split: option.splits)
    qed (simp_all add: get_started(2) release_lock_def enter_pool_def set_object_def d)
  next
    case (get_no_profile a i q err now j w1)
    then show ?thesis using ord by (simp add: orderly_def)
  next
    case (stop_alias_waits a)
    show ?thesis by (rule users_owner [OF u ok', where new = "[]"]) (auto simp: stop_alias_waits(2) append_eq_Cons_conv split: if_splits)
  next
    case (stop_alias_none a q)
    show ?thesis unfolding stop_alias_none(2) by (rule owner_releases [OF u ok' [unfolded stop_alias_none(2)], where new = "[]"]) simp_all
  next
    case (stop_alias_begins a q i)
    show ?thesis unfolding stop_alias_begins(2) by (rule owner_goes_on [OF u ok' [unfolded stop_alias_begins(2)]]) simp
  next
    case (stop_alias_ends a i q)
    have "map_of (pw_pool w) a = Some i" by (rule lock_okD(6) [OF ok [unfolded pool_ok_def] stop_alias_ends(3)])
    then have "ts_alias (pw_objects w ! i) = a" using lock_okD(1) [OF ok [unfolded pool_ok_def]] by blast
    then show ?thesis
      by (intro release_object [OF u ok' stop_alias_ends(3), where s = "session_stop (pw_objects w ! i)" and i = i])
        (simp_all add: stop_alias_ends(2) release_lock_def leave_pool_def set_object_def session_stop_def fits_not_running)
  next
    case (stop_begins a i)
    show ?thesis by (rule users_owner [OF u ok', where new = "[]"]) (simp_all add: stop_begins(2))
  next
    case (stop_disconnects a i)
    show ?thesis
    proof (cases "i < length (pw_objects w)")
      case True
      show ?thesis by (rule users_object [OF u ok' True, where s = "session_stop (pw_objects w ! i)"])
          (simp_all add: stop_disconnects(2) set_object_def session_stop_def fits_not_running)
    next
      case False
      then show ?thesis using u by (simp add: stop_disconnects(2) set_object_def list_update_beyond users_ok_def pool_ok_def)
    qed
  next
    case (client_asked i r s accs)
    note k = require_client_fits [OF client_asked(4) fit [OF client_asked(3)]]
    show ?thesis by (rule users_object [OF u ok' client_asked(3), where s = s]) (use k in \<open>auto simp: client_asked(2) set_object_def\<close>)
  next
    case (handlers_asked i r s accs)
    obtain x where x: "client_user (pw_objects w ! i) = Some x" using handlers_asked(5) by blast
    note k = attach_handlers_fits [OF handlers_asked(6) fit [OF handlers_asked(3)] x handlers_asked(4)]
    show ?thesis by (rule users_object [OF u ok' handlers_asked(3), where s = s])
        (use k handlers_asked(4) in \<open>auto simp: handlers_asked(2) set_object_def\<close>)
  next
    case (code_sent i answer r s)
    note k = send_code_keeps [OF code_sent(4)] same_client_running [of s "pw_objects w ! i"]
    have "user_fits (pw_accounts w) s" by (rule fits_same [OF fit [OF code_sent(3)]]) (use k in auto)
    then show ?thesis by (intro users_object [OF u ok' code_sent(3), where s = s])
        (use k in \<open>auto simp: code_sent(2) set_object_def not_checked_def\<close>)
  next
    case (signed_in i answer answer2 password r s)
    note k = sign_in_keeps [OF signed_in(6)]
    have "user_fits (pw_accounts w) s"
    proof (cases "client_user (pw_objects w ! i)")
      case None
      then have "ts_identity_ok (pw_objects w ! i) \<noteq> Some True" "ts_me_id (pw_objects w ! i) = None"
        using fit [OF signed_in(3)] signed_in(4) by (auto simp: user_fits_def)
      then show ?thesis using k by (auto simp: user_fits_def)
    next
      case (Some x)
      then have "client_user s = Some x" using k signed_in(5) by auto
      then show ?thesis by (intro fits_same [OF fit [OF signed_in(3)]]) (use k Some in auto)
    qed
    then show ?thesis by (intro users_object [OF u ok' signed_in(3), where s = s])
        (use signed_in(4) in \<open>simp_all add: signed_in(2) set_object_def\<close>)
  next
    case (logged_out i r s)
    note k = tg_logout_keeps [OF logged_out(4)]
    have "user_fits (pw_accounts w) s" using k fit [OF logged_out(3)] by (cases "is_running s") (auto intro: fits_not_running)
    then show ?thesis by (intro users_object [OF u ok' logged_out(3), where s = s])
        (use k in \<open>auto simp: logged_out(2) set_object_def not_checked_def\<close>)
  next
    case (imported i connects str r s)
    then show ?thesis using ord by (simp add: orderly_def)
  next
    case (revoked i c)
    then show ?thesis using f by (simp add: faithful_def)
  next
    case (lost i)
    show ?thesis by (rule users_object [OF u ok' lost(3), where s = "set_connected False (pw_objects w ! i)"])
        (simp_all add: lost(2) set_object_def fits_not_running)
  next
    case (tables accs rows)
    show ?thesis
    proof (rule users_okI [OF u ok'])
      show "keep_users (pw_accounts w) (pw_accounts w')" using accounts_later_keep [OF tables(3)] by (simp add: tables(2))
    qed (auto simp: tables(2))
  qed (use ord in \<open>simp_all add: orderly_def u\<close>)
qed

subsection \<open>Runs\<close>

interpretation pool_lock: preserved "\<lambda>w w'. \<exists>ev. pool_step T new_mode w ev w' \<and> orderly ev" pool_ok for T new_mode
  by unfold_locales (blast intro: pool_step_ok)

interpretation pool_users: preserved "\<lambda>w w'. \<exists>ev. pool_step T True w ev w' \<and> faithful ev" users_ok for T
  by unfold_locales (blast intro: pool_step_users)

lemma one_running:
  assumes "pool_ok w" "i < length (pw_objects w)" "j < length (pw_objects w)" "is_running (pw_objects w ! i)" "is_running (pw_objects w ! j)"
    "ts_alias (pw_objects w ! i) = ts_alias (pw_objects w ! j)"
  shows "i = j"
proof -
  note l = assms(1) [unfolded pool_ok_def]
  let ?a = "ts_alias (pw_objects w ! i)"
  have no: "\<not> is_running (pw_objects w ! k)" if "map_of (pw_pool w) ?a = Some k" "pw_queue w ?a = Asking n # r" for k n r
    using lock_okD(4) [OF l that(2)] that(1) by (simp add: off_at_def)
  have i: "map_of (pw_pool w) ?a = Some i \<or> (\<exists>r. pw_queue w ?a = Asking i # r)" by (rule lock_okD(2) [OF l assms(2,4)])
  have j: "map_of (pw_pool w) ?a = Some j \<or> (\<exists>r. pw_queue w ?a = Asking j # r)"
    unfolding assms(6) by (rule lock_okD(2) [OF l assms(3,5)])
  from i show ?thesis
  proof
    assume m: "map_of (pw_pool w) ?a = Some i"
    then show ?thesis using j no [OF m] assms(4) by (metis option.inject)
  next
    assume "\<exists>r. pw_queue w ?a = Asking i # r"
    then obtain r where r: "pw_queue w ?a = Asking i # r" ..
    then show ?thesis using j no [OF _ r] assms(5) by (metis list.inject pool_task.inject(2))
  qed
qed

text \<open>Before the first request nobody has been checked, and every object knows its own user.\<close>

definition self_known :: "tg_session \<Rightarrow> bool" where
  "self_known s \<longleftrightarrow> ts_identity_ok s = None \<and> (\<forall>m. ts_me_id s = Some m \<longrightarrow> client_user s = Some m)"

definition fresh_start :: "pool_world \<Rightarrow> bool" where
  "fresh_start w \<longleftrightarrow> list_all self_known (pw_objects w)"

lemma session_start_self:
  "session_start T fault now s = (b, s') \<Longrightarrow> ts_identity_ok s = None \<Longrightarrow> ts_me_id s = None \<Longrightarrow> self_known s'"
  by (auto simp: self_known_def session_start_def Let_def know_self_def client_user_def split: if_splits option.splits)

lemma start_one_fresh:
  assumes "fresh_start w"
  shows "fresh_start (start_one T fault now a w)"
proof (cases "tg_load_session (pw_accounts w) (pw_rows w) a")
  case None
  then show ?thesis using assms by (simp add: start_one_def)
next
  case (Some s)
  obtain ok s' where st: "session_start T (fault a) now s = (ok, s')" by (rule prod.exhaust)
  have n: "self_known s'" using session_start_self [OF st] loaded_session [OF Some] by simp
  have stub: "self_known (failed_stub x y z)" for x y z by (simp add: self_known_def)
  show ?thesis
  proof (cases ok)
    case True
    then have "pw_objects (start_one T fault now a w) = pw_objects w @ [s']"
      using Some st by (simp add: start_one_def add_object_def enter_pool_def)
    then show ?thesis using assms n by (simp add: fresh_start_def)
  next
    case False
    then have "pw_objects (start_one T fault now a w) = pw_objects w @ [s', failed_stub a ''start failed'' now]"
      using Some st by (simp add: start_one_def add_object_def put_stub_def enter_pool_def)
    then show ?thesis using assms n stub by (simp add: fresh_start_def)
  qed
qed

lemma start_all_users:
  assumes "distinct (map acc_alias accs)" "\<forall>a. fault a \<noteq> Profile_fails"
  shows "users_ok (start_all T fault now accs rows)"
proof -
  let ?w = "start_all T fault now accs rows"
  have "fresh_start w \<Longrightarrow> fresh_start (fold (start_one T fault now) as w)" for as w
    by (induction as arbitrary: w) (auto intro: start_one_fresh)
  then have "fresh_start ?w" by (simp add: start_all_def fresh_start_def empty_pool_def)
  then have "\<forall>i < length (pw_objects ?w). user_fits (pw_accounts ?w) (pw_objects ?w ! i)"
    by (auto simp: fresh_start_def self_known_def list_all_length user_fits_def)
  moreover note start_all_quiet [OF assms, of T now rows]
  moreover from this have "pw_queue ?w = (\<lambda>_. [])" by (simp add: quiet_def)
  ultimately show ?thesis using quiet_ok by (simp add: users_ok_def)
qed

subsection \<open>What happens without the lock\<close>

abbreviation pool_run :: "telethon \<Rightarrow> bool \<Rightarrow> pool_world \<Rightarrow> pool_world \<Rightarrow> bool" where
  "pool_run T new_mode \<equiv> (\<lambda>w w'. \<exists>ev. pool_step T new_mode w ev w')\<^sup>*\<^sup>*"

lemma run_step: "pool_run T new_mode w w1 \<Longrightarrow> pool_step T new_mode w1 ev w2 \<Longrightarrow> pool_run T new_mode w w2"
  by (rule rtranclp.rtrancl_into_rtrancl) blast+

text \<open>A \<^verbatim>\<open>get\<close> that is alone starts the session of the tables and puts it into the pool.\<close>

definition started :: "telethon \<Rightarrow> usec \<Rightarrow> tg_session \<Rightarrow> tg_session" where
  "started T now s = know_self now (set_connected True
     (create_client T (case ts_initial_session s of None \<Rightarrow> [] | Some x \<Rightarrow> x) s))"

lemma get_starts:
  assumes off: "pool_running w a = None" "pw_queue w a = []"
    and s: "tg_load_session (pw_accounts w) (pw_rows w) a = Some s" "tl_api_keys T"
      "tl_valid T (case ts_initial_session s of None \<Rightarrow> [] | Some x \<Rightarrow> x)"
  shows "pool_run T new_mode w
    (w\<lparr>pw_objects := pw_objects w @ [started T now s], pw_pool := AList.update a (length (pw_objects w)) (pw_pool w)\<rparr>)"
proof -
  let ?n = "length (pw_objects w)" and ?q = "\<lambda>t. (pw_queue w)(a := [t])"
  let ?c = "create_client T (case ts_initial_session s of None \<Rightarrow> [] | Some x \<Rightarrow> x) s"
  let ?w1 = "w\<lparr>pw_queue := ?q Want_get\<rparr>"
  let ?w4 = "w\<lparr>pw_queue := ?q (Dialing ?n), pw_objects := pw_objects w @ [?c]\<rparr>"
  let ?w5 = "w\<lparr>pw_queue := ?q (Asking ?n), pw_objects := pw_objects w @ [set_connected True ?c]\<rparr>"
  have acc: "tg_account (pw_accounts w) a \<noteq> None" using s(1) by (auto simp: tg_load_session_def)
  have run: "pool_running (w\<lparr>pw_queue := q\<rparr>) a = None" for q using off(1) by (auto simp: pool_running_def split: option.splits if_splits)
  have 1: "pool_run T new_mode w ?w1"
    by (rule run_step [OF rtranclp.rtrancl_refl]) (use get_waits [OF off(1), of T new_mode] off(2) in simp)
  have 2: "pool_run T new_mode w (w\<lparr>pw_queue := ?q Checking\<rparr>)"
    by (rule run_step [OF 1]) (use get_reads [of ?w1 a "[]" T new_mode] run in \<open>simp add: set_head_def\<close>)
  have 3: "pool_run T new_mode w (w\<lparr>pw_queue := ?q Loading\<rparr>)"
    by (rule run_step [OF 2]) (use get_checked [of "w\<lparr>pw_queue := ?q Checking\<rparr>" a "[]" T new_mode] acc in \<open>simp add: set_head_def\<close>)
  have "after_load T now a (w\<lparr>pw_queue := ?q Loading\<rparr>) = (Other, ?w4)"
    using s by (simp add: after_load_def Let_def add_object_def set_head_def)
  then have 4: "pool_run T new_mode w ?w4"
    by (intro run_step [OF 3] get_loaded [where a = a and q = "[]"]) simp_all
  have 5: "pool_run T new_mode w ?w5"
    by (rule run_step [OF 4]) (use get_connects [of ?w4 a ?n "[]" T new_mode] in \<open>simp add: set_head_def set_object_def\<close>)
  have q: "(pw_queue w)(a := []) = pw_queue w" using off(2) by auto
  show ?thesis
    by (rule run_step [OF 5]) (use get_started [of ?w5 a ?n "[]" T new_mode now] q in
      \<open>simp add: started_def release_lock_def enter_pool_def set_object_def\<close>)
qed

lemma started_running: "is_running (started T now s)" "ts_alias (started T now s) = ts_alias s"
  by (simp_all add: started_def is_running_def set_connected_def create_client_def know_self_def)

text \<open>
  \<^verbatim>\<open>stop\<close> (as logout, restart and a refused login use it) deletes the entry it finds after its
  await. A \<^verbatim>\<open>get\<close> meanwhile has started a new session: it leaves the pool connected, and the next
  \<^verbatim>\<open>get\<close> connects a second one.
\<close>

lemma unlocked_stop_leaves_two_clients:
  assumes i: "map_of (pw_pool w) a = Some i" "i < length (pw_objects w)" and q: "pw_queue w a = []" "pw_stopping w = []"
    and s: "tg_load_session (pw_accounts w) (pw_rows w) a = Some s" "tl_api_keys T"
      "tl_valid T (case ts_initial_session s of None \<Rightarrow> [] | Some x \<Rightarrow> x)"
  shows "\<exists>w' j k. pool_run T new_mode w w' \<and> j < k \<and> k < length (pw_objects w') \<and>
    is_running (pw_objects w' ! j) \<and> is_running (pw_objects w' ! k) \<and> ts_alias (pw_objects w' ! j) = a \<and> ts_alias (pw_objects w' ! k) = a"
proof -
  let ?n = "length (pw_objects w)" and ?o = "(pw_objects w)[i := session_stop (pw_objects w ! i)]"
  let ?w1 = "w\<lparr>pw_stopping := [(a, i)]\<rparr>"
  let ?w2 = "w\<lparr>pw_stopping := [(a, i)], pw_objects := ?o\<rparr>"
  let ?w3 = "?w2\<lparr>pw_objects := ?o @ [started T 0 s], pw_pool := AList.update a ?n (pw_pool w)\<rparr>"
  let ?w4 = "?w3\<lparr>pw_stopping := [], pw_pool := AList.delete a (AList.update a ?n (pw_pool w))\<rparr>"
  let ?w5 = "?w4\<lparr>pw_objects := ?o @ [started T 0 s, started T 0 s], pw_pool := AList.update a (Suc ?n) (pw_pool ?w4)\<rparr>"
  have 1: "pool_run T new_mode w ?w1"
    by (rule run_step [OF rtranclp.rtrancl_refl]) (use stop_begins [OF i(1), of T new_mode] q(2) in simp)
  have 2: "pool_run T new_mode w ?w2"
    by (rule run_step [OF 1]) (use stop_disconnects [of a i ?w1 T new_mode] in \<open>simp add: set_object_def\<close>)
  have "pool_running ?w2 a = None" using i by (simp add: pool_running_def session_stop_def)
  from get_starts [OF this _ _ s(2,3), of new_mode 0] have "pool_run T new_mode ?w2 ?w3" using q s(1) by simp
  then have 3: "pool_run T new_mode w ?w3" by (rule rtranclp_trans [OF 2])
  have 4: "pool_run T new_mode w ?w4"
    by (rule run_step [OF 3]) (use stop_ends [of a i ?w3 ?n T new_mode] in \<open>simp add: leave_pool_def update_conv'\<close>)
  have "pool_running ?w4 a = None" by (simp add: pool_running_def delete_conv')
  from get_starts [OF this _ _ s(2,3), of new_mode 0] have "pool_run T new_mode ?w4 ?w5" using q s(1) by simp
  then have 5: "pool_run T new_mode w ?w5" by (rule rtranclp_trans [OF 4])
  show ?thesis
    by (rule exI [of _ ?w5], rule exI [of _ ?n], rule exI [of _ "Suc ?n"])
      (use 5 loaded_session [OF s(1)] in \<open>simp add: nth_append started_running\<close>)
qed

text \<open>An import keeps the answer of the identity check: the next request gets the other user's client.\<close>

lemma import_hands_out_other_user:
  assumes "ts_identity_ok s = Some True" "tl_valid T str" "tl_owner T str = Some u" "import_session T True str s = (r, s')"
  shows "require_client True s' accs = (Client u, s', accs)"
proof -
  have s': "s' = (set_connected True (create_client T str (set_connected False s)))\<lparr>ts_initial_session := Some str\<rparr>"
    using assms by (auto simp: import_session_def Let_def)
  have c: "ts_client s' = Some \<lparr>tc_string = str, tc_user = Some u, tc_connected = True\<rparr>"
    using assms(3) by (simp add: s' set_connected_def create_client_def)
  have "ts_identity_ok s' = Some True" using assms(1) by (simp add: s')
  then show ?thesis using c by (simp add: require_client_def confirm_identity_def)
qed

end
