(* ===== verification/Tg_Pool_Props.thy ===== *)
theory Tg_Pool_Props
  imports Tg_Pool_Facts
begin

text \<open>
  Properties of the pool of Telegram sessions and of the login: one connection per account, clients
  of the account's own user only, and a stored session that the next start can use.
\<close>

subsection \<open>An account for examples\<close>

definition tg_demo_account :: "int option \<Rightarrow> account" where
  "tg_demo_account u = \<lparr>acc_id = 1, acc_alias = ''work'', acc_phone = ''+70000000000'', acc_mode = ''rw'', acc_is_enabled = True,
     acc_platform = ''telegram'', acc_platform_user_id = None, acc_write_chat_ids = None, acc_write_rate_per_hour = None,
     acc_external_user_id = u, acc_tg_user_id = None, acc_display_name = None, acc_watch_chat_ids = None, acc_notes = None\<rparr>"

definition tg_demo_row :: session_row where
  "tg_demo_row = \<lparr>sr_account_id = 1, sr_plaintext = Some ''A'', sr_authorized_at = None, sr_last_connected_at = None, sr_is_active = True\<rparr>"

definition tg_demo_telethon :: telethon where
  "tg_demo_telethon = \<lparr>tl_api_keys = True, tl_valid = (\<lambda>_. True),
     tl_owner = (\<lambda>str. if str = ''A'' then Some 7 else if str = ''B'' then Some 8 else None)\<rparr>"

definition tg_demo_pool :: pool_world where
  "tg_demo_pool = start_all tg_demo_telethon (\<lambda>_. No_fault) 0 [tg_demo_account None] [tg_demo_row]"

lemma tg_demo_pool_running: "length (pw_objects tg_demo_pool) = 1 \<and> is_running (pw_objects tg_demo_pool ! 0) \<and>
    ts_alias (pw_objects tg_demo_pool ! 0) = ''work'' \<and> pw_queue tg_demo_pool ''work'' = []"
  by code_simp

subsection \<open>The pool\<close>

text \<open>
  C34 One client per account. From the start of the service, under every interleaving of requests,
  lost connections, logins and changes of the tables, no two session objects of one alias are
  connected, and a connected one is the pool's or is being started by the owner of the alias's lock;
  provided that no stop without the lock, no import and no start that fails after its connection
  takes part.
\<close>

theorem one_client_per_alias:
  assumes "distinct (map acc_alias accs)" "\<forall>a. fault a \<noteq> Profile_fails"
    and run: "(\<lambda>w w'. \<exists>ev. pool_step T new_mode w ev w' \<and> orderly ev)\<^sup>*\<^sup>* (start_all T fault now accs rows) w"
    and i: "i < length (pw_objects w)" "is_running (pw_objects w ! i)"
  shows "(map_of (pw_pool w) (ts_alias (pw_objects w ! i)) = Some i \<or>
       (\<exists>q. pw_queue w (ts_alias (pw_objects w ! i)) = Asking i # q)) \<and>
     \<not> (\<exists>j < length (pw_objects w). j \<noteq> i \<and> is_running (pw_objects w ! j) \<and> ts_alias (pw_objects w ! j) = ts_alias (pw_objects w ! i))"
proof -
  have ok: "pool_ok w" by (rule pool_lock.run_inv [OF run]) (rule quiet_ok [OF start_all_quiet [OF assms(1,2)]])
  have "\<not> (\<exists>j < length (pw_objects w). j \<noteq> i \<and> is_running (pw_objects w ! j) \<and> ts_alias (pw_objects w ! j) = ts_alias (pw_objects w ! i))"
    using one_running [OF ok] i by metis
  then show ?thesis using lock_okD(2) [OF ok [unfolded pool_ok_def] i] by blast
qed

theorem one_client_per_alias_witness:
  "map_of (pw_pool tg_demo_pool) ''work'' = Some 0 \<and>
     \<not> (\<exists>j < length (pw_objects tg_demo_pool). j \<noteq> 0 \<and> is_running (pw_objects tg_demo_pool ! j) \<and> ts_alias (pw_objects tg_demo_pool ! j) = ''work'')"
proof -
  have "(\<lambda>w w'. \<exists>ev. pool_step tg_demo_telethon True w ev w' \<and> orderly ev)\<^sup>*\<^sup>*
      (start_all tg_demo_telethon (\<lambda>_. No_fault) 0 [tg_demo_account None] [tg_demo_row]) tg_demo_pool"
    by (simp add: tg_demo_pool_def)
  from one_client_per_alias [OF _ _ this, of 0] show ?thesis using tg_demo_pool_running by simp
qed



end
