(* ===== verification/Tg_Auth_Props.thy ===== *)
theory Tg_Auth_Props
  imports Tg_Pool_Props Chat_Facts
begin

text \<open>
  Properties of the Telegram login: the stored session strings stay with the users of their
  accounts, and an accepted one carries the account over a restart.
\<close>

subsection \<open>Requests one after the other\<close>

text \<open>A request of \<^verbatim>\<open>api/auth.py\<close> with what Telethon answers to it, on whatever object the pool gave.\<close>

datatype auth_request =
    Login "string + string"
  | Code sign_in_answer "string option" sign_in_answer
  | Import bool start_fault string
  | Logout

definition serve_auth :: "telethon \<Rightarrow> string \<times> usec \<times> tg_session \<times> auth_request \<Rightarrow> tg_world \<Rightarrow> tg_world" where
  "serve_auth T call w = (case call of (alias, now, s, req) \<Rightarrow>
     snd (case req of
         Login answer \<Rightarrow> auth_login alias answer s w
       | Code answer password answer2 \<Rightarrow> auth_code alias answer password answer2 now s w
       | Import connects fault str \<Rightarrow> auth_session T connects fault alias str now s w
       | Logout \<Rightarrow> auth_logout alias s w))"

text \<open>Signed in as a user, the client saves a string of that user.\<close>

definition honest_request :: "telethon \<Rightarrow> auth_request \<Rightarrow> bool" where
  "honest_request T req = (case req of
      Code x _ y \<Rightarrow> (case x of Accepted u str \<Rightarrow> tl_owner T str = Some u | _ \<Rightarrow> True) \<and>
        (case y of Accepted u str \<Rightarrow> tl_owner T str = Some u | _ \<Rightarrow> True)
    | _ \<Rightarrow> True)"

text \<open>Every active session string is of its account's user.\<close>

definition strings_fit :: "telethon \<Rightarrow> tg_world \<Rightarrow> bool" where
  "strings_fit T w \<longleftrightarrow> distinct (map acc_id (tw_accounts w)) \<and> distinct (map acc_alias (tw_accounts w)) \<and>
     (\<forall>r \<in> set (tw_rows w). \<forall>str u. sr_is_active r \<and> sr_plaintext r = Some str \<and> tl_owner T str = Some u \<and> u \<noteq> 0 \<longrightarrow>
        (\<exists>a. account_by_id (tw_accounts w) (sr_account_id r) = Some a \<and> or_id (acc_external_user_id a) (acc_tg_user_id a) = Some u))"

lemma account_of_alias_Some:
  assumes "account_of_alias accs alias = Some a" "distinct (map acc_id accs)"
  shows "a \<in> set accs \<and> acc_alias a = alias \<and> account_by_id accs (acc_id a) = Some a"
proof -
  have a: "a \<in> set accs" "acc_alias a = alias" using one_or_none_Some [OF assms(1) [unfolded account_of_alias_def]] by simp_all
  obtain b where b: "account_by_id accs (acc_id a) = Some b"
  proof (cases "account_by_id accs (acc_id a)")
    case None
    then have "\<forall>x \<in> set accs. acc_id x \<noteq> acc_id a" by (simp add: account_by_id_def one_or_none_None)
    then show ?thesis using a(1) by blast
  qed
  then have "b \<in> set accs" "acc_id b = acc_id a" using account_by_id_Some by blast+
  then have "b = a" using a(1) assms(2) by (meson distinct_map inj_onD)
  then show ?thesis using a b by simp
qed

lemma learn_user_simps [simp]: "acc_id (learn_user u a) = acc_id a" "acc_alias (learn_user u a) = acc_alias a"
    "acc_platform (learn_user u a) = acc_platform a" "acc_is_enabled (learn_user u a) = acc_is_enabled a"
    "acc_phone (learn_user u a) = acc_phone a"
  by (simp_all add: learn_user_def)

lemma map_update_keeps: "(\<And>x. g (f x) = g x) \<Longrightarrow> map g (update_rows P f xs) = map g xs"
  by (rule map_update_rows_keep)

lemma learnt_user:
  assumes "require_same_user accs alias u = None" "account_of_alias accs alias = Some a" "u \<noteq> 0"
  shows "or_id (acc_external_user_id (learn_user u a)) (acc_tg_user_id (learn_user u a)) = Some u \<and>
    acc_external_user_id (learn_user u a) = Some u"
  using assms by (auto simp: require_same_user_def learn_user_def or_id_def Let_def split: if_splits list.splits)

lemma save_login_fits:
  assumes w: "strings_fit T w" and chk: "require_same_user (tw_accounts w) alias u = None" and o: "tl_owner T str = Some u"
  shows "strings_fit T (save_login alias (u, str) now w)"
proof (cases "str = [] \<or> account_of_alias (tw_accounts w) alias = None")
  case True
  then show ?thesis using w by (auto simp: save_login_def save_session_to_db_def)
next
  case False
  then obtain a where a: "account_of_alias (tw_accounts w) alias = Some a" "str \<noteq> []" by auto
  let ?accs = "tw_accounts w" and ?rows = "tw_rows w" and ?hit = "is_active_of (acc_id a)"
  let ?accs' = "update_rows (\<lambda>b. acc_id b = acc_id a) (learn_user u) ?accs"
  have d: "distinct (map acc_id ?accs)" "distinct (map acc_alias ?accs)" using w by (simp_all add: strings_fit_def)
  note ai = account_of_alias_Some [OF a(1) d(1)]
  show ?thesis
  proof (cases "acc_external_user_id (learn_user u a) \<noteq> acc_external_user_id a \<and> id_taken ?accs a u")
    case True
    then have "save_login alias (u, str) now w = w" using a by (simp add: save_login_def save_session_to_db_def)
    then show ?thesis using w by simp
  next
    case False
    let ?rows' = "case active_row ?rows (acc_id a) of
        None \<Rightarrow> ?rows @ [\<lparr>sr_account_id = acc_id a, sr_plaintext = Some str, sr_authorized_at = Some now,
                   sr_last_connected_at = Some now, sr_is_active = True\<rparr>]
      | Some _ \<Rightarrow> update_rows ?hit (\<lambda>r. r\<lparr>sr_plaintext := Some str, sr_authorized_at := Some now, sr_last_connected_at := Some now\<rparr>) ?rows"
    have w': "save_login alias (u, str) now w = w\<lparr>tw_accounts := ?accs', tw_rows := ?rows'\<rparr>"
      using False a by (auto simp: save_login_def save_session_to_db_def)
    have d': "distinct (map acc_id ?accs')" "distinct (map acc_alias ?accs')" using d by (simp_all add: map_update_rows_keep)
    have by_id: "account_by_id ?accs' j = (if j = acc_id a then Some (learn_user u a) else account_by_id ?accs j)" for j
      using account_update [of "learn_user u"] ai by simp
    have new: "or_id (acc_external_user_id (learn_user u a)) (acc_tg_user_id (learn_user u a)) = Some u" if "u \<noteq> 0"
      by (rule conjunct1 [OF learnt_user [OF chk a(1) that]])
    have rows: "(r \<in> set ?rows \<and> \<not> ?hit r) \<or> (sr_account_id r = acc_id a \<and> (sr_plaintext r = Some str \<or> \<not> sr_is_active r))"
      if "r \<in> set ?rows'" for r
    proof (cases "active_row ?rows (acc_id a)")
      case None
      then have "\<forall>x \<in> set ?rows. \<not> ?hit x" by (simp add: active_row_def one_or_none_None)
      then show ?thesis using that None by auto
    next
      case (Some x)
      then show ?thesis using that by (auto simp: set_update_rows is_active_of_def)
    qed
    have "\<exists>b. account_by_id ?accs' (sr_account_id r) = Some b \<and> or_id (acc_external_user_id b) (acc_tg_user_id b) = Some v"
      if r: "r \<in> set ?rows'" "sr_is_active r" "sr_plaintext r = Some s" "tl_owner T s = Some v" "v \<noteq> 0" for r s v
    proof (cases "sr_account_id r = acc_id a")
      case True
      then have "s = str" using rows [OF r(1)] r(2,3) by (auto simp: is_active_of_def)
      then show ?thesis using o r(4,5) new by_id True by auto
    next
      case False
      then have "r \<in> set ?rows" using rows [OF r(1)] by blast
      then show ?thesis using w r(2-5) by_id False unfolding strings_fit_def by auto
    qed
    then show ?thesis using d' unfolding w' strings_fit_def by simp
  qed
qed

lemma strings_fit_session [simp]: "strings_fit T (w\<lparr>tw_session := s\<rparr>) = strings_fit T w"
  by (simp add: strings_fit_def)

lemma restart_session_fits: "strings_fit T w \<Longrightarrow> strings_fit T (snd (restart_session T fault now alias w))"
  by (auto simp: restart_session_def split: option.split prod.split bool.split)

lemma clear_fits:
  assumes "strings_fit T w"
  shows "strings_fit T (w\<lparr>tw_session := None, tw_rows := clear_session_in_db alias (tw_accounts w) (tw_rows w)\<rparr>)"
proof -
  let ?rows = "clear_session_in_db alias (tw_accounts w) (tw_rows w)"
  have n: "r \<in> set (tw_rows w) \<or> \<not> sr_is_active r" if "r \<in> set ?rows" for r
    using that by (auto simp: clear_session_in_db_def deactivate_session_def set_update_rows split: option.splits)
  have "\<exists>a. account_by_id (tw_accounts w) (sr_account_id r) = Some a \<and> or_id (acc_external_user_id a) (acc_tg_user_id a) = Some u"
    if "r \<in> set ?rows" "sr_is_active r" "sr_plaintext r = Some str" "tl_owner T str = Some u" "u \<noteq> 0" for r str u
  proof -
    have "r \<in> set (tw_rows w)" using n [OF that(1)] that(2) by blast
    then show ?thesis using assms that(2-5) unfolding strings_fit_def by blast
  qed
  then show ?thesis using assms unfolding strings_fit_def by simp
qed

lemma sign_in_result:
  "sign_in x p y s = (Signed_in login, s') \<Longrightarrow> (case x of Accepted u str \<Rightarrow> tl_owner T str = Some u | _ \<Rightarrow> True) \<Longrightarrow>
    (case y of Accepted u str \<Rightarrow> tl_owner T str = Some u | _ \<Rightarrow> True) \<Longrightarrow> tl_owner T (snd login) = Some (fst login)"
  by (auto simp: sign_in_def Let_def split: option.splits sign_in_answer.splits if_splits)

lemma import_result: "import_session T c str s = (Signed_in login, s') \<Longrightarrow> tl_owner T (snd login) = Some (fst login) \<and> snd login = str"
  by (auto simp: import_session_def Let_def split: if_splits option.splits)

lemma serve_auth_fits:
  assumes w: "strings_fit T w" and h: "honest_request T req"
  shows "strings_fit T (serve_auth T (alias, now, s, req) w)"
proof (cases req)
  case (Login answer)
  then show ?thesis using w by (auto simp: serve_auth_def auth_login_def split: option.split prod.split)
next
  case (Code x p y)
  obtain r s' where r: "sign_in x p y s = (r, s')" by (rule prod.exhaust)
  show ?thesis
  proof (cases r)
    case (Signed_in login)
    have o: "tl_owner T (snd login) = Some (fst login)"
    proof (rule sign_in_result)
      show "sign_in x p y s = (Signed_in login, s')" using r Signed_in by simp
    qed (use h Code in \<open>simp_all add: honest_request_def\<close>)
    have "strings_fit T (save_login alias login now (w\<lparr>tw_session := Some s'\<rparr>))" if "require_same_user (tw_accounts w) alias (fst login) = None"
      using save_login_fits [of T "w\<lparr>tw_session := Some s'\<rparr>" "alias" "fst login" "snd login" now] w that o by simp
    then show ?thesis using Code r Signed_in w
      by (auto simp: serve_auth_def auth_code_def refuse_user_def Let_def split: option.split)
  qed (use Code r w in \<open>simp_all add: serve_auth_def auth_code_def\<close>)
next
  case (Import c fault str)
  obtain r s' where r: "import_session T c str s = (r, s')" by (rule prod.exhaust)
  show ?thesis
  proof (cases r)
    case (Signed_in login)
    have o: "tl_owner T (snd login) = Some (fst login)" by (rule conjunct1 [OF import_result [OF r [unfolded Signed_in]]])
    have "strings_fit T (save_login alias login now (w\<lparr>tw_session := Some s'\<rparr>))" if "require_same_user (tw_accounts w) alias (fst login) = None"
      using save_login_fits [of T "w\<lparr>tw_session := Some s'\<rparr>" "alias" "fst login" "snd login" now] w that o by simp
    note f = restart_session_fits [OF this, where fault = fault and now = now]
    show ?thesis
    proof (cases "require_same_user (tw_accounts w) alias (fst login)")
      case None
      obtain b w2 where b: "restart_session T fault now alias (save_login alias login now (w\<lparr>tw_session := Some s'\<rparr>)) = (b, w2)"
        by (rule prod.exhaust)
      then show ?thesis using f [OF None, of "alias"] Import r Signed_in None
        by (cases b) (simp_all add: serve_auth_def auth_session_def Let_def)
    next
      case (Some detail)
      then show ?thesis using Import r Signed_in w by (simp add: serve_auth_def auth_session_def refuse_user_def Let_def)
    qed
  qed (use Import r w in \<open>simp_all add: serve_auth_def auth_session_def\<close>)
next
  case Logout
  obtain r s' where r: "tg_logout s = (r, s')" by (rule prod.exhaust)
  show ?thesis using Logout r w clear_fits [OF w] by (cases r) (simp_all add: serve_auth_def auth_logout_def)
qed

text \<open>
  C36 Stored sessions stay with their users. However logins, imports and logouts of the accounts
  follow one another, also refused and failed ones, every active session string belongs to the user
  its account is bound to.
\<close>

theorem stored_session_is_the_accounts:
  assumes "strings_fit T w" "\<forall>(alias, now, s, req) \<in> set calls. honest_request T req"
  shows "strings_fit T (fold (serve_auth T) calls w)"
  using assms
proof (induction calls arbitrary: w)
  case (Cons call calls)
  obtain al now s req where c: "call = (al, now, s, req)" by (metis prod_cases4)
  have "strings_fit T (serve_auth T call w)" unfolding c by (rule serve_auth_fits) (use Cons.prems c in auto)
  then show ?case using Cons by simp
qed simp

definition tg_demo_world :: tg_world where
  "tg_demo_world = \<lparr>tw_session = None, tw_accounts = [tg_demo_account None], tw_rows = []\<rparr>"

text \<open>An import of user 7, and after it a refused one of user 8.\<close>

definition tg_demo_calls :: "(string \<times> usec \<times> tg_session \<times> auth_request) list" where
  "tg_demo_calls = [(''work'', 0, new_tg_session ''work'' [] None (Some 1), Import True No_fault ''A''),
     (''work'', 1, new_tg_session ''work'' [] None (Some 1), Import True No_fault ''B'')]"

theorem stored_session_is_the_accounts_witness:
  "strings_fit tg_demo_telethon (fold (serve_auth tg_demo_telethon) tg_demo_calls tg_demo_world) \<and>
     load_raw (tw_rows (fold (serve_auth tg_demo_telethon) tg_demo_calls tg_demo_world)) 1 = Some ''A''"
proof
  show "strings_fit tg_demo_telethon (fold (serve_auth tg_demo_telethon) tg_demo_calls tg_demo_world)"
    by (rule stored_session_is_the_accounts)
      (simp_all add: tg_demo_calls_def honest_request_def strings_fit_def tg_demo_world_def)
  show "load_raw (tw_rows (fold (serve_auth tg_demo_telethon) tg_demo_calls tg_demo_world)) 1 = Some ''A''"
    by code_simp
qed

text \<open>
  The check and the save are transactions of their own: two first logins at once both pass the
  check, the account is bound to the first user and keeps the string of the second.
\<close>

lemma two_first_logins:
  assumes "u1 \<noteq> 0" "u2 \<noteq> 0" "u1 \<noteq> u2"
  shows "let accs = [tg_demo_account None]; first = save_session_to_db ''work'' s1 u1 0 (accs, []);
           second = save_session_to_db ''work'' s2 u2 1 first
     in require_same_user accs ''work'' u1 = None \<and> require_same_user accs ''work'' u2 = None \<and>
        external_of (fst second) 1 = Some u1 \<and> load_raw (snd second) 1 = Some s2"
  using assms
  by (simp add: Let_def require_same_user_def account_of_alias_def one_or_none_def tg_demo_account_def save_session_to_db_def
      learn_user_def or_id_def id_taken_def update_rows_def active_row_def is_active_of_def external_of_def account_by_id_def load_raw_def)

subsection \<open>After a restart\<close>








end
