(* ===== verification/Max_Pool.thy ===== *)
theory Max_Pool
  imports Max_Session "HOL-Library.AList"
begin

text \<open>
  The pool of MAX sessions (\<^verbatim>\<open>app/max/pool.py\<close>) as interleaved steps. One lock guards the making of
  session objects; its queue holds the waiting calls of \<^verbatim>\<open>get\<close>, the head has it.
  \<^verbatim>\<open>stop_alias\<close> and \<^verbatim>\<open>start\<close> do not take it. Objects are the session objects ever made.
\<close>

text \<open>\<^verbatim>\<open>_load_accounts\<close>: the enabled MAX accounts, of one alias or of all, by id.\<close>

definition load_max_accounts :: "account list \<Rightarrow> string option \<Rightarrow> account list" where
  "load_max_accounts accs alias =
    sort_key acc_id (filter (\<lambda>a. acc_platform a = ''max'' \<and> acc_is_enabled a \<and>
      (case alias of None \<Rightarrow> True | Some x \<Rightarrow> acc_alias a = x)) accs)"

definition make_max_session :: "account \<Rightarrow> session" where
  "make_max_session a = new_session (acc_id a) (acc_alias a) (acc_phone a)"

text \<open>A call of \<^verbatim>\<open>get\<close> that found no session: at the lock, at its read, with the answer of the read.\<close>

datatype max_task =
    Wants string
  | Reads string
  | Has_read string "account list"

text \<open>A call of \<^verbatim>\<open>start\<close>: before and after the read of the stored transport.\<close>

datatype start_stage = Started | Transport_read "string option"

record max_pool_world =
  mp_objects :: "session list"
  mp_sessions :: "(string \<times> nat) list"
  mp_queue :: "max_task list"
  mp_starting :: "(nat \<times> start_stage) list"
  mp_stopping :: "nat list"
  mp_accounts :: "account list"
  mp_rows :: session_rows

datatype max_pool_event =
    Max_gives string nat
  | Max_refuses string
  | Max_removes string nat
  | Max_quiet

definition empty_max_pool :: "account list \<Rightarrow> session_rows \<Rightarrow> max_pool_world" where
  "empty_max_pool accs rows = \<lparr>mp_objects = [], mp_sessions = [], mp_queue = [], mp_starting = [], mp_stopping = [],
     mp_accounts = accs, mp_rows = rows\<rparr>"

definition set_max_object :: "nat \<Rightarrow> session \<Rightarrow> max_pool_world \<Rightarrow> max_pool_world" where
  "set_max_object i s w = w\<lparr>mp_objects := (mp_objects w)[i := s]\<rparr>"

definition enter_max_pool :: "string \<Rightarrow> session \<Rightarrow> max_pool_world \<Rightarrow> max_pool_world" where
  "enter_max_pool a s w =
    w\<lparr>mp_objects := mp_objects w @ [s], mp_sessions := AList.update a (length (mp_objects w)) (mp_sessions w)\<rparr>"

definition free_max_lock :: "max_pool_world \<Rightarrow> max_pool_world" where
  "free_max_lock w = w\<lparr>mp_queue := tl (mp_queue w)\<rparr>"

text \<open>\<^verbatim>\<open>stop\<close> and the second half of \<^verbatim>\<open>start\<close> on the session object alone, as \<^term>\<open>stop\<close> and \<^term>\<open>spawn\<close> do them.\<close>

definition max_stopped :: "session \<Rightarrow> session" where
  "max_stopped s = sp_session (stop (\<lparr>sp_session = s, sp_accounts = [], sp_rows = [], sp_sup = None\<rparr> :: unit supervised))"

definition max_started :: "bool \<Rightarrow> string \<Rightarrow> usec \<Rightarrow> string option \<Rightarrow> session \<Rightarrow> session" where
  "max_started require_proxy proxy_url now transport s =
    (case transport of
       None \<Rightarrow> set_state Stopped None (s\<lparr>ms_transport := None\<rparr>)
     | Some t \<Rightarrow> sp_session (spawn require_proxy proxy_url now t None False False
         (\<lparr>sp_session = s, sp_accounts = [], sp_rows = [], sp_sup = None\<rparr> :: unit supervised)))"

text \<open>
  The steps: \<^verbatim>\<open>get\<close> with its second look under the lock, also when the read fails; \<^verbatim>\<open>stop_alias\<close>,
  which removes the session first and then waits for its end; \<^verbatim>\<open>start\<close> of an object at hand.
  \<^verbatim>\<open>start_all\<close> and \<^verbatim>\<open>restart\<close> are sequences of these. Meanwhile a session changes by its own
  steps and the tables by other requests.
\<close>

inductive max_pool_step :: "'i pymax \<Rightarrow> bool \<Rightarrow> string \<Rightarrow> max_pool_world \<Rightarrow> max_pool_event \<Rightarrow> max_pool_world \<Rightarrow> bool"
  for pm require_proxy proxy_url where
  get_fast: "map_of (mp_sessions w) a = Some i \<Longrightarrow> max_pool_step pm require_proxy proxy_url w (Max_gives a i) w"
| get_waits: "map_of (mp_sessions w) a = None \<Longrightarrow>
    max_pool_step pm require_proxy proxy_url w Max_quiet (w\<lparr>mp_queue := mp_queue w @ [Wants a]\<rparr>)"
| get_again: "\<lbrakk>mp_queue w = Wants a # q; map_of (mp_sessions w) a = Some i\<rbrakk> \<Longrightarrow>
    max_pool_step pm require_proxy proxy_url w (Max_gives a i) (free_max_lock w)"
| get_reads: "\<lbrakk>mp_queue w = Wants a # q; map_of (mp_sessions w) a = None\<rbrakk> \<Longrightarrow>
    max_pool_step pm require_proxy proxy_url w Max_quiet (w\<lparr>mp_queue := Reads a # q\<rparr>)"
| get_has_read: "mp_queue w = Reads a # q \<Longrightarrow>
    max_pool_step pm require_proxy proxy_url w Max_quiet
      (w\<lparr>mp_queue := Has_read a (load_max_accounts (mp_accounts w) (Some a)) # q\<rparr>)"
| get_fails: "mp_queue w = Reads a # q \<Longrightarrow> max_pool_step pm require_proxy proxy_url w Max_quiet (free_max_lock w)"
| get_unknown: "mp_queue w = Has_read a [] # q \<Longrightarrow>
    max_pool_step pm require_proxy proxy_url w (Max_refuses a) (free_max_lock w)"
| get_makes: "mp_queue w = Has_read a (acc # accs) # q \<Longrightarrow>
    max_pool_step pm require_proxy proxy_url w (Max_gives a (length (mp_objects w)))
      (free_max_lock (enter_max_pool a (make_max_session acc) w))"
| stop_none: "map_of (mp_sessions w) a = None \<Longrightarrow> max_pool_step pm require_proxy proxy_url w Max_quiet w"
| stop_removes: "map_of (mp_sessions w) a = Some i \<Longrightarrow>
    max_pool_step pm require_proxy proxy_url w (Max_removes a i)
      (w\<lparr>mp_sessions := AList.delete a (mp_sessions w), mp_stopping := i # mp_stopping w\<rparr>)"
| stop_ends: "i \<in> set (mp_stopping w) \<Longrightarrow>
    max_pool_step pm require_proxy proxy_url w Max_quiet
      (set_max_object i (max_stopped (mp_objects w ! i)) (w\<lparr>mp_stopping := remove1 i (mp_stopping w)\<rparr>))"
| start_begins: "\<lbrakk>i < length (mp_objects w); \<not> ms_running (mp_objects w ! i)\<rbrakk> \<Longrightarrow>
    max_pool_step pm require_proxy proxy_url w Max_quiet (w\<lparr>mp_starting := (i, Started) # mp_starting w\<rparr>)"
| start_reads: "(i, Started) \<in> set (mp_starting w) \<Longrightarrow>
    max_pool_step pm require_proxy proxy_url w Max_quiet
      (w\<lparr>mp_starting := (i, Transport_read (load_stored_transport pm (mp_rows w) (ms_account_id (mp_objects w ! i))))
        # remove1 (i, Started) (mp_starting w)\<rparr>)"
| start_ends: "(i, Transport_read t) \<in> set (mp_starting w) \<Longrightarrow>
    max_pool_step pm require_proxy proxy_url w Max_quiet
      (set_max_object i (max_started require_proxy proxy_url now t (mp_objects w ! i))
        (w\<lparr>mp_starting := remove1 (i, Transport_read t) (mp_starting w)\<rparr>))"
| session_changes: "\<lbrakk>ms_account_id s = ms_account_id (mp_objects w ! i); ms_alias s = ms_alias (mp_objects w ! i)\<rbrakk> \<Longrightarrow>
    max_pool_step pm require_proxy proxy_url w Max_quiet (set_max_object i s w)"
| tables_change: "max_pool_step pm require_proxy proxy_url w Max_quiet (w\<lparr>mp_accounts := accs, mp_rows := rows\<rparr>)"

inductive_cases max_pool_stepE: "max_pool_step pm require_proxy proxy_url w ev w'"

end
