(* ===== verification/Max_Pool_Props.thy ===== *)
theory Max_Pool_Props
  imports Max_Pool
begin

text \<open>
  The pool of MAX sessions keeps the objects it gives out: whatever is interleaved, an object leaves
  the pool only by a stop, and the lock makes no second one while it is there.
\<close>

subsection \<open>The invariant of the pool\<close>

lemma ms_alias_set_state [simp]: "ms_alias (set_state st err s) = ms_alias s"
  by (simp add: set_state_def Let_def)

lemma ms_alias_max_stopped [simp]: "ms_alias (max_stopped s) = ms_alias s"
  by (simp add: max_stopped_def stop_def Let_def)

lemma ms_alias_max_started [simp]: "ms_alias (max_started rp url now t s) = ms_alias s"
  by (simp add: max_started_def spawn_def begin_attempt_def Let_def split: option.splits)

lemma loaded_alias: "x \<in> set (load_max_accounts accs (Some a)) \<Longrightarrow> acc_alias x = a"
  by (simp add: load_max_accounts_def)

text \<open>What the invariant needs of the objects: their aliases.\<close>

definition made :: "max_pool_world \<Rightarrow> string list" where
  "made w = map ms_alias (mp_objects w)"

definition max_pool_keys :: "max_pool_world \<Rightarrow> bool" where
  "max_pool_keys w \<longleftrightarrow> (\<forall>a i. map_of (mp_sessions w) a = Some i \<longrightarrow> i < length (made w) \<and> made w ! i = a)"

text \<open>Only the head of the queue is past its second look, and until it is done nothing enters.\<close>

definition max_head_ok :: "(string \<times> nat) list \<Rightarrow> max_task \<Rightarrow> bool" where
  "max_head_ok m t = (case t of
      Wants a \<Rightarrow> True
    | Reads a \<Rightarrow> map_of m a = None
    | Has_read a xs \<Rightarrow> map_of m a = None \<and> (\<forall>x \<in> set xs. acc_alias x = a))"

definition max_lock_ok :: "max_pool_world \<Rightarrow> bool" where
  "max_lock_ok w \<longleftrightarrow> (\<forall>t \<in> set (tl (mp_queue w)). \<exists>a. t = Wants a) \<and>
     (case mp_queue w of [] \<Rightarrow> True | t # _ \<Rightarrow> max_head_ok (mp_sessions w) t)"

definition max_all_kept :: "max_pool_event list \<Rightarrow> max_pool_world \<Rightarrow> bool" where
  "max_all_kept es w \<longleftrightarrow> (\<forall>i < length (made w).
     map_of (mp_sessions w) (made w ! i) = Some i \<or> Max_removes (made w ! i) i \<in> set es)"

text \<open>An object given out and not removed since is the pool's.\<close>

definition max_given_stays :: "max_pool_event list \<Rightarrow> max_pool_world \<Rightarrow> bool" where
  "max_given_stays es w \<longleftrightarrow> (\<forall>xs ys a i. es = xs @ Max_gives a i # ys \<and> (\<forall>k. Max_removes a k \<notin> set ys) \<longrightarrow>
     map_of (mp_sessions w) a = Some i)"

definition max_given_known :: "max_pool_event list \<Rightarrow> max_pool_world \<Rightarrow> bool" where
  "max_given_known es w \<longleftrightarrow> (\<forall>a i. Max_gives a i \<in> set es \<longrightarrow> i < length (made w) \<and> made w ! i = a)"

definition max_pool_inv :: "max_pool_event list \<Rightarrow> max_pool_world \<Rightarrow> bool" where
  "max_pool_inv es w \<longleftrightarrow> max_pool_keys w \<and> max_lock_ok w \<and> max_all_kept es w \<and> max_given_stays es w \<and>
     max_given_known es w"

lemma empty_max_pool_inv: "max_pool_inv [] (empty_max_pool accs rows)"
  by (simp add: max_pool_inv_def empty_max_pool_def max_pool_keys_def max_lock_ok_def max_all_kept_def max_given_stays_def
      max_given_known_def made_def)

lemma wants_head_ok: "\<forall>t \<in> set q. \<exists>a. t = Wants a \<Longrightarrow> (case q of [] \<Rightarrow> True | t # _ \<Rightarrow> max_head_ok m t)"
  by (auto simp: max_head_ok_def split: list.split)

lemma wants_tl: "\<forall>t \<in> set q. \<exists>a. t = Wants a \<Longrightarrow> \<forall>t \<in> set (tl q). \<exists>a. t = Wants a"
  by (cases q) auto

lemmas pool_parts = set_max_object_def enter_max_pool_def free_max_lock_def

lemma made_set [simp]: "ms_alias s = ms_alias (mp_objects w ! i) \<Longrightarrow> made (set_max_object i s w) = made w"
  by (cases "i < length (mp_objects w)")
     (simp_all add: made_def set_max_object_def map_update list_update_same_conv list_update_beyond)

lemma step_lock:
  assumes "max_pool_step pm rp url w ev w'" and "max_lock_ok w"
  shows "max_lock_ok w'"
  using assms
  by (elim max_pool_stepE)
     (auto simp: max_lock_ok_def pool_parts delete_conv' wants_head_ok wants_tl max_head_ok_def loaded_alias
        split: list.splits max_task.splits)

text \<open>
  What a step is on the table of the pool: it leaves it and gives only what is there, removes an
  entry, or enters a new object under an alias that has none.
\<close>

datatype pool_change = Kept | Removed string nat | Made string

definition pool_change_ok :: "pool_change \<Rightarrow> max_pool_world \<Rightarrow> max_pool_event \<Rightarrow> max_pool_world \<Rightarrow> bool" where
  "pool_change_ok c w ev w' = (case c of
      Kept \<Rightarrow> mp_sessions w' = mp_sessions w \<and> made w' = made w \<and>
        (\<forall>a i. ev = Max_gives a i \<longrightarrow> map_of (mp_sessions w) a = Some i) \<and> (\<forall>a i. ev \<noteq> Max_removes a i)
    | Removed a i \<Rightarrow> ev = Max_removes a i \<and> map_of (mp_sessions w) a = Some i \<and>
        mp_sessions w' = AList.delete a (mp_sessions w) \<and> made w' = made w
    | Made a \<Rightarrow> ev = Max_gives a (length (made w)) \<and> map_of (mp_sessions w) a = None \<and>
        mp_sessions w' = AList.update a (length (made w)) (mp_sessions w) \<and> made w' = made w @ [a])"

lemma step_change:
  assumes "max_pool_step pm rp url w ev w'" and "max_lock_ok w"
  obtains c where "pool_change_ok c w ev w'"
  using assms(1)
proof (cases rule: max_pool_step.cases)
  case (stop_removes a i)
  then show thesis by (intro that [of "Removed a i"]) (simp add: pool_change_ok_def made_def)
next
  case (get_makes a acc accs q)
  then have "map_of (mp_sessions w) a = None" "acc_alias acc = a"
    using assms(2) by (auto simp: max_lock_ok_def max_head_ok_def)
  with get_makes show thesis
    by (intro that [of "Made a"]) (simp add: pool_change_ok_def made_def pool_parts make_max_session_def new_session_def)
qed (rule that [of Kept], simp add: pool_change_ok_def; simp add: made_def free_max_lock_def set_max_object_def map_update list_update_same_conv)+

lemma change_keys: "pool_change_ok c w ev w' \<Longrightarrow> max_pool_keys w \<Longrightarrow> max_pool_keys w'"
  by (cases c) (auto simp: pool_change_ok_def max_pool_keys_def update_conv' delete_conv' nth_append less_Suc_eq split: if_splits)

lemma change_kept: "pool_change_ok c w ev w' \<Longrightarrow> max_pool_keys w \<Longrightarrow> max_all_kept es w \<Longrightarrow> max_all_kept (es @ [ev]) w'"
  by (cases c) (auto simp: pool_change_ok_def max_all_kept_def update_conv' delete_conv' nth_append less_Suc_eq split: if_splits)

lemma change_stays:
  assumes "pool_change_ok c w ev w'" and "max_given_stays es w"
  shows "max_given_stays (es @ [ev]) w'"
  unfolding max_given_stays_def
proof (intro allI impI, elim conjE)
  fix xs ys a i
  assume e: "es @ [ev] = xs @ Max_gives a i # ys" and n: "\<forall>k. Max_removes a k \<notin> set ys"
  show "map_of (mp_sessions w') a = Some i"
  proof (cases ys rule: rev_cases)
    case Nil
    then show ?thesis using e assms(1) by (cases c) (auto simp: pool_change_ok_def update_conv')
  next
    case (snoc zs z)
    then have "es = xs @ Max_gives a i # zs" "\<forall>k. Max_removes a k \<notin> set zs" "\<forall>k. ev \<noteq> Max_removes a k"
      using e n by auto
    then have "map_of (mp_sessions w) a = Some i" "\<forall>k. ev \<noteq> Max_removes a k"
      using assms(2) unfolding max_given_stays_def by blast+
    then show ?thesis using assms(1) by (cases c) (auto simp: pool_change_ok_def update_conv' delete_conv')
  qed
qed

lemma change_known:
  "pool_change_ok c w ev w' \<Longrightarrow> max_pool_keys w \<Longrightarrow> max_given_known es w \<Longrightarrow> max_given_known (es @ [ev]) w'"
  by (cases c) (auto simp: pool_change_ok_def max_pool_keys_def max_given_known_def nth_append intro: less_SucI)

interpretation max_pool: traced "max_pool_step pm rp url" max_pool_inv for pm rp url
proof (unfold_locales)
  fix w ev w' es
  assume s: "max_pool_step pm rp url w ev w'" and i: "max_pool_inv es w"
  obtain c where c: "pool_change_ok c w ev w'" using step_change [OF s] i by (auto simp: max_pool_inv_def)
  show "max_pool_inv (es @ [ev]) w'"
    using i step_lock [OF s] change_keys [OF c] change_kept [OF c] change_stays [OF c] change_known [OF c]
    by (simp add: max_pool_inv_def)
qed

subsection \<open>One session per alias\<close>

text \<open>
  C39 One MAX session per alias. From the start of the service, under every interleaving of
  requests, starts, stops and changes of the tables, a session object that no stop has removed is
  the pool's one for its alias, so there are no two of an alias; every object that was given out is
  of the alias asked for; and two calls of \<^verbatim>\<open>get\<close> between which no stop removes the alias's session
  return the same object.
\<close>

theorem one_max_session_per_alias:
  assumes run: "run_of (max_pool_step pm rp url) (empty_max_pool accs rows) es w"
  shows "(\<forall>i < length (mp_objects w). Max_removes (ms_alias (mp_objects w ! i)) i \<notin> set es \<longrightarrow>
       map_of (mp_sessions w) (ms_alias (mp_objects w ! i)) = Some i) \<and>
     (\<forall>a i. Max_gives a i \<in> set es \<longrightarrow> i < length (mp_objects w) \<and> ms_alias (mp_objects w ! i) = a) \<and>
     (\<forall>xs ys zs a i j. es = xs @ Max_gives a i # ys @ Max_gives a j # zs \<and> (\<forall>k. Max_removes a k \<notin> set ys) \<longrightarrow> i = j)"
proof (intro conjI allI impI)
  have inv: "max_pool_inv es w" by (rule max_pool.run_inv [OF run empty_max_pool_inv])
  fix i assume "i < length (mp_objects w)" "Max_removes (ms_alias (mp_objects w ! i)) i \<notin> set es"
  then show "map_of (mp_sessions w) (ms_alias (mp_objects w ! i)) = Some i"
    using inv by (auto simp: max_pool_inv_def max_all_kept_def made_def)
next
  have inv: "max_pool_inv es w" by (rule max_pool.run_inv [OF run empty_max_pool_inv])
  fix a i assume "Max_gives a i \<in> set es"
  then have "i < length (made w) \<and> made w ! i = a"
    using inv unfolding max_pool_inv_def max_given_known_def by blast
  then show "i < length (mp_objects w)" "ms_alias (mp_objects w ! i) = a" by (auto simp: made_def)
next
  fix xs ys zs a i j
  assume e: "es = xs @ Max_gives a i # ys @ Max_gives a j # zs \<and> (\<forall>k. Max_removes a k \<notin> set ys)"
  let ?es = "xs @ Max_gives a i # ys @ [Max_gives a j]"
  from run e have "run_of (max_pool_step pm rp url) (empty_max_pool accs rows) (?es @ zs) w" by simp
  from run_of_prefix [OF this] obtain u where "run_of (max_pool_step pm rp url) (empty_max_pool accs rows) ?es u" ..
  then have "max_pool_inv ?es u" by (rule max_pool.run_inv [OF _ empty_max_pool_inv])
  then have "max_given_stays ?es u" by (simp add: max_pool_inv_def)
  then have s: "\<And>xs ys i. ?es = xs @ Max_gives a i # ys \<Longrightarrow> (\<forall>k. Max_removes a k \<notin> set ys) \<Longrightarrow> map_of (mp_sessions u) a = Some i"
    unfolding max_given_stays_def by blast
  have "map_of (mp_sessions u) a = Some i" by (rule s [of xs _ "ys @ [Max_gives a j]"]) (use e in auto)
  moreover have "map_of (mp_sessions u) a = Some j" by (rule s [of "xs @ Max_gives a i # ys" _ "[]"]) auto
  ultimately show "i = j" by simp
qed

definition demo_max_account :: account where
  "demo_max_account = \<lparr>acc_id = 1, acc_alias = ''home'', acc_phone = ''+70000000000'', acc_mode = ''rw'', acc_is_enabled = True,
     acc_platform = ''max'', acc_platform_user_id = None, acc_write_chat_ids = None, acc_write_rate_per_hour = None,
     acc_external_user_id = None, acc_tg_user_id = None, acc_display_name = None, acc_watch_chat_ids = None, acc_notes = None\<rparr>"

definition demo_max_pool :: "max_task list \<Rightarrow> (nat \<times> start_stage) list \<Rightarrow> session_rows \<Rightarrow> max_pool_world" where
  "demo_max_pool q st rows = \<lparr>mp_objects = [make_max_session demo_max_account], mp_sessions = [(''home'', 0)], mp_queue = q,
     mp_starting = st, mp_stopping = [], mp_accounts = [demo_max_account], mp_rows = rows\<rparr>"

lemma pool_more:
  "run_of (max_pool_step pm rp url) w es w' \<Longrightarrow> max_pool_step pm rp url w' ev w'' \<Longrightarrow>
    run_of (max_pool_step pm rp url) w (es @ [ev]) w''"
  by (rule run_of.more)

text \<open>Two calls arrive before the first has made the session; the second waits and gets the same.\<close>

lemma two_calls_one_session:
  "run_of (max_pool_step pm rp url) (empty_max_pool [demo_max_account] rows)
     [Max_quiet, Max_quiet, Max_quiet, Max_quiet, Max_gives ''home'' 0, Max_gives ''home'' 0] (demo_max_pool [] [] rows)"
proof -
  let ?w = "empty_max_pool [demo_max_account] rows"
  let ?R = "run_of (max_pool_step pm rp url) ?w"
  have "?R [] ?w" by (rule run_of.start)
  from pool_more [OF this max_pool_step.get_waits [of _ "''home''"]]
  have "?R [Max_quiet] (?w\<lparr>mp_queue := [Wants ''home'']\<rparr>)" by (simp add: empty_max_pool_def)
  from pool_more [OF this max_pool_step.get_waits [of _ "''home''"]]
  have "?R [Max_quiet, Max_quiet] (?w\<lparr>mp_queue := [Wants ''home'', Wants ''home'']\<rparr>)" by (simp add: empty_max_pool_def)
  from pool_more [OF this max_pool_step.get_reads [of _ "''home''" "[Wants ''home'']"]]
  have "?R [Max_quiet, Max_quiet, Max_quiet] (?w\<lparr>mp_queue := [Reads ''home'', Wants ''home'']\<rparr>)" by (simp add: empty_max_pool_def)
  from pool_more [OF this max_pool_step.get_has_read [of _ "''home''" "[Wants ''home'']"]]
  have "?R [Max_quiet, Max_quiet, Max_quiet, Max_quiet] (?w\<lparr>mp_queue := [Has_read ''home'' [demo_max_account], Wants ''home'']\<rparr>)"
    by (simp add: empty_max_pool_def load_max_accounts_def demo_max_account_def)
  from pool_more [OF this max_pool_step.get_makes [of _ "''home''" demo_max_account "[]" "[Wants ''home'']"]]
  have "?R [Max_quiet, Max_quiet, Max_quiet, Max_quiet, Max_gives ''home'' 0] (demo_max_pool [Wants ''home''] [] rows)"
    by (simp add: empty_max_pool_def demo_max_pool_def pool_parts)
  from pool_more [OF this max_pool_step.get_again [of _ "''home''" "[]" 0]]
  show ?thesis by (simp add: demo_max_pool_def free_max_lock_def)
qed

theorem one_max_session_per_alias_witness:
  "map_of (mp_sessions (demo_max_pool [] [] [])) ''home'' = Some 0 \<and> ms_alias (mp_objects (demo_max_pool [] [] []) ! 0) = ''home'' \<and>
     0 < length (mp_objects (demo_max_pool [] [] []))"
proof -
  note run = two_calls_one_session [of "undefined :: unit pymax" False "[]" "[]"]
  have "0 < length (mp_objects (demo_max_pool [] [] []))" "ms_alias (mp_objects (demo_max_pool [] [] []) ! 0) = ''home''"
    by (simp_all add: demo_max_pool_def make_max_session_def new_session_def demo_max_account_def)
  moreover have "map_of (mp_sessions (demo_max_pool [] [] [])) (ms_alias (mp_objects (demo_max_pool [] [] []) ! 0)) = Some 0"
    using conjunct1 [OF one_max_session_per_alias [OF run], rule_format, of 0] \<open>0 < length _\<close> by simp
  ultimately show ?thesis by simp
qed

text \<open>
  A call of \<^verbatim>\<open>start\<close> that waits for its read does not notice that its object was removed: after the
  stop of a disabled account has ended the session runs, and the pool cannot reach it any more.
\<close>

lemma removed_session_runs:
  assumes t: "load_stored_transport pm rows 1 = Some t" and proxy: "proxy_ok rp url"
  shows "\<exists>es w. run_of (max_pool_step pm rp url) (empty_max_pool [demo_max_account] rows) es w \<and>
    mp_sessions w = [] \<and> mp_stopping w = [] \<and> mp_starting w = [] \<and> load_max_accounts (mp_accounts w) (Some ''home'') = [] \<and>
    ms_alias (mp_objects w ! 0) = ''home'' \<and> ms_running (mp_objects w ! 0)"
proof -
  let ?R = "run_of (max_pool_step pm rp url) (empty_max_pool [demo_max_account] rows)"
  let ?w = "demo_max_pool [] [] rows"
  let ?s = "make_max_session demo_max_account"
  obtain e0 where "?R e0 ?w" using two_calls_one_session by blast
  from pool_more [OF this max_pool_step.start_begins [of 0]]
  obtain e1 where "?R e1 (?w\<lparr>mp_starting := [(0, Started)]\<rparr>)" by (auto simp: demo_max_pool_def make_max_session_def new_session_def)
  from pool_more [OF this max_pool_step.start_reads [of 0]]
  obtain e2 where "?R e2 (?w\<lparr>mp_starting := [(0, Transport_read (Some t))]\<rparr>)"
    using t by (auto simp: demo_max_pool_def make_max_session_def new_session_def demo_max_account_def)
  let ?off = "[demo_max_account\<lparr>acc_is_enabled := False\<rparr>]"
  have "?R e2 (?w\<lparr>mp_starting := [(0, Transport_read (Some t))]\<rparr>)" by fact
  from pool_more [OF this max_pool_step.tables_change [where accs = ?off and rows = rows]]
  obtain e3 where "?R e3 (?w\<lparr>mp_starting := [(0, Transport_read (Some t))], mp_accounts := ?off\<rparr>)"
    by (auto simp: demo_max_pool_def)
  from pool_more [OF this max_pool_step.stop_removes [of _ "''home''" 0]]
  obtain e4 where "?R e4 (?w\<lparr>mp_starting := [(0, Transport_read (Some t))], mp_accounts := ?off,
      mp_sessions := [], mp_stopping := [0]\<rparr>)" by (auto simp: demo_max_pool_def)
  from pool_more [OF this max_pool_step.stop_ends [of 0]]
  obtain e5 where "?R e5 (?w\<lparr>mp_starting := [(0, Transport_read (Some t))], mp_accounts := ?off,
      mp_sessions := [], mp_objects := [max_stopped ?s]\<rparr>)" by (auto simp: demo_max_pool_def set_max_object_def)
  note last = pool_more [OF this max_pool_step.start_ends [of 0 "Some t"]]
  let ?f = "?w\<lparr>mp_starting := [], mp_accounts := ?off, mp_sessions := [],
      mp_objects := [max_started rp url 0 (Some t) (max_stopped ?s)]\<rparr>"
  from last obtain e6 where run: "?R e6 ?f" by (auto simp: demo_max_pool_def set_max_object_def)
  have "ms_running (mp_objects ?f ! 0)"
    using proxy by (simp add: max_started_def spawn_def begin_attempt_def Let_def split: prod.splits)
  moreover have "mp_sessions ?f = []" "mp_stopping ?f = []" "mp_starting ?f = []" "ms_alias (mp_objects ?f ! 0) = ''home''"
      "load_max_accounts (mp_accounts ?f) (Some ''home'') = []"
    by (simp_all add: demo_max_pool_def load_max_accounts_def make_max_session_def new_session_def demo_max_account_def)
  ultimately show ?thesis using run by blast
qed

end
