(* ===== verification/Mcp_Files.thy ===== *)
theory Mcp_Files
  imports Middleware Raw_Json
begin

text \<open>
  Files of remote agents (\<^verbatim>\<open>app/mcp/files.py\<close>, \<^verbatim>\<open>app/api/files.py\<close>): signed links, uploads kept
  under the account's directory, downloads from a URL. base64 is written out as Python has it;
  HMAC-SHA256, JSON texts, \<^verbatim>\<open>urlparse\<close>, name resolution, \<^verbatim>\<open>ipaddress\<close> and aiohttp's GET are fields
  of the environment. Bytes are characters below 256.
\<close>

subsection \<open>base64\<close>

definition B64_ALPHABET :: string where
  "B64_ALPHABET = ''ABCDEFGHIJKLMNOPQRSTUVWXYZabcdefghijklmnopqrstuvwxyz0123456789-_''"

definition b64_char :: "nat \<Rightarrow> char" where
  "b64_char n = B64_ALPHABET ! n"

definition byte :: "char \<Rightarrow> nat" where
  "byte c = of_char c"

text \<open>\<^verbatim>\<open>base64.urlsafe_b64encode\<close>.\<close>

fun urlsafe_b64encode :: "string \<Rightarrow> string" where
  "urlsafe_b64encode [] = []"
| "urlsafe_b64encode [a] = [b64_char (byte a div 4), b64_char (byte a mod 4 * 16), CHR ''='', CHR ''='']"
| "urlsafe_b64encode [a, b] =
     [b64_char (byte a div 4), b64_char (byte a mod 4 * 16 + byte b div 16), b64_char (byte b mod 16 * 4), CHR ''='']"
| "urlsafe_b64encode (a # b # c # s) =
     [b64_char (byte a div 4), b64_char (byte a mod 4 * 16 + byte b div 16),
      b64_char (byte b mod 16 * 4 + byte c div 64), b64_char (byte c mod 64)] @ urlsafe_b64encode s"

text \<open>The value of a character: the URL alphabet is translated, the plain one stays valid.\<close>

definition b64_value :: "char \<Rightarrow> nat option" where
  "b64_value c = map_of (zip (B64_ALPHABET @ ''+/'') ([0..<64] @ [62, 63])) c"

text \<open>
  \<^verbatim>\<open>binascii.a2b_base64\<close>, not strict: characters outside the alphabet are skipped, a complete
  padding ends the text. State: the bits left over, the place in the quad, the padding seen.
  \<^term>\<open>None\<close> is \<^verbatim>\<open>binascii.Error\<close>.
\<close>

fun a2b_base64 :: "nat \<Rightarrow> nat \<Rightarrow> nat \<Rightarrow> string \<Rightarrow> string option" where
  "a2b_base64 left quad pads [] = (if quad = 0 then Some [] else None)"
| "a2b_base64 left quad pads (c # s) =
    (if c = CHR ''='' then
       (if 2 \<le> quad then (if 4 \<le> quad + (pads + 1) then Some [] else a2b_base64 left quad (pads + 1) s)
        else a2b_base64 left quad pads s)
     else
      (case b64_value c of
         None \<Rightarrow> a2b_base64 left quad pads s
       | Some v \<Rightarrow>
          (if quad = 0 then a2b_base64 v 1 0 s
           else if quad = 1 then map_option (Cons (char_of (left * 4 + v div 16))) (a2b_base64 (v mod 16) 2 0 s)
           else if quad = 2 then map_option (Cons (char_of (left * 16 + v div 4))) (a2b_base64 (v mod 4) 3 0 s)
           else map_option (Cons (char_of (left * 64 + v))) (a2b_base64 0 0 0 s))))"

text \<open>\<^verbatim>\<open>base64.urlsafe_b64decode\<close>: a text that is not ASCII is a \<^verbatim>\<open>ValueError\<close>.\<close>

definition is_ascii :: "string \<Rightarrow> bool" where
  "is_ascii s = list_all (\<lambda>c. byte c < 128) s"

definition urlsafe_b64decode :: "string \<Rightarrow> string option" where
  "urlsafe_b64decode s = (if is_ascii s then a2b_base64 0 0 0 s else None)"

definition rstrip_char :: "char \<Rightarrow> string \<Rightarrow> string" where
  "rstrip_char c s = rev (dropWhile (\<lambda>x. x = c) (rev s))"

text \<open>\<^verbatim>\<open>s.rsplit(".", 1)\<close> into two parts; one part is the \<^verbatim>\<open>ValueError\<close> of the unpacking.\<close>

definition rsplit_dot :: "string \<Rightarrow> (string \<times> string) option" where
  "rsplit_dot s =
    (let m = takeWhile (\<lambda>c. c \<noteq> CHR ''.'') (rev s)
     in if length m = length s then None
        else Some (rev (drop (Suc (length m)) (rev s)), rev m))"

subsection \<open>The environment\<close>

record parsed_url =
  u_scheme :: string
  u_hostname :: "string option"
  u_port :: "int option option" \<comment> \<open>None: reading it raises\<close>
  u_path :: string

record ip_flags =
  ip_private :: bool
  ip_loopback :: bool
  ip_link_local :: bool
  ip_reserved :: bool
  ip_multicast :: bool
  ip_unspecified :: bool

datatype http_answer =
    Http int "string list" \<comment> \<open>status, chunks of the body\<close>
  | Net_error

text \<open>
  \<open>fe_before v t\<close>: what \<^verbatim>\<open>v < t\<close> gives when \<open>v\<close> is no integer (\<^term>\<open>None\<close>: a
  \<^verbatim>\<open>TypeError\<close>); \<open>fe_stamp\<close>: the float of a time.
\<close>

record file_env =
  fe_secret :: string
  fe_hmac :: "string \<Rightarrow> string \<Rightarrow> string"
  fe_dumps :: "json \<Rightarrow> string"
  fe_loads :: "string \<Rightarrow> json option"
  fe_before :: "json \<Rightarrow> usec \<Rightarrow> bool option"
  fe_stamp :: "usec \<Rightarrow> json"
  fe_urlparse :: "string \<Rightarrow> parsed_url option"
  fe_getaddrinfo :: "string \<Rightarrow> int \<Rightarrow> string + string list"
  fe_ip_address :: "string \<Rightarrow> ip_flags option"
  fe_http_get :: "string \<Rightarrow> (string \<Rightarrow> string list option) \<Rightarrow> http_answer"

text \<open>\<^verbatim>\<open>LinkError\<close> with its text, or another exception.\<close>

datatype file_error =
    Link_error string
  | Crash

subsection \<open>Signed tokens\<close>

definition LINK_TTL :: int where
  "LINK_TTL = 15 * 60"

definition MAX_BYTES :: nat where
  "MAX_BYTES = 50 * 1024 * 1024"

definition file_secret :: "file_env \<Rightarrow> file_error + string" where
  "file_secret e = (if fe_secret e = [] then Inl (Link_error ''FILE_LINK_SECRET is not configured'') else Inr (fe_secret e))"

definition token_body :: "file_env \<Rightarrow> dict \<Rightarrow> int \<Rightarrow> string" where
  "token_body e payload x = rstrip_char (CHR ''='') (urlsafe_b64encode (fe_dumps e (JObj (py_set ''x'' (JInt x) payload))))"

definition sign :: "file_env \<Rightarrow> dict \<Rightarrow> int option \<Rightarrow> usec \<Rightarrow> file_error + string \<times> int" where
  "sign e payload ttl now =
    (let x = now div 1000000 + (case ttl of None \<Rightarrow> LINK_TTL | Some t \<Rightarrow> t);
         body = token_body e payload x
     in case file_secret e of
          Inl err \<Rightarrow> Inl err
        | Inr secret \<Rightarrow> Inr (body @ ''.'' @ fe_hmac e secret body, x))"

text \<open>\<^verbatim>\<open>hmac.compare_digest\<close> of texts raises unless both are ASCII.\<close>

definition verify :: "file_env \<Rightarrow> string \<Rightarrow> string \<Rightarrow> usec \<Rightarrow> file_error + dict" where
  "verify e token kind now =
    (case rsplit_dot token of
       None \<Rightarrow> Inl (Link_error ''malformed token'')
     | Some (body, mac) \<Rightarrow>
        (case file_secret e of
           Inl err \<Rightarrow> Inl err
         | Inr secret \<Rightarrow>
            (let expected = fe_hmac e secret body
             in if \<not> (is_ascii mac \<and> is_ascii expected) then Inl Crash
                else if mac \<noteq> expected then Inl (Link_error ''bad signature'')
                else
                 (case Option.bind (urlsafe_b64decode (body @ replicate ((4 - length body mod 4) mod 4) (CHR ''='')))
                         (fe_loads e) of
                    Some (JObj data) \<Rightarrow>
                      (if map_of data ''k'' \<noteq> Some (JStr kind) then Inl (Link_error ''wrong token kind'')
                       else
                        (case (case map_of data ''x'' of
                                 None \<Rightarrow> None
                               | Some (JInt x) \<Rightarrow> Some (seconds x < now)
                               | Some v \<Rightarrow> fe_before e v now) of
                           None \<Rightarrow> Inl Crash
                         | Some True \<Rightarrow> Inl (Link_error ''link expired'')
                         | Some False \<Rightarrow> Inr data))
                  | _ \<Rightarrow> Inl Crash))))"

definition file_payload :: "int \<Rightarrow> json \<Rightarrow> json \<Rightarrow> int \<Rightarrow> dict" where
  "file_payload a chat message index =
     [(''k'', JStr ''file''), (''a'', JInt a), (''c'', chat), (''m'', message), (''i'', JInt index)]"

definition upload_payload :: "int \<Rightarrow> string \<Rightarrow> dict" where
  "upload_payload a upload_id = [(''k'', JStr ''upload''), (''a'', JInt a), (''u'', JStr upload_id)]"

definition file_link :: "file_env \<Rightarrow> string \<Rightarrow> int \<Rightarrow> json \<Rightarrow> json \<Rightarrow> int \<Rightarrow> usec \<Rightarrow> file_error + dict" where
  "file_link e base_url a chat message index now =
    (case sign e (file_payload a chat message index) None now of
       Inl err \<Rightarrow> Inl err
     | Inr (token, x) \<Rightarrow>
         Inr [(''url'', JStr (rstrip_char (CHR ''/'') base_url @ ''/api/v1/files/'' @ token)), (''expires_at'', JInt x)])"

text \<open>\<^verbatim>\<open>secrets.token_hex(16)\<close> is an argument.\<close>

definition new_upload :: "file_env \<Rightarrow> string \<Rightarrow> int \<Rightarrow> string \<Rightarrow> usec \<Rightarrow> file_error + dict" where
  "new_upload e base_url a upload_id now =
    (case sign e (upload_payload a upload_id) None now of
       Inl err \<Rightarrow> Inl err
     | Inr (token, x) \<Rightarrow>
        (let url = rstrip_char (CHR ''/'') base_url @ ''/api/v1/uploads/'' @ token
         in Inr [(''upload_id'', JStr upload_id), (''upload_url'', JStr url), (''expires_at'', JInt x),
              (''curl'', JStr (''curl -T <file> '' @ quoted (url @ ''?name=<file name>'')))]))"

subsection \<open>The upload directory\<close>

text \<open>
  The files under \<^verbatim>\<open>/tmp/uploads\<close>: directory (the account), file name, content.
\<close>

type_synonym file_path = "string \<times> string"
type_synonym file_store = "(file_path \<times> string) list"

definition write_bytes :: "file_path \<Rightarrow> string \<Rightarrow> file_store \<Rightarrow> file_store" where
  "write_bytes p bytes fs = (p, bytes) # filter (\<lambda>(q, b). q \<noteq> p) fs"

definition remove_file :: "file_path \<Rightarrow> file_store \<Rightarrow> file_store" where
  "remove_file p fs = filter (\<lambda>(q, b). q \<noteq> p) fs"

text \<open>\<^verbatim>\<open>str.isalnum\<close> for code points below 256.\<close>

definition is_alnum_char :: "char \<Rightarrow> bool" where
  "is_alnum_char c = (let n = byte c in (48 \<le> n \<and> n \<le> 57) \<or> (65 \<le> n \<and> n \<le> 90) \<or> (97 \<le> n \<and> n \<le> 122) \<or>
     n \<in> {170, 178, 179, 181, 185, 186, 188, 189, 190} \<or> (192 \<le> n \<and> n \<noteq> 215 \<and> n \<noteq> 247))"

definition isalnum :: "string \<Rightarrow> bool" where
  "isalnum s \<longleftrightarrow> s \<noteq> [] \<and> list_all is_alnum_char s"

definition upload_path :: "int \<Rightarrow> string \<Rightarrow> file_error + file_path" where
  "upload_path a upload_id =
    (if isalnum upload_id then Inr (show_int a, upload_id) else Inl (Link_error ''bad upload_id''))"

text \<open>\<^verbatim>\<open>path.with_suffix(".json")\<close> of a name without a dot.\<close>

definition meta_path :: "file_path \<Rightarrow> file_path" where
  "meta_path p = (fst p, snd p @ ''.json'')"

text \<open>\<^verbatim>\<open>json.loads(meta.read_text())["expires_at"] < now\<close>; \<^term>\<open>None\<close>: an exception.\<close>

definition meta_expired :: "file_env \<Rightarrow> string \<Rightarrow> usec \<Rightarrow> bool option" where
  "meta_expired e text now =
    (case fe_loads e text of
       Some (JObj info) \<Rightarrow>
         (case map_of info ''expires_at'' of
            None \<Rightarrow> None
          | Some (JInt x) \<Rightarrow> Some (seconds x < now)
          | Some v \<Rightarrow> fe_before e v now)
     | _ \<Rightarrow> None)"

definition read_upload :: "file_env \<Rightarrow> int \<Rightarrow> string \<Rightarrow> usec \<Rightarrow> file_store \<Rightarrow> file_error + string \<times> string" where
  "read_upload e a upload_id now fs =
    (case upload_path a upload_id of
       Inl err \<Rightarrow> Inl err
     | Inr p \<Rightarrow>
        (case (map_of fs p, map_of fs (meta_path p)) of
           (Some bytes, Some text) \<Rightarrow>
             (case meta_expired e text now of
                None \<Rightarrow> Inl Crash
              | Some True \<Rightarrow> Inl (Link_error (''upload '' @ upload_id @ '' expired''))
              | Some False \<Rightarrow>
                  (case fe_loads e text of
                     Some (JObj info) \<Rightarrow>
                       (case map_of info ''file_name'' of Some (JStr name) \<Rightarrow> Inr (name, bytes) | _ \<Rightarrow> Inl Crash)
                   | _ \<Rightarrow> Inl Crash))
         | _ \<Rightarrow> Inl (Link_error (''upload '' @ upload_id @ '' not found (expired or another account)''))))"

text \<open>A name \<^verbatim>\<open><stem>.json\<close>; metadata that cannot be read is passed over.\<close>

definition json_stem :: "string \<Rightarrow> string option" where
  "json_stem name = (if 5 < length name \<and> drop (length name - 5) name = ''.json'' then Some (take (length name - 5) name) else None)"

definition purge_one :: "file_env \<Rightarrow> usec \<Rightarrow> file_path \<times> string \<Rightarrow> file_store \<times> nat \<Rightarrow> file_store \<times> nat" where
  "purge_one e now f st =
    (case f of ((d, name), text) \<Rightarrow>
      (case json_stem name of
         None \<Rightarrow> st
       | Some stem \<Rightarrow>
          (if meta_expired e text now = Some True
           then (remove_file (d, name) (remove_file (d, stem) (fst st)), snd st + 1)
           else st)))"

definition purge_expired :: "file_env \<Rightarrow> usec \<Rightarrow> file_store \<Rightarrow> file_store \<times> nat" where
  "purge_expired e now fs = fold (purge_one e now) fs (fs, 0)"

subsection \<open>The endpoints\<close>

definition account_state :: "account list \<Rightarrow> int \<Rightarrow> dict option" where
  "account_state accounts a =
     map_option (\<lambda>acc. [(''account_id'', JInt a), (''session_alias'', JStr (acc_alias acc)),
         (''platform'', JStr (acc_platform acc)), (''scope'', JStr ''account'')])
       (one_or_none (\<lambda>acc. acc_id acc = a \<and> acc_is_enabled acc) accounts)"

text \<open>The request that a download hands to the route of the account's platform.\<close>

record forwarded =
  fw_platform :: string
  fw_path :: string
  fw_state :: dict
  fw_query :: "dict option"
  fw_range :: "string option"

text \<open>\<^verbatim>\<open>f"{v}"\<close> of an id in a token.\<close>

definition id_text :: "json \<Rightarrow> string option" where
  "id_text v = (case v of JInt i \<Rightarrow> Some (show_int i) | JStr s \<Rightarrow> Some s | _ \<Rightarrow> None)"

datatype file_reply =
    Refused int string
  | Failed \<comment> \<open>an exception: HTTP 500\<close>
  | Forwarded forwarded
  | Stored string nat

definition download_file ::
    "file_env \<Rightarrow> account list \<Rightarrow> string \<Rightarrow> string option \<Rightarrow> usec \<Rightarrow> file_reply" where
  "download_file e accounts token byte_range now =
    (case verify e token ''file'' now of
       Inl (Link_error text) \<Rightarrow> Refused 403 text
     | Inl Crash \<Rightarrow> Failed
     | Inr data \<Rightarrow>
        (case (case map_of data ''a'' of Some (JInt a) \<Rightarrow> Some (account_state accounts a) | _ \<Rightarrow> None) of
           None \<Rightarrow> Failed
         | Some None \<Rightarrow> Refused 403 ''account disabled''
         | Some (Some state) \<Rightarrow>
            (case (map_of state ''platform'', Option.bind (map_of data ''c'') id_text, Option.bind (map_of data ''m'') id_text) of
               (Some (JStr platform), Some chat, Some message) \<Rightarrow>
                 Forwarded \<lparr>fw_platform = platform, fw_path = ''/messages/'' @ chat @ ''/'' @ message @ ''/media'',
                   fw_state = state,
                   fw_query = (if platform = ''max''
                     then Some [(''index'', case map_of data ''i'' of Some v \<Rightarrow> v | None \<Rightarrow> JInt 0)] else None),
                   fw_range = byte_range\<rparr>
             | _ \<Rightarrow> Failed)))"

text \<open>
  The body of a PUT: what is on the disk when it ends, or the size that broke the limit. A chunk
  is written only while the sum stays within the limit.
\<close>

fun receive_chunks :: "nat \<Rightarrow> string \<Rightarrow> string list \<Rightarrow> string option" where
  "receive_chunks n written [] = Some written"
| "receive_chunks n written (c # cs) =
    (if MAX_BYTES < n + length c then None else receive_chunks (n + length c) (written @ c) cs)"

text \<open>
  \<open>complete\<close>: the client sent the whole body; otherwise the stream raises after the chunks and
  the endpoint ends there.
\<close>

definition upload_file ::
    "file_env \<Rightarrow> account list \<Rightarrow> string \<Rightarrow> string option \<Rightarrow> string option \<Rightarrow> string list \<Rightarrow> bool \<Rightarrow> usec
       \<Rightarrow> file_store \<Rightarrow> file_reply \<times> file_store" where
  "upload_file e accounts token name x_file_name chunks complete now fs =
    (case verify e token ''upload'' now of
       Inl (Link_error text) \<Rightarrow> (Refused 403 text, fs)
     | Inl Crash \<Rightarrow> (Failed, fs)
     | Inr data \<Rightarrow>
        (case (case map_of data ''a'' of Some (JInt a) \<Rightarrow> Some (account_state accounts a) | _ \<Rightarrow> None) of
           None \<Rightarrow> (Failed, fs)
         | Some None \<Rightarrow> (Refused 403 ''account disabled'', fs)
         | Some (Some state) \<Rightarrow>
            (case (map_of data ''a'', map_of data ''u'', map_of data ''x'') of
               (Some (JInt a), Some (JStr u), Some x) \<Rightarrow>
                 (case upload_path a u of
                    Inl err \<Rightarrow> (Failed, fs)
                  | Inr p \<Rightarrow>
                     (case receive_chunks 0 [] chunks of
                        None \<Rightarrow> (Refused 413 ''upload is larger than 50 MB'', remove_file p fs)
                      | Some bytes \<Rightarrow>
                         (let fs = write_bytes p bytes fs
                          in if \<not> complete then (Failed, fs)
                             else
                              (let file_name = (case or_else name (or_else x_file_name (Some u)) of Some n \<Rightarrow> n | None \<Rightarrow> u);
                                   info = JObj [(''file_name'', JStr file_name), (''expires_at'', x),
                                     (''size'', JInt (int (length bytes))), (''at'', fe_stamp e now)]
                               in (Stored u (length bytes),
                                   fst (purge_expired e now (write_bytes (meta_path p) (fe_dumps e info) fs)))))))
             | _ \<Rightarrow> (Failed, fs))))"

subsection \<open>Downloads from a URL\<close>

definition check_public :: "file_env \<Rightarrow> string \<Rightarrow> string \<Rightarrow> file_error option" where
  "check_public e ip host =
    (case fe_ip_address e ip of
       None \<Rightarrow> Some Crash
     | Some f \<Rightarrow>
         if ip_private f \<or> ip_loopback f \<or> ip_link_local f \<or> ip_reserved f \<or> ip_multicast f \<or> ip_unspecified f
         then Some (Link_error (''file_url host '' @ host @ '' resolves to a non-public address'')) else None)"

text \<open>The resolver of the connection: the addresses checked, for their host only.\<close>

definition pinned_resolver :: "string \<Rightarrow> string list \<Rightarrow> string \<Rightarrow> string list option" where
  "pinned_resolver host addresses asked = (if asked \<noteq> host then None else Some addresses)"

fun first_error :: "(string \<Rightarrow> file_error option) \<Rightarrow> string list \<Rightarrow> file_error option" where
  "first_error f [] = None"
| "first_error f (x # xs) = (case f x of Some err \<Rightarrow> Some err | None \<Rightarrow> first_error f xs)"

fun collect_chunks :: "string \<Rightarrow> string list \<Rightarrow> string option" where
  "collect_chunks data [] = Some data"
| "collect_chunks data (c # cs) = (if MAX_BYTES < length (data @ c) then None else collect_chunks (data @ c) cs)"

text \<open>\<^verbatim>\<open>Path(p).name\<close>.\<close>

fun split_slash :: "string \<Rightarrow> string \<Rightarrow> string list" where
  "split_slash acc [] = [rev acc]"
| "split_slash acc (c # s) = (if c = CHR ''/'' then rev acc # split_slash [] s else split_slash (c # acc) s)"

definition path_name :: "string \<Rightarrow> string" where
  "path_name p = (case rev (filter (\<lambda>x. x \<noteq> [] \<and> x \<noteq> ''.'') (split_slash [] p)) of [] \<Rightarrow> [] | x # _ \<Rightarrow> x)"

definition fetch_url :: "file_env \<Rightarrow> string \<Rightarrow> file_error + string \<times> string" where
  "fetch_url e url =
    (case fe_urlparse e url of
       None \<Rightarrow> Inl Crash
     | Some u \<Rightarrow>
        (case or_else (u_hostname u) None of
           None \<Rightarrow> Inl (Link_error ''file_url must be an https URL'')
         | Some host \<Rightarrow>
            if u_scheme u \<noteq> ''https'' then Inl (Link_error ''file_url must be an https URL'')
            else
             (case u_port u of
                None \<Rightarrow> Inl Crash
              | Some port \<Rightarrow>
                 (case fe_getaddrinfo e host (case port of Some p \<Rightarrow> if p = 0 then 443 else p | None \<Rightarrow> 443) of
                    Inl text \<Rightarrow> Inl (Link_error (''file_url host '' @ host @ '' does not resolve: '' @ text))
                  | Inr addresses \<Rightarrow>
                     if addresses = [] then Inl (Link_error (''file_url host '' @ host @ '' does not resolve''))
                     else
                      (case first_error (\<lambda>ip. check_public e ip host) addresses of
                         Some err \<Rightarrow> Inl err
                       | None \<Rightarrow>
                          (case fe_http_get e url (pinned_resolver host addresses) of
                             Net_error \<Rightarrow> Inl Crash
                           | Http st chunks \<Rightarrow>
                              if st \<noteq> 200 then Inl (Link_error (''file_url answered HTTP '' @ show_int st))
                              else
                               (case collect_chunks [] chunks of
                                  None \<Rightarrow> Inl (Link_error ''file_url is larger than 50 MB'')
                                | Some data \<Rightarrow>
                                    Inr (if path_name (u_path u) = [] then ''file'' else path_name (u_path u), data))))))))"

end
