(* ===== verification/Decimal.thy ===== *)
theory Decimal
  imports Bridge_Prelude
begin

text \<open>
  Decimal texts of integers: what \<^term>\<open>show_int\<close> prints is a sign and digits, and
  \<^term>\<open>py_int\<close> reads it back.
\<close>

lemma digit_char_digit:
  assumes "0 \<le> d" "d < 10"
  shows "is_digit (digit_char d) \<and> (of_char (digit_char d) :: int) - 48 = d \<and> \<not> is_space (digit_char d)"
proof -
  have "list_all (\<lambda>d. is_digit (digit_char d) \<and> (of_char (digit_char d) :: int) - 48 = d \<and>
      \<not> is_space (digit_char d)) [0..9]"
    by code_simp
  moreover have "d \<in> set [0..9]" using assms by simp
  ultimately show ?thesis unfolding list_all_iff by blast
qed

lemma show_digits_digits: "0 \<le> n \<Longrightarrow> list_all (\<lambda>c. is_digit c \<and> \<not> is_space c) (show_digits n)"
proof (induction n rule: show_digits.induct)
  case (1 n)
  show ?case
  proof (cases "n < 10")
    case True
    then show ?thesis using 1(2) digit_char_digit [of n] by (simp add: show_digits.simps [of n])
  next
    case False
    then show ?thesis using 1 digit_char_digit [of "n mod 10"] by (simp add: show_digits.simps [of n])
  qed
qed

lemma show_digits_not_Nil [simp]: "show_digits n \<noteq> []"
  by (subst show_digits.simps) auto

lemma py_digits_show:
  "0 \<le> n \<Longrightarrow> py_digits b acc (show_digits n @ s) = py_digits True (acc * 10 ^ length (show_digits n) + n) s"
proof (induction n arbitrary: b acc s rule: show_digits.induct)
  case (1 n)
  show ?case
  proof (cases "n < 10")
    case True
    then show ?thesis using 1(2) digit_char_digit [of n] by (simp add: show_digits.simps [of n])
  next
    case False
    let ?m = "n div 10"
    have "py_digits b acc (show_digits n @ s) = py_digits b acc (show_digits ?m @ digit_char (n mod 10) # s)"
      using False by (simp add: show_digits.simps [of n])
    also have "\<dots> = py_digits True (acc * 10 ^ length (show_digits ?m) + ?m) (digit_char (n mod 10) # s)"
      using 1 False by simp
    also have "\<dots> = py_digits True ((acc * 10 ^ length (show_digits ?m) + ?m) * 10 + n mod 10) s"
      using digit_char_digit [of "n mod 10"] by simp
    also have "(acc * 10 ^ length (show_digits ?m) + ?m) * 10 + n mod 10 = acc * 10 ^ length (show_digits n) + n"
      using False by (simp add: show_digits.simps [of n] algebra_simps)
    finally show ?thesis .
  qed
qed

lemma digit_not_sign: "is_digit c \<Longrightarrow> c \<noteq> CHR ''-'' \<and> c \<noteq> CHR ''+'' \<and> c \<noteq> CHR ''.'' \<and> c \<noteq> CHR ''/''"
  by (auto simp: is_digit_def)

lemma show_digits_Cons: "0 \<le> n \<Longrightarrow> \<exists>c s. show_digits n = c # s \<and> is_digit c"
  using show_digits_digits [of n] by (cases "show_digits n") auto

lemma strip_no_space:
  assumes "list_all (\<lambda>c. \<not> is_space c) s" shows "strip s = s"
proof -
  have "dropWhile is_space s = s" using assms by (cases s) auto
  moreover have "dropWhile is_space (rev s) = rev s"
    using assms by (cases s rule: rev_cases) auto
  ultimately show ?thesis by (simp add: strip_def)
qed

theorem py_int_show: "py_int (show_int i) = Some i"
proof -
  let ?n = "if i < 0 then - i else i"
  have n: "0 \<le> ?n" by simp
  have "list_all (\<lambda>c. \<not> is_space c) (show_digits ?n)"
    using show_digits_digits [OF n] by (auto simp: list_all_iff)
  moreover have "\<not> is_space (CHR ''-'')" by (simp add: is_space_def)
  ultimately have s: "strip (show_int i) = show_int i"
    by (intro strip_no_space) (simp add: show_int_def split: if_splits)
  obtain c t where c: "show_digits ?n = c # t" "is_digit c" using show_digits_Cons [OF n] by blast
  have d: "py_digits False 0 (show_digits ?n) = Some ?n"
    using py_digits_show [OF n, of False 0 "[]"] by simp
  show ?thesis
  proof (cases "i < 0")
    case True
    then show ?thesis using s d by (simp add: py_int_def show_int_def)
  next
    case False
    then show ?thesis using s d c digit_not_sign [OF c(2)] by (simp add: py_int_def show_int_def)
  qed
qed

lemma show_int_inject [simp]: "show_int i = show_int j \<longleftrightarrow> i = j"
  by (metis option.inject py_int_show)

end
