(* ===== verification/Mcp_Files_Props.thy ===== *)
theory Mcp_Files_Props
  imports Mcp_Files Decimal
begin

text \<open>
  What the signed links and the upload directory guarantee: base64 and tokens read back, a link
  opens what it was made for and nothing else, an upload reads back to its account.
\<close>

subsection \<open>base64\<close>

lemma b64_table:
  "n < 64 \<Longrightarrow> b64_value (b64_char n) = Some n \<and> b64_char n \<noteq> CHR ''='' \<and> byte (b64_char n) < 128 \<and> b64_char n \<noteq> CHR ''.''"
proof -
  have "list_all (\<lambda>n. b64_value (b64_char n) = Some n \<and> b64_char n \<noteq> CHR ''='' \<and> byte (b64_char n) < 128 \<and>
      b64_char n \<noteq> CHR ''.'') [0..<64]"
    by code_simp
  then show "n < 64 \<Longrightarrow> ?thesis" by (simp add: list_all_iff)
qed

lemma byte_less [simp]: "byte c < 256"
  by (simp add: byte_def)

lemma char_of_byte [simp]: "char_of (byte c) = c"
  by (simp add: byte_def)

lemma b64_bits [simp]:
  "byte a div 4 < 64" "byte a mod 4 * 16 < 64" "byte a mod 4 * 16 + byte b div 16 < 64"
  "byte b mod 16 * 4 < 64" "byte b mod 16 * 4 + byte c div 64 < 64" "byte c mod 64 < 64"
proof -
  have "byte a < 256" "byte b < 256" "byte c < 256" by simp_all
  then show "byte a div 4 < 64" "byte a mod 4 * 16 < 64" "byte a mod 4 * 16 + byte b div 16 < 64"
    "byte b mod 16 * 4 < 64" "byte b mod 16 * 4 + byte c div 64 < 64" "byte c mod 64 < 64"
    by linarith+
qed

lemma b64_join [simp]:
  "byte b div 16 div 16 = 0" "byte b div 16 mod 16 = byte b div 16"
  "byte b div 64 div 4 = 0" "byte b div 64 mod 4 = byte b div 64"
proof -
  have "byte b div 16 < 16" "byte b div 64 < 4" using byte_less [of b] by linarith+
  then show "byte b div 16 div 16 = 0" "byte b div 16 mod 16 = byte b div 16"
    "byte b div 64 div 4 = 0" "byte b div 64 mod 4 = byte b div 64"
    by simp_all
qed

lemma a2b_encode: "a2b_base64 0 0 0 (urlsafe_b64encode s) = Some s"
proof (induction s rule: urlsafe_b64encode.induct)
  case (2 a)
  show ?case by (simp add: b64_table)
next
  case (3 a b)
  show ?case by (simp add: b64_table)
next
  case (4 a b c s)
  then show ?case by (simp add: b64_table)
qed simp

text \<open>The encoding without its padding.\<close>

fun unpadded :: "string \<Rightarrow> string" where
  "unpadded [] = []"
| "unpadded [a] = [b64_char (byte a div 4), b64_char (byte a mod 4 * 16)]"
| "unpadded [a, b] = [b64_char (byte a div 4), b64_char (byte a mod 4 * 16 + byte b div 16), b64_char (byte b mod 16 * 4)]"
| "unpadded (a # b # c # s) =
     [b64_char (byte a div 4), b64_char (byte a mod 4 * 16 + byte b div 16),
      b64_char (byte b mod 16 * 4 + byte c div 64), b64_char (byte c mod 64)] @ unpadded s"

lemma encode_unpadded:
  "urlsafe_b64encode s = unpadded s @ replicate ((4 - length (unpadded s) mod 4) mod 4) (CHR ''='')"
  by (induction s rule: unpadded.induct) (simp_all add: numeral_2_eq_2)

lemma unpadded_chars: "c \<in> set (unpadded s) \<Longrightarrow> c \<noteq> CHR ''='' \<and> c \<noteq> CHR ''.'' \<and> byte c < 128"
proof (induction s rule: unpadded.induct)
  case (2 a) then show ?case by (auto simp: b64_table)
next
  case (3 a b) then show ?case by (auto simp: b64_table)
next
  case (4 a b c s) then show ?case by (auto simp: b64_table)
qed simp

lemma dropWhile_replicate: "dropWhile (\<lambda>x. x = c) (replicate n c @ s) = dropWhile (\<lambda>x. x = c) s"
  by (induction n) auto

lemma rstrip_char_append:
  assumes "c \<notin> set s" shows "rstrip_char c (s @ replicate n c) = s"
proof -
  have "dropWhile (\<lambda>x. x = c) (rev s) = rev s" using assms by (cases s rule: rev_cases) auto
  then show ?thesis by (simp add: rstrip_char_def dropWhile_replicate)
qed

lemma strip_encode: "rstrip_char (CHR ''='') (urlsafe_b64encode s) = unpadded s"
  unfolding encode_unpadded using unpadded_chars by (blast intro: rstrip_char_append)

lemma decode_unpadded:
  "urlsafe_b64decode (unpadded s @ replicate ((4 - length (unpadded s) mod 4) mod 4) (CHR ''='')) = Some s"
proof -
  have "is_ascii (urlsafe_b64encode s)"
    unfolding encode_unpadded using unpadded_chars by (auto simp: is_ascii_def list_all_iff byte_def)
  then show ?thesis by (simp add: urlsafe_b64decode_def a2b_encode flip: encode_unpadded)
qed

subsection \<open>Tokens\<close>

lemma rsplit_dot_join:
  assumes "CHR ''.'' \<notin> set m" shows "rsplit_dot (b @ ''.'' @ m) = Some (b, m)"
proof -
  have t: "takeWhile (\<lambda>c. c \<noteq> CHR ''.'') (rev m @ CHR ''.'' # rev b) = rev m"
    using assms by (subst takeWhile_append2) auto
  show ?thesis by (simp add: rsplit_dot_def t)
qed

lemma rsplit_dot_Some:
  assumes "rsplit_dot s = Some (b, m)" shows "s = b @ ''.'' @ m \<and> CHR ''.'' \<notin> set m"
proof -
  let ?m = "takeWhile (\<lambda>c. c \<noteq> CHR ''.'') (rev s)"
  have len: "length ?m \<noteq> length s" and b: "b = rev (drop (Suc (length ?m)) (rev s))" and m: "m = rev ?m"
    using assms by (auto simp: rsplit_dot_def Let_def split: if_splits)
  have le: "length ?m < length (rev s)" using len length_takeWhile_le [of "\<lambda>c. c \<noteq> CHR ''.''" "rev s"] by simp
  have "rev s ! length ?m = CHR ''.''" using nth_length_takeWhile [OF le] by simp
  then have "rev s = ?m @ CHR ''.'' # drop (Suc (length ?m)) (rev s)"
    using le by (metis append_take_drop_id id_take_nth_drop takeWhile_eq_take)
  then have "s = rev (?m @ CHR ''.'' # drop (Suc (length ?m)) (rev s))" by (metis rev_rev_ident)
  then have "s = b @ ''.'' @ m" using b m by simp
  moreover have "CHR ''.'' \<notin> set m" unfolding m by (auto dest: set_takeWhileD)
  ultimately show ?thesis by simp
qed

definition hex_text :: "string \<Rightarrow> bool" where
  "hex_text s = list_all (\<lambda>c. c \<in> set ''0123456789abcdef'') s"

lemma hex_text_chars: "hex_text s \<Longrightarrow> is_ascii s \<and> CHR ''.'' \<notin> set s"
proof -
  assume h: "hex_text s"
  have one: "list_all (\<lambda>c. byte c < 128 \<and> c \<noteq> CHR ''.'') ''0123456789abcdef''" by code_simp
  have "byte c < 128 \<and> c \<noteq> CHR ''.''" if "c \<in> set s" for c
    using h one that unfolding hex_text_def list_all_iff by blast
  then show ?thesis by (auto simp: is_ascii_def list_all_iff)
qed

definition token_data :: "dict \<Rightarrow> int \<Rightarrow> dict" where
  "token_data p x = py_set ''x'' (JInt x) p"

lemma decode_token_body:
  "urlsafe_b64decode (token_body e p x @ replicate ((4 - length (token_body e p x) mod 4) mod 4) (CHR ''='')) =
     Some (fe_dumps e (JObj (token_data p x)))"
  unfolding token_body_def strip_encode token_data_def by (rule decode_unpadded)

lemma verify_signed:
  assumes "fe_secret e \<noteq> []" and "hex_text (fe_hmac e (fe_secret e) (token_body e p x))"
    and "fe_loads e (fe_dumps e (JObj (token_data p x))) = Some (JObj (token_data p x))"
    and "map_of (token_data p x) ''x'' = Some (JInt x)"
  shows "verify e (token_body e p x @ ''.'' @ fe_hmac e (fe_secret e) (token_body e p x)) kind now =
    (if map_of (token_data p x) ''k'' \<noteq> Some (JStr kind) then Inl (Link_error ''wrong token kind'')
     else if seconds x < now then Inl (Link_error ''link expired'') else Inr (token_data p x))"
  using hex_text_chars [OF assms(2)] assms(1)
  by (simp add: verify_def rsplit_dot_join [simplified] file_secret_def decode_token_body assms(3,4))

lemma verify_Inr:
  assumes "verify e token kind now = Inr data"
  obtains body where "token = body @ ''.'' @ fe_hmac e (fe_secret e) body" "fe_secret e \<noteq> []"
  using assms rsplit_dot_Some
  by (auto simp: verify_def file_secret_def Let_def split: option.splits if_splits prod.splits)

subsection \<open>A link opens its message\<close>

text \<open>\<open>t\<close>: when the link was made.\<close>

definition made_link :: "file_env \<Rightarrow> int \<Rightarrow> int \<Rightarrow> int \<Rightarrow> int \<Rightarrow> usec \<Rightarrow> string \<Rightarrow> int \<Rightarrow> bool" where
  "made_link e a chat message index t token x \<longleftrightarrow>
     sign e (file_payload a (JInt chat) (JInt message) index) None t = Inr (token, x)"

definition media_request :: "account \<Rightarrow> int \<Rightarrow> int \<Rightarrow> int \<Rightarrow> string option \<Rightarrow> forwarded" where
  "media_request acc chat message index byte_range =
     \<lparr>fw_platform = acc_platform acc,
      fw_path = ''/messages/'' @ show_int chat @ ''/'' @ show_int message @ ''/media'',
      fw_state = [(''account_id'', JInt (acc_id acc)), (''session_alias'', JStr (acc_alias acc)),
        (''platform'', JStr (acc_platform acc)), (''scope'', JStr ''account'')],
      fw_query = (if acc_platform acc = ''max'' then Some [(''index'', JInt index)] else None),
      fw_range = byte_range\<rparr>"

lemma sign_Inr:
  "sign e p None t = Inr (token, x) \<longleftrightarrow>
     fe_secret e \<noteq> [] \<and> x = t div 1000000 + LINK_TTL \<and>
     token = token_body e p x @ ''.'' @ fe_hmac e (fe_secret e) (token_body e p x)"
  by (auto simp: sign_def file_secret_def Let_def)

lemma token_data_file [simp]:
  "map_of (token_data (file_payload a c m i) x) ''x'' = Some (JInt x)"
  "map_of (token_data (file_payload a c m i) x) ''k'' = Some (JStr ''file'')"
  "map_of (token_data (file_payload a c m i) x) ''a'' = Some (JInt a)"
  "map_of (token_data (file_payload a c m i) x) ''c'' = Some c"
  "map_of (token_data (file_payload a c m i) x) ''m'' = Some m"
  "map_of (token_data (file_payload a c m i) x) ''i'' = Some (JInt i)"
  by (simp_all add: token_data_def file_payload_def)

lemma token_data_upload [simp]:
  "map_of (token_data (upload_payload a u) x) ''x'' = Some (JInt x)"
  "map_of (token_data (upload_payload a u) x) ''k'' = Some (JStr ''upload'')"
  "map_of (token_data (upload_payload a u) x) ''a'' = Some (JInt a)"
  "map_of (token_data (upload_payload a u) x) ''u'' = Some (JStr u)"
  by (simp_all add: token_data_def upload_payload_def)

text \<open>
  The environment of the tokens: a secret is set, digests are hexadecimal, the JSON of what was
  signed reads back, and nobody without the secret makes a digest that was not given out.
\<close>

definition tokens_sound :: "file_env \<Rightarrow> (dict \<times> usec) list \<Rightarrow> bool" where
  "tokens_sound e issued \<longleftrightarrow> fe_secret e \<noteq> [] \<and> (\<forall>body. hex_text (fe_hmac e (fe_secret e) body)) \<and>
     (\<forall>(p, t) \<in> set issued.
        ((\<exists>a c m i. p = file_payload a (JInt c) (JInt m) i) \<or> (\<exists>a u. p = upload_payload a u)) \<and>
        fe_loads e (fe_dumps e (JObj (token_data p (t div 1000000 + LINK_TTL)))) =
          Some (JObj (token_data p (t div 1000000 + LINK_TTL))))"

definition only_issued :: "file_env \<Rightarrow> (dict \<times> usec) list \<Rightarrow> string \<Rightarrow> bool" where
  "only_issued e issued token \<longleftrightarrow>
     (\<forall>body. token = body @ ''.'' @ fe_hmac e (fe_secret e) body \<longrightarrow>
        (\<exists>(p, t) \<in> set issued. body = token_body e p (t div 1000000 + LINK_TTL)))"

lemma verify_issued:
  assumes "tokens_sound e issued" and "(p, t) \<in> set issued" and "sign e p None t = Inr (token, x)"
  shows "verify e token kind now =
    (if map_of (token_data p x) ''k'' \<noteq> Some (JStr kind) then Inl (Link_error ''wrong token kind'')
     else if seconds x < now then Inl (Link_error ''link expired'') else Inr (token_data p x))"
proof -
  have x: "x = t div 1000000 + LINK_TTL" "fe_secret e \<noteq> []"
    and tok: "token = token_body e p x @ ''.'' @ fe_hmac e (fe_secret e) (token_body e p x)"
    using assms(3) by (auto simp: sign_Inr)
  have p: "(\<exists>a c m i. p = file_payload a (JInt c) (JInt m) i) \<or> (\<exists>a u. p = upload_payload a u)"
    and l: "fe_loads e (fe_dumps e (JObj (token_data p x))) = Some (JObj (token_data p x))"
    and h: "hex_text (fe_hmac e (fe_secret e) (token_body e p x))"
    using assms(1,2) x(1) unfolding tokens_sound_def by blast+
  have "map_of (token_data p x) ''x'' = Some (JInt x)" using p by auto
  from verify_signed [OF x(2) h l this] tok show ?thesis by simp
qed

lemma verify_accepts:
  assumes "tokens_sound e issued" and "only_issued e issued token" and "verify e token kind now = Inr data"
  obtains p t x where "(p, t) \<in> set issued" "sign e p None t = Inr (token, x)" "data = token_data p x"
    "map_of data ''k'' = Some (JStr kind)" "now \<le> seconds x"
    "(\<exists>a c m i. p = file_payload a (JInt c) (JInt m) i) \<or> (\<exists>a u. p = upload_payload a u)"
proof -
  obtain body where body: "token = body @ ''.'' @ fe_hmac e (fe_secret e) body" "fe_secret e \<noteq> []"
    using verify_Inr [OF assms(3)] .
  then obtain p t where p: "(p, t) \<in> set issued" "body = token_body e p (t div 1000000 + LINK_TTL)"
    using assms(2) unfolding only_issued_def by blast
  define x where "x = t div 1000000 + LINK_TTL"
  have sg: "sign e p None t = Inr (token, x)" using body p(2) by (simp add: sign_Inr x_def)
  have "verify e token kind now = Inr data" by (rule assms(3))
  then have d: "data = token_data p x" "map_of data ''k'' = Some (JStr kind)" "now \<le> seconds x"
    unfolding verify_issued [OF assms(1) p(1) sg] by (auto split: if_splits)
  have "(\<exists>a c m i. p = file_payload a (JInt c) (JInt m) i) \<or> (\<exists>a u. p = upload_payload a u)"
    using assms(1) p(1) unfolding tokens_sound_def by blast
  with p(1) sg d show thesis by (rule that)
qed

lemma account_state_Some:
  "account_state accounts a = Some st \<longleftrightarrow>
    (\<exists>acc. one_or_none (\<lambda>r. acc_id r = a \<and> acc_is_enabled r) accounts = Some acc \<and>
       st = [(''account_id'', JInt a), (''session_alias'', JStr (acc_alias acc)),
         (''platform'', JStr (acc_platform acc)), (''scope'', JStr ''account'')])"
  by (auto simp: account_state_def)

lemma download_of_link:
  assumes "verify e token ''file'' now = Inr (token_data (file_payload a (JInt c) (JInt m) i) x)"
  shows "download_file e accounts token byte_range now = Forwarded f \<longleftrightarrow>
    (\<exists>acc. one_or_none (\<lambda>r. acc_id r = a \<and> acc_is_enabled r) accounts = Some acc \<and>
       f = media_request acc c m i byte_range)"
proof (cases "one_or_none (\<lambda>r. acc_id r = a \<and> acc_is_enabled r) accounts")
  case None
  then show ?thesis by (simp add: download_file_def assms account_state_def)
next
  case (Some acc)
  then have "acc_id acc = a" using one_or_none_Some by fast
  with Some show ?thesis
    by (auto simp: download_file_def assms account_state_def media_request_def id_text_def)
qed

text \<open>
  C15 The links of files. With HMAC unforgeable, the download endpoint forwards a request exactly
  when the token is one that was made for a message of an account (never an upload token), its
  15 minutes are not over and the account is still enabled; and what it forwards is the media of
  that very message, in the name and on the platform of that account.
\<close>
theorem link_opens_its_message:
  assumes "tokens_sound e issued" and "only_issued e issued token"
  shows "download_file e accounts token byte_range now = Forwarded f \<longleftrightarrow>
    (\<exists>a c m i t x acc. (file_payload a (JInt c) (JInt m) i, t) \<in> set issued \<and> made_link e a c m i t token x \<and>
       now \<le> seconds x \<and> one_or_none (\<lambda>r. acc_id r = a \<and> acc_is_enabled r) accounts = Some acc \<and>
       f = media_request acc c m i byte_range)"
proof
  assume d: "download_file e accounts token byte_range now = Forwarded f"
  then obtain data where v: "verify e token ''file'' now = Inr data"
    by (auto simp: download_file_def split: sum.splits file_error.splits)
  from verify_accepts [OF assms v] obtain p t x where p: "(p, t) \<in> set issued" "sign e p None t = Inr (token, x)"
      "data = token_data p x" "map_of data ''k'' = Some (JStr ''file'')" "now \<le> seconds x"
      "(\<exists>a c m i. p = file_payload a (JInt c) (JInt m) i) \<or> (\<exists>a u. p = upload_payload a u)" .
  from p(3,4,6) obtain a c m i where pay: "p = file_payload a (JInt c) (JInt m) i" by auto
  from d v download_of_link [of e token now a c m i x accounts byte_range f] p(3)
  obtain acc where "one_or_none (\<lambda>r. acc_id r = a \<and> acc_is_enabled r) accounts = Some acc"
      "f = media_request acc c m i byte_range"
    unfolding pay by blast
  with p(1,2,5) show "\<exists>a c m i t x acc. (file_payload a (JInt c) (JInt m) i, t) \<in> set issued \<and>
      made_link e a c m i t token x \<and> now \<le> seconds x \<and>
      one_or_none (\<lambda>r. acc_id r = a \<and> acc_is_enabled r) accounts = Some acc \<and> f = media_request acc c m i byte_range"
    unfolding pay made_link_def by blast
next
  assume "\<exists>a c m i t x acc. (file_payload a (JInt c) (JInt m) i, t) \<in> set issued \<and> made_link e a c m i t token x \<and>
      now \<le> seconds x \<and> one_or_none (\<lambda>r. acc_id r = a \<and> acc_is_enabled r) accounts = Some acc \<and>
      f = media_request acc c m i byte_range"
  then obtain a c m i t x acc where l: "(file_payload a (JInt c) (JInt m) i, t) \<in> set issued"
      "made_link e a c m i t token x" "now \<le> seconds x"
      "one_or_none (\<lambda>r. acc_id r = a \<and> acc_is_enabled r) accounts = Some acc"
      "f = media_request acc c m i byte_range" by blast
  have "verify e token ''file'' now = Inr (token_data (file_payload a (JInt c) (JInt m) i) x)"
    using verify_issued [OF assms(1) l(1) l(2) [unfolded made_link_def], of "''file''" now] l(3) by simp
  from download_of_link [OF this] l(4,5) show "download_file e accounts token byte_range now = Forwarded f" by blast
qed

text \<open>An environment with a toy digest that tells two bodies apart, and one link.\<close>

definition demo_file_env :: file_env where
  "demo_file_env = \<lparr>fe_secret = ''s'', fe_hmac = (\<lambda>k b. if take 1 b = ''e'' then ''a1'' else ''b2''),
     fe_dumps = (\<lambda>j. if j = JObj (token_data (file_payload 7 (JInt 5) (JInt 9) 0) 900) then ''{1'' else ''?''),
     fe_loads = (\<lambda>t. if t = ''{1'' then Some (JObj (token_data (file_payload 7 (JInt 5) (JInt 9) 0) 900)) else None),
     fe_before = (\<lambda>v t. None), fe_stamp = JInt, fe_urlparse = (\<lambda>u. None),
     fe_getaddrinfo = (\<lambda>h p. Inr []), fe_ip_address = (\<lambda>i. None), fe_http_get = (\<lambda>u r. Net_error)\<rparr>"

definition demo_file_account :: account where
  "demo_file_account = \<lparr>acc_id = 7, acc_alias = ''m'', acc_phone = [], acc_mode = ''ro'', acc_is_enabled = True,
     acc_platform = ''max'', acc_platform_user_id = None, acc_write_chat_ids = None, acc_write_rate_per_hour = None,
     acc_external_user_id = None, acc_tg_user_id = None, acc_display_name = None, acc_watch_chat_ids = None,
     acc_notes = None\<rparr>"

lemma demo_token_body: "token_body demo_file_env (file_payload 7 (JInt 5) (JInt 9) 0) 900 = ''ezE''"
  by (simp add: token_body_def demo_file_env_def token_data_def b64_char_def B64_ALPHABET_def byte_def
    rstrip_char_def)

lemma demo_tokens: "tokens_sound demo_file_env [(file_payload 7 (JInt 5) (JInt 9) 0, 0)]"
  by (auto simp: tokens_sound_def demo_file_env_def hex_text_def LINK_TTL_def)

lemma demo_only: "only_issued demo_file_env [(file_payload 7 (JInt 5) (JInt 9) 0, 0)] ''ezE.a1''"
proof -
  have "body = ''ezE''" if "''ezE.a1'' = body @ ''.'' @ fe_hmac demo_file_env (fe_secret demo_file_env) body" for body
  proof -
    have "length (fe_hmac demo_file_env (fe_secret demo_file_env) body) = 2" by (simp add: demo_file_env_def)
    then have "length body = 3" using arg_cong [OF that, of length] by simp
    then show ?thesis using arg_cong [OF that, of "take 3"] by simp
  qed
  then show ?thesis by (simp add: only_issued_def demo_token_body LINK_TTL_def)
qed

theorem link_opens_its_message_witness:
  "download_file demo_file_env [demo_file_account] ''ezE.a1'' None (seconds 30) =
     Forwarded (media_request demo_file_account 5 9 0 None)"
proof -
  have "made_link demo_file_env 7 5 9 0 0 ''ezE.a1'' 900"
    unfolding made_link_def sign_Inr demo_token_body LINK_TTL_def by (simp add: demo_file_env_def)
  moreover have "one_or_none (\<lambda>r. acc_id r = 7 \<and> acc_is_enabled r) [demo_file_account] = Some demo_file_account"
    by (simp add: one_or_none_def demo_file_account_def)
  moreover have "(file_payload 7 (JInt 5) (JInt 9) 0, 0) \<in> set [(file_payload 7 (JInt 5) (JInt 9) 0, 0)]" by simp
  moreover have "seconds 30 \<le> seconds 900" by simp
  ultimately show ?thesis
    unfolding link_opens_its_message [OF demo_tokens demo_only] by blast
qed

subsection \<open>Uploads\<close>

lemma map_of_write_bytes [simp]: "map_of (write_bytes p b fs) q = (if q = p then Some b else map_of fs q)"
  by (induction fs) (auto simp: write_bytes_def)

lemma map_of_remove_file [simp]: "map_of (remove_file p fs) q = (if q = p then None else map_of fs q)"
  by (induction fs) (auto simp: remove_file_def)

lemma isalnum_no_dot: "isalnum u \<Longrightarrow> CHR ''.'' \<notin> set u"
  by (auto simp: isalnum_def list_all_iff is_alnum_char_def byte_def)

lemma json_stem_Some: "json_stem n = Some s \<Longrightarrow> n = s @ ''.json''"
  by (auto simp: json_stem_def split: if_splits) (metis append_take_drop_id)

text \<open>What the directory holds: uploads within the limit, and metadata that reads.\<close>

definition meta_text :: "file_env \<Rightarrow> string \<Rightarrow> bool" where
  "meta_text e text \<longleftrightarrow> (\<exists>info x n. fe_loads e text = Some (JObj info) \<and> map_of info ''expires_at'' = Some (JInt x) \<and>
     map_of info ''file_name'' = Some (JStr n))"

definition store_ok :: "file_env \<Rightarrow> file_store \<Rightarrow> bool" where
  "store_ok e fs \<longleftrightarrow> distinct (map fst fs) \<and> (\<forall>((d, n), b) \<in> set fs.
     (isalnum n \<and> length b \<le> MAX_BYTES) \<or> (\<exists>u. n = u @ ''.json'' \<and> isalnum u \<and> meta_text e b))"

lemma store_okD:
  "store_ok e fs \<Longrightarrow> map_of fs (d, n) = Some b \<Longrightarrow>
     (isalnum n \<and> length b \<le> MAX_BYTES) \<or> (\<exists>u. n = u @ ''.json'' \<and> isalnum u \<and> meta_text e b)"
  unfolding store_ok_def by (blast dest: map_of_SomeD)

lemma store_ok_filter: "store_ok e fs \<Longrightarrow> store_ok e (filter P fs)"
  by (auto simp: store_ok_def distinct_map_filter)

lemma store_ok_remove: "store_ok e fs \<Longrightarrow> store_ok e (remove_file p fs)"
  unfolding remove_file_def by (rule store_ok_filter)

lemma store_ok_write:
  assumes "store_ok e fs" and "(isalnum n \<and> length b \<le> MAX_BYTES) \<or> (\<exists>u. n = u @ ''.json'' \<and> isalnum u \<and> meta_text e b)"
  shows "store_ok e (write_bytes (d, n) b fs)"
  using assms store_ok_filter [OF assms(1)]
  by (auto simp: store_ok_def write_bytes_def)

lemma store_ok_purge_one: "store_ok e (fst st) \<Longrightarrow> store_ok e (fst (purge_one e now f st))"
  by (auto simp: purge_one_def store_ok_remove split: prod.splits option.splits)

lemma store_ok_purge: "store_ok e fs \<Longrightarrow> store_ok e (fst (purge_expired e now fs))"
proof -
  have "store_ok e (fst st) \<Longrightarrow> store_ok e (fst (fold (purge_one e now) xs st))" for st xs
  proof (induction xs arbitrary: st)
    case (Cons f xs)
    then show ?case using store_ok_purge_one [of e st now f] by simp
  qed simp
  then show "store_ok e fs \<Longrightarrow> ?thesis" by (simp add: purge_expired_def)
qed

text \<open>The paths an expired entry takes with it.\<close>

definition killed :: "file_env \<Rightarrow> usec \<Rightarrow> file_path \<times> string \<Rightarrow> file_path \<Rightarrow> bool" where
  "killed e now f q \<longleftrightarrow> (\<exists>u. snd (fst f) = u @ ''.json'' \<and> u \<noteq> [] \<and> meta_expired e (snd f) now = Some True \<and>
     q \<in> {fst f, (fst (fst f), u)})"

lemma json_stem_append: "json_stem (u @ ''.json'') = (if u = [] then None else Some u)"
  by (auto simp: json_stem_def)

lemma map_of_purge_one:
  "map_of (fst (purge_one e now f st)) q = (if killed e now f q then None else map_of (fst st) q)"
proof (cases "json_stem (snd (fst f))")
  case None
  then have "\<not> killed e now f q" by (auto simp: killed_def json_stem_append)
  with None show ?thesis by (cases f) (auto simp: purge_one_def)
next
  case (Some u)
  then have "snd (fst f) = u @ ''.json''" by (rule json_stem_Some)
  with Some show ?thesis
    by (auto simp: purge_one_def killed_def json_stem_append split: prod.splits if_splits)
qed

lemma map_of_purge:
  "map_of (fst (purge_expired e now fs)) q = (if \<exists>f \<in> set fs. killed e now f q then None else map_of fs q)"
proof -
  have "map_of (fst (fold (purge_one e now) xs st)) q =
      (if \<exists>f \<in> set xs. killed e now f q then None else map_of (fst st) q)" for xs st
    by (induction xs arbitrary: st) (auto simp: map_of_purge_one)
  then show ?thesis by (simp add: purge_expired_def)
qed

lemma read_upload_Inr:
  "read_upload e a u now fs = Inr (n, b) \<longleftrightarrow> isalnum u \<and> map_of fs (show_int a, u) = Some b \<and>
     (\<exists>text info. map_of fs (show_int a, u @ ''.json'') = Some text \<and> meta_expired e text now = Some False \<and>
        fe_loads e text = Some (JObj info) \<and> map_of info ''file_name'' = Some (JStr n))"
  by (auto simp: read_upload_def upload_path_def meta_path_def
      split: option.splits json.splits bool.splits if_splits)

lemma meta_not_expired_before:
  "meta_text e text \<Longrightarrow> meta_expired e text now' = Some False \<Longrightarrow> now \<le> now' \<Longrightarrow> meta_expired e text now = Some False"
  by (auto simp: meta_text_def meta_expired_def)

lemma read_after_purge:
  assumes "store_ok e fs" and "now \<le> now'"
  shows "read_upload e a u now' (fst (purge_expired e now fs)) = Inr nb \<longleftrightarrow> read_upload e a u now' fs = Inr nb"
proof (cases nb)
  case (Pair n b)
  have keep: "map_of (fst (purge_expired e now fs)) (show_int a, u) = map_of fs (show_int a, u) \<and>
      map_of (fst (purge_expired e now fs)) (show_int a, u @ ''.json'') = Some tx"
    if u: "isalnum u" and t: "map_of fs (show_int a, u @ ''.json'') = Some tx"
      and live: "meta_expired e tx now' = Some False" for tx
  proof -
    have dot: "CHR ''.'' \<notin> set u" using isalnum_no_dot [OF u] .
    have ndot: "\<not> isalnum (u @ ''.json'')" using isalnum_no_dot [of "u @ ''.json''"] by auto
    have mt: "meta_text e tx" using store_okD [OF assms(1) t] ndot by blast
    have live_now: "meta_expired e tx now = Some False"
      by (rule meta_not_expired_before [OF mt live assms(2)])
    have "\<not> killed e now f q" if f: "f \<in> set fs" and q: "q \<in> {(show_int a, u), (show_int a, u @ ''.json'')}" for f q
    proof
      assume k: "killed e now f q"
      then obtain v where v: "snd (fst f) = v @ ''.json''" "meta_expired e (snd f) now = Some True"
        "q \<in> {fst f, (fst (fst f), v)}" unfolding killed_def by blast
      have m: "map_of fs (fst f) = Some (snd f)"
        using f assms(1) unfolding store_ok_def by (simp add: map_of_eq_Some_iff)
      have "\<not> isalnum (v @ ''.json'')" using isalnum_no_dot [of "v @ ''.json''"] by auto
      then have va: "isalnum v"
        using store_okD [OF assms(1), of "fst (fst f)" "snd (fst f)" "snd f"] m v(1) by (cases f) auto
      have "v \<noteq> u @ ''.json''" using isalnum_no_dot [OF va] by auto
      moreover have "v @ ''.json'' \<noteq> u" using dot by auto
      ultimately have "fst f = (show_int a, u @ ''.json'')"
        using v(1,3) q by (cases f) auto
      then have "snd f = tx" using m t by simp
      then show False using v(2) live_now by simp
    qed
    then show ?thesis using t by (simp add: map_of_purge)
  qed
  have sub: "map_of (fst (purge_expired e now fs)) q = Some y \<Longrightarrow> map_of fs q = Some y" for q y
    by (simp add: map_of_purge split: if_splits)
  show ?thesis
  proof
    assume "read_upload e a u now' (fst (purge_expired e now fs)) = Inr nb"
    then show "read_upload e a u now' fs = Inr nb" unfolding Pair read_upload_Inr using sub by blast
  next
    assume "read_upload e a u now' fs = Inr nb"
    then obtain tx info where r: "isalnum u" "map_of fs (show_int a, u) = Some b"
      "map_of fs (show_int a, u @ ''.json'') = Some tx" "meta_expired e tx now' = Some False"
      "fe_loads e tx = Some (JObj info)" "map_of info ''file_name'' = Some (JStr n)"
      unfolding Pair read_upload_Inr by blast
    with keep [OF r(1,3,4)] show "read_upload e a u now' (fst (purge_expired e now fs)) = Inr nb"
      unfolding Pair read_upload_Inr by auto
  qed
qed

lemma receive_chunks_Some: "receive_chunks n w cs = Some b \<Longrightarrow> n \<le> MAX_BYTES \<Longrightarrow> b = w @ concat cs \<and> n + length (concat cs) \<le> MAX_BYTES"
  by (induction n w cs rule: receive_chunks.induct) (auto split: if_splits)

text \<open>The metadata an upload writes.\<close>

definition upload_info :: "file_env \<Rightarrow> string \<Rightarrow> int \<Rightarrow> nat \<Rightarrow> usec \<Rightarrow> dict" where
  "upload_info e file_name x n now =
     [(''file_name'', JStr file_name), (''expires_at'', JInt x), (''size'', JInt (int n)), (''at'', fe_stamp e now)]"

definition chosen_name :: "string option \<Rightarrow> string option \<Rightarrow> string \<Rightarrow> string" where
  "chosen_name name x_file_name u = (case or_else name (or_else x_file_name (Some u)) of Some n \<Rightarrow> n | None \<Rightarrow> u)"

text \<open>The cases of a PUT with a token that verifies.\<close>

lemma upload_cases:
  assumes "upload_file e accounts token name x_file_name chunks complete now fs = (r, fs')"
    and "verify e token ''upload'' now = Inr (token_data (upload_payload a u) x)"
  shows "fs' = fs \<and> (\<forall>v n. r \<noteq> Stored v n) \<or>
    isalnum u \<and> fs' = remove_file (show_int a, u) fs \<and> (\<forall>v n. r \<noteq> Stored v n) \<or>
    isalnum u \<and> length (concat chunks) \<le> MAX_BYTES \<and> one_or_none (\<lambda>r. acc_id r = a \<and> acc_is_enabled r) accounts \<noteq> None \<and>
      (fs' = write_bytes (show_int a, u) (concat chunks) fs \<and> (\<forall>v n. r \<noteq> Stored v n) \<or>
       r = Stored u (length (concat chunks)) \<and>
       fs' = fst (purge_expired e now (write_bytes (show_int a, u @ ''.json'')
         (fe_dumps e (JObj (upload_info e (chosen_name name x_file_name u) x (length (concat chunks)) now)))
         (write_bytes (show_int a, u) (concat chunks) fs))))"
proof (cases "receive_chunks 0 [] chunks")
  case None
  then show ?thesis using assms
    by (auto simp: upload_file_def account_state_def upload_path_def split: option.splits if_splits)
next
  case (Some b)
  from receive_chunks_Some [OF this] have "b = concat chunks" "length (concat chunks) \<le> MAX_BYTES" by simp_all
  with Some show ?thesis using assms
    by (auto simp: upload_file_def account_state_def upload_path_def meta_path_def upload_info_def chosen_name_def Let_def
        split: option.splits if_splits)
qed

lemma read_upload_cong:
  "(\<And>q. q \<in> {(show_int a, u), (show_int a, u @ ''.json'')} \<Longrightarrow> map_of fs1 q = map_of fs2 q) \<Longrightarrow>
     read_upload e a u now fs1 = read_upload e a u now fs2"
  by (simp add: read_upload_def upload_path_def meta_path_def)

lemma other_upload_path:
  assumes "isalnum u" "isalnum u'" "(a', u') \<noteq> (a, u)" and "q \<in> {(show_int a', u'), (show_int a', u' @ ''.json'')}"
  shows "q \<noteq> (show_int a, u) \<and> q \<noteq> (show_int a, u @ ''.json'')"
  using assms isalnum_no_dot [of u] isalnum_no_dot [of u'] by auto

lemma upload_info_get [simp]:
  "map_of (upload_info e n x k now) ''expires_at'' = Some (JInt x)"
  "map_of (upload_info e n x k now) ''file_name'' = Some (JStr n)"
  by (simp_all add: upload_info_def)

lemma stored_upload:
  assumes ok: "store_ok e fs" and u: "isalnum u" and len: "length b \<le> MAX_BYTES"
    and law: "fe_loads e (fe_dumps e (JObj (upload_info e n x k now))) = Some (JObj (upload_info e n x k now))"
    and fs1: "fs1 = write_bytes (show_int a, u @ ''.json'') (fe_dumps e (JObj (upload_info e n x k now)))
      (write_bytes (show_int a, u) b fs)"
    and "now \<le> now'"
  shows "store_ok e (fst (purge_expired e now fs1))"
    and "now' \<le> seconds x \<Longrightarrow> read_upload e a u now' (fst (purge_expired e now fs1)) = Inr (n, b)"
    and "(a', u') \<noteq> (a, u) \<Longrightarrow>
      read_upload e a' u' now' (fst (purge_expired e now fs1)) = Inr f \<longleftrightarrow> read_upload e a' u' now' fs = Inr f"
proof -
  have mt: "meta_text e (fe_dumps e (JObj (upload_info e n x k now)))" using law by (auto simp: meta_text_def)
  have ok1: "store_ok e fs1"
    unfolding fs1 by (intro store_ok_write) (use ok u len mt in auto)
  then show "store_ok e (fst (purge_expired e now fs1))" by (rule store_ok_purge)
  show "read_upload e a u now' (fst (purge_expired e now fs1)) = Inr (n, b)" if x: "now' \<le> seconds x"
  proof -
    have "meta_expired e (fe_dumps e (JObj (upload_info e n x k now))) now' = Some False"
      using x by (simp add: meta_expired_def law)
    then have "read_upload e a u now' fs1 = Inr (n, b)"
      unfolding read_upload_Inr using u by (simp add: fs1 law)
    then show ?thesis using read_after_purge [OF ok1 assms(6)] by blast
  qed
  show "read_upload e a' u' now' (fst (purge_expired e now fs1)) = Inr f \<longleftrightarrow> read_upload e a' u' now' fs = Inr f"
    if ne: "(a', u') \<noteq> (a, u)"
  proof (cases "isalnum u'")
    case True
    have "read_upload e a' u' now' fs1 = read_upload e a' u' now' fs"
      by (rule read_upload_cong) (use other_upload_path [OF u True ne] in \<open>auto simp: fs1\<close>)
    then show ?thesis using read_after_purge [OF ok1 assms(6)] by simp
  next
    case False
    then show ?thesis by (simp add: read_upload_def upload_path_def)
  qed
qed

text \<open>The JSON of the metadata reads back.\<close>

definition metadata_sound :: "file_env \<Rightarrow> (dict \<times> usec) list \<Rightarrow> string option \<Rightarrow> string option \<Rightarrow> nat \<Rightarrow> usec \<Rightarrow> bool" where
  "metadata_sound e issued name x_file_name n now \<longleftrightarrow>
    (\<forall>a u t. (upload_payload a u, t) \<in> set issued \<longrightarrow>
      (let info = JObj (upload_info e (chosen_name name x_file_name u) (t div 1000000 + LINK_TTL) n now)
       in fe_loads e (fe_dumps e info) = Some info))"

text \<open>
  C16 Uploads. Whatever a PUT sends, in however many chunks, broken off or not, no file of the
  directory grows beyond 50 MB; what any account can read under any upload id changes only for
  the account and id that were signed into the token; and after a complete upload that account
  reads back exactly the bytes sent, under the name given, until the token's time is over.
\<close>
theorem uploads_stay_with_their_account:
  assumes ok: "store_ok e fs" and sound: "tokens_sound e issued" and only: "only_issued e issued token"
    and law: "metadata_sound e issued name x_file_name (length (concat chunks)) now"
    and up: "upload_file e accounts token name x_file_name chunks complete now fs = (r, fs')" and later: "now \<le> now'"
  shows "store_ok e fs' \<and>
    (\<forall>a u. (\<forall>t x. (upload_payload a u, t) \<in> set issued \<longrightarrow> sign e (upload_payload a u) None t \<noteq> Inr (token, x)) \<longrightarrow>
       (\<forall>f. read_upload e a u now' fs' = Inr f \<longleftrightarrow> read_upload e a u now' fs = Inr f)) \<and>
    (\<forall>u n. r = Stored u n \<longrightarrow> (\<exists>a t x. (upload_payload a u, t) \<in> set issued \<and>
       sign e (upload_payload a u) None t = Inr (token, x) \<and> n = length (concat chunks) \<and>
       (now' \<le> seconds x \<longrightarrow> read_upload e a u now' fs' = Inr (chosen_name name x_file_name u, concat chunks))))"
proof (cases "verify e token ''upload'' now")
  case (Inl err)
  then have "fs' = fs" "\<forall>u n. r \<noteq> Stored u n"
    using up by (auto simp: upload_file_def split: file_error.splits)
  then show ?thesis using ok by simp
next
  case (Inr data)
  from verify_accepts [OF sound only Inr] obtain p t x where p: "(p, t) \<in> set issued" "sign e p None t = Inr (token, x)"
      "data = token_data p x" "map_of data ''k'' = Some (JStr ''upload'')"
      "(\<exists>a c m i. p = file_payload a (JInt c) (JInt m) i) \<or> (\<exists>a u. p = upload_payload a u)" .
  from p(3-5) obtain a u where pay: "p = upload_payload a u" by auto
  let ?n = "chosen_name name x_file_name u" and ?b = "concat chunks"
  have x: "x = t div 1000000 + LINK_TTL" using p(2) by (simp add: sign_Inr)
  have l: "fe_loads e (fe_dumps e (JObj (upload_info e ?n x (length ?b) now))) =
      Some (JObj (upload_info e ?n x (length ?b) now))"
    using law p(1) unfolding metadata_sound_def Let_def pay x by blast
  have ne: "(a', u') \<noteq> (a, u)"
    if "\<forall>t x. (upload_payload a' u', t) \<in> set issued \<longrightarrow> sign e (upload_payload a' u') None t \<noteq> Inr (token, x)" for a' u'
    using that p(1,2) unfolding pay by blast
  have same: "read_upload e a' u' now' fs' = read_upload e a' u' now' fs"
    if "isalnum u" "(a', u') \<noteq> (a, u)" "fs' = remove_file (show_int a, u) fs \<or> fs' = write_bytes (show_int a, u) ?b fs" for a' u'
  proof (cases "isalnum u'")
    case True
    show ?thesis
    proof (rule read_upload_cong)
      fix q assume "q \<in> {(show_int a', u'), (show_int a', u' @ ''.json'')}"
      from other_upload_path [OF that(1) True that(2) this] that(3)
      show "map_of fs' q = map_of fs q" by auto
    qed
  qed (simp add: read_upload_def upload_path_def)
  note cases = upload_cases [OF up Inr [unfolded p(3) pay]]
  then consider "fs' = fs" "\<forall>v n. r \<noteq> Stored v n"
    | "isalnum u" "fs' = remove_file (show_int a, u) fs" "\<forall>v n. r \<noteq> Stored v n"
    | "isalnum u" "length ?b \<le> MAX_BYTES" "fs' = write_bytes (show_int a, u) ?b fs" "\<forall>v n. r \<noteq> Stored v n"
    | "isalnum u" "length ?b \<le> MAX_BYTES" "r = Stored u (length ?b)" "fs' = fst (purge_expired e now
         (write_bytes (show_int a, u @ ''.json'') (fe_dumps e (JObj (upload_info e ?n x (length ?b) now)))
         (write_bytes (show_int a, u) ?b fs)))"
    by blast
  then show ?thesis
  proof cases
    case 1
    then show ?thesis using ok by simp
  next
    case 2
    then show ?thesis using ok ne same store_ok_remove by simp
  next
    case 3
    then show ?thesis using store_ok_write [OF ok, of u ?b "show_int a"] ne same by simp
  next
    case 4
    note s = stored_upload [OF ok 4(1,2) l refl later]
    have "store_ok e fs'" unfolding 4(4) by (rule s(1))
    moreover have "read_upload e a' u' now' fs' = Inr f \<longleftrightarrow> read_upload e a' u' now' fs = Inr f"
      if "(a', u') \<noteq> (a, u)" for a' u' f
      unfolding 4(4) by (rule s(3) [OF that])
    moreover have "now' \<le> seconds x \<longrightarrow> read_upload e a u now' fs' = Inr (?n, ?b)"
      unfolding 4(4) using s(2) by blast
    ultimately show ?thesis using 4(3) p(1,2) ne unfolding pay by (intro conjI; blast)
  qed
qed

definition demo_upload_token :: json where
  "demo_upload_token = JObj (token_data (upload_payload 7 ''ab'') 900)"

definition demo_upload_info :: json where
  "demo_upload_info = JObj [(''file_name'', JStr ''f''), (''expires_at'', JInt 900), (''size'', JInt 3), (''at'', JInt 1000000)]"

definition demo_upload_env :: file_env where
  "demo_upload_env = demo_file_env\<lparr>
     fe_dumps := (\<lambda>j. if j = demo_upload_token then ''{1'' else ''{2''),
     fe_loads := (\<lambda>s. if s = ''{1'' then Some demo_upload_token else if s = ''{2'' then Some demo_upload_info else None)\<rparr>"

lemma demo_upload_differ: "demo_upload_info \<noteq> demo_upload_token"
  by (simp add: demo_upload_info_def demo_upload_token_def token_data_def upload_payload_def)

lemma demo_upload_body: "token_body demo_upload_env (upload_payload 7 ''ab'') 900 = ''ezE''"
proof -
  have "JObj (py_set ''x'' (JInt 900) (upload_payload 7 ''ab'')) = demo_upload_token"
    by (simp add: demo_upload_token_def token_data_def)
  then show ?thesis
    by (simp add: token_body_def demo_upload_env_def b64_char_def B64_ALPHABET_def byte_def rstrip_char_def)
qed

lemma demo_upload_sound: "tokens_sound demo_upload_env [(upload_payload 7 ''ab'', 0)]"
  by (auto simp: tokens_sound_def demo_upload_env_def demo_file_env_def hex_text_def LINK_TTL_def
      simp flip: demo_upload_token_def)

lemma demo_upload_only: "only_issued demo_upload_env [(upload_payload 7 ''ab'', 0)] ''ezE.a1''"
proof -
  have "body = ''ezE''" if "''ezE.a1'' = body @ ''.'' @ fe_hmac demo_upload_env (fe_secret demo_upload_env) body" for body
  proof -
    have "length (fe_hmac demo_upload_env (fe_secret demo_upload_env) body) = 2"
      by (simp add: demo_upload_env_def demo_file_env_def)
    then have "length body = 3" using arg_cong [OF that, of length] by simp
    then show ?thesis using arg_cong [OF that, of "take 3"] by simp
  qed
  then show ?thesis by (simp add: only_issued_def demo_upload_body LINK_TTL_def)
qed

lemma demo_upload_law:
  "metadata_sound demo_upload_env [(upload_payload 7 ''ab'', 0)] (Some ''f'') None (length (concat [''xy'', ''z''])) (seconds 1)"
proof -
  have "JObj (upload_info demo_upload_env (chosen_name (Some ''f'') None u) (0 div 1000000 + LINK_TTL)
      (length (concat [''xy'', ''z''])) (seconds 1)) = demo_upload_info" for u
    by (simp add: upload_info_def demo_upload_info_def chosen_name_def or_else_def LINK_TTL_def seconds_def
        demo_upload_env_def demo_file_env_def)
  moreover have "fe_loads demo_upload_env (fe_dumps demo_upload_env demo_upload_info) = Some demo_upload_info"
    using demo_upload_differ by (simp add: demo_upload_env_def)
  ultimately show ?thesis unfolding metadata_sound_def Let_def by (auto simp: upload_payload_def)
qed

theorem uploads_stay_with_their_account_witness:
  "read_upload demo_upload_env 7 ''ab'' (seconds 2)
     (snd (upload_file demo_upload_env [demo_file_account] ''ezE.a1'' (Some ''f'') None [''xy'', ''z''] True (seconds 1) [])) =
   Inr (''f'', ''xyz'')"
proof -
  obtain r fs' where up: "upload_file demo_upload_env [demo_file_account] ''ezE.a1'' (Some ''f'') None [''xy'', ''z''] True
      (seconds 1) [] = (r, fs')" by (rule prod.exhaust)
  have "sign demo_upload_env (upload_payload 7 ''ab'') None 0 = Inr (''ezE.a1'', 900)"
    unfolding sign_Inr LINK_TTL_def using demo_upload_body by (simp add: demo_upload_env_def demo_file_env_def)
  then have v: "verify demo_upload_env ''ezE.a1'' ''upload'' (seconds 1) = Inr (token_data (upload_payload 7 ''ab'') 900)"
    using verify_issued [OF demo_upload_sound, of "upload_payload 7 ''ab''" 0 "''ezE.a1''" 900 "''upload''" "seconds 1"] by simp
  have "r = Stored ''ab'' 3"
    using up by (auto simp: upload_file_def v account_state_def one_or_none_def demo_file_account_def upload_path_def
      isalnum_def is_alnum_char_def byte_def MAX_BYTES_def Let_def numeral_3_eq_3)
  moreover have "store_ok demo_upload_env []" by (simp add: store_ok_def)
  moreover have "seconds 1 \<le> seconds 2" by simp
  ultimately obtain a t x where s: "(upload_payload a ''ab'', t) \<in> set [(upload_payload 7 ''ab'', 0)]"
    "sign demo_upload_env (upload_payload a ''ab'') None t = Inr (''ezE.a1'', x)"
    "seconds 2 \<le> seconds x \<longrightarrow>
      read_upload demo_upload_env a ''ab'' (seconds 2) fs' = Inr (chosen_name (Some ''f'') None ''ab'', concat [''xy'', ''z''])"
    using uploads_stay_with_their_account [OF _ demo_upload_sound demo_upload_only demo_upload_law up, where now' = "seconds 2"] by blast
  have "a = 7" "x = 900" using s(1,2) by (auto simp: upload_payload_def sign_Inr LINK_TTL_def)
  with s(3) have "read_upload demo_upload_env 7 ''ab'' (seconds 2) fs' = Inr (''f'', ''xyz'')"
    by (simp add: chosen_name_def or_else_def)
  then show ?thesis by (simp add: up)
qed

text \<open>
  A second PUT that breaks off replaces the bytes of the first and leaves its metadata: the
  account reads the torn file under the first one's name.
\<close>

lemma receive_chunks_fits:
  "n + length (concat cs) \<le> MAX_BYTES \<Longrightarrow> receive_chunks n w cs = Some (w @ concat cs)"
  by (induction cs arbitrary: n w) auto

lemma broken_upload_is_read:
  assumes "read_upload e a u now fs = Inr (n, old)"
    and "verify e token ''upload'' now = Inr (token_data (upload_payload a u) x)"
    and "account_state accounts a = Some st" and "length (concat chunks) \<le> MAX_BYTES"
  shows "read_upload e a u now (snd (upload_file e accounts token name x_file_name chunks False now fs)) =
    Inr (n, concat chunks)"
proof -
  have u: "isalnum u" using assms(1) by (simp add: read_upload_Inr)
  then have "snd (upload_file e accounts token name x_file_name chunks False now fs) =
      write_bytes (show_int a, u) (concat chunks) fs"
    using receive_chunks_fits [of 0 chunks "[]"] assms(4) by (simp add: upload_file_def assms(2,3) upload_path_def)
  then show ?thesis using assms(1) by (simp add: read_upload_Inr)
qed

end
