(* ===== verification/Mcp_Tools.thy ===== *)
theory Mcp_Tools
  imports Mcp_Files Decimal
begin

text \<open>
  The tools of remote agents (\<^verbatim>\<open>app/mcp/tools.py\<close>, \<^verbatim>\<open>app/mcp/invoke.py\<close>): ids in arguments and
  answers, how a tool turns its arguments into a call of a REST route, the tools that carry files.
  The descriptions of tools and of their properties are texts for agents and are left out of the
  schemas; everything else of a schema is there. A closure the source passes to \<^verbatim>\<open>rest\<close> is a
  value that says what it computes.
\<close>

subsection \<open>Callers, calls and their environment\<close>

record caller =
  cl_scope :: string
  cl_account_id :: "int option"
  cl_alias :: "string option"
  cl_platform :: string
  cl_mode :: string
  cl_base_url :: string

definition caller_state :: "caller \<Rightarrow> dict" where
  "caller_state c = [(''account_id'', jopt_int (cl_account_id c)), (''session_alias'', jopt_str (cl_alias c)),
     (''platform'', JStr (cl_platform c)), (''scope'', JStr (cl_scope c))]"

text \<open>A part of a multipart body.\<close>

datatype form_part =
    Field string json
  | File_part string string string \<comment> \<open>field, file name, content\<close>

record rest_call =
  rc_platform :: string
  rc_method :: string
  rc_path :: string
  rc_state :: dict
  rc_query :: "dict option"
  rc_json :: "json option"
  rc_parts :: "form_part list option"

record rest_result =
  rr_status :: int
  rr_body :: json

definition result_ok :: "rest_result \<Rightarrow> bool" where
  "result_ok r \<longleftrightarrow> 200 \<le> rr_status r \<and> rr_status r < 300"

text \<open>
  What the calls work on: the control tables with the caches, the files of uploads, and the calls
  that have reached an endpoint, with the name of its route.
\<close>

record mcp_world =
  mw_sys :: auth_sys
  mw_files :: file_store
  mw_calls :: "(string \<times> rest_call) list"

text \<open>
  \<open>te_routes\<close>: the routes a platform serves; \<open>te_endpoint\<close>: what the route's handler answers;
  \<open>te_token\<close>: \<^verbatim>\<open>secrets.token_hex\<close>; \<open>te_int\<close>: \<^verbatim>\<open>int(v)\<close> of what is no integer or text;
  \<open>te_zero\<close>: whether a float is zero; \<open>te_float_id\<close>: the integer a float within
  2^53 is, if it is one; \<open>te_str\<close>: \<^verbatim>\<open>str(v)\<close> of what is neither integer, text, Boolean nor
  None; \<open>te_exception\<close>: type and text of an exception of the interpreter or a library;
  \<open>te_column\<close>: what the driver stores in a BIGINT column for what is no integer, if it takes it;
  \<open>te_validate\<close>: the message of \<^verbatim>\<open>jsonschema.validate\<close>, if it raises.
\<close>

record tool_env =
  te_files :: file_env
  te_routes :: "string \<Rightarrow> route_table"
  te_endpoint :: "string \<Rightarrow> rest_call \<Rightarrow> auth_sys \<Rightarrow> rest_result \<times> auth_sys"
  te_token :: string
  te_int :: "json \<Rightarrow> int option"
  te_zero :: "string \<Rightarrow> bool"
  te_float_id :: "string \<Rightarrow> int option"
  te_str :: "json \<Rightarrow> string"
  te_dumps :: "json \<Rightarrow> string"
  te_exception :: "string \<times> string"
  te_column :: "json \<Rightarrow> int option option"
  te_validate :: "json \<Rightarrow> json \<Rightarrow> string option"
  te_scheduled_enabled :: bool
  te_sha :: "string \<Rightarrow> string"
  te_now :: usec
  te_wall :: usec

text \<open>\<^verbatim>\<open>ToolError\<close> with its text, or another exception with its type and text.\<close>

datatype tool_exc =
    Tool_error string
  | Other_error string string

definition other_error :: "tool_env \<Rightarrow> tool_exc" where
  "other_error e = Other_error (fst (te_exception e)) (snd (te_exception e))"

text \<open>A \<^verbatim>\<open>LinkError\<close> is turned into a \<^verbatim>\<open>ToolError\<close>.\<close>

definition link_error :: "tool_env \<Rightarrow> file_error \<Rightarrow> tool_exc" where
  "link_error e err = (case err of Link_error s \<Rightarrow> Tool_error s | Crash \<Rightarrow> other_error e)"

subsection \<open>Python values\<close>

definition arg_truthy :: "tool_env \<Rightarrow> json option \<Rightarrow> bool" where
  "arg_truthy e v = (case v of None \<Rightarrow> False | Some JNull \<Rightarrow> False | Some (JBool b) \<Rightarrow> b | Some (JInt i) \<Rightarrow> i \<noteq> 0
     | Some (JFloat f) \<Rightarrow> \<not> te_zero e f | Some (JStr s) \<Rightarrow> s \<noteq> [] | Some (JList xs) \<Rightarrow> xs \<noteq> []
     | Some (JObj d) \<Rightarrow> d \<noteq> [])"

definition py_str :: "tool_env \<Rightarrow> json \<Rightarrow> string" where
  "py_str e v = (case v of JNull \<Rightarrow> ''None'' | JBool b \<Rightarrow> if b then ''True'' else ''False''
     | JInt i \<Rightarrow> show_int i | JStr s \<Rightarrow> s | _ \<Rightarrow> te_str e v)"

definition to_int :: "tool_env \<Rightarrow> json \<Rightarrow> int option" where
  "to_int e v = (case v of JInt i \<Rightarrow> Some i | JBool b \<Rightarrow> Some (if b then 1 else 0) | JStr s \<Rightarrow> py_int s | _ \<Rightarrow> te_int e v)"

text \<open>\<^verbatim>\<open>args.get(k)\<close> is None for a missing key and for a null.\<close>

definition get_value :: "dict \<Rightarrow> string \<Rightarrow> json option" where
  "get_value d k = (case map_of d k of Some JNull \<Rightarrow> None | v \<Rightarrow> v)"

subsection \<open>Ids\<close>

definition MAX_SAFE_INT :: int where
  "MAX_SAFE_INT = 2 ^ 53 - 1"

definition ID_KEYS :: "string list" where
  "ID_KEYS = [''chat_id'', ''message_id'', ''message_ids'', ''reply_to_message_id'', ''from_user_id'', ''user_id'',
     ''to_chat_id'', ''from_chat_id'', ''forward_from_chat_id'', ''forward_from_message_id'', ''user_ids'',
     ''chat_ids'', ''answer_ids'', ''link_ids'']"

definition SMALL_IDS :: "string list" where
  "SMALL_IDS = [''person_id'', ''identity_id'', ''from_id'', ''to_id'']"

text \<open>\<^verbatim>\<open>^-?\d+$\<close>.\<close>

definition ID_PATTERN :: string where
  "ID_PATTERN = ''^-?'' @ [CHR 0x5C] @ ''d+$''"

definition ID_TYPES :: json where
  "ID_TYPES = JList [JStr ''string'', JStr ''integer'']"

definition ID_TYPE :: dict where
  "ID_TYPE = [(''type'', ID_TYPES), (''pattern'', JStr ID_PATTERN)]"

text \<open>\<^verbatim>\<open>d.get(k)\<close> of a value that should be a dictionary.\<close>

definition json_member :: "json \<Rightarrow> string \<Rightarrow> json option" where
  "json_member v k = (case v of JObj d \<Rightarrow> get_value d k | _ \<Rightarrow> None)"

definition ends_with :: "string \<Rightarrow> string \<Rightarrow> bool" where
  "ends_with s t = starts_with (rev s) (rev t)"

definition is_id :: "string \<Rightarrow> json \<Rightarrow> bool" where
  "is_id name prop =
    (if name \<in> set SMALL_IDS then False
     else if json_member prop ''type'' = Some (JStr ''array'') then
       name \<in> set ID_KEYS \<and> Option.bind (json_member prop ''items'') (\<lambda>i. json_member i ''type'') = Some (JStr ''integer'')
     else json_member prop ''type'' = Some (JStr ''integer'') \<and> (name \<in> set ID_KEYS \<or> ends_with name ''_id''))"

definition dict_update :: "dict \<Rightarrow> dict \<Rightarrow> dict" where
  "dict_update d d' = fold (\<lambda>(k, v). py_set k v) d' d"

definition widen_prop :: "string \<Rightarrow> json \<Rightarrow> json" where
  "widen_prop name prop =
    (if \<not> is_id name prop then prop
     else
      (case prop of
         JObj d \<Rightarrow>
           (if json_member prop ''type'' = Some (JStr ''array'')
            then (case map_of d ''items'' of
                    Some (JObj i) \<Rightarrow> JObj (py_set ''items'' (JObj (dict_update i ID_TYPE)) d)
                  | _ \<Rightarrow> prop)
            else JObj (dict_update d ID_TYPE))
       | _ \<Rightarrow> prop))"

definition widen_ids :: "json \<Rightarrow> json" where
  "widen_ids schema =
    (case schema of
       JObj d \<Rightarrow>
         (case map_of d ''properties'' of
            Some (JObj ps) \<Rightarrow> JObj (py_set ''properties'' (JObj (map (\<lambda>(n, p). (n, widen_prop n p)) ps)) d)
          | _ \<Rightarrow> schema)
     | _ \<Rightarrow> schema)"

text \<open>\<^verbatim>\<open>re.fullmatch(r"-?\d+", s)\<close> for code points below 256.\<close>

definition id_pattern :: "string \<Rightarrow> bool" where
  "id_pattern s = (case s of c # t \<Rightarrow>
     if c = CHR ''-'' then t \<noteq> [] \<and> list_all is_digit t else list_all is_digit s | [] \<Rightarrow> False)"

definition to_id :: "tool_env \<Rightarrow> string \<Rightarrow> json \<Rightarrow> tool_exc + int" where
  "to_id e key v =
    (let wrong = Inl (Tool_error (''Error: '' @ key @ '' must be an integer id''))
     in case v of
          JInt i \<Rightarrow> Inr i
        | JFloat f \<Rightarrow> (case te_float_id e f of Some i \<Rightarrow> Inr i | None \<Rightarrow> wrong)
        | JStr s \<Rightarrow> (if id_pattern s then (case py_int s of Some i \<Rightarrow> Inr i | None \<Rightarrow> wrong) else wrong)
        | _ \<Rightarrow> wrong)"

fun to_ids :: "tool_env \<Rightarrow> string \<Rightarrow> json list \<Rightarrow> tool_exc + json list" where
  "to_ids e key [] = Inr []"
| "to_ids e key (v # vs) =
    (case to_id e key v of
       Inl err \<Rightarrow> Inl err
     | Inr i \<Rightarrow> (case to_ids e key vs of Inl err \<Rightarrow> Inl err | Inr is' \<Rightarrow> Inr (JInt i # is')))"

definition coerce_one :: "tool_env \<Rightarrow> string \<Rightarrow> json \<Rightarrow> dict \<Rightarrow> tool_exc + dict" where
  "coerce_one e name prop out =
    (case get_value out name of
       None \<Rightarrow> Inr out
     | Some v \<Rightarrow>
        if json_member prop ''type'' = Some ID_TYPES then
          (case to_id e name v of Inl err \<Rightarrow> Inl err | Inr i \<Rightarrow> Inr (py_set name (JInt i) out))
        else if json_member prop ''type'' = Some (JStr ''array'') \<and>
            Option.bind (json_member prop ''items'') (\<lambda>i. json_member i ''type'') = Some ID_TYPES then
          (case v of
             JList vs \<Rightarrow> (case to_ids e name vs of Inl err \<Rightarrow> Inl err | Inr is' \<Rightarrow> Inr (py_set name (JList is') out))
           | _ \<Rightarrow> Inl (Tool_error (''Error: '' @ name @ '' must be a list of integer ids'')))
        else Inr out)"

fun coerce_props :: "tool_env \<Rightarrow> dict \<Rightarrow> dict \<Rightarrow> tool_exc + dict" where
  "coerce_props e [] out = Inr out"
| "coerce_props e ((name, prop) # ps) out =
    (case coerce_one e name prop out of Inl err \<Rightarrow> Inl err | Inr out' \<Rightarrow> coerce_props e ps out')"

definition schema_properties :: "json \<Rightarrow> dict" where
  "schema_properties schema = (case json_member schema ''properties'' of Some (JObj ps) \<Rightarrow> ps | _ \<Rightarrow> [])"

definition coerce_ids :: "tool_env \<Rightarrow> dict \<Rightarrow> json \<Rightarrow> tool_exc + dict" where
  "coerce_ids e args schema = coerce_props e (schema_properties schema) args"

fun safe_ints :: "json \<Rightarrow> json" where
  "safe_ints (JObj d) = JObj (map (\<lambda>(k, v). (k, safe_ints v)) d)"
| "safe_ints (JList vs) = JList (map safe_ints vs)"
| "safe_ints (JInt i) = (if MAX_SAFE_INT < \<bar>i\<bar> then JStr (show_int i) else JInt i)"
| "safe_ints v = v"

subsection \<open>Calling a REST route\<close>

definition clean :: "dict \<Rightarrow> string list \<Rightarrow> dict" where
  "clean args drop_keys = filter (\<lambda>(k, v). v \<noteq> JNull \<and> k \<notin> set drop_keys) args"

text \<open>The closures passed as \<open>query\<close> and \<open>body\<close>; a missing \<^verbatim>\<open>a[k]\<close> is a \<^verbatim>\<open>KeyError\<close>.\<close>

datatype args_fn =
    No_args
  | All_args
  | Without "string list"
  | Pick "(string \<times> json option) list" \<comment> \<open>key, the default of \<^verbatim>\<open>a.get\<close>\<close>

fun pick_args :: "(string \<times> json option) list \<Rightarrow> dict \<Rightarrow> tool_exc + dict" where
  "pick_args [] args = Inr []"
| "pick_args ((k, dflt) # ks) args =
    (case (case map_of args k of Some v \<Rightarrow> Some v | None \<Rightarrow> dflt) of
       None \<Rightarrow> Inl (Other_error ''KeyError'' (quoted k))
     | Some v \<Rightarrow> (case pick_args ks args of Inl err \<Rightarrow> Inl err | Inr d \<Rightarrow> Inr ((k, v) # d)))"

definition apply_args :: "args_fn \<Rightarrow> dict \<Rightarrow> tool_exc + dict option" where
  "apply_args f args =
    (case f of
       No_args \<Rightarrow> Inr None
     | All_args \<Rightarrow> Inr (Some (clean args []))
     | Without ks \<Rightarrow> Inr (Some (clean args ks))
     | Pick ks \<Rightarrow> (case pick_args ks args of Inl err \<Rightarrow> Inl err | Inr d \<Rightarrow> Inr (Some d)))"

text \<open>\<^verbatim>\<open>path.format(**args)\<close> of a template whose fields are names.\<close>

fun format_path :: "tool_env \<Rightarrow> dict \<Rightarrow> string option \<Rightarrow> string \<Rightarrow> tool_exc + string" where
  "format_path e args field [] = Inr []"
| "format_path e args None (c # s) =
    (if c = CHR 0x7B then format_path e args (Some []) s
     else (case format_path e args None s of Inl err \<Rightarrow> Inl err | Inr t \<Rightarrow> Inr (c # t)))"
| "format_path e args (Some name) (c # s) =
    (if c = CHR 0x7D then
       (case map_of args (rev name) of
          None \<Rightarrow> Inl (Other_error ''KeyError'' (quoted (rev name)))
        | Some v \<Rightarrow> (case format_path e args None s of Inl err \<Rightarrow> Inl err | Inr t \<Rightarrow> Inr (py_str e v @ t)))
     else format_path e args (Some (c # name)) s)"

definition rest_prefix :: "string \<Rightarrow> string" where
  "rest_prefix platform = (if platform = ''max'' then MAX_INTERNAL_PREFIX else API_PREFIX)"

text \<open>
  \<^verbatim>\<open>invoke.call\<close>: the first route of the platform that matches handles the request.
\<close>

definition invoke_call :: "tool_env \<Rightarrow> rest_call \<Rightarrow> mcp_world \<Rightarrow> rest_result \<times> mcp_world" where
  "invoke_call e c w =
    (case resolve (te_routes e (rc_platform c)) (rc_method c) (rest_prefix (rc_platform c) @ rc_path c) of
       None \<Rightarrow>
         ((if rc_platform c = ''max''
           then \<lparr>rr_status = 501, rr_body = JObj [(''error'', JStr (rc_method c @ '' '' @ rc_path c @
             '' is not supported for platform max''))]\<rparr>
           else \<lparr>rr_status = 404, rr_body = JObj [(''detail'', JStr ''Not Found'')]\<rparr>), w)
     | Some route \<Rightarrow>
        (case te_endpoint e route c (mw_sys w) of
           (r, s) \<Rightarrow> (r, w\<lparr>mw_sys := s, mw_calls := mw_calls w @ [(route, c)]\<rparr>)))"

definition body_text :: "tool_env \<Rightarrow> json \<Rightarrow> string" where
  "body_text e body = (case body of JStr s \<Rightarrow> s | _ \<Rightarrow> te_dumps e body)"

definition do_rest ::
    "tool_env \<Rightarrow> caller \<Rightarrow> string \<Rightarrow> string \<Rightarrow> dict option \<Rightarrow> json option \<Rightarrow> form_part list option
       \<Rightarrow> mcp_world \<Rightarrow> (tool_exc + json) \<times> mcp_world" where
  "do_rest e c method path query js parts w =
    (case invoke_call e \<lparr>rc_platform = cl_platform c, rc_method = method, rc_path = path, rc_state = caller_state c,
            rc_query = query, rc_json = js, rc_parts = parts\<rparr> w of
       (r, w) \<Rightarrow>
         (if result_ok r then (Inr (rr_body r), w)
          else
           (let message = (if rr_status r \<in> {403, 429} then json_member (rr_body r) ''message'' else None);
                head = ''HTTP '' @ show_int (rr_status r) @ '': ''
            in if arg_truthy e message
               then (Inl (Tool_error (head @ (case message of Some m \<Rightarrow> py_str e m | None \<Rightarrow> []) @ ''. Details: '' @
                      body_text e (rr_body r))), w)
               else (Inl (Tool_error (head @ body_text e (rr_body r))), w))))"

definition rest_handler ::
    "tool_env \<Rightarrow> string \<Rightarrow> string \<Rightarrow> args_fn \<Rightarrow> args_fn \<Rightarrow> caller \<Rightarrow> dict \<Rightarrow> mcp_world
       \<Rightarrow> (tool_exc + json) \<times> mcp_world" where
  "rest_handler e method template query body c args w =
    (case format_path e args None template of
       Inl err \<Rightarrow> (Inl err, w)
     | Inr path \<Rightarrow>
        (case apply_args query args of
           Inl err \<Rightarrow> (Inl err, w)
         | Inr q \<Rightarrow>
            (case apply_args body args of
               Inl err \<Rightarrow> (Inl err, w)
             | Inr b \<Rightarrow> do_rest e c method path q (map_option JObj b) None w)))"

subsection \<open>Tools that carry files\<close>

definition FILE_PATHS_REFUSED :: string where
  "FILE_PATHS_REFUSED = ''local paths are not visible to the server: use create_upload (or file_url) and pass upload_id''"

definition get_file :: "tool_env \<Rightarrow> caller \<Rightarrow> dict \<Rightarrow> mcp_world \<Rightarrow> tool_exc + string \<times> string" where
  "get_file e c args w =
    (if arg_truthy e (map_of args ''file_path'') \<or> arg_truthy e (map_of args ''photo_path'') \<or> arg_truthy e (map_of args ''file_paths'')
     then Inl (Tool_error FILE_PATHS_REFUSED)
     else if arg_truthy e (map_of args ''upload_id'') then
       (case (map_of args ''upload_id'', cl_account_id c) of
          (Some (JStr u), Some a) \<Rightarrow>
            (case read_upload (te_files e) a u (te_wall e) (mw_files w) of
               Inl err \<Rightarrow> Inl (link_error e err) | Inr f \<Rightarrow> Inr f)
        | _ \<Rightarrow> Inl (other_error e))
     else if arg_truthy e (map_of args ''file_url'') then
       (case map_of args ''file_url'' of
          Some (JStr url) \<Rightarrow>
            (case fetch_url (te_files e) url of Inl err \<Rightarrow> Inl (link_error e err) | Inr f \<Rightarrow> Inr f)
        | _ \<Rightarrow> Inl (other_error e))
     else Inl (Tool_error ''pass file_url or upload_id''))"

definition form_fields :: "dict \<Rightarrow> string list \<Rightarrow> form_part list" where
  "form_fields args keys = List.map_filter (\<lambda>k. map_option (Field k) (get_value args k)) keys"

text \<open>\<^verbatim>\<open>args["chat_id"]\<close> of a checked call.\<close>

definition with_chat :: "dict \<Rightarrow> (json \<Rightarrow> mcp_world \<Rightarrow> (tool_exc + json) \<times> mcp_world) \<Rightarrow> mcp_world \<Rightarrow> (tool_exc + json) \<times> mcp_world" where
  "with_chat args f w =
    (case map_of args ''chat_id'' of None \<Rightarrow> (Inl (Other_error ''KeyError'' (quoted ''chat_id'')), w) | Some chat \<Rightarrow> f chat w)"

definition send_file_part ::
    "tool_env \<Rightarrow> string \<Rightarrow> string list \<Rightarrow> bool \<Rightarrow> caller \<Rightarrow> dict \<Rightarrow> mcp_world \<Rightarrow> (tool_exc + json) \<times> mcp_world" where
  "send_file_part e path keys voice_note c args w =
    (case get_file e c args w of
       Inl err \<Rightarrow> (Inl err, w)
     | Inr (name, data) \<Rightarrow>
        with_chat args (\<lambda>chat. do_rest e c ''POST'' path None None
          (Some ([Field ''chat_id'' chat, File_part ''file'' name data] @ form_fields args keys @
             (if voice_note \<and> arg_truthy e (map_of args ''voice_note'') then [Field ''voice_note'' (JBool True)] else [])))) w)"

definition send_file :: "tool_env \<Rightarrow> caller \<Rightarrow> dict \<Rightarrow> mcp_world \<Rightarrow> (tool_exc + json) \<times> mcp_world" where
  "send_file e = send_file_part e ''/messages/send-file''
     [''caption'', ''reply_to_message_id'', ''parse_mode'', ''schedule_date''] True"

definition send_voice :: "tool_env \<Rightarrow> caller \<Rightarrow> dict \<Rightarrow> mcp_world \<Rightarrow> (tool_exc + json) \<times> mcp_world" where
  "send_voice e = send_file_part e ''/messages/send-voice''
     [''caption'', ''reply_to_message_id'', ''schedule_date''] False"

definition send_video_note :: "tool_env \<Rightarrow> caller \<Rightarrow> dict \<Rightarrow> mcp_world \<Rightarrow> (tool_exc + json) \<times> mcp_world" where
  "send_video_note e = send_file_part e ''/messages/send-video-note'' [''reply_to_message_id'', ''duration_ms''] False"

text \<open>\<^verbatim>\<open>args.get(k) or []\<close> of a list.\<close>

definition get_list :: "tool_env \<Rightarrow> dict \<Rightarrow> string \<Rightarrow> json list option" where
  "get_list e args k = (if arg_truthy e (map_of args k) then (case map_of args k of Some (JList vs) \<Rightarrow> Some vs | _ \<Rightarrow> None) else Some [])"

fun album_parts :: "tool_env \<Rightarrow> caller \<Rightarrow> string \<Rightarrow> json list \<Rightarrow> mcp_world \<Rightarrow> tool_exc + form_part list" where
  "album_parts e c key [] w = Inr []"
| "album_parts e c key (v # vs) w =
    (case get_file e c [(key, v)] w of
       Inl err \<Rightarrow> Inl err
     | Inr (name, data) \<Rightarrow>
        (case album_parts e c key vs w of Inl err \<Rightarrow> Inl err | Inr ps \<Rightarrow> Inr (File_part ''files'' name data # ps)))"

definition send_album :: "tool_env \<Rightarrow> caller \<Rightarrow> dict \<Rightarrow> mcp_world \<Rightarrow> (tool_exc + json) \<times> mcp_world" where
  "send_album e c args w =
    (case (get_list e args ''upload_ids'', get_list e args ''file_urls'') of
       (Some sources, Some urls) \<Rightarrow>
         if arg_truthy e (map_of args ''file_paths'')
         then (Inl (Tool_error ''local paths are not visible to the server: use create_upload and upload_ids''), w)
         else if length sources + length urls < 2 \<or> 10 < length sources + length urls
         then (Inl (Tool_error ''an album needs 2-10 files (upload_ids / file_urls)''), w)
         else
           with_chat args (\<lambda>chat w.
             (case album_parts e c ''upload_id'' sources w of
                Inl err \<Rightarrow> (Inl err, w)
              | Inr ps \<Rightarrow>
                 (case album_parts e c ''file_url'' urls w of
                    Inl err \<Rightarrow> (Inl err, w)
                  | Inr qs \<Rightarrow>
                     do_rest e c ''POST'' ''/messages/album'' None None
                       (Some (Field ''chat_id'' chat # ps @ qs @
                          form_fields args [''caption'', ''reply_to_message_id'', ''parse_mode'', ''schedule_date''])) w))) w
     | _ \<Rightarrow> (Inl (other_error e), w))"

text \<open>The media item and its number; the first two arguments are the first item and the list.\<close>

fun media_at :: "int \<Rightarrow> json list \<Rightarrow> (json \<times> int) option" where
  "media_at i [] = None"
| "media_at i (m # ms) = (if json_member m ''attach_index'' = Some (JInt i) then Some (m, i) else media_at i ms)"

definition media_item :: "tool_env \<Rightarrow> json list \<Rightarrow> json option \<Rightarrow> tool_exc + json \<times> int" where
  "media_item e media index =
    (case media of
       [] \<Rightarrow> Inl (other_error e)
     | m # _ \<Rightarrow>
        (case json_member m ''attach_index'' of
           None \<Rightarrow>
             (case (if arg_truthy e index then Option.bind index (to_int e) else Some 0) of
                None \<Rightarrow> Inl (other_error e)
              | Some i \<Rightarrow>
                 (let n = int (length media); j = min i (n - 1)
                  in if 0 \<le> j then Inr (media ! nat j, i)
                     else if - n \<le> j then Inr (media ! nat (n + j), i)
                     else Inl (Other_error ''IndexError'' ''list index out of range'')))
         | Some first \<Rightarrow>
            (case index of
               None \<Rightarrow> (case first of JInt i \<Rightarrow> Inr (m, i) | _ \<Rightarrow> Inl (other_error e))
             | Some v \<Rightarrow>
                (case to_int e v of
                   None \<Rightarrow> Inl (other_error e)
                 | Some i \<Rightarrow>
                    (case media_at i media of
                       Some r \<Rightarrow> Inr r
                     | None \<Rightarrow> Inl (Tool_error (''HTTP 404: no media with attach_index '' @ py_str e v @
                         ''; the message has '' @ py_str e (JList (map (\<lambda>m. case json_member m ''attach_index'' of
                            Some a \<Rightarrow> a | None \<Rightarrow> JNull) media)))))))))"

text \<open>\<^verbatim>\<open>x or y\<close> of values.\<close>

definition value_or :: "tool_env \<Rightarrow> json option \<Rightarrow> json \<Rightarrow> json" where
  "value_or e v d = (if arg_truthy e v then (case v of Some x \<Rightarrow> x | None \<Rightarrow> d) else d)"

definition or_null :: "json option \<Rightarrow> json" where
  "or_null v = (case v of Some x \<Rightarrow> x | None \<Rightarrow> JNull)"

definition download_media :: "tool_env \<Rightarrow> caller \<Rightarrow> dict \<Rightarrow> mcp_world \<Rightarrow> (tool_exc + json) \<times> mcp_world" where
  "download_media e c args w =
    (case (map_of args ''chat_id'', map_of args ''message_id'') of
       (Some chat, Some message) \<Rightarrow>
         (case do_rest e c ''GET'' (''/messages/'' @ py_str e chat @ ''/'' @ py_str e message) None None None w of
            (Inl err, w) \<Rightarrow> (Inl err, w)
          | (Inr msg, w) \<Rightarrow>
             (case value_or e (json_member msg ''media'') (JList []) of
                JList media \<Rightarrow>
                  if media = [] then (Inl (Tool_error ''HTTP 404: message has no stored media''), w)
                  else
                   (case media_item e media (get_value args ''index'') of
                      Inl err \<Rightarrow> (Inl err, w)
                    | Inr (item, index) \<Rightarrow>
                       (case cl_account_id c of
                          None \<Rightarrow> (Inl (other_error e), w)
                        | Some a \<Rightarrow>
                           (case file_link (te_files e) (cl_base_url c) a chat message index (te_wall e) of
                              Inl err \<Rightarrow> (Inl (link_error e err), w)
                            | Inr link \<Rightarrow>
                               (let target = value_or e (map_of args ''save_to'')
                                      (value_or e (json_member item ''file_name'') (JStr (''media_'' @ py_str e message)));
                                    url = (case map_of link ''url'' of Some (JStr u) \<Rightarrow> u | _ \<Rightarrow> []);
                                    note = ''the server cannot write to your disk: download with the curl command'' @
                                      (if arg_truthy e (map_of args ''save_to'')
                                       then '' (save_to '' @ quoted (py_str e (or_null (map_of args ''save_to''))) @ '' is not used)''
                                       else [])
                                in (Inr (JObj (link @
                                     [(''file_name'', or_null (json_member item ''file_name'')),
                                      (''file_size'', or_null (json_member item ''file_size'')),
                                      (''mime_type'', or_null (json_member item ''mime_type'')),
                                      (''curl'', JStr (''curl -fL -o '' @ quoted (py_str e target) @ '' '' @ quoted url)),
                                      (''note'', JStr note)])), w)))))
              | _ \<Rightarrow> (Inl (other_error e), w)))
     | _ \<Rightarrow> (Inl (Other_error ''KeyError'' (quoted ''chat_id'')), w))"

definition create_upload :: "tool_env \<Rightarrow> caller \<Rightarrow> mcp_world \<Rightarrow> (tool_exc + json) \<times> mcp_world" where
  "create_upload e c w =
    (case cl_account_id c of
       None \<Rightarrow> (Inl (other_error e), w)
     | Some a \<Rightarrow>
        (case new_upload (te_files e) (cl_base_url c) a (te_token e) (te_wall e) of
           Inl err \<Rightarrow> (Inl (link_error e err), w)
         | Inr d \<Rightarrow> (Inr (JObj d), w)))"

definition person_accounts_tool :: "tool_env \<Rightarrow> caller \<Rightarrow> dict \<Rightarrow> mcp_world \<Rightarrow> (tool_exc + json) \<times> mcp_world" where
  "person_accounts_tool e c args w =
    (case map_of args ''person_id'' of
       None \<Rightarrow> (Inl (Other_error ''KeyError'' (quoted ''person_id'')), w)
     | Some p \<Rightarrow>
        (case do_rest e c ''GET'' (''/people/'' @ py_str e p) None None None w of
           (Inl err, w) \<Rightarrow> (Inl err, w)
         | (Inr (JObj d), w) \<Rightarrow>
            (case map_of d ''id'' of
               None \<Rightarrow> (Inl (Other_error ''KeyError'' (quoted ''id'')), w)
             | Some i \<Rightarrow> (Inr (JObj [(''person_id'', i), (''accounts'', case map_of d ''accounts'' of
                 Some a \<Rightarrow> a | None \<Rightarrow> JList [])]), w))
         | (Inr _, w) \<Rightarrow> (Inl (other_error e), w)))"

subsection \<open>Tools\<close>

datatype handler =
    Rest string string args_fn args_fn \<comment> \<open>method, path, query, body\<close>
  | Send_file
  | Send_voice
  | Send_video_note
  | Send_album
  | Download_media
  | Create_upload
  | Person_accounts

record tool =
  tl_name :: string
  tl_schema :: json
  tl_route :: string
  tl_call :: handler
  tl_audience :: string

definition is_write :: "tool \<Rightarrow> bool" where
  "is_write t \<longleftrightarrow> tl_route t \<in> set WRITE_MESSENGER_TOOLS"

definition run_handler :: "tool_env \<Rightarrow> handler \<Rightarrow> caller \<Rightarrow> dict \<Rightarrow> mcp_world \<Rightarrow> (tool_exc + json) \<times> mcp_world" where
  "run_handler e h c args w =
    (case h of
       Rest method path query body \<Rightarrow> rest_handler e method path query body c args w
     | Send_file \<Rightarrow> send_file e c args w
     | Send_voice \<Rightarrow> send_voice e c args w
     | Send_video_note \<Rightarrow> send_video_note e c args w
     | Send_album \<Rightarrow> send_album e c args w
     | Download_media \<Rightarrow> download_media e c args w
     | Create_upload \<Rightarrow> create_upload e c w
     | Person_accounts \<Rightarrow> person_accounts_tool e c args w)"

end
