(* ===== verification/Mcp_Catalog.thy ===== *)
theory Mcp_Catalog
  imports Mcp_Tools
begin

text \<open>
  The catalog of tools (\<^verbatim>\<open>app/mcp/stdio_catalog.py\<close>, the lists of \<^verbatim>\<open>app/mcp/tools.py\<close>) and what a
  caller sees of it. Names, schemas without their descriptions, routes and handlers are those of
  the source, in its order.
\<close>

subsection \<open>Schemas\<close>

definition jtype :: "string \<Rightarrow> dict \<Rightarrow> json" where
  "jtype t d = JObj ((''type'', JStr t) # d)"

definition obj :: "dict \<Rightarrow> string list \<Rightarrow> json" where
  "obj props required = JObj [(''type'', JStr ''object''), (''properties'', JObj props), (''required'', JList (map JStr required))]"

definition spec :: "string list \<Rightarrow> dict \<Rightarrow> json" where
  "spec required props = JObj [(''type'', JStr ''object''), (''required'', JList (map JStr required)), (''properties'', JObj props)]"

definition open_spec :: "dict \<Rightarrow> json" where
  "open_spec props = JObj [(''type'', JStr ''object''), (''properties'', JObj props)]"

subsection \<open>The tools of the stdio wrapper\<close>

definition STDIO_SESSION_AND_CHATS :: "(string \<times> json) list" where
  "STDIO_SESSION_AND_CHATS = [
     (''auth_status'', open_spec []),
     (''auth_me'', open_spec []),
     (''auth_login'', spec [''phone_number''] [(''phone_number'', jtype ''string'' [])]),
     (''auth_code'', spec [''code''] [(''code'', jtype ''string'' []), (''password'', jtype ''string'' [])]),
     (''auth_logout'', open_spec []),
     (''list_chats'', open_spec [(''chat_type'', jtype ''string'' [(''enum'', JList [JStr ''private'',
       JStr ''group'', JStr ''supergroup'', JStr ''channel''])]), (''search'', jtype ''string'' []),
       (''is_monitored'', jtype ''boolean'' []), (''limit'', jtype ''integer'' [(''default'', JInt 50),
       (''minimum'', JInt 1), (''maximum'', JInt 200)]), (''offset'', jtype ''integer'' [(''default'',
       JInt 0), (''minimum'', JInt 0)])]),
     (''get_chat'', spec [''chat_id''] [(''chat_id'', jtype ''integer'' [])]),
     (''update_chat'', spec [''chat_id'', ''is_monitored''] [(''chat_id'', jtype ''integer'' []),
       (''is_monitored'', jtype ''boolean'' [])]),
     (''join_chat'', spec [''target''] [(''target'', jtype ''string'' [])]),
     (''leave_chat'', spec [''chat_id''] [(''chat_id'', jtype ''integer'' [])]),
     (''resolve_chat'', spec [''target''] [(''target'', jtype ''string'' [])]),
     (''get_chat_members'', spec [''chat_id''] [(''chat_id'', jtype ''integer'' []), (''search'',
       jtype ''string'' []), (''limit'', jtype ''integer'' [(''default'', JInt 200), (''minimum'', JInt 1),
       (''maximum'', JInt 1000)])]),
     (''mark_chat_read'', spec [''chat_id''] [(''chat_id'', jtype ''integer'' [])]),
     (''archive_chat'', spec [''chat_id'', ''archived''] [(''chat_id'', jtype ''integer'' []), (''archived'',
       jtype ''boolean'' [])]),
     (''get_my_rights'', spec [''chat_id''] [(''chat_id'', jtype ''integer'' [])])]"

definition STDIO_MESSAGES :: "(string \<times> json) list" where
  "STDIO_MESSAGES = [
     (''list_messages'', open_spec [(''chat_id'', jtype ''integer'' []), (''from_user_id'',
       jtype ''integer'' []), (''search'', jtype ''string'' []), (''date_from'', jtype ''string'' []),
       (''date_to'', jtype ''string'' []), (''message_type'', jtype ''string'' []), (''is_outgoing'',
       jtype ''boolean'' []), (''limit'', jtype ''integer'' [(''default'', JInt 50), (''minimum'', JInt 1),
       (''maximum'', JInt 200)]), (''offset'', jtype ''integer'' [(''default'', JInt 0), (''minimum'',
       JInt 0)])]),
     (''get_message'', spec [''chat_id'', ''message_id''] [(''chat_id'', jtype ''integer'' []),
       (''message_id'', jtype ''integer'' [])]),
     (''send_message'', spec [''chat_id'', ''text''] [(''chat_id'', jtype ''integer'' []), (''text'',
       jtype ''string'' []), (''reply_to_message_id'', jtype ''integer'' []), (''parse_mode'',
       jtype ''string'' [(''enum'', JList [JStr ''markdown'', JStr ''html''])]), (''schedule_date'',
       jtype ''string'' [])]),
     (''send_photo'', spec [''chat_id'', ''photo_path''] [(''chat_id'', jtype ''integer'' []),
       (''photo_path'', jtype ''string'' []), (''caption'', jtype ''string'' []), (''reply_to_message_id'',
       jtype ''integer'' []), (''parse_mode'', jtype ''string'' [(''enum'', JList [JStr ''markdown'',
       JStr ''html''])]), (''schedule_date'', jtype ''string'' [])]),
     (''send_file'', spec [''chat_id'', ''file_path''] [(''chat_id'', jtype ''integer'' []), (''file_path'',
       jtype ''string'' []), (''caption'', jtype ''string'' []), (''reply_to_message_id'', jtype ''integer'' []),
       (''parse_mode'', jtype ''string'' [(''enum'', JList [JStr ''markdown'', JStr ''html''])]),
       (''schedule_date'', jtype ''string'' []), (''voice_note'', jtype ''boolean'' [(''default'',
       JBool False)])]),
     (''send_album'', spec [''chat_id'', ''file_paths''] [(''chat_id'', jtype ''integer'' []),
       (''file_paths'', jtype ''array'' [(''items'', jtype ''string'' []), (''minItems'', JInt 2),
       (''maxItems'', JInt 10)]), (''caption'', jtype ''string'' []), (''reply_to_message_id'',
       jtype ''integer'' []), (''parse_mode'', jtype ''string'' [(''enum'', JList [JStr ''markdown'',
       JStr ''html''])]), (''schedule_date'', jtype ''string'' [])]),
     (''send_voice'', spec [''chat_id'', ''file_path''] [(''chat_id'', jtype ''integer'' []), (''file_path'',
       jtype ''string'' []), (''caption'', jtype ''string'' []), (''reply_to_message_id'', jtype ''integer'' []),
       (''schedule_date'', jtype ''string'' [])]),
     (''send_poll'', spec [''chat_id'', ''question'', ''options''] [(''chat_id'', jtype ''integer'' []),
       (''question'', jtype ''string'' []), (''options'', jtype ''array'' [(''items'', jtype ''string'' []),
       (''minItems'', JInt 2), (''maxItems'', JInt 10)]), (''is_anonymous'', jtype ''boolean'' [(''default'',
       JBool True)]), (''allows_multiple'', jtype ''boolean'' [(''default'', JBool False)]),
       (''quiz_correct_option'', jtype ''integer'' []), (''schedule_date'', jtype ''string'' []),
       (''reply_to_message_id'', jtype ''integer'' [])]),
     (''forward_message'', spec [''from_chat_id'', ''to_chat_id''] [(''from_chat_id'', jtype ''integer'' []),
       (''to_chat_id'', jtype ''integer'' []), (''message_id'', jtype ''integer'' []), (''message_ids'',
       jtype ''array'' [(''items'', jtype ''integer'' [])])])]"

definition STDIO_MESSAGE_ACTIONS :: "(string \<times> json) list" where
  "STDIO_MESSAGE_ACTIONS = [
     (''edit_message'', spec [''chat_id'', ''message_id'', ''text''] [(''chat_id'', jtype ''integer'' []),
       (''message_id'', jtype ''integer'' []), (''text'', jtype ''string'' []), (''parse_mode'',
       jtype ''string'' [(''enum'', JList [JStr ''markdown'', JStr ''html''])]), (''scheduled'',
       jtype ''boolean'' [(''default'', JBool False)])]),
     (''delete_message'', spec [''chat_id'', ''message_id''] [(''chat_id'', jtype ''integer'' []),
       (''message_id'', jtype ''integer'' [])]),
     (''pin_message'', spec [''chat_id'', ''message_id''] [(''chat_id'', jtype ''integer'' []),
       (''message_id'', jtype ''integer'' []), (''notify'', jtype ''boolean'' [(''default'', JBool True)])]),
     (''unpin_message'', spec [''chat_id'', ''message_id''] [(''chat_id'', jtype ''integer'' []),
       (''message_id'', jtype ''integer'' [])]),
     (''react_to_message'', spec [''chat_id'', ''message_id''] [(''chat_id'', jtype ''integer'' []),
       (''message_id'', jtype ''integer'' []), (''emoticon'', jtype ''string'' [])]),
     (''download_media'', spec [''chat_id'', ''message_id'', ''save_to''] [(''chat_id'',
       jtype ''integer'' []), (''message_id'', jtype ''integer'' []), (''save_to'', jtype ''string'' [])]),
     (''list_scheduled'', spec [''chat_id''] [(''chat_id'', jtype ''integer'' [])]),
     (''cancel_scheduled'', spec [''chat_id'', ''message_id''] [(''chat_id'', jtype ''integer'' []),
       (''message_id'', jtype ''integer'' [])]),
     (''send_scheduled_now'', spec [''chat_id'', ''message_id''] [(''chat_id'', jtype ''integer'' []),
       (''message_id'', jtype ''integer'' [])])]"

definition STDIO_USERS_AND_SYNC :: "(string \<times> json) list" where
  "STDIO_USERS_AND_SYNC = [
     (''list_users'', open_spec [(''search'', jtype ''string'' []), (''limit'',
       jtype ''integer'' [(''default'', JInt 50), (''minimum'', JInt 1), (''maximum'', JInt 200)]),
       (''offset'', jtype ''integer'' [(''default'', JInt 0), (''minimum'', JInt 0)])]),
     (''resolve_user'', spec [''username''] [(''username'', jtype ''string'' [])]),
     (''block_user'', spec [''user_id''] [(''user_id'', jtype ''integer'' [])]),
     (''unblock_user'', spec [''user_id''] [(''user_id'', jtype ''integer'' [])]),
     (''list_contacts'', open_spec [(''limit'', jtype ''integer'' [(''default'', JInt 200), (''minimum'',
       JInt 1), (''maximum'', JInt 1000)]), (''offset'', jtype ''integer'' [(''default'', JInt 0),
       (''minimum'', JInt 0)])]),
     (''global_search'', spec [''q''] [(''q'', jtype ''string'' []), (''limit'',
       jtype ''integer'' [(''default'', JInt 20), (''minimum'', JInt 1), (''maximum'', JInt 100)])]),
     (''sync_chats'', open_spec []),
     (''backfill_history'', spec [''chat_id''] [(''chat_id'', jtype ''integer'' []), (''limit'',
       jtype ''integer'' [(''default'', JInt 1000), (''minimum'', JInt 1), (''maximum'', JInt 10000)])]),
     (''sync_status'', open_spec [])]"

definition STDIO_TOOLS :: "(string \<times> json) list" where
  "STDIO_TOOLS = STDIO_SESSION_AND_CHATS @ STDIO_MESSAGES @ STDIO_MESSAGE_ACTIONS @ STDIO_USERS_AND_SYNC"

text \<open>Tool, route name, handler.\<close>

definition ROUTES :: "(string \<times> string \<times> handler) list" where
  "ROUTES = [
     (''auth_status'', ''auth_status'', (Rest ''GET'' ''/auth/status'' No_args No_args)),
     (''auth_me'', ''auth_me'', (Rest ''GET'' ''/auth/me'' No_args No_args)),
     (''auth_login'', ''auth_login'', (Rest ''POST'' ''/auth/login'' No_args All_args)),
     (''auth_code'', ''auth_code'', (Rest ''POST'' ''/auth/code'' No_args All_args)),
     (''auth_logout'', ''auth_logout'', (Rest ''POST'' ''/auth/logout'' No_args No_args)),
     (''list_chats'', ''list_chats'', (Rest ''GET'' ''/chats'' All_args No_args)),
     (''get_chat'', ''get_chat_detail'', (Rest ''GET'' ''/chats/{chat_id}'' No_args No_args)),
     (''update_chat'', ''update_chat_settings'',
       (Rest ''PATCH'' ''/chats/{chat_id}'' No_args (Pick [(''is_monitored'', None)]))),
     (''join_chat'', ''join_chat_endpoint'', (Rest ''POST'' ''/chats/join'' No_args (Pick [(''target'',
       None)]))),
     (''leave_chat'', ''leave_chat_endpoint'', (Rest ''POST'' ''/chats/leave'' No_args (Pick [(''chat_id'',
       None)]))),
     (''resolve_chat'', ''resolve_chat_endpoint'',
       (Rest ''POST'' ''/chats/resolve'' No_args (Pick [(''target'', None)]))),
     (''get_chat_members'', ''list_members'',
       (Rest ''GET'' ''/chats/{chat_id}/members'' (Without [''chat_id'']) No_args)),
     (''mark_chat_read'', ''mark_read'', (Rest ''POST'' ''/chats/{chat_id}/read'' No_args No_args)),
     (''archive_chat'', ''archive_chat'',
       (Rest ''POST'' ''/chats/{chat_id}/archive'' No_args (Pick [(''archived'', None)]))),
     (''get_my_rights'', ''get_my_rights'', (Rest ''GET'' ''/chats/{chat_id}/my_rights'' No_args No_args)),
     (''list_messages'', ''list_messages'', (Rest ''GET'' ''/messages'' All_args No_args)),
     (''get_message'', ''get_single_message'',
       (Rest ''GET'' ''/messages/{chat_id}/{message_id}'' No_args No_args)),
     (''send_message'', ''send_message'', (Rest ''POST'' ''/messages'' No_args All_args)),
     (''send_photo'', ''send_file'', Send_file),
     (''send_file'', ''send_file'', Send_file),
     (''send_album'', ''send_album'', Send_album),
     (''send_voice'', ''send_voice'', Send_voice),
     (''send_poll'', ''send_poll'', (Rest ''POST'' ''/messages/poll'' No_args All_args)),
     (''forward_message'', ''forward_message'', (Rest ''POST'' ''/messages/forward'' No_args All_args)),
     (''edit_message'', ''edit_message'', (Rest ''POST'' ''/messages/edit'' No_args All_args)),
     (''delete_message'', ''delete_message'',
       (Rest ''DELETE'' ''/messages/{chat_id}/{message_id}'' No_args No_args)),
     (''pin_message'', ''pin_message'',
       (Rest ''POST'' ''/messages/{chat_id}/{message_id}/pin'' (Pick [(''notify'',
       Some (JBool True))]) No_args)),
     (''unpin_message'', ''unpin_message'',
       (Rest ''POST'' ''/messages/{chat_id}/{message_id}/unpin'' No_args No_args)),
     (''react_to_message'', ''react_to_message'',
       (Rest ''POST'' ''/messages/{chat_id}/{message_id}/react'' No_args (Pick [(''emoticon'',
       Some (JNull))]))),
     (''download_media'', ''download_media'', Download_media),
     (''list_scheduled'', ''list_scheduled'', (Rest ''GET'' ''/messages/scheduled'' (Pick [(''chat_id'',
       None)]) No_args)),
     (''cancel_scheduled'', ''cancel_scheduled'',
       (Rest ''DELETE'' ''/messages/scheduled/{chat_id}/{message_id}'' No_args No_args)),
     (''send_scheduled_now'', ''send_scheduled_now'',
       (Rest ''POST'' ''/messages/scheduled/{chat_id}/{message_id}/send-now'' No_args No_args)),
     (''list_users'', ''list_users'', (Rest ''GET'' ''/users'' All_args No_args)),
     (''resolve_user'', ''resolve_user'', (Rest ''POST'' ''/users/resolve'' No_args (Pick [(''username'',
       None)]))),
     (''block_user'', ''block_user'', (Rest ''POST'' ''/users/{user_id}/block'' No_args No_args)),
     (''unblock_user'', ''unblock_user'', (Rest ''POST'' ''/users/{user_id}/unblock'' No_args No_args)),
     (''list_contacts'', ''list_contacts'', (Rest ''GET'' ''/contacts'' All_args No_args)),
     (''global_search'', ''search_global'', (Rest ''GET'' ''/search/global'' (Pick [(''q'', None),
       (''limit'', Some (JInt 20))]) No_args)),
     (''sync_chats'', ''sync_chats'', (Rest ''POST'' ''/sync/chats'' No_args No_args)),
     (''backfill_history'', ''trigger_backfill'',
       (Rest ''POST'' ''/sync/backfill'' No_args (Pick [(''chat_id'', None), (''limit'',
       Some (JInt 1000))]))),
     (''sync_status'', ''sync_status'', (Rest ''GET'' ''/sync/status'' No_args No_args))]"

definition FILE_SOURCE :: dict where
  "FILE_SOURCE = [(''file_url'', jtype ''string'' []), (''upload_id'', jtype ''string'' [])]"

definition on_properties :: "(dict \<Rightarrow> dict) \<Rightarrow> json \<Rightarrow> json" where
  "on_properties f schema =
    (case schema of
       JObj d \<Rightarrow> (case map_of d ''properties'' of Some (JObj ps) \<Rightarrow> JObj (py_set ''properties'' (JObj (f ps)) d) | _ \<Rightarrow> schema)
     | _ \<Rightarrow> schema)"

definition on_required :: "(json list \<Rightarrow> json list) \<Rightarrow> json \<Rightarrow> json" where
  "on_required f schema =
    (case schema of
       JObj d \<Rightarrow> JObj (py_set ''required'' (JList (f (case map_of d ''required'' of Some (JList rs) \<Rightarrow> rs | _ \<Rightarrow> []))) d)
     | _ \<Rightarrow> schema)"

definition pop_key :: "string \<Rightarrow> dict \<Rightarrow> dict" where
  "pop_key k d = filter (\<lambda>(k', v). k' \<noteq> k) d"

definition file_schema :: "json \<Rightarrow> string \<Rightarrow> json" where
  "file_schema base dropped =
     on_required (filter (\<lambda>r. r \<noteq> JStr dropped))
       (on_properties (\<lambda>ps. dict_update (pop_key dropped ps) FILE_SOURCE) base)"

definition account_schema :: "string \<Rightarrow> json \<Rightarrow> json" where
  "account_schema name schema =
    (if name = ''send_photo'' then file_schema schema ''photo_path''
     else if name = ''send_file'' \<or> name = ''send_voice'' then file_schema schema ''file_path''
     else if name = ''send_album'' then
       on_required (\<lambda>_. [JStr ''chat_id''])
         (on_properties (\<lambda>ps.
            let ids = jtype ''array'' [(''items'', jtype ''string'' []), (''maxItems'', JInt 10)]
            in py_set ''file_urls'' ids (py_set ''upload_ids'' ids (pop_key ''file_paths'' ps))) schema)
     else if name = ''download_media'' then
       on_properties (py_set ''index'' (jtype ''integer'' []))
         (on_required (\<lambda>_. [JStr ''chat_id'', JStr ''message_id'']) schema)
     else schema)"

definition account_tools :: "tool list" where
  "account_tools = List.map_filter (\<lambda>(name, schema).
     map_option (\<lambda>(route, h). \<lparr>tl_name = name, tl_schema = widen_ids (account_schema name schema), tl_route = route,
       tl_call = h, tl_audience = ''account''\<rparr>) (map_of ROUTES name)) STDIO_TOOLS"

subsection \<open>The other tools\<close>

text \<open>Tool, schema, route name, handler, audience.\<close>

definition owner_specs :: "(string \<times> json \<times> string \<times> handler \<times> string) list" where
  "owner_specs = [
     (''find_person'', (obj [(''q'', jtype ''string'' []), (''tag'', jtype ''string'' []), (''platform'',
       jtype ''string'' [(''enum'', JList [JStr ''telegram'', JStr ''max''])]), (''limit'',
       jtype ''integer'' [(''default'', JInt 50)]), (''offset'', jtype ''integer'' [(''default'',
       JInt 0)])] []), ''find_person'', (Rest ''GET'' ''/people'' All_args No_args), ''owner''),
     (''get_person'', (obj [(''person_id'', jtype ''integer'' [])] [''person_id'']), ''get_person'',
       (Rest ''GET'' ''/people/{person_id}'' No_args No_args), ''owner''),
     (''person_accounts'', (obj [(''person_id'', jtype ''integer'' [])] [''person_id'']), ''get_person'',
       Person_accounts, ''owner''),
     (''person_messages'', (obj [(''person_id'', jtype ''integer'' []), (''account'', jtype ''string'' []),
       (''chat_id'', jtype ''integer'' []), (''date_from'', jtype ''string'' []), (''date_to'',
       jtype ''string'' []), (''limit'', jtype ''integer'' [(''default'', JInt 50)]), (''offset'',
       jtype ''integer'' [(''default'', JInt 0)])] [''person_id'']), ''person_messages'',
       (Rest ''GET'' ''/people/{person_id}/messages'' (Without [''person_id'']) No_args), ''owner''),
     (''person_chats'', (obj [(''person_id'', jtype ''integer'' [])] [''person_id'']), ''person_chats'',
       (Rest ''GET'' ''/people/{person_id}/chats'' No_args No_args), ''owner''),
     (''update_person'', (obj [(''person_id'', jtype ''integer'' []), (''display_name'', jtype ''string'' []),
       (''tags'', jtype ''array'' [(''items'', jtype ''string'' [])]), (''notes'',
       jtype ''string'' [])] [''person_id'']), ''update_person'',
       (Rest ''PATCH'' ''/people/{person_id}'' No_args (Without [''person_id''])), ''owner''),
     (''merge_people'', (obj [(''from_id'', jtype ''integer'' []), (''to_id'', jtype ''integer'' []),
       (''reason'', jtype ''string'' [])] [''from_id'', ''to_id'']), ''merge_people'',
       (Rest ''POST'' ''/people/merge'' No_args All_args), ''owner''),
     (''split_person'', (obj [(''identity_id'', jtype ''integer'' []), (''reason'',
       jtype ''string'' [])] [''identity_id'']), ''split_person'',
       (Rest ''POST'' ''/people/split'' No_args All_args), ''owner'')]"

definition rw_specs :: "(string \<times> json \<times> string \<times> handler \<times> string) list" where
  "rw_specs = [
     (''reachable_contacts'', open_spec [(''q'', jtype ''string'' []), (''limit'',
       jtype ''integer'' [(''default'', JInt 50)]), (''offset'', jtype ''integer'' [(''default'', JInt 0)])],
       ''reachable_contacts'', (Rest ''GET'' ''/reachable'' All_args No_args), ''rw''),
     (''send_to_person'', spec [''person_id'', ''text''] [(''person_id'', jtype ''integer'' []), (''text'',
       jtype ''string'' [])], ''send_to_person'', (Rest ''POST'' ''/messages/to-person'' No_args All_args),
       ''rw''),
     (''contact_by_phone'', spec [''phone''] [(''phone'', jtype ''string'' []), (''first_name'',
       jtype ''string'' []), (''last_name'', jtype ''string'' []), (''refresh'', jtype ''boolean'' [(''default'',
       JBool False)])], ''contact_by_phone'', (Rest ''POST'' ''/contacts/by-phone'' No_args All_args),
       ''rw''),
     (''create_upload'', open_spec [], ''send_file'', Create_upload, ''rw'')]"

definition max_group_specs :: "(string \<times> json \<times> string \<times> handler \<times> string) list" where
  "max_group_specs = [
     (''create_group'', (obj [(''title'', jtype ''string'' []), (''user_ids'', jtype ''array'' [(''items'',
       jtype ''integer'' []), (''minItems'', JInt 0), (''maxItems'', JInt 20)]), (''notify'',
       jtype ''boolean'' [(''default'', JBool True)]), (''chat_type'', jtype ''string'' [(''enum'',
       JList [JStr ''group'', JStr ''channel'']), (''default'', JStr ''group'')])] [''title'']),
       ''create_group'', (Rest ''POST'' ''/groups'' No_args All_args), ''account''),
     (''add_group_members'', (obj [(''chat_id'', jtype ''integer'' []), (''user_ids'',
       jtype ''array'' [(''items'', jtype ''integer'' []), (''minItems'', JInt 1), (''maxItems'', JInt 20)]),
       (''show_history'', jtype ''boolean'' [(''default'', JBool True)]), (''start_payload'',
       jtype ''string'' [(''maxLength'', JInt 512)])] [''chat_id'', ''user_ids'']), ''add_group_members'',
       (Rest ''POST'' ''/groups/{chat_id}/members'' No_args (Without [''chat_id''])), ''account''),
     (''remove_group_members'', (obj [(''chat_id'', jtype ''integer'' []), (''user_ids'',
       jtype ''array'' [(''items'', jtype ''integer'' []), (''minItems'', JInt 1), (''maxItems'', JInt 20)]),
       (''delete_messages'', jtype ''boolean'' [(''default'', JBool False)])] [''chat_id'', ''user_ids'']),
       ''remove_group_members'',
       (Rest ''POST'' ''/groups/{chat_id}/members/remove'' No_args (Without [''chat_id''])), ''account''),
     (''set_group_admin'', (obj [(''chat_id'', jtype ''integer'' []), (''user_id'', jtype ''integer'' []),
       (''permissions'', (jtype ''array'' [(''items'', jtype ''string'' [(''enum'',
       JList [JStr ''read_all_messages'', JStr ''delete_message'', JStr ''pin_message'',
       JStr ''add_remove_member'', JStr ''change_chat_info'', JStr ''edit_link'', JStr ''add_admin'',
       JStr ''call'', JStr ''post_message'', JStr ''edit_message'', JStr ''view_stats''])])])),
       (''permissions_mask'', jtype ''integer'' [(''minimum'', JInt 1), (''maximum'',
       JInt 4095)])] [''chat_id'', ''user_id'']), ''set_group_admin'',
       (Rest ''POST'' ''/groups/{chat_id}/admins'' No_args (Without [''chat_id''])), ''account''),
     (''remove_group_admin'', (obj [(''chat_id'', jtype ''integer'' []), (''user_id'',
       jtype ''integer'' [])] [''chat_id'', ''user_id'']), ''remove_group_admin'',
       (Rest ''POST'' ''/groups/{chat_id}/admins/remove'' No_args (Without [''chat_id''])), ''account''),
     (''update_group_profile'', (obj [(''chat_id'', jtype ''integer'' []), (''title'', jtype ''string'' []),
       (''description'', jtype ''string'' [])] [''chat_id'']), ''update_group_profile'',
       (Rest ''PATCH'' ''/groups/{chat_id}'' No_args (Without [''chat_id''])), ''account''),
     (''update_group_settings'', (obj [(''chat_id'', jtype ''integer'' []), (''all_can_pin_message'',
       jtype ''boolean'' []), (''only_owner_can_change_icon_title'', jtype ''boolean'' []),
       (''only_admin_can_add_member'', jtype ''boolean'' []), (''only_admin_can_call'', jtype ''boolean'' []),
       (''members_can_see_private_link'', jtype ''boolean'' []), (''join_request'', jtype ''boolean'' []),
       (''disable_forward'', jtype ''boolean'' []), (''comments'', jtype ''boolean'' [])] [''chat_id'']),
       ''update_group_settings'',
       (Rest ''PATCH'' ''/groups/{chat_id}/settings'' No_args (Without [''chat_id''])), ''account''),
     (''get_invite_link'', (obj [(''chat_id'', jtype ''integer'' [])] [''chat_id'']), ''get_invite_link'',
       (Rest ''GET'' ''/groups/{chat_id}/invite-link'' No_args No_args), ''account''),
     (''reset_invite_link'', (obj [(''chat_id'', jtype ''integer'' [])] [''chat_id'']),
       ''reset_invite_link'', (Rest ''POST'' ''/groups/{chat_id}/invite-link'' No_args No_args),
       ''account''),
     (''list_join_requests'', (obj [(''chat_id'', jtype ''integer'' []), (''limit'',
       jtype ''integer'' [(''default'', JInt 100), (''maximum'', JInt 100)])] [''chat_id'']),
       ''list_join_requests'',
       (Rest ''GET'' ''/groups/{chat_id}/join-requests'' (Without [''chat_id'']) No_args), ''account''),
     (''approve_join_requests'', (obj [(''chat_id'', jtype ''integer'' []), (''user_ids'',
       jtype ''array'' [(''items'', jtype ''integer'' []), (''minItems'', JInt 1), (''maxItems'', JInt 20)]),
       (''show_history'', jtype ''boolean'' [(''default'', JBool True)])] [''chat_id'', ''user_ids'']),
       ''approve_join_requests'',
       (Rest ''POST'' ''/groups/{chat_id}/join-requests/approve'' No_args (Without [''chat_id''])),
       ''account''),
     (''decline_join_requests'', (obj [(''chat_id'', jtype ''integer'' []), (''user_ids'',
       jtype ''array'' [(''items'', jtype ''integer'' []), (''minItems'', JInt 1), (''maxItems'',
       JInt 20)])] [''chat_id'', ''user_ids'']), ''decline_join_requests'',
       (Rest ''POST'' ''/groups/{chat_id}/join-requests/decline'' No_args (Without [''chat_id''])),
       ''account''),
     (''delete_group'', (obj [(''chat_id'', jtype ''integer'' []), (''confirm_title'', jtype ''string'' []),
       (''for_all'', jtype ''boolean'' [(''default'', JBool True)])] [''chat_id'', ''confirm_title'']),
       ''delete_group'', (Rest ''POST'' ''/groups/{chat_id}/delete'' No_args (Without [''chat_id''])),
       ''account''),
     (''transfer_group_ownership'', (obj [(''chat_id'', jtype ''integer'' []), (''user_id'',
       jtype ''integer'' []), (''confirm_title'', jtype ''string'' []), (''confirm_user_id'',
       jtype ''integer'' [])] [''chat_id'', ''user_id'', ''confirm_title'', ''confirm_user_id'']),
       ''transfer_group_ownership'',
       (Rest ''POST'' ''/groups/{chat_id}/owner'' No_args (Without [''chat_id''])), ''account'')]"

definition max_r4_specs :: "(string \<times> json \<times> string \<times> handler \<times> string) list" where
  "max_r4_specs = [
     (''send_video_note'', (obj [(''chat_id'', jtype ''integer'' []), (''reply_to_message_id'',
       jtype ''integer'' []), (''duration_ms'', jtype ''integer'' []), (''file_url'', jtype ''string'' []),
       (''upload_id'', jtype ''string'' [])] [''chat_id'']), ''send_video_note'', Send_video_note,
       ''account''),
     (''vote_poll'', (obj [(''chat_id'', jtype ''integer'' []), (''message_id'', jtype ''integer'' []),
       (''answer_ids'', jtype ''array'' [(''items'', jtype ''integer'' []), (''minItems'', JInt 1),
       (''maxItems'', JInt 10)]), (''poll_id'', jtype ''integer'' [])] [''chat_id'', ''message_id'',
       ''answer_ids'']), ''vote_poll'',
       (Rest ''POST'' ''/messages/{chat_id}/{message_id}/vote'' No_args (Without [''chat_id'',
       ''message_id''])), ''account''),
     (''get_reactions'', (obj [(''chat_id'', jtype ''integer'' []), (''message_id'',
       jtype ''integer'' [])] [''chat_id'', ''message_id'']), ''get_reactions'',
       (Rest ''GET'' ''/messages/{chat_id}/{message_id}/reactions'' No_args No_args), ''account''),
     (''import_contacts'', (obj [(''contacts'', (jtype ''array'' [(''minItems'', JInt 1), (''maxItems'',
       JInt 20), (''items'', JObj [(''type'', JStr ''object''), (''required'', JList [JStr ''phone'',
       JStr ''first_name'']), (''properties'', JObj [(''phone'', jtype ''string'' []), (''first_name'',
       jtype ''string'' []), (''last_name'', jtype ''string'' [])])])])), (''refresh'',
       jtype ''boolean'' [(''default'', JBool False)])] [''contacts'']), ''import_contacts'',
       (Rest ''POST'' ''/contacts/import'' No_args All_args), ''account''),
     (''remove_contact'', (obj [(''user_id'', jtype ''integer'' [])] [''user_id'']), ''remove_contact'',
       (Rest ''POST'' ''/contacts/{user_id}/remove'' No_args No_args), ''account''),
     (''delete_dialog'', (obj [(''chat_id'', jtype ''integer'' []), (''confirm_user_id'',
       jtype ''integer'' []), (''for_all'', jtype ''boolean'' [(''default'', JBool False)])] [''chat_id'',
       ''confirm_user_id'']), ''delete_dialog'',
       (Rest ''POST'' ''/chats/{chat_id}/delete'' No_args (Without [''chat_id''])), ''account''),
     (''list_folders'', (obj [] []), ''list_folders'', (Rest ''GET'' ''/folders'' No_args No_args),
       ''account''),
     (''create_folder'', (obj [(''title'', jtype ''string'' []), (''chat_ids'', jtype ''array'' [(''items'',
       jtype ''integer'' []), (''maxItems'', JInt 100)])] [''title'']), ''create_folder'',
       (Rest ''POST'' ''/folders'' No_args All_args), ''account''),
     (''update_folder'', (obj [(''folder_id'', jtype ''string'' []), (''title'', jtype ''string'' []),
       (''chat_ids'', jtype ''array'' [(''items'', jtype ''integer'' []), (''maxItems'',
       JInt 100)])] [''folder_id'']), ''update_folder'',
       (Rest ''PATCH'' ''/folders/{folder_id}'' No_args (Without [''folder_id''])), ''account''),
     (''delete_folder'', (obj [(''folder_id'', jtype ''string'' []), (''confirm_title'',
       jtype ''string'' [])] [''folder_id'', ''confirm_title'']), ''delete_folder'',
       (Rest ''POST'' ''/folders/{folder_id}/delete'' No_args (Without [''folder_id''])), ''account'')]"

definition max_r5_specs :: "(string \<times> json \<times> string \<times> handler \<times> string) list" where
  "max_r5_specs = [
     (''press_button'', (obj [(''chat_id'', jtype ''integer'' []), (''message_id'', jtype ''integer'' []),
       (''row'', jtype ''integer'' [(''minimum'', JInt 0)]), (''column'', jtype ''integer'' [(''minimum'',
       JInt 0)])] [''chat_id'', ''message_id'', ''row'', ''column'']), ''press_button'',
       (Rest ''POST'' ''/messages/{chat_id}/{message_id}/press'' No_args (Without [''chat_id'',
       ''message_id''])), ''account''),
     (''start_bot'', (obj [(''bot_id'', jtype ''integer'' []), (''start_payload'',
       jtype ''string'' [(''maxLength'', JInt 512)])] [''bot_id'']), ''start_bot'',
       (Rest ''POST'' ''/bots/start'' No_args All_args), ''account''),
     (''get_bot_info'', (obj [(''bot_id'', jtype ''integer'' []), (''chat_id'', jtype ''integer'' [])] []),
       ''get_bot_info'', (Rest ''GET'' ''/bots/info'' All_args No_args), ''account''),
     (''get_message_link'', (obj [(''chat_id'', jtype ''integer'' []), (''message_id'',
       jtype ''integer'' [])] [''chat_id'', ''message_id'']), ''get_message_link'',
       (Rest ''GET'' ''/messages/{chat_id}/{message_id}/link'' No_args No_args), ''account''),
     (''get_poll_voters'', (obj [(''chat_id'', jtype ''integer'' []), (''message_id'', jtype ''integer'' []),
       (''answer_id'', jtype ''integer'' []), (''limit'', jtype ''integer'' [(''default'', JInt 100),
       (''minimum'', JInt 1), (''maximum'', JInt 100)])] [''chat_id'', ''message_id'', ''answer_id'']),
       ''get_poll_voters'',
       (Rest ''GET'' ''/messages/{chat_id}/{message_id}/voters'' (Without [''chat_id'',
       ''message_id'']) No_args), ''account''),
     (''transcribe_voice'', (obj [(''chat_id'', jtype ''integer'' []), (''message_id'', jtype ''integer'' []),
       (''index'', jtype ''integer'' [(''minimum'', JInt 0)])] [''chat_id'', ''message_id'']),
       ''transcribe_voice'',
       (Rest ''POST'' ''/messages/{chat_id}/{message_id}/transcribe'' No_args (Without [''chat_id'',
       ''message_id''])), ''account''),
     (''search_chat_messages'', (obj [(''chat_id'', jtype ''integer'' []), (''query'', jtype ''string'' []),
       (''limit'', jtype ''integer'' [(''default'', JInt 20), (''minimum'', JInt 1), (''maximum'',
       JInt 30)]), (''marker'', jtype ''integer'' [])] [''chat_id'', ''query'']), ''search_chat_messages'',
       (Rest ''GET'' ''/messages/{chat_id}/search'' (Without [''chat_id'']) No_args), ''account''),
     (''get_post_stats'', (obj [(''chat_id'', jtype ''integer'' []), (''message_ids'',
       jtype ''array'' [(''items'', jtype ''integer'' []), (''minItems'', JInt 1), (''maxItems'',
       JInt 100)])] [''chat_id'', ''message_ids'']), ''get_post_stats'',
       (Rest ''GET'' ''/messages/{chat_id}/stats'' (Without [''chat_id'']) No_args), ''account'')]"

definition widened :: "(string \<times> json \<times> string \<times> handler \<times> string) list \<Rightarrow> tool list" where
  "widened specs = map (\<lambda>(name, schema, route, h, audience).
     \<lparr>tl_name = name, tl_schema = widen_ids schema, tl_route = route, tl_call = h, tl_audience = audience\<rparr>) specs"

definition ACCOUNT_TOOLS :: "tool list" where
  "ACCOUNT_TOOLS = account_tools @ widened max_group_specs @ widened max_r4_specs @ widened max_r5_specs"

definition RW_TOOLS :: "tool list" where
  "RW_TOOLS = widened rw_specs"

definition OWNER_TOOLS :: "tool list" where
  "OWNER_TOOLS = widened owner_specs"

text \<open>\<^verbatim>\<open>BY_NAME\<close>: a later tool of the same name wins.\<close>

definition by_name :: "string \<Rightarrow> tool option" where
  "by_name name = find (\<lambda>t. tl_name t = name) (rev (ACCOUNT_TOOLS @ RW_TOOLS @ OWNER_TOOLS))"

subsection \<open>What a caller sees\<close>

text \<open>
  The variants for MAX: two change the schema, the others only the description.
\<close>

definition max_variant :: "tool \<Rightarrow> tool" where
  "max_variant t =
    (if tl_name t = ''send_poll'' then
       t\<lparr>tl_schema := on_properties (py_set ''is_anonymous'' (jtype ''boolean'' [(''default'', JBool False)])) (tl_schema t)\<rparr>
     else if tl_name t = ''get_chat_members'' then
       t\<lparr>tl_schema := on_properties (\<lambda>ps. py_set ''role'' (jtype ''string'' [(''enum'', JList [JStr ''all'', JStr ''admins'']),
           (''default'', JStr ''all'')]) (py_set ''search'' (jtype ''string'' []) ps)) (tl_schema t)\<rparr>
     else t)"

definition SCHEDULED_TOOLS :: "string list" where
  "SCHEDULED_TOOLS = [''list_scheduled'', ''cancel_scheduled'', ''send_scheduled_now'']"

definition route_names :: "tool_env \<Rightarrow> string \<Rightarrow> string list" where
  "route_names e platform = map re_name (te_routes e platform)"

definition supported :: "tool_env \<Rightarrow> tool \<Rightarrow> string \<Rightarrow> bool" where
  "supported e t platform \<longleftrightarrow> tl_route t \<in> set (route_names e platform)"

definition visible :: "tool_env \<Rightarrow> caller \<Rightarrow> tool list" where
  "visible e c =
    (if cl_scope c = ''owner'' then OWNER_TOOLS
     else
      (let tools = (if cl_mode c \<noteq> ''rw'' then filter (\<lambda>t. \<not> is_write t) ACCOUNT_TOOLS else ACCOUNT_TOOLS @ RW_TOOLS);
           off = (if cl_platform c = ''max'' \<and> \<not> te_scheduled_enabled e then SCHEDULED_TOOLS else [])
       in map (if cl_platform c = ''max'' then max_variant else (\<lambda>t. t))
            (filter (\<lambda>t. supported e t (cl_platform c) \<and> tl_name t \<notin> set off) tools)))"

subsection \<open>The catalog is consistent\<close>

lemma widened_names: "map tl_name (widened specs) = map fst specs"
  by (simp add: widened_def case_prod_unfold comp_def)

lemma widened_routes: "map tl_route (widened specs) = map (\<lambda>s. fst (snd (snd s))) specs"
  by (simp add: widened_def case_prod_unfold comp_def)

lemma account_tools_of:
  "map (\<lambda>t. (tl_name t, tl_route t)) (List.map_filter (\<lambda>(name, schema).
     map_option (\<lambda>(route, h). \<lparr>tl_name = name, tl_schema = f name schema, tl_route = route,
       tl_call = h, tl_audience = a\<rparr>) (map_of routes name)) specs) =
   List.map_filter (\<lambda>n. map_option (\<lambda>r. (n, fst r)) (map_of routes n)) (map fst specs)"
  by (induction specs) (auto simp: List.map_filter_simps split: option.splits)

lemma account_tools_names:
  "map (\<lambda>t. (tl_name t, tl_route t)) account_tools =
     List.map_filter (\<lambda>n. map_option (\<lambda>r. (n, fst r)) (map_of ROUTES n)) (map fst STDIO_TOOLS)"
  unfolding account_tools_def by (rule account_tools_of)

definition stdio_names :: "string list" where
  "stdio_names = map fst STDIO_TOOLS"

lemma stdio_routes:
  "List.map_filter (\<lambda>n. map_option (\<lambda>r. (n, fst r)) (map_of ROUTES n)) stdio_names = map (\<lambda>(n, r, h). (n, r)) ROUTES"
  by code_simp

lemma stdio_names_routes: "stdio_names = map fst ROUTES"
  by code_simp

lemma account_tools_list:
  "map tl_name account_tools = map fst ROUTES"
  "map tl_route account_tools = map (\<lambda>s. fst (snd s)) ROUTES"
proof -
  have *: "map (\<lambda>t. (tl_name t, tl_route t)) account_tools = map (\<lambda>(n, r, h). (n, r)) ROUTES"
    using stdio_routes unfolding account_tools_names stdio_names_def .
  from arg_cong [OF *, of "map fst"] show "map tl_name account_tools = map fst ROUTES"
    by (simp add: comp_def case_prod_unfold)
  from arg_cong [OF *, of "map snd"] show "map tl_route account_tools = map (\<lambda>s. fst (snd s)) ROUTES"
    by (simp add: comp_def case_prod_unfold)
qed

definition tool_names :: "string list" where
  "tool_names = map fst ROUTES @ map fst max_group_specs @ map fst max_r4_specs @ map fst max_r5_specs @
     map fst rw_specs @ map fst owner_specs"

lemma every_stdio_tool_has_a_route: "map tl_name account_tools = map fst STDIO_TOOLS"
  using stdio_names_routes by (simp add: account_tools_list stdio_names_def)

lemma all_names: "map tl_name (ACCOUNT_TOOLS @ RW_TOOLS @ OWNER_TOOLS) = tool_names"
  by (simp add: ACCOUNT_TOOLS_def RW_TOOLS_def OWNER_TOOLS_def widened_names account_tools_list tool_names_def)

lemma catalog_names_distinct: "distinct tool_names"
  by code_simp

end
