(* ===== verification/Mcp_Server.thy ===== *)
theory Mcp_Server
  imports Mcp_Catalog
begin

text \<open>
  The MCP server (\<^verbatim>\<open>app/mcp/server.py\<close>): the key decides who calls, \<^verbatim>\<open>list_tools\<close> shows what the
  caller may use, \<^verbatim>\<open>call_tool\<close> checks arguments, asks \<^term>\<open>authorize\<close>, calls the route in
  process and writes the audit row. The transport of the SDK is left out: a request is its
  headers and the tool call it carries.
\<close>

subsection \<open>Authentication\<close>

definition base_url :: "req \<Rightarrow> string \<Rightarrow> string" where
  "base_url r netloc =
    (let proto = (case or_else (header r ''x-forwarded-proto'') None of Some p \<Rightarrow> p | None \<Rightarrow> rq_scheme r);
         host = (case or_else (header r ''x-forwarded-host'') (header r ''host'') of
            Some h \<Rightarrow> if h = [] then netloc else h | None \<Rightarrow> netloc)
     in proto @ ''://'' @ host)"

definition caller_for :: "auth_sys \<Rightarrow> key_info \<Rightarrow> string \<Rightarrow> caller option" where
  "caller_for s info url =
    (if ki_scope info = ''owner'' then
       Some \<lparr>cl_scope = ''owner'', cl_account_id = None, cl_alias = Some ''owner'', cl_platform = ''telegram'',
         cl_mode = ''ro'', cl_base_url = url\<rparr>
     else
      (case ki_account_id info of
         None \<Rightarrow> None
       | Some a \<Rightarrow>
          map_option (\<lambda>acc. \<lparr>cl_scope = ''account'', cl_account_id = Some a, cl_alias = Some (acc_alias acc),
              cl_platform = acc_platform acc, cl_mode = acc_mode acc, cl_base_url = url\<rparr>)
            (one_or_none (\<lambda>acc. acc_id acc = a \<and> acc_is_enabled acc) (as_accounts s))))"

text \<open>\<^term>\<open>None\<close> is the answer 401.\<close>

definition mcp_caller :: "tool_env \<Rightarrow> req \<Rightarrow> string \<Rightarrow> auth_sys \<Rightarrow> caller option \<times> auth_sys" where
  "mcp_caller e r netloc s =
    (let auth = (case header r ''authorization'' of Some h \<Rightarrow> h | None \<Rightarrow> []);
         key = (if starts_with (lower auth) ''bearer '' then Some (strip (drop 7 auth)) else None)
     in case lookup (te_sha e) s key (te_now e) (te_wall e) of
          (None, s) \<Rightarrow> (None, s)
        | (Some info, s) \<Rightarrow> (caller_for s info (base_url r netloc), s))"

subsection \<open>The decision and the audit row\<close>

definition mcp_context :: "caller \<Rightarrow> auth_context" where
  "mcp_context c = \<lparr>ctx_account_id = cl_account_id c, ctx_alias = cl_alias c, ctx_platform = cl_platform c,
     ctx_scope = cl_scope c\<rparr>"

text \<open>The integer that a value equals in Python's \<^verbatim>\<open>in\<close>: True is 1, 5.0 is 5.\<close>

definition equal_int :: "tool_env \<Rightarrow> json \<Rightarrow> int option" where
  "equal_int e v = (case v of JInt i \<Rightarrow> Some i | JBool b \<Rightarrow> Some (if b then 1 else 0)
     | JFloat f \<Rightarrow> te_float_id e f | _ \<Rightarrow> None)"

definition chat_list :: "auth_sys \<Rightarrow> auth_context \<Rightarrow> int list option" where
  "chat_list s ctx = Option.bind (ctx_account_id ctx) (\<lambda>a. Option.bind (write_guards s a) (\<lambda>(_, ids, _). ids))"

text \<open>
  \<^term>\<open>authorize\<close> for the value the arguments hold as the chat. A value that equals no chat of the
  list is refused where an integer would be: after the policy and the mode, before the rate.
\<close>

definition authorize_chat ::
    "tool_env \<Rightarrow> auth_sys \<Rightarrow> auth_context \<Rightarrow> string \<Rightarrow> json option \<Rightarrow> bool \<Rightarrow> decision \<times> auth_sys" where
  "authorize_chat e s ctx route chat w =
    (case chat of
       None \<Rightarrow> authorize s ctx route None w (te_now e) (te_wall e)
     | Some JNull \<Rightarrow> authorize s ctx route None w (te_now e) (te_wall e)
     | Some (JInt c) \<Rightarrow> authorize s ctx route (Some c) w (te_now e) (te_wall e)
     | Some v \<Rightarrow>
        (case authorize s ctx route None w (te_now e) (te_wall e) of
           (d, s') \<Rightarrow>
             (case chat_list s ctx of
                Some ids \<Rightarrow>
                  if w \<and> route \<in> set WRITE_MESSENGER_TOOLS \<and> (allowed d \<or> dec_status d = 429) \<and>
                     (case equal_int e v of Some i \<Rightarrow> i \<notin> set ids | None \<Rightarrow> True)
                  then (deny 403 (''chat '' @ py_str e v @ '' is not in write_chat_ids''), s')
                  else (d, s')
              | None \<Rightarrow> (d, s'))))"

text \<open>
  What a BIGINT column takes; \<^term>\<open>None\<close>: the insert fails. \<open>v\<close> is \<^term>\<open>None\<close> for NULL.
\<close>

definition bigint_column :: "tool_env \<Rightarrow> json option \<Rightarrow> int option option" where
  "bigint_column e v = (case v of None \<Rightarrow> Some None | Some JNull \<Rightarrow> Some None
     | Some (JInt i) \<Rightarrow> (if - (2 ^ 63) \<le> i \<and> i < 2 ^ 63 then Some (Some i) else None)
     | Some (JBool b) \<Rightarrow> Some (Some (if b then 1 else 0))
     | Some x \<Rightarrow> te_column e x)"

text \<open>
  \<^verbatim>\<open>audit\<close> with its background insert: a value the driver refuses loses the row (the exception
  is logged).
\<close>

definition mcp_audit ::
    "tool_env \<Rightarrow> auth_context \<Rightarrow> string \<Rightarrow> bool \<Rightarrow> string \<Rightarrow> json option \<Rightarrow> json option \<Rightarrow> string option
       \<Rightarrow> string option \<Rightarrow> auth_sys \<Rightarrow> auth_sys" where
  "mcp_audit e ctx route w st chat target dig err s =
    (case (bigint_column e chat, bigint_column e target) of
       (Some c, Some t) \<Rightarrow> audit s ctx route w st c t dig err (te_wall e)
     | _ \<Rightarrow> s)"

definition in_sys :: "(auth_sys \<Rightarrow> auth_sys) \<Rightarrow> mcp_world \<Rightarrow> mcp_world" where
  "in_sys f w = w\<lparr>mw_sys := f (mw_sys w)\<rparr>"

definition mcp_digest :: "tool_env \<Rightarrow> dict \<Rightarrow> string" where
  "mcp_digest e args = take 16 (te_sha e (te_dumps e (mask_phone_params (JObj args))))"

definition PHONE_TOOLS :: "string list" where
  "PHONE_TOOLS = [''contact_by_phone'']"

definition scrub :: "tool \<Rightarrow> string \<Rightarrow> string" where
  "scrub t s = (if tl_route t \<in> set PHONE_TOOLS then mask_phones_in_text s else s)"

text \<open>
  \<^verbatim>\<open>next(iter(v or []), None)\<close>; \<^term>\<open>None\<close>: the value is not iterable.
\<close>

definition first_of :: "tool_env \<Rightarrow> json option \<Rightarrow> json option option" where
  "first_of e v =
    (if \<not> arg_truthy e v then Some None
     else (case v of
        Some (JList (x # _)) \<Rightarrow> Some (Some x)
      | Some (JStr (c # _)) \<Rightarrow> Some (Some (JStr [c]))
      | Some (JObj ((k, _) # _)) \<Rightarrow> Some (Some (JStr k))
      | _ \<Rightarrow> None))"

definition target_of :: "tool_env \<Rightarrow> dict \<Rightarrow> json option option" where
  "target_of e args = (case get_value args ''user_id'' of
      Some v \<Rightarrow> Some (Some v) | None \<Rightarrow> first_of e (map_of args ''user_ids''))"

definition chat_arg :: "dict \<Rightarrow> json option" where
  "chat_arg args = (case map_of args ''chat_id'' of Some v \<Rightarrow> Some v | None \<Rightarrow> map_of args ''to_chat_id'')"

text \<open>\<^verbatim>\<open>chat if isinstance(chat, int) else None\<close>.\<close>

definition audited_chat :: "dict \<Rightarrow> json option" where
  "audited_chat args = (case chat_arg args of Some (JInt i) \<Rightarrow> Some (JInt i) | Some (JBool b) \<Rightarrow> Some (JBool b) | _ \<Rightarrow> None)"

subsection \<open>Calling a tool\<close>

datatype tool_reply =
    Text string
  | Error_result string \<comment> \<open>\<^verbatim>\<open>isError=True\<close>\<close>
  | Raised \<comment> \<open>an exception the SDK turns into an error\<close>
  | Answer json

definition checked_args :: "tool_env \<Rightarrow> tool \<Rightarrow> dict \<Rightarrow> string + dict" where
  "checked_args e t args =
    (case coerce_ids e args (tl_schema t) of
       Inl (Tool_error s) \<Rightarrow> Inl s
     | Inl (Other_error k s) \<Rightarrow> Inl s
     | Inr args \<Rightarrow>
        (case te_validate e (tl_schema t) (JObj args) of
           Some s \<Rightarrow> Inl (''Input validation error: '' @ s)
         | None \<Rightarrow> Inr args))"

definition denied_call :: "tool_env \<Rightarrow> caller \<Rightarrow> string \<Rightarrow> mcp_world \<Rightarrow> tool_reply \<times> mcp_world" where
  "denied_call e c name w =
    (let known = by_name name
     in (Text (''Error: tool '' @ quoted name @ '' is not available for this key''),
         in_sys (mcp_audit e (mcp_context c) (case known of Some t \<Rightarrow> tl_route t | None \<Rightarrow> name)
           (case known of Some t \<Rightarrow> is_write t | None \<Rightarrow> False) ''denied'' None None None
           (Some ''tool not available for this key'')) w))"

text \<open>The call after the decision: the handler, then the audit row.\<close>

definition perform ::
    "tool_env \<Rightarrow> caller \<Rightarrow> tool \<Rightarrow> dict \<Rightarrow> json option \<Rightarrow> string option \<Rightarrow> mcp_world \<Rightarrow> tool_reply \<times> mcp_world" where
  "perform e c t args target dig w =
    (let log = (\<lambda>st target err. in_sys (mcp_audit e (mcp_context c) (tl_route t) (is_write t) st (audited_chat args) target dig err))
     in case run_handler e (tl_call t) c args w of
          (Inl (Tool_error s), w) \<Rightarrow>
            (Text (scrub t s), log ''error'' target (Some (take 500 (scrub t s))) w)
        | (Inl (Other_error k s), w) \<Rightarrow>
            (Text (scrub t (''Error: '' @ s)), log ''error'' target (Some (take 500 (scrub t (k @ '': '' @ s)))) w)
        | (Inr result, w) \<Rightarrow>
            (let target = (case result of JObj d \<Rightarrow> (if tl_route t = ''contact_by_phone'' then get_value d ''user_id'' else target)
                           | _ \<Rightarrow> target)
             in (Answer (safe_ints result), log ''ok'' target None w)))"

definition call_tool :: "tool_env \<Rightarrow> caller \<Rightarrow> string \<Rightarrow> dict \<Rightarrow> mcp_world \<Rightarrow> tool_reply \<times> mcp_world" where
  "call_tool e c name args w =
    (case find (\<lambda>t. tl_name t = name) (visible e c) of
       None \<Rightarrow> denied_call e c name w
     | Some t \<Rightarrow>
        (let ctx = mcp_context c; route = tl_route t
         in case checked_args e t args of
              Inl err \<Rightarrow>
                (Error_result (scrub t err), in_sys (mcp_audit e ctx route (is_write t) ''error'' None None None
                   (Some (take 500 (scrub t err)))) w)
            | Inr args \<Rightarrow>
               (case authorize_chat e (mw_sys w) ctx route (chat_arg args) (is_write t) of
                  (d, s) \<Rightarrow>
                    (let w = w\<lparr>mw_sys := s\<rparr>;
                         dig = (if is_write t then Some (mcp_digest e args) else None)
                     in case target_of e args of
                          None \<Rightarrow> (Raised, w)
                        | Some target \<Rightarrow>
                            if \<not> allowed d
                            then (Text (''HTTP '' @ show_int (dec_status d) @ '': '' @
                                    te_dumps e (JObj (content (decision_response d ctx route)))),
                                  in_sys (mcp_audit e ctx route (is_write t) ''denied'' (audited_chat args) target dig
                                    (Some (''HTTP '' @ show_int (dec_status d)))) w)
                            else perform e c t args target dig w))))"

text \<open>A request to \<^verbatim>\<open>/mcp\<close>: 401 without a caller, the call otherwise.\<close>

definition mcp_request ::
    "tool_env \<Rightarrow> req \<Rightarrow> string \<Rightarrow> string \<Rightarrow> dict \<Rightarrow> mcp_world \<Rightarrow> tool_reply option \<times> mcp_world" where
  "mcp_request e r netloc name args w =
    (case mcp_caller e r netloc (mw_sys w) of
       (None, s) \<Rightarrow> (None, w\<lparr>mw_sys := s\<rparr>)
     | (Some c, s) \<Rightarrow> (case call_tool e c name args (w\<lparr>mw_sys := s\<rparr>) of (reply, w) \<Rightarrow> (Some reply, w)))"

end
