(* ===== verification/Mcp_Facts.thy ===== *)
theory Mcp_Facts
  imports Mcp_Server
begin

text \<open>
  Facts on the tools: the calls a handler makes, ids after their check, the schemas of the
  catalog, what a denied or allowed decision means, the rows of the audit.
\<close>

subsection \<open>Ids\<close>

text \<open>Integers that a double holds exactly.\<close>

fun safe_json :: "json \<Rightarrow> bool" where
  "safe_json (JObj d) \<longleftrightarrow> (\<forall>kv \<in> set d. safe_json (snd kv))"
| "safe_json (JList vs) \<longleftrightarrow> (\<forall>v \<in> set vs. safe_json v)"
| "safe_json (JInt i) \<longleftrightarrow> \<bar>i\<bar> \<le> MAX_SAFE_INT"
| "safe_json _ \<longleftrightarrow> True"

lemma safe_ints_safe: "safe_json (safe_ints v)"
  by (induction v rule: safe_ints.induct) auto

lemma safe_ints_id: "safe_json v \<Longrightarrow> safe_ints v = v"
  by (induction v rule: safe_ints.induct) (auto intro!: map_idI)

lemma id_pattern_show: "id_pattern (show_int i)"
proof -
  let ?n = "if i < 0 then - i else i"
  have n: "0 \<le> ?n" by simp
  have d: "list_all is_digit (show_digits ?n)" using show_digits_digits [OF n] by (auto simp: list_all_iff)
  obtain c t where c: "show_digits ?n = c # t" "is_digit c" using show_digits_Cons [OF n] by blast
  then show ?thesis using d digit_not_sign [OF c(2)]
    by (cases "i < 0") (auto simp: show_int_def id_pattern_def)
qed

lemma to_id_safe: "to_id e key (safe_ints (JInt i)) = Inr i"
  by (simp add: to_id_def id_pattern_show py_int_show)

lemma map_of_py_set [simp]: "map_of (py_set k v d) k' = (if k' = k then Some v else map_of d k')"
  by (induction k v d rule: py_set.induct) auto

lemma coerce_one_int:
  assumes "map_of out n = Some (JInt i)" and "coerce_one e m prop out = Inr out'"
  shows "map_of out' n = Some (JInt i)"
  using assms
  by (auto simp: coerce_one_def get_value_def to_id_def split: option.splits json.splits sum.splits if_splits)

lemma coerce_one_none:
  assumes "get_value out n = None" and "coerce_one e m prop out = Inr out'"
  shows "get_value out' n = None"
  using assms
  by (auto simp: coerce_one_def get_value_def split: option.splits json.splits sum.splits if_splits)

lemma coerce_props_int:
  "map_of out n = Some (JInt i) \<Longrightarrow> coerce_props e ps out = Inr out' \<Longrightarrow> map_of out' n = Some (JInt i)"
  by (induction e ps out rule: coerce_props.induct) (auto split: sum.splits dest: coerce_one_int)

lemma coerce_props_none:
  "get_value out n = None \<Longrightarrow> coerce_props e ps out = Inr out' \<Longrightarrow> get_value out' n = None"
  by (induction e ps out rule: coerce_props.induct) (auto split: sum.splits dest: coerce_one_none)

lemma coerce_props_id:
  assumes "coerce_props e ps out = Inr out'" and "(n, prop) \<in> set ps" and "json_member prop ''type'' = Some ID_TYPES"
  shows "get_value out' n = None \<or> (\<exists>i. map_of out' n = Some (JInt i))"
  using assms
proof (induction e ps out rule: coerce_props.induct)
  case (2 e m p ps out)
  then obtain mid where mid: "coerce_one e m p out = Inr mid" "coerce_props e ps mid = Inr out'"
    by (auto split: sum.splits)
  show ?case
  proof (cases "(n, prop) = (m, p)")
    case True
    have "get_value mid n = None \<or> (\<exists>i. map_of mid n = Some (JInt i))"
      using mid(1) True 2(4) by (auto simp: coerce_one_def get_value_def split: option.splits json.splits sum.splits if_splits)
    then show ?thesis using mid(2) coerce_props_int coerce_props_none by blast
  next
    case False
    then have "(n, prop) \<in> set ps" using 2(3) by auto
    then show ?thesis using 2(1) [OF mid(1) mid(2) _ 2(4)] by blast
  qed
qed simp

subsection \<open>The schemas of the catalog\<close>

definition required_keys :: "json \<Rightarrow> json list" where
  "required_keys schema = (case json_member schema ''required'' of Some (JList rs) \<Rightarrow> rs | _ \<Rightarrow> [])"

text \<open>\<^verbatim>\<open>chat_id\<close> is required and is an id.\<close>

definition needs_chat :: "json \<Rightarrow> bool" where
  "needs_chat schema \<longleftrightarrow> JStr ''chat_id'' \<in> set (required_keys schema)"

definition chat_is_id :: "json \<Rightarrow> bool" where
  "chat_is_id schema \<longleftrightarrow> (\<exists>p. map_of (schema_properties schema) ''chat_id'' = Some p \<and> json_member p ''type'' = Some ID_TYPES)"

text \<open>The same before the ids are widened.\<close>

definition plain_chat :: "json \<Rightarrow> bool" where
  "plain_chat schema \<longleftrightarrow> JStr ''chat_id'' \<notin> set (required_keys schema) \<or>
     map_of (schema_properties schema) ''chat_id'' = Some (jtype ''integer'' [])"

lemma dict_update_types [simp]: "map_of (dict_update d ID_TYPE) ''type'' = Some ID_TYPES"
  by (simp add: dict_update_def ID_TYPE_def)

lemma widen_plain_chat: "json_member (widen_prop ''chat_id'' (jtype ''integer'' [])) ''type'' = Some ID_TYPES"
  by (simp add: widen_prop_def is_id_def jtype_def json_member_def get_value_def SMALL_IDS_def ID_KEYS_def ID_TYPES_def
      dict_update_def ID_TYPE_def)

lemma required_widen [simp]: "required_keys (widen_ids schema) = required_keys schema"
  by (auto simp: required_keys_def widen_ids_def json_member_def get_value_def split: json.splits option.splits)

lemma map_of_map_key: "map_of (map (\<lambda>(n, p). (n, f n p)) ps) k = map_option (f k) (map_of ps k)"
  by (induction ps) auto

lemma properties_widen:
  "map_of (schema_properties (widen_ids schema)) k = map_option (widen_prop k) (map_of (schema_properties schema) k)"
  by (auto simp: schema_properties_def widen_ids_def json_member_def get_value_def map_of_map_key
      split: json.splits option.splits)

lemma widen_chat: "plain_chat schema \<Longrightarrow> needs_chat (widen_ids schema) \<Longrightarrow> chat_is_id (widen_ids schema)"
  using widen_plain_chat by (auto simp: plain_chat_def needs_chat_def chat_is_id_def properties_widen)

lemma plain_chat_specs:
  "list_all (\<lambda>s. plain_chat (fst (snd s))) (max_group_specs @ max_r4_specs @ max_r5_specs @ rw_specs)"
  by code_simp

lemma plain_chat_stdio: "list_all (\<lambda>(n, s). plain_chat (account_schema n s)) STDIO_TOOLS"
  by code_simp

lemma required_on_properties [simp]: "required_keys (on_properties f schema) = required_keys schema"
  by (auto simp: required_keys_def on_properties_def json_member_def get_value_def split: json.splits option.splits)

lemma properties_on_properties:
  "(\<And>ps. map_of (f ps) k = map_of ps k) \<Longrightarrow>
     map_of (schema_properties (on_properties f schema)) k = map_of (schema_properties schema) k"
  by (auto simp: schema_properties_def on_properties_def json_member_def get_value_def split: json.splits option.splits)

lemma chat_is_id_variant [simp]:
  "chat_is_id (tl_schema (max_variant t)) = chat_is_id (tl_schema t)"
  "needs_chat (tl_schema (max_variant t)) = needs_chat (tl_schema t)"
  "tl_route (max_variant t) = tl_route t" "tl_name (max_variant t) = tl_name t" "tl_call (max_variant t) = tl_call t"
  by (simp_all add: chat_is_id_def needs_chat_def max_variant_def properties_on_properties)

lemma widened_chat:
  assumes "list_all (\<lambda>s. plain_chat (fst (snd s))) specs" and "t \<in> set (widened specs)" and "needs_chat (tl_schema t)"
  shows "chat_is_id (tl_schema t)"
proof -
  obtain s where s: "s \<in> set specs" "tl_schema t = widen_ids (fst (snd s))"
    using assms(2) by (auto simp: widened_def)
  then have "plain_chat (fst (snd s))" using assms(1) by (simp add: list_all_iff)
  then show ?thesis using assms(3) s(2) widen_chat by simp
qed

lemma catalog_chat:
  assumes "t \<in> set (ACCOUNT_TOOLS @ RW_TOOLS)" and "needs_chat (tl_schema t)" shows "chat_is_id (tl_schema t)"
proof (cases "t \<in> set account_tools")
  case True
  then obtain n s where "(n, s) \<in> set STDIO_TOOLS" "tl_schema t = widen_ids (account_schema n s)"
    by (fastforce simp: account_tools_def List.map_filter_def)
  then show ?thesis using plain_chat_stdio assms(2) by (auto simp: list_all_iff intro: widen_chat)
next
  case False
  then show ?thesis using assms plain_chat_specs widened_chat [of _ t]
    by (auto simp: ACCOUNT_TOOLS_def RW_TOOLS_def)
qed

lemma visible_chat:
  assumes "t \<in> set (visible e c)" and "cl_scope c \<noteq> ''owner''" and "needs_chat (tl_schema t)"
  shows "chat_is_id (tl_schema t)"
proof -
  from assms(1,2) obtain t' where "t' \<in> set (ACCOUNT_TOOLS @ RW_TOOLS)" "t = t' \<or> t = max_variant t'"
    by (auto simp: visible_def Let_def split: if_splits)
  then show ?thesis using catalog_chat [of t'] assms(3) by auto
qed

lemma visible_write:
  assumes "t \<in> set (visible e c)" and "is_write t" and "cl_scope c \<noteq> ''owner''" shows "cl_mode c = ''rw''"
  using assms by (auto simp: visible_def is_write_def Let_def split: if_splits)

lemma owner_tools_read: "list_all (\<lambda>s. fst (snd (snd s)) \<notin> set WRITE_MESSENGER_TOOLS) owner_specs"
  by code_simp

lemma owner_visible: "cl_scope c = ''owner'' \<Longrightarrow> t \<in> set (visible e c) \<Longrightarrow> \<not> is_write t"
  using owner_tools_read by (auto simp: visible_def OWNER_TOOLS_def widened_def is_write_def list_all_iff)

subsection \<open>The calls of a handler\<close>

text \<open>How a call follows from the arguments.\<close>

definition call_from :: "tool_env \<Rightarrow> caller \<Rightarrow> handler \<Rightarrow> dict \<Rightarrow> rest_call \<Rightarrow> bool" where
  "call_from e c h args q \<longleftrightarrow> rc_platform q = cl_platform c \<and> rc_state q = caller_state c \<and>
    (case h of
       Rest method path query body \<Rightarrow>
         rc_method q = method \<and> format_path e args None path = Inr (rc_path q) \<and> apply_args query args = Inr (rc_query q) \<and>
         (\<exists>b. apply_args body args = Inr b \<and> rc_json q = map_option JObj b) \<and> rc_parts q = None
     | Download_media \<Rightarrow> rc_query q = None \<and> rc_json q = None \<and> rc_parts q = None
     | Create_upload \<Rightarrow> False
     | Person_accounts \<Rightarrow> rc_query q = None \<and> rc_json q = None \<and> rc_parts q = None
     | _ \<Rightarrow> (\<exists>chat ps. map_of args ''chat_id'' = Some chat \<and> rc_parts q = Some (Field ''chat_id'' chat # ps) \<and>
              (\<forall>v. Field ''chat_id'' v \<notin> set ps) \<and> rc_query q = None \<and> rc_json q = None))"

text \<open>A handler makes one call at most.\<close>

definition calls_from :: "tool_env \<Rightarrow> caller \<Rightarrow> handler \<Rightarrow> dict \<Rightarrow> mcp_world \<Rightarrow> mcp_world \<Rightarrow> bool" where
  "calls_from e c h args w w' \<longleftrightarrow> mw_calls w' = mw_calls w \<or>
     (\<exists>route q. mw_calls w' = mw_calls w @ [(route, q)] \<and> call_from e c h args q)"

lemma calls_none: "calls_from e c h args w w"
  by (simp add: calls_from_def)

lemma do_rest_calls:
  assumes "do_rest e c method path query js parts w = (r, w')"
    and "call_from e c h args \<lparr>rc_platform = cl_platform c, rc_method = method, rc_path = path, rc_state = caller_state c,
      rc_query = query, rc_json = js, rc_parts = parts\<rparr>"
  shows "calls_from e c h args w w'"
  using assms
  by (auto simp: do_rest_def invoke_call_def calls_from_def Let_def split: option.splits prod.splits if_splits)

lemma form_fields_chat: "''chat_id'' \<notin> set keys \<Longrightarrow> Field ''chat_id'' v \<notin> set (form_fields args keys)"
  by (auto simp: form_fields_def List.map_filter_def)

lemma send_file_part_calls:
  assumes "send_file_part e path keys vn c args w = (r, w')" and "''chat_id'' \<notin> set keys"
    and "h = Send_file \<or> h = Send_voice \<or> h = Send_video_note"
  shows "calls_from e c h args w w'"
  using assms form_fields_chat [of keys _ args]
  by (auto simp: send_file_part_def with_chat_def calls_none call_from_def split: sum.splits option.splits prod.splits
      intro!: do_rest_calls)

lemma album_parts_chat: "album_parts e c key vs w = Inr ps \<Longrightarrow> Field ''chat_id'' v \<notin> set ps"
  by (induction e c key vs w arbitrary: ps rule: album_parts.induct) (auto split: sum.splits prod.splits)

lemma send_album_calls:
  assumes "send_album e c args w = (r, w')" shows "calls_from e c Send_album args w w'"
proof -
  have keys: "Field ''chat_id'' v \<notin> set (form_fields args [''caption'', ''reply_to_message_id'', ''parse_mode'', ''schedule_date''])" for v
    by (rule form_fields_chat) simp
  show ?thesis using assms keys album_parts_chat
    by (auto simp: send_album_def with_chat_def calls_none call_from_def
        split: sum.splits option.splits if_splits intro!: do_rest_calls)
qed

lemma download_media_calls:
  assumes "download_media e c args w = (r, w')" shows "calls_from e c Download_media args w w'"
proof (cases "(map_of args ''chat_id'', map_of args ''message_id'')")
  case (Pair x y)
  then consider "w' = w" | chat message where "map_of args ''chat_id'' = Some chat" "map_of args ''message_id'' = Some message"
    using assms by (auto simp: download_media_def split: option.splits)
  then show ?thesis
  proof cases
    case 2
    let ?g = "do_rest e c ''GET'' (''/messages/'' @ py_str e chat @ ''/'' @ py_str e message) None None None w"
    have "w' = snd ?g"
      using assms by (auto simp: download_media_def 2 Let_def split: prod.splits sum.splits json.splits if_splits option.splits)
    moreover have "calls_from e c Download_media args w (snd ?g)"
      by (rule do_rest_calls [OF surjective_pairing]) (simp add: call_from_def)
    ultimately show ?thesis by simp
  qed (simp add: calls_none)
qed

lemma person_accounts_tool_calls:
  assumes "person_accounts_tool e c args w = (r, w')" shows "calls_from e c Person_accounts args w w'"
proof (cases "map_of args ''person_id''")
  case None
  with assms show ?thesis by (simp add: person_accounts_tool_def calls_none)
next
  case (Some p)
  let ?g = "do_rest e c ''GET'' (''/people/'' @ py_str e p) None None None w"
  have "w' = snd ?g"
    using assms by (auto simp: person_accounts_tool_def Some split: prod.splits sum.splits json.splits option.splits)
  moreover have "calls_from e c Person_accounts args w (snd ?g)"
    by (rule do_rest_calls [OF surjective_pairing]) (simp add: call_from_def)
  ultimately show ?thesis by simp
qed

lemma rest_handler_calls:
  assumes "rest_handler e m p q b c args w = (r, w')" shows "calls_from e c (Rest m p q b) args w w'"
  using assms
  by (auto simp: rest_handler_def calls_none call_from_def split: sum.splits intro!: do_rest_calls)

lemma run_handler_calls:
  assumes "run_handler e h c args w = (r, w')" shows "calls_from e c h args w w'"
proof (cases h)
  case Create_upload
  then have "w' = w" using assms by (auto simp: run_handler_def create_upload_def split: option.splits sum.splits)
  then show ?thesis by (simp add: calls_none)
qed (use assms in \<open>auto simp: run_handler_def send_file_def send_voice_def send_video_note_def
    intro: rest_handler_calls send_file_part_calls send_album_calls download_media_calls person_accounts_tool_calls\<close>)

subsection \<open>The steps of a call\<close>

lemma in_sys_calls [simp]: "mw_calls (in_sys f w) = mw_calls w" "mw_files (in_sys f w) = mw_files w"
  "mw_sys (in_sys f w) = f (mw_sys w)"
  by (simp_all add: in_sys_def)

lemma perform_calls:
  assumes "perform e c t args target dig w = (reply, w')"
  shows "calls_from e c (tl_call t) args w w'"
proof -
  obtain r w1 where r: "run_handler e (tl_call t) c args w = (r, w1)" by (rule prod.exhaust)
  from run_handler_calls [OF this] have "calls_from e c (tl_call t) args w w1" .
  moreover have "mw_calls w' = mw_calls w1"
    using assms by (auto simp: perform_def r Let_def split: sum.splits tool_exc.splits)
  ultimately show ?thesis by (simp add: calls_from_def)
qed

text \<open>A call reaches an endpoint only past the checks and the decision.\<close>

lemma call_tool_reaches:
  assumes "call_tool e c name args w = (reply, w')" and "mw_calls w' \<noteq> mw_calls w"
  obtains t args' d s where "t \<in> set (visible e c)" "tl_name t = name" "checked_args e t args = Inr args'"
    "authorize_chat e (mw_sys w) (mcp_context c) (tl_route t) (chat_arg args') (is_write t) = (d, s)" "allowed d"
    "calls_from e c (tl_call t) args' w w'"
proof -
  from assms obtain t where t: "find (\<lambda>t. tl_name t = name) (visible e c) = Some t"
    by (auto simp: call_tool_def denied_call_def Let_def split: option.splits)
  from assms t obtain args' where a: "checked_args e t args = Inr args'"
    by (auto simp: call_tool_def Let_def split: sum.splits)
  obtain d s where d: "authorize_chat e (mw_sys w) (mcp_context c) (tl_route t) (chat_arg args') (is_write t) = (d, s)"
    by (rule prod.exhaust)
  from assms t a d obtain target dig where p: "allowed d" "perform e c t args' target dig (w\<lparr>mw_sys := s\<rparr>) = (reply, w')"
    by (auto simp: call_tool_def Let_def split: option.splits if_splits)
  have "t \<in> set (visible e c)" "tl_name t = name" using t by (auto simp: find_Some_iff)
  moreover have "calls_from e c (tl_call t) args' w w'"
    using perform_calls [OF p(2)] by (simp add: calls_from_def)
  ultimately show thesis using that a d p(1) by blast
qed

lemma checked_chat:
  assumes "checked_args e t args = Inr args'" and "chat_is_id (tl_schema t)"
    and "te_validate e (tl_schema t) (JObj args') = None \<Longrightarrow> get_value args' ''chat_id'' \<noteq> None"
  shows "\<exists>i. map_of args' ''chat_id'' = Some (JInt i)"
proof -
  from assms(1) have co: "coerce_ids e args (tl_schema t) = Inr args'" and v: "te_validate e (tl_schema t) (JObj args') = None"
    by (auto simp: checked_args_def split: sum.splits tool_exc.splits option.splits)
  obtain p where "(''chat_id'', p) \<in> set (schema_properties (tl_schema t))" "json_member p ''type'' = Some ID_TYPES"
    using assms(2) by (auto simp: chat_is_id_def dest: map_of_SomeD)
  from coerce_props_id [OF co [unfolded coerce_ids_def] this] assms(3) [OF v] show ?thesis by blast
qed

subsection \<open>The chats a call addresses\<close>

definition field_chat :: "form_part \<Rightarrow> json option" where
  "field_chat p = (case p of Field k v \<Rightarrow> if k = ''chat_id'' then Some v else None | File_part k n b \<Rightarrow> None)"

definition addressed_chats :: "rest_call \<Rightarrow> json list" where
  "addressed_chats q =
     List.map_filter (\<lambda>d. map_of d ''chat_id'')
       ((case rc_query q of Some d \<Rightarrow> [d] | None \<Rightarrow> []) @ (case rc_json q of Some (JObj d) \<Rightarrow> [d] | _ \<Rightarrow> [])) @
     List.map_filter field_chat (case rc_parts q of Some ps \<Rightarrow> ps | None \<Rightarrow> [])"

lemma distinct_py_set: "distinct (map fst d) \<Longrightarrow> distinct (map fst (py_set k v d))"
proof (induction k v d rule: py_set.induct)
  case (2 k v k' v' kvs)
  have "fst ` set (py_set k v kvs) = insert k (fst ` set kvs)"
    by (induction k v kvs rule: py_set.induct) auto
  with 2 show ?case by auto
qed simp

lemma coerce_one_distinct:
  "distinct (map fst out) \<Longrightarrow> coerce_one e m prop out = Inr out' \<Longrightarrow> distinct (map fst out')"
  by (auto simp: coerce_one_def distinct_py_set split: option.splits json.splits sum.splits if_splits)

lemma coerce_props_distinct:
  "distinct (map fst out) \<Longrightarrow> coerce_props e ps out = Inr out' \<Longrightarrow> distinct (map fst out')"
  by (induction e ps out rule: coerce_props.induct) (auto split: sum.splits dest: coerce_one_distinct)

lemma checked_distinct: "distinct (map fst args) \<Longrightarrow> checked_args e t args = Inr args' \<Longrightarrow> distinct (map fst args')"
  by (auto simp: checked_args_def coerce_ids_def split: sum.splits tool_exc.splits option.splits
      dest: coerce_props_distinct)

lemma map_of_filter_distinct:
  "distinct (map fst d) \<Longrightarrow> map_of (filter P d) k = Some v \<Longrightarrow> map_of d k = Some v"
  by (rule map_of_is_SomeI) (auto dest: map_of_SomeD)

lemma pick_args_value:
  "pick_args ks args = Inr d \<Longrightarrow> map_of args k = Some v \<Longrightarrow> map_of d k = Some v' \<Longrightarrow> v' = v"
proof (induction ks args arbitrary: d rule: pick_args.induct)
  case (2 k' dflt ks args)
  let ?x = "case map_of args k' of Some v \<Rightarrow> Some v | None \<Rightarrow> dflt"
  obtain y d' where y: "?x = Some y" "pick_args ks args = Inr d'" "d = (k', y) # d'"
    using 2(2) by (auto split: option.splits sum.splits)
  show ?case
  proof (cases "k' = k")
    case True
    then show ?thesis using y(1,3) 2(3,4) by simp
  next
    case False
    then show ?thesis using 2(1) [OF y(1,2) 2(3)] y(3) 2(4) by simp
  qed
qed simp

lemma apply_args_value:
  assumes "apply_args f args = Inr (Some d)" "distinct (map fst args)" "map_of args k = Some v" "map_of d k = Some v'"
  shows "v' = v"
proof (cases f)
  case All_args
  with assms(1,4) have "map_of args k = Some v'"
    unfolding apply_args_def clean_def by (auto intro: map_of_filter_distinct [OF assms(2)])
  with assms(3) show ?thesis by simp
next
  case (Without ks)
  with assms(1,4) have "map_of args k = Some v'"
    unfolding apply_args_def clean_def by (auto intro: map_of_filter_distinct [OF assms(2)])
  with assms(3) show ?thesis by simp
next
  case (Pick ks)
  then show ?thesis using assms(1,3,4) by (auto simp: apply_args_def split: sum.splits dest: pick_args_value)
qed (use assms in \<open>simp add: apply_args_def\<close>)

lemma form_chat: "\<forall>v. Field ''chat_id'' v \<notin> set ps \<Longrightarrow> List.map_filter field_chat ps = []"
  by (induction ps) (auto simp: List.map_filter_simps field_chat_def split: form_part.splits)

lemma call_from_chat:
  assumes "call_from e c h args q" and d: "distinct (map fst args)" and v: "map_of args ''chat_id'' = Some v"
  shows "set (addressed_chats q) \<subseteq> {v}"
proof (cases "\<exists>m p qf bf. h = Rest m p qf bf")
  case True
  then obtain m p qf bf where h: "h = Rest m p qf bf" by blast
  from assms(1) obtain b where q: "apply_args qf args = Inr (rc_query q)" "apply_args bf args = Inr b"
    "rc_json q = map_option JObj b" "rc_parts q = None" by (auto simp: call_from_def h)
  have "y = v" if "rc_query q = Some x" "map_of x ''chat_id'' = Some y" for x y
    using apply_args_value [OF q(1) [unfolded that(1)] d v that(2)] .
  moreover have "y = v" if "b = Some x" "map_of x ''chat_id'' = Some y" for x y
    using apply_args_value [OF q(2) [unfolded that(1)] d v that(2)] .
  ultimately show ?thesis
    by (cases "rc_query q"; cases b)
      (auto simp: addressed_chats_def q List.map_filter_simps split: option.splits)
next
  case False
  with assms(1) have "rc_query q = None" "rc_json q = None"
    "rc_parts q = None \<or> (\<exists>ps. rc_parts q = Some (Field ''chat_id'' v # ps) \<and> (\<forall>v. Field ''chat_id'' v \<notin> set ps))"
    using v by (cases h; auto simp: call_from_def)+
  then show ?thesis
    by (auto simp: addressed_chats_def List.map_filter_simps form_chat field_chat_def)
qed

end
