(* ===== verification/Mcp_Props.thy ===== *)
theory Mcp_Props
  imports Mcp_Facts Middleware_Props
begin

text \<open>
  What a call through MCP has passed, the chats a write may address, the audit of calls and the
  ids that travel to an agent and back.
\<close>

subsection \<open>The caller\<close>

lemma mcp_caller_account:
  assumes "mcp_caller e r netloc s = (Some c, s')" and "cl_scope c \<noteq> ''owner''"
  obtains info a acc where "fst (lookup (te_sha e) s (Some (strip (drop 7 (the (header r ''authorization''))))) (te_now e) (te_wall e)) = Some info"
    "ki_account_id info = Some a" "cl_account_id c = Some a" "acc \<in> set (as_accounts s)" "acc_id acc = a" "acc_is_enabled acc"
    "cl_mode c = acc_mode acc" "cl_platform c = acc_platform acc" "cl_alias c = Some (acc_alias acc)" "same_tables s s'"
proof -
  let ?auth = "case header r ''authorization'' of Some h \<Rightarrow> h | None \<Rightarrow> []"
  let ?key = "if starts_with (lower ?auth) ''bearer '' then Some (strip (drop 7 ?auth)) else None"
  obtain i where l: "lookup (te_sha e) s ?key (te_now e) (te_wall e) = (Some i, s')"
    and c: "caller_for s' i (base_url r netloc) = Some c"
    using assms(1) by (auto simp: mcp_caller_def Let_def split: prod.splits option.splits)
  have b: "starts_with (lower ?auth) ''bearer ''"
  proof (rule ccontr)
    assume "\<not> ?thesis"
    with l show False by (simp add: lookup_def)
  qed
  then have h: "header r ''authorization'' \<noteq> None" by (auto simp: lower_def split: option.splits)
  have st: "same_tables s s'" using lookup_tables [OF l] .
  obtain a acc where a: "ki_account_id i = Some a" "one_or_none (\<lambda>acc. acc_id acc = a \<and> acc_is_enabled acc) (as_accounts s') = Some acc"
      "c = \<lparr>cl_scope = ''account'', cl_account_id = Some a, cl_alias = Some (acc_alias acc),
        cl_platform = acc_platform acc, cl_mode = acc_mode acc, cl_base_url = base_url r netloc\<rparr>"
    using c assms(2) by (auto simp: caller_for_def split: if_splits option.splits)
  have "as_accounts s' = as_accounts s" using st by (simp add: same_tables_def)
  with one_or_none_Some [OF a(2)] have acc: "acc \<in> set (as_accounts s)" "acc_id acc = a" "acc_is_enabled acc" by auto
  have "fst (lookup (te_sha e) s (Some (strip (drop 7 (the (header r ''authorization''))))) (te_now e) (te_wall e)) = Some i"
    using l b h by auto
  then show thesis by (rule that [OF _ a(1) _ acc _ _ _ st]) (simp_all add: a(3))
qed

lemma authorize_chat_allowed:
  assumes "authorize_chat e s ctx route chat w = (d, s')" and "allowed d"
  shows "\<exists>c d0. authorize s ctx route c w (te_now e) (te_wall e) = (d0, s') \<and> allowed d0 \<and>
    (\<forall>i. chat = Some (JInt i) \<longrightarrow> c = Some i)"
  using assms
  by (auto simp: authorize_chat_def deny_def split: option.splits json.splits prod.splits if_splits)

subsection \<open>Writes through MCP\<close>

text \<open>
  C12 What a write through MCP has passed. A call that reaches a route was made by a live key's
  caller for a tool it can see, and carries the identity of that caller and no other. When the
  tool writes to a messenger, the key belongs to an account that is enabled and read-write at that
  moment (whatever its policies say), no policy denies the tool, and the account has made fewer
  writes in the last hour than its limit.
\<close>
theorem mcp_write_is_guarded:
  assumes run: "mcp_request e r netloc name args w = (reply, w')"
    and call: "(route, q) \<in> set (drop (length (mw_calls w)) (mw_calls w'))"
  shows "\<exists>c s t. mcp_caller e r netloc (mw_sys w) = (Some c, s) \<and> t \<in> set (visible e c) \<and> tl_name t = name \<and>
    rc_state q = caller_state c \<and> rc_platform q = cl_platform c \<and>
    (is_write t \<longrightarrow> (\<exists>info acc. acc \<in> set (as_accounts (mw_sys w)) \<and>
       fst (lookup (te_sha e) (mw_sys w) (Some (strip (drop 7 (the (header r ''authorization''))))) (te_now e) (te_wall e)) = Some info \<and>
       ki_account_id info = Some (acc_id acc) \<and> cl_account_id c = Some (acc_id acc) \<and>
       acc_is_enabled acc \<and> acc_mode acc = ''rw'' \<and> rc_platform q = acc_platform acc \<and>
       get_tool_policy (mw_sys w) (acc_id acc) (tl_route t) \<noteq> Some ''deny'' \<and>
       (\<forall>p cs n. write_guards (mw_sys w) (acc_id acc) = Some (p, cs, Some n) \<longrightarrow>
          writes_last_hour (mw_sys w) (acc_id acc) (te_wall e) < n)))"
proof -
  obtain c s where c: "mcp_caller e r netloc (mw_sys w) = (Some c, s)"
    and ct: "call_tool e c name args (w\<lparr>mw_sys := s\<rparr>) = (the reply, w')"
    using run call by (auto simp: mcp_request_def split: prod.splits option.splits)
  let ?w = "w\<lparr>mw_sys := s\<rparr>"
  have "mw_calls w' \<noteq> mw_calls ?w" using call by auto
  from call_tool_reaches [OF ct this] obtain t args' d s' where t: "t \<in> set (visible e c)" "tl_name t = name"
      "authorize_chat e (mw_sys ?w) (mcp_context c) (tl_route t) (chat_arg args') (is_write t) = (d, s')" "allowed d"
      "calls_from e c (tl_call t) args' ?w w'" by metis
  have q: "rc_state q = caller_state c" "rc_platform q = cl_platform c"
    using t(5) call by (auto simp: calls_from_def call_from_def)
  have "\<exists>info acc. acc \<in> set (as_accounts (mw_sys w)) \<and>
       fst (lookup (te_sha e) (mw_sys w) (Some (strip (drop 7 (the (header r ''authorization''))))) (te_now e) (te_wall e)) = Some info \<and>
       ki_account_id info = Some (acc_id acc) \<and> cl_account_id c = Some (acc_id acc) \<and>
       acc_is_enabled acc \<and> acc_mode acc = ''rw'' \<and> rc_platform q = acc_platform acc \<and>
       get_tool_policy (mw_sys w) (acc_id acc) (tl_route t) \<noteq> Some ''deny'' \<and>
       (\<forall>p cs n. write_guards (mw_sys w) (acc_id acc) = Some (p, cs, Some n) \<longrightarrow>
          writes_last_hour (mw_sys w) (acc_id acc) (te_wall e) < n)" if wr: "is_write t"
  proof -
    have no: "cl_scope c \<noteq> ''owner''" using owner_visible [OF _ t(1)] wr by blast
    from mcp_caller_account [OF c no] obtain info a acc where a:
      "fst (lookup (te_sha e) (mw_sys w) (Some (strip (drop 7 (the (header r ''authorization''))))) (te_now e) (te_wall e)) = Some info"
      "ki_account_id info = Some a" "cl_account_id c = Some a" "acc \<in> set (as_accounts (mw_sys w))" "acc_id acc = a"
      "acc_is_enabled acc" "cl_mode c = acc_mode acc" "cl_platform c = acc_platform acc" "same_tables (mw_sys w) s" .
    from authorize_chat_allowed [OF t(3,4)] wr obtain ch d0 where
      au: "authorize s (mcp_context c) (tl_route t) ch True (te_now e) (te_wall e) = (d0, s')" "allowed d0" by auto
    have ctx: "ctx_account_id (mcp_context c) = Some a" using a(3) by (simp add: mcp_context_def)
    have wt: "tl_route t \<in> set WRITE_MESSENGER_TOOLS" using wr by (simp add: is_write_def)
    note g = authorize_allowed_write [OF au ctx wt]
    note same = same_tables_reads [OF a(9)]
    have mode: "acc_mode acc = ''rw''" using visible_write [OF t(1) wr no] a(7) by simp
    have pol: "get_tool_policy (mw_sys w) a (tl_route t) \<noteq> Some ''deny''" using g(1) same(1) by simp
    have rate: "\<forall>p cs n. write_guards (mw_sys w) a = Some (p, cs, Some n) \<longrightarrow> writes_last_hour (mw_sys w) a (te_wall e) < n"
      using g(3) same(3,4) by auto
    show ?thesis
      by (intro exI [of _ info] exI [of _ acc]) (use a mode pol rate q in auto)
  qed
  then show ?thesis using c t(1,2) q by blast
qed

text \<open>A server with one MAX account, its key, and a route for messages.\<close>

definition demo_validate :: "json \<Rightarrow> json \<Rightarrow> string option" where
  "demo_validate schema v = (case v of
      JObj d \<Rightarrow> if list_all (\<lambda>r. case r of JStr k \<Rightarrow> get_value d k \<noteq> None | _ \<Rightarrow> True) (required_keys schema)
                then None else Some ''a required property is missing''
    | _ \<Rightarrow> Some ''not an object'')"

definition acme_files :: file_env where
  "acme_files = \<lparr>fe_secret = [], fe_hmac = (\<lambda>k b. b), fe_dumps = (\<lambda>_. []), fe_loads = (\<lambda>_. None),
     fe_before = (\<lambda>_ _. None), fe_stamp = JInt, fe_urlparse = (\<lambda>_. None), fe_getaddrinfo = (\<lambda>_ _. Inr []),
     fe_ip_address = (\<lambda>_. None), fe_http_get = (\<lambda>_ _. Net_error)\<rparr>"

definition acme_tools :: tool_env where
  "acme_tools = \<lparr>te_files = acme_files,
     te_routes = (\<lambda>p. if p = ''max'' then [acme_entry ''POST'' ''/api/v1/_max/messages'' ''send_message''] else []),
     te_endpoint = (\<lambda>n q s. (\<lparr>rr_status = 200, rr_body = JObj [(''message_id'', JInt 117000000000000689)]\<rparr>, s)),
     te_token = ''u'', te_int = (\<lambda>_. None), te_zero = (\<lambda>_. False), te_float_id = (\<lambda>_. None), te_str = (\<lambda>_. []),
     te_dumps = (\<lambda>_. []), te_exception = ([], []), te_column = (\<lambda>_. None), te_validate = demo_validate,
     te_scheduled_enabled = True, te_sha = (\<lambda>k. k), te_now = seconds 100, te_wall = seconds 1000\<rparr>"

definition acme_world :: mcp_world where
  "acme_world = \<lparr>mw_sys = acme_sys\<lparr>as_accounts := [(acme_account 2 ''max1'' ''rw'' ''max'')\<lparr>acc_write_chat_ids := Some [5, 117]\<rparr>]\<rparr>,
     mw_files = [], mw_calls = []\<rparr>"

definition acme_post :: req where
  "acme_post = acme_req ''POST'' ''/mcp'' [(''authorization'', ''Bearer k2'')] []"

definition acme_args :: dict where
  "acme_args = [(''chat_id'', JStr ''117''), (''text'', JStr ''hi'')]"

definition acme_mcp_caller :: caller where
  "acme_mcp_caller = \<lparr>cl_scope = ''account'', cl_account_id = Some 2, cl_alias = Some ''max1'', cl_platform = ''max'',
     cl_mode = ''rw'', cl_base_url = ''http://h''\<rparr>"

definition acme_sent :: "string \<times> rest_call" where
  "acme_sent = (''send_message'', \<lparr>rc_platform = ''max'', rc_method = ''POST'', rc_path = ''/messages'',
     rc_state = caller_state acme_mcp_caller, rc_query = None,
     rc_json = Some (JObj [(''chat_id'', JInt 117), (''text'', JStr ''hi'')]), rc_parts = None\<rparr>)"

definition acme_done :: "tool_reply option \<times> mcp_world" where
  "acme_done = mcp_request acme_tools acme_post ''h'' ''send_message'' acme_args acme_world"

lemma acme_caller: "fst (mcp_caller acme_tools acme_post ''h'' (mw_sys acme_world)) = Some acme_mcp_caller"
  by code_simp

definition acme_visible :: "tool list" where
  "acme_visible = visible acme_tools acme_mcp_caller"

lemma acme_visible_names: "map (\<lambda>t. (tl_name t, is_write t)) acme_visible = [(''send_message'', True)]"
  by code_simp

lemma acme_call: "mw_calls (snd acme_done) = [acme_sent]"
  by code_simp

theorem mcp_write_is_guarded_witness:
  "\<exists>acc. acc \<in> set (as_accounts (mw_sys acme_world)) \<and> acc_mode acc = ''rw'' \<and> acc_is_enabled acc \<and>
     rc_platform (snd acme_sent) = acc_platform acc \<and> rc_state (snd acme_sent) = caller_state acme_mcp_caller"
proof -
  obtain reply w' where run: "mcp_request acme_tools acme_post ''h'' ''send_message'' acme_args acme_world = (reply, w')"
    by (rule prod.exhaust)
  have "mw_calls w' = [acme_sent]" using acme_call run by (simp add: acme_done_def)
  moreover have "mw_calls acme_world = []" by (simp add: acme_world_def)
  moreover obtain route q where rq: "acme_sent = (route, q)" by (rule prod.exhaust)
  ultimately have "(route, q) \<in> set (drop (length (mw_calls acme_world)) (mw_calls w'))" by simp
  from mcp_write_is_guarded [OF run this] obtain c s t where
    t: "mcp_caller acme_tools acme_post ''h'' (mw_sys acme_world) = (Some c, s)" "t \<in> set (visible acme_tools c)"
      "rc_state q = caller_state c" and
    wr: "is_write t \<longrightarrow> (\<exists>acc. acc \<in> set (as_accounts (mw_sys acme_world)) \<and> acc_is_enabled acc \<and> acc_mode acc = ''rw'' \<and>
      rc_platform q = acc_platform acc)" by blast
  have c: "c = acme_mcp_caller" using acme_caller t(1) by simp
  have "(tl_name t, is_write t) \<in> set (map (\<lambda>t. (tl_name t, is_write t)) acme_visible)"
    using t(2) by (simp add: c acme_visible_def)
  then have "is_write t" unfolding acme_visible_names by simp
  moreover have "snd acme_sent = q" by (simp add: rq)
  ultimately show ?thesis using wr t(3) c by auto
qed

subsection \<open>The list of chats\<close>

text \<open>\<^verbatim>\<open>jsonschema\<close>: a required property is there, and no null where a string or an integer is due.\<close>

definition schema_checked :: "tool_env \<Rightarrow> bool" where
  "schema_checked e \<longleftrightarrow> (\<forall>schema d. te_validate e schema (JObj d) = None \<longrightarrow> needs_chat schema \<longrightarrow> chat_is_id schema \<longrightarrow>
     get_value d ''chat_id'' \<noteq> None)"

text \<open>
  C13 The list of chats holds for MCP. When an account is restricted to a list of chats, a write
  tool whose schema requires a chat (every one but the forward, whose target has another name, and
  those that address no chat) calls its route with a chat of the list and no other, in the path,
  the query, the body or the form, in whatever form the agent gave the id.
\<close>
theorem mcp_write_stays_in_its_chats:
  assumes schemas: "schema_checked e" and dict: "distinct (map fst args)"
    and run: "call_tool e c name args w = (reply, w')"
    and call: "(route, q) \<in> set (drop (length (mw_calls w)) (mw_calls w'))"
    and tool: "\<And>t. t \<in> set (visible e c) \<Longrightarrow> tl_name t = name \<Longrightarrow> is_write t \<and> needs_chat (tl_schema t)"
    and chats: "chat_list (mw_sys w) (mcp_context c) = Some ids"
  shows "\<exists>i \<in> set ids. set (addressed_chats q) \<subseteq> {JInt i} \<and>
    (\<exists>t args'. t \<in> set (visible e c) \<and> tl_name t = name \<and> map_of args' ''chat_id'' = Some (JInt i) \<and>
       (\<forall>m p qf bf. tl_call t = Rest m p qf bf \<longrightarrow> format_path e args' None p = Inr (rc_path q)))"
proof -
  have "mw_calls w' \<noteq> mw_calls w" using call by auto
  from call_tool_reaches [OF run this] obtain t args' d s where t: "t \<in> set (visible e c)" "tl_name t = name"
      "checked_args e t args = Inr args'"
      "authorize_chat e (mw_sys w) (mcp_context c) (tl_route t) (chat_arg args') (is_write t) = (d, s)" "allowed d"
      "calls_from e c (tl_call t) args' w w'" .
  have wr: "is_write t" "needs_chat (tl_schema t)" using tool [OF t(1,2)] by simp_all
  have "cl_scope c \<noteq> ''owner''" using owner_visible [OF _ t(1)] wr(1) by blast
  with visible_chat [OF t(1)] wr(2) have id: "chat_is_id (tl_schema t)" by blast
  have "te_validate e (tl_schema t) (JObj args') = None \<Longrightarrow> get_value args' ''chat_id'' \<noteq> None"
    using schemas wr(2) id unfolding schema_checked_def by blast
  from checked_chat [OF t(3) id this] obtain i where i: "map_of args' ''chat_id'' = Some (JInt i)" by blast
  from chats obtain a p r where a: "ctx_account_id (mcp_context c) = Some a" "write_guards (mw_sys w) a = Some (p, Some ids, r)"
    by (auto simp: chat_list_def bind_eq_Some_conv)
  have au: "authorize (mw_sys w) (mcp_context c) (tl_route t) (Some i) True (te_now e) (te_wall e) = (d, s)"
    using t(4) wr(1) by (simp add: authorize_chat_def chat_arg_def i)
  have "tl_route t \<in> set WRITE_MESSENGER_TOOLS" using wr(1) by (simp add: is_write_def)
  from authorize_allowed_write(4) [OF au t(5) a(1) this a(2) refl] have "i \<in> set ids" .
  moreover have q: "call_from e c (tl_call t) args' q" using t(6) call by (auto simp: calls_from_def)
  moreover have "set (addressed_chats q) \<subseteq> {JInt i}"
    by (rule call_from_chat [OF q checked_distinct [OF dict t(3)] i])
  moreover have "format_path e args' None p = Inr (rc_path q)" if "tl_call t = Rest m p qf bf" for m p qf bf
    using q that by (simp add: call_from_def)
  ultimately show ?thesis using t(1,2) i by blast
qed

definition acme_checks :: bool where
  "acme_checks \<longleftrightarrow> list_all (\<lambda>t. is_write t \<and> needs_chat (tl_schema t)) acme_visible"

theorem mcp_write_stays_in_its_chats_witness:
  "\<exists>i \<in> {5, 117}. set (addressed_chats (snd acme_sent)) \<subseteq> {JInt i}"
proof -
  obtain s where s: "mcp_caller acme_tools acme_post ''h'' (mw_sys acme_world) = (Some acme_mcp_caller, s)"
    using acme_caller by (metis prod.collapse)
  define w where "w = acme_world\<lparr>mw_sys := s\<rparr>"
  obtain reply w' where run: "call_tool acme_tools acme_mcp_caller ''send_message'' acme_args w = (reply, w')"
    by (rule prod.exhaust)
  have calls: "mw_calls w' = [acme_sent]" using acme_call run by (simp add: acme_done_def mcp_request_def s w_def)
  have sch: "schema_checked acme_tools"
    by (auto simp: schema_checked_def acme_tools_def demo_validate_def needs_chat_def list_all_iff split: if_splits)
  have "distinct (map fst acme_args)" by (simp add: acme_args_def)
  moreover obtain route q where rq: "acme_sent = (route, q)" by (rule prod.exhaust)
  moreover have "(route, q) \<in> set (drop (length (mw_calls w)) (mw_calls w'))"
    using calls rq by (simp add: w_def acme_world_def)
  moreover have "is_write t \<and> needs_chat (tl_schema t)" if "t \<in> set (visible acme_tools acme_mcp_caller)" for t
  proof -
    have acme_checks by code_simp
    then show ?thesis using that by (simp add: acme_checks_def acme_visible_def list_all_iff)
  qed
  moreover have "chat_list (mw_sys w) (mcp_context acme_mcp_caller) = Some [5, 117]"
  proof -
    have "chat_list (mw_sys acme_world) (mcp_context acme_mcp_caller) = Some [5, 117]" by code_simp
    moreover have "as_accounts s = as_accounts (mw_sys acme_world)"
      using mcp_caller_account [OF s] by (auto simp: acme_mcp_caller_def same_tables_def)
    ultimately show ?thesis by (simp add: chat_list_def write_guards_def w_def)
  qed
  ultimately have "\<exists>i \<in> set [5, 117]. set (addressed_chats q) \<subseteq> {JInt i}"
    using mcp_write_stays_in_its_chats [OF sch _ run] by blast
  then show ?thesis by (simp add: rq)
qed

text \<open>
  The forward has no chat of that name: whatever an agent adds under it decides instead of the
  target, and a null switches the list off.
\<close>

lemma forward_list_is_off:
  assumes "map_of args ''chat_id'' = Some JNull"
  shows "authorize_chat e s ctx route (chat_arg args) w = authorize s ctx route None w (te_now e) (te_wall e)"
  by (simp add: chat_arg_def assms authorize_chat_def)

lemma forward_sends_its_target:
  assumes "rest_handler e ''POST'' ''/messages/forward'' No_args All_args c args w = (r, w')"
    and "mw_calls w' = mw_calls w @ [(route, q)]"
  shows "rc_json q = Some (JObj (clean args []))"
  using rest_handler_calls [OF assms(1)] assms(2)
  by (auto simp: calls_from_def call_from_def apply_args_def)

lemma write_tools_without_chat:
  "map tl_name (filter (\<lambda>t. is_write t \<and> \<not> needs_chat (tl_schema t)) (ACCOUNT_TOOLS @ RW_TOOLS)) =
    [''join_chat'', ''forward_message'', ''block_user'', ''unblock_user'', ''create_group'', ''import_contacts'',
     ''remove_contact'', ''create_folder'', ''update_folder'', ''delete_folder'', ''start_bot'', ''send_to_person'',
     ''contact_by_phone'', ''create_upload'']"
  by code_simp

subsection \<open>Ids there and back\<close>







subsection \<open>The audit of a call\<close>

definition new_rows :: "auth_sys \<Rightarrow> auth_sys \<Rightarrow> audit_log list" where
  "new_rows s s' = drop (length (as_audit s)) (as_audit s')"

lemma authorize_chat_audit: "authorize_chat e s ctx route chat w = (d, s') \<Longrightarrow> as_audit s' = as_audit s"
  by (auto simp: authorize_chat_def split: option.splits json.splits prod.splits if_splits
      dest!: authorize_keeps same_but_modeD(4))

lemma mcp_audit_rows:
  "as_audit (mcp_audit e ctx route w st chat target dig err s) =
    (case (bigint_column e chat, bigint_column e target) of
       (Some ch, Some t) \<Rightarrow> as_audit s @ [\<lparr>log_ts = te_wall e, log_account_id = ctx_account_id ctx,
         log_alias = (if ctx_scope ctx \<noteq> ''owner'' then ctx_alias ctx else Some ''owner''), log_tool = route, log_is_write = w,
         log_chat_id = ch, log_target_user_id = t, log_params_digest = dig, log_status = st, log_error = err\<rparr>]
     | _ \<Rightarrow> as_audit s)"
  by (auto simp: mcp_audit_def audit_def write_audit_log_def split: option.splits)

lemma do_rest_audit:
  assumes "\<And>n q s. as_audit (snd (te_endpoint e n q s)) = as_audit s" and "do_rest e c m p q j ps w = (r, w')"
  shows "as_audit (mw_sys w') = as_audit (mw_sys w)"
proof -
  have i: "as_audit (mw_sys (snd (invoke_call e x w))) = as_audit (mw_sys w)" for x
    by (simp add: invoke_call_def case_prod_unfold assms(1) split: option.split)
  have "w' = snd (invoke_call e \<lparr>rc_platform = cl_platform c, rc_method = m, rc_path = p, rc_state = caller_state c,
      rc_query = q, rc_json = j, rc_parts = ps\<rparr> w)"
    using assms(2) by (auto simp: do_rest_def Let_def case_prod_unfold split: if_splits)
  then show ?thesis by (simp add: i)
qed

text \<open>A handler changes the world by one REST call at most.\<close>

lemma run_handler_world:
  assumes "run_handler e h c args w = (r, w')"
  shows "w' = w \<or> (\<exists>m p q j ps r0. do_rest e c m p q j ps w = (r0, w'))"
proof (cases h)
  case (Rest m p q b)
  then show ?thesis using assms by (auto simp: run_handler_def rest_handler_def split: sum.splits)
next
  case Send_album
  then show ?thesis using assms
    by (auto simp: run_handler_def send_album_def with_chat_def split: sum.splits option.splits if_splits)
next
  case Download_media
  show ?thesis
  proof (cases "(map_of args ''chat_id'', map_of args ''message_id'')")
    case (Pair x y)
    show ?thesis
    proof (cases "x = None \<or> y = None")
      case True
      with Pair Download_media assms show ?thesis by (auto simp: run_handler_def download_media_def split: option.splits)
    next
      case False
      with Pair obtain chat message where cm: "map_of args ''chat_id'' = Some chat" "map_of args ''message_id'' = Some message"
        by auto
      let ?g = "do_rest e c ''GET'' (''/messages/'' @ py_str e chat @ ''/'' @ py_str e message) None None None w"
      have "w' = snd ?g"
        using assms Download_media
        by (auto simp: run_handler_def download_media_def cm Let_def split: prod.splits sum.splits json.splits if_splits option.splits)
      then show ?thesis by (metis prod.collapse)
    qed
  qed
next
  case Person_accounts
  show ?thesis
  proof (cases "map_of args ''person_id''")
    case None
    then show ?thesis using assms Person_accounts by (simp add: run_handler_def person_accounts_tool_def)
  next
    case (Some p)
    let ?g = "do_rest e c ''GET'' (''/people/'' @ py_str e p) None None None w"
    have "w' = snd ?g"
      using assms Person_accounts
      by (auto simp: run_handler_def person_accounts_tool_def Some split: prod.splits sum.splits json.splits option.splits)
    then show ?thesis by (metis prod.collapse)
  qed
next
  case Create_upload
  then show ?thesis using assms by (auto simp: run_handler_def create_upload_def split: option.splits sum.splits)
qed (use assms in \<open>auto simp: run_handler_def send_file_def send_voice_def send_video_note_def send_file_part_def
    with_chat_def split: sum.splits option.splits\<close>)

lemma run_handler_audit:
  assumes "\<And>n q s. as_audit (snd (te_endpoint e n q s)) = as_audit s" and "run_handler e h c args w = (r, w')"
  shows "as_audit (mw_sys w') = as_audit (mw_sys w)"
  using run_handler_world [OF assms(2)] do_rest_audit [OF assms(1)] by blast

text \<open>The values of a call that its audit row stores.\<close>

definition row_lost :: "tool_env \<Rightarrow> tool \<Rightarrow> dict \<Rightarrow> tool_reply \<Rightarrow> bool" where
  "row_lost e t args reply \<longleftrightarrow>
     (case target_of e args of
        None \<Rightarrow> reply = Raised
      | Some target \<Rightarrow>
          bigint_column e (audited_chat args) = None \<or> bigint_column e target = None \<or>
          (tl_route t = ''contact_by_phone'' \<and>
             (\<exists>d. reply = Answer (safe_ints (JObj d)) \<and> bigint_column e (get_value d ''user_id'') = None)))"

text \<open>A call that is denied: no such tool for this key, or the decision on its arguments.\<close>

definition call_denied :: "tool_env \<Rightarrow> caller \<Rightarrow> string \<Rightarrow> dict \<Rightarrow> mcp_world \<Rightarrow> bool" where
  "call_denied e c name args w \<longleftrightarrow>
     (case find (\<lambda>t. tl_name t = name) (visible e c) of
        None \<Rightarrow> True
      | Some t \<Rightarrow> (case checked_args e t args of
            Inl err \<Rightarrow> False
          | Inr args' \<Rightarrow> \<not> allowed (fst (authorize_chat e (mw_sys w) (mcp_context c) (tl_route t) (chat_arg args') (is_write t)))))"

text \<open>
  C14 One row for every call. Every tool call, whoever makes it, leaves exactly one audit row, of
  the caller's account and with the status of its end: \<^verbatim>\<open>denied\<close> when the key has no such tool or
  the decision is against it, \<^verbatim>\<open>ok\<close> when it is answered, \<^verbatim>\<open>error\<close> in every other case (bad arguments,
  a failure of the handler). There are two ways to lose the row, both by the arguments: a
  \<^verbatim>\<open>user_ids\<close> that cannot be iterated raises while the target is computed, after the decision and
  before any row, and nothing is called; and a chat or target the bigint columns do not take makes
  the row's insert fail, after the tool has run.
\<close>
theorem mcp_call_leaves_one_row:
  assumes quiet: "\<And>n q s. as_audit (snd (te_endpoint e n q s)) = as_audit s"
    and run: "call_tool e c name args w = (reply, w')"
  shows "(\<exists>row. as_audit (mw_sys w') = as_audit (mw_sys w) @ [row] \<and> log_account_id row = cl_account_id c \<and>
       log_ts row = te_wall e \<and>
       log_status row = (if call_denied e c name args w then ''denied'' else if \<exists>v. reply = Answer v then ''ok'' else ''error'') \<and>
       (\<forall>t. find (\<lambda>t. tl_name t = name) (visible e c) = Some t \<longrightarrow> log_tool row = tl_route t \<and> log_is_write row = is_write t)) \<or>
    as_audit (mw_sys w') = as_audit (mw_sys w) \<and>
      (\<exists>t args'. find (\<lambda>t. tl_name t = name) (visible e c) = Some t \<and> checked_args e t args = Inr args' \<and> row_lost e t args' reply)"
proof (cases "find (\<lambda>t. tl_name t = name) (visible e c)")
  case None
  then show ?thesis using run
    by (auto simp: call_tool_def call_denied_def denied_call_def Let_def mcp_audit_rows bigint_column_def mcp_context_def)
next
  case (Some t)
  show ?thesis
  proof (cases "checked_args e t args")
    case (Inl err)
    then show ?thesis using run Some
      by (auto simp: call_tool_def call_denied_def Let_def mcp_audit_rows bigint_column_def mcp_context_def)
  next
    case (Inr args')
    obtain d s where d: "authorize_chat e (mw_sys w) (mcp_context c) (tl_route t) (chat_arg args') (is_write t) = (d, s)"
      by (rule prod.exhaust)
    note s = authorize_chat_audit [OF d]
    show ?thesis
    proof (cases "target_of e args'")
      case None
      then show ?thesis using run Some Inr d s by (auto simp: call_tool_def call_denied_def Let_def row_lost_def)
    next
      case (Some target)
      show ?thesis
      proof (cases "allowed d")
        case False
        then show ?thesis using run \<open>find _ _ = Some t\<close> Inr d s Some
          by (auto simp: call_tool_def call_denied_def Let_def row_lost_def mcp_audit_rows mcp_context_def split: option.splits)
      next
        case True
        define dig where "dig = (if is_write t then Some (mcp_digest e args') else None)"
        have p: "perform e c t args' target dig (w\<lparr>mw_sys := s\<rparr>) = (reply, w')"
          using run \<open>find _ _ = Some t\<close> Inr d Some True by (simp add: call_tool_def Let_def dig_def)
        obtain r w1 where r: "run_handler e (tl_call t) c args' (w\<lparr>mw_sys := s\<rparr>) = (r, w1)" by (rule prod.exhaust)
        have w1: "as_audit (mw_sys w1) = as_audit (mw_sys w)" using run_handler_audit [OF quiet r] s by simp
        show ?thesis
        proof (cases r)
          case (Inl x)
          then show ?thesis using p r w1 Some Inr \<open>find _ _ = Some t\<close> \<open>checked_args e t args = Inr args'\<close> d True
            by (cases x; auto simp: call_denied_def perform_def Let_def row_lost_def mcp_audit_rows mcp_context_def split: option.splits)
        next
          case (Inr v)
          then show ?thesis using p r w1 Some \<open>checked_args e t args = Inr args'\<close> \<open>find _ _ = Some t\<close> d True
            by (cases v; auto simp: call_denied_def perform_def Let_def row_lost_def mcp_audit_rows mcp_context_def
                simp del: safe_ints.simps split: option.splits if_splits)
        qed
      qed
    qed
  qed
qed

theorem mcp_call_leaves_one_row_witness:
  "\<exists>row. as_audit (mw_sys (snd (call_tool acme_tools acme_mcp_caller ''nope'' [] acme_world))) = [row] \<and>
     log_account_id row = Some 2 \<and> log_status row = ''denied''"
proof -
  obtain reply w' where run: "call_tool acme_tools acme_mcp_caller ''nope'' [] acme_world = (reply, w')"
    by (rule prod.exhaust)
  have none: "find (\<lambda>t. tl_name t = ''nope'') (visible acme_tools acme_mcp_caller) = None"
  proof -
    have "tl_name t \<noteq> ''nope''" if "t \<in> set acme_visible" for t
    proof -
      have "(tl_name t, is_write t) \<in> set (map (\<lambda>t. (tl_name t, is_write t)) acme_visible)" using that by simp
      then show ?thesis unfolding acme_visible_names by auto
    qed
    then show ?thesis by (auto simp: find_None_iff acme_visible_def)
  qed
  have quiet: "as_audit (snd (te_endpoint acme_tools n q s)) = as_audit s" for n q s by (simp add: acme_tools_def)
  have "as_audit (mw_sys acme_world) = []" by (simp add: acme_world_def acme_sys_def)
  moreover have "cl_account_id acme_mcp_caller = Some 2" by (simp add: acme_mcp_caller_def)
  ultimately show ?thesis
    using mcp_call_leaves_one_row [OF quiet run] none by (auto simp: run call_denied_def)
qed

subsection \<open>Two ways around the guards\<close>

text \<open>
  An argument the schema does not know, a text as \<^verbatim>\<open>user_id\<close>: the message goes out, the row is
  refused by the driver, and the hourly limit, which counts rows, does not see the write.
\<close>

definition send_tool :: tool where
  "send_tool = \<lparr>tl_name = ''send_message'',
     tl_schema = widen_ids (account_schema ''send_message'' (case map_of STDIO_TOOLS ''send_message'' of
       Some schema \<Rightarrow> schema | None \<Rightarrow> JNull)),
     tl_route = ''send_message'', tl_call = Rest ''POST'' ''/messages'' No_args All_args, tl_audience = ''account''\<rparr>"

definition odd_args :: dict where
  "odd_args = [(''chat_id'', JInt 117), (''text'', JStr ''hi''), (''user_id'', JStr ''x'')]"

definition unrecorded :: "tool_reply \<times> mcp_world" where
  "unrecorded = perform acme_tools acme_mcp_caller send_tool odd_args (Some (JStr ''x'')) None acme_world"

lemma send_tool_listed: "find (\<lambda>t. tl_name t = ''send_message'') account_tools = Some send_tool"
  by code_simp

lemma odd_args_pass: "checked_args acme_tools send_tool odd_args = Inr odd_args"
  by code_simp

lemma odd_target: "target_of acme_tools odd_args = Some (Some (JStr ''x''))"
  by code_simp

lemma unrecorded_write: "map fst (mw_calls (snd unrecorded)) = [''send_message'']"
  by code_simp

lemma unrecorded_row: "as_audit (mw_sys (snd unrecorded)) = []"
  by code_simp

text \<open>
  A null under a name the schema does not know: the account may write to chats 5 and 117 only, the
  forward goes to 666.
\<close>

definition forward_tools :: tool_env where
  "forward_tools = acme_tools\<lparr>te_routes := (\<lambda>p. [acme_entry ''POST'' ''/api/v1/_max/messages/forward'' ''forward_message''])\<rparr>"

definition forward_tool :: tool where
  "forward_tool = \<lparr>tl_name = ''forward_message'',
     tl_schema = widen_ids (account_schema ''forward_message'' (case map_of STDIO_TOOLS ''forward_message'' of
       Some schema \<Rightarrow> schema | None \<Rightarrow> JNull)),
     tl_route = ''forward_message'', tl_call = Rest ''POST'' ''/messages/forward'' No_args All_args, tl_audience = ''account''\<rparr>"

definition forward_args :: dict where
  "forward_args = [(''from_chat_id'', JInt 5), (''to_chat_id'', JInt 666), (''message_id'', JInt 1), (''chat_id'', JNull)]"

lemma forward_tool_listed: "find (\<lambda>t. tl_name t = ''forward_message'') account_tools = Some forward_tool"
  by code_simp

lemma forward_args_pass: "checked_args forward_tools forward_tool forward_args = Inr forward_args"
  by code_simp

lemma forward_allowed:
  "map_option allowed (Some (fst (authorize_chat forward_tools (mw_sys acme_world) (mcp_context acme_mcp_caller)
     ''forward_message'' (chat_arg forward_args) True))) = Some True"
  by code_simp

lemma forward_leaves_the_list:
  "map (rc_json \<circ> snd) (mw_calls (snd (perform forward_tools acme_mcp_caller forward_tool forward_args None None acme_world))) =
    [Some (JObj [(''from_chat_id'', JInt 5), (''to_chat_id'', JInt 666), (''message_id'', JInt 1)])]"
  by code_simp

end
