(* ===== verification/Spec2Isabelle.thy ===== *)
theory Spec2Isabelle
  imports Write_Limits_Props Phone_Props Middleware_Props People_Props Max_Connection_Props Max_Session_Props Max_Rights_Props Max_Markup_Props Max_Ingest_Props Max_Normalize_Props Raw_Json_Props Tg_Props Tg_Auth_Props Max_Pool_Props Mcp_Files_Props Mcp_Props
begin

text \<open>
  TG-MyPerson is a bridge: an HTTP service that holds the sessions of personal Telegram and MAX
  accounts, keeps their chats, messages and contacts in PostgreSQL and offers them to agents as
  tools behind keys, policies and write limits. This development models the parts of
  \<^verbatim>\<open>src/app\<close> that decide: who may call what, how often an account may write, who is the same
  person, what is stored of a history, and when a session connects. Texts are lists of characters
  below 256, times are microseconds, a table is the list of its rows in insertion order, an
  exception is a value of a sum or option type, a database transaction is a function on tables.

  \<^bold>\<open>Theories and sources.\<close>
  \<^item> \<^verbatim>\<open>Bridge_Prelude\<close>: JSON values, decimal printing, the string, clock and table operations
    of Python and SQL the sources use, and the locales \<^verbatim>\<open>preserved\<close> and \<^verbatim>\<open>traced\<close>
    (invariants of step relations, the second over the events so far).
  \<^item> \<^verbatim>\<open>Control_Tables\<close>: the control tables of \<^verbatim>\<open>models.py\<close> the services share.
  \<^item> \<^verbatim>\<open>Write_Limits\<close>, \<^verbatim>\<open>_Facts\<close>, \<^verbatim>\<open>_Props\<close>: \<^verbatim>\<open>authz/write_limits.py\<close> and
    \<^verbatim>\<open>api/write_limits_admin.py\<close>. Settings, sliding windows, reservation of slots and bundles
    under the account's lock, release, status. The facts prove the counters against the locale
    \<^verbatim>\<open>sliding_counter\<close> and the system of concurrent reservations by an invariant.
  \<^item> \<^verbatim>\<open>Phone\<close>, \<^verbatim>\<open>Phone_Props\<close>: \<^verbatim>\<open>utils/phone.py\<close>, the normal form of numbers and the masks.
  \<^item> \<^verbatim>\<open>Tool_Catalog\<close>, \<^verbatim>\<open>Route_Table\<close>, \<^verbatim>\<open>Auth_State\<close>, \<^verbatim>\<open>Api_Keys\<close>, \<^verbatim>\<open>Authz_Policy\<close>,
    \<^verbatim>\<open>Middleware\<close>, \<^verbatim>\<open>Accounts_Admin\<close> with \<^verbatim>\<open>Middleware_Facts\<close>, \<^verbatim>\<open>_Props\<close>:
    \<^verbatim>\<open>authz/\<close>, \<^verbatim>\<open>api/admin_keys.py\<close>, \<^verbatim>\<open>api/accounts.py\<close> and the stack as
    \<^verbatim>\<open>main.py\<close> registers it. A request passes audit, authentication, administration, alias,
    platform and tool guard; the three caches interpret the locale \<^verbatim>\<open>ttl_read\<close>.
  \<^item> \<^verbatim>\<open>People\<close>, \<^verbatim>\<open>_Facts\<close>, \<^verbatim>\<open>_Props\<close>: \<^verbatim>\<open>repo/people.py\<close>,
    \<^verbatim>\<open>repo/people_queries.py\<close>. Identities, automatic and manual merges, the ways to reach a
    person; consistency of the tables is an invariant of every operation.
  \<^item> \<^verbatim>\<open>Chat_Tables\<close>, \<^verbatim>\<open>Chat_Facts\<close>: the tables of an account and the operations of
    \<^verbatim>\<open>repo/chats.py\<close>, \<^verbatim>\<open>messages.py\<close>, \<^verbatim>\<open>media.py\<close>, \<^verbatim>\<open>sync_state.py\<close>.
  \<^item> \<^verbatim>\<open>Raw_Json\<close>, \<^verbatim>\<open>Raw_Json_Props\<close>: \<^verbatim>\<open>utils/raw.py\<close>, from Python values to jsonb.
  \<^item> \<^verbatim>\<open>Max_Normalize\<close>, \<^verbatim>\<open>_Props\<close>: \<^verbatim>\<open>max/normalize.py\<close>, PyMax objects and raw frames to rows.
  \<^item> \<^verbatim>\<open>Max_Store\<close>, \<^verbatim>\<open>Max_Store_Facts\<close>: \<^verbatim>\<open>max/store_new.py\<close>; the facts prove that it
    refines operations on an abstract history of each chat (the ids stored and the cursor).
  \<^item> \<^verbatim>\<open>Max_Sync\<close>, \<^verbatim>\<open>_Facts\<close>, \<^verbatim>\<open>_Props\<close>: the loops of \<^verbatim>\<open>max/sync.py\<close>, proved from the
    locale \<^verbatim>\<open>message_store\<close>, which the account's tables interpret.
  \<^item> \<^verbatim>\<open>Max_Connection\<close>, \<^verbatim>\<open>_Facts\<close>, \<^verbatim>\<open>_Props\<close>: live events, lost connections and
    catch-up passes as interleaved steps on the same tables.
  \<^item> \<^verbatim>\<open>Max_Ingest\<close>, \<^verbatim>\<open>_Facts\<close>, \<^verbatim>\<open>_Props\<close>: \<^verbatim>\<open>max/ingest.py\<close> with the journal of
    \<^verbatim>\<open>repo/raw_events.py\<close>. Every frame is a task of up to four transactions; the tasks of a chat
    queue at its lock, whose locale \<^verbatim>\<open>fifo_lock\<close> the steps interpret as \<^verbatim>\<open>chat_lock\<close>.
  \<^item> \<^verbatim>\<open>Max_Markup\<close>, \<^verbatim>\<open>_Props\<close>: \<^verbatim>\<open>max/html_text.py\<close> and the text part of
    \<^verbatim>\<open>max/frames.py\<close>. \<^verbatim>\<open>Max_Rights\<close>, \<^verbatim>\<open>_Props\<close>: the rights of \<^verbatim>\<open>max/groups.py\<close>.
  \<^item> \<^verbatim>\<open>Session_Store\<close>, \<^verbatim>\<open>_Facts\<close>: \<^verbatim>\<open>max/store.py\<close>; the locale \<^verbatim>\<open>token_store\<close> is
    PyMax's contract of a session store, interpreted by the database and by the seeded store.
  \<^item> \<^verbatim>\<open>Max_Login\<close>, \<^verbatim>\<open>Max_Session\<close>, \<^verbatim>\<open>_Facts\<close>, \<^verbatim>\<open>_Props\<close>: \<^verbatim>\<open>max/errors.py\<close>,
    \<^verbatim>\<open>max/auth.py\<close>, \<^verbatim>\<open>max/session.py\<close>, \<^verbatim>\<open>services/account_identity.py\<close>: the login,
    the supervisor and the state machine of a session as a step relation. \<^verbatim>\<open>Max_Pool\<close>,
    \<^verbatim>\<open>Max_Pool_Props\<close>: \<^verbatim>\<open>max/pool.py\<close> as interleaved steps; its invariant over the events
    so far interprets the locale \<^verbatim>\<open>traced\<close>.
  \<^item> \<^verbatim>\<open>Tg_Normalize\<close>, \<^verbatim>\<open>Tg_Store\<close>, \<^verbatim>\<open>Tg_Backfill\<close>, \<^verbatim>\<open>Tg_Facts\<close>, \<^verbatim>\<open>Tg_Props\<close>: the rows of
    \<^verbatim>\<open>services/chat_service.py\<close>, \<^verbatim>\<open>message_service.py\<close>, \<^verbatim>\<open>user_service.py\<close>, the writes of
    \<^verbatim>\<open>tg_store.py\<close> and \<^verbatim>\<open>repo/snapshots.py\<close>, the walk of \<^verbatim>\<open>backfill_service.py\<close> over the
    pages Telegram answers and the cursor it saves.
  \<^item> \<^verbatim>\<open>Tg_Session\<close>, \<^verbatim>\<open>Tg_Auth\<close>, \<^verbatim>\<open>Tg_Auth_Props\<close>: \<^verbatim>\<open>telegram/session.py\<close> (the client
    object, its identity check) and \<^verbatim>\<open>api/auth.py\<close> (logins, import, logout on the tables of
    accounts and sessions). \<^verbatim>\<open>Tg_Pool\<close>, \<^verbatim>\<open>Tg_Pool_Facts\<close>, \<^verbatim>\<open>Tg_Pool_Props\<close>:
    \<^verbatim>\<open>telegram/pool.py\<close> as labelled steps over all session objects, the pool and the queue at
    each alias's lock; its two invariants interpret the locale \<^verbatim>\<open>preserved\<close>.
  \<^item> \<^verbatim>\<open>Decimal\<close>: \<^verbatim>\<open>str(int)\<close> and \<^verbatim>\<open>int(str)\<close>. \<^verbatim>\<open>Mcp_Files\<close>, \<^verbatim>\<open>Mcp_Files_Props\<close>:
    \<^verbatim>\<open>mcp/files.py\<close> and \<^verbatim>\<open>api/files.py\<close>, signed links and uploads.
  \<^item> \<^verbatim>\<open>Mcp_Tools\<close> (the handlers and ids of \<^verbatim>\<open>mcp/tools.py\<close>, \<^verbatim>\<open>mcp/invoke.py\<close>),
    \<^verbatim>\<open>Mcp_Catalog\<close> (its tables of tools and what a caller sees of them), \<^verbatim>\<open>Mcp_Server\<close>
    (\<^verbatim>\<open>mcp/server.py\<close>: the caller of a key, the checks of a call, its audit row),
    \<^verbatim>\<open>Mcp_Facts\<close>, \<^verbatim>\<open>Mcp_Props\<close>.

  The parts meet in the records: the middleware reads the keys and accounts that the admin
  endpoints write, a reservation is made by the guard's account, the session's identity check
  writes the account whose id the chat tables use as their own user, the connection steps use the
  store the sync loops use, and its \<^verbatim>\<open>caught_up\<close> is emptied by the session's
  \<^verbatim>\<open>begin_attempt\<close>. A tool call looks its key up in the middleware's cache, asks the same
  policy as a REST call and writes the same audit table; what it calls behind the policy is
  recorded in \<^verbatim>\<open>mw_calls\<close>.

  \<^bold>\<open>What the properties show\<close>, by their claim ids.
  \<^item> Writes (C1-C5): the limits and distances hold under every interleaving, a refusal is exact
    and its retry time suffices, a slot is returned only when nothing was sent.
  \<^item> Calls (C8-C11): what a request that reaches a route has passed, which keys are live and how
    long a revoked one lasts.
  \<^item> Agents (C12-C17): what a tool call that reaches a route has passed, that it stays in the chats
    of its account, its audit row, what a signed link opens, where an upload lands, and that the
    ids of an answer can be given back.
  \<^item> Numbers and contacts (C6, C19-C21): one normal form, the consistency of persons, merges that
    respect pins, a listing that agrees with what a send does.
  \<^item> MAX logins and sessions (C7, C33, C38-C40): limits of passwords, the stored session,
    one session object per alias, that only the account's own user is stored, and what a foreign
    import destroys.
  \<^item> MAX histories (C22-C24, C26, C29-C31): refinement of the tables, what a pass reaches, no gap
    behind a cursor, the order of frames and deletions, the journal.
  \<^item> MAX rights and texts (C18, C25) and jsonb (C32).
  \<^item> Telegram (C27, C28, C34-C37): no gap left by a backfill, what "fully synced" means, one
    client per alias and of the account's user, and what an import or a logout stores.

  \<^bold>\<open>Parameters and assumptions.\<close> SHA-256, random tokens, Starlette's \<^verbatim>\<open>compile_path\<close>,
  the JSON texts, PyMax's \<^verbatim>\<open>SessionInfo\<close> and its \<^verbatim>\<open>model_validate\<close>, the events of Python's
  \<^verbatim>\<open>HTMLParser\<close>, Telethon's session strings, \<^verbatim>\<open>to_dict\<close> and \<^verbatim>\<open>html.unparse\<close>, the collation
  and ILIKE of PostgreSQL, and what the messengers answer are arguments; laws about them are named
  hypotheses. So are, for the tools of agents, HMAC-SHA256 (unforgeable: \<^verbatim>\<open>only_issued\<close>), the
  texts of floats and JSON, \<^verbatim>\<open>jsonschema\<close>, \<^verbatim>\<open>urlparse\<close>, name resolution, \<^verbatim>\<open>ipaddress\<close>,
  the fetch of a URL, asyncpg's conversion to BIGINT (\<^verbatim>\<open>te_column\<close>) and the endpoints behind a
  tool; base64 is written out. The clock is read once per operation and does not run backward between the
  transactions of an account; background writes (touching a key, the audit row) count as done. A
  transaction commits as a whole; a unique key makes the second insert fail. The history loops of
  MAX count pages as fuel and their limit bounds them (C23); the walk of a Telegram backfill takes
  one message from its limit each time, which is the fuel, and every answer of Telegram holds
  messages of the chat beyond the offset in order, or fails. A page of MAX holds the next messages
  from its time on, and the functional properties of a pass take the stores to succeed and the
  messages of a chat to have different milliseconds (\<^verbatim>\<open>equal_times_repeat\<close> shows what happens
  otherwise). A catch-up pass ends with its connection. Only \<^verbatim>\<open>stop\<close> cancels a supervisor, and a
  REST call runs without interruption up to its waits. Requests at a Telegram pool run up to the
  awaits of the lock and of the connection; everything between two awaits is one step.

  \<^bold>\<open>Not modelled.\<close> The legacy storage mode and the shadow writes to its tables; the endpoints
  that only parse a request, call a messenger library and print its answer; Telethon's event
  handlers, which pass an event to the modelled store; media transfers to and from the
  messengers and photo sizes; the joins behind search and listings; of the MCP server the SDK's
  transport, the ASGI scope, the multipart encoding and the descriptions of the tools; migrations,
  scripts and settings.
  PROJECT.json lists them with the reason.
\<close>

end
